(* ===== verification/Prelude.thy ===== *)
theory Prelude
  imports Main "HOL-Library.Word" "HOL-Library.Multiset" "HOL-Library.List_Lexorder"
    "HOL-Library.Char_ord"
begin

text \<open>Shared ground of the development: the fallible-result type, the parts of Go's
  strings and slices packages the daemon calls, and the generic lemmas on lists the
  components use.  A Go string is a list of bytes, here a \<^typ>\<open>string\<close>; case folding and
  white space are the ASCII ones (the inputs the daemon folds are keywords, interface names,
  section headers and file names; other bytes are left alone).\<close>

unbundle bit_operations_syntax

named_theorems str_simps "evaluation of the string helpers"
named_theorems inv_intros "introduction rules for component invariants"

section \<open>Fallible results\<close>

text \<open>A Go pair (value, error) with a nil error is \<^term>\<open>Inr\<close> of the value, with an error \<^term>\<open>Inl\<close>.\<close>

type_synonym ('e, 'a) result = "'e + 'a"

primrec bind_res :: "('e, 'a) result \<Rightarrow> ('a \<Rightarrow> ('e, 'b) result) \<Rightarrow> ('e, 'b) result" where
  "bind_res (Inl e) f = Inl e"
| "bind_res (Inr a) f = f a"

lemma bind_res_eq_Inr [simp]: "bind_res m f = Inr b \<longleftrightarrow> (\<exists>a. m = Inr a \<and> f a = Inr b)"
  by (cases m) auto

lemma bind_res_eq_Inl: "bind_res m f = Inl e \<longleftrightarrow> m = Inl e \<or> (\<exists>a. m = Inr a \<and> f a = Inl e)"
  by (cases m) auto

fun map_res :: "('a \<Rightarrow> ('e, 'b) result) \<Rightarrow> 'a list \<Rightarrow> ('e, 'b list) result" where
  "map_res f [] = Inr []"
| "map_res f (x # xs) = bind_res (f x) (\<lambda>y. bind_res (map_res f xs) (\<lambda>ys. Inr (y # ys)))"

lemma map_res_eq_Inr: "map_res f xs = Inr ys \<longleftrightarrow> list_all2 (\<lambda>x y. f x = Inr y) xs ys"
  by (induction xs arbitrary: ys) (auto simp: list_all2_Cons1)

section \<open>Strings\<close>

definition is_space :: "char \<Rightarrow> bool" where
  "is_space c \<longleftrightarrow> c = CHR '' '' \<or> (9 \<le> (of_char c :: nat) \<and> (of_char c :: nat) \<le> 13)"

definition trim_space :: "string \<Rightarrow> string" where
  "trim_space s = rev (dropWhile is_space (rev (dropWhile is_space s)))"

definition lower_char :: "char \<Rightarrow> char" where
  "lower_char c = (if 65 \<le> (of_char c :: nat) \<and> (of_char c :: nat) \<le> 90
     then char_of (of_char c + 32 :: nat) else c)"

definition to_lower :: "string \<Rightarrow> string" where
  "to_lower s = map lower_char s"

definition equal_fold :: "string \<Rightarrow> string \<Rightarrow> bool" where
  "equal_fold a b \<longleftrightarrow> to_lower a = to_lower b"

definition has_prefix :: "string \<Rightarrow> string \<Rightarrow> bool" where
  "has_prefix s p \<longleftrightarrow> take (length p) s = p"

definition trim_prefix :: "string \<Rightarrow> string \<Rightarrow> string" where
  "trim_prefix s p = (if has_prefix s p then drop (length p) s else s)"

text \<open>strings.Cut at a one-byte separator: the text before and after the first one.\<close>

fun cut :: "char \<Rightarrow> string \<Rightarrow> (string \<times> string) option" where
  "cut sep [] = None"
| "cut sep (c # cs) = (if c = sep then Some ([], cs)
     else map_option (\<lambda>(a, b). (c # a, b)) (cut sep cs))"

text \<open>strings.Split at a one-byte separator: never the empty list.\<close>

fun split_on :: "char \<Rightarrow> string \<Rightarrow> string list" where
  "split_on sep [] = [[]]"
| "split_on sep (c # cs) = (if c = sep then [] # split_on sep cs
     else (case split_on sep cs of [] \<Rightarrow> [[c]] | w # ws \<Rightarrow> (c # w) # ws))"

fun join :: "string \<Rightarrow> string list \<Rightarrow> string" where
  "join sep [] = []"
| "join sep [s] = s"
| "join sep (s # t # ss) = s @ sep @ join sep (t # ss)"

lemma split_on_not_Nil [simp]: "split_on sep s \<noteq> []"
  by (cases s) (auto split: list.splits)

lemma cut_SomeD: "cut sep s = Some (a, b) \<Longrightarrow> s = a @ sep # b \<and> sep \<notin> set a"
proof (induction s arbitrary: a)
  case (Cons c cs)
  then show ?case by (cases "c = sep") auto
qed simp

lemma cut_append [simp]: "sep \<notin> set a \<Longrightarrow> cut sep (a @ sep # b) = Some (a, b)"
  by (induction a) auto

lemma cut_None_iff: "cut sep s = None \<longleftrightarrow> sep \<notin> set s"
  by (induction s) auto

lemma split_on_no_sep [simp]: "sep \<notin> set s \<Longrightarrow> split_on sep s = [s]"
  by (induction s) auto

lemma split_on_append [simp]:
  "sep \<notin> set a \<Longrightarrow> split_on sep (a @ sep # b) = a # split_on sep b"
  by (induction a) (auto split: list.splits)

lemma split_on_pieces: "\<forall>w \<in> set (split_on sep s). sep \<notin> set w"
  by (induction s) (auto split: list.splits)

lemma split_on_join:
  "ws \<noteq> [] \<Longrightarrow> \<forall>w \<in> set ws. sep \<notin> set w \<Longrightarrow> split_on sep (join [sep] ws) = ws"
  by (induction "[sep]" ws rule: join.induct) auto

lemma trim_space_Nil [simp]: "trim_space [] = []"
  by (simp add: trim_space_def)

lemma dropWhile_idem: "dropWhile P (dropWhile P xs) = dropWhile P xs"
  by (induction xs) auto

lemma dropWhile_eq_self: "xs = [] \<or> \<not> P (hd xs) \<Longrightarrow> dropWhile P xs = xs"
  by (cases xs) auto

lemma trim_space_id:
  assumes "s = [] \<or> \<not> is_space (hd s)" and "s = [] \<or> \<not> is_space (last s)"
  shows "trim_space s = s"
proof -
  have "dropWhile is_space s = s" using assms(1) by (rule dropWhile_eq_self)
  moreover have "dropWhile is_space (rev s) = rev s"
    using assms(2) by (intro dropWhile_eq_self) (auto simp: hd_rev)
  ultimately show ?thesis by (simp add: trim_space_def)
qed

lemma has_prefix_append [simp]: "has_prefix (p @ s) p"
  by (simp add: has_prefix_def)

lemma has_prefixE: "has_prefix s p \<Longrightarrow> \<exists>t. s = p @ t"
  by (metis append_take_drop_id has_prefix_def)

lemma equal_fold_refl [simp]: "equal_fold a a"
  by (simp add: equal_fold_def)

lemmas string_defs = is_space_def trim_space_def lower_char_def to_lower_def
  equal_fold_def has_prefix_def trim_prefix_def

section \<open>Decimal text\<close>

function dec_rev :: "int \<Rightarrow> string" where
  "dec_rev n = (if n < 10 then [char_of (48 + n)] else char_of (48 + n mod 10) # dec_rev (n div 10))"
  by auto
termination by (relation "measure nat") auto

declare dec_rev.simps [simp del]

definition itoa :: "int \<Rightarrow> string" where
  "itoa i = (if i < 0 then CHR ''-'' # rev (dec_rev (- i)) else rev (dec_rev i))"

abbreviation itoa_nat :: "nat \<Rightarrow> string" where
  "itoa_nat n \<equiv> itoa (int n)"

definition is_digit :: "char \<Rightarrow> bool" where
  "is_digit c \<longleftrightarrow> 48 \<le> (of_char c :: int) \<and> (of_char c :: int) \<le> 57"

definition digit_val :: "char \<Rightarrow> int" where
  "digit_val c = of_char c - 48"

definition dec_val :: "string \<Rightarrow> int" where
  "dec_val s = foldl (\<lambda>n c. 10 * n + digit_val c) 0 s"

text \<open>Reading an unsigned decimal (digits only, at least one), of any size.\<close>

definition parse_dec :: "string \<Rightarrow> int option" where
  "parse_dec s = (if s \<noteq> [] \<and> list_all is_digit s then Some (dec_val s) else None)"

lemma digit_char [simp]:
  "0 \<le> d \<Longrightarrow> d < 10 \<Longrightarrow> is_digit (char_of (48 + d)) \<and> digit_val (char_of (48 + d)) = d"
  by (simp add: is_digit_def digit_val_def)

lemma dec_rev_spec:
  "0 \<le> n \<Longrightarrow> list_all is_digit (dec_rev n) \<and> dec_rev n \<noteq> [] \<and>
     foldr (\<lambda>c n. 10 * n + digit_val c) (dec_rev n) 0 = n"
proof (induction n rule: dec_rev.induct)
  case (1 n)
  show ?case
  proof (cases "n < 10")
    case True
    then show ?thesis using 1(2) by (simp add: dec_rev.simps [of n])
  next
    case False
    then have "list_all is_digit (dec_rev (n div 10)) \<and>
      foldr (\<lambda>c n. 10 * n + digit_val c) (dec_rev (n div 10)) 0 = n div 10"
      using 1 by simp
    with False show ?thesis by (simp add: dec_rev.simps [of n])
  qed
qed

lemma parse_dec_itoa [simp]: "0 \<le> n \<Longrightarrow> parse_dec (itoa n) = Some n"
  using dec_rev_spec [of n]
  by (simp add: parse_dec_def dec_val_def itoa_def foldl_conv_foldr list_all_iff)

lemma itoa_inj: "0 \<le> a \<Longrightarrow> 0 \<le> b \<Longrightarrow> itoa a = itoa b \<Longrightarrow> a = b"
  by (metis option.inject parse_dec_itoa)

lemma itoa_digits: "0 \<le> n \<Longrightarrow> c \<in> set (itoa n) \<Longrightarrow> is_digit c"
  using dec_rev_spec [of n] by (simp add: itoa_def list_all_iff)

lemma itoa_not_Nil [simp]: "itoa n \<noteq> []"
  by (simp add: itoa_def dec_rev.simps [of n] dec_rev.simps [of "- n"])

lemma dec_rev_last: "10 \<le> n \<Longrightarrow> last (dec_rev n) \<noteq> CHR ''0''"
proof (induction n rule: dec_rev.induct)
  case (1 n)
  have ne: "dec_rev (n div 10) \<noteq> []" by (simp add: dec_rev.simps [of "n div 10"])
  show ?case
  proof (cases "n div 10 < 10")
    case True
    then have "1 \<le> n div 10" using 1(2) by simp
    then have "digit_val (char_of (48 + n div 10)) \<noteq> 0"
      using True by simp
    moreover have "digit_val CHR ''0'' = 0" by (simp add: digit_val_def)
    ultimately have "char_of (48 + n div 10) \<noteq> CHR ''0''" by metis
    with True 1(2) show ?thesis by (simp add: dec_rev.simps [of n] dec_rev.simps [of "n div 10"])
  next
    case False
    with 1 ne show ?thesis by (simp add: dec_rev.simps [of n])
  qed
qed

text \<open>No leading zero.\<close>

lemma hd_itoa: "10 \<le> n \<Longrightarrow> hd (itoa n) \<noteq> CHR ''0''"
  using dec_rev_last [of n] by (simp add: itoa_def hd_rev)

lemma length_itoa_lt10: "0 \<le> n \<Longrightarrow> n < 10 \<Longrightarrow> length (itoa n) = 1"
  by (simp add: itoa_def dec_rev.simps [of n])

lemma itoa_leading: "0 \<le> n \<Longrightarrow> 2 \<le> length (itoa n) \<Longrightarrow> hd (itoa n) \<noteq> CHR ''0''"
  using hd_itoa [of n] length_itoa_lt10 [of n] by (cases "n < 10") auto

section \<open>Lists\<close>

text \<open>The loop that keeps the first occurrence of each key.\<close>

fun dedup :: "'a list \<Rightarrow> 'a list" where
  "dedup [] = []"
| "dedup (x # xs) = x # filter (\<lambda>y. y \<noteq> x) (dedup xs)"

lemma set_dedup [simp]: "set (dedup xs) = set xs"
  by (induction xs) auto

lemma distinct_dedup [simp]: "distinct (dedup xs)"
  by (induction xs) auto

lemma dedup_id: "distinct xs \<Longrightarrow> dedup xs = xs"
  by (induction xs) (auto simp: filter_id_conv)

lemma length_filter_less_iff: "length (filter P xs) < length xs \<longleftrightarrow> (\<exists>x \<in> set xs. \<not> P x)"
  by (induction xs) (auto simp: le_imp_less_Suc)

lemma sum_list_filter_le: "sum_list (map f (filter P xs)) \<le> sum_list (map (f :: 'a \<Rightarrow> nat) xs)"
  by (induction xs) auto

lemma foldl_preserve:
  assumes "I a" and "\<And>b x. I b \<Longrightarrow> x \<in> set xs \<Longrightarrow> I (f b x)"
  shows "I (foldl f a xs)"
  using assms by (induction xs arbitrary: a) auto

end
