(* ===== verification/Net_Prefix.thy ===== *)
theory Net_Prefix
  imports Prelude
begin

text \<open>The part of Go's net/netip the daemon computes with: addresses of both families (zones
  do not occur in the configurations modelled here), prefixes with Contains, Overlaps, Masked and
  IsValid, the dotted IPv4 text of addresses and prefixes.  An address is read most significant
  bit first by \<open>abit\<close>, and every lemma about prefixes is one about those bits, for both families
  at once.\<close>

section \<open>Addresses and prefixes\<close>

datatype addr = V4 "32 word" | V6 "128 word"

fun is4 :: "addr \<Rightarrow> bool" where
  "is4 (V4 _) = True"
| "is4 (V6 _) = False"

fun bit_len :: "addr \<Rightarrow> nat" where
  "bit_len (V4 _) = 32"
| "bit_len (V6 _) = 128"

fun abit :: "addr \<Rightarrow> nat \<Rightarrow> bool" where
  "abit (V4 w) i = (i < 32 \<and> bit w (31 - i))"
| "abit (V6 w) i = (i < 128 \<and> bit w (127 - i))"

datatype prefix = Prefix (paddr: addr) (pbits: nat)

definition valid_prefix :: "prefix \<Rightarrow> bool" where
  "valid_prefix p \<longleftrightarrow> pbits p \<le> bit_len (paddr p)"

text \<open>The top \<open>n\<close> bits of an address, as a number: what netip compares after a shift.\<close>

fun top_bits :: "addr \<Rightarrow> nat \<Rightarrow> int" where
  "top_bits (V4 w) n = uint (drop_bit (32 - n) w)"
| "top_bits (V6 w) n = uint (drop_bit (128 - n) w)"

definition pcontains :: "prefix \<Rightarrow> addr \<Rightarrow> bool" where
  "pcontains p a \<longleftrightarrow> valid_prefix p \<and> is4 (paddr p) = is4 a \<and>
     top_bits (paddr p) (pbits p) = top_bits a (pbits p)"

definition overlaps :: "prefix \<Rightarrow> prefix \<Rightarrow> bool" where
  "overlaps p q \<longleftrightarrow> valid_prefix p \<and> valid_prefix q \<and> is4 (paddr p) = is4 (paddr q) \<and>
     top_bits (paddr p) (min (pbits p) (pbits q)) = top_bits (paddr q) (min (pbits p) (pbits q))"

fun mask_addr :: "addr \<Rightarrow> nat \<Rightarrow> addr" where
  "mask_addr (V4 w) n = V4 (push_bit (32 - n) (drop_bit (32 - n) w))"
| "mask_addr (V6 w) n = V6 (push_bit (128 - n) (drop_bit (128 - n) w))"

definition masked :: "prefix \<Rightarrow> prefix" where
  "masked p = Prefix (mask_addr (paddr p) (pbits p)) (pbits p)"

text \<open>\<open>set_abit a i\<close> sets bit \<open>i\<close>, counted from the most significant one.\<close>

fun set_abit :: "addr \<Rightarrow> nat \<Rightarrow> addr" where
  "set_abit (V4 w) i = V4 (w OR push_bit (31 - i) 1)"
| "set_abit (V6 w) i = V6 (w OR push_bit (127 - i) 1)"

section \<open>Bits\<close>

lemma bit_len_is4: "bit_len a = (if is4 a then 32 else 128)"
  by (cases a) auto

lemma same_family_len: "is4 a = is4 b \<Longrightarrow> bit_len a = bit_len b"
  by (simp add: bit_len_is4)

lemma drop_bit_eq_iff_top:
  fixes a b :: "'a::len word"
  assumes "n \<le> LENGTH('a)"
  shows "drop_bit (LENGTH('a) - n) a = drop_bit (LENGTH('a) - n) b \<longleftrightarrow>
    (\<forall>i<n. bit a (LENGTH('a) - 1 - i) = bit b (LENGTH('a) - 1 - i))"
proof
  assume eq: "drop_bit (LENGTH('a) - n) a = drop_bit (LENGTH('a) - n) b"
  show "\<forall>i<n. bit a (LENGTH('a) - 1 - i) = bit b (LENGTH('a) - 1 - i)"
  proof (intro allI impI)
    fix i assume "i < n"
    then have "LENGTH('a) - 1 - i = (LENGTH('a) - n) + (n - 1 - i)" using assms by linarith
    then show "bit a (LENGTH('a) - 1 - i) = bit b (LENGTH('a) - 1 - i)"
      using arg_cong [OF eq, of "\<lambda>w. bit w (n - 1 - i)"] by (simp add: bit_drop_bit_eq)
  qed
next
  assume *: "\<forall>i<n. bit a (LENGTH('a) - 1 - i) = bit b (LENGTH('a) - 1 - i)"
  show "drop_bit (LENGTH('a) - n) a = drop_bit (LENGTH('a) - n) b"
  proof (rule bit_word_eqI)
    fix j assume "j < LENGTH('a)"
    show "bit (drop_bit (LENGTH('a) - n) a) j = bit (drop_bit (LENGTH('a) - n) b) j"
    proof (cases "j < n")
      case True
      then have "LENGTH('a) - 1 - (n - 1 - j) = (LENGTH('a) - n) + j" using assms by linarith
      then show ?thesis using *[rule_format, of "n - 1 - j"] True by (simp add: bit_drop_bit_eq)
    next
      case False
      then have "\<not> LENGTH('a) - n + j < LENGTH('a)" using assms by linarith
      then show ?thesis by (auto simp: bit_drop_bit_eq dest: bit_imp_le_length)
    qed
  qed
qed

lemma top_bits_eq_iff:
  assumes "is4 a = is4 b" and "n \<le> bit_len a"
  shows "top_bits a n = top_bits b n \<longleftrightarrow> (\<forall>i<n. abit a i = abit b i)"
proof (cases a)
  case (V4 w)
  with assms obtain v where "b = V4 v" by (cases b) auto
  with V4 assms drop_bit_eq_iff_top [of n w v] show ?thesis
    by (auto simp: word_uint_eq_iff [symmetric])
next
  case (V6 w)
  with assms obtain v where "b = V6 v" by (cases b) auto
  with V6 assms drop_bit_eq_iff_top [of n w v] show ?thesis
    by (auto simp: word_uint_eq_iff [symmetric])
qed

lemma pcontains_iff:
  "pcontains p a \<longleftrightarrow> valid_prefix p \<and> is4 (paddr p) = is4 a \<and>
     (\<forall>i < pbits p. abit (paddr p) i = abit a i)"
  by (auto simp: pcontains_def valid_prefix_def top_bits_eq_iff)

lemma overlaps_iff:
  "overlaps p q \<longleftrightarrow> valid_prefix p \<and> valid_prefix q \<and> is4 (paddr p) = is4 (paddr q) \<and>
     (\<forall>i < min (pbits p) (pbits q). abit (paddr p) i = abit (paddr q) i)"
proof -
  have "min (pbits p) (pbits q) \<le> bit_len (paddr p)" if "valid_prefix p"
    using that by (simp add: valid_prefix_def)
  then show ?thesis by (auto simp: overlaps_def top_bits_eq_iff)
qed

lemma overlaps_sym: "overlaps p q \<longleftrightarrow> overlaps q p"
  by (auto simp: overlaps_iff min.commute)

lemma is4_set_abit [simp]: "is4 (set_abit a i) = is4 a"
  by (cases a) auto

lemma is4_mask_addr [simp]: "is4 (mask_addr a n) = is4 a"
  by (cases a) auto

lemma bit_len_set_abit [simp]: "bit_len (set_abit a i) = bit_len a"
  by (cases a) auto

lemma bit_len_mask_addr [simp]: "bit_len (mask_addr a n) = bit_len a"
  by (cases a) auto

lemma abit_len: "abit a i \<Longrightarrow> i < bit_len a"
  by (cases a) auto

lemma abit_set_abit:
  "k < bit_len a \<Longrightarrow> abit (set_abit a k) i = (abit a i \<or> i = k)"
  by (cases a) (auto simp: bit_or_iff bit_exp_iff)

lemma abit_mask_addr:
  "n \<le> bit_len a \<Longrightarrow> abit (mask_addr a n) i = (abit a i \<and> i < n)"
  by (cases a) (auto simp: bit_push_bit_iff bit_drop_bit_eq)

lemma addr_eqI:
  assumes "is4 a = is4 b" and "\<And>i. abit a i = abit b i"
  shows "a = b"
proof (cases a)
  case (V4 w)
  with assms(1) obtain v where b: "b = V4 v" by (cases b) auto
  have "bit w j = bit v j" if "j < 32" for j
    using assms(2) [of "31 - j"] that V4 b by auto
  with V4 b show ?thesis by (auto intro: bit_word_eqI)
next
  case (V6 w)
  with assms(1) obtain v where b: "b = V6 v" by (cases b) auto
  have "bit w j = bit v j" if "j < 128" for j
    using assms(2) [of "127 - j"] that V6 b by auto
  with V6 b show ?thesis by (auto intro: bit_word_eqI)
qed

section \<open>Masked prefixes\<close>

definition host_clear :: "prefix \<Rightarrow> bool" where
  "host_clear p \<longleftrightarrow> (\<forall>i. pbits p \<le> i \<longrightarrow> \<not> abit (paddr p) i)"

lemma masked_sel [simp]:
  "pbits (masked p) = pbits p" "is4 (paddr (masked p)) = is4 (paddr p)"
  "bit_len (paddr (masked p)) = bit_len (paddr p)"
  by (simp_all add: masked_def)

lemma valid_masked [simp]: "valid_prefix (masked p) = valid_prefix p"
  by (simp add: valid_prefix_def)

lemma host_clear_masked: "valid_prefix p \<Longrightarrow> host_clear (masked p)"
  by (simp add: host_clear_def masked_def valid_prefix_def abit_mask_addr)

lemma pcontains_masked [simp]: "pcontains (masked p) = pcontains p"
  by (rule ext) (auto simp: pcontains_iff masked_def valid_prefix_def abit_mask_addr)

lemma overlaps_masked [simp]: "overlaps (masked p) q = overlaps p q" "overlaps q (masked p) = overlaps q p"
  by (auto simp: overlaps_iff masked_def valid_prefix_def abit_mask_addr)

lemma masked_id:
  assumes "valid_prefix p" and "host_clear p"
  shows "masked p = p"
proof -
  have "mask_addr (paddr p) (pbits p) = paddr p"
    using assms by (intro addr_eqI)
      (auto simp: valid_prefix_def abit_mask_addr host_clear_def not_less [symmetric])
  then show ?thesis by (cases p) (simp add: masked_def)
qed

lemma pcontains_self: "valid_prefix p \<Longrightarrow> pcontains p (paddr p)"
  by (simp add: pcontains_iff)

section \<open>Prefixes as sets of addresses\<close>

definition addrs :: "prefix \<Rightarrow> addr set" where
  "addrs p = {a. pcontains p a}"

definition addrs_of :: "prefix list \<Rightarrow> addr set" where
  "addrs_of ps = (\<Union>p \<in> set ps. addrs p)"

lemma addrs_of_simps [simp]:
  "addrs_of [] = {}" "addrs_of (p # ps) = addrs p \<union> addrs_of ps"
  "addrs_of (ps @ qs) = addrs_of ps \<union> addrs_of qs"
  by (auto simp: addrs_of_def)

lemma mem_addrs [simp]: "a \<in> addrs p \<longleftrightarrow> pcontains p a"
  by (simp add: addrs_def)

lemma addrs_masked [simp]: "addrs (masked p) = addrs p"
  by (auto simp: addrs_def)

lemma overlaps_iff_inter: "overlaps p q \<longleftrightarrow> addrs p \<inter> addrs q \<noteq> {}"
proof
  assume o: "overlaps p q"
  then have "paddr (if pbits p \<ge> pbits q then p else q) \<in> addrs p \<inter> addrs q"
    by (auto simp: overlaps_iff pcontains_iff valid_prefix_def)
  then show "addrs p \<inter> addrs q \<noteq> {}" by blast
next
  assume "addrs p \<inter> addrs q \<noteq> {}"
  then show "overlaps p q" by (auto simp: overlaps_iff pcontains_iff)
qed

lemma addrs_subset_iff:
  assumes "valid_prefix p" and "pbits q \<le> pbits p"
  shows "pcontains q (paddr p) \<longleftrightarrow> addrs p \<subseteq> addrs q"
proof
  assume "pcontains q (paddr p)"
  then show "addrs p \<subseteq> addrs q"
    using assms by (auto simp: pcontains_iff)
next
  assume "addrs p \<subseteq> addrs q"
  with pcontains_self [OF assms(1)] show "pcontains q (paddr p)" by auto
qed

lemma addrs_covered: "pbits q \<le> pbits p \<Longrightarrow> pcontains q (paddr p) \<Longrightarrow> addrs p \<subseteq> addrs q"
  by (auto simp: pcontains_iff)

text \<open>The two halves of a prefix.\<close>

definition half_lo :: "prefix \<Rightarrow> prefix" where
  "half_lo p = Prefix (paddr p) (pbits p + 1)"

definition half_hi :: "prefix \<Rightarrow> prefix" where
  "half_hi p = Prefix (set_abit (paddr p) (pbits p)) (pbits p + 1)"

lemma half_sel [simp]:
  "pbits (half_lo p) = pbits p + 1" "pbits (half_hi p) = pbits p + 1"
  "is4 (paddr (half_lo p)) = is4 (paddr p)" "is4 (paddr (half_hi p)) = is4 (paddr p)"
  "bit_len (paddr (half_lo p)) = bit_len (paddr p)" "bit_len (paddr (half_hi p)) = bit_len (paddr p)"
  by (simp_all add: half_lo_def half_hi_def)

lemma valid_half:
  "pbits p < bit_len (paddr p) \<Longrightarrow> valid_prefix (half_lo p) \<and> valid_prefix (half_hi p)"
  by (simp add: valid_prefix_def)

lemma host_clear_half:
  "host_clear p \<Longrightarrow> pbits p < bit_len (paddr p) \<Longrightarrow> host_clear (half_lo p) \<and> host_clear (half_hi p)"
  by (auto simp: host_clear_def half_lo_def half_hi_def abit_set_abit)

lemma pcontains_half_lo:
  assumes "host_clear p" and "pbits p < bit_len (paddr p)"
  shows "pcontains (half_lo p) a \<longleftrightarrow> pcontains p a \<and> \<not> abit a (pbits p)"
  using assms by (auto simp: pcontains_iff valid_prefix_def half_lo_def host_clear_def less_Suc_eq)

lemma pcontains_half_hi:
  assumes "host_clear p" and "pbits p < bit_len (paddr p)"
  shows "pcontains (half_hi p) a \<longleftrightarrow> pcontains p a \<and> abit a (pbits p)"
  using assms by (auto simp: pcontains_iff valid_prefix_def half_hi_def host_clear_def
      abit_set_abit less_Suc_eq)

lemma addrs_halves:
  assumes "host_clear p" and "pbits p < bit_len (paddr p)"
  shows "addrs (half_lo p) \<union> addrs (half_hi p) = addrs p"
    and "addrs (half_lo p) \<inter> addrs (half_hi p) = {}"
  using assms by (auto simp: pcontains_half_lo pcontains_half_hi)

end
