(* ===== verification/Prefix_Sets.thy ===== *)
theory Prefix_Sets
  imports Net_Prefix
begin

text \<open>The route arithmetic of wg/allowlan.go and platform/killswitch_split.go: carving the LAN
  ranges and the user's exclusions out of the tunnel's AllowedIPs, putting the tunnel's own
  addresses back, and the difference of permitted ranges the Linux firewall kills flows with.
  The lemmas give each routine's meaning as a set of addresses.\<close>

section \<open>wg/allowlan.go\<close>

definition mk4 :: "nat \<Rightarrow> nat \<Rightarrow> nat \<Rightarrow> nat \<Rightarrow> addr" where
  "mk4 a b c d = V4 (of_nat (((a * 256 + b) * 256 + c) * 256 + d))"

definition lanExcludeRanges :: "prefix list" where
  "lanExcludeRanges =
    [Prefix (mk4 10 0 0 0) 8, Prefix (mk4 172 16 0 0) 12, Prefix (mk4 192 168 0 0) 16,
     Prefix (mk4 100 64 0 0) 10, Prefix (mk4 169 254 0 0) 16, Prefix (mk4 224 0 0 0) 4,
     Prefix (mk4 255 255 255 255) 32]"

definition lanExcludeRangesV6 :: "prefix list" where
  "lanExcludeRangesV6 =
    [Prefix (V6 (push_bit 112 0xfe80)) 10, Prefix (V6 (push_bit 112 0xfc00)) 7,
     Prefix (V6 (push_bit 112 0xff00)) 8]"

definition maskedPrefixes :: "prefix list \<Rightarrow> prefix list" where
  "maskedPrefixes ps = map masked (filter valid_prefix ps)"

definition setBit :: "addr \<Rightarrow> nat \<Rightarrow> addr" where
  "setBit a pos = set_abit a pos"

function (sequential) subtractPrefix :: "prefix \<Rightarrow> prefix \<Rightarrow> prefix list" where
  "subtractPrefix p ex =
    (if is4 (paddr p) \<noteq> is4 (paddr ex) \<or> \<not> overlaps p ex then [p]
     else if pbits ex \<le> pbits p \<and> pcontains ex (paddr p) then []
     else let bitLen = (if is4 (paddr p) then 32 else 128) in
       if bitLen \<le> pbits p then []
       else let lowerAddr = paddr p;
                upperAddr = setBit lowerAddr (pbits p);
                newBits = pbits p + 1
         in subtractPrefix (Prefix lowerAddr newBits) ex @ subtractPrefix (Prefix upperAddr newBits) ex)"
  by pat_completeness auto
termination
  by (relation "measure (\<lambda>(p, _). bit_len (paddr p) - pbits p)")
     (auto simp: bit_len_is4 setBit_def)

declare subtractPrefix.simps [simp del]

definition subtractRanges :: "prefix list \<Rightarrow> prefix list \<Rightarrow> prefix list" where
  "subtractRanges inputs excludes =
    foldl (\<lambda>result ex. concat (map (\<lambda>p. if \<not> overlaps p ex then [p] else subtractPrefix p ex) result))
      inputs excludes"

definition covered_by :: "prefix list \<Rightarrow> prefix \<Rightarrow> bool" where
  "covered_by out k \<longleftrightarrow> (\<exists>r \<in> set out. pbits r \<le> pbits k \<and> pcontains r (paddr k))"

definition reinclude :: "prefix list \<Rightarrow> prefix list \<Rightarrow> prefix list" where
  "reinclude result keep = foldl (\<lambda>out k. if covered_by out k then out else out @ [k]) result keep"

definition CountExcludeRoutes :: "prefix list \<Rightarrow> nat" where
  "CountExcludeRoutes excludes =
    (let all = [Prefix (V4 0) 0];
         ms = maskedPrefixes excludes;
         withLAN = length (subtractRanges all (lanExcludeRanges @ ms))
     in max withLAN (length (subtractRanges all ms)))"

section \<open>platform/killswitch_split.go\<close>

lemma valid_len:
  assumes "valid_prefix q" and "is4 (paddr p) = is4 (paddr q)"
  shows "pbits q \<le> bit_len (paddr p)"
  using assms by (simp add: valid_prefix_def bit_len_is4)

lemma inside_len: "valid_prefix q \<Longrightarrow> pcontains p (paddr q) \<Longrightarrow> pbits q \<le> bit_len (paddr p)"
  by (rule valid_len) (auto simp: pcontains_iff)

text \<open>\<open>subtractPrefixes\<close> has no width check: it ends because a prefix of full length is never
  split.  An invalid Go prefix has Bits() = -1, so it never asks for a split: that is the
  \<^const>\<open>valid_prefix\<close> of the second test.\<close>

function (sequential) subtractPrefixes :: "prefix \<Rightarrow> prefix list \<Rightarrow> prefix list" where
  "subtractPrefixes p qs =
    (if \<exists>q \<in> set qs. pbits q \<le> pbits p \<and> pcontains q (paddr p) then []
     else if \<not> (\<exists>q \<in> set qs. pbits p < pbits q \<and> pcontains p (paddr q) \<and> valid_prefix q) then [p]
     else subtractPrefixes (Prefix (paddr p) (pbits p + 1)) qs @
          subtractPrefixes (Prefix (set_abit (paddr p) (pbits p)) (pbits p + 1)) qs)"
  by pat_completeness auto
termination
proof (relation "measure (\<lambda>(p, _). bit_len (paddr p) - pbits p)", goal_cases)
  case (2 p qs)
  then obtain q where "pbits p < pbits q" "pcontains p (paddr q)" "valid_prefix q" by auto
  then have "pbits p < bit_len (paddr p)"
    using inside_len [of q p] by simp
  then show ?case by simp
next
  case (3 p qs)
  then obtain q where "pbits p < pbits q" "pcontains p (paddr q)" "valid_prefix q" by auto
  then have "pbits p < bit_len (paddr p)"
    using inside_len [of q p] by simp
  then show ?case by simp
qed auto

declare subtractPrefixes.simps [simp del]

section \<open>What a single subtraction leaves\<close>

lemma overlap_splittable:
  "overlaps p ex \<Longrightarrow> \<not> pbits ex \<le> pbits p \<Longrightarrow> pbits p < bit_len (paddr p)"
  using valid_len [of ex p] by (simp add: overlaps_iff)

lemma subtractPrefix_unfold:
  "subtractPrefix p ex =
    (if \<not> overlaps p ex then [p]
     else if pbits ex \<le> pbits p then []
     else subtractPrefix (half_lo p) ex @ subtractPrefix (half_hi p) ex)"
proof (cases "overlaps p ex \<and> \<not> pbits ex \<le> pbits p")
  case True
  then have "pbits p < bit_len (paddr p)" by (blast intro: overlap_splittable)
  with True show ?thesis
    by (subst subtractPrefix.simps)
       (auto simp: half_lo_def half_hi_def setBit_def bit_len_is4 overlaps_iff Let_def)
next
  case False
  then show ?thesis
    by (subst subtractPrefix.simps) (auto simp: overlaps_iff pcontains_iff)
qed

text \<open>An induction on the halving, for every fact about \<^const>\<open>subtractPrefix\<close>.\<close>

lemma halving_induct [consumes 2, case_names disjoint inside split]:
  assumes "valid_prefix p" and "host_clear p"
    and "\<And>p. valid_prefix p \<Longrightarrow> host_clear p \<Longrightarrow> \<not> overlaps p ex \<Longrightarrow> P p"
    and "\<And>p. valid_prefix p \<Longrightarrow> host_clear p \<Longrightarrow> overlaps p ex \<Longrightarrow> pbits ex \<le> pbits p \<Longrightarrow> P p"
    and "\<And>p. valid_prefix p \<Longrightarrow> host_clear p \<Longrightarrow> overlaps p ex \<Longrightarrow> \<not> pbits ex \<le> pbits p \<Longrightarrow>
       pbits p < bit_len (paddr p) \<Longrightarrow> P (half_lo p) \<Longrightarrow> P (half_hi p) \<Longrightarrow> P p"
  shows "P p"
  using assms(1,2)
proof (induction "bit_len (paddr p) - pbits p" arbitrary: p rule: less_induct)
  case less
  show ?case
  proof (cases "overlaps p ex \<and> \<not> pbits ex \<le> pbits p")
    case True
    then have lt: "pbits p < bit_len (paddr p)" by (blast intro: overlap_splittable)
    have "P (half_lo p)" "P (half_hi p)"
      using less lt valid_half [OF lt] host_clear_half [OF less.prems(2) lt] by simp_all
    with True lt less.prems assms(5) show ?thesis by blast
  qed (use less.prems assms(3,4) in blast)
qed

lemma addrs_inside: "overlaps p ex \<Longrightarrow> pbits ex \<le> pbits p \<Longrightarrow> addrs p \<subseteq> addrs ex"
  by (auto simp: overlaps_iff pcontains_iff)

lemma addrs_subtractPrefix:
  assumes "valid_prefix p" and "host_clear p"
  shows "addrs_of (subtractPrefix p ex) = addrs p - addrs ex"
  using assms
proof (induction rule: halving_induct [where ex = ex])
  case (disjoint p)
  then show ?case using overlaps_iff_inter [of p ex] by (subst subtractPrefix_unfold) auto
next
  case (inside p)
  then show ?case using addrs_inside [of p ex] by (subst subtractPrefix_unfold) auto
next
  case (split p)
  then show ?case using addrs_halves [of p] by (subst subtractPrefix_unfold) auto
qed

text \<open>Every prefix left is valid, masked, of the family and inside \<^term>\<open>p\<close>.\<close>

lemma subtractPrefix_wf:
  assumes "valid_prefix p" and "host_clear p"
  shows "\<forall>q \<in> set (subtractPrefix p ex). valid_prefix q \<and> host_clear q \<and>
    is4 (paddr q) = is4 (paddr p) \<and> addrs q \<subseteq> addrs p"
  using assms
proof (induction rule: halving_induct [where ex = ex])
  case (split p)
  then have "addrs (half_lo p) \<subseteq> addrs p" "addrs (half_hi p) \<subseteq> addrs p"
    using addrs_halves [of p] by auto
  with split show ?case by (subst subtractPrefix_unfold) fastforce
qed (subst subtractPrefix_unfold, simp)+

definition disjoint_prefixes :: "prefix list \<Rightarrow> bool" where
  "disjoint_prefixes ps \<longleftrightarrow> sorted_wrt (\<lambda>p q. \<not> overlaps p q) ps"

lemma disjoint_append:
  "disjoint_prefixes (xs @ ys) \<longleftrightarrow> disjoint_prefixes xs \<and> disjoint_prefixes ys \<and>
     addrs_of xs \<inter> addrs_of ys = {}"
  by (auto simp: disjoint_prefixes_def sorted_wrt_append overlaps_iff_inter addrs_of_def)

lemma disjoint_subtractPrefix:
  assumes "valid_prefix p" and "host_clear p"
  shows "disjoint_prefixes (subtractPrefix p ex)"
  using assms
proof (induction rule: halving_induct [where ex = ex])
  case (split p)
  then have "addrs_of (subtractPrefix (half_lo p) ex) \<inter> addrs_of (subtractPrefix (half_hi p) ex) = {}"
    using addrs_halves(2) [of p]
    by (auto simp: addrs_subtractPrefix valid_half host_clear_half)
  with split show ?case by (subst subtractPrefix_unfold) (simp add: disjoint_append)
qed (subst subtractPrefix_unfold, simp add: disjoint_prefixes_def)+

text \<open>Carving a longer prefix out costs one route per bit of difference.\<close>

lemma half_overlap_one:
  assumes "host_clear p" "pbits p < bit_len (paddr p)" "overlaps p ex" "\<not> pbits ex \<le> pbits p"
  shows "overlaps (half_lo p) ex \<longleftrightarrow> \<not> overlaps (half_hi p) ex"
proof -
  have "pbits p < pbits ex" using assms(4) by simp
  then show ?thesis
    using assms(1-3) by (auto simp: overlaps_iff half_lo_def half_hi_def host_clear_def
      valid_prefix_def abit_set_abit less_Suc_eq min_def)
qed

lemma length_subtractPrefix_le:
  assumes "valid_prefix p" and "host_clear p"
  shows "length (subtractPrefix p ex) \<le> max 1 (pbits ex - pbits p)"
  using assms
proof (induction rule: halving_induct [where ex = ex])
  case (split p)
  have disj: "length (subtractPrefix q ex) = 1" if "\<not> overlaps q ex" for q
    using that by (subst subtractPrefix_unfold) simp
  have inside: "length (subtractPrefix q ex) = 0" if "overlaps q ex" "pbits ex \<le> pbits q" for q
    using that by (subst subtractPrefix_unfold) simp
  show ?case
    using split half_overlap_one [of p ex] disj [of "half_lo p"] disj [of "half_hi p"]
      inside [of "half_lo p"] inside [of "half_hi p"]
    by (subst subtractPrefix_unfold) (cases "pbits ex \<le> pbits p + 1"; auto simp: max_def split: if_splits)
qed (subst subtractPrefix_unfold, simp)+

section \<open>Lists of exclusions\<close>

definition clean :: "prefix list \<Rightarrow> bool" where
  "clean ps \<longleftrightarrow> (\<forall>p \<in> set ps. valid_prefix p \<and> host_clear p)"

lemma clean_maskedPrefixes [simp]: "clean (maskedPrefixes ps)"
  by (auto simp: clean_def maskedPrefixes_def host_clear_masked)

lemma addrs_maskedPrefixes [simp]: "addrs_of (maskedPrefixes ps) = addrs_of ps"
  by (auto simp: addrs_of_def maskedPrefixes_def pcontains_iff)

definition sub_step :: "prefix list \<Rightarrow> prefix \<Rightarrow> prefix list" where
  "sub_step result ex = concat (map (\<lambda>p. subtractPrefix p ex) result)"

lemma subtractRanges_foldl: "subtractRanges inputs excludes = foldl sub_step inputs excludes"
proof -
  have "(if \<not> overlaps p ex then [p] else subtractPrefix p ex) = subtractPrefix p ex" for p ex
    by (cases "overlaps p ex") (simp_all add: subtractPrefix_unfold [of p ex])
  then show ?thesis by (simp only: subtractRanges_def sub_step_def [abs_def])
qed

lemma clean_sub_step: "clean ps \<Longrightarrow> clean (sub_step ps ex)"
  unfolding clean_def sub_step_def using subtractPrefix_wf by auto

lemma addrs_sub_step: "clean ps \<Longrightarrow> addrs_of (sub_step ps ex) = addrs_of ps - addrs ex"
  by (induction ps) (auto simp: clean_def sub_step_def addrs_subtractPrefix)

lemma disjoint_sub_step: "clean ps \<Longrightarrow> disjoint_prefixes ps \<Longrightarrow> disjoint_prefixes (sub_step ps ex)"
proof (induction ps)
  case (Cons p ps)
  then have "disjoint_prefixes ps" and "addrs p \<inter> addrs_of ps = {}"
    using disjoint_append [of "[p]" ps] by auto
  with Cons have "disjoint_prefixes (sub_step ps ex)" by (simp add: clean_def)
  moreover have "disjoint_prefixes (subtractPrefix p ex)"
    using Cons.prems by (simp add: clean_def disjoint_subtractPrefix)
  moreover have "addrs_of (subtractPrefix p ex) \<inter> addrs_of (sub_step ps ex) = {}"
    using Cons.prems \<open>addrs p \<inter> addrs_of ps = {}\<close> addrs_sub_step [of ps ex]
    by (auto simp: clean_def addrs_subtractPrefix)
  moreover have "sub_step (p # ps) ex = subtractPrefix p ex @ sub_step ps ex"
    by (simp add: sub_step_def)
  ultimately show ?case by (simp add: disjoint_append)
qed (simp add: sub_step_def disjoint_prefixes_def)

lemma subtractRanges_step:
  "subtractRanges ins [] = ins"
  "subtractRanges ins (ex # exs) = subtractRanges (sub_step ins ex) exs"
  by (simp_all add: subtractRanges_foldl)

lemma addrs_subtractRanges:
  "clean ins \<Longrightarrow> addrs_of (subtractRanges ins exs) = addrs_of ins - addrs_of exs"
  by (induction exs arbitrary: ins)
     (auto simp: subtractRanges_step clean_sub_step addrs_sub_step)

lemma clean_subtractRanges: "clean ins \<Longrightarrow> clean (subtractRanges ins exs)"
  by (induction exs arbitrary: ins) (auto simp: subtractRanges_step clean_sub_step)

lemma disjoint_subtractRanges:
  "clean ins \<Longrightarrow> disjoint_prefixes ins \<Longrightarrow> disjoint_prefixes (subtractRanges ins exs)"
  by (induction exs arbitrary: ins)
     (auto simp: subtractRanges_step clean_sub_step disjoint_sub_step)

section \<open>Putting the tunnel's own addresses back\<close>

lemma covered_by_subset: "covered_by out k \<Longrightarrow> addrs k \<subseteq> addrs_of out"
  using addrs_covered by (fastforce simp: covered_by_def addrs_of_def)

lemma reinclude_simps:
  "reinclude out [] = out"
  "reinclude out (k # ks) = reinclude (if covered_by out k then out else out @ [k]) ks"
  by (simp_all add: reinclude_def)

lemma addrs_reinclude: "addrs_of (reinclude out keep) = addrs_of out \<union> addrs_of keep"
proof (induction keep arbitrary: out)
  case (Cons k ks)
  then show ?case using covered_by_subset [of out k] by (auto simp: reinclude_simps)
qed (simp add: reinclude_simps)

lemma reinclude_extends: "\<exists>added. reinclude out keep = out @ added \<and> set added \<subseteq> set keep"
proof (induction keep arbitrary: out)
  case (Cons k ks)
  from Cons [of "if covered_by out k then out else out @ [k]"] obtain added where
    "reinclude (if covered_by out k then out else out @ [k]) ks =
      (if covered_by out k then out else out @ [k]) @ added" "set added \<subseteq> set ks" by blast
  then show ?case by (auto simp: reinclude_simps split: if_splits)
qed (simp add: reinclude_simps)

lemma length_reinclude_le: "length (reinclude out keep) \<le> length out + length keep"
proof (induction keep arbitrary: out)
  case (Cons k ks)
  from Cons [of "if covered_by out k then out else out @ [k]"] show ?case
    by (simp add: reinclude_simps split: if_splits)
qed (simp add: reinclude_simps)

section \<open>The difference the firewall kills flows with\<close>

lemma addrs_subtractPrefixes:
  assumes "valid_prefix p" and "host_clear p" and "\<forall>q \<in> set qs. valid_prefix q"
  shows "addrs_of (subtractPrefixes p qs) = addrs p - addrs_of qs"
  using assms
proof (induction p qs rule: subtractPrefixes.induct)
  case (1 p qs)
  let ?in = "\<exists>q \<in> set qs. pbits q \<le> pbits p \<and> pcontains q (paddr p)"
  let ?split = "\<exists>q \<in> set qs. pbits p < pbits q \<and> pcontains p (paddr q) \<and> valid_prefix q"
  consider (in_q) ?in | (keep) "\<not> ?in" "\<not> ?split" | (split) "\<not> ?in" ?split by blast
  then show ?case
  proof cases
    case in_q
    then have "addrs p \<subseteq> addrs_of qs" using addrs_covered by (fastforce simp: addrs_of_def)
    with in_q show ?thesis by (subst subtractPrefixes.simps) auto
  next
    case keep
    have "addrs p \<inter> addrs q = {}" if q: "q \<in> set qs" for q
    proof (rule ccontr)
      assume "addrs p \<inter> addrs q \<noteq> {}"
      then have "overlaps p q" by (simp add: overlaps_iff_inter)
      with keep q show False
        by (cases "pbits q \<le> pbits p") (auto simp: overlaps_iff pcontains_iff min_def)
    qed
    with keep show ?thesis by (subst subtractPrefixes.simps) (auto simp: addrs_of_def)
  next
    case split
    then obtain q where "pbits p < pbits q" "pcontains p (paddr q)" "valid_prefix q" by blast
    then have lt: "pbits p < bit_len (paddr p)" using inside_len [of q p] by simp
    have "addrs_of (subtractPrefixes (half_lo p) qs) = addrs (half_lo p) - addrs_of qs"
      using 1(1) [OF split(1)] split(2) 1(3-5) valid_half [OF lt] host_clear_half [OF _ lt]
      by (simp add: half_lo_def)
    moreover have "addrs_of (subtractPrefixes (half_hi p) qs) = addrs (half_hi p) - addrs_of qs"
      using 1(2) [OF split(1)] split(2) 1(3-5) valid_half [OF lt] host_clear_half [OF _ lt]
      by (simp add: half_hi_def)
    ultimately show ?thesis
      using split addrs_halves [OF 1(4) lt]
      by (subst subtractPrefixes.simps) (auto simp: half_lo_def half_hi_def)
  qed
qed

end
