(* ===== verification/Net_Text.thy ===== *)
theory Net_Text
  imports Net_Prefix
begin

text \<open>The text forms of net/netip: ParseAddr, ParsePrefix and the String methods, for dotted IPv4
  and for the hexadecimal IPv6 forms with one optional ellipsis and an optional dotted tail.
  Zones are rejected, as ParsePrefix does.\<close>

section \<open>IPv4\<close>

definition octets4 :: "32 word \<Rightarrow> int list" where
  "octets4 w = map (\<lambda>i. uint (drop_bit i w) mod 256) [24, 16, 8, 0]"

definition of_octets :: "int list \<Rightarrow> int" where
  "of_octets bs = foldl (\<lambda>n b. n * 256 + b) 0 bs"

definition octet_text :: "string \<Rightarrow> int option" where
  "octet_text s = (if s = [] \<or> \<not> list_all is_digit s \<or> (2 \<le> length s \<and> hd s = CHR ''0'') then None
     else if 255 < dec_val s then None else Some (dec_val s))"

fun map_opt :: "('a \<Rightarrow> 'b option) \<Rightarrow> 'a list \<Rightarrow> 'b list option" where
  "map_opt f [] = Some []"
| "map_opt f (x # xs) = (case f x of None \<Rightarrow> None
     | Some y \<Rightarrow> (case map_opt f xs of None \<Rightarrow> None | Some ys \<Rightarrow> Some (y # ys)))"

definition parse_octets :: "string \<Rightarrow> int list option" where
  "parse_octets s = (let ws = split_on CHR ''.'' s in
     if length ws = 4 then map_opt octet_text ws else None)"

definition parse_addr4 :: "string \<Rightarrow> addr option" where
  "parse_addr4 s = map_option (\<lambda>bs. V4 (word_of_int (of_octets bs))) (parse_octets s)"

definition addr4_str :: "32 word \<Rightarrow> string" where
  "addr4_str w = join ''.'' (map itoa (octets4 w))"

section \<open>IPv6\<close>

definition hex_val :: "char \<Rightarrow> int option" where
  "hex_val c = (let n = of_char c in
     if 48 \<le> n \<and> n \<le> 57 then Some (n - 48)
     else if 97 \<le> n \<and> n \<le> 102 then Some (n - 87)
     else if 65 \<le> n \<and> n \<le> 70 then Some (n - 55) else None)"

fun hex_digits :: "string \<Rightarrow> int list \<times> string" where
  "hex_digits [] = ([], [])"
| "hex_digits (c # cs) = (case hex_val c of None \<Rightarrow> ([], c # cs)
     | Some d \<Rightarrow> (let (ds, rest) = hex_digits cs in (d # ds, rest)))"

lemma hex_digits_length: "length (snd (hex_digits s)) \<le> length s"
  by (induction s) (auto split: option.splits prod.splits)

text \<open>The field loop of parseIPv6: \<open>fs\<close> are the 16-bit fields read so far, \<open>ell\<close> the position of
  the ellipsis.  The result pairs both; None is any error.\<close>

function fields6 :: "int list \<Rightarrow> nat option \<Rightarrow> string \<Rightarrow> (int list \<times> nat option) option" where
  "fields6 fs ell s =
    (if 8 \<le> length fs then (if s = [] then Some (fs, ell) else None)
     else let (ds, rest) = hex_digits s in
       if ds = [] \<or> 4 < length ds then None
       else if rest \<noteq> [] \<and> hd rest = CHR ''.'' then
         (if ell = None \<and> length fs \<noteq> 6 then None
          else if 6 < length fs then None
          else case parse_octets s of
              Some [a, b, c, d] \<Rightarrow> Some (fs @ [a * 256 + b, c * 256 + d], ell)
            | _ \<Rightarrow> None)
       else let fs' = fs @ [foldl (\<lambda>n d. n * 16 + d) 0 ds] in
         (case rest of
            [] \<Rightarrow> Some (fs', ell)
          | c # r1 \<Rightarrow>
              if c \<noteq> CHR '':'' \<or> r1 = [] then None
              else if hd r1 = CHR '':'' then
                (if ell \<noteq> None then None
                 else if tl r1 = [] then Some (fs', Some (length fs'))
                 else fields6 fs' (Some (length fs')) (tl r1))
              else fields6 fs' ell r1))"
  by pat_completeness auto
termination
  by (relation "measure (\<lambda>(fs, _, _). 8 - length fs)") auto

declare fields6.simps [simp del]

definition expand6 :: "int list \<times> nat option \<Rightarrow> int list option" where
  "expand6 r = (case r of
      (fs, None) \<Rightarrow> if length fs = 8 then Some fs else None
    | (fs, Some e) \<Rightarrow> if length fs < 8 then Some (take e fs @ replicate (8 - length fs) 0 @ drop e fs)
        else None)"

definition of_fields :: "int list \<Rightarrow> int" where
  "of_fields fs = foldl (\<lambda>n f. n * 65536 + f) 0 fs"

definition parse_addr6 :: "string \<Rightarrow> addr option" where
  "parse_addr6 s =
    (let start = (if has_prefix s ''::'' then (Some 0, drop 2 s) else (None, s)) in
     if fst start = Some 0 \<and> snd start = [] then Some (V6 0)
     else case fields6 [] (fst start) (snd start) of None \<Rightarrow> None
       | Some r \<Rightarrow> map_option (\<lambda>fs. V6 (word_of_int (of_fields fs))) (expand6 r))"

fun parse_addr_scan :: "string \<Rightarrow> string \<Rightarrow> addr option" where
  "parse_addr_scan s [] = None"
| "parse_addr_scan s (c # cs) =
    (if c = CHR ''.'' then parse_addr4 s else if c = CHR '':'' then parse_addr6 s
     else if c = CHR ''%'' then None else parse_addr_scan s cs)"

definition ParseAddr :: "string \<Rightarrow> addr option" where
  "ParseAddr s = parse_addr_scan s s"

text \<open>The pieces around the last slash.\<close>

definition cut_last :: "char \<Rightarrow> string \<Rightarrow> (string \<times> string) option" where
  "cut_last sep s = map_option (\<lambda>(b, a). (rev a, rev b)) (cut sep (rev s))"

definition prefix_bits_text :: "string \<Rightarrow> int option" where
  "prefix_bits_text s = (if 2 \<le> length s \<and> hd s = CHR ''0'' then None else parse_dec s)"

definition ParsePrefix :: "string \<Rightarrow> prefix option" where
  "ParsePrefix s = (case cut_last CHR ''/'' s of None \<Rightarrow> None
     | Some (a, b) \<Rightarrow> (case (ParseAddr a, prefix_bits_text b) of
         (Some ip, Some n) \<Rightarrow> if n \<le> int (bit_len ip) then Some (Prefix ip (nat n)) else None
       | _ \<Rightarrow> None))"

definition hex_char :: "int \<Rightarrow> char" where
  "hex_char d = char_of (if d < 10 then 48 + d else 87 + d)"

definition hex_field :: "int \<Rightarrow> string" where
  "hex_field f = map hex_char
     (if f < 16 then [f] else if f < 256 then [f div 16, f mod 16]
      else if f < 4096 then [f div 256, f div 16 mod 16, f mod 16]
      else [f div 4096, f div 256 mod 16, f div 16 mod 16, f mod 16])"

definition fields_of6 :: "128 word \<Rightarrow> int list" where
  "fields_of6 w = map (\<lambda>i. uint (drop_bit (112 - 16 * i) w) mod 65536) [0..<8]"

text \<open>The first longest run of at least two zero fields: start and end.\<close>

definition zero_run :: "int list \<Rightarrow> nat \<Rightarrow> nat" where
  "zero_run fs i = length (takeWhile (\<lambda>f. f = 0) (drop i fs))"

definition best_zero_run :: "int list \<Rightarrow> (nat \<times> nat) option" where
  "best_zero_run fs = foldl (\<lambda>best i. let l = zero_run fs i in
      if l \<ge> 2 \<and> (case best of None \<Rightarrow> True | Some (a, b) \<Rightarrow> b - a < l) then Some (i, i + l) else best)
      None [0..<length fs]"

definition addr6_str :: "128 word \<Rightarrow> string" where
  "addr6_str w = (let fs = fields_of6 w in
     if take 6 fs = [0, 0, 0, 0, 0, 65535] then ''::ffff:'' @ addr4_str (ucast w)
     else case best_zero_run fs of
         None \<Rightarrow> join '':'' (map hex_field fs)
       | Some (a, b) \<Rightarrow> join '':'' (map hex_field (take a fs)) @ ''::'' @
           join '':'' (map hex_field (drop b fs)))"

fun addr_str :: "addr \<Rightarrow> string" where
  "addr_str (V4 w) = addr4_str w"
| "addr_str (V6 w) = addr6_str w"

definition prefix_str :: "prefix \<Rightarrow> string" where
  "prefix_str p = (if valid_prefix p then addr_str (paddr p) @ ''/'' @ itoa_nat (pbits p)
     else ''invalid Prefix'')"

section \<open>IPv4 round trip\<close>

lemma uint_drop_bit: "uint (drop_bit i (w::'a::len word)) = uint w div 2 ^ i"
proof -
  have "uint (drop_bit i w) = drop_bit i (take_bit LENGTH('a) (uint w))"
    by (rule unsigned_drop_bit_eq)
  moreover have "take_bit LENGTH('a) (uint w) = uint w"
    using uint_bounded [of w] by (intro take_bit_int_eq_self) auto
  ultimately show ?thesis by (simp only: drop_bit_eq_div)
qed

lemma base256:
  assumes "0 \<le> (n::int)" and "n < 4294967296"
  shows "((n div 16777216 mod 256 * 256 + n div 65536 mod 256) * 256 + n div 256 mod 256) * 256 + n mod 256 = n"
proof -
  define x y z where "x = n div 256" and "y = x div 256" and "z = y div 256"
  have y: "n div 65536 = y"
    using zdiv_zmult2_eq [of 256 n 256] unfolding x_def y_def by simp
  have z: "n div 16777216 = z"
    using zdiv_zmult2_eq [of 256 "n div 65536" 256] zdiv_zmult2_eq [of 256 n 65536]
    unfolding z_def y [symmetric] by simp
  have split: "n = 256 * x + n mod 256" "x = 256 * y + x mod 256" "y = 256 * z + y mod 256"
    unfolding x_def y_def z_def by (simp_all only: mult_div_mod_eq)
  have rest: "0 \<le> a mod 256" "a mod 256 < 256" for a :: int by simp_all
  have "0 \<le> z" "z < 256"
    using split rest [of n] rest [of x] rest [of y] assms
    by linarith+
  then have "z mod 256 = z" by (rule mod_pos_pos_trivial)
  moreover have "((d * 256 + c) * 256 + b) * 256 + a = n"
    if "d = z" "n = 256 * x + a" "x = 256 * y + b" "y = 256 * z + c" for a b c d
    using that by simp
  ultimately show ?thesis unfolding y z x_def [symmetric] using split by blast
qed

lemma of_octets_octets4: "word_of_int (of_octets (octets4 w)) = w"
proof -
  have *: "uint w div 2 ^ 24 mod 256 = uint w div 16777216 mod 256"
    "uint w div 2 ^ 16 mod 256 = uint w div 65536 mod 256"
    "uint w div 2 ^ 8 mod 256 = uint w div 256 mod 256" "uint w div 2 ^ 0 mod 256 = uint w mod 256"
    by simp_all
  have "uint w < 4294967296" using uint_bounded [of w] by simp
  then have "of_octets (octets4 w) = uint w"
    using base256 [of "uint w"]
    unfolding of_octets_def octets4_def uint_drop_bit list.map foldl.simps *
    by (simp only: mult_zero_left add_0 uint_ge_0)
  then show ?thesis by (simp only: word_of_int_uint)
qed

lemma octet_text_itoa: "0 \<le> b \<Longrightarrow> b < 256 \<Longrightarrow> octet_text (itoa b) = Some b"
  using parse_dec_itoa [of b] itoa_leading [of b]
  by (auto simp: octet_text_def parse_dec_def split: if_splits)

lemma octets4_range: "b \<in> set (octets4 w) \<Longrightarrow> 0 \<le> b \<and> b < 256"
  unfolding octets4_def set_map by (erule imageE) (simp del: list.set)

lemma octets4_list: "\<exists>a b c d. octets4 w = [a, b, c, d] \<and> 0 \<le> a"
proof -
  have "\<exists>a b c d. map f [24, 16, 8, 0] = [a, b, c, d] \<and> a = f 24" for f :: "nat \<Rightarrow> int"
    by simp
  from this [of "\<lambda>i. uint (drop_bit i w) mod 256"] octets4_range [of _ w] show ?thesis
    unfolding octets4_def by (metis list.set_intros(1))
qed

lemma map_opt_Some: "\<forall>x \<in> set xs. f (g x) = Some x \<Longrightarrow> map_opt f (map g xs) = Some xs"
  by (induction xs) auto

lemma dot_not_digit: "0 \<le> b \<Longrightarrow> CHR ''.'' \<notin> set (itoa b)"
  using itoa_digits [of b "CHR ''.''"] by (auto simp: is_digit_def)

lemma slash_not_digit: "0 \<le> b \<Longrightarrow> CHR ''/'' \<notin> set (itoa b)"
  using itoa_digits [of b "CHR ''/''"] by (auto simp: is_digit_def)

lemma set_join: "c \<in> set (join sep ws) \<Longrightarrow> c \<in> set sep \<or> (\<exists>w \<in> set ws. c \<in> set w)"
  by (induction sep ws rule: join.induct) auto

lemma parse_octets_str: "parse_octets (addr4_str w) = Some (octets4 w)"
proof -
  have "split_on CHR ''.'' (addr4_str w) = map itoa (octets4 w)"
    unfolding addr4_str_def
    using octets4_list [of w] octets4_range [of _ w] dot_not_digit
    by (intro split_on_join) auto
  moreover have "map_opt octet_text (map itoa (octets4 w)) = Some (octets4 w)"
    using octets4_range octet_text_itoa by (intro map_opt_Some) blast
  moreover have "length (octets4 w) = 4" using octets4_list [of w] by auto
  ultimately show ?thesis by (simp add: parse_octets_def)
qed

lemma scan_dotted:
  assumes "\<forall>c \<in> set a. is_digit c"
  shows "parse_addr_scan s (a @ CHR ''.'' # b) = parse_addr4 s"
  using assms by (induction a) (auto simp: is_digit_def)

lemma ParseAddr_addr4: "ParseAddr (addr4_str w) = Some (V4 w)"
proof -
  obtain b where b: "addr4_str w = itoa (hd (octets4 w)) @ CHR ''.'' # b"
    using octets4_list [of w] by (auto simp: addr4_str_def)
  have "0 \<le> hd (octets4 w)" using octets4_list [of w] by auto
  then have "parse_addr_scan (addr4_str w) (addr4_str w) = parse_addr4 (addr4_str w)"
    using scan_dotted [of "itoa (hd (octets4 w))"] itoa_digits b by metis
  then show ?thesis
    by (simp add: ParseAddr_def parse_addr4_def parse_octets_str of_octets_octets4)
qed

lemma slash_not_addr4: "CHR ''/'' \<notin> set (addr4_str w)"
  using set_join [of "CHR ''/''" "''.''" "map itoa (octets4 w)"] octets4_range slash_not_digit
  by (auto simp: addr4_str_def)

lemma prefix_bits_itoa: "prefix_bits_text (itoa_nat n) = Some (int n)"
  using itoa_leading [of "int n"] by (auto simp: prefix_bits_text_def)

lemma cut_last_append: "sep \<notin> set b \<Longrightarrow> cut_last sep (a @ sep # b) = Some (a, b)"
  by (simp add: cut_last_def)

lemma ParsePrefix_str4:
  assumes "is4 (paddr p)" and "valid_prefix p"
  shows "ParsePrefix (prefix_str p) = Some p"
proof -
  obtain w where w: "paddr p = V4 w" using assms(1) by (cases "paddr p") auto
  have "cut_last CHR ''/'' (addr4_str w @ ''/'' @ itoa_nat (pbits p)) = Some (addr4_str w, itoa_nat (pbits p))"
    using cut_last_append [of "CHR ''/''" "itoa_nat (pbits p)"] slash_not_digit by simp
  with assms(2) w show ?thesis
    by (cases p) (auto simp: ParsePrefix_def prefix_str_def ParseAddr_addr4 prefix_bits_itoa valid_prefix_def)
qed

lemma ParsePrefix_valid: "ParsePrefix s = Some p \<Longrightarrow> valid_prefix p"
  by (auto simp: ParsePrefix_def valid_prefix_def split: option.splits if_splits)

lemma prefix_str_inj4:
  "is4 (paddr p) \<Longrightarrow> is4 (paddr q) \<Longrightarrow> valid_prefix p \<Longrightarrow> valid_prefix q \<Longrightarrow>
   prefix_str p = prefix_str q \<Longrightarrow> p = q"
  by (metis ParsePrefix_str4 option.inject)

end
