(* ===== verification/WG_Config.thy ===== *)
theory WG_Config
  imports Net_Text
begin

text \<open>Reading a wg-quick configuration (wg/darwin_linux_shared.go and the line helpers of
  wg/allowlan.go): the line scanner, section headers, key/value lines, the split into a stripped
  WireGuard config and the interface settings, the IPv4-only checks, and the small list helpers
  the sessions share.\<close>

section \<open>Lines\<close>

text \<open>bufio.Scanner with a 1 MiB buffer: lines end at LF and lose one CR, an empty last line is
  not reported, and the first line that does not fit the buffer stops the scan with an error.
  The result pairs the lines delivered with "no error".\<close>

definition max_line :: int where
  "max_line = 1048576"

definition drop_cr :: "string \<Rightarrow> string" where
  "drop_cr s = (if s \<noteq> [] \<and> last s = CHR 0x0D then butlast s else s)"

definition raw_lines :: "string \<Rightarrow> string list" where
  "raw_lines s = (let ws = split_on CHR 0x0A s in if last ws = [] then butlast ws else ws)"

definition scan_lines :: "string \<Rightarrow> string list \<times> bool" where
  "scan_lines s = (let ws = raw_lines s; ok = takeWhile (\<lambda>w. int (length w) < max_line) ws in
     (map drop_cr ok, length ok = length ws))"

definition index_of :: "char \<Rightarrow> string \<Rightarrow> nat option" where
  "index_of c s = map_option (\<lambda>(a, _). length a) (cut c s)"

definition sectionHeader :: "string \<Rightarrow> string option" where
  "sectionHeader trimmed =
    (if \<not> has_prefix trimmed ''['' then None
     else case index_of CHR '']'' trimmed of None \<Rightarrow> None
       | Some e \<Rightarrow> Some (to_lower (trim_space (drop 1 (take e trimmed)))))"

definition is_comment_char :: "char \<Rightarrow> bool" where
  "is_comment_char c \<longleftrightarrow> c = CHR ''#'' \<or> c = CHR '';''"

definition stripInlineComment :: "string \<Rightarrow> string" where
  "stripInlineComment v = takeWhile (\<lambda>c. \<not> is_comment_char c) v"

definition is_blank_or_comment :: "string \<Rightarrow> bool" where
  "is_blank_or_comment s \<longleftrightarrow> s = [] \<or> is_comment_char (hd s)"

definition parseKeyValue :: "string \<Rightarrow> (string \<times> string) option" where
  "parseKeyValue line =
    (if is_blank_or_comment line then None
     else case cut CHR ''='' line of None \<Rightarrow> None
       | Some (rawKey, rawValue) \<Rightarrow>
           let key = trim_space rawKey; value = stripInlineComment rawValue in
           if key = [] then None else Some (key, trim_space value))"

definition splitCSV :: "string \<Rightarrow> string list" where
  "splitCSV value = filter (\<lambda>s. s \<noteq> []) (map trim_space (split_on CHR '','' value))"

text \<open>The header test of the parsers that want the closing bracket last.\<close>

definition bracket_header :: "string \<Rightarrow> string option" where
  "bracket_header t = (if has_prefix t ''['' \<and> last t = CHR '']''
     then Some (to_lower (trim_space (butlast (tl t)))) else None)"

section \<open>Endpoint hosts\<close>

definition strip_brackets :: "string \<Rightarrow> string" where
  "strip_brackets s = (let br = (\<lambda>c. c = CHR ''['' \<or> c = CHR '']'') in
     rev (dropWhile br (rev (dropWhile br s))))"

text \<open>net.SplitHostPort, the host only.\<close>

definition splitHost :: "string \<Rightarrow> string option" where
  "splitHost hp = (case cut_last CHR '':'' hp of None \<Rightarrow> None
     | Some (before, port) \<Rightarrow>
         if has_prefix hp ''['' then
           (case index_of CHR '']'' hp of None \<Rightarrow> None
             | Some e \<Rightarrow> if e + 1 = length before
                 \<and> CHR ''['' \<notin> set (drop 1 hp) \<and> CHR '']'' \<notin> set (drop (e + 1) hp)
                 then Some (drop 1 (take e hp)) else None)
         else if CHR '':'' \<in> set before \<or> CHR ''['' \<in> set hp \<or> CHR '']'' \<in> set hp then None
         else Some before)"

definition parseEndpointHost :: "string \<Rightarrow> string" where
  "parseEndpointHost value =
    (let cleaned = trim_space value in
     if cleaned = [] then []
     else case (if has_prefix cleaned ''['' then index_of CHR '']'' cleaned else None) of
         Some e \<Rightarrow> if 1 < e then trim_space (drop 1 (take e cleaned))
           else (case splitHost cleaned of Some h \<Rightarrow> trim_space (strip_brackets h)
             | None \<Rightarrow> (case (if count_list cleaned CHR '':'' = 1 then cut CHR '':'' cleaned else None) of
                 Some (a, _) \<Rightarrow> trim_space a | None \<Rightarrow> trim_space (strip_brackets cleaned)))
       | None \<Rightarrow> (case splitHost cleaned of Some h \<Rightarrow> trim_space (strip_brackets h)
             | None \<Rightarrow> (case (if count_list cleaned CHR '':'' = 1 then cut CHR '':'' cleaned else None) of
                 Some (a, _) \<Rightarrow> trim_space a | None \<Rightarrow> trim_space (strip_brackets cleaned))))"

section \<open>List helpers\<close>

definition normalizeStrings :: "string list \<Rightarrow> string list" where
  "normalizeStrings vs = sort (dedup (filter (\<lambda>s. s \<noteq> []) (map trim_space vs)))"

definition uniqueStringsPreserveOrder :: "string list \<Rightarrow> string list" where
  "uniqueStringsPreserveOrder vs = dedup (filter (\<lambda>s. s \<noteq> []) (map trim_space vs))"

definition mergeSpecSet :: "'a list \<Rightarrow> 'a list \<Rightarrow> 'a list" where
  "mergeSpecSet existing extra = dedup (existing @ extra)"

definition subtractSpecSet :: "'a list \<Rightarrow> 'a list \<Rightarrow> 'a list" where
  "subtractSpecSet from_l remove_l = filter (\<lambda>s. s \<notin> set remove_l) from_l"

definition mergeEndpointHosts :: "string list \<Rightarrow> string list \<Rightarrow> string list" where
  "mergeEndpointHosts endpointHosts bypassHosts =
    (if bypassHosts = [] then endpointHosts
     else normalizeStrings (endpointHosts @
       map to_lower (filter (\<lambda>h. h \<noteq> []) (map parseEndpointHost bypassHosts))))"

definition mergeDNSServers :: "string list \<Rightarrow> string list \<Rightarrow> string list" where
  "mergeDNSServers configDNS profileDNS = uniqueStringsPreserveOrder (configDNS @ profileDNS)"

text \<open>device.DefaultMTU is wireguard-go's constant, an argument here.\<close>

definition clampWireGuardDeviceMTU :: "int \<Rightarrow> int \<Rightarrow> int" where
  "clampWireGuardDeviceMTU defaultMTU mtu =
    (if mtu \<le> 0 then defaultMTU else if mtu < 1280 then 1280 else if 1500 < mtu then 1500 else mtu)"

section \<open>parseUserlandConfig\<close>

record parsedUserlandConfig =
  cfg_wgConfig :: string
  cfg_addresses :: "string list"
  cfg_dnsServers :: "string list"
  cfg_mtu :: int
  cfg_endpointHosts :: "string list"

record parse_state =
  ps_section :: string
  ps_out :: "string list"
  ps_addr :: "string list"
  ps_dns :: "string list"
  ps_mtu :: int
  ps_hosts :: "string list"

text \<open>strconv.Atoi on a trimmed value: an optional sign and decimal digits within int64.\<close>

definition atoi :: "string \<Rightarrow> int option" where
  "atoi s = (let (neg, body) = (case s of [] \<Rightarrow> (False, []) | c # cs \<Rightarrow>
       if c = CHR ''-'' then (True, cs) else if c = CHR ''+'' then (False, cs) else (False, s)) in
     case parse_dec body of None \<Rightarrow> None
     | Some n \<Rightarrow> let i = (if neg then - n else n) in
         if - (2 ^ 63) \<le> i \<and> i < 2 ^ 63 then Some i else None)"

definition dropped_interface_keys :: "string list" where
  "dropped_interface_keys = [''table'', ''preup'', ''predown'', ''postup'', ''postdown'', ''saveconfig'']"

definition interface_key :: "string \<Rightarrow> string \<Rightarrow> parse_state \<Rightarrow> parse_state option" where
  "interface_key key value st =
    (let k = to_lower key in
     if k = ''address'' then Some (st\<lparr>ps_addr := ps_addr st @ splitCSV value\<rparr>)
     else if k = ''dns'' then Some (st\<lparr>ps_dns := ps_dns st @ splitCSV value\<rparr>)
     else if k \<in> set dropped_interface_keys then Some st
     else if k = ''mtu'' then Some (case atoi (trim_space value) of
         Some n \<Rightarrow> if 0 < n then st\<lparr>ps_mtu := n\<rparr> else st | None \<Rightarrow> st)
     else None)"

definition userland_line :: "parse_state \<Rightarrow> string \<Rightarrow> parse_state" where
  "userland_line st line =
    (let trimmed = trim_space line in
     case bracket_header trimmed of
       Some s \<Rightarrow> st\<lparr>ps_section := s, ps_out := ps_out st @ [line]\<rparr>
     | None \<Rightarrow>
        (let kv = parseKeyValue trimmed;
             taken = (case kv of Some (k, v) \<Rightarrow>
               if ps_section st = ''interface'' then interface_key k v st else None | None \<Rightarrow> None)
         in case taken of Some st' \<Rightarrow> st'
          | None \<Rightarrow>
             (let host = (case kv of Some (k, v) \<Rightarrow>
                  if ps_section st = ''peer'' \<and> equal_fold k ''Endpoint'' then parseEndpointHost v else []
                | None \<Rightarrow> [])
              in st\<lparr>ps_out := ps_out st @ [line],
                    ps_hosts := (if host = [] then ps_hosts st else ps_hosts st @ [to_lower host])\<rparr>)))"

datatype wg_error = ScanTooLong | ConfigEmpty | BadAllowedIP string | BadSection string
  | BadKey | BadValue | NoPrivateKey | NoPublicKey | NoPeers | OnlyIPv6 | BadAddress | BadDNS

definition parseUserlandConfig :: "string \<Rightarrow> (wg_error, parsedUserlandConfig) result" where
  "parseUserlandConfig input =
    (let (lines, ok) = scan_lines input;
         st = foldl userland_line \<lparr>ps_section = [], ps_out = [], ps_addr = [], ps_dns = [],
           ps_mtu = 0, ps_hosts = []\<rparr> lines
     in if \<not> ok then Inl ScanTooLong
        else let stripped = trim_space (join [CHR 0x0A] (ps_out st)) in
          if stripped = [] then Inl ConfigEmpty
          else Inr \<lparr>cfg_wgConfig = stripped @ [CHR 0x0A], cfg_addresses = normalizeStrings (ps_addr st),
            cfg_dnsServers = uniqueStringsPreserveOrder (ps_dns st), cfg_mtu = ps_mtu st,
            cfg_endpointHosts = sort (dedup (ps_hosts st))\<rparr>)"

section \<open>IPv4-only checks\<close>

definition validateIPv4InterfaceAddresses :: "string list \<Rightarrow> bool" where
  "validateIPv4InterfaceAddresses as \<longleftrightarrow> (\<forall>raw \<in> set as. let t = trim_space raw in
     t = [] \<or> (case ParsePrefix t of None \<Rightarrow> False | Some p \<Rightarrow> is4 (paddr p)))"

definition link_local4 :: "32 word \<Rightarrow> bool" where
  "link_local4 w \<longleftrightarrow> drop_bit 16 w = 0xA9FE"

definition multicast4 :: "32 word \<Rightarrow> bool" where
  "multicast4 w \<longleftrightarrow> drop_bit 28 w = 0xE"

definition loopback_addr :: "addr \<Rightarrow> bool" where
  "loopback_addr a = (case a of V4 w \<Rightarrow> drop_bit 24 w = 0x7F
     | V6 w \<Rightarrow> w = 1 \<or> drop_bit 24 w = 0xFFFF7F)"

definition validateIPv4DNSServers :: "string list \<Rightarrow> bool" where
  "validateIPv4DNSServers ds \<longleftrightarrow> (\<forall>raw \<in> set ds. let t = trim_space raw in
     t = [] \<or> (case ParseAddr t of Some (V4 w) \<Rightarrow>
         \<not> (w = 0 \<or> link_local4 w \<or> multicast4 w \<or> w = 0xFFFFFFFF) | _ \<Rightarrow> False))"

definition Resolvers :: "string \<Rightarrow> string list \<Rightarrow> string list" where
  "Resolvers configText profileDNS = (case parseUserlandConfig configText of
      Inl _ \<Rightarrow> uniqueStringsPreserveOrder profileDNS
    | Inr parsed \<Rightarrow> mergeDNSServers (cfg_dnsServers parsed) profileDNS)"

definition ProbeResolvers :: "string \<Rightarrow> string list \<Rightarrow> string list" where
  "ProbeResolvers configText profileDNS = filter (\<lambda>server.
     case ParseAddr (trim_space server) of Some a \<Rightarrow> \<not> loopback_addr a | None \<Rightarrow> True)
     (Resolvers configText profileDNS)"

end
