(* ===== verification/Allow_List.thy ===== *)
theory Allow_List
  imports Prefix_Sets WG_Config
begin

text \<open>wg/allowlan.go: the rewrite of the peers' AllowedIPs that keeps the LAN and the user's
  excluded ranges out of the tunnel, on the configuration text, and wg/split_tunnel.go's in-place
  route sync.\<close>

section \<open>Tunnel addresses of the interface section\<close>

definition tunnel_part :: "string \<Rightarrow> prefix list" where
  "tunnel_part raw = (let part = trim_space raw in
     if part = [] then []
     else case ParsePrefix part of
         Some p \<Rightarrow> if is4 (paddr p) then [Prefix (paddr p) 32]
           else (case ParseAddr part of Some a \<Rightarrow> if is4 a then [Prefix a 32] else [] | None \<Rightarrow> [])
       | None \<Rightarrow> (case ParseAddr part of Some a \<Rightarrow> if is4 a then [Prefix a 32] else [] | None \<Rightarrow> []))"

definition tunnel_line :: "string \<times> prefix list \<Rightarrow> string \<Rightarrow> string \<times> prefix list" where
  "tunnel_line st line = (let trimmed = trim_space line in
     case sectionHeader trimmed of Some h \<Rightarrow> (h, snd st)
     | None \<Rightarrow> if fst st \<noteq> ''interface'' then st
         else (case cut CHR ''='' trimmed of None \<Rightarrow> st
           | Some (rawKey, rawValue) \<Rightarrow>
               let key = trim_space rawKey; value = trim_space rawValue in
               if \<not> equal_fold key ''Address'' \<and> \<not> equal_fold key ''DNS'' then st
               else (fst st, snd st @ concat (map tunnel_part (split_on CHR '','' value)))))"

definition collectTunnelPrefixes :: "string \<Rightarrow> prefix list" where
  "collectTunnelPrefixes configText = snd (foldl tunnel_line ([], []) (fst (scan_lines configText)))"

section \<open>One AllowedIPs line\<close>

text \<open>The entries of a line, in order: the prefixes with the text they were written with.\<close>

definition parse_entries :: "string \<Rightarrow> (wg_error, (prefix \<times> string) list) result" where
  "parse_entries value = map_res
     (\<lambda>p. case ParsePrefix p of None \<Rightarrow> Inl (BadAllowedIP p) | Some q \<Rightarrow> Inr (q, p))
     (splitCSV value)"

definition family_entries :: "bool \<Rightarrow> (prefix \<times> string) list \<Rightarrow> (prefix \<times> string) list" where
  "family_entries v4 es = map (\<lambda>(q, s). (masked q, s)) (filter (\<lambda>(q, s). is4 (paddr q) = v4) es)"

definition routes4 :: "prefix list \<Rightarrow> prefix list \<Rightarrow> prefix list \<Rightarrow> prefix list" where
  "routes4 ins excludes4 keep4 = (let filtered = reinclude (subtractRanges ins excludes4) keep4 in
     if filtered = [] then ins else filtered)"

definition parts4 :: "(prefix \<times> string) list \<Rightarrow> prefix list \<Rightarrow> prefix list \<Rightarrow> string list" where
  "parts4 es excludes4 keep4 =
    (if es = [] then [] else if excludes4 = [] then map snd es
     else map prefix_str (routes4 (map fst es) excludes4 keep4))"

definition parts6 :: "(prefix \<times> string) list \<Rightarrow> prefix list \<Rightarrow> prefix list \<Rightarrow> string list" where
  "parts6 es excludes6 keep6 =
    (if es = [] then [] else if excludes6 = [] then map snd es
     else let v6Filtered = subtractRanges (map fst es) excludes6 in
       if v6Filtered = [] then map snd es else map prefix_str (reinclude v6Filtered keep6))"

record exclusions =
  ex_v4 :: "prefix list"
  ex_v6 :: "prefix list"
  ex_keep4 :: "prefix list"
  ex_keep6 :: "prefix list"

definition rewrite_value :: "exclusions \<Rightarrow> string \<Rightarrow> (wg_error, string) result" where
  "rewrite_value ex rawValue =
    (let value = stripInlineComment rawValue;
         comment = drop (length value) rawValue
     in bind_res (parse_entries value) (\<lambda>es.
       let parts = parts4 (family_entries True es) (ex_v4 ex) (ex_keep4 ex) @
                   parts6 (family_entries False es) (ex_v6 ex) (ex_keep6 ex);
           rewritten = ''AllowedIPs = '' @ join '', '' parts
       in Inr (if comment \<noteq> [] then rewritten @ '' '' @ trim_space comment else rewritten)))"

text \<open>Whether a peer line is rewritten, with its value.\<close>

definition allowed_value :: "string \<Rightarrow> string \<Rightarrow> string option" where
  "allowed_value section rawLine = (let trimmed = trim_space rawLine in
     if section \<noteq> ''peer'' \<or> is_blank_or_comment trimmed then None
     else case cut CHR ''='' rawLine of None \<Rightarrow> None
       | Some (rawKey, rawValue) \<Rightarrow>
           if equal_fold (trim_space rawKey) ''AllowedIPs'' then Some rawValue else None)"

fun exclude_lines :: "exclusions \<Rightarrow> string \<Rightarrow> string list \<Rightarrow> (wg_error, string list) result" where
  "exclude_lines ex sect [] = Inr []"
| "exclude_lines ex sect (rawLine # ls) =
    (case sectionHeader (trim_space rawLine) of
       Some header \<Rightarrow> bind_res (exclude_lines ex header ls) (\<lambda>out. Inr (rawLine # out))
     | None \<Rightarrow>
        (case allowed_value sect rawLine of
           None \<Rightarrow> bind_res (exclude_lines ex sect ls) (\<lambda>out. Inr (rawLine # out))
         | Some rawValue \<Rightarrow> bind_res (rewrite_value ex rawValue) (\<lambda>l.
             bind_res (exclude_lines ex sect ls) (\<lambda>out. Inr (l # out)))))"

definition exclusions_for :: "string \<Rightarrow> prefix list \<Rightarrow> prefix list \<Rightarrow> prefix list \<Rightarrow> exclusions" where
  "exclusions_for configText v4 v6 keep =
    (let ks = maskedPrefixes (collectTunnelPrefixes configText @ keep) in
     \<lparr>ex_v4 = maskedPrefixes v4, ex_v6 = maskedPrefixes v6,
      ex_keep4 = filter (\<lambda>k. is4 (paddr k)) ks, ex_keep6 = filter (\<lambda>k. \<not> is4 (paddr k)) ks\<rparr>)"

definition TransformWGConfigExclude ::
    "string \<Rightarrow> prefix list \<Rightarrow> prefix list \<Rightarrow> prefix list \<Rightarrow> (wg_error, string) result" where
  "TransformWGConfigExclude configText v4 v6 keep =
    (if v4 = [] \<and> v6 = [] then Inr configText
     else let (lines, ok) = scan_lines configText in
       bind_res (exclude_lines (exclusions_for configText v4 v6 keep) [] lines) (\<lambda>out.
         if \<not> ok then Inl ScanTooLong else Inr (join [CHR 0x0A] out @ [CHR 0x0A])))"

definition TransformWGConfigExcludeLAN :: "string \<Rightarrow> (wg_error, string) result" where
  "TransformWGConfigExcludeLAN configText =
    TransformWGConfigExclude configText lanExcludeRanges lanExcludeRangesV6 []"

section \<open>Counting\<close>

definition parseAllowedIPEntry :: "string \<Rightarrow> prefix option" where
  "parseAllowedIPEntry entry = (case ParsePrefix entry of Some p \<Rightarrow> Some p
     | None \<Rightarrow> map_option (\<lambda>a. Prefix a (bit_len a)) (ParseAddr entry))"

fun count_lines :: "string \<Rightarrow> string list \<Rightarrow> (wg_error, nat) result" where
  "count_lines sect [] = Inr 0"
| "count_lines sect (rawLine # ls) = (let trimmed = trim_space rawLine in
     case sectionHeader trimmed of Some header \<Rightarrow> count_lines header ls
     | None \<Rightarrow> if sect \<noteq> ''peer'' then count_lines sect ls
       else (case parseKeyValue trimmed of
           Some (key, value) \<Rightarrow>
             if \<not> equal_fold key ''AllowedIPs'' then count_lines sect ls
             else bind_res (map_res (\<lambda>p. case parseAllowedIPEntry p of None \<Rightarrow> Inl (BadAllowedIP p)
                 | Some q \<Rightarrow> Inr q) (splitCSV value)) (\<lambda>qs.
               bind_res (count_lines sect ls) (\<lambda>n.
                 Inr (length (filter (\<lambda>q. is4 (paddr q)) qs) + n)))
         | None \<Rightarrow> count_lines sect ls))"

definition CountAllowedIPv4 :: "string \<Rightarrow> (wg_error, nat) result" where
  "CountAllowedIPv4 configText = (let (lines, ok) = scan_lines configText in
     bind_res (count_lines [] lines) (\<lambda>n. if ok then Inr n else Inl ScanTooLong))"

section \<open>Meaning of the rewritten entries\<close>

text \<open>C15: carving is exact.  For masked inputs the prefixes subtractRanges returns cover
  exactly the input addresses outside every exclusion, each is a valid masked prefix, and disjoint
  inputs stay disjoint, so no address is routed twice.\<close>

theorem subtractRanges_exact:
  assumes "clean ins" and "disjoint_prefixes ins"
  shows "addrs_of (subtractRanges ins excludes) = addrs_of ins - addrs_of excludes \<and>
    clean (subtractRanges ins excludes) \<and> disjoint_prefixes (subtractRanges ins excludes)"
  using assms by (simp add: addrs_subtractRanges clean_subtractRanges disjoint_subtractRanges)

theorem subtractRanges_exact_witness:
  "addrs_of (subtractRanges [Prefix (V4 0) 0] lanExcludeRanges) =
     addrs_of [Prefix (V4 0) 0] - addrs_of lanExcludeRanges"
proof -
  have "clean [Prefix (V4 0) 0]" "disjoint_prefixes [Prefix (V4 0) 0]"
    by (auto simp: clean_def valid_prefix_def host_clear_def disjoint_prefixes_def)
  from subtractRanges_exact [OF this] show ?thesis by blast
qed

lemma addrs_of_empty_iff: "clean ps \<Longrightarrow> addrs_of ps = {} \<longleftrightarrow> ps = []"
  using pcontains_self [of "hd ps"] mem_addrs [of "paddr (hd ps)" "hd ps"]
  by (cases ps) (auto simp: clean_def simp del: mem_addrs)

lemma parse_entries_valid: "parse_entries v = Inr es \<Longrightarrow> (q, s) \<in> set es \<Longrightarrow> valid_prefix q"
  unfolding parse_entries_def map_res_eq_Inr
  by (fastforce simp: in_set_conv_nth list_all2_conv_all_nth split: option.splits
      dest: ParsePrefix_valid)

lemma clean_family_entries:
  "parse_entries v = Inr es \<Longrightarrow> clean (map fst (family_entries fam es)) \<and>
     (\<forall>q \<in> set (map fst (family_entries fam es)). is4 (paddr q) = fam)"
  by (auto simp: clean_def family_entries_def host_clear_masked dest: parse_entries_valid)

lemma subtractRanges_family:
  assumes "clean ins" and "\<forall>q \<in> set ins. is4 (paddr q) = fam"
  shows "\<forall>q \<in> set (subtractRanges ins exs). is4 (paddr q) = fam"
  using assms
proof (induction exs arbitrary: ins)
  case (Cons ex exs)
  have "\<forall>q \<in> set (sub_step ins ex). is4 (paddr q) = fam"
    unfolding sub_step_def using Cons.prems subtractPrefix_wf [of _ ex] by (auto simp: clean_def)
  then show ?case using Cons.IH [OF clean_sub_step] Cons.prems(1) by (simp add: subtractRanges_step)
qed (simp add: subtractRanges_step)

lemma reinclude_ball: "\<forall>q \<in> set out. P q \<Longrightarrow> \<forall>k \<in> set keep. P k \<Longrightarrow> \<forall>q \<in> set (reinclude out keep). P q"
  using reinclude_extends [of out keep] by (metis Un_iff set_append subset_iff)

lemma reinclude_eq_Nil: "reinclude out keep = [] \<longleftrightarrow> out = [] \<and> keep = []"
proof (cases keep)
  case (Cons k ks)
  obtain a where "reinclude (if covered_by out k then out else out @ [k]) ks =
      (if covered_by out k then out else out @ [k]) @ a"
    using reinclude_extends by blast
  then show ?thesis using Cons by (auto simp: reinclude_simps covered_by_def split: if_splits)
qed (simp add: reinclude_simps)

text \<open>on a peer line with IPv4 entries and IPv4 exclusions, the IPv4 entries written back read
  as prefixes covering exactly the line's addresses minus the exclusions plus the tunnel's own
  addresses; a line that would lose everything is written back unchanged.\<close>

theorem parts4_exact:
  assumes "parse_entries value = Inr es" and "ins = map fst (family_entries True es)" and "ins \<noteq> []"
    and "excl = maskedPrefixes v4" and "excl \<noteq> []"
    and "\<forall>k \<in> set keep4. is4 (paddr k) \<and> valid_prefix k"
  shows "\<exists>qs. map ParsePrefix (parts4 (family_entries True es) excl keep4) = map Some qs \<and>
    (if addrs_of ins \<subseteq> addrs_of v4 \<and> keep4 = [] then qs = ins
     else addrs_of qs = addrs_of ins - addrs_of v4 \<union> addrs_of keep4)"
proof -
  have cl: "clean ins" and fam: "\<forall>q \<in> set ins. is4 (paddr q) = True"
    using clean_family_entries [OF assms(1), of True] assms(2) by auto
  let ?sub = "subtractRanges ins excl"
  have sub: "addrs_of ?sub = addrs_of ins - addrs_of v4" "clean ?sub"
    using cl by (simp_all add: addrs_subtractRanges clean_subtractRanges assms(4))
  have "\<forall>q \<in> set (reinclude ?sub keep4). is4 (paddr q) \<and> valid_prefix q"
    using subtractRanges_family [OF cl fam] sub(2) assms(6)
    by (intro reinclude_ball) (auto simp: clean_def)
  then have ok: "\<forall>q \<in> set (routes4 ins excl keep4). is4 (paddr q) \<and> valid_prefix q"
    using cl fam by (auto simp: routes4_def clean_def Let_def)
  have "map ParsePrefix (parts4 (family_entries True es) excl keep4) = map Some (routes4 ins excl keep4)"
    using assms(2,3,5) ok by (auto simp: parts4_def ParsePrefix_str4)
  moreover have "?sub = [] \<longleftrightarrow> addrs_of ins \<subseteq> addrs_of v4"
    using addrs_of_empty_iff [OF sub(2)] sub(1) by blast
  ultimately show ?thesis
    by (intro exI [of _ "routes4 ins excl keep4"])
       (auto simp: routes4_def reinclude_eq_Nil addrs_reinclude sub(1))
qed

theorem parts4_exact_witness:
  "\<exists>qs. map ParsePrefix (parts4 (family_entries True [(Prefix (V4 0) 0, ''0.0.0.0/0'')])
      [Prefix (mk4 10 0 0 0) 8] []) = map Some qs \<and>
    addrs_of qs = addrs_of [Prefix (V4 0) 0] - addrs_of [Prefix (mk4 10 0 0 0) 8]"
proof -
  have m: "masked (Prefix (V4 0) 0) = Prefix (V4 0) 0" by (simp add: masked_def)
  have m10: "maskedPrefixes [Prefix (mk4 10 0 0 0) 8] = [Prefix (mk4 10 0 0 0) 8]"
    by (simp add: maskedPrefixes_def masked_def mk4_def valid_prefix_def)
  have p: "parse_entries ''0.0.0.0/0'' = Inr [(Prefix (V4 0) 0, ''0.0.0.0/0'')]" by code_simp
  have "V4 0 \<in> addrs_of [Prefix (V4 0) 0] - addrs_of [Prefix (mk4 10 0 0 0) 8]"
    by (simp add: pcontains_def valid_prefix_def mk4_def)
  then have "\<not> addrs_of [Prefix (V4 0) 0] \<subseteq> addrs_of [Prefix (mk4 10 0 0 0) 8]" by blast
  with parts4_exact [OF p refl _ m10 [symmetric], of "[]"] show ?thesis
    by (simp add: family_entries_def m)
qed

text \<open>The section a line is read in; a header line itself has none.\<close>

fun sections :: "string \<Rightarrow> string list \<Rightarrow> string list" where
  "sections sect [] = []"
| "sections sect (l # ls) = (case sectionHeader (trim_space l) of
     Some h \<Rightarrow> [] # sections h ls | None \<Rightarrow> sect # sections sect ls)"

lemma allowed_value_no_section [simp]: "allowed_value [] l = None"
  by (simp add: allowed_value_def)

lemma exclude_lines_shape:
  "exclude_lines ex sect ls = Inr out \<Longrightarrow>
    list_all2 (\<lambda>(s, l) l'. case allowed_value s l of None \<Rightarrow> l' = l
        | Some v \<Rightarrow> rewrite_value ex v = Inr l') (zip (sections sect ls) ls) out"
proof (induction ex sect ls arbitrary: out rule: exclude_lines.induct)
  case (2 ex sect rawLine ls)
  show ?case
  proof (cases "sectionHeader (trim_space rawLine)")
    case (Some h)
    with 2 show ?thesis by auto
  next
    case None
    with 2 show ?thesis by (cases "allowed_value sect rawLine") auto
  qed
qed simp

text \<open>the rewrite touches nothing but AllowedIPs.  The output has one line per line read; a line
  that is not the AllowedIPs of a peer section is kept as it was, and an AllowedIPs line is the
  rewriting of its own value.\<close>

theorem transform_touches_allowed_only:
  assumes "TransformWGConfigExclude cfg v4 v6 keep = Inr out" and "v4 \<noteq> [] \<or> v6 \<noteq> []"
    and "ls = fst (scan_lines cfg)"
  shows "\<exists>ls'. out = join [CHR 0x0A] ls' @ [CHR 0x0A] \<and>
    list_all2 (\<lambda>(s, l) l'. case allowed_value s l of None \<Rightarrow> l' = l
      | Some v \<Rightarrow> rewrite_value (exclusions_for cfg v4 v6 keep) v = Inr l') (zip (sections [] ls) ls) ls'"
proof -
  have "\<exists>ls'. exclude_lines (exclusions_for cfg v4 v6 keep) [] ls = Inr ls' \<and>
      out = join [CHR 0x0A] ls' @ [CHR 0x0A]"
    using assms by (auto simp: TransformWGConfigExclude_def Let_def split: prod.splits if_splits)
  then show ?thesis using exclude_lines_shape by blast
qed

definition sample_cfg :: string where
  "sample_cfg = ''[Interface]'' @ [CHR 0x0A] @ ''PrivateKey = k'' @ [CHR 0x0A] @
     ''[Peer]'' @ [CHR 0x0A] @ ''AllowedIPs = 8.0.0.0/6 # all'' @ [CHR 0x0A]"

theorem transform_touches_allowed_only_witness:
  "\<exists>out ls'. TransformWGConfigExclude sample_cfg [] lanExcludeRangesV6 [] = Inr out \<and>
     out = join [CHR 0x0A] ls' @ [CHR 0x0A] \<and> length ls' = 4"
proof -
  let ?r = "TransformWGConfigExclude sample_cfg [] lanExcludeRangesV6 []"
  have "\<not> isl ?r" by code_simp
  then obtain out where r: "?r = Inr out" by (cases ?r) auto
  have len: "length (fst (scan_lines sample_cfg)) = 4"
    "length (sections [] (fst (scan_lines sample_cfg))) = 4" by code_simp+
  have "lanExcludeRangesV6 \<noteq> []" by (simp add: lanExcludeRangesV6_def)
  with transform_touches_allowed_only [OF r _ refl] r len show ?thesis
    by (fastforce dest: list_all2_lengthD)
qed

section \<open>In-place route sync (wg/split_tunnel.go)\<close>

text \<open>The host's route table is a set, \<open>add\<close> may fail, \<open>remove\<close> always removes; \<open>ctx k\<close> is
  ctx.Err() at the k-th check.  The result is the tracked list, the table and whether an error
  was returned.\<close>

fun add_loop :: "(nat \<Rightarrow> bool) \<Rightarrow> (string \<Rightarrow> bool) \<Rightarrow> nat \<Rightarrow> string list \<Rightarrow> string set
    \<Rightarrow> nat \<times> string set \<times> bool" where
  "add_loop ctx add_ok i [] table = (i, table, True)"
| "add_loop ctx add_ok i (r # rs) table =
    (if ctx i \<or> \<not> add_ok r then (i, table, False)
     else add_loop ctx add_ok (i + 1) rs (insert r table))"

fun remove_loop :: "(nat \<Rightarrow> bool) \<Rightarrow> nat \<Rightarrow> string list \<Rightarrow> string set \<Rightarrow> nat \<times> string set \<times> bool" where
  "remove_loop ctx i [] table = (i, table, True)"
| "remove_loop ctx i (r # rs) table =
    (if ctx i then (i, table, False) else remove_loop ctx (i + 1) rs (table - {r}))"

definition syncTrackedAllowedIPs :: "(nat \<Rightarrow> bool) \<Rightarrow> (string \<Rightarrow> bool) \<Rightarrow> (string list \<Rightarrow> string list)
    \<Rightarrow> string list \<Rightarrow> string list \<Rightarrow> string set \<Rightarrow> string list \<times> string set \<times> bool" where
  "syncTrackedAllowedIPs ctx add_ok routes old want table =
    (let oldRoutes = routes old; wantRoutes = routes want;
         toAdd = subtractSpecSet wantRoutes oldRoutes;
         toRemove = subtractSpecSet oldRoutes wantRoutes;
         (i, table1, ok1) = add_loop ctx add_ok 0 toAdd table
     in if \<not> ok1 then (mergeSpecSet old (take i toAdd), table1, False)
        else let (j, table2, ok2) = remove_loop (\<lambda>k. ctx (length toAdd + k)) 0 toRemove table1 in
          if \<not> ok2 then (mergeSpecSet want (drop j toRemove), table2, False)
          else (want, table2, True))"

section \<open>The route sync keeps its books\<close>

text \<open>net.ParseCIDR: the mask is read after the first slash and may have leading zeros.\<close>

definition ParseCIDR :: "string \<Rightarrow> prefix option" where
  "ParseCIDR s = (case cut CHR ''/'' s of None \<Rightarrow> None
     | Some (a, m) \<Rightarrow> (case (ParseAddr a, parse_dec m) of
         (Some ip, Some n) \<Rightarrow> if n \<le> int (bit_len ip) then Some (Prefix ip (nat n)) else None
       | _ \<Rightarrow> None))"

definition normalizedRoutesForPrefix :: "string \<Rightarrow> (string list \<times> string) option" where
  "normalizedRoutesForPrefix prefix_text = (case ParseCIDR prefix_text of None \<Rightarrow> None
     | Some p \<Rightarrow>
         if is4 (paddr p) then
           Some (if pbits p = 0 then [''0.0.0.0/1'', ''128.0.0.0/1''] else [prefix_str (masked p)], ''inet'')
         else
           Some (if pbits p = 0 then [''::/1'', ''8000::/1''] else [prefix_str (masked p)], ''inet6''))"

definition expandRoutePrefixes :: "string list \<Rightarrow> string list" where
  "expandRoutePrefixes prefixes = concat (map (\<lambda>prefix_text.
     case normalizedRoutesForPrefix prefix_text of None \<Rightarrow> [prefix_text] | Some (routes, _) \<Rightarrow> routes)
     prefixes)"

definition routes_of :: "string \<Rightarrow> string set" where
  "routes_of e = set (expandRoutePrefixes [e])"

lemma set_expand: "set (expandRoutePrefixes es) = (\<Union>e \<in> set es. routes_of e)"
  by (auto simp: expandRoutePrefixes_def routes_of_def)

definition cidr4 :: "string \<Rightarrow> bool" where
  "cidr4 e \<longleftrightarrow> (case ParseCIDR e of None \<Rightarrow> False | Some p \<Rightarrow> is4 (paddr p))"

lemma ParseCIDR_str4:
  assumes "is4 (paddr p)" and "valid_prefix p"
  shows "ParseCIDR (prefix_str p) = Some p"
proof -
  obtain w where w: "paddr p = V4 w" using assms(1) by (cases "paddr p") auto
  have "cut CHR ''/'' (addr4_str w @ ''/'' @ itoa_nat (pbits p)) = Some (addr4_str w, itoa_nat (pbits p))"
    using slash_not_addr4 by simp
  with assms(2) w show ?thesis
    by (cases p) (auto simp: ParseCIDR_def prefix_str_def ParseAddr_addr4 valid_prefix_def)
qed

lemma ParseCIDR_valid: "ParseCIDR s = Some p \<Longrightarrow> valid_prefix p"
  by (auto simp: ParseCIDR_def valid_prefix_def split: option.splits if_splits)

lemma half_routes: "expandRoutePrefixes [''0.0.0.0/1''] = [''0.0.0.0/1'']"
  "expandRoutePrefixes [''128.0.0.0/1''] = [''128.0.0.0/1'']"
  by code_simp+

text \<open>A route is its own expansion.\<close>

lemma routes_of_route: "cidr4 e \<Longrightarrow> r \<in> routes_of e \<Longrightarrow> routes_of r = {r}"
proof -
  assume e: "cidr4 e" and r: "r \<in> routes_of e"
  then obtain p where p: "ParseCIDR e = Some p" "is4 (paddr p)"
    by (auto simp: cidr4_def split: option.splits)
  show ?thesis
  proof (cases "pbits p = 0")
    case True
    with r p have "r = ''0.0.0.0/1'' \<or> r = ''128.0.0.0/1''"
      by (simp add: routes_of_def expandRoutePrefixes_def normalizedRoutesForPrefix_def)
    then show ?thesis using half_routes by (auto simp: routes_of_def)
  next
    case False
    have v: "valid_prefix p" by (rule ParseCIDR_valid) (rule p)
    have "ParseCIDR (prefix_str (masked p)) = Some (masked p)"
      using p(2) v by (intro ParseCIDR_str4) simp_all
    moreover have "r = prefix_str (masked p)"
      using r p False by (simp add: routes_of_def expandRoutePrefixes_def normalizedRoutesForPrefix_def)
    ultimately show ?thesis using False p(2) masked_id [of "masked p"] v host_clear_masked [of p]
      by (simp add: routes_of_def expandRoutePrefixes_def normalizedRoutesForPrefix_def)
  qed
qed

lemma add_loop_spec:
  "add_loop ctx ok i rs t = (j, t', b) \<Longrightarrow>
     i \<le> j \<and> j \<le> i + length rs \<and> t' = t \<union> set (take (j - i) rs) \<and> (b \<longleftrightarrow> j = i + length rs)"
proof (induction rs arbitrary: i t)
  case (Cons r rs)
  show ?case
  proof (cases "ctx i \<or> \<not> ok r")
    case False
    then have *: "add_loop ctx ok (i + 1) rs (insert r t) = (j, t', b)" using Cons.prems by simp
    from Cons.IH [OF this] have "j - i = Suc (j - Suc i)" by arith
    with Cons.IH [OF *] show ?thesis by auto
  qed (use Cons.prems in auto)
qed auto

lemma remove_loop_spec:
  "remove_loop ctx i rs t = (j, t', b) \<Longrightarrow>
     i \<le> j \<and> j \<le> i + length rs \<and> t' = t - set (take (j - i) rs) \<and> (b \<longleftrightarrow> j = i + length rs)"
proof (induction rs arbitrary: i t)
  case (Cons r rs)
  show ?case
  proof (cases "ctx i")
    case False
    then have *: "remove_loop ctx (i + 1) rs (t - {r}) = (j, t', b)" using Cons.prems by simp
    from Cons.IH [OF this] have "j - i = Suc (j - Suc i)" by arith
    with Cons.IH [OF *] show ?thesis by auto
  qed (use Cons.prems in auto)
qed auto

lemma routes_of_listed:
  assumes "\<forall>e \<in> set es. cidr4 e" and "set rs \<subseteq> set (expandRoutePrefixes es)"
  shows "set (expandRoutePrefixes rs) = set rs"
proof -
  have "routes_of r = {r}" if "r \<in> set rs" for r
    using that assms routes_of_route by (force simp: set_expand)
  then show ?thesis by (auto simp: set_expand)
qed

lemma set_expand_merge:
  "set (expandRoutePrefixes (mergeSpecSet es fs)) = set (expandRoutePrefixes es) \<union> set (expandRoutePrefixes fs)"
  by (auto simp: set_expand mergeSpecSet_def)


lemma expand_own:
  assumes "is4 (paddr p)" and "valid_prefix p" and "host_clear p" and "pbits p \<noteq> 0"
  shows "expandRoutePrefixes [prefix_str p] = [prefix_str p]" and "cidr4 (prefix_str p)"
  using assms by (simp_all add: expandRoutePrefixes_def normalizedRoutesForPrefix_def
      ParseCIDR_str4 masked_id cidr4_def)

lemma expand_Cons: "expandRoutePrefixes (e # es) = expandRoutePrefixes [e] @ expandRoutePrefixes es"
  by (simp add: expandRoutePrefixes_def)


text \<open>Without the distinctness the books can be wrong: an old list that yields a route twice loses
  it from the table with the first removal, and a context that ends before the second leaves the
  route tracked though it is gone.\<close>

lemma sync_duplicate_route:
  fixes a b :: string
  assumes "a = ''0.0.0.0/1''" and "b = ''128.0.0.0/1''"
  shows "syncTrackedAllowedIPs (\<lambda>k. k = 1) (\<lambda>_. True) expandRoutePrefixes [''0.0.0.0/0'', a] [] {a, b} =
    ([b, a], {b}, False)"
proof -
  have "ParseCIDR ''0.0.0.0/0'' = Some (Prefix (V4 0) 0)" by code_simp
  then have "expandRoutePrefixes [''0.0.0.0/0''] = [a, b]"
    by (simp add: expandRoutePrefixes_def normalizedRoutesForPrefix_def assms)
  then have e: "expandRoutePrefixes [''0.0.0.0/0'', a] = [a, b, a]"
    unfolding expand_Cons [of "''0.0.0.0/0''" "[a]"] using half_routes(1) by (simp add: assms(1))
  have n: "expandRoutePrefixes [] = []" and ne: "a \<noteq> b"
    by (simp_all add: expandRoutePrefixes_def assms)
  have "{a, b} - {a} = {b}" using ne by blast
  with ne show ?thesis
    by (simp add: syncTrackedAllowedIPs_def e n subtractSpecSet_def mergeSpecSet_def)
qed

end
