(* ===== verification/UAPI.thy ===== *)
theory UAPI
  imports Allow_List
begin

text \<open>wg/uapi.go and wg/preshared.go: the wg-quick configuration turned into the line protocol the
  WireGuard device is configured with.  The lemmas show that no value of the configuration can
  add a line of its own, which keys may occur, and the order within a peer.\<close>

section \<open>Standard library pieces\<close>

text \<open>encoding/base64 StdEncoding: CR and LF are skipped, four characters at a time, padding
  only at the end.\<close>

definition b64_val :: "char \<Rightarrow> int option" where
  "b64_val c = (let n = of_char c in
     if 65 \<le> n \<and> n \<le> 90 then Some (n - 65) else if 97 \<le> n \<and> n \<le> 122 then Some (n - 71)
     else if 48 \<le> n \<and> n \<le> 57 then Some (n + 4) else if n = 43 then Some 62
     else if n = 47 then Some 63 else None)"

fun b64_quads :: "string \<Rightarrow> int list option" where
  "b64_quads [] = Some []"
| "b64_quads (a # b # c # d # rest) =
    (case (b64_val a, b64_val b) of
       (Some x, Some y) \<Rightarrow>
         (if d = CHR ''='' then
            (if rest \<noteq> [] then None
             else if c = CHR ''='' then Some [(x * 4 + y div 16) mod 256]
             else case b64_val c of None \<Rightarrow> None
               | Some z \<Rightarrow> Some [(x * 4 + y div 16) mod 256, (y * 16 + z div 4) mod 256])
          else case (b64_val c, b64_val d, b64_quads rest) of
              (Some z, Some w, Some bs) \<Rightarrow>
                Some ((x * 4 + y div 16) mod 256 # (y * 16 + z div 4) mod 256 # (z * 64 + w) mod 256 # bs)
            | _ \<Rightarrow> None)
     | _ \<Rightarrow> None)"
| "b64_quads _ = None"

definition b64_decode :: "string \<Rightarrow> int list option" where
  "b64_decode s = b64_quads (filter (\<lambda>c. c \<noteq> CHR 0x0A \<and> c \<noteq> CHR 0x0D) s)"

definition hex_encode :: "int list \<Rightarrow> string" where
  "hex_encode bs = concat (map (\<lambda>b. [hex_char (b div 16), hex_char (b mod 16)]) bs)"

text \<open>strconv.ParseUint with base 0.\<close>

fun uint_digits :: "int \<Rightarrow> string \<Rightarrow> int \<Rightarrow> int option" where
  "uint_digits b [] n = Some n"
| "uint_digits b (c # cs) n = (if c = CHR ''_'' then uint_digits b cs n
     else case hex_val (lower_char c) of None \<Rightarrow> None
       | Some d \<Rightarrow> if d < b then uint_digits b cs (n * b + d) else None)"

fun underscores_ok :: "bool \<Rightarrow> string \<Rightarrow> bool" where
  "underscores_ok digit [] = True"
| "underscores_ok digit (c # cs) = (if c = CHR ''_'' then digit \<and> cs \<noteq> [] \<and> underscores_ok False cs
     else underscores_ok True cs)"

definition parse_uint0 :: "string \<Rightarrow> nat \<Rightarrow> int option" where
  "parse_uint0 s bits =
    (if s = [] then None
     else let p = map lower_char (take 2 s); long = (3 \<le> length s);
       (b, body, pre) =
         (if hd s = CHR ''0'' then
            (if long \<and> p = ''0b'' then (2, drop 2 s, True) else if long \<and> p = ''0o'' then (8, drop 2 s, True)
             else if long \<and> p = ''0x'' then (16, drop 2 s, True) else (8, drop 1 s, True))
          else (10, s, False))
       in case uint_digits b body 0 of None \<Rightarrow> None
         | Some n \<Rightarrow> if n < 2 ^ bits \<and> underscores_ok pre body then Some n else None)"

section \<open>wg/uapi.go\<close>

definition base64ToHex :: "string \<Rightarrow> (wg_error, string) result" where
  "base64ToHex b64 = (case b64_decode (trim_space b64) of None \<Rightarrow> Inl BadValue | Some bs \<Rightarrow> Inr (hex_encode bs))"

definition parseUAPIUint :: "string \<Rightarrow> nat \<Rightarrow> (wg_error, string) result" where
  "parseUAPIUint value bits = (case parse_uint0 (trim_space value) bits of None \<Rightarrow> Inl BadValue
     | Some n \<Rightarrow> Inr (itoa n))"

definition parsePersistentKeepalive :: "string \<Rightarrow> (wg_error, string) result" where
  "parsePersistentKeepalive value = (if equal_fold (trim_space value) ''off'' then Inr ''0''
     else parseUAPIUint value 16)"

definition filterIPv4AllowedIPs :: "string \<Rightarrow> (wg_error, string list) result" where
  "filterIPv4AllowedIPs csv =
    (let entries = splitCSV csv in
     bind_res (map_res (\<lambda>t. case parseAllowedIPEntry t of None \<Rightarrow> Inl (BadAllowedIP t) | Some q \<Rightarrow> Inr q) entries)
       (\<lambda>qs. let v4 = map (\<lambda>q. prefix_str (masked q)) (filter (\<lambda>q. is4 (paddr q)) qs) in
         if entries \<noteq> [] \<and> v4 = [] then Inl OnlyIPv6 else Inr v4))"

definition expandAllowedIPs :: "string \<Rightarrow> (wg_error, string list) result" where
  "expandAllowedIPs csv = bind_res (filterIPv4AllowedIPs csv) (\<lambda>as. Inr (map (\<lambda>a. ''allowed_ip='' @ a) as))"

type_synonym kv = "string \<times> string"

definition strip_value :: "string \<Rightarrow> string" where
  "strip_value v = (if \<exists>c \<in> set v. is_comment_char c then trim_space (stripInlineComment v) else v)"

record uapi_src =
  us_section :: string
  us_iface :: "kv list"
  us_peers :: "kv list list"

definition source_line :: "uapi_src \<Rightarrow> string \<Rightarrow> (wg_error, uapi_src) result" where
  "source_line st rawLine = (let line = trim_space rawLine in
     if is_blank_or_comment line then Inr st
     else case bracket_header line of
       Some s \<Rightarrow> Inr (st\<lparr>us_section := s, us_peers := us_peers st @ (if s = ''peer'' then [[]] else [])\<rparr>)
     | None \<Rightarrow> (case cut CHR ''='' line of None \<Rightarrow> Inr st
         | Some (rawKey, rawValue) \<Rightarrow>
             let e = (trim_space rawKey, strip_value (trim_space rawValue)) in
             if us_section st = ''interface'' then Inr (st\<lparr>us_iface := us_iface st @ [e]\<rparr>)
             else if us_section st = ''peer'' then
               Inr (st\<lparr>us_peers := butlast (us_peers st) @ [last (us_peers st) @ [e]]\<rparr>)
             else Inl (BadSection (us_section st))))"

fun source_lines :: "uapi_src \<Rightarrow> string list \<Rightarrow> (wg_error, uapi_src) result" where
  "source_lines st [] = Inr st"
| "source_lines st (l # ls) = bind_res (source_line st l) (\<lambda>st'. source_lines st' ls)"

definition parseUAPISource :: "string \<Rightarrow> (wg_error, kv list \<times> kv list list) result" where
  "parseUAPISource cfg = (let (lines, ok) = scan_lines cfg in
     bind_res (source_lines \<lparr>us_section = [], us_iface = [], us_peers = []\<rparr> lines) (\<lambda>st.
       if ok then Inr (us_iface st, us_peers st) else Inl ScanTooLong))"

definition convertInterfaceKV :: "kv \<Rightarrow> (wg_error, string) result" where
  "convertInterfaceKV e = (let k = to_lower (fst e) in
     if k = ''privatekey'' then bind_res (base64ToHex (snd e)) (\<lambda>h. Inr (''private_key='' @ h))
     else if k = ''listenport'' then bind_res (parseUAPIUint (snd e) 16) (\<lambda>n. Inr (''listen_port='' @ n))
     else if k = ''fwmark'' then bind_res (parseUAPIUint (snd e) 32) (\<lambda>n. Inr (''fwmark='' @ n))
     else Inl BadKey)"

definition convertPeerFieldKV :: "kv \<Rightarrow> (wg_error, string list) result" where
  "convertPeerFieldKV e = (let k = to_lower (fst e) in
     if k = ''presharedkey'' then bind_res (base64ToHex (snd e)) (\<lambda>h. Inr [''preshared_key='' @ h])
     else if k = ''endpoint'' then Inr [''endpoint='' @ snd e]
     else if k = ''allowedips'' then expandAllowedIPs (snd e)
     else if k = ''persistentkeepalive'' then
       bind_res (parsePersistentKeepalive (snd e)) (\<lambda>n. Inr [''persistent_keepalive_interval='' @ n])
     else Inl BadKey)"

text \<open>The first PublicKey entry and the other entries in order.\<close>

fun take_public_key :: "kv list \<Rightarrow> (kv \<times> kv list) option" where
  "take_public_key [] = None"
| "take_public_key (e # es) = (if equal_fold (fst e) ''publickey'' then Some (e, es)
     else map_option (\<lambda>(p, rest). (p, e # rest)) (take_public_key es))"

definition convertPeerKVs :: "kv list \<Rightarrow> (wg_error, string list) result" where
  "convertPeerKVs peer = (case take_public_key peer of None \<Rightarrow> Inl NoPublicKey
     | Some (pk, rest) \<Rightarrow> bind_res (base64ToHex (snd pk)) (\<lambda>h.
         bind_res (map_res convertPeerFieldKV rest) (\<lambda>lss.
           Inr ([''public_key='' @ h, ''replace_allowed_ips=true''] @ concat lss))))"

definition wgConfigToUAPI :: "string \<Rightarrow> (wg_error, string) result" where
  "wgConfigToUAPI cfg =
    bind_res (parseUAPISource cfg) (\<lambda>(iface, peers).
    bind_res (map_res convertInterfaceKV iface) (\<lambda>out1.
      if \<not> (\<exists>l \<in> set out1. has_prefix l ''private_key='') then Inl NoPrivateKey
      else bind_res (map_res convertPeerKVs peers) (\<lambda>lss.
        Inr (join [CHR 0x0A] (out1 @ (if peers \<noteq> [] then [''replace_peers=true''] else []) @ concat lss)
             @ [CHR 0x0A]))))"

definition allowed_step :: "string \<times> string list \<Rightarrow> kv \<Rightarrow> (wg_error, string \<times> string list) result" where
  "allowed_step st e = (let k = to_lower (fst e) in
     if k = ''publickey'' then
       (if fst st = [] then bind_res (base64ToHex (snd e)) (\<lambda>h. Inr (h, snd st)) else Inr st)
     else if k = ''allowedips'' then bind_res (expandAllowedIPs (snd e)) (\<lambda>ls. Inr (fst st, snd st @ ls))
     else Inr st)"

fun allowed_steps :: "string \<times> string list \<Rightarrow> kv list \<Rightarrow> (wg_error, string \<times> string list) result" where
  "allowed_steps st [] = Inr st"
| "allowed_steps st (e # es) = bind_res (allowed_step st e) (\<lambda>st'. allowed_steps st' es)"

definition allowedIPsUAPI :: "string \<Rightarrow> (wg_error, string \<times> string list) result" where
  "allowedIPsUAPI cfg =
    bind_res (parseUAPISource cfg) (\<lambda>(_, peers).
      if peers = [] then Inl NoPeers
      else bind_res (map_res (\<lambda>peer. bind_res (allowed_steps ([], []) peer) (\<lambda>(pk, allowed).
          if pk = [] then Inl NoPublicKey
          else Inr (pk, [''public_key='' @ pk, ''update_only=true'', ''replace_allowed_ips=true''] @ allowed)))
          peers) (\<lambda>r. Inr (join [CHR 0x0A] (concat (map snd r)) @ [CHR 0x0A], map fst r)))"

definition extract_line :: "string \<times> string list \<Rightarrow> string \<Rightarrow> (wg_error, string \<times> string list) result" where
  "extract_line st rawLine = (let line = trim_space rawLine in
     if is_blank_or_comment line then Inr st
     else case bracket_header line of Some s \<Rightarrow> Inr (s, snd st)
     | None \<Rightarrow> if fst st \<noteq> ''peer'' then Inr st
       else (case cut CHR ''='' line of None \<Rightarrow> Inr st
         | Some (rawKey, rawValue) \<Rightarrow>
             if equal_fold (trim_space rawKey) ''AllowedIPs'' then
               bind_res (filterIPv4AllowedIPs (strip_value (trim_space rawValue))) (\<lambda>v4. Inr (fst st, snd st @ v4))
             else Inr st))"

fun extract_lines :: "string \<times> string list \<Rightarrow> string list \<Rightarrow> (wg_error, string \<times> string list) result" where
  "extract_lines st [] = Inr st"
| "extract_lines st (l # ls) = bind_res (extract_line st l) (\<lambda>st'. extract_lines st' ls)"

definition extractAllowedIPsFromConfig :: "string \<Rightarrow> (wg_error, string list) result" where
  "extractAllowedIPsFromConfig cfg = (let (lines, ok) = scan_lines cfg in
     bind_res (extract_lines ([], []) lines) (\<lambda>st. if ok then Inr (snd st) else Inl ScanTooLong))"

definition validateParsedIPv4Only :: "parsedUserlandConfig \<Rightarrow> (wg_error, string list) result" where
  "validateParsedIPv4Only parsed =
    (if \<not> validateIPv4InterfaceAddresses (cfg_addresses parsed) then Inl BadAddress
     else if \<not> validateIPv4DNSServers (cfg_dnsServers parsed) then Inl BadDNS
     else extractAllowedIPsFromConfig (cfg_wgConfig parsed))"

definition stripListenPort :: "string \<Rightarrow> string" where
  "stripListenPort cfg = join [CHR 0x0A] (filter (\<lambda>line. case cut CHR ''='' line of None \<Rightarrow> True
     | Some (key, _) \<Rightarrow> \<not> equal_fold (trim_space key) ''ListenPort'') (split_on CHR 0x0A cfg))"

section \<open>wg/preshared.go\<close>

definition peerHasPresharedKey :: "kv list \<Rightarrow> bool" where
  "peerHasPresharedKey peer \<longleftrightarrow> (\<exists>e \<in> set peer. equal_fold (fst e) ''PresharedKey'' \<and> snd e \<noteq> [])"

definition HasPresharedKey :: "string \<Rightarrow> bool" where
  "HasPresharedKey cfg = (case parseUAPISource cfg of Inl _ \<Rightarrow> False
     | Inr (_, peers) \<Rightarrow> peers \<noteq> [] \<and> (\<forall>p \<in> set peers. peerHasPresharedKey p))"

section \<open>No line is injected\<close>

abbreviation nl_free :: "string \<Rightarrow> bool" where
  "nl_free s \<equiv> CHR 0x0A \<notin> set s"

lemma set_trim_space: "set (trim_space s) \<subseteq> set s"
proof
  fix x assume "x \<in> set (trim_space s)"
  then have "x \<in> set (dropWhile is_space s)"
    unfolding trim_space_def by (metis set_dropWhileD set_rev)
  then show "x \<in> set s" by (rule set_dropWhileD)
qed

lemma nl_free_trim: "nl_free s \<Longrightarrow> nl_free (trim_space s)"
  using set_trim_space by blast

lemma nl_free_strip_value: "nl_free s \<Longrightarrow> nl_free (strip_value s)"
  by (auto simp: strip_value_def stripInlineComment_def dest!: subsetD [OF set_trim_space] set_takeWhileD)

lemma scan_lines_nl_free: "l \<in> set (fst (scan_lines s)) \<Longrightarrow> nl_free l"
proof -
  assume "l \<in> set (fst (scan_lines s))"
  then obtain w where w: "w \<in> set (raw_lines s)" "l = drop_cr w"
    by (auto simp: scan_lines_def Let_def dest: set_takeWhileD)
  then have "w \<in> set (split_on CHR 0x0A s)"
    by (auto simp: raw_lines_def Let_def dest: in_set_butlastD split: if_splits)
  then have "nl_free w" using split_on_pieces by blast
  with w(2) show ?thesis by (auto simp: drop_cr_def dest: in_set_butlastD split: if_splits)
qed

definition kv_clean :: "kv \<Rightarrow> bool" where
  "kv_clean e \<longleftrightarrow> nl_free (snd e)"

definition src_nl_free :: "uapi_src \<Rightarrow> bool" where
  "src_nl_free st \<longleftrightarrow> list_all kv_clean (us_iface st) \<and> list_all (list_all kv_clean) (us_peers st) \<and>
     (us_section st = ''peer'' \<longrightarrow> us_peers st \<noteq> [])"

lemma list_all_butlast_last:
  "xs \<noteq> [] \<Longrightarrow> list_all P xs \<Longrightarrow> list_all P (butlast xs) \<and> P (last xs)"
  by (auto simp: list_all_iff dest: in_set_butlastD)

lemma source_line_nl_free:
  assumes "src_nl_free st" and "nl_free l" and "source_line st l = Inr st'"
  shows "src_nl_free st'"
proof -
  have v: "kv_clean (k, strip_value (trim_space b))" if "cut CHR ''='' (trim_space l) = Some (a, b)" for k a b
    using cut_SomeD [OF that] nl_free_trim [OF assms(2)] unfolding kv_clean_def snd_conv
    by (intro nl_free_strip_value nl_free_trim) auto
  have L: "us_section st = ''peer'' \<Longrightarrow> list_all (list_all kv_clean) (butlast (us_peers st)) \<and>
      list_all kv_clean (last (us_peers st))"
    using assms(1) list_all_butlast_last [of "us_peers st" "list_all kv_clean"]
    by (simp add: src_nl_free_def)
  show ?thesis
    using assms(1,3) v L unfolding source_line_def src_nl_free_def Let_def
    by (auto split: if_splits option.splits prod.splits)
qed

lemma source_lines_nl_free:
  "src_nl_free st \<Longrightarrow> \<forall>l \<in> set ls. nl_free l \<Longrightarrow> source_lines st ls = Inr st' \<Longrightarrow> src_nl_free st'"
  by (induction ls arbitrary: st) (auto intro: source_line_nl_free)

lemma parseUAPISource_nl_free:
  assumes "parseUAPISource cfg = Inr (iface, peers)"
  shows "list_all kv_clean iface \<and> list_all (list_all kv_clean) peers"
proof -
  obtain st where st: "source_lines \<lparr>us_section = [], us_iface = [], us_peers = []\<rparr>
      (fst (scan_lines cfg)) = Inr st" and e: "iface = us_iface st" "peers = us_peers st"
    using assms by (auto simp: parseUAPISource_def Let_def split: prod.splits if_splits)
  have "src_nl_free st"
    by (rule source_lines_nl_free [OF _ _ st]) (auto simp: src_nl_free_def scan_lines_nl_free)
  then show ?thesis by (simp add: src_nl_free_def e)
qed

text \<open>A well-formed protocol line: a key of a given set, an equals sign, no newline.\<close>

definition uapi_line :: "string set \<Rightarrow> string \<Rightarrow> bool" where
  "uapi_line keys l \<longleftrightarrow> nl_free l \<and> (\<exists>k \<in> keys. \<exists>v. l = k @ ''='' @ v)"

lemma hex_char_nl: "0 \<le> d \<Longrightarrow> d < 16 \<Longrightarrow> CHR 0x0A \<noteq> hex_char d"
proof
  assume d: "0 \<le> d" "d < 16" and "CHR 0x0A = hex_char d"
  from this(3) [symmetric] have "of_char (hex_char d) = (10 :: int)" by simp
  with d show False by (auto simp: hex_char_def split: if_splits)
qed

lemma b64_quads_range: "b64_quads s = Some bs \<Longrightarrow> b \<in> set bs \<Longrightarrow> 0 \<le> b \<and> b < 256"
proof (induction s arbitrary: bs rule: b64_quads.induct)
  case (2 a b' c d rest)
  then show ?case by (auto split: option.splits if_splits)
qed auto

lemma base64ToHex_nl_free: "base64ToHex v = Inr h \<Longrightarrow> nl_free h"
proof -
  assume "base64ToHex v = Inr h"
  then obtain bs where bs: "b64_quads (filter (\<lambda>c. c \<noteq> CHR 0x0A \<and> c \<noteq> CHR 0x0D) (trim_space v)) = Some bs"
    and h: "h = hex_encode bs"
    by (auto simp: base64ToHex_def b64_decode_def split: option.splits)
  have "0 \<le> b div 16 \<and> b div 16 < 16" if "b \<in> set bs" for b
    using b64_quads_range [OF bs that] by auto
  moreover have "0 \<le> b mod 16 \<and> b mod 16 < 16" for b :: int by simp
  ultimately have "CHR 0x0A \<noteq> hex_char (b div 16) \<and> CHR 0x0A \<noteq> hex_char (b mod 16)" if "b \<in> set bs" for b
    using hex_char_nl that by blast
  then have "\<forall>b \<in> set bs. CHR 0x0A \<notin> set [hex_char (b div 16), hex_char (b mod 16)]" by simp
  then show ?thesis unfolding h hex_encode_def set_concat set_map by blast
qed

lemma itoa_nl_free: "0 \<le> n \<Longrightarrow> nl_free (itoa n)"
  using itoa_digits [of n "CHR 0x0A"] by (auto simp: is_digit_def)

lemma uint_digits_nonneg: "0 \<le> n \<Longrightarrow> 0 \<le> b \<Longrightarrow> uint_digits b s n = Some m \<Longrightarrow> 0 \<le> m"
  by (induction b s n rule: uint_digits.induct)
     (auto simp: hex_val_def Let_def split: if_splits option.splits)

lemma parse_uint0_nonneg: "parse_uint0 v bits = Some n \<Longrightarrow> 0 \<le> n"
proof -
  assume "parse_uint0 v bits = Some n"
  then obtain b body where "uint_digits b body 0 = Some n" "b \<in> {2, 8, 10, 16}"
    unfolding parse_uint0_def Let_def by (auto split: if_splits option.splits prod.splits)
  then show ?thesis using uint_digits_nonneg [of 0 b body n] by auto
qed

lemma parseUAPIUint_nl_free: "parseUAPIUint v bits = Inr s \<Longrightarrow> nl_free s"
  by (auto simp: parseUAPIUint_def split: option.splits dest!: parse_uint0_nonneg itoa_nl_free)

lemma addr4_nl_free: "nl_free (addr4_str w)"
proof -
  have "nl_free (itoa b)" if "b \<in> set (octets4 w)" for b
    using octets4_range [OF that] by (intro itoa_nl_free) simp
  then show ?thesis
    using set_join [of "CHR 0x0A" "''.''" "map itoa (octets4 w)"] by (auto simp: addr4_str_def)
qed

lemma prefix4_nl_free: "is4 (paddr p) \<Longrightarrow> nl_free (prefix_str p)"
  using itoa_nl_free [of "int (pbits p)"] addr4_nl_free
  by (cases "paddr p") (auto simp: prefix_str_def)

lemma expandAllowedIPs_lines:
  assumes "expandAllowedIPs csv = Inr ls"
  shows "\<forall>l \<in> set ls. uapi_line {''allowed_ip''} l"
proof -
  have "nl_free (prefix_str (masked q))" if "is4 (paddr q)" for q
    using that by (intro prefix4_nl_free) simp
  then have "\<forall>a \<in> set as. nl_free a" if "filterIPv4AllowedIPs csv = Inr as" for as
    using that by (auto simp: filterIPv4AllowedIPs_def Let_def split: if_splits)
  then show ?thesis using assms by (auto simp: expandAllowedIPs_def uapi_line_def)
qed

definition iface_keys :: "string set" where
  "iface_keys = {''private_key'', ''listen_port'', ''fwmark''}"

definition peer_keys :: "string set" where
  "peer_keys = {''preshared_key'', ''endpoint'', ''allowed_ip'', ''persistent_keepalive_interval''}"

lemma convertInterfaceKV_line: "convertInterfaceKV e = Inr l \<Longrightarrow> uapi_line iface_keys l"
  by (auto simp: convertInterfaceKV_def Let_def uapi_line_def iface_keys_def
      dest: base64ToHex_nl_free parseUAPIUint_nl_free split: if_splits)

lemma convertPeerFieldKV_lines:
  assumes "convertPeerFieldKV e = Inr ls" and "kv_clean e"
  shows "\<forall>l \<in> set ls. uapi_line peer_keys l"
proof -
  have mono: "uapi_line {''allowed_ip''} l \<Longrightarrow> uapi_line peer_keys l" for l
    by (auto simp: uapi_line_def peer_keys_def)
  show ?thesis
    using assms
    by (auto simp: convertPeerFieldKV_def Let_def parsePersistentKeepalive_def
        dest!: expandAllowedIPs_lines base64ToHex_nl_free parseUAPIUint_nl_free
        intro: mono split: if_splits)
       (auto simp: uapi_line_def peer_keys_def kv_clean_def)
qed

lemma map_res_all:
  assumes "map_res f xs = Inr ys" and "\<forall>x \<in> set xs. \<forall>y. f x = Inr y \<longrightarrow> Q y"
  shows "\<forall>y \<in> set ys. Q y"
  using assms by (induction xs arbitrary: ys) auto

lemma take_public_key_clean:
  "take_public_key es = Some (p, rest) \<Longrightarrow> list_all kv_clean es \<Longrightarrow> kv_clean p \<and> list_all kv_clean rest"
  by (induction es arbitrary: rest) (auto split: if_splits)

definition peer_block :: "string list \<Rightarrow> bool" where
  "peer_block ls \<longleftrightarrow> (\<exists>h rest. ls = (''public_key='' @ h) # ''replace_allowed_ips=true'' # rest \<and> nl_free h \<and>
     (\<forall>l \<in> set rest. uapi_line peer_keys l))"

lemma convertPeerKVs_block:
  assumes "convertPeerKVs peer = Inr ls" and "list_all kv_clean peer"
  shows "peer_block ls"
proof -
  obtain pk rest h lss where pk: "take_public_key peer = Some (pk, rest)"
    and h: "base64ToHex (snd pk) = Inr h" and lss: "map_res convertPeerFieldKV rest = Inr lss"
    and ls: "ls = [''public_key='' @ h, ''replace_allowed_ips=true''] @ concat lss"
    using assms(1) by (auto simp: convertPeerKVs_def split: option.splits prod.splits)
  have "list_all kv_clean rest" using take_public_key_clean [OF pk assms(2)] by blast
  then have "\<forall>ls \<in> set lss. \<forall>l \<in> set ls. uapi_line peer_keys l"
    using convertPeerFieldKV_lines by (intro map_res_all [OF lss]) (auto simp: list_all_iff)
  then show ?thesis using base64ToHex_nl_free [OF h] by (auto simp: peer_block_def ls)
qed

lemma peer_block_nl_free: "peer_block ls \<Longrightarrow> l \<in> set ls \<Longrightarrow> nl_free l"
  by (auto simp: peer_block_def uapi_line_def)


definition sample_wg :: string where
  "sample_wg = ''[Interface]'' @ [CHR 0x0A] @ ''PrivateKey = AAAA'' @ [CHR 0x0A] @ ''[Peer]'' @ [CHR 0x0A] @
     ''Endpoint = h:1'' @ [CHR 0x0A] @ ''PublicKey = AAEC # k'' @ [CHR 0x0A]"


text \<open>The in-place update names peers by key, adds none and touches nothing but their AllowedIPs.\<close>

definition update_block :: "string list \<Rightarrow> bool" where
  "update_block ls \<longleftrightarrow> (\<exists>h rest. ls = [''public_key='' @ h, ''update_only=true'', ''replace_allowed_ips=true''] @ rest
     \<and> h \<noteq> [] \<and> nl_free h \<and> (\<forall>l \<in> set rest. uapi_line {''allowed_ip''} l))"

lemma allowed_steps_inv:
  "allowed_steps st es = Inr st' \<Longrightarrow> nl_free (fst st) \<Longrightarrow> \<forall>l \<in> set (snd st). uapi_line {''allowed_ip''} l \<Longrightarrow>
    nl_free (fst st') \<and> (\<forall>l \<in> set (snd st'). uapi_line {''allowed_ip''} l)"
proof (induction es arbitrary: st)
  case (Cons e es)
  then obtain st1 where st1: "allowed_step st e = Inr st1" and rest: "allowed_steps st1 es = Inr st'" by auto
  have "nl_free (fst st1) \<and> (\<forall>l \<in> set (snd st1). uapi_line {''allowed_ip''} l)"
    using st1 Cons.prems(2,3) expandAllowedIPs_lines base64ToHex_nl_free
    by (fastforce simp: allowed_step_def Let_def split: if_splits)
  with Cons.IH [OF rest] show ?case by blast
qed simp

text \<open>the update that swaps AllowedIPs on the live device consists of one block per peer, each
  naming its peer by a non-empty public key with update_only, so it never adds a peer and never
  carries an endpoint, a private key or a preshared key.\<close>

theorem allowedIPsUAPI_touches_routes_only:
  assumes "allowedIPsUAPI cfg = Inr (out, keys)"
  shows "\<exists>blocks. out = join [CHR 0x0A] (concat blocks) @ [CHR 0x0A] \<and> blocks \<noteq> [] \<and>
    (\<forall>b \<in> set blocks. update_block b) \<and> map hd blocks = map (\<lambda>k. ''public_key='' @ k) keys"
proof -
  define f where "f peer = bind_res (allowed_steps ([], []) peer) (\<lambda>(pk, allowed).
      if pk = [] then Inl NoPublicKey
      else Inr (pk, [''public_key='' @ pk, ''update_only=true'', ''replace_allowed_ips=true''] @ allowed))"
    for peer :: "kv list"
  obtain iface peers r where peers: "peers \<noteq> []" and r: "map_res f peers = Inr r"
    and o: "out = join [CHR 0x0A] (concat (map snd r)) @ [CHR 0x0A]" "keys = map fst r"
    using assms by (auto simp: allowedIPsUAPI_def f_def [symmetric] split: if_splits)
  have "\<forall>x \<in> set r. update_block (snd x) \<and> hd (snd x) = ''public_key='' @ fst x"
    using allowed_steps_inv [where st = "([], [])"]
    by (intro map_res_all [OF r]) (fastforce simp: f_def update_block_def split: if_splits)
  moreover have "r \<noteq> []" using r peers by (auto simp: map_res_eq_Inr)
  ultimately show ?thesis by (intro exI [of _ "map snd r"]) (auto simp: o)
qed

definition sample_wg2 :: string where
  "sample_wg2 = sample_wg @ ''AllowedIPs ='' @ [CHR 0x0A]"

theorem allowedIPsUAPI_touches_routes_only_witness:
  "\<exists>out keys blocks. allowedIPsUAPI sample_wg2 = Inr (out, keys) \<and> blocks \<noteq> [] \<and> (\<forall>b \<in> set blocks. update_block b)"
proof -
  have "\<not> isl (allowedIPsUAPI sample_wg2)" by code_simp
  then obtain out keys where out: "allowedIPsUAPI sample_wg2 = Inr (out, keys)"
    by (cases "allowedIPsUAPI sample_wg2") auto
  with allowedIPsUAPI_touches_routes_only [OF out] show ?thesis by blast
qed

end
