(* ===== verification/State_Types.thy ===== *)
theory State_Types
  imports Prelude
begin

text \<open>state/types.go, state/hop.go and state/machine.go: the records the daemon passes around, the
  multihop rewrite of a profile's transports, and the connection state machine with its atomic
  test-and-set.  A nil pointer is None; a slice is a list, except the DNS slice of the WireGuard
  profile and the profile slice of a config, where the code tells nil from empty.\<close>

section \<open>state/types.go\<close>

datatype daemon_state = StateDisconnected | StateConnecting | StateConnected | StateDisconnecting | StateError

record cloak_profile =
  cl_localPort :: int
  cl_remoteHost :: string
  cl_remotePort :: int
  cl_uid :: string
  cl_publicKey :: string
  cl_encryptionMethod :: string
  cl_password :: string
  cl_serverName :: string
  cl_proxyMethod :: string

record naive_profile =
  na_localPort :: int
  na_remoteHost :: string
  na_remotePort :: int
  na_username :: string
  na_password :: string
  na_serverName :: string
  na_bridgePort :: int

record reality_profile =
  re_localPort :: int
  re_remoteHost :: string
  re_remotePort :: int
  re_uuid :: string
  re_publicKey :: string
  re_shortID :: string
  re_flow :: string
  re_serverName :: string
  re_targetPort :: int

record hysteria2_profile =
  hy_localPort :: int
  hy_remoteHost :: string
  hy_remotePort :: int
  hy_serverName :: string
  hy_password :: string
  hy_obfsPassword :: string
  hy_upMbps :: int
  hy_downMbps :: int
  hy_insecure :: bool
  hy_pinSHA256 :: string
  hy_remotePorts :: "string list"
  hy_targetPort :: int

record shadowsocks_profile =
  ss_localPort :: int
  ss_remoteHost :: string
  ss_remotePort :: int
  ss_method :: string
  ss_password :: string
  ss_targetHost :: string
  ss_targetPort :: int
  ss_udpOverTCP :: bool

record anytls_profile =
  at_localPort :: int
  at_remoteHost :: string
  at_remotePort :: int
  at_password :: string
  at_serverName :: string
  at_insecure :: bool
  at_pinSHA256 :: string
  at_targetHost :: string
  at_targetPort :: int

record snowflake_profile =
  sn_localPort :: int
  sn_brokerURL :: string
  sn_fronts :: "string list"
  sn_ampCacheURL :: string
  sn_iceServers :: "string list"
  sn_bridgeFingerprint :: string
  sn_keepLocal :: bool

record wireguard_profile =
  wg_configText :: string
  wg_tunnelName :: string
  wg_dns :: "string list option"
  wg_bypassHosts :: "string list"
  wg_hubInTunnel :: bool
  wg_directEndpoint :: string

record hop_profile =
  hop_singBoxPort :: int
  hop_cloakProxyMethod :: string
  hop_naiveBridgePort :: int
  hop_entryRegion :: string
  hop_exitRegion :: string

record profile =
  p_id :: string
  p_name :: string
  p_cloak :: cloak_profile
  p_hop :: "hop_profile option"
  p_naive :: "naive_profile option"
  p_reality :: "reality_profile option"
  p_hysteria2 :: "hysteria2_profile option"
  p_shadowsocks :: "shadowsocks_profile option"
  p_anytls :: "anytls_profile option"
  p_snowflake :: "snowflake_profile option"
  p_endpointIPs :: "string list"
  p_wireguard :: wireguard_profile

record config =
  c_profiles :: "profile list option"

definition DefaultConfig :: config where
  "DefaultConfig = \<lparr>c_profiles = Some []\<rparr>"

definition DefaultWireGuardPort :: int where
  "DefaultWireGuardPort = 51820"

section \<open>state/hop.go\<close>

definition DefaultCloakProxyMethod :: string where
  "DefaultCloakProxyMethod = ''wireguard''"

definition DefaultNaiveBridgePort :: int where
  "DefaultNaiveBridgePort = 9000"

definition loopbackHost :: string where
  "loopbackHost = ''127.0.0.1''"

definition IsMultihop :: "profile \<Rightarrow> bool" where
  "IsMultihop p \<longleftrightarrow> p_hop p \<noteq> None"

definition EntryRegion :: "profile \<Rightarrow> string" where
  "EntryRegion p = (case p_hop p of None \<Rightarrow> [] | Some h \<Rightarrow> hop_entryRegion h)"

definition ExitRegion :: "profile \<Rightarrow> string" where
  "ExitRegion p = (case p_hop p of None \<Rightarrow> [] | Some h \<Rightarrow> hop_exitRegion h)"

definition singBoxTargetPort :: "hop_profile option \<Rightarrow> int" where
  "singBoxTargetPort hop = (case hop of Some h \<Rightarrow>
     if 0 < hop_singBoxPort h then hop_singBoxPort h else DefaultWireGuardPort
   | None \<Rightarrow> DefaultWireGuardPort)"

definition cloakProxyMethod :: "hop_profile option \<Rightarrow> string" where
  "cloakProxyMethod hop = (case hop of Some h \<Rightarrow>
     if hop_cloakProxyMethod h \<noteq> [] then hop_cloakProxyMethod h else DefaultCloakProxyMethod
   | None \<Rightarrow> DefaultCloakProxyMethod)"

definition naiveBridgePort :: "hop_profile option \<Rightarrow> int" where
  "naiveBridgePort hop = (case hop of Some h \<Rightarrow>
     if 0 < hop_naiveBridgePort h then hop_naiveBridgePort h else DefaultNaiveBridgePort
   | None \<Rightarrow> DefaultNaiveBridgePort)"

definition ApplyHop :: "profile \<Rightarrow> profile" where
  "ApplyHop p = p\<lparr>
     p_cloak := (p_cloak p)\<lparr>cl_proxyMethod := cloakProxyMethod (p_hop p)\<rparr>,
     p_reality := map_option (\<lambda>r. r\<lparr>re_targetPort := singBoxTargetPort (p_hop p)\<rparr>) (p_reality p),
     p_hysteria2 := map_option (\<lambda>h. h\<lparr>hy_targetPort := singBoxTargetPort (p_hop p)\<rparr>) (p_hysteria2 p),
     p_shadowsocks := map_option (\<lambda>s. s\<lparr>ss_targetPort := singBoxTargetPort (p_hop p),
       ss_targetHost := loopbackHost\<rparr>) (p_shadowsocks p),
     p_anytls := map_option (\<lambda>a. a\<lparr>at_targetPort := singBoxTargetPort (p_hop p),
       at_targetHost := loopbackHost\<rparr>) (p_anytls p),
     p_naive := map_option (\<lambda>n. n\<lparr>na_bridgePort := naiveBridgePort (p_hop p)\<rparr>) (p_naive p)\<rparr>"

datatype hop_error = HopIncomplete string | SameRegion

definition ValidateHop :: "profile \<Rightarrow> hop_error option" where
  "ValidateHop p = (case p_hop p of None \<Rightarrow> None
   | Some h \<Rightarrow>
       if hop_singBoxPort h \<le> 0 then Some (HopIncomplete ''singBoxPort'')
       else if hop_cloakProxyMethod h = [] then Some (HopIncomplete ''cloakProxyMethod'')
       else if p_naive p \<noteq> None \<and> hop_naiveBridgePort h \<le> 0 then Some (HopIncomplete ''naiveBridgePort'')
       else if hop_entryRegion h = [] \<or> hop_exitRegion h = [] then Some (HopIncomplete ''entryRegion/exitRegion'')
       else if hop_entryRegion h = hop_exitRegion h then Some SameRegion
       else None)"

section \<open>state/machine.go\<close>

record machine =
  m_state :: daemon_state
  m_detail :: string

definition NewMachine :: machine where
  "NewMachine = \<lparr>m_state = StateDisconnected, m_detail = ''idle''\<rparr>"

definition mSet :: "daemon_state \<Rightarrow> string \<Rightarrow> machine \<Rightarrow> machine" where
  "mSet s d m = m\<lparr>m_state := s, m_detail := d\<rparr>"

definition CompareAndSet :: "daemon_state list \<Rightarrow> daemon_state \<Rightarrow> string \<Rightarrow> machine \<Rightarrow> bool \<times> machine" where
  "CompareAndSet expected s d m =
    (if m_state m \<notin> set expected then (False, m)
     else (True, m\<lparr>m_state := s, m_detail := d\<rparr>))"

definition mGet :: "machine \<Rightarrow> daemon_state \<times> string" where
  "mGet m = (m_state m, m_detail m)"

section \<open>Properties\<close>

text \<open>The port, method or bridge each transport of a profile will ask the remote node for.\<close>

datatype target = SingBox int | ProxyMethod string | Bridge int

definition targets :: "profile \<Rightarrow> target list" where
  "targets p = [ProxyMethod (cl_proxyMethod (p_cloak p))] @
     (case p_reality p of None \<Rightarrow> [] | Some r \<Rightarrow> [SingBox (re_targetPort r)]) @
     (case p_hysteria2 p of None \<Rightarrow> [] | Some h \<Rightarrow> [SingBox (hy_targetPort h)]) @
     (case p_shadowsocks p of None \<Rightarrow> [] | Some s \<Rightarrow> [SingBox (ss_targetPort s)]) @
     (case p_anytls p of None \<Rightarrow> [] | Some a \<Rightarrow> [SingBox (at_targetPort a)]) @
     (case p_naive p of None \<Rightarrow> [] | Some n \<Rightarrow> [Bridge (na_bridgePort n)])"

definition hop_targets :: "hop_profile \<Rightarrow> target set" where
  "hop_targets h = {SingBox (hop_singBoxPort h), ProxyMethod (hop_cloakProxyMethod h), Bridge (hop_naiveBridgePort h)}"

text \<open>a multihop profile that passed validation never reaches the entry node's own listener by
  default: after the rewrite every configured transport asks for the destination the hop names,
  the relayed transports on the loopback host.\<close>

theorem multihop_targets_exit:
  assumes "p_hop p = Some h" and "ValidateHop p = None"
  shows "set (targets (ApplyHop p)) \<subseteq> hop_targets h \<and>
    (\<forall>s. p_shadowsocks (ApplyHop p) = Some s \<longrightarrow> ss_targetHost s = loopbackHost) \<and>
    (\<forall>a. p_anytls (ApplyHop p) = Some a \<longrightarrow> at_targetHost a = loopbackHost)"
  using assms
  by (auto simp: targets_def ApplyHop_def hop_targets_def ValidateHop_def singBoxTargetPort_def
      cloakProxyMethod_def naiveBridgePort_def split: option.splits if_splits)

definition blank_cloak :: cloak_profile where
  "blank_cloak = \<lparr>cl_localPort = 0, cl_remoteHost = [], cl_remotePort = 0, cl_uid = [], cl_publicKey = [],
     cl_encryptionMethod = [], cl_password = [], cl_serverName = [], cl_proxyMethod = []\<rparr>"

definition blank_wireguard :: wireguard_profile where
  "blank_wireguard = \<lparr>wg_configText = [], wg_tunnelName = [], wg_dns = None, wg_bypassHosts = [],
     wg_hubInTunnel = False, wg_directEndpoint = []\<rparr>"

definition blank_profile :: profile where
  "blank_profile = \<lparr>p_id = [], p_name = [], p_cloak = blank_cloak, p_hop = None, p_naive = None, p_reality = None,
     p_hysteria2 = None, p_shadowsocks = None, p_anytls = None, p_snowflake = None, p_endpointIPs = [],
     p_wireguard = blank_wireguard\<rparr>"

definition sample_hop :: hop_profile where
  "sample_hop = \<lparr>hop_singBoxPort = 51900, hop_cloakProxyMethod = ''exit-de'', hop_naiveBridgePort = 9001,
     hop_entryRegion = ''nl'', hop_exitRegion = ''de''\<rparr>"

definition sample_naive :: naive_profile where
  "sample_naive = \<lparr>na_localPort = 0, na_remoteHost = ''n'', na_remotePort = 443, na_username = [], na_password = [],
     na_serverName = [], na_bridgePort = 0\<rparr>"

definition sample_hop_profile :: profile where
  "sample_hop_profile = blank_profile\<lparr>p_hop := Some sample_hop, p_naive := Some sample_naive\<rparr>"

theorem multihop_targets_exit_witness:
  "ValidateHop sample_hop_profile = None \<and> set (targets (ApplyHop sample_hop_profile)) \<subseteq> hop_targets sample_hop"
proof -
  have "p_hop sample_hop_profile = Some sample_hop" "ValidateHop sample_hop_profile = None"
    by (simp_all add: sample_hop_profile_def ValidateHop_def sample_hop_def)
  with multihop_targets_exit [of sample_hop_profile sample_hop] show ?thesis by blast
qed

text \<open>The rewrite is idempotent and touches neither the identity nor the WireGuard half.\<close>

lemma ApplyHop_idem: "ApplyHop (ApplyHop p) = ApplyHop p"
  by (simp add: ApplyHop_def option.map_comp comp_def)

lemma ApplyHop_sel [simp]:
  "p_id (ApplyHop p) = p_id p" "p_hop (ApplyHop p) = p_hop p" "p_wireguard (ApplyHop p) = p_wireguard p"
  "p_snowflake (ApplyHop p) = p_snowflake p" "p_endpointIPs (ApplyHop p) = p_endpointIPs p"
  "(p_naive (ApplyHop p) = None) = (p_naive p = None)"
  "(p_reality (ApplyHop p) = None) = (p_reality p = None)"
  "(p_hysteria2 (ApplyHop p) = None) = (p_hysteria2 p = None)"
  "(p_shadowsocks (ApplyHop p) = None) = (p_shadowsocks p = None)"
  "(p_anytls (ApplyHop p) = None) = (p_anytls p = None)"
  by (simp_all add: ApplyHop_def)

lemma CompareAndSet_iff:
  "CompareAndSet ex s d m = (b, m') \<longleftrightarrow>
     (if m_state m \<in> set ex then b \<and> m' = mSet s d m else \<not> b \<and> m' = m)"
  by (auto simp: CompareAndSet_def mSet_def)

end
