(* ===== verification/Transport_Cascade.thy ===== *)
theory Transport_Cascade
  imports State_Types
begin

text \<open>transport/cascade.go and state/transport_memory.go: which transports a session tries and in
  which order, and the bounded memory of the transport that last worked on a network.  The Go
  interface Memory is the locale; the store interprets it.\<close>

section \<open>transport/cascade.go\<close>

datatype availability = Available | NotConfigured | Unavailable

record 'f candidate =
  cand_kind :: string
  cand_start :: 'f

definition AutoCascadeOrder :: "string list" where
  "AutoCascadeOrder = [''reality'', ''cloak'', ''shadowsocks'', ''hysteria2'', ''naive'', ''anytls'', ''snowflake'']"

definition knownKinds :: "string list" where
  "knownKinds = [''cloak'', ''reality'', ''shadowsocks'', ''hysteria2'', ''naive'', ''anytls'', ''snowflake'']"

definition IsAuto :: "string \<Rightarrow> bool" where
  "IsAuto preferred \<longleftrightarrow> preferred = [] \<or> preferred = ''auto''"

datatype select_error = UnknownTransport string | TransportUnavailable string | TransportNotConfigured string

text \<open>The platform's StarterFor, with the profile already applied: the start function and the
  availability for a kind.\<close>

type_synonym 'f starter = "string \<Rightarrow> 'f \<times> availability"

definition autoCascade :: "'f starter \<Rightarrow> 'f candidate list" where
  "autoCascade s = map (\<lambda>kind. \<lparr>cand_kind = kind, cand_start = fst (s kind)\<rparr>)
     (filter (\<lambda>kind. snd (s kind) = Available) AutoCascadeOrder)"

definition Select :: "string \<Rightarrow> 'f starter \<Rightarrow> (select_error, 'f candidate list) result" where
  "Select preferred s =
    (if IsAuto preferred then Inr (autoCascade s)
     else if preferred \<notin> set knownKinds then Inl (UnknownTransport preferred)
     else case s preferred of
         (start, Available) \<Rightarrow> Inr [\<lparr>cand_kind = preferred, cand_start = start\<rparr>]
       | (_, Unavailable) \<Rightarrow> Inl (TransportUnavailable preferred)
       | (_, NotConfigured) \<Rightarrow> Inl (TransportNotConfigured preferred))"

fun index_kind :: "string \<Rightarrow> 'f candidate list \<Rightarrow> nat option" where
  "index_kind k [] = None"
| "index_kind k (c # cs) = (if cand_kind c = k then Some 0 else map_option Suc (index_kind k cs))"

text \<open>\<open>lookup\<close> is None for a nil memory.\<close>

definition ReorderByMemory :: "'f candidate list \<Rightarrow> string \<Rightarrow> string \<Rightarrow> (string \<Rightarrow> string option) option
    \<Rightarrow> 'f candidate list \<times> string" where
  "ReorderByMemory cands preferred networkKey lookup =
    (case lookup of None \<Rightarrow> (cands, [])
     | Some look \<Rightarrow>
        if length cands < 2 \<or> \<not> IsAuto preferred then (cands, [])
        else case look networkKey of None \<Rightarrow> (cands, [])
          | Some remembered \<Rightarrow>
             (case index_kind remembered cands of None \<Rightarrow> (cands, [])
              | Some idx \<Rightarrow> if idx = 0 then (cands, [])
                  else (cands ! idx # take idx cands @ drop (idx + 1) cands, remembered)))"

section \<open>state/transport_memory.go\<close>

definition maxTransportMemoryEntries :: nat where
  "maxTransportMemoryEntries = 64"

record tm_entry =
  tm_transport :: string
  tm_updatedAt :: int

text \<open>The map is a list of pairs with distinct keys, in the order Go's map iteration happens to
  give; no result below depends on that order.\<close>

type_synonym tm_map = "(string \<times> tm_entry) list"

record tm_store =
  tm_networks :: tm_map
  tm_disk :: "tm_map option"

definition tmLookup :: "tm_store \<Rightarrow> string \<Rightarrow> string option" where
  "tmLookup s networkKey =
    (if networkKey = [] then None
     else case map_of (tm_networks s) networkKey of None \<Rightarrow> None
       | Some e \<Rightarrow> if tm_transport e = [] then None else Some (tm_transport e))"

definition tm_put :: "string \<Rightarrow> tm_entry \<Rightarrow> tm_map \<Rightarrow> tm_map" where
  "tm_put k e m = (k, e) # filter (\<lambda>x. fst x \<noteq> k) m"

text \<open>sort.Slice is not stable: \<open>arrange\<close> picks the order it leaves the entries in.\<close>

definition pruneLocked :: "(tm_map \<Rightarrow> tm_map) \<Rightarrow> tm_map \<Rightarrow> tm_map" where
  "pruneLocked arrange m =
    (if length m \<le> maxTransportMemoryEntries then m
     else let entries = arrange m;
              gone = set (map fst (take (length entries - maxTransportMemoryEntries) entries))
       in filter (\<lambda>x. fst x \<notin> gone) m)"

definition tm_sorter :: "(tm_map \<Rightarrow> tm_map) \<Rightarrow> bool" where
  "tm_sorter arrange \<longleftrightarrow> (\<forall>m. mset (arrange m) = mset m \<and> sorted (map (\<lambda>x. tm_updatedAt (snd x)) (arrange m)))"

text \<open>The write either replaces the file or fails and leaves it.\<close>

definition tmPersist :: "bool \<Rightarrow> tm_store \<Rightarrow> tm_store \<times> bool" where
  "tmPersist disk_ok s = (if disk_ok then (s\<lparr>tm_disk := Some (tm_networks s)\<rparr>, True) else (s, False))"

definition tmRecord :: "(tm_map \<Rightarrow> tm_map) \<Rightarrow> int \<Rightarrow> bool \<Rightarrow> string \<Rightarrow> string \<Rightarrow> tm_store \<Rightarrow> tm_store \<times> bool" where
  "tmRecord arrange now disk_ok networkKey transport s =
    (if networkKey = [] \<or> transport = [] then (s, True)
     else tmPersist disk_ok (s\<lparr>tm_networks := pruneLocked arrange
       (tm_put networkKey \<lparr>tm_transport = transport, tm_updatedAt = now\<rparr> (tm_networks s))\<rparr>))"

definition tmClear :: "bool \<Rightarrow> tm_store \<Rightarrow> tm_store \<times> bool" where
  "tmClear disk_ok s = tmPersist disk_ok (s\<lparr>tm_networks := []\<rparr>)"

text \<open>Opening the store: the file is missing, unreadable, or read; \<open>parse\<close> is the JSON decoder,
  None for a corrupt file.\<close>

datatype tm_file = Missing | Unreadable | Content "tm_map option"

definition tmLoad :: "bool \<Rightarrow> tm_file \<Rightarrow> tm_store \<times> bool" where
  "tmLoad disk_ok f = (case f of
      Missing \<Rightarrow> tmPersist disk_ok \<lparr>tm_networks = [], tm_disk = None\<rparr>
    | Unreadable \<Rightarrow> (\<lparr>tm_networks = [], tm_disk = None\<rparr>, True)
    | Content None \<Rightarrow> tmPersist disk_ok \<lparr>tm_networks = [], tm_disk = None\<rparr>
    | Content (Some m) \<Rightarrow> (\<lparr>tm_networks = m, tm_disk = Some m\<rparr>, True))"

lemma index_kind_Some: "index_kind k cs = Some i \<Longrightarrow> i < length cs \<and> cand_kind (cs ! i) = k"
  by (induction cs arbitrary: i) (auto split: if_splits)

lemma reorder_hd:
  assumes "index_kind v cands = Some idx" and "IsAuto preferred" and "look k = Some v"
  shows "cand_kind (hd (fst (ReorderByMemory cands preferred k (Some look)))) = v"
proof -
  have "idx < length cands" "cand_kind (cands ! idx) = v" using index_kind_Some [OF assms(1)] by auto
  moreover have "idx = 0" if "length cands < 2" using \<open>idx < length cands\<close> that by linarith
  moreover have "cand_kind (hd cands) = v" if "idx = 0"
    using that calculation(1,2) by (cases cands) auto
  ultimately show ?thesis using assms by (auto simp: ReorderByMemory_def)
qed

section \<open>The memory interface\<close>

text \<open>What the cascade relies on: an invariant, a lookup that finds what was recorded last for a
  network, and that recording for one network never invents an answer for another.\<close>

locale transport_memory =
  fixes inv :: "'s \<Rightarrow> bool"
    and lookup :: "'s \<Rightarrow> string \<Rightarrow> string option"
    and record_at :: "int \<Rightarrow> string \<Rightarrow> string \<Rightarrow> 's \<Rightarrow> 's"
    and fresh :: "int \<Rightarrow> string \<Rightarrow> 's \<Rightarrow> bool"
  assumes inv_record: "inv s \<Longrightarrow> inv (record_at t k v s)"
    and lookup_record_same: "inv s \<Longrightarrow> fresh t k s \<Longrightarrow> k \<noteq> [] \<Longrightarrow> v \<noteq> [] \<Longrightarrow> lookup (record_at t k v s) k = Some v"
    and lookup_record_other: "inv s \<Longrightarrow> k' \<noteq> k \<Longrightarrow> lookup (record_at t k v s) k' = Some w \<Longrightarrow> lookup s k' = Some w"
begin

lemma promoted_after_record:
  assumes "inv s" and "fresh t k s" and "k \<noteq> []" and "v \<noteq> []" and "IsAuto preferred"
    and "index_kind v cands = Some idx"
  shows "cand_kind (hd (fst (ReorderByMemory cands preferred k (Some (lookup (record_at t k v s)))))) = v"
  using reorder_hd [OF assms(6)] lookup_record_same [OF assms(1-4)] assms(5) by blast

end

section \<open>The store is one\<close>

definition tm_inv :: "tm_store \<Rightarrow> bool" where
  "tm_inv s \<longleftrightarrow> distinct (map fst (tm_networks s)) \<and> length (tm_networks s) \<le> maxTransportMemoryEntries"

text \<open>The clock is not behind every other entry of a full store.\<close>

definition tm_fresh :: "int \<Rightarrow> string \<Rightarrow> tm_store \<Rightarrow> bool" where
  "tm_fresh t k s \<longleftrightarrow> length (tm_networks s) < maxTransportMemoryEntries \<or>
     (\<exists>x \<in> set (tm_networks s). fst x \<noteq> k \<and> tm_updatedAt (snd x) < t)"

lemma tm_put_keys:
  "distinct (map fst m) \<Longrightarrow> distinct (map fst (tm_put k e m)) \<and> length (tm_put k e m) \<le> Suc (length m)"
  by (auto simp: tm_put_def distinct_map_filter)

lemma map_of_filter_key: "map_of (filter (\<lambda>x. P (fst x)) m) k = (if P k then map_of m k else None)"
  by (induction m) auto

lemma map_of_tm_put: "map_of (tm_put k e m) k' = (if k' = k then Some e else map_of m k')"
  by (auto simp: tm_put_def map_of_filter_key [where P = "\<lambda>x. x \<noteq> k"])

lemma length_filter_gone:
  assumes "distinct (map fst m)" and "S \<subseteq> set (map fst m)"
  shows "length (filter (\<lambda>x. fst x \<notin> S) m) + card S = length m"
proof -
  have "length (filter (\<lambda>x. fst x \<notin> S) m) = card (set (filter (\<lambda>k. k \<notin> S) (map fst m)))"
  proof -
    have "length (filter (\<lambda>x. fst x \<notin> S) m) = length (filter (\<lambda>k. k \<notin> S) (map fst m))"
      by (simp add: filter_map comp_def)
    then show ?thesis using assms(1) distinct_card [of "filter (\<lambda>k. k \<notin> S) (map fst m)"] by simp
  qed
  also have "set (filter (\<lambda>k. k \<notin> S) (map fst m)) = set (map fst m) - S" by auto
  finally have "length (filter (\<lambda>x. fst x \<notin> S) m) = card (set (map fst m)) - card S"
    using card_Diff_subset [of S "set (map fst m)"] assms(2) finite_subset [OF assms(2)] by simp
  moreover have "card S \<le> card (set (map fst m))" using assms(2) by (intro card_mono) auto
  moreover have "card (set (map fst m)) = length m" using assms(1) distinct_card by fastforce
  ultimately show ?thesis by linarith
qed

lemma pruneLocked_spec:
  assumes "tm_sorter arrange" and "distinct (map fst m)"
  shows "length (pruneLocked arrange m) = min (length m) maxTransportMemoryEntries"
    and "\<exists>P. pruneLocked arrange m = filter (\<lambda>x. P (fst x)) m"
    and "x \<in> set (pruneLocked arrange m) \<Longrightarrow> y \<in> set m - set (pruneLocked arrange m) \<Longrightarrow>
       tm_updatedAt (snd y) \<le> tm_updatedAt (snd x)"
proof -
  define es n where "es = arrange m" and "n = length m - maxTransportMemoryEntries"
  have ms: "mset es = mset m" and srt: "sorted (map (\<lambda>x. tm_updatedAt (snd x)) es)"
    using assms(1) by (auto simp: tm_sorter_def es_def)
  have len: "length es = length m" using ms by (rule mset_eq_length)
  have seteq: "set es = set m" using ms by (rule mset_eq_setD)
  have dk: "distinct (map fst es)"
    using assms(2) ms by (metis mset_eq_imp_distinct_iff mset_map)
  let ?gone = "set (map fst (take n es))"
  have pr: "pruneLocked arrange m = filter (\<lambda>x. fst x \<notin> ?gone) m"
    by (auto simp: pruneLocked_def es_def [symmetric] len n_def Let_def)
  have "card ?gone = n"
    using dk len by (metis distinct_card distinct_take diff_le_self length_map length_take min.absorb2 n_def take_map)
  moreover have "?gone \<subseteq> set (map fst m)" using seteq set_take_subset [of n es] by auto
  ultimately show "length (pruneLocked arrange m) = min (length m) maxTransportMemoryEntries"
    using length_filter_gone [OF assms(2), of ?gone] unfolding pr n_def by linarith
  show "\<exists>P. pruneLocked arrange m = filter (\<lambda>x. P (fst x)) m" unfolding pr
    by (rule exI [of _ "\<lambda>k. k \<notin> ?gone"]) (rule refl)
  have split: "es = take n es @ drop n es" by simp
  assume x: "x \<in> set (pruneLocked arrange m)" and y: "y \<in> set m - set (pruneLocked arrange m)"
  have "y \<in> set (take n es)"
  proof -
    have "fst y \<in> ?gone" "y \<in> set es" using y seteq by (auto simp: pr)
    then obtain z where "z \<in> set (take n es)" "fst z = fst y" by auto
    with \<open>y \<in> set es\<close> dk show ?thesis
      by (metis distinct_map inj_onD in_set_takeD)
  qed
  moreover have "x \<in> set (drop n es)"
  proof -
    have "x \<in> set es" "x \<notin> set (take n es)" using x seteq by (auto simp: pr)
    then show ?thesis using split by (metis Un_iff set_append)
  qed
  moreover have "sorted_wrt (\<lambda>a b. tm_updatedAt (snd a) \<le> tm_updatedAt (snd b)) (take n es @ drop n es)"
    using srt by (simp add: sorted_map)
  ultimately show "tm_updatedAt (snd y) \<le> tm_updatedAt (snd x)"
    unfolding sorted_wrt_append by blast
qed

text \<open>What prune may drop: never the entry just recorded, unless every other one is as new.\<close>

lemma recorded_survives:
  assumes "tm_sorter arrange" and "tm_inv s" and "tm_fresh t k s"
    and "m = tm_put k \<lparr>tm_transport = v, tm_updatedAt = t\<rparr> (tm_networks s)"
  shows "(k, \<lparr>tm_transport = v, tm_updatedAt = t\<rparr>) \<in> set (pruneLocked arrange m)"
proof (rule ccontr)
  let ?e = "(k, \<lparr>tm_transport = v, tm_updatedAt = t\<rparr>)"
  assume gone: "?e \<notin> set (pruneLocked arrange m)"
  have dm: "distinct (map fst m)" and len: "length m \<le> Suc (length (tm_networks s))"
    using assms(2,4) tm_put_keys by (auto simp: tm_inv_def)
  note spec = pruneLocked_spec [OF assms(1) dm]
  have "?e \<in> set m" by (simp add: assms(4) tm_put_def)
  then have old: "\<forall>x \<in> set (pruneLocked arrange m). t \<le> tm_updatedAt (snd x)"
    using spec(3) gone by fastforce
  have full: "maxTransportMemoryEntries < length m"
    using gone \<open>?e \<in> set m\<close> by (auto simp: pruneLocked_def split: if_splits)
  then obtain x where x: "x \<in> set (tm_networks s)" "fst x \<noteq> k" "tm_updatedAt (snd x) < t"
    using assms(3) len by (auto simp: tm_fresh_def)
  then have xm: "x \<in> set m" by (simp add: assms(4) tm_put_def)
  then have xg: "x \<notin> set (pruneLocked arrange m)" using old x(3) by fastforce
  have lm: "length m = Suc maxTransportMemoryEntries"
    using full len assms(2) by (simp add: tm_inv_def)
  obtain P where P: "pruneLocked arrange m = filter (\<lambda>x. P (fst x)) m" using spec(2) by blast
  have "set (pruneLocked arrange m) \<subseteq> set m - {?e, x}" using gone xg by (auto simp: P)
  moreover have "card (set m) = length m" using dm by (metis distinct_card distinct_map)
  moreover have "card {?e, x} = 2" using x(2) by (cases x) auto
  ultimately have "card (set (pruneLocked arrange m)) \<le> length m - 2"
    using xm \<open>?e \<in> set m\<close> card_mono [of "set m - {?e, x}" "set (pruneLocked arrange m)"]
    by (simp add: card_Diff_subset)
  moreover have "distinct (pruneLocked arrange m)"
    using dm unfolding P distinct_map by (simp add: distinct_filter)
  ultimately have "length (pruneLocked arrange m) \<le> length m - 2" by (metis distinct_card)
  then show False using spec(1) lm by (simp add: maxTransportMemoryEntries_def)
qed

definition tm_record_at :: "(tm_map \<Rightarrow> tm_map) \<Rightarrow> bool \<Rightarrow> int \<Rightarrow> string \<Rightarrow> string \<Rightarrow> tm_store \<Rightarrow> tm_store" where
  "tm_record_at arrange disk_ok t k v s = fst (tmRecord arrange t disk_ok k v s)"

lemma tm_networks_persist [simp]: "tm_networks (fst (tmPersist d s)) = tm_networks s"
  by (simp add: tmPersist_def)

lemma tm_record_networks:
  "tm_networks (tm_record_at arrange d t k v s) = (if k = [] \<or> v = [] then tm_networks s
     else pruneLocked arrange (tm_put k \<lparr>tm_transport = v, tm_updatedAt = t\<rparr> (tm_networks s)))"
  by (simp add: tm_record_at_def tmRecord_def)

lemma tm_record_inv:
  assumes "tm_sorter arrange" and "tm_inv s"
  shows "tm_inv (tm_record_at arrange d t k v s)"
proof -
  let ?m = "tm_put k \<lparr>tm_transport = v, tm_updatedAt = t\<rparr> (tm_networks s)"
  have dm: "distinct (map fst ?m)" using assms(2) tm_put_keys by (auto simp: tm_inv_def)
  note spec = pruneLocked_spec [OF assms(1) dm]
  obtain P where "pruneLocked arrange ?m = filter (\<lambda>x. P (fst x)) ?m" using spec(2) by blast
  then have "distinct (map fst (pruneLocked arrange ?m))" using dm by (simp add: distinct_map_filter)
  then show ?thesis using assms(2) spec(1) by (simp add: tm_inv_def tm_record_networks)
qed

lemma tm_lookup_same:
  assumes "tm_sorter arrange" and "tm_inv s" and "tm_fresh t k s" and "k \<noteq> []" and "v \<noteq> []"
  shows "tmLookup (tm_record_at arrange d t k v s) k = Some v"
proof -
  have "distinct (map fst (tm_networks (tm_record_at arrange d t k v s)))"
    using tm_record_inv [OF assms(1,2)] by (simp add: tm_inv_def)
  moreover have "(k, \<lparr>tm_transport = v, tm_updatedAt = t\<rparr>) \<in> set (tm_networks (tm_record_at arrange d t k v s))"
    using recorded_survives [OF assms(1-3) refl] assms(4,5) by (simp add: tm_record_networks)
  ultimately have "map_of (tm_networks (tm_record_at arrange d t k v s)) k = Some \<lparr>tm_transport = v, tm_updatedAt = t\<rparr>"
    by (rule map_of_is_SomeI)
  with assms(4,5) show ?thesis by (simp add: tmLookup_def)
qed

lemma tm_lookup_other:
  assumes "tm_sorter arrange" and "tm_inv s" and "k' \<noteq> k"
    and "tmLookup (tm_record_at arrange d t k v s) k' = Some w"
  shows "tmLookup s k' = Some w"
proof -
  let ?m = "tm_put k \<lparr>tm_transport = v, tm_updatedAt = t\<rparr> (tm_networks s)"
  have "distinct (map fst ?m)" using assms(2) tm_put_keys by (auto simp: tm_inv_def)
  from pruneLocked_spec(2) [OF assms(1) this] obtain P where
    "pruneLocked arrange ?m = filter (\<lambda>x. P (fst x)) ?m" by blast
  then show ?thesis using assms(3,4)
    by (auto simp: tmLookup_def tm_record_networks map_of_filter_key map_of_tm_put
        split: if_splits option.splits)
qed

text \<open>An insertion sort is a sorter, so the hypothesis on the library's sort can be met.\<close>

lemma tm_sorter_sort_key: "tm_sorter (sort_key (\<lambda>x. tm_updatedAt (snd x)))"
  by (simp add: tm_sorter_def)

interpretation tm: transport_memory tm_inv tmLookup
    "tm_record_at (sort_key (\<lambda>x. tm_updatedAt (snd x))) d" tm_fresh for d
  by unfold_locales
     (use tm_record_inv tm_lookup_same tm_lookup_other tm_sorter_sort_key in blast)+

section \<open>Properties\<close>

lemma reorder_cases:
  "fst (ReorderByMemory cands preferred k look) = cands \<or>
   (\<exists>i < length cands. fst (ReorderByMemory cands preferred k look) = cands ! i # take i cands @ drop (i + 1) cands)"
  by (auto simp: ReorderByMemory_def dest: index_kind_Some split: option.splits)

lemma index_kind_first: "index_kind v cs = Some i \<Longrightarrow> cs ! i \<notin> set (take i cs)"
proof (induction cs arbitrary: i)
  case (Cons c cs)
  show ?case
  proof (cases "cand_kind c = v")
    case False
    then obtain j where "index_kind v cs = Some j" "i = Suc j" using Cons.prems by auto
    with Cons.IH False index_kind_Some show ?thesis by auto
  qed (use Cons.prems in auto)
qed simp

lemma remove1_index:
  assumes "index_kind v cs = Some i"
  shows "remove1 (cs ! i) cs = take i cs @ drop (Suc i) cs"
proof -
  have "cs = take i cs @ cs ! i # drop (Suc i) cs"
    using index_kind_Some [OF assms] by (simp add: id_take_nth_drop)
  then have "remove1 (cs ! i) cs = remove1 (cs ! i) (take i cs @ cs ! i # drop (Suc i) cs)" by simp
  also have "\<dots> = take i cs @ drop (Suc i) cs"
    using index_kind_first [OF assms] by (simp add: remove1_append)
  finally show ?thesis .
qed

text \<open>consulting the memory only changes the order: the same candidates are tried, each as often
  as before, all but one keep their order, and nothing moves when a transport was asked for by name.\<close>

theorem reorder_permutes:
  "mset (fst (ReorderByMemory cands preferred k look)) = mset cands \<and>
   (\<exists>c. remove1 c (fst (ReorderByMemory cands preferred k look)) = remove1 c cands) \<and>
   (IsAuto preferred \<or> fst (ReorderByMemory cands preferred k look) = cands)"
proof -
  let ?r = "fst (ReorderByMemory cands preferred k look)"
  have "?r = cands \<or> (\<exists>v i. index_kind v cands = Some i \<and> ?r = cands ! i # take i cands @ drop (i + 1) cands)"
    by (auto simp: ReorderByMemory_def split: option.splits)
  moreover have "IsAuto preferred \<or> ?r = cands"
    by (auto simp: ReorderByMemory_def split: option.splits)
  moreover have "mset ?r = mset cands \<and> remove1 (cands ! i) ?r = remove1 (cands ! i) cands"
    if "index_kind v cands = Some i" "?r = cands ! i # take i cands @ drop (i + 1) cands" for v i
  proof
    have "mset cands = mset (take i cands @ cands ! i # drop (Suc i) cands)"
      using id_take_nth_drop index_kind_Some [OF that(1)] by metis
    then show "mset ?r = mset cands" by (simp add: that(2))
    show "remove1 (cands ! i) ?r = remove1 (cands ! i) cands"
      by (simp add: that(2) remove1_index [OF that(1)])
  qed
  ultimately show ?thesis by auto
qed

text \<open>recording a transport for a network makes it the first one tried there: whatever the store
  held, a candidate just recorded for the current network heads the next automatic cascade, the
  store staying within its bound.\<close>

theorem recorded_transport_leads:
  assumes "tm_inv s" and "tm_fresh t k s" and "k \<noteq> []" and "v \<noteq> []" and "IsAuto preferred"
    and "index_kind v cands = Some idx"
    and "s' = fst (tmRecord (sort_key (\<lambda>x. tm_updatedAt (snd x))) t disk_ok k v s)"
  shows "cand_kind (hd (fst (ReorderByMemory cands preferred k (Some (tmLookup s'))))) = v \<and> tm_inv s'"
  using tm.promoted_after_record [OF assms(1-6)] tm.inv_record [OF assms(1)]
  unfolding assms(7) tm_record_at_def by blast

definition sample_cands :: "unit candidate list" where
  "sample_cands = autoCascade (\<lambda>k. ((), if k = ''naive'' then NotConfigured else Available))"

theorem recorded_transport_leads_witness:
  "cand_kind (hd (fst (ReorderByMemory sample_cands [] ''wifi'' (Some (tmLookup (fst (tmRecord
     (sort_key (\<lambda>x. tm_updatedAt (snd x))) 7 True ''wifi'' ''anytls'' \<lparr>tm_networks = [], tm_disk = None\<rparr>))))))) = ''anytls''"
proof -
  have i: "index_kind ''anytls'' sample_cands = Some 4"
    by (simp add: sample_cands_def autoCascade_def AutoCascadeOrder_def)
  show ?thesis
    by (rule recorded_transport_leads [OF _ _ _ _ _ i refl, THEN conjunct1])
       (simp_all add: tm_inv_def tm_fresh_def maxTransportMemoryEntries_def IsAuto_def)
qed

text \<open>the store never answers for a network it was not told about: after recording for one network
  every other network's answer is the one it had, or forgotten by the bound.\<close>

theorem record_never_invents:
  assumes "tm_inv s" and "k' \<noteq> k" and "tm_sorter arrange"
    and "tmLookup (fst (tmRecord arrange t disk_ok k v s)) k' = Some w"
  shows "tmLookup s k' = Some w"
  using tm_lookup_other [OF assms(3,1,2)] assms(4) by (simp add: tm_record_at_def)

definition sample_store :: tm_store where
  "sample_store = \<lparr>tm_networks = [(''home'', \<lparr>tm_transport = ''cloak'', tm_updatedAt = 1\<rparr>)], tm_disk = None\<rparr>"

theorem record_never_invents_witness:
  "tmLookup (fst (tmRecord (sort_key (\<lambda>x. tm_updatedAt (snd x))) 7 True ''wifi'' ''naive'' sample_store)) ''home'' = Some ''cloak''
   \<and> tmLookup sample_store ''home'' = Some ''cloak''"
proof -
  have "tmLookup (fst (tmRecord (sort_key (\<lambda>x. tm_updatedAt (snd x))) 7 True ''wifi'' ''naive'' sample_store)) ''home'' = Some ''cloak''"
    by (simp add: sample_store_def tmRecord_def tmLookup_def pruneLocked_def tm_put_def maxTransportMemoryEntries_def tmPersist_def)
  with record_never_invents [OF _ _ tm_sorter_sort_key this] show ?thesis
    by (simp add: sample_store_def tm_inv_def maxTransportMemoryEntries_def)
qed

end
