(* ===== verification/Config_Store.thy ===== *)
theory Config_Store
  imports State_Types
begin

text \<open>state/config_store.go: validation and quarantine of profiles, the canonical form, the in-memory
  store, and the write protocol on disk (unique temporary file, fsync, backup of the previous file,
  rename) with every point a crash can leave behind.  encoding/json is the pair of functions
  \<open>enc\<close> and \<open>dec\<close>.\<close>

section \<open>Validation\<close>

datatype config_error = IdRequired | DuplicateId | MissingName | MissingWireGuard
  | CloakMissingPort | MissingHost string | PortOutOfRange string

definition minPort :: int where "minPort = 1"
definition maxPort :: int where "maxPort = 65535"

type_synonym port_claim = "string \<times> int"

text \<open>One optional transport's claim: an error when its host is missing.\<close>

definition claim_of :: "string \<Rightarrow> ('a \<Rightarrow> string) \<Rightarrow> ('a \<Rightarrow> int) \<Rightarrow> 'a option \<Rightarrow> (config_error, port_claim list) result" where
  "claim_of name host local_port t = (case t of None \<Rightarrow> Inr []
     | Some x \<Rightarrow> if host x = [] then Inl (MissingHost name) else Inr [(name, local_port x)])"

definition profilePortClaims :: "profile \<Rightarrow> (config_error, port_claim list) result" where
  "profilePortClaims p =
    bind_res (if cl_remoteHost (p_cloak p) = [] then Inr []
              else if cl_remotePort (p_cloak p) \<le> 0 then Inl CloakMissingPort
              else Inr [(''cloak'', cl_localPort (p_cloak p))]) (\<lambda>c1.
    bind_res (claim_of ''naive'' na_remoteHost na_localPort (p_naive p)) (\<lambda>c2.
    bind_res (claim_of ''reality'' re_remoteHost re_localPort (p_reality p)) (\<lambda>c3.
    bind_res (claim_of ''hysteria2'' hy_remoteHost hy_localPort (p_hysteria2 p)) (\<lambda>c4.
    bind_res (claim_of ''shadowsocks'' ss_remoteHost ss_localPort (p_shadowsocks p)) (\<lambda>c5.
    bind_res (claim_of ''anytls'' at_remoteHost at_localPort (p_anytls p)) (\<lambda>c6.
    bind_res (claim_of ''snowflake'' sn_brokerURL sn_localPort (p_snowflake p)) (\<lambda>c7.
      Inr (c1 @ c2 @ c3 @ c4 @ c5 @ c6 @ c7))))))))"

definition checkProfile :: "profile \<Rightarrow> string set \<Rightarrow> config_error option" where
  "checkProfile p seenIDs =
    (if p_id p = [] then Some IdRequired
     else if p_id p \<in> seenIDs then Some DuplicateId
     else if p_name p = [] then Some MissingName
     else if wg_configText (p_wireguard p) = [] then Some MissingWireGuard
     else case profilePortClaims p of Inl e \<Rightarrow> Some e
       | Inr claims \<Rightarrow> map_option (\<lambda>(t, _). PortOutOfRange t)
           (find (\<lambda>(_, port). port \<noteq> 0 \<and> (port < minPort \<or> maxPort < port)) claims))"

fun validate_from :: "string set \<Rightarrow> profile list \<Rightarrow> config_error option" where
  "validate_from seen [] = None"
| "validate_from seen (p # ps) = (case checkProfile p seen of Some e \<Rightarrow> Some e
     | None \<Rightarrow> validate_from (insert (p_id p) seen) ps)"

definition profs :: "config \<Rightarrow> profile list" where
  "profs cfg = (case c_profiles cfg of None \<Rightarrow> [] | Some ps \<Rightarrow> ps)"

definition ValidateConfig :: "config \<Rightarrow> config_error option" where
  "ValidateConfig cfg = validate_from {} (profs cfg)"

fun quarantine_from :: "string set \<Rightarrow> profile list \<Rightarrow> profile list" where
  "quarantine_from seen [] = []"
| "quarantine_from seen (p # ps) = (case checkProfile p seen of
     Some e \<Rightarrow> quarantine_from seen ps
   | None \<Rightarrow> p # quarantine_from (insert (p_id p) seen) ps)"

definition quarantineInvalidProfiles :: "profile list \<Rightarrow> profile list" where
  "quarantineInvalidProfiles ps = quarantine_from {} ps"

section \<open>Canonical form and copies\<close>

definition canonical_profile :: "profile \<Rightarrow> profile" where
  "canonical_profile p = (case wg_dns (p_wireguard p) of
     None \<Rightarrow> p\<lparr>p_wireguard := (p_wireguard p)\<lparr>wg_dns := Some []\<rparr>\<rparr> | Some _ \<Rightarrow> p)"

definition canonicalizeConfig :: "config \<Rightarrow> config" where
  "canonicalizeConfig cfg = \<lparr>c_profiles = Some (map canonical_profile (profs cfg))\<rparr>"

definition cloneConfig :: "config \<Rightarrow> config" where
  "cloneConfig cfg = \<lparr>c_profiles = Some (profs cfg)\<rparr>"

text \<open>What a copy shares with the original.  \<open>profile_refs\<close> names the storage each pointer and slice
  of a profile refers to; a clone takes fresh storage from \<open>next\<close> for what the code copies.\<close>

record profile_refs =
  r_dns :: "nat option"
  r_bypass :: "nat option"
  r_endpointIPs :: "nat option"
  r_naive :: "nat option"
  r_reality :: "nat option"
  r_hysteria2 :: "nat option"
  r_hysteria2_ports :: "nat option"
  r_shadowsocks :: "nat option"
  r_anytls :: "nat option"
  r_snowflake :: "nat option"
  r_snow_fronts :: "nat option"
  r_snow_ice :: "nat option"
  r_hop :: "nat option"

definition fresh_ref :: "nat \<Rightarrow> nat option \<Rightarrow> nat option" where
  "fresh_ref a r = (case r of None \<Rightarrow> None | Some _ \<Rightarrow> Some a)"

definition cloneProfile :: "nat \<Rightarrow> profile_refs \<Rightarrow> profile_refs" where
  "cloneProfile a p = p\<lparr>
     r_dns := fresh_ref a (r_dns p), r_bypass := fresh_ref (a + 1) (r_bypass p),
     r_endpointIPs := fresh_ref (a + 2) (r_endpointIPs p), r_naive := fresh_ref (a + 3) (r_naive p),
     r_reality := fresh_ref (a + 4) (r_reality p), r_hysteria2 := fresh_ref (a + 5) (r_hysteria2 p),
     r_shadowsocks := fresh_ref (a + 6) (r_shadowsocks p), r_anytls := fresh_ref (a + 7) (r_anytls p),
     r_snowflake := fresh_ref (a + 8) (r_snowflake p), r_snow_fronts := fresh_ref (a + 9) (r_snow_fronts p),
     r_snow_ice := fresh_ref (a + 10) (r_snow_ice p)\<rparr>"

definition refs_of :: "profile_refs \<Rightarrow> nat set" where
  "refs_of p = \<Union> (set_option ` {r_dns p, r_bypass p, r_endpointIPs p, r_naive p, r_reality p, r_hysteria2 p,
     r_hysteria2_ports p, r_shadowsocks p, r_anytls p, r_snowflake p, r_snow_fronts p, r_snow_ice p, r_hop p})"

section \<open>The files\<close>

type_synonym bytes = string

record fs =
  f_primary :: "bytes option"
  f_bak :: "bytes option"
  f_tmp :: "bytes option"

datatype fault = NoFault | CreateFails | WriteFails nat | SyncFails | CloseFails | RenameFails

type_synonym codec_enc = "int \<times> profile list \<Rightarrow> bytes"
type_synonym codec_dec = "bytes \<Rightarrow> (int \<times> profile list option) option"

definition configSchemaVersion :: int where
  "configSchemaVersion = 1"

definition marshalConfig :: "codec_enc \<Rightarrow> config \<Rightarrow> bytes" where
  "marshalConfig enc cfg = enc (configSchemaVersion, profs cfg)"

definition backup :: "fs \<Rightarrow> fs" where
  "backup s = (case f_primary s of Some (c # cs) \<Rightarrow> s\<lparr>f_bak := Some (c # cs)\<rparr> | _ \<Rightarrow> s)"

text \<open>persistLocked with the outcome of its system calls; a failure removes the temporary file.
  The write of the backup may itself fail, at any length: the result is not looked at.\<close>

definition persistLocked :: "codec_enc \<Rightarrow> fault \<Rightarrow> (fs \<Rightarrow> fs) \<Rightarrow> config \<Rightarrow> fs \<Rightarrow> fs \<times> bool" where
  "persistLocked enc flt bk cfg s =
    (case flt of
       NoFault \<Rightarrow> ((bk s)\<lparr>f_primary := Some (marshalConfig enc cfg), f_tmp := None\<rparr>, True)
     | RenameFails \<Rightarrow> ((bk s)\<lparr>f_tmp := None\<rparr>, False)
     | CreateFails \<Rightarrow> (s, False)
     | _ \<Rightarrow> (s\<lparr>f_tmp := None\<rparr>, False))"

text \<open>The backup step as the file system shows it: truncated, partly written, complete; nothing
  happens without a non-empty primary.\<close>

definition backup_states :: "fs \<Rightarrow> fs list" where
  "backup_states s = (case f_primary s of
     Some (c # cs) \<Rightarrow> map (\<lambda>n. s\<lparr>f_bak := Some (take n (c # cs))\<rparr>) [0..<Suc (Suc (length cs))]
   | _ \<Rightarrow> [])"

text \<open>Every state the disk passes through during a persist, in order.\<close>

definition persist_states :: "codec_enc \<Rightarrow> config \<Rightarrow> fs \<Rightarrow> fs list" where
  "persist_states enc cfg s =
    (let payload = marshalConfig enc cfg; full = s\<lparr>f_tmp := Some payload\<rparr> in
     [s] @ map (\<lambda>n. s\<lparr>f_tmp := Some (take n payload)\<rparr>) [0..<Suc (length payload)] @ backup_states full @
     [fst (persistLocked enc NoFault backup cfg s)])"

section \<open>Loading\<close>

definition decodeConfig :: "codec_enc \<Rightarrow> codec_dec \<Rightarrow> bytes \<Rightarrow> (config \<times> bool) option" where
  "decodeConfig enc dec raw = (case dec raw of None \<Rightarrow> None
     | Some (version, ps) \<Rightarrow>
         let c1 = canonicalizeConfig \<lparr>c_profiles = ps\<rparr>;
             cfg = \<lparr>c_profiles = Some (quarantineInvalidProfiles (profs c1))\<rparr>
         in if configSchemaVersion < version then Some (cfg, False)
            else Some (cfg, raw \<noteq> marshalConfig enc cfg))"

definition recoverFromBackup :: "codec_enc \<Rightarrow> codec_dec \<Rightarrow> fault \<Rightarrow> fs \<Rightarrow> config option \<times> fs" where
  "recoverFromBackup enc dec flt s = (case f_bak s of
      None \<Rightarrow> (None, s)
    | Some raw \<Rightarrow> if raw = [] then (None, s)
        else (case decodeConfig enc dec raw of None \<Rightarrow> (None, s)
          | Some (cfg, _) \<Rightarrow> (case persistLocked enc flt backup cfg s of
              (s', ok) \<Rightarrow> (if ok then Some cfg else None, s'))))"

text \<open>loadOrCreate under the lock: the configuration the store starts with, or None when it refuses
  to start.\<close>

definition loadOrCreate :: "codec_enc \<Rightarrow> codec_dec \<Rightarrow> fault \<Rightarrow> fs \<Rightarrow> config option \<times> fs" where
  "loadOrCreate enc dec flt s0 = (let s = s0\<lparr>f_tmp := None\<rparr> in
     case f_primary s of
       None \<Rightarrow> if f_bak s \<noteq> None then recoverFromBackup enc dec flt s
          else (case persistLocked enc flt backup DefaultConfig s of
             (s', ok) \<Rightarrow> (if ok then Some DefaultConfig else None, s'))
     | Some raw \<Rightarrow> if raw = [] then recoverFromBackup enc dec flt s
        else (case decodeConfig enc dec raw of None \<Rightarrow> recoverFromBackup enc dec flt s
          | Some (cfg, rewrite) \<Rightarrow> if rewrite
              then (case persistLocked enc flt backup cfg s of (s', ok) \<Rightarrow> (if ok then Some cfg else None, s'))
              else (Some cfg, s)))"

section \<open>The store\<close>

record config_store =
  st_config :: config
  st_fs :: fs

definition csGet :: "config_store \<Rightarrow> config" where
  "csGet st = cloneConfig (st_config st)"

definition csSet :: "codec_enc \<Rightarrow> fault \<Rightarrow> bool \<Rightarrow> config \<Rightarrow> config_store \<Rightarrow> config_store \<times> bool" where
  "csSet enc flt lock_ok cfg st =
    (let next = canonicalizeConfig (cloneConfig cfg) in
     if ValidateConfig next \<noteq> None \<or> \<not> lock_ok then (st, False)
     else case persistLocked enc flt backup next (st_fs st) of
         (s', True) \<Rightarrow> (st\<lparr>st_config := next, st_fs := s'\<rparr>, True)
       | (s', False) \<Rightarrow> (st\<lparr>st_fs := s'\<rparr>, False))"

definition FindProfile :: "string \<Rightarrow> config_store \<Rightarrow> profile option" where
  "FindProfile pid st = find (\<lambda>p. p_id p = pid) (profs (st_config st))"

section \<open>The lock file\<close>

text \<open>One turn of acquireLock: \<open>age\<close> is the lock's age in nanoseconds, None when there is no lock file;
  \<open>late\<close> says the deadline has passed.\<close>

definition staleLockAge :: int where
  "staleLockAge = 10000000000"

datatype lock_turn = Acquired | Retry bool | TimedOut bool

definition lock_step :: "int option \<Rightarrow> bool \<Rightarrow> lock_turn" where
  "lock_step age late = (case age of None \<Rightarrow> Acquired
     | Some a \<Rightarrow> let reclaim = (staleLockAge < a) in if late then TimedOut reclaim else Retry reclaim)"

section \<open>Validation lemmas\<close>

lemma quarantine_validates: "validate_from seen (quarantine_from seen ps) = None"
  by (induction ps arbitrary: seen) (auto split: option.splits)

lemma quarantine_valid_id: "validate_from seen ps = None \<Longrightarrow> quarantine_from seen ps = ps"
  by (induction ps arbitrary: seen) (auto split: option.splits)

lemma validate_distinct:
  "validate_from seen ps = None \<Longrightarrow> distinct (map p_id ps) \<and> (\<forall>p \<in> set ps. p_id p \<notin> seen \<and> checkProfile p {} = None)"
proof (induction ps arbitrary: seen)
  case (Cons p ps)
  then have c: "checkProfile p seen = None" and v: "validate_from (insert (p_id p) seen) ps = None"
    by (auto split: option.splits)
  have "checkProfile p {} = None" "p_id p \<notin> seen"
    using c by (auto simp: checkProfile_def split: if_splits)
  with Cons.IH [OF v] show ?case by auto
qed simp

lemma quarantine_subseq: "set (quarantine_from seen ps) \<subseteq> set ps"
  by (induction ps arbitrary: seen) (auto split: option.splits)

text \<open>A dropped profile is one that is invalid by itself or repeats an id kept before it.\<close>

lemma quarantine_keeps:
  "p \<in> set ps \<Longrightarrow> checkProfile p {} = None \<Longrightarrow> p_id p \<notin> seen \<Longrightarrow>
     \<exists>q \<in> set (quarantine_from seen ps). p_id q = p_id p"
proof (induction ps arbitrary: seen)
  case (Cons a ps)
  show ?case
  proof (cases "p = a \<or> p_id a = p_id p")
    case True
    show ?thesis
    proof (cases "checkProfile a seen")
      case None
      with True show ?thesis by auto
    next
      case (Some e)
      have "p \<noteq> a" using Cons.prems(2,3) Some by (auto simp: checkProfile_def split: if_splits)
      with Cons Some show ?thesis by auto
    qed
  next
    case False
    with Cons show ?thesis by (cases "checkProfile a seen") auto
  qed
qed simp

lemma checkProfile_canonical [simp]: "checkProfile (canonical_profile p) seen = checkProfile p seen"
  by (simp add: checkProfile_def canonical_profile_def profilePortClaims_def split: option.splits)

lemma canonical_idem [simp]: "canonical_profile (canonical_profile p) = canonical_profile p"
  by (simp add: canonical_profile_def split: option.splits)

lemma profs_simps [simp]: "profs \<lparr>c_profiles = Some ps\<rparr> = ps" "profs \<lparr>c_profiles = None\<rparr> = []"
  by (simp_all add: profs_def)

lemma profs_canonicalize [simp]: "profs (canonicalizeConfig cfg) = map canonical_profile (profs cfg)"
  by (simp add: canonicalizeConfig_def)

section \<open>Properties\<close>

text \<open>whatever a file held, the profiles kept from it pass the validation a write must pass and
  have distinct ids; nothing is invented, every id with a profile that is valid by itself stays
  usable, and a valid list is kept whole.\<close>

theorem quarantine_sound:
  "ValidateConfig \<lparr>c_profiles = Some (quarantineInvalidProfiles ps)\<rparr> = None \<and>
   distinct (map p_id (quarantineInvalidProfiles ps)) \<and>
   set (quarantineInvalidProfiles ps) \<subseteq> set ps \<and>
   p_id ` {p \<in> set ps. checkProfile p {} = None} \<subseteq> p_id ` set (quarantineInvalidProfiles ps) \<and>
   (ValidateConfig \<lparr>c_profiles = Some ps\<rparr> = None) = (quarantineInvalidProfiles ps = ps)"
proof -
  have "p_id ` {p \<in> set ps. checkProfile p {} = None} \<subseteq> p_id ` set (quarantine_from {} ps)"
  proof
    fix i assume "i \<in> p_id ` {p \<in> set ps. checkProfile p {} = None}"
    then obtain p where "i = p_id p" "p \<in> set ps" "checkProfile p {} = None" by blast
    then obtain q where "q \<in> set (quarantine_from {} ps)" "p_id q = i"
      using quarantine_keeps [of p ps "{}"] by auto
    then show "i \<in> p_id ` set (quarantine_from {} ps)" by (metis image_eqI)
  qed
  moreover have "(validate_from {} ps = None) = (quarantine_from {} ps = ps)"
    using quarantine_validates [of "{}" ps] quarantine_valid_id [of "{}" ps] by auto
  ultimately show ?thesis
    using quarantine_validates [of "{}" ps] validate_distinct [of "{}" "quarantine_from {} ps"]
      quarantine_subseq [of "{}" ps]
    by (simp add: ValidateConfig_def quarantineInvalidProfiles_def)
qed

text \<open>On the configurations \<open>C\<close> the codec reads back what it wrote, and it writes something.\<close>

definition codec_ok :: "codec_enc \<Rightarrow> codec_dec \<Rightarrow> config set \<Rightarrow> bool" where
  "codec_ok enc dec C \<longleftrightarrow> (\<forall>cfg \<in> C. dec (marshalConfig enc cfg) = Some (configSchemaVersion, Some (profs cfg)) \<and>
     marshalConfig enc cfg \<noteq> [])"

definition good_config :: "config \<Rightarrow> bool" where
  "good_config cfg \<longleftrightarrow> canonicalizeConfig cfg = cfg \<and> ValidateConfig cfg = None"

lemma good_next: "ValidateConfig (canonicalizeConfig cfg) = None \<Longrightarrow> good_config (canonicalizeConfig cfg)"
  by (simp add: good_config_def canonicalizeConfig_def comp_def)

lemma decode_marshal:
  assumes "codec_ok enc dec C" and "cfg \<in> C" and "good_config cfg"
  shows "decodeConfig enc dec (marshalConfig enc cfg) = Some (cfg, False)"
proof -
  have q: "quarantineInvalidProfiles (profs cfg) = profs cfg"
    using assms(3) quarantine_valid_id by (simp add: good_config_def ValidateConfig_def quarantineInvalidProfiles_def)
  have c: "canonicalizeConfig cfg = cfg" using assms(3) by (simp add: good_config_def)
  then have "map canonical_profile (profs cfg) = profs cfg" by (metis profs_canonicalize)
  moreover have "cfg = \<lparr>c_profiles = Some (profs cfg)\<rparr>"
    using c by (metis canonicalizeConfig_def profs_simps(1))
  ultimately show ?thesis
    using assms(1,2) q by (simp add: decodeConfig_def codec_ok_def canonicalizeConfig_def Let_def)
qed

lemma marshal_nonempty: "codec_ok enc dec C \<Longrightarrow> cfg \<in> C \<Longrightarrow> marshalConfig enc cfg \<noteq> []"
  by (simp add: codec_ok_def)

lemma load_good:
  assumes "codec_ok enc dec C" and "cfg \<in> C" and "good_config cfg" and "f_primary s = Some (marshalConfig enc cfg)"
  shows "loadOrCreate enc dec flt s = (Some cfg, s\<lparr>f_tmp := None\<rparr>)"
  using assms marshal_nonempty [OF assms(1,2)] decode_marshal [OF assms(1-3)]
  by (simp add: loadOrCreate_def Let_def)

lemma persist_states_primary:
  assumes "s' \<in> set (persist_states enc cfg s)"
  shows "f_primary s' = f_primary s \<or> f_primary s' = Some (marshalConfig enc cfg)"
  using assms by (auto simp: persist_states_def backup_states_def persistLocked_def Let_def
      split: option.splits list.splits)

text \<open>C21: a write is atomic under crashes.  When the file holds a valid configuration and the process
  dies at any point of a persist, in the middle of the temporary file, of the backup or around the
  rename, the next start loads the old or the new configuration, never another one and never none.\<close>

theorem persist_crash_safe:
  assumes "codec_ok enc dec {old, new}" and "good_config old" and "good_config new"
    and "f_primary s = Some (marshalConfig enc old)" and "s' \<in> set (persist_states enc new s)"
  shows "fst (loadOrCreate enc dec flt s') \<in> {Some old, Some new}"
  using persist_states_primary [OF assms(5)] load_good [OF assms(1) _ assms(2), of s']
    load_good [OF assms(1) _ assms(3), of s'] assms(4) by auto

text \<open>C25: a Set that reports an error leaves the store's configuration and the file as they were; one
  that succeeds is what Get returns, what FindProfile searches and what the next start loads.\<close>

theorem csSet_all_or_nothing:
  assumes "codec_ok enc dec {canonicalizeConfig cfg}" and "csSet enc flt lock_ok cfg st = (st', ok)"
  shows "if ok then csGet st' = canonicalizeConfig cfg \<and>
             FindProfile pid st' = find (\<lambda>p. p_id p = pid) (map canonical_profile (profs cfg)) \<and>
             fst (loadOrCreate enc dec flt' (st_fs st')) = Some (canonicalizeConfig cfg)
         else st_config st' = st_config st \<and> f_primary (st_fs st') = f_primary (st_fs st)"
proof -
  define nxt where "nxt = canonicalizeConfig (cloneConfig cfg)"
  have nxt: "nxt = canonicalizeConfig cfg" by (simp add: nxt_def canonicalizeConfig_def cloneConfig_def)
  show ?thesis
  proof (cases "ValidateConfig nxt \<noteq> None \<or> \<not> lock_ok")
    case True
    then show ?thesis using assms(2) by (auto simp: csSet_def nxt_def [symmetric] Let_def)
  next
    case False
    then have good: "good_config nxt" unfolding nxt by (intro good_next) (auto simp: nxt)
    show ?thesis
    proof (cases "flt = NoFault")
      case True
      then have st': "st_config st' = nxt" "f_primary (st_fs st') = Some (marshalConfig enc nxt)" and "ok"
        using assms(2) False by (auto simp: csSet_def nxt_def [symmetric] Let_def persistLocked_def)
      then show ?thesis
        using load_good [OF assms(1) _ good st'(2), of flt'] nxt
        by (simp add: csGet_def FindProfile_def nxt cloneConfig_def canonicalizeConfig_def)
    next
      case F: False
      then show ?thesis
        using assms(2) False
        by (auto simp: csSet_def nxt_def [symmetric] Let_def persistLocked_def backup_def
            split: fault.splits option.splits list.splits)
    qed
  qed
qed

text \<open>C26: the recovery path is not atomic.  It saves the unreadable primary over the only good backup
  before the rename, so a crash in between leaves two unreadable files and the next start refuses
  to run, although the recovered configuration had been written in full to the temporary file.\<close>

theorem recovery_crash_loses_config:
  assumes "codec_ok enc dec {old}" and "good_config old" and "junk \<noteq> []" and "dec junk = None"
    and "s = \<lparr>f_primary = Some junk, f_bak = Some (marshalConfig enc old), f_tmp = None\<rparr>"
  shows "fst (loadOrCreate enc dec NoFault s) = Some old \<and>
    (\<exists>s' \<in> set (persist_states enc old s). f_tmp s' = Some (marshalConfig enc old) \<and>
       fst (loadOrCreate enc dec NoFault s') = None)"
proof
  have bad: "decodeConfig enc dec junk = None" using assms(4) by (simp add: decodeConfig_def)
  show "fst (loadOrCreate enc dec NoFault s) = Some old"
    using bad assms(3,5) decode_marshal [OF assms(1) _ assms(2)] marshal_nonempty [OF assms(1)]
    by (simp add: loadOrCreate_def recoverFromBackup_def persistLocked_def)
  let ?s' = "s\<lparr>f_tmp := Some (marshalConfig enc old), f_bak := Some junk\<rparr>"
  have "?s' \<in> set (backup_states (s\<lparr>f_tmp := Some (marshalConfig enc old)\<rparr>))"
    using assms(3,5) by (cases junk) (auto simp: backup_states_def intro!: image_eqI [of _ _ "length junk"])
  then have "?s' \<in> set (persist_states enc old s)" by (simp add: persist_states_def Let_def)
  moreover have "fst (loadOrCreate enc dec NoFault ?s') = None"
    using bad assms(3,5) by (simp add: loadOrCreate_def recoverFromBackup_def)
  ultimately show "\<exists>s' \<in> set (persist_states enc old s). f_tmp s' = Some (marshalConfig enc old) \<and>
       fst (loadOrCreate enc dec NoFault s') = None"
    by (intro bexI [of _ ?s']) simp_all
qed

text \<open>loading never touches a file of a newer schema, but the first Set after it writes the file
  back at this build's version, with only the profiles and fields this build knows.\<close>

theorem newer_schema_overwritten:
  assumes "dec raw = Some (v, ps)" and "configSchemaVersion < v" and "raw \<noteq> []" and "f_primary s = Some raw"
    and "ValidateConfig (canonicalizeConfig cfg) = None"
    and "st = \<lparr>st_config = the (fst (loadOrCreate enc dec flt s)), st_fs = snd (loadOrCreate enc dec flt s)\<rparr>"
  shows "f_primary (st_fs st) = Some raw \<and>
    f_primary (st_fs (fst (csSet enc NoFault True cfg st))) = Some (enc (1, profs (canonicalizeConfig cfg)))"
proof -
  have "snd (loadOrCreate enc dec flt s) = s\<lparr>f_tmp := None\<rparr>"
    using assms(1-4) by (simp add: loadOrCreate_def decodeConfig_def Let_def)
  moreover have "canonicalizeConfig (cloneConfig cfg) = canonicalizeConfig cfg"
    by (simp add: canonicalizeConfig_def cloneConfig_def)
  ultimately show ?thesis
    using assms(4-6) by (simp add: csSet_def persistLocked_def marshalConfig_def configSchemaVersion_def)
qed

text \<open>a copy handed out shares with the store exactly the port ranges of the Hysteria2 profile and
  the hop: everything else a caller can reach through it is storage of its own.\<close>

theorem cloneProfile_shares:
  assumes "\<forall>r \<in> refs_of p. r < a"
  shows "refs_of (cloneProfile a p) \<inter> refs_of p = set_option (r_hysteria2_ports p) \<union> set_option (r_hop p)"
proof -
  have f: "x \<in> set_option (fresh_ref b r) \<Longrightarrow> x = b" for x b r
    by (simp add: fresh_ref_def split: option.splits)
  define new where "new = set_option (fresh_ref a (r_dns p)) \<union> set_option (fresh_ref (a + 1) (r_bypass p)) \<union>
     set_option (fresh_ref (a + 2) (r_endpointIPs p)) \<union> set_option (fresh_ref (a + 3) (r_naive p)) \<union>
     set_option (fresh_ref (a + 4) (r_reality p)) \<union> set_option (fresh_ref (a + 5) (r_hysteria2 p)) \<union>
     set_option (fresh_ref (a + 6) (r_shadowsocks p)) \<union> set_option (fresh_ref (a + 7) (r_anytls p)) \<union>
     set_option (fresh_ref (a + 8) (r_snowflake p)) \<union> set_option (fresh_ref (a + 9) (r_snow_fronts p)) \<union>
     set_option (fresh_ref (a + 10) (r_snow_ice p))"
  have "refs_of (cloneProfile a p) = new \<union> (set_option (r_hysteria2_ports p) \<union> set_option (r_hop p))"
    by (auto simp: refs_of_def cloneProfile_def new_def)
  moreover have "a \<le> r" if "r \<in> new" for r
    using that unfolding new_def by (elim UnE) (drule f, simp)+
  then have "new \<inter> refs_of p = {}" using assms by fastforce
  moreover have "set_option (r_hysteria2_ports p) \<union> set_option (r_hop p) \<subseteq> refs_of p" by (auto simp: refs_of_def)
  ultimately show ?thesis by blast
qed

section \<open>Witnesses\<close>

definition ex_profile :: "string \<Rightarrow> profile" where
  "ex_profile i = blank_profile\<lparr>p_id := i, p_name := ''n'',
     p_wireguard := blank_wireguard\<lparr>wg_configText := ''c'', wg_dns := Some []\<rparr>\<rparr>"

definition ex_config :: "string \<Rightarrow> config" where
  "ex_config i = \<lparr>c_profiles = Some [ex_profile i]\<rparr>"

text \<open>A codec for two configurations.\<close>

definition ex_enc :: codec_enc where
  "ex_enc x = (if x = (1, [ex_profile ''a'']) then ''A'' else ''B'')"

definition ex_dec :: codec_dec where
  "ex_dec b = (if b = ''A'' then Some (1, Some [ex_profile ''a''])
     else if b = ''B'' then Some (1, Some [ex_profile ''b'']) else if b = ''N'' then Some (2, None) else None)"

lemma ex_good: "i \<noteq> [] \<Longrightarrow> good_config (ex_config i)"
  by (simp add: good_config_def ex_config_def canonicalizeConfig_def canonical_profile_def ex_profile_def
      ValidateConfig_def checkProfile_def profilePortClaims_def claim_of_def blank_profile_def blank_cloak_def)

lemma ex_codec: "codec_ok ex_enc ex_dec {ex_config ''a'', ex_config ''b''}"
proof -
  have "p_id (ex_profile i) = i" for i by (simp add: ex_profile_def)
  from this [of "''a''"] this [of "''b''"] have "ex_profile ''a'' \<noteq> ex_profile ''b''" by auto
  then show ?thesis
    by (simp add: codec_ok_def ex_config_def marshalConfig_def configSchemaVersion_def ex_enc_def ex_dec_def)
qed

lemma ex_marshal: "marshalConfig ex_enc (ex_config ''a'') = ''A''"
  by (simp add: marshalConfig_def ex_config_def ex_enc_def configSchemaVersion_def)

definition ex_fs :: fs where
  "ex_fs = \<lparr>f_primary = Some ''A'', f_bak = None, f_tmp = None\<rparr>"

theorem persist_crash_safe_witness:
  "\<exists>s' \<in> set (persist_states ex_enc (ex_config ''b'') ex_fs). f_bak s' = Some [] \<and>
     fst (loadOrCreate ex_enc ex_dec NoFault s') \<in> {Some (ex_config ''a''), Some (ex_config ''b'')}"
proof -
  let ?s = "ex_fs\<lparr>f_tmp := Some (marshalConfig ex_enc (ex_config ''b'')), f_bak := Some []\<rparr>"
  have "?s \<in> set (persist_states ex_enc (ex_config ''b'') ex_fs)"
    by (auto simp: persist_states_def backup_states_def ex_fs_def Let_def)
  moreover have "f_primary ex_fs = Some (marshalConfig ex_enc (ex_config ''a''))"
    by (simp add: ex_fs_def ex_marshal)
  ultimately have "fst (loadOrCreate ex_enc ex_dec NoFault ?s) \<in> {Some (ex_config ''a''), Some (ex_config ''b'')}"
    by (intro persist_crash_safe [OF ex_codec ex_good ex_good]) simp_all
  then show ?thesis using \<open>?s \<in> _\<close> by (intro bexI [of _ ?s]) simp_all
qed

theorem csSet_all_or_nothing_witness:
  "csGet (fst (csSet ex_enc NoFault True (ex_config ''a'') \<lparr>st_config = DefaultConfig, st_fs = ex_fs\<rparr>))
     = canonicalizeConfig (ex_config ''a'')"
proof -
  let ?st = "\<lparr>st_config = DefaultConfig, st_fs = ex_fs\<rparr>"
  have c: "canonicalizeConfig (ex_config ''a'') = ex_config ''a''" using ex_good [of "''a''"] by (simp add: good_config_def)
  have "codec_ok ex_enc ex_dec {canonicalizeConfig (ex_config ''a'')}"
    using ex_codec by (simp add: codec_ok_def c)
  moreover have "snd (csSet ex_enc NoFault True (ex_config ''a'') ?st)"
    using ex_good [of "''a''"]
    by (simp add: csSet_def persistLocked_def good_config_def canonicalizeConfig_def cloneConfig_def Let_def)
  ultimately show ?thesis
    using csSet_all_or_nothing [of ex_enc ex_dec "ex_config ''a''" NoFault True ?st] by (metis prod.collapse)
qed

theorem recovery_crash_loses_config_witness:
  "\<exists>s'. fst (loadOrCreate ex_enc ex_dec NoFault \<lparr>f_primary = Some ''x'', f_bak = Some ''A'', f_tmp = None\<rparr>) = Some (ex_config ''a'') \<and>
     f_tmp s' = Some ''A'' \<and> fst (loadOrCreate ex_enc ex_dec NoFault s') = None"
proof -
  have "codec_ok ex_enc ex_dec {ex_config ''a''}" using ex_codec by (simp add: codec_ok_def)
  from recovery_crash_loses_config [OF this ex_good, of "''x''"] show ?thesis
    unfolding ex_marshal by (simp add: ex_dec_def) blast
qed

theorem newer_schema_overwritten_witness:
  "f_primary (st_fs (fst (csSet ex_enc NoFault True (ex_config ''a'')
     \<lparr>st_config = the (fst (loadOrCreate ex_enc ex_dec NoFault (ex_fs\<lparr>f_primary := Some ''N''\<rparr>))),
      st_fs = snd (loadOrCreate ex_enc ex_dec NoFault (ex_fs\<lparr>f_primary := Some ''N''\<rparr>))\<rparr>))) = Some ''A''"
proof -
  have c: "canonicalizeConfig (ex_config ''a'') = ex_config ''a''" using ex_good [of "''a''"] by (simp add: good_config_def)
  have n: "ex_dec ''N'' = Some (2, None)" by (simp add: ex_dec_def)
  have v: "ValidateConfig (canonicalizeConfig (ex_config ''a'')) = None" using ex_good [of "''a''"] c by (simp add: good_config_def)
  have "ex_enc (1, profs (canonicalizeConfig (ex_config ''a''))) = ''A''"
    unfolding c by (simp add: ex_enc_def ex_config_def)
  with newer_schema_overwritten [of ex_dec "''N''" 2 None "ex_fs\<lparr>f_primary := Some ''N''\<rparr>" "ex_config ''a''" _ ex_enc NoFault, OF n _ _ _ v refl]
  show ?thesis by (simp add: configSchemaVersion_def)
qed

definition ex_refs :: profile_refs where
  "ex_refs = \<lparr>r_dns = Some 0, r_bypass = None, r_endpointIPs = None, r_naive = None, r_reality = None,
     r_hysteria2 = Some 1, r_hysteria2_ports = Some 2, r_shadowsocks = None, r_anytls = None,
     r_snowflake = None, r_snow_fronts = None, r_snow_ice = None, r_hop = Some 3\<rparr>"

theorem cloneProfile_shares_witness:
  "refs_of (cloneProfile 4 ex_refs) \<inter> refs_of ex_refs = {2, 3}"
proof -
  have "\<forall>r \<in> refs_of ex_refs. r < 4" by (auto simp: refs_of_def ex_refs_def)
  from cloneProfile_shares [OF this] show ?thesis by (auto simp: ex_refs_def)
qed

end
