(* ===== verification/Logs.thy ===== *)
theory Logs
  imports Prelude
begin

text \<open>state/logs.go and state/log_file.go: the bounded in-memory log and the rotating file that mirrors
  it.  Both mutexes of the store are held over a whole operation, so an operation is one step.\<close>

section \<open>The file sink\<close>

text \<open>\<open>fl_files n\<close> is the content of the live file (0) and of the numbered ones, None when missing; a
  file is the list of its lines, its size the sum of their lengths.\<close>

record file_sink =
  fl_files :: "nat \<Rightarrow> string list option"
  fl_open :: bool
  fl_size :: int
  fl_maxSize :: int
  fl_keep :: nat
  fl_closed :: bool

definition bytes_of :: "string list \<Rightarrow> int" where
  "bytes_of ls = int (sum_list (map length ls))"

definition live_lines :: "file_sink \<Rightarrow> string list" where
  "live_lines s = (case fl_files s 0 of None \<Rightarrow> [] | Some ls \<Rightarrow> ls)"

definition openLocked :: "bool \<Rightarrow> file_sink \<Rightarrow> file_sink \<times> bool" where
  "openLocked ok s = (if \<not> ok then (s, False)
     else (s\<lparr>fl_files := (fl_files s)(0 := Some (live_lines s)), fl_open := True,
             fl_size := bytes_of (live_lines s)\<rparr>, True))"

definition newFileSink :: "(nat \<Rightarrow> string list option) \<Rightarrow> int \<Rightarrow> int \<Rightarrow> bool \<Rightarrow> file_sink \<times> bool" where
  "newFileSink files maxSize keep ok = openLocked ok
     \<lparr>fl_files = files, fl_open = False, fl_size = 0,
      fl_maxSize = (if maxSize \<le> 0 then 8388608 else maxSize), fl_keep = nat keep, fl_closed = False\<rparr>"

definition rename_file :: "nat \<Rightarrow> nat \<Rightarrow> (nat \<Rightarrow> string list option) \<Rightarrow> (nat \<Rightarrow> string list option)" where
  "rename_file a b files = (case files a of None \<Rightarrow> files | Some ls \<Rightarrow> files(a := None, b := Some ls))"

text \<open>The downward loop from \<open>keep - 1\<close>; \<open>ok i\<close> says whether the rename of file \<open>i\<close> succeeds.\<close>

fun shift_loop :: "(nat \<Rightarrow> bool) \<Rightarrow> nat \<Rightarrow> (nat \<Rightarrow> string list option) \<Rightarrow> (nat \<Rightarrow> string list option)" where
  "shift_loop ok 0 files = files"
| "shift_loop ok (Suc i) files = shift_loop ok i
     (if ok (Suc i) then rename_file (Suc i) (Suc (Suc i)) files else files)"

definition rotateLocked :: "(nat \<Rightarrow> bool) \<Rightarrow> bool \<Rightarrow> file_sink \<Rightarrow> file_sink" where
  "rotateLocked ok open_ok s =
    (if \<not> fl_open s then s
     else let files = fl_files s;
              moved = (if fl_keep s = 0 then (if ok 0 then files(0 := None) else files)
                else let f1 = files(fl_keep s := None); f2 = shift_loop ok (fl_keep s - 1) f1
                  in (if ok 0 then rename_file 0 1 f2 else f2))
       in fst (openLocked open_ok (s\<lparr>fl_files := moved, fl_open := False\<rparr>)))"

text \<open>\<open>line\<close> is the JSON text of the entry with its newline; \<open>n\<close> bytes of it reach the file.\<close>

record io_faults =
  io_reopen :: bool
  io_rename :: "nat \<Rightarrow> bool"
  io_open :: bool
  io_write :: nat

definition sinkWrite :: "io_faults \<Rightarrow> string \<Rightarrow> file_sink \<Rightarrow> file_sink \<times> bool" where
  "sinkWrite io line s =
    (if fl_closed s then (s, True)
     else let (s1, ok1) = (if fl_open s then (s, True) else openLocked (io_reopen io) s) in
       if \<not> ok1 then (s1, False)
       else let s2 = (if fl_maxSize s1 < fl_size s1 + int (length line)
                      then rotateLocked (io_rename io) (io_open io) s1 else s1) in
         if \<not> fl_open s2 then (s2, False)
         else let part = take (io_write io) line in
           (s2\<lparr>fl_files := (fl_files s2)(0 := Some (live_lines s2 @ (if part = [] then [] else [part]))),
               fl_size := fl_size s2 + int (length part)\<rparr>, length line \<le> io_write io))"

definition sinkClose :: "file_sink \<Rightarrow> file_sink" where
  "sinkClose s = s\<lparr>fl_closed := True, fl_open := False\<rparr>"

section \<open>The store\<close>

record log_entry =
  le_ts :: int
  le_level :: string
  le_source :: string
  le_msg :: string

record log_store =
  lg_entries :: "log_entry list"
  lg_max :: nat
  lg_sink :: "file_sink option"

definition NewLogStore :: "int \<Rightarrow> log_store" where
  "NewLogStore maxEntries = \<lparr>lg_entries = [], lg_max = (if maxEntries \<le> 0 then 3000 else nat maxEntries), lg_sink = None\<rparr>"

definition logAdd :: "(log_entry \<Rightarrow> string) \<Rightarrow> io_faults \<Rightarrow> log_entry \<Rightarrow> log_store \<Rightarrow> log_store" where
  "logAdd enc io e s =
    (let es = lg_entries s @ [e];
         es' = (if lg_max s < length es then drop (length es - lg_max s) es else es)
     in s\<lparr>lg_entries := es', lg_sink := map_option (\<lambda>k. fst (sinkWrite io (enc e @ [CHR 0x0A]) k)) (lg_sink s)\<rparr>)"

definition logSince :: "int \<Rightarrow> log_store \<Rightarrow> log_entry list" where
  "logSince since s = (if since \<le> 0 then lg_entries s else filter (\<lambda>e. since \<le> le_ts e) (lg_entries s))"

definition logClear :: "log_store \<Rightarrow> log_store" where
  "logClear s = s\<lparr>lg_entries := []\<rparr>"

definition attachFile :: "file_sink \<Rightarrow> log_store \<Rightarrow> log_store" where
  "attachFile k s = s\<lparr>lg_sink := Some k\<rparr>"

definition closeFile :: "log_store \<Rightarrow> log_store" where
  "closeFile s = s\<lparr>lg_sink := None\<rparr>"

section \<open>Properties\<close>

datatype log_op = OpAdd io_faults log_entry | OpClear | OpAttach file_sink | OpClose

fun log_step :: "(log_entry \<Rightarrow> string) \<Rightarrow> log_store \<Rightarrow> log_op \<Rightarrow> log_store" where
  "log_step enc s (OpAdd io e) = logAdd enc io e s"
| "log_step enc s OpClear = logClear s"
| "log_step enc s (OpAttach k) = attachFile k s"
| "log_step enc s OpClose = closeFile s"

text \<open>The specification: everything added since the last Clear.\<close>

fun history :: "log_entry list \<Rightarrow> log_op list \<Rightarrow> log_entry list" where
  "history h [] = h"
| "history h (OpAdd io e # ops) = history (h @ [e]) ops"
| "history h (OpClear # ops) = history [] ops"
| "history h (_ # ops) = history h ops"

definition last_n :: "nat \<Rightarrow> 'a list \<Rightarrow> 'a list" where
  "last_n n xs = drop (length xs - n) xs"

lemma last_n_snoc: "last_n n (last_n n xs @ [x]) = last_n n (xs @ [x])"
  by (simp add: last_n_def) (metis (no_types, lifting) Suc_diff_le diff_diff_cancel diff_is_0_eq' diff_le_self drop0
      drop_append drop_drop le_add_diff_inverse2 nat_le_linear not_less_eq_eq)

lemma logAdd_entries:
  "lg_entries (logAdd enc io e s) = last_n (lg_max s) (lg_entries s @ [e])" "lg_max (logAdd enc io e s) = lg_max s"
  by (auto simp: logAdd_def last_n_def Let_def)

lemma log_refines_from:
  "lg_entries s = last_n (lg_max s) h \<Longrightarrow>
   lg_entries (foldl (log_step enc) s ops) = last_n (lg_max s) (history h ops) \<and>
   lg_max (foldl (log_step enc) s ops) = lg_max s"
proof (induction ops arbitrary: s h)
  case (Cons op ops)
  show ?case
  proof (cases op)
    case (OpAdd io e)
    have "lg_entries (logAdd enc io e s) = last_n (lg_max (logAdd enc io e s)) (h @ [e])"
      by (simp add: logAdd_entries Cons.prems last_n_snoc)
    from Cons.IH [OF this] OpAdd show ?thesis by (simp add: logAdd_entries)
  next
    case OpClear
    have "lg_entries (logClear s) = last_n (lg_max (logClear s)) []" by (simp add: logClear_def last_n_def)
    from Cons.IH [OF this] OpClear show ?thesis by (simp add: logClear_def)
  next
    case (OpAttach k)
    have "lg_entries (attachFile k s) = last_n (lg_max (attachFile k s)) h" using Cons.prems by (simp add: attachFile_def)
    from Cons.IH [OF this] OpAttach show ?thesis by (simp add: attachFile_def)
  next
    case OpClose
    have "lg_entries (closeFile s) = last_n (lg_max (closeFile s)) h" using Cons.prems by (simp add: closeFile_def)
    from Cons.IH [OF this] OpClose show ?thesis by (simp add: closeFile_def)
  qed
qed simp

text \<open>the in-memory log refines the unbounded history: after any sequence of operations it holds
  the newest entries added since the last Clear, oldest first, as many as its bound admits, and a
  query from the start returns exactly them.\<close>

theorem log_refines_history:
  "logSince 0 (foldl (log_step enc) (NewLogStore n) ops) =
     last_n (if n \<le> 0 then 3000 else nat n) (history [] ops)"
  using log_refines_from [of "NewLogStore n" "[]" enc ops]
  by (simp add: logSince_def NewLogStore_def last_n_def)

text \<open>The size the sink accounts is the size of the live file.\<close>

definition sized :: "file_sink \<Rightarrow> bool" where
  "sized s \<longleftrightarrow> (fl_open s \<longrightarrow> fl_files s 0 \<noteq> None \<and> fl_size s = bytes_of (live_lines s))"

lemma bytes_of_append [simp]: "bytes_of (xs @ ys) = bytes_of xs + bytes_of ys"
  by (simp add: bytes_of_def)

lemma sized_open: "sized s \<Longrightarrow> sized (fst (openLocked ok s))"
  by (auto simp: openLocked_def sized_def live_lines_def split: option.splits)

lemma rename_other: "n \<noteq> a \<Longrightarrow> n \<noteq> b \<Longrightarrow> rename_file a b f n = f n"
  by (simp add: rename_file_def split: option.splits)

lemma shift_loop_high: "k + 1 < n \<Longrightarrow> shift_loop ok k f n = f n"
  by (induction k arbitrary: f) (auto simp: rename_other)

lemma shift_loop_0 [simp]: "shift_loop ok k f 0 = f 0"
  by (induction k arbitrary: f) (auto simp: rename_other)

lemma sized_rotate: "sized (rotateLocked ok open_ok s)" if "sized s"
proof (cases "fl_open s")
  case True
  have "sized (t\<lparr>fl_files := f, fl_open := False\<rparr>)" for t f by (simp add: sized_def)
  with True show ?thesis unfolding rotateLocked_def Let_def by (simp add: sized_open)
qed (use that in \<open>simp add: rotateLocked_def\<close>)


definition ex_sink :: file_sink where
  "ex_sink = \<lparr>fl_files = (\<lambda>_. None)(0 := Some [''abc'']), fl_open = True, fl_size = 3, fl_maxSize = 5, fl_keep = 2, fl_closed = False\<rparr>"


lemma shift_loop_spec:
  "\<forall>i. ok i \<Longrightarrow> f (Suc k) = None \<Longrightarrow>
     shift_loop ok k f = (\<lambda>n. if n = 0 then f 0 else if n = 1 then (if k = 0 then f 1 else None)
       else if n \<le> Suc k then f (n - 1) else f n)"
proof (induction k arbitrary: f)
  case 0
  then show ?case by (auto simp: fun_eq_iff)
next
  case (Suc k)
  let ?g = "rename_file (Suc k) (Suc (Suc k)) f"
  have g: "?g (Suc k) = None" "?g (Suc (Suc k)) = f (Suc k)" "\<And>n. n \<noteq> Suc k \<Longrightarrow> n \<noteq> Suc (Suc k) \<Longrightarrow> ?g n = f n"
    using Suc.prems by (auto simp: rename_file_def split: option.splits)
  from Suc.IH [of ?g, OF Suc.prems(1) g(1)] Suc.prems(1) show ?case
    using g by (fastforce simp: fun_eq_iff le_Suc_eq)
qed

text \<open>a rotation without failures moves every numbered file up by one and the live file to the
  first number, drops what was at the last, touches nothing beyond it and starts an empty file.\<close>

theorem rotation_shifts:
  assumes "fl_open s" and "fl_files s 0 = Some live" and "0 < fl_keep s" and "\<forall>i. ok i"
    and "s' = rotateLocked ok True s"
  shows "fl_files s' 0 = Some [] \<and> fl_files s' 1 = Some live \<and>
    (\<forall>n. 2 \<le> n \<longrightarrow> fl_files s' n = (if n \<le> fl_keep s then fl_files s (n - 1) else fl_files s n)) \<and> fl_size s' = 0"
proof -
  obtain k where k: "fl_keep s = Suc k" using assms(3) by (cases "fl_keep s") auto
  let ?f = "(fl_files s)(Suc k := None)"
  have sh: "shift_loop ok k ?f = (\<lambda>n. if n = 0 then ?f 0 else if n = 1 then (if k = 0 then ?f 1 else None)
       else if n \<le> Suc k then ?f (n - 1) else ?f n)"
    using assms(4) by (intro shift_loop_spec) auto
  then have "shift_loop ok k ?f 0 = Some live" using assms(2) by simp
  then have mv: "rename_file 0 1 (shift_loop ok k ?f) = (shift_loop ok k ?f)(0 := None, 1 := Some live)"
    by (simp add: rename_file_def)
  have "s' = fst (openLocked True (s\<lparr>fl_files := rename_file 0 1 (shift_loop ok k ?f), fl_open := False\<rparr>))"
    using assms k by (simp add: rotateLocked_def Let_def)
  then have "fl_files s' = (shift_loop ok k ?f)(0 := Some [], 1 := Some live)" "fl_size s' = 0"
    unfolding mv by (auto simp: openLocked_def live_lines_def bytes_of_def fun_eq_iff)
  then show ?thesis unfolding sh k by auto
qed

theorem rotation_shifts_witness:
  "fl_files (rotateLocked (\<lambda>_. True) True ex_sink) 1 = Some [''abc'']"
  using rotation_shifts [of ex_sink "[''abc'']" "\<lambda>_. True" _] by (simp add: ex_sink_def)

end
