(* ===== verification/Packet.thy ===== *)
theory Packet
  imports Net_Text
begin

text \<open>splittunnel/packet.go: the IPv4, TCP, UDP and ICMP headers the split-tunnel engine decides on, and
  the packets it builds for replies, fragmented at the MTU.  A packet is a list of bytes; an
  address here is its 32-bit word.  The Internet checksum is gVisor's: a function argument.\<close>

type_synonym byte = "8 word"
type_synonym ip4 = "32 word"

definition be16 :: "byte list \<Rightarrow> nat" where
  "be16 bs = unat (bs ! 0) * 256 + unat (bs ! 1)"

definition be32 :: "byte list \<Rightarrow> int" where
  "be32 bs = foldl (\<lambda>n b. n * 256 + uint b) 0 (take 4 bs)"

definition put16 :: "nat \<Rightarrow> byte list" where
  "put16 n = [of_nat (n div 256), of_nat n]"

definition addr_of :: "byte list \<Rightarrow> ip4" where
  "addr_of bs = word_of_int (be32 bs)"

definition addr_bytes :: "ip4 \<Rightarrow> byte list" where
  "addr_bytes a = map (\<lambda>i. word_of_int (uint a div 256 ^ i)) [3, 2, 1, 0]"

definition protoICMP :: nat where "protoICMP = 1"
definition protoTCP :: nat where "protoTCP = 6"
definition protoUDP :: nat where "protoUDP = 17"

definition slice :: "nat \<Rightarrow> nat \<Rightarrow> 'a list \<Rightarrow> 'a list" where
  "slice a b xs = take (b - a) (drop a xs)"

record pkt_info =
  pi_proto :: nat
  pi_src :: ip4
  pi_dst :: ip4
  pi_frag :: bool
  pi_more :: bool
  pi_ports :: bool
  pi_id :: nat
  pi_fragOff :: nat
  pi_ihl :: nat
  pi_total :: nat
  pi_udpLen :: nat
  pi_srcPort :: nat
  pi_dstPort :: nat
  pi_flags :: byte
  pi_seq :: int

section \<open>Parsing\<close>

text \<open>The fields of the IPv4 header, of a packet \<open>b\<close> cut at its total length.\<close>

definition ip_info :: "byte list \<Rightarrow> nat \<Rightarrow> nat \<Rightarrow> pkt_info" where
  "ip_info b ihl tot = \<lparr>pi_proto = unat (b ! 9), pi_src = addr_of (slice 12 16 b), pi_dst = addr_of (slice 16 20 b),
     pi_frag = False, pi_more = False, pi_ports = False, pi_id = be16 (slice 4 6 b), pi_fragOff = 0,
     pi_ihl = ihl, pi_total = tot, pi_udpLen = 0, pi_srcPort = 0, pi_dstPort = 0, pi_flags = 0, pi_seq = 0\<rparr>"

definition with_ports :: "byte list \<Rightarrow> pkt_info \<Rightarrow> pkt_info" where
  "with_ports t i = i\<lparr>pi_srcPort := be16 (slice 0 2 t), pi_dstPort := be16 (slice 2 4 t)\<rparr>"

definition with_udp :: "byte list \<Rightarrow> pkt_info \<Rightarrow> pkt_info" where
  "with_udp t i = (with_ports t i)\<lparr>pi_udpLen := be16 (slice 4 6 t), pi_ports := True\<rparr>"

definition parse_fragment :: "nat \<Rightarrow> byte list \<Rightarrow> pkt_info \<Rightarrow> pkt_info" where
  "parse_fragment ff t info =
    (let fi = info\<lparr>pi_frag := True, pi_more := (ff div 8192 mod 2 \<noteq> 0), pi_fragOff := ff mod 8192 * 8\<rparr> in
     if pi_proto info = protoUDP \<and> ff mod 8192 = 0 \<and> 8 \<le> length t then with_udp t fi else fi)"

definition parse_transport :: "byte list \<Rightarrow> pkt_info \<Rightarrow> pkt_info option" where
  "parse_transport t info =
    (if pi_proto info = protoTCP then
       (if length t < 20 then None
        else let doff = unat (t ! 12) div 16 * 4 in
          if doff < 20 \<or> length t < doff then None
          else Some ((with_ports t info)\<lparr>pi_seq := be32 (slice 4 8 t), pi_flags := t ! 13\<rparr>))
     else if pi_proto info = protoUDP then (if length t < 8 then None else Some (with_udp t info))
     else Some info)"

definition parseIPv4 :: "byte list \<Rightarrow> pkt_info option" where
  "parseIPv4 b0 =
    (if length b0 < 20 \<or> unat (b0 ! 0) div 16 \<noteq> 4 then None
     else let ihl = unat (b0 ! 0) mod 16 * 4 in
     if ihl < 20 \<or> length b0 < ihl then None
     else let tot = be16 (slice 2 4 b0) in
     if tot < ihl \<or> length b0 < tot then None
     else let b = take tot b0; t = drop ihl b; ff = be16 (slice 6 8 b); info = ip_info b ihl tot
     in if ff div 8192 mod 2 \<noteq> 0 \<or> ff mod 8192 \<noteq> 0 then Some (parse_fragment ff t info)
        else parse_transport t info)"

definition udpPayload :: "pkt_info \<Rightarrow> (nat \<times> nat) option" where
  "udpPayload info = (if pi_udpLen info < 8 \<or> pi_total info < pi_ihl info + pi_udpLen info then None
     else Some (pi_ihl info + 8, pi_ihl info + pi_udpLen info))"

record quoted =
  q_proto :: nat
  q_src :: ip4
  q_dst :: ip4
  q_srcPort :: nat
  q_dstPort :: nat

definition icmpQuote :: "byte list \<Rightarrow> quoted option" where
  "icmpQuote icmp =
    (if length icmp < 8 + 20 + 8 then None
     else if unat (icmp ! 0) \<notin> {3, 11, 12} then None
     else let inner = drop 8 icmp; ihl = unat (inner ! 0) mod 16 * 4 in
       if unat (inner ! 0) div 16 \<noteq> 4 \<or> ihl < 20 \<or> length inner < ihl + 8 \<or> be16 (slice 6 8 inner) mod 8192 \<noteq> 0
       then None
       else let p = unat (inner ! 9) in
         if p \<noteq> protoTCP \<and> p \<noteq> protoUDP then None
         else Some \<lparr>q_proto = p, q_src = addr_of (slice 12 16 inner), q_dst = addr_of (slice 16 20 inner),
           q_srcPort = be16 (slice ihl (ihl + 2) inner), q_dstPort = be16 (slice (ihl + 2) (ihl + 4) inner)\<rparr>)"

definition alwaysTunnelDst :: "ip4 \<Rightarrow> bool" where
  "alwaysTunnelDst a \<longleftrightarrow> drop_bit 24 a = 0 \<or> drop_bit 24 a = 127 \<or> drop_bit 28 a = 14 \<or> a = 0xFFFFFFFF"

section \<open>Building replies\<close>

definition maxUDPPayload :: nat where
  "maxUDPPayload = 65535 - 20 - 8"

text \<open>\<open>cks\<close> is the ones-complement checksum of a byte sequence from a start value.\<close>

type_synonym cksum = "byte list \<Rightarrow> nat \<Rightarrow> nat"

definition replyBody :: "byte list \<Rightarrow> byte list \<Rightarrow> nat \<Rightarrow> nat \<Rightarrow> byte list" where
  "replyBody uh payload off n =
    (if off < length uh then (let c = min n (length uh - off) in take c (drop off uh) @ take (n - c) payload)
     else slice (off - length uh) (off - length uh + n) payload)"

definition replyPacket :: "cksum \<Rightarrow> byte list \<Rightarrow> byte list \<Rightarrow> nat \<Rightarrow> nat \<Rightarrow> nat \<Rightarrow> nat \<Rightarrow> ip4 \<Rightarrow> ip4 \<Rightarrow> byte list" where
  "replyPacket cks uh payload off n ident ff src dst =
    (let hdr = (\<lambda>c. [0x45, 0] @ put16 (20 + n) @ put16 ident @ put16 ff @ [64, 17] @ c @ addr_bytes src @ addr_bytes dst)
     in hdr (put16 (65535 - cks (hdr [0, 0]) 0)) @ replyBody uh payload off n)"

function frag_offsets :: "nat \<Rightarrow> nat \<Rightarrow> nat \<Rightarrow> nat list" where
  "frag_offsets step udpLen off =
    (if step = 0 \<or> udpLen \<le> off then [] else off # frag_offsets step udpLen (off + step))"
  by auto
termination by (relation "measure (\<lambda>(step, udpLen, off). udpLen - off)") auto

declare frag_offsets.simps [simp del]

definition udpHeader :: "cksum \<Rightarrow> (ip4 \<Rightarrow> ip4 \<Rightarrow> nat \<Rightarrow> nat) \<Rightarrow> ip4 \<times> nat \<Rightarrow> ip4 \<times> nat \<Rightarrow> byte list \<Rightarrow> byte list" where
  "udpHeader cks pseudo from_a to_a payload =
    (let udpLen = 8 + length payload;
         h0 = put16 (snd from_a) @ put16 (snd to_a) @ put16 udpLen;
         x = 65535 - cks payload (cks (h0 @ [0, 0]) (pseudo (fst from_a) (fst to_a) udpLen))
     in h0 @ put16 (if x = 0 then 65535 else x))"

definition buildUDPReply :: "cksum \<Rightarrow> (ip4 \<Rightarrow> ip4 \<Rightarrow> nat \<Rightarrow> nat) \<Rightarrow> ip4 \<times> nat \<Rightarrow> ip4 \<times> nat \<Rightarrow> byte list \<Rightarrow> int
    \<Rightarrow> nat \<Rightarrow> byte list list option" where
  "buildUDPReply cks pseudo from_a to_a payload mtu nextID =
    (if maxUDPPayload < length payload then None
     else let uh = udpHeader cks pseudo from_a to_a payload; udpLen = 8 + length payload in
       if int (20 + udpLen) \<le> mtu
       then Some [replyPacket cks uh payload 0 udpLen 0 0 (fst from_a) (fst to_a)]
       else let step = (mtu - 20) div 8 * 8 in
         if step < 8 then None
         else Some (map (\<lambda>off. let n = min (nat step) (udpLen - off);
                             ff = off div 8 + (if off + n < udpLen then 8192 else 0)
                           in replyPacket cks uh payload off n nextID ff (fst from_a) (fst to_a))
                     (frag_offsets (nat step) udpLen 0)))"

section \<open>Bounds of parsing\<close>

lemma length_slice [simp]: "b \<le> length xs \<Longrightarrow> length (slice a b xs) = b - a"
  by (simp add: slice_def)

lemma info_sel [simp]:
  "pi_proto (with_ports t i) = pi_proto i" "pi_ihl (with_ports t i) = pi_ihl i" "pi_total (with_ports t i) = pi_total i"
  "pi_frag (with_ports t i) = pi_frag i" "pi_ports (with_ports t i) = pi_ports i"
  "pi_proto (with_udp t i) = pi_proto i" "pi_ihl (with_udp t i) = pi_ihl i" "pi_total (with_udp t i) = pi_total i"
  "pi_frag (with_udp t i) = pi_frag i" "pi_ports (with_udp t i)"
  "pi_ihl (ip_info b ihl tot) = ihl" "pi_total (ip_info b ihl tot) = tot" "\<not> pi_ports (ip_info b ihl tot)"
  "\<not> pi_frag (ip_info b ihl tot)"
  by (simp_all add: with_ports_def with_udp_def ip_info_def)

lemma parse_fragment_sel:
  "pi_ihl (parse_fragment ff t i) = pi_ihl i" "pi_total (parse_fragment ff t i) = pi_total i"
  "pi_frag (parse_fragment ff t i)" "pi_proto (parse_fragment ff t i) = pi_proto i"
  "\<not> pi_ports i \<Longrightarrow> pi_ports (parse_fragment ff t i) \<Longrightarrow> 8 \<le> length t \<and> pi_proto i = protoUDP"
  by (auto simp: parse_fragment_def Let_def split: if_splits)

lemma parse_transport_sel:
  assumes "parse_transport t i = Some i'" and "\<not> pi_ports i"
  shows "pi_ihl i' = pi_ihl i" "pi_total i' = pi_total i" "pi_proto i' = pi_proto i"
    "pi_ports i' \<Longrightarrow> 8 \<le> length t \<and> pi_proto i = protoUDP" "pi_proto i = protoTCP \<Longrightarrow> 20 \<le> length t"
  using assms by (auto simp: parse_transport_def Let_def protoTCP_def protoUDP_def split: if_splits)

text \<open>what the parser accepts is safe to index.  The header lengths nest inside the packet, ports are
  only reported where eight transport bytes are there, and the payload bounds of a UDP packet lie
  inside it, so none of the engine's slices can go out of range.\<close>

theorem parseIPv4_bounds:
  assumes "parseIPv4 b = Some info"
  shows "20 \<le> pi_ihl info \<and> pi_ihl info \<le> pi_total info \<and> pi_total info \<le> length b \<and>
    (pi_ports info \<longrightarrow> pi_ihl info + 8 \<le> pi_total info \<and> pi_proto info = protoUDP) \<and>
    (pi_frag info \<or> pi_proto info \<noteq> protoTCP \<or> pi_ihl info + 20 \<le> pi_total info) \<and>
    (case udpPayload info of None \<Rightarrow> True | Some (lo, hi) \<Rightarrow> lo \<le> hi \<and> hi \<le> length b)"
proof -
  define ihl tot where "ihl = unat (b ! 0) mod 16 * 4" and "tot = be16 (slice 2 4 b)"
  define t ff i where "t = drop ihl (take tot b)" and "ff = be16 (slice 6 8 (take tot b))"
    and "i = ip_info (take tot b) ihl tot"
  have h: "20 \<le> ihl" "ihl \<le> tot" "tot \<le> length b" "length t = tot - ihl"
    and r: "info = parse_fragment ff t i \<or> parse_transport t i = Some info"
    using assms unfolding parseIPv4_def ihl_def [symmetric] tot_def [symmetric] Let_def t_def ff_def i_def
    by (auto split: if_splits simp del: not_less simp: not_less [symmetric])
  have i: "pi_ihl i = ihl" "pi_total i = tot" "\<not> pi_ports i" by (simp_all add: i_def)
  have *: "20 \<le> pi_ihl info \<and> pi_ihl info \<le> pi_total info \<and> pi_total info \<le> length b \<and>
    (pi_ports info \<longrightarrow> pi_ihl info + 8 \<le> pi_total info \<and> pi_proto info = protoUDP) \<and>
    (pi_frag info \<or> pi_proto info \<noteq> protoTCP \<or> pi_ihl info + 20 \<le> pi_total info)"
    using r
  proof
    assume f: "info = parse_fragment ff t i"
    show ?thesis using h i parse_fragment_sel(5) [of i ff t] by (auto simp: f parse_fragment_sel)
  next
    assume p: "parse_transport t i = Some info"
    show ?thesis using h i parse_transport_sel [OF p i(3)] by auto
  qed
  then show ?thesis by (auto simp: udpPayload_def split: if_splits)
qed

section \<open>Reading back what was built\<close>

lemma be16_put16: "n < 65536 \<Longrightarrow> be16 (put16 n @ r) = n"
  by (simp add: be16_def put16_def unat_of_nat take_bit_eq_mod)

lemma addr_bytes_length [simp]: "length (addr_bytes a) = 4" "length (put16 n) = 2"
  by (simp_all add: addr_bytes_def put16_def)

lemma replyBody_eq: "off \<le> length uh + length payload \<Longrightarrow> replyBody uh payload off n = take n (drop off (uh @ payload))"
  by (auto simp: replyBody_def slice_def Let_def min_def)

lemma uint_byte: "uint (word_of_int x :: byte) = x mod 256"
  by (simp add: uint_word_of_int)

lemma addr_round_trip: "addr_of (addr_bytes a @ r) = a"
proof -
  have ua: "0 \<le> uint a" "uint a < 4294967296" using uint_bounded [of a] by simp_all
  have e: "addr_bytes a @ r = word_of_int (uint a div 16777216) # word_of_int (uint a div 65536)
    # word_of_int (uint a div 256) # word_of_int (uint a) # r"
    by (simp add: addr_bytes_def)
  have "be32 (addr_bytes a @ r) = ((uint a div 16777216 mod 256 * 256 + uint a div 65536 mod 256) * 256
      + uint a div 256 mod 256) * 256 + uint a mod 256"
    unfolding e by (simp add: be32_def uint_byte unsigned_ucast_eq take_bit_eq_mod)
  also have "\<dots> = uint a" using ua by (rule base256)
  finally show ?thesis by (simp add: addr_of_def)
qed

lemma slice_append: "length xs = a \<Longrightarrow> slice a (a + k) (xs @ ys) = take k ys"
  by (simp add: slice_def)

lemma be16_take: "be16 (take 2 xs) = be16 xs" if "2 \<le> length xs"
  using that by (simp add: be16_def)

lemma addr_of_take: "addr_of (take 4 xs) = addr_of xs"
  by (simp add: addr_of_def be32_def)

text \<open>The twenty header bytes of a reply packet, by position.\<close>

definition reply_header :: "nat \<Rightarrow> nat \<Rightarrow> nat \<Rightarrow> byte list \<Rightarrow> ip4 \<Rightarrow> ip4 \<Rightarrow> byte list" where
  "reply_header n ident ff c src dst =
     [0x45, 0] @ put16 (20 + n) @ put16 ident @ put16 ff @ [64, 17] @ c @ addr_bytes src @ addr_bytes dst"

lemma reply_header_fields:
  assumes "length c = 2" and h_def: "h = reply_header n ident ff c src dst"
  shows "length h = 20" "h ! 0 = 0x45" "h ! 9 = 17"
    "slice 2 4 (h @ r) = put16 (20 + n)" "slice 4 6 (h @ r) = put16 ident" "slice 6 8 (h @ r) = put16 ff"
    "slice 12 16 (h @ r) = addr_bytes src" "slice 16 20 (h @ r) = addr_bytes dst"
proof -
  obtain c1 c2 where c: "c = [c1, c2]" using assms(1) by (auto simp: length_Suc_conv numeral_2_eq_2)
  show "length h = 20" "h ! 0 = 0x45" "h ! 9 = 17"
    "slice 2 4 (h @ r) = put16 (20 + n)" "slice 4 6 (h @ r) = put16 ident" "slice 6 8 (h @ r) = put16 ff"
    "slice 12 16 (h @ r) = addr_bytes src" "slice 16 20 (h @ r) = addr_bytes dst"
    unfolding h_def reply_header_def c by (simp_all add: slice_def put16_def addr_bytes_def)
qed

lemma parseIPv4_plain:
  assumes "length b = 20 + n" "b ! 0 = 0x45" "be16 (slice 2 4 b) = 20 + n"
  shows "parseIPv4 b = (let ff = be16 (slice 6 8 b) in
    if ff div 8192 mod 2 \<noteq> 0 \<or> ff mod 8192 \<noteq> 0 then Some (parse_fragment ff (drop 20 b) (ip_info b 20 (20 + n)))
    else parse_transport (drop 20 b) (ip_info b 20 (20 + n)))"
  using assms by (simp add: parseIPv4_def Let_def)

lemma parse_reply:
  assumes "length c = 2" and "n = length body" and "20 + n < 65536" and "ident < 65536" and "ff < 16384"
    and "ff = 0 \<longrightarrow> 8 \<le> n"
  shows "\<exists>info. parseIPv4 (reply_header n ident ff c src dst @ body) = Some info \<and> pi_src info = src \<and>
    pi_dst info = dst \<and> pi_proto info = protoUDP \<and> pi_ihl info = 20 \<and> pi_total info = 20 + n \<and> pi_id info = ident \<and>
    pi_fragOff info = ff mod 8192 * 8 \<and> pi_more info = (ff div 8192 = 1)"
proof -
  let ?h = "reply_header n ident ff c src dst"
  let ?b = "?h @ body"
  note f = reply_header_fields [OF assms(1) refl, of n ident ff src dst]
  have b16: "m < 65536 \<Longrightarrow> be16 (put16 m) = m" for m using be16_put16 [of m "[]"] by simp
  have len: "length ?b = 20 + n" using f(1) assms(2) by simp
  have b0: "?b ! 0 = 0x45" and b9: "?b ! 9 = 17" using f(1-3) by (simp_all add: nth_append)
  have tot: "be16 (slice 2 4 ?b) = 20 + n" using f(4) b16 assms(3) by simp
  have a: "addr_of (addr_bytes x) = x" for x using addr_round_trip [of x "[]"] by simp
  have d: "drop 20 ?b = body" "take (20 + n) ?b = ?b" using f(1) len by simp_all
  have ffv: "be16 (slice 6 8 ?b) = ff" using f(6) b16 assms(5) by simp
  define i where "i = ip_info ?b 20 (20 + n)"
  have i: "pi_src i = src" "pi_dst i = dst" "pi_proto i = protoUDP" "pi_id i = ident" "pi_fragOff i = 0"
    "\<not> pi_more i" "\<not> pi_frag i"
    using f(5,7,8) a b16 assms(4) b9 by (simp_all add: i_def ip_info_def protoUDP_def)
  have wu: "pi_src (with_udp t j) = pi_src j" "pi_dst (with_udp t j) = pi_dst j" "pi_id (with_udp t j) = pi_id j"
    "pi_fragOff (with_udp t j) = pi_fragOff j" "pi_more (with_udp t j) = pi_more j" for t j
    by (simp_all add: with_udp_def with_ports_def)
  have lt2: "ff div 8192 < 2" using assms(5) by (simp add: div_less_iff_less_mult)
  then have d16: "ff div 8192 mod 2 = ff div 8192" "ff div 8192 = 0 \<or> ff div 8192 = 1"
    by simp (use lt2 in linarith)
  have p: "parseIPv4 ?b = (if ff div 8192 \<noteq> 0 \<or> ff mod 8192 \<noteq> 0 then Some (parse_fragment ff body i)
      else parse_transport body i)"
    using parseIPv4_plain [OF len b0 tot] unfolding Let_def ffv d(1) d16(1) i_def [symmetric] .
  show ?thesis
  proof (cases "ff = 0")
    case True
    then have "parseIPv4 ?b = Some (with_udp body i)"
      using p assms(2,6) i by (simp add: parse_transport_def protoTCP_def protoUDP_def)
    then show ?thesis using i True by (simp add: wu i_def)
  next
    case False
    then have nz: "ff div 8192 \<noteq> 0 \<or> ff mod 8192 \<noteq> 0"
      by (metis add.right_neutral mult_0_right mult_div_mod_eq)
    show ?thesis
      unfolding p using nz i d16(2) by (auto simp: parse_fragment_def Let_def wu i_def)
  qed
qed

section \<open>Fragmentation\<close>

lemma frag_offsets_step: "0 < step \<Longrightarrow> off < len \<Longrightarrow> frag_offsets step len off = off # frag_offsets step len (off + step)"
  by (subst frag_offsets.simps) simp

lemma frag_offsets_end: "len \<le> off \<Longrightarrow> frag_offsets step len off = []"
  by (subst frag_offsets.simps) simp

text \<open>The pieces of \<open>data\<close> at the offsets, put one after the other, are \<open>data\<close>.\<close>

lemma frag_pieces:
  assumes "0 < step" and "off \<le> length data"
  shows "concat (map (\<lambda>o'. take (min step (length data - o')) (drop o' data)) (frag_offsets step (length data) off)) = drop off data"
  using assms(2)
proof (induction "length data - off" arbitrary: off rule: less_induct)
  case less
  show ?case
  proof (cases "off < length data")
    case True
    show ?thesis
    proof (cases "off + step \<le> length data")
      case le: True
      have ih: "concat (map (\<lambda>o'. take (min step (length data - o')) (drop o' data))
          (frag_offsets step (length data) (off + step))) = drop (off + step) data"
        using less.hyps [of "off + step"] True assms(1) le by simp
      have "take step (drop off data) @ drop (off + step) data = drop off data"
        by (metis add.commute append_take_drop_id drop_drop)
      then show ?thesis
        using ih le True assms(1) by (simp add: frag_offsets_step min_def)
    next
      case False
      then show ?thesis
        using True assms(1) by (simp add: frag_offsets_step frag_offsets_end min_def)
    qed
  qed (simp add: frag_offsets_end)
qed

lemma frag_offsets_nonempty: "o' \<in> set (frag_offsets step len off) \<Longrightarrow> 0 < step \<and> off < len"
  by (subst (asm) frag_offsets.simps) (auto split: if_splits)

lemma frag_offsets_mem:
  "o' \<in> set (frag_offsets step len off) \<Longrightarrow> off \<le> o' \<and> o' < len \<and> (\<exists>k. o' = off + k * step)"
proof (induction step len off rule: frag_offsets.induct)
  case (1 step len off)
  then have pos: "0 < step" "off < len" using frag_offsets_nonempty by blast+
  consider "o' = off" | "o' \<in> set (frag_offsets step len (off + step))"
    using 1(2) by (auto simp: frag_offsets_step pos)
  then show ?case
  proof cases
    case 2
    with 1(1) pos obtain k where "off + step \<le> o'" "o' < len" "o' = off + step + k * step"
      by auto
    then show ?thesis by (intro conjI exI [of _ "Suc k"]) auto
  qed (use pos in auto)
qed

text \<open>Each offset is where the pieces before it end.\<close>

lemma frag_offsets_nth:
  "i < length (frag_offsets step len off) \<Longrightarrow> frag_offsets step len off ! i = off + i * step"
proof (induction i arbitrary: off)
  case 0
  then have "frag_offsets step len off ! 0 \<in> set (frag_offsets step len off)" by (rule nth_mem)
  then have "0 < step" "off < len" by (blast dest: frag_offsets_nonempty)+
  then show ?case by (simp add: frag_offsets_step)
next
  case (Suc i)
  then have "frag_offsets step len off ! Suc i \<in> set (frag_offsets step len off)" by (intro nth_mem)
  then have pos: "0 < step" "off < len" using frag_offsets_nonempty by blast+
  with Suc show ?case by (simp add: frag_offsets_step)
qed

lemma frag_offsets_length: "0 < step \<Longrightarrow> i < length (frag_offsets step len off) \<longleftrightarrow> off + i * step < len"
proof (induction i arbitrary: off)
  case 0
  then show ?case by (cases "off < len") (simp_all add: frag_offsets_step frag_offsets_end)
next
  case (Suc i)
  then show ?case by (cases "off < len") (simp_all add: frag_offsets_step frag_offsets_end add.assoc)
qed

lemma udpHeader_length [simp]: "length (udpHeader cks pseudo f t p) = 8"
  by (simp add: udpHeader_def Let_def)

lemma replyPacket_eq:
  assumes "off \<le> length uh + length payload"
  shows "\<exists>c. length c = 2 \<and> replyPacket cks uh payload off n ident ff src dst =
    reply_header n ident ff c src dst @ take n (drop off (uh @ payload))"
  unfolding replyPacket_def Let_def replyBody_eq [OF assms]
  by (rule exI [of _ "put16 x" for x]) (simp add: reply_header_def)

lemma replyPacket_parses:
  fixes src dst :: ip4 and cks :: cksum
  assumes off: "off + n \<le> length uh + length payload" "20 + n < 65536"
    and "ident < 65536" "ff < 16384" "ff = 0 \<longrightarrow> 8 \<le> n"
  defines "p \<equiv> replyPacket cks uh payload off n ident ff src dst"
  shows "length p = 20 + n" "drop 20 p = take n (drop off (uh @ payload))"
    "\<exists>info. parseIPv4 p = Some info \<and> pi_src info = src \<and> pi_dst info = dst \<and> pi_proto info = protoUDP \<and>
      pi_id info = ident \<and> pi_ihl info = 20 \<and> pi_total info = 20 + n \<and>
      pi_fragOff info = ff mod 8192 * 8 \<and> pi_more info = (ff div 8192 = 1)"
proof -
  obtain c where c: "length c = 2" "p = reply_header n ident ff c src dst @ take n (drop off (uh @ payload))"
    using replyPacket_eq [of off uh payload] off(1) unfolding p_def by force
  note h = reply_header_fields(1) [OF c(1) refl]
  show "length p = 20 + n" "drop 20 p = take n (drop off (uh @ payload))"
    using off(1) by (simp_all add: c(2) h)
  have nb: "n = length (take n (drop off (uh @ payload)))" using off(1) by simp
  show "\<exists>info. parseIPv4 p = Some info \<and> pi_src info = src \<and> pi_dst info = dst \<and> pi_proto info = protoUDP \<and>
      pi_id info = ident \<and> pi_ihl info = 20 \<and> pi_total info = 20 + n \<and>
      pi_fragOff info = ff mod 8192 * 8 \<and> pi_more info = (ff div 8192 = 1)"
    unfolding c(2) using parse_reply [OF c(1) nb off(2) assms(3-5), of src dst] by blast
qed

text \<open>What a receiver needs of a list of packets to put \<open>body\<close> back together: packet \<open>i\<close> parses, comes
  from \<open>src\<close> to \<open>dst\<close> under one identification, starts where the ones before it end, and only the
  last one has no more to follow.\<close>

definition reassembles :: "ip4 \<Rightarrow> ip4 \<Rightarrow> nat \<Rightarrow> byte list \<Rightarrow> byte list list \<Rightarrow> bool" where
  "reassembles src dst ident body ps \<longleftrightarrow> ps \<noteq> [] \<and> concat (map (drop 20) ps) = body \<and>
     (\<forall>i < length ps. \<exists>info. parseIPv4 (ps ! i) = Some info \<and> pi_src info = src \<and> pi_dst info = dst \<and>
        pi_proto info = protoUDP \<and> pi_id info = ident \<and> pi_ihl info = 20 \<and> pi_total info = length (ps ! i) \<and>
        pi_fragOff info = length (concat (map (drop 20) (take i ps))) \<and> pi_more info = (Suc i < length ps))"

lemma reassembles_single:
  assumes "length uh = 8" "length payload \<le> maxUDPPayload"
  shows "reassembles src dst 0 (uh @ payload) [replyPacket cks uh payload 0 (8 + length payload) 0 0 src dst]"
proof -
  have "20 + (8 + length payload) < (65536::nat)" using assms by (simp add: maxUDPPayload_def)
  note p = replyPacket_parses [OF _ this, of 0 uh payload 0 0 cks src dst]
  show ?thesis using p assms(1) by (auto simp: reassembles_def)
qed

lemma reassembles_pieces:
  fixes src dst :: ip4 and cks :: cksum
  assumes uh: "length uh = 8" and len: "length payload \<le> maxUDPPayload"
    and step: "8 dvd step" "8 \<le> step" "step < 8 + length payload" and ident: "ident < 65536"
  defines "len \<equiv> 8 + length payload"
  defines "piece \<equiv> (\<lambda>off. let n = min step (len - off); ff = off div 8 + (if off + n < len then 8192 else 0)
      in replyPacket cks uh payload off n ident ff src dst)"
  defines "offs \<equiv> frag_offsets step len 0"
  shows "reassembles src dst ident (uh @ payload) (map piece offs)"
    and "q \<in> set (map piece offs) \<Longrightarrow> length q \<le> 20 + step"
proof -
  have pos: "0 < step" and udp: "length (uh @ payload) = len" "len \<le> 65515"
    using step uh len by (simp_all add: len_def maxUDPPayload_def)
  have inr: "i < length offs \<longleftrightarrow> i * step < len" for i
    using frag_offsets_length [OF pos, of i len 0] by (simp add: offs_def)
  have nth: "i < length offs \<Longrightarrow> offs ! i = i * step" for i
    using frag_offsets_nth [of i step len 0] by (simp add: offs_def)
  have dv: "8 dvd i * step" for i using step(1) by (rule dvd_mult)
  have one: "length (piece (i * step)) = 20 + min step (len - i * step) \<and>
      drop 20 (piece (i * step)) = take (min step (len - i * step)) (drop (i * step) (uh @ payload)) \<and>
      (\<exists>info. parseIPv4 (piece (i * step)) = Some info \<and> pi_src info = src \<and> pi_dst info = dst \<and>
        pi_proto info = protoUDP \<and> pi_id info = ident \<and> pi_ihl info = 20 \<and> pi_total info = length (piece (i * step)) \<and>
        pi_fragOff info = i * step \<and> pi_more info = (Suc i < length offs))" if i: "i * step < len" for i
  proof -
    define off n more where "off = i * step" and "n = min step (len - off)" and "more = (off + n < len)"
    define ff where "ff = off div 8 + (if more then 8192 else 0)"
    have o8: "off div 8 < 8192" "off div 8 * 8 = off" using i udp(2) dv [of i] by (auto simp: off_def)
    have ff: "ff mod 8192 = off div 8" "ff div 8192 = (if more then 1 else 0)" "ff < 16384"
      using o8(1) by (auto simp: ff_def)
    have z: "8 \<le> n" if "ff = 0"
    proof -
      have "off = 0" using that o8 by (auto simp: ff_def split: if_splits)
      then show ?thesis using step len_def by (simp add: n_def)
    qed
    have m: "more \<longleftrightarrow> Suc i < length offs" by (auto simp: more_def n_def off_def inr)
    have b: "off + n \<le> length uh + length payload" "20 + n < 65536"
      using i udp uh by (auto simp: n_def off_def len_def)
    note r = replyPacket_parses [OF b ident ff(3), of cks src dst]
    have pc: "piece off = replyPacket cks uh payload off n ident ff src dst"
      by (simp add: piece_def Let_def n_def ff_def more_def)
    show ?thesis
      using r z ff o8(2) m unfolding off_def [symmetric] n_def [symmetric] pc by auto
  qed
  have full: "length (concat (map (drop 20) (take i (map piece offs)))) = i * step" if "i < length offs" for i
    using that
  proof (induction i)
    case (Suc i)
    then have le: "i < length offs" "Suc i * step < len" using inr by auto
    then have "min step (len - i * step) = step" by simp
    then have "length (piece (i * step)) = 20 + step" using one [of i] le inr by simp
    then have "length (drop 20 (piece (i * step))) = step" by simp
    then show ?case using Suc le by (simp add: take_Suc_conv_app_nth nth)
  qed simp
  have all: "concat (map (drop 20) (map piece offs)) = uh @ payload"
  proof -
    have "map (drop 20) (map piece offs) = map (\<lambda>o'. take (min step (len - o')) (drop o' (uh @ payload))) offs"
      by (rule nth_equalityI) (use one inr nth in auto)
    then show ?thesis using frag_pieces [OF pos le0, of "uh @ payload"] unfolding udp(1) offs_def drop_0 by (simp only:)
  qed
  show "reassembles src dst ident (uh @ payload) (map piece offs)"
    unfolding reassembles_def
  proof (intro conjI allI impI)
    show "map piece offs \<noteq> []" using inr [of 0] by (auto simp: len_def)
    fix i assume "i < length (map piece offs)"
    then have i: "i < length offs" "i * step < len" using inr by auto
    show "\<exists>info. parseIPv4 (map piece offs ! i) = Some info \<and> pi_src info = src \<and> pi_dst info = dst \<and>
        pi_proto info = protoUDP \<and> pi_id info = ident \<and> pi_ihl info = 20 \<and> pi_total info = length (map piece offs ! i) \<and>
        pi_fragOff info = length (concat (map (drop 20) (take i (map piece offs)))) \<and>
        pi_more info = (Suc i < length (map piece offs))"
      unfolding full [OF i(1)] nth_map [OF i(1)] nth [OF i(1)] length_map using one [OF i(2)] by blast
  qed (rule all)
  assume "q \<in> set (map piece offs)"
  then obtain i where "i < length offs" "q = piece (i * step)" using nth by (auto simp: in_set_conv_nth)
  then show "length q \<le> 20 + step" using one [of i] inr by simp
qed

text \<open>C23: a reply the engine injects arrives whole.  The packets parse as UDP from the peer to the app,
  none is longer than the MTU, and reassembling them by offset gives the UDP header followed by the
  payload, whatever the checksum function; only a payload no datagram holds or an MTU with no room
  for eight bytes is refused.\<close>

theorem buildUDPReply_reassembles:
  assumes ident: "nextID < 65536"
  shows "case buildUDPReply cks pseudo src dst payload mtu nextID of
      None \<Rightarrow> maxUDPPayload < length payload \<or> mtu < 28
    | Some ps \<Rightarrow> reassembles (fst src) (fst dst) (if length ps = 1 then 0 else nextID)
          (udpHeader cks pseudo src dst payload @ payload) ps \<and>
        (\<forall>p \<in> set ps. int (length p) \<le> mtu)"
proof -
  let ?uh = "udpHeader cks pseudo src dst payload"
  define step where "step = (mtu - 20) div 8 * 8"
  consider "maxUDPPayload < length payload" | "length payload \<le> maxUDPPayload" "int (28 + length payload) \<le> mtu"
    | "length payload \<le> maxUDPPayload" "mtu < int (28 + length payload)" "step < 8"
    | "length payload \<le> maxUDPPayload" "mtu < int (28 + length payload)" "8 \<le> step"
    by linarith
  then show ?thesis
  proof cases
    case 2
    then show ?thesis using reassembles_single [where uh = ?uh and payload = payload and cks = cks and src = "fst src" and dst = "fst dst"]
        replyPacket_parses(1) [where off = 0 and n = "8 + length payload" and uh = ?uh and payload = payload and ident = 0
          and ff = 0 and cks = cks and src = "fst src" and dst = "fst dst"]
      by (simp add: buildUDPReply_def Let_def maxUDPPayload_def)
  next
    case 3
    then have "mtu < 28" unfolding step_def by presburger
    then show ?thesis using 3 by (simp add: buildUDPReply_def Let_def step_def [symmetric])
  next
    case 4
    then have st: "8 dvd nat step" "8 \<le> nat step" "nat step < 8 + length payload" "step \<le> mtu - 20"
      by (auto simp: step_def nat_mult_distrib)
    have len2: "length (frag_offsets (nat step) (8 + length payload) 0) \<noteq> 1"
      using frag_offsets_length [of "nat step" 1 "8 + length payload" 0] st(2,3) by linarith
    define ps where "ps = map (\<lambda>off. let n = min (nat step) (8 + length payload - off);
        ff = off div 8 + (if off + n < 8 + length payload then 8192 else 0)
      in replyPacket cks ?uh payload off n nextID ff (fst src) (fst dst)) (frag_offsets (nat step) (8 + length payload) 0)"
    have e: "buildUDPReply cks pseudo src dst payload mtu nextID = Some ps"
      using 4 by (simp add: buildUDPReply_def Let_def step_def [symmetric] ps_def)
    have "reassembles (fst src) (fst dst) nextID (?uh @ payload) ps"
      unfolding ps_def by (rule reassembles_pieces(1) [OF _ 4(1) st(1-3) ident]) simp
    moreover have "int (length p) \<le> mtu" if "p \<in> set ps" for p
    proof -
      have "length p \<le> 20 + nat step"
        using that unfolding ps_def by (intro reassembles_pieces(2) [OF _ 4(1) st(1-3) ident]) simp_all
      then show ?thesis using st(4) 4(3) by simp
    qed
    moreover have "length ps \<noteq> 1" using len2 by (simp add: ps_def)
    ultimately show ?thesis unfolding e by simp
  qed (simp add: buildUDPReply_def)
qed

text \<open>A 30-byte payload at MTU 36 goes out in three packets of 16, 16 and 6 body bytes.\<close>

theorem buildUDPReply_reassembles_witness:
  "\<exists>ps. buildUDPReply (\<lambda>_ _. 7) (\<lambda>_ _ _. 0) (0x01020304, 53) (0x0A000002, 4000) (replicate 30 9) 36 77 = Some ps \<and>
     length ps = 3 \<and>
     reassembles 0x01020304 0x0A000002 77 (udpHeader (\<lambda>_ _. 7) (\<lambda>_ _ _. 0) (0x01020304, 53) (0x0A000002, 4000) (replicate 30 9)
       @ replicate 30 9) ps"
proof -
  let ?r = "buildUDPReply (\<lambda>_ _. 7) (\<lambda>_ _ _. 0) (0x01020304, 53) (0x0A000002, 4000) (replicate 30 9) 36 77"
  have offs: "frag_offsets 16 38 0 = [0, 16, 32]" by code_simp
  obtain ps where ps: "?r = Some ps" "length ps = 3"
    by (simp add: buildUDPReply_def Let_def maxUDPPayload_def offs)
  then show ?thesis
    using buildUDPReply_reassembles [where nextID = 77 and cks = "\<lambda>_ _. 7" and pseudo = "\<lambda>_ _ _. 0" and
        src = "(0x01020304, 53)" and dst = "(0x0A000002, 4000)" and payload = "replicate 30 9" and mtu = 36]
    by simp
qed

text \<open>A 28-byte UDP packet with a 20-byte header: ports and payload bounds.\<close>

theorem parseIPv4_bounds_witness:
  "\<exists>info. parseIPv4 ([0x45, 0, 0, 29, 0, 1, 0, 0, 64, 17, 0, 0, 10, 0, 0, 2, 8, 8, 8, 8, 0, 80, 0, 53, 0, 9, 0, 0, 1]) = Some info \<and>
    pi_ihl info + 8 \<le> pi_total info \<and> udpPayload info = Some (28, 29)"
proof -
  let ?b = "[0x45, 0, 0, 29, 0, 1, 0, 0, 64, 17, 0, 0, 10, 0, 0, 2, 8, 8, 8, 8, 0, 80, 0, 53, 0, 9, 0, 0, 1] :: byte list"
  have "map_option pi_ports (parseIPv4 ?b) = Some True" "map_option udpPayload (parseIPv4 ?b) = Some (Some (28, 29))"
    by (simp_all add: parseIPv4_def be16_def slice_def parse_transport_def with_udp_def with_ports_def ip_info_def
        protoTCP_def protoUDP_def udpPayload_def Let_def)
  then obtain info where i: "parseIPv4 ?b = Some info" "pi_ports info" "udpPayload info = Some (28, 29)" by auto
  with parseIPv4_bounds [OF i(1)] show ?thesis by blast
qed

end
