(* ===== verification/Flow_Cache.thy ===== *)
theory Flow_Cache
  imports Packet "HOL-Library.Sublist"
begin

text \<open>splittunnel/cache.go and the peer table of udpsession.go: bounded containers made of a Go map and a
  linked list that must name the same elements.  A list element is the entry it holds; removing
  an element removes that entry.  Times are nanoseconds.\<close>

type_synonym time = int

record flow_key =
  fk_port :: nat
  fk_dst :: "ip4 \<times> nat"

section \<open>A map and a list of the same entries\<close>

record ('k, 'e) klist =
  kl_m :: "'k \<Rightarrow> 'e option"
  kl_l :: "'e list"

definition kl_empty :: "('k, 'e) klist" where
  "kl_empty = \<lparr>kl_m = Map.empty, kl_l = []\<rparr>"

text \<open>l.Remove(el) with delete(m, key).\<close>

definition kl_drop :: "('e \<Rightarrow> 'k) \<Rightarrow> 'e \<Rightarrow> ('k, 'e) klist \<Rightarrow> ('k, 'e) klist" where
  "kl_drop key e c = \<lparr>kl_m = (kl_m c)(key e := None), kl_l = remove1 e (kl_l c)\<rparr>"

text \<open>m[key] = l.PushBack(e).\<close>

definition kl_push :: "('e \<Rightarrow> 'k) \<Rightarrow> 'e \<Rightarrow> ('k, 'e) klist \<Rightarrow> ('k, 'e) klist" where
  "kl_push key e c = \<lparr>kl_m = (kl_m c)(key e \<mapsto> e), kl_l = kl_l c @ [e]\<rparr>"

text \<open>The loop that removes the front element while the list is at \<open>max\<close>, when there is a bound.\<close>

fun kl_evict :: "('e \<Rightarrow> 'k) \<Rightarrow> int \<Rightarrow> ('k \<Rightarrow> 'e option) \<Rightarrow> 'e list \<Rightarrow> ('k, 'e) klist" where
  "kl_evict key mx m [] = \<lparr>kl_m = m, kl_l = []\<rparr>"
| "kl_evict key mx m (e # es) = (if 0 < mx \<and> mx \<le> int (length (e # es)) then kl_evict key mx (m(key e := None)) es
     else \<lparr>kl_m = m, kl_l = e # es\<rparr>)"

definition kl_wf :: "('e \<Rightarrow> 'k) \<Rightarrow> ('k, 'e) klist \<Rightarrow> bool" where
  "kl_wf key c \<longleftrightarrow> distinct (map key (kl_l c)) \<and>
     (\<forall>k e. kl_m c k = Some e \<longleftrightarrow> e \<in> set (kl_l c) \<and> key e = k)"

named_theorems kl_simps "the components of the container operations"

lemma kl_drop_sel [kl_simps]: "kl_m (kl_drop key e c) = (kl_m c)(key e := None)" "kl_l (kl_drop key e c) = remove1 e (kl_l c)"
  by (simp_all add: kl_drop_def)

lemma kl_push_sel [kl_simps]: "kl_m (kl_push key e c) = (kl_m c)(key e \<mapsto> e)" "kl_l (kl_push key e c) = kl_l c @ [e]"
  by (simp_all add: kl_push_def)

lemma kl_eta [simp]: "\<lparr>kl_m = kl_m c, kl_l = kl_l c\<rparr> = c"
  by simp

lemma kl_wf_empty [simp]: "kl_wf key kl_empty"
  by (simp add: kl_wf_def kl_empty_def)

lemma kl_wfD: "kl_wf key c \<Longrightarrow> kl_m c k = Some e \<longleftrightarrow> e \<in> set (kl_l c) \<and> key e = k"
  by (simp add: kl_wf_def)

lemma kl_wf_key: "kl_wf key c \<Longrightarrow> kl_m c k = Some e \<Longrightarrow> key e = k"
  by (simp add: kl_wf_def)

lemma kl_wf_inj: "kl_wf key c \<Longrightarrow> a \<in> set (kl_l c) \<Longrightarrow> b \<in> set (kl_l c) \<Longrightarrow> key a = key b \<Longrightarrow> a = b"
  by (metis kl_wfD option.inject)

lemma kl_wf_None:
  assumes "kl_wf key c"
  shows "kl_m c k = None \<longleftrightarrow> k \<notin> key ` set (kl_l c)"
proof -
  have "\<forall>e. kl_m c k = Some e \<longleftrightarrow> e \<in> set (kl_l c) \<and> key e = k" by (simp add: kl_wfD [OF assms])
  then show ?thesis by (cases "kl_m c k") (auto simp: image_iff)
qed

lemma kl_wf_drop:
  assumes wf: "kl_wf key c" and e: "e \<in> set (kl_l c)"
  shows "kl_wf key (kl_drop key e c)"
proof -
  have d: "distinct (map key (kl_l c))" using wf by (simp add: kl_wf_def)
  then have dl: "distinct (kl_l c)" by (simp add: distinct_map)
  have "distinct (map key (remove1 e (kl_l c)))"
    using d by (auto simp: distinct_map distinct_remove1 intro: inj_on_subset set_remove1_subset)
  moreover have "((kl_m c)(key e := None)) k = Some x \<longleftrightarrow> x \<in> set (remove1 e (kl_l c)) \<and> key x = k" for k x
    using kl_wfD [OF wf, of k x] kl_wf_inj [OF wf _ e, of x] dl by auto
  ultimately show ?thesis by (simp add: kl_wf_def kl_simps)
qed

lemma kl_wf_push:
  assumes "kl_wf key c" and "key e \<notin> key ` set (kl_l c)"
  shows "kl_wf key (kl_push key e c)"
proof -
  have "((kl_m c)(key e \<mapsto> e)) k = Some x \<longleftrightarrow> x \<in> set (kl_l c @ [e]) \<and> key x = k" for k x
    using kl_wfD [OF assms(1), of k x] assms(2) by (cases "k = key e") (auto simp: image_iff)
  then show ?thesis using assms by (simp add: kl_wf_def kl_simps)
qed

lemma kl_wf_tail: "kl_wf key \<lparr>kl_m = m, kl_l = e # es\<rparr> \<Longrightarrow> kl_wf key \<lparr>kl_m = m(key e := None), kl_l = es\<rparr>"
  using kl_wf_drop [of key "\<lparr>kl_m = m, kl_l = e # es\<rparr>" e] by (simp add: kl_drop_def)

lemma kl_evict_Cons:
  "0 < mx \<and> mx \<le> int (length (e # es)) \<Longrightarrow> kl_evict key mx m (e # es) = kl_evict key mx (m(key e := None)) es"
  "\<not> (0 < mx \<and> mx \<le> int (length (e # es))) \<Longrightarrow> kl_evict key mx m (e # es) = \<lparr>kl_m = m, kl_l = e # es\<rparr>"
  by (simp_all only: kl_evict.simps simp_thms if_True if_False)

declare kl_evict.simps(2) [simp del]

text \<open>Eviction keeps a suffix of the list, with room for one more.\<close>

lemma kl_evict_spec:
  "kl_wf key \<lparr>kl_m = m, kl_l = l\<rparr> \<Longrightarrow> kl_wf key (kl_evict key mx m l) \<and> suffix (kl_l (kl_evict key mx m l)) l \<and>
    (0 < mx \<longrightarrow> int (length (kl_l (kl_evict key mx m l))) < mx)"
proof (induction l arbitrary: m)
  case (Cons e es)
  show ?case
  proof (cases "0 < mx \<and> mx \<le> int (length (e # es))")
    case True
    show ?thesis
      unfolding kl_evict_Cons(1) [OF True] using Cons.IH [OF kl_wf_tail [OF Cons.prems]] by (blast intro: suffix_ConsI)
  next
    case False
    show ?thesis unfolding kl_evict_Cons(2) [OF False] using False Cons.prems by auto
  qed
qed simp

lemma kl_evict_room: "\<not> (0 < mx \<and> mx \<le> int (length l)) \<Longrightarrow> kl_evict key mx m l = \<lparr>kl_m = m, kl_l = l\<rparr>"
  by (cases l) (simp_all add: kl_evict_Cons)

lemma kl_evict_id: "int (length l) < mx \<Longrightarrow> kl_evict key mx m l = \<lparr>kl_m = m, kl_l = l\<rparr>"
  by (rule kl_evict_room) simp

lemma kl_wf_mono: "kl_wf key a \<Longrightarrow> kl_wf key b \<Longrightarrow> set (kl_l a) \<subseteq> set (kl_l b) \<Longrightarrow> kl_m a k = Some e \<Longrightarrow> kl_m b k = Some e"
  by (simp add: kl_wfD subset_iff)

section \<open>The verdict caches\<close>

record cache_entry =
  ce_key :: flow_key
  ce_isn :: int
  ce_expires :: time

record fifo_cache =
  fc_max :: int
  fc_kl :: "(flow_key, cache_entry) klist"

definition fc_init :: "int \<Rightarrow> fifo_cache" where
  "fc_init mx = \<lparr>fc_max = mx, fc_kl = kl_empty\<rparr>"

definition fc_get :: "fifo_cache \<Rightarrow> flow_key \<Rightarrow> time \<Rightarrow> fifo_cache \<times> cache_entry option" where
  "fc_get c k t = (case kl_m (fc_kl c) k of
       None \<Rightarrow> (c, None)
     | Some ce \<Rightarrow> if ce_expires ce < t then (c\<lparr>fc_kl := kl_drop ce_key ce (fc_kl c)\<rparr>, None) else (c, Some ce))"

definition fc_put :: "fifo_cache \<Rightarrow> flow_key \<Rightarrow> int \<Rightarrow> time \<Rightarrow> fifo_cache" where
  "fc_put c k isn expires =
    (let kl = fc_kl c;
         l1 = (case kl_m kl k of None \<Rightarrow> kl_l kl | Some el \<Rightarrow> remove1 el (kl_l kl));
         kl2 = kl_evict ce_key (fc_max c) (kl_m kl) l1
     in c\<lparr>fc_kl := kl_push ce_key \<lparr>ce_key = k, ce_isn = isn, ce_expires = expires\<rparr> kl2\<rparr>)"

definition fc_remove :: "fifo_cache \<Rightarrow> flow_key \<Rightarrow> fifo_cache" where
  "fc_remove c k = (case kl_m (fc_kl c) k of None \<Rightarrow> c | Some el \<Rightarrow> c\<lparr>fc_kl := kl_drop ce_key el (fc_kl c)\<rparr>)"

fun sweep_front :: "('e \<Rightarrow> 'k) \<Rightarrow> ('e \<Rightarrow> bool) \<Rightarrow> ('k \<Rightarrow> 'e option) \<Rightarrow> 'e list \<Rightarrow> ('k, 'e) klist" where
  "sweep_front key stale m [] = \<lparr>kl_m = m, kl_l = []\<rparr>"
| "sweep_front key stale m (e # es) = (if \<not> stale e then \<lparr>kl_m = m, kl_l = e # es\<rparr>
     else sweep_front key stale (m(key e := None)) es)"

definition fc_sweep :: "fifo_cache \<Rightarrow> time \<Rightarrow> fifo_cache" where
  "fc_sweep c t = c\<lparr>fc_kl := sweep_front ce_key (\<lambda>ce. ce_expires ce < t) (kl_m (fc_kl c)) (kl_l (fc_kl c))\<rparr>"

definition fc_len :: "fifo_cache \<Rightarrow> int" where
  "fc_len c = int (length (kl_l (fc_kl c)))"

subsection \<open>The invariant\<close>

definition fc_wf :: "fifo_cache \<Rightarrow> bool" where
  "fc_wf c \<longleftrightarrow> kl_wf ce_key (fc_kl c) \<and> (0 < fc_max c \<longrightarrow> fc_len c \<le> fc_max c)"

text \<open>What the cache holds for a key, expired or not.\<close>

definition fc_look :: "fifo_cache \<Rightarrow> flow_key \<Rightarrow> cache_entry option" where
  "fc_look c k = kl_m (fc_kl c) k"

lemma sweep_front_spec:
  "kl_wf key \<lparr>kl_m = m, kl_l = l\<rparr> \<Longrightarrow> kl_wf key (sweep_front key stale m l) \<and>
     kl_l (sweep_front key stale m l) = dropWhile stale l"
proof (induction l arbitrary: m)
  case (Cons e es)
  show ?case
  proof (cases "stale e")
    case True
    then show ?thesis using Cons.IH [OF kl_wf_tail [OF Cons.prems]] by (simp del: fun_upd_apply)
  qed (use Cons.prems in simp)
qed simp

lemma fc_init_wf [simp, inv_intros]: "fc_wf (fc_init mx)"
  by (simp add: fc_wf_def fc_init_def fc_len_def) (simp add: kl_empty_def)

lemma fc_drop_wf:
  assumes "fc_wf c" and "kl_m (fc_kl c) k = Some ce"
  shows "fc_wf (c\<lparr>fc_kl := kl_drop ce_key ce (fc_kl c)\<rparr>)" and "ce_key ce = k"
proof -
  have ce: "ce \<in> set (kl_l (fc_kl c))" "ce_key ce = k" using assms by (auto simp: fc_wf_def kl_wfD)
  then show "ce_key ce = k" by simp
  have "length (remove1 ce (kl_l (fc_kl c))) \<le> length (kl_l (fc_kl c))" by (simp add: length_remove1)
  then show "fc_wf (c\<lparr>fc_kl := kl_drop ce_key ce (fc_kl c)\<rparr>)"
    using assms(1) ce by (auto simp: fc_wf_def fc_len_def kl_wf_drop kl_simps)
qed

lemma fc_get_wf [inv_intros]: "fc_wf c \<Longrightarrow> fc_wf (fst (fc_get c k t))"
  by (auto simp: fc_get_def intro: fc_drop_wf split: option.splits)

lemma fc_remove_wf [inv_intros]: "fc_wf c \<Longrightarrow> fc_wf (fc_remove c k)"
  by (auto simp: fc_remove_def intro: fc_drop_wf split: option.splits)

lemma fc_sweep_wf [inv_intros]: "fc_wf c \<Longrightarrow> fc_wf (fc_sweep c t)"
  using sweep_front_spec [of ce_key "kl_m (fc_kl c)" "kl_l (fc_kl c)" "\<lambda>ce. ce_expires ce < t"]
    length_dropWhile_le [of "\<lambda>ce. ce_expires ce < t" "kl_l (fc_kl c)"]
  by (simp add: fc_wf_def fc_sweep_def fc_len_def) linarith

lemma kl_evict_upd:
  "k \<notin> key ` set l \<Longrightarrow> kl_evict key mx (m(k := x)) l = (kl_evict key mx m l)\<lparr>kl_m := (kl_m (kl_evict key mx m l))(k := x)\<rparr>"
proof (induction l arbitrary: m)
  case (Cons e es)
  then show ?case
    by (cases "0 < mx \<and> mx \<le> int (length (e # es))")
      (simp_all add: kl_evict_Cons fun_upd_twist [of k "key e"] del: fun_upd_apply)
qed simp

lemma kl_push_upd: "key e = k \<Longrightarrow> kl_push key e (c\<lparr>kl_m := (kl_m c)(k := x)\<rparr>) = kl_push key e c"
  by (simp add: kl_push_def)

text \<open>Put, as dropping the key, evicting and pushing: the map entry it leaves dangling is overwritten.\<close>

lemma subseq_remove1: "subseq (remove1 x xs) xs"
  by (induction xs) auto

lemma fc_put_eq:
  fixes k :: flow_key and isn :: int and ex :: time
  assumes "kl_wf ce_key (fc_kl c)"
  defines "d \<equiv> (case kl_m (fc_kl c) k of None \<Rightarrow> fc_kl c | Some el \<Rightarrow> kl_drop ce_key el (fc_kl c))"
  shows "fc_put c k isn ex = c\<lparr>fc_kl := kl_push ce_key \<lparr>ce_key = k, ce_isn = isn, ce_expires = ex\<rparr>
      (kl_evict ce_key (fc_max c) (kl_m d) (kl_l d))\<rparr> \<and> kl_wf ce_key d \<and> k \<notin> ce_key ` set (kl_l d) \<and>
    set (kl_l d) = {e \<in> set (kl_l (fc_kl c)). ce_key e \<noteq> k} \<and>
    length (kl_l d) \<le> length (kl_l (fc_kl c)) \<and> subseq (kl_l d) (kl_l (fc_kl c))"
proof (cases "kl_m (fc_kl c) k")
  case None
  then show ?thesis
    using assms kl_wf_None [OF assms(1), of k] by (auto simp: fc_put_def Let_def image_iff)
next
  case (Some el)
  then have el: "el \<in> set (kl_l (fc_kl c))" "ce_key el = k" using kl_wfD [OF assms(1)] by auto
  have wd: "kl_wf ce_key d" using kl_wf_drop [OF assms(1) el(1)] by (simp add: d_def Some)
  have dl: "distinct (kl_l (fc_kl c))" using assms(1) by (auto simp: kl_wf_def distinct_map)
  have dm: "kl_m d k = None" "kl_l d = remove1 el (kl_l (fc_kl c))" "kl_m (fc_kl c) = (kl_m d)(k := Some el)"
    using el Some by (auto simp: d_def kl_simps)
  have notin: "k \<notin> ce_key ` set (kl_l d)" using kl_wf_None [OF wd] dm(1) by simp
  have "set (kl_l d) = {e \<in> set (kl_l (fc_kl c)). ce_key e \<noteq> k}"
    using dl kl_wf_inj [OF assms(1) _ el(1)] el(2) by (auto simp: dm(2))
  moreover have "fc_put c k isn ex = c\<lparr>fc_kl := kl_push ce_key \<lparr>ce_key = k, ce_isn = isn, ce_expires = ex\<rparr>
      (kl_evict ce_key (fc_max c) (kl_m d) (kl_l d))\<rparr>"
    unfolding fc_put_def Let_def Some option.case dm(2) [symmetric] unfolding dm(3)
    by (simp add: kl_evict_upd [OF notin] kl_push_upd)
  ultimately show ?thesis
    using wd notin by (simp add: dm(2) length_remove1 subseq_remove1)
qed

lemma kl_evict_mono:
  assumes "kl_wf key d"
  shows "kl_m (kl_evict key mx (kl_m d) (kl_l d)) k = Some e \<Longrightarrow> kl_m d k = Some e"
  using kl_evict_spec [of key "kl_m d" "kl_l d" mx] assms kl_wf_mono [of key _ d k e]
  by (auto dest: set_mono_suffix)

lemma kl_evict_set: "kl_wf key d \<Longrightarrow> set (kl_l (kl_evict key mx (kl_m d) (kl_l d))) \<subseteq> set (kl_l d)"
  using kl_evict_spec [of key "kl_m d" "kl_l d" mx] by (auto dest: set_mono_suffix)

text \<open>What pushing after eviction gives, for any keyed container: it stays well formed and bounded,
  answers the new key with the new element, and any other key as before or not at all.\<close>

lemma kl_push_evict:
  fixes mx :: int
  assumes wf: "kl_wf key d" and new: "key e \<notin> key ` set (kl_l d)"
  defines "r \<equiv> kl_push key e (kl_evict key mx (kl_m d) (kl_l d))"
  shows "kl_wf key r" "0 < mx \<Longrightarrow> int (length (kl_l r)) \<le> mx" "kl_m r (key e) = Some e"
    "k \<noteq> key e \<Longrightarrow> kl_m r k = Some x \<Longrightarrow> kl_m d k = Some x"
    "int (length (kl_l d)) < mx \<Longrightarrow> k \<noteq> key e \<Longrightarrow> kl_m r k = kl_m d k"
proof -
  have s: "kl_wf key (kl_evict key mx (kl_m d) (kl_l d))" using kl_evict_spec [of key "kl_m d" "kl_l d" mx] wf by simp
  show "kl_wf key r" using kl_wf_push [OF s] new kl_evict_set [OF wf] unfolding r_def by blast
  show "0 < mx \<Longrightarrow> int (length (kl_l r)) \<le> mx"
    using kl_evict_spec [of key "kl_m d" "kl_l d" mx] wf by (auto simp: r_def kl_simps)
  show "kl_m r (key e) = Some e" by (simp add: r_def kl_simps)
  show "k \<noteq> key e \<Longrightarrow> kl_m r k = Some x \<Longrightarrow> kl_m d k = Some x"
    using kl_evict_mono [OF wf, of mx k x] by (simp add: r_def kl_simps)
  show "int (length (kl_l d)) < mx \<Longrightarrow> k \<noteq> key e \<Longrightarrow> kl_m r k = kl_m d k"
    by (simp add: r_def kl_simps kl_evict_id)
qed

lemma fc_put_spec:
  assumes "fc_wf c"
  shows "fc_wf (fc_put c k isn ex)" "fc_max (fc_put c k isn ex) = fc_max c"
    "fc_look (fc_put c k isn ex) k = Some \<lparr>ce_key = k, ce_isn = isn, ce_expires = ex\<rparr>"
    "k' \<noteq> k \<Longrightarrow> fc_look (fc_put c k isn ex) k' = Some x \<Longrightarrow> fc_look c k' = Some x"
    "fc_len c < fc_max c \<Longrightarrow> k' \<noteq> k \<Longrightarrow> fc_look (fc_put c k isn ex) k' = fc_look c k'"
proof -
  define d e where "d = (case kl_m (fc_kl c) k of None \<Rightarrow> fc_kl c | Some el \<Rightarrow> kl_drop ce_key el (fc_kl c))"
    and "e = \<lparr>ce_key = k, ce_isn = isn, ce_expires = ex\<rparr>"
  have wf: "kl_wf ce_key (fc_kl c)" using assms by (simp add: fc_wf_def)
  note q = fc_put_eq [OF wf, of k isn ex, folded d_def e_def]
  have ke: "ce_key e = k" by (simp add: e_def)
  have dm: "k' \<noteq> k \<longrightarrow> kl_m d k' = kl_m (fc_kl c) k'" for k'
  proof (cases "kl_m (fc_kl c) k")
    case (Some a)
    then have "ce_key a = k" using kl_wf_key [OF wf] by blast
    then show ?thesis by (simp add: d_def Some kl_simps)
  qed (simp add: d_def)
  note p = kl_push_evict [of ce_key d e, unfolded ke]
  show "fc_wf (fc_put c k isn ex)" "fc_max (fc_put c k isn ex) = fc_max c"
    using q p(1,2) by (auto simp: fc_wf_def fc_len_def)
  show "fc_look (fc_put c k isn ex) k = Some \<lparr>ce_key = k, ce_isn = isn, ce_expires = ex\<rparr>"
    using q p(3) by (auto simp: fc_look_def e_def)
  show "k' \<noteq> k \<Longrightarrow> fc_look (fc_put c k isn ex) k' = Some x \<Longrightarrow> fc_look c k' = Some x"
    using q p(4) dm by (auto simp: fc_look_def)
  show "fc_len c < fc_max c \<Longrightarrow> k' \<noteq> k \<Longrightarrow> fc_look (fc_put c k isn ex) k' = fc_look c k'"
    using q p(5) [of "fc_max c" k'] dm by (auto simp: fc_look_def fc_len_def)
qed

lemmas fc_put_wf [inv_intros] = fc_put_spec(1)

lemma fc_max_ops [simp]: "fc_max (fst (fc_get c k t)) = fc_max c" "fc_max (fc_remove c k) = fc_max c" "fc_max (fc_sweep c t) = fc_max c"
  "fc_max (fc_put c k i ex) = fc_max c"
  by (auto simp: fc_get_def fc_remove_def fc_sweep_def fc_put_def Let_def split: option.splits)

text \<open>Dropping an element forgets its key and nothing else.\<close>

lemma fc_get_spec:
  assumes "fc_wf c"
  shows "snd (fc_get c k t) = (case fc_look c k of None \<Rightarrow> None | Some ce \<Rightarrow> if ce_expires ce < t then None else Some ce)"
    "fc_look (fst (fc_get c k t)) k' = (if k' = k then snd (fc_get c k t) else fc_look c k')"
  using fc_drop_wf(2) [OF assms, of k] by (auto simp: fc_get_def fc_look_def kl_simps split: option.splits)

lemma fc_remove_spec: "fc_wf c \<Longrightarrow> fc_look (fc_remove c k) k' = (if k' = k then None else fc_look c k')"
  using fc_drop_wf(2) [of c k] by (auto simp: fc_remove_def fc_look_def kl_simps split: option.splits)

lemma fc_sweep_spec:
  assumes "fc_wf c" and "fc_look (fc_sweep c t) k = Some x"
  shows "fc_look c k = Some x"
proof -
  let ?s = "sweep_front ce_key (\<lambda>ce. ce_expires ce < t) (kl_m (fc_kl c)) (kl_l (fc_kl c))"
  have wf: "kl_wf ce_key (fc_kl c)" using assms(1) by (simp add: fc_wf_def)
  then have s: "kl_wf ce_key ?s" "set (kl_l ?s) \<subseteq> set (kl_l (fc_kl c))"
    using sweep_front_spec [of ce_key "kl_m (fc_kl c)" "kl_l (fc_kl c)"] by (auto dest: set_dropWhileD)
  show ?thesis using kl_wf_mono [OF s(1) wf s(2)] assms(2) by (simp add: fc_look_def fc_sweep_def)
qed

lemma fc_look_key: "fc_wf c \<Longrightarrow> fc_look c k = Some e \<Longrightarrow> ce_key e = k"
  by (auto simp: fc_wf_def fc_look_def intro: kl_wf_key)

section \<open>The interface of a bounded table\<close>

text \<open>What the engine relies on when it remembers something under a key in a bounded table: the latest
  insertion is answered, another key answers as before or has been evicted, and the size stays
  within the bound.\<close>

locale bounded_table =
  fixes inv :: "'s \<Rightarrow> bool"
    and look :: "'s \<Rightarrow> 'k \<Rightarrow> 'v option"
    and ins :: "'s \<Rightarrow> 'k \<Rightarrow> 'v \<Rightarrow> 's"
    and count :: "'s \<Rightarrow> int"
    and bound :: "'s \<Rightarrow> int"
  assumes inv_ins: "inv s \<Longrightarrow> inv (ins s k v)"
    and bound_ins: "bound (ins s k v) = bound s"
    and within: "inv s \<Longrightarrow> 0 < bound s \<Longrightarrow> count s \<le> bound s"
    and look_ins_same: "inv s \<Longrightarrow> look (ins s k v) k = Some v"
    and look_ins_other: "inv s \<Longrightarrow> k' \<noteq> k \<Longrightarrow> look (ins s k v) k' = Some w \<Longrightarrow> look s k' = Some w"
    and room: "inv s \<Longrightarrow> count s < bound s \<Longrightarrow> k' \<noteq> k \<Longrightarrow> look (ins s k v) k' = look s k'"
begin

text \<open>After any number of insertions the table is within its bound, answers the last one, and never
  answers a key with anything but the last value inserted for it.\<close>

lemma inv_inserts: "inv s \<Longrightarrow> inv (foldl (\<lambda>s (k, v). ins s k v) s kvs) \<and> bound (foldl (\<lambda>s (k, v). ins s k v) s kvs) = bound s"
  by (induction kvs rule: rev_induct) (auto simp: inv_ins bound_ins)

lemma inserts_bounded: "inv s \<Longrightarrow> 0 < bound s \<Longrightarrow> count (foldl (\<lambda>s (k, v). ins s k v) s kvs) \<le> bound s"
  using inv_inserts [of s kvs] within [of "foldl (\<lambda>s (k, v). ins s k v) s kvs"] by simp

lemma inserts_never_invent:
  assumes "inv s" and "look (foldl (\<lambda>s (k, v). ins s k v) s kvs) k = Some v"
  shows "map_of (rev kvs) k = Some v \<or> (map_of (rev kvs) k = None \<and> look s k = Some v)"
  using assms(2)
proof (induction kvs rule: rev_induct)
  case (snoc x kvs)
  obtain k1 v1 where x: "x = (k1, v1)" by (cases x)
  define s' where "s' = foldl (\<lambda>s (k, v). ins s k v) s kvs"
  have inv': "inv s'" using inv_inserts [OF assms(1)] by (simp add: s'_def)
  have l: "look (ins s' k1 v1) k = Some v" using snoc.prems by (simp add: x s'_def)
  show ?case
  proof (cases "k = k1")
    case True
    then show ?thesis using l look_ins_same [OF inv', of k v1] by (simp add: x)
  next
    case False
    then have "look s' k = Some v" using look_ins_other [OF inv' False l] by simp
    then show ?thesis using snoc.IH False by (simp add: x s'_def)
  qed
qed simp

lemma last_insert_answered: "inv s \<Longrightarrow> look (foldl (\<lambda>s (k, v). ins s k v) s (kvs @ [(k, v)])) k = Some v"
  using inv_inserts [of s kvs] by (simp add: look_ins_same)

end

definition fc_ins :: "fifo_cache \<Rightarrow> flow_key \<Rightarrow> int \<times> time \<Rightarrow> fifo_cache" where
  "fc_ins c k v = fc_put c k (fst v) (snd v)"

definition fc_val :: "fifo_cache \<Rightarrow> flow_key \<Rightarrow> (int \<times> time) option" where
  "fc_val c k = map_option (\<lambda>e. (ce_isn e, ce_expires e)) (fc_look c k)"

interpretation fct: bounded_table fc_wf fc_val fc_ins fc_len fc_max
proof
  fix s :: fifo_cache and k k' :: flow_key and v w :: "int \<times> time"
  show "fc_wf s \<Longrightarrow> fc_wf (fc_ins s k v)" by (simp add: fc_ins_def fc_put_wf)
  show "fc_max (fc_ins s k v) = fc_max s" by (simp add: fc_ins_def)
  show "fc_wf s \<Longrightarrow> 0 < fc_max s \<Longrightarrow> fc_len s \<le> fc_max s" by (simp add: fc_wf_def)
  show "fc_wf s \<Longrightarrow> fc_val (fc_ins s k v) k = Some v" by (simp add: fc_val_def fc_ins_def fc_put_spec(3))
  show "fc_wf s \<Longrightarrow> k' \<noteq> k \<Longrightarrow> fc_val (fc_ins s k v) k' = Some w \<Longrightarrow> fc_val s k' = Some w"
    by (auto simp: fc_val_def fc_ins_def dest: fc_put_spec(4))
  show "fc_wf s \<Longrightarrow> fc_len s < fc_max s \<Longrightarrow> k' \<noteq> k \<Longrightarrow> fc_val (fc_ins s k v) k' = fc_val s k'"
    by (simp add: fc_val_def fc_ins_def fc_put_spec(5))
qed

section \<open>Any sequence of cache operations\<close>

datatype cache_op = CPut flow_key int time | CRemove flow_key | CGet flow_key time | CSweep time

fun cache_step :: "fifo_cache \<Rightarrow> cache_op \<Rightarrow> fifo_cache" where
  "cache_step c (CPut k i ex) = fc_put c k i ex"
| "cache_step c (CRemove k) = fc_remove c k"
| "cache_step c (CGet k t) = fst (fc_get c k t)"
| "cache_step c (CSweep t) = fc_sweep c t"

text \<open>The reference: an unbounded table that forgets a key only when told to.\<close>

fun table_step :: "(flow_key \<Rightarrow> (int \<times> time) option) \<Rightarrow> cache_op \<Rightarrow> (flow_key \<Rightarrow> (int \<times> time) option)" where
  "table_step m (CPut k i ex) = m(k \<mapsto> (i, ex))"
| "table_step m (CRemove k) = m(k := None)"
| "table_step m (CGet k t) = m"
| "table_step m (CSweep t) = m"

lemma cache_step_wf: "fc_wf c \<Longrightarrow> fc_wf (cache_step c op) \<and> fc_max (cache_step c op) = fc_max c"
  by (cases op) (auto intro: inv_intros)

lemma cache_steps_wf: "fc_wf c \<Longrightarrow> fc_wf (foldl cache_step c ops) \<and> fc_max (foldl cache_step c ops) = fc_max c"
  by (induction ops arbitrary: c) (auto simp: cache_step_wf)

lemma cache_step_below:
  assumes "fc_wf c" and "\<And>k v. fc_val c k = Some v \<Longrightarrow> m k = Some v"
    and "fc_val (cache_step c op) k = Some v"
  shows "table_step m op k = Some v"
proof (cases op)
  case (CPut k1 i ex)
  then show ?thesis
    using assms fct.look_ins_same [OF assms(1), of k1 "(i, ex)"] fct.look_ins_other [OF assms(1), of k k1 "(i, ex)" v]
    by (auto simp: fc_ins_def)
next
  case (CGet k1 t)
  then show ?thesis
    using assms by (auto simp: fc_val_def fc_get_spec [OF assms(1)] split: if_splits option.splits)
qed (use assms fc_sweep_spec [OF assms(1)] in \<open>auto simp: fc_val_def fc_remove_spec split: if_splits\<close>)

text \<open>A bounded cache is an unbounded table that may forget.  After any operations on a fresh cache
  of \<open>mx\<close> entries, the map and the list agree, the size is at most \<open>mx\<close>, and what get answers
  is what the unbounded table holds for that key, and is not expired.\<close>

theorem fifo_cache_sound:
  assumes "0 < mx" and c_def: "c = foldl cache_step (fc_init mx) ops"
  shows "fc_len c \<le> mx \<and> kl_wf ce_key (fc_kl c) \<and>
    (\<forall>k t. case snd (fc_get c k t) of None \<Rightarrow> True
       | Some e \<Rightarrow> ce_key e = k \<and> t \<le> ce_expires e \<and> foldl table_step Map.empty ops k = Some (ce_isn e, ce_expires e))"
proof -
  have wf: "fc_wf c" "fc_max c = mx"
    using cache_steps_wf [OF fc_init_wf, of mx ops] by (simp_all add: c_def) (simp add: fc_init_def)
  have below: "fc_val (foldl cache_step (fc_init mx) ops) k = Some v \<Longrightarrow> foldl table_step Map.empty ops k = Some v" for k v
  proof (induction ops arbitrary: k v rule: rev_induct)
    case (snoc op ops)
    then show ?case
      using cache_step_below [of "foldl cache_step (fc_init mx) ops" "foldl table_step Map.empty ops" op k v]
        cache_steps_wf [OF fc_init_wf, of mx ops] by simp
  qed (simp add: fc_val_def fc_look_def fc_init_def kl_empty_def)
  have "ce_key e = k \<and> t \<le> ce_expires e \<and> foldl table_step Map.empty ops k = Some (ce_isn e, ce_expires e)"
    if "snd (fc_get c k t) = Some e" for k t e
  proof -
    have "fc_look c k = Some e \<and> t \<le> ce_expires e"
      using that unfolding fc_get_spec(1) [OF wf(1)] by (simp split: option.splits if_splits)
    then show ?thesis using below [of k] fc_look_key [OF wf(1), of k e] by (simp add: c_def fc_val_def)
  qed
  then show ?thesis using wf assms(1) by (auto simp: fc_wf_def split: option.split)
qed

text \<open>Two entries of room, three puts: the first is evicted, and the second has expired when asked.\<close>

theorem fifo_cache_sound_witness:
  "let key = (\<lambda>n. \<lparr>fk_port = n, fk_dst = (0, 0)\<rparr>);
       ops = [CPut (key 1) 0 10, CPut (key 2) 0 20, CPut (key 3) 7 30];
       c = foldl cache_step (fc_init 2) ops
   in fc_len c \<le> 2 \<and> snd (fc_get c (key 1) 5) = None \<and> snd (fc_get c (key 2) 25) = None \<and>
     map_option ce_isn (snd (fc_get c (key 3) 25)) = Some 7 \<and>
     foldl table_step Map.empty ops (key 3) = Some (7, 30)"
proof -
  let ?key = "\<lambda>n. \<lparr>fk_port = n, fk_dst = (0, 0)\<rparr>"
  let ?ops = "[CPut (?key 1) 0 10, CPut (?key 2) 0 20, CPut (?key 3) 7 30]"
  let ?c = "foldl cache_step (fc_init 2) ?ops"
  have v: "snd (fc_get ?c (?key 1) 5) = None" "snd (fc_get ?c (?key 2) 25) = None"
    "snd (fc_get ?c (?key 3) 25) = Some \<lparr>ce_key = ?key 3, ce_isn = 7, ce_expires = 30\<rparr>"
    by (simp_all add: fc_put_def fc_init_def kl_empty_def kl_evict_Cons fc_get_def kl_simps Let_def)
  show ?thesis
    using fifo_cache_sound [OF _ refl, of 2 ?ops] v unfolding Let_def by (auto dest: spec [of _ "?key 3"])
qed

end
