(* ===== verification/Udp_Session.thy ===== *)
theory Udp_Session
  imports Flow_Cache
begin

text \<open>splittunnel/udpsession.go: the NAT state of one bypassed UDP source port.  The send queue is the
  contents of a buffered channel, the context is its cancelled flag, and a socket is a handle.
  The limits are those of the engine that the session reads.\<close>

record packet_buf =
  pb_data :: "byte list"
  pb_cap :: int

definition engineBufSize :: int where
  "engineBufSize = 2048"

text \<open>Small packets share pooled buffers of one size; a larger one gets its own.\<close>

definition newPacketBuf_cap :: "int \<Rightarrow> int" where
  "newPacketBuf_cap n = (if engineBufSize < n then n else engineBufSize)"

definition copyPacket :: "byte list \<Rightarrow> packet_buf" where
  "copyPacket src = \<lparr>pb_data = src, pb_cap = newPacketBuf_cap (int (length src))\<rparr>"

definition bufCost :: "packet_buf \<Rightarrow> int" where
  "bufCost p = pb_cap p"

record udp_out =
  uo_dst :: "ip4 \<times> nat"
  uo_p :: packet_buf
  uo_off :: nat

record peer =
  pr_addr :: ip4
  pr_last :: time

record udp_session =
  us_flow :: nat
  us_port :: nat
  us_done :: bool
  us_sendQ :: "udp_out list"
  us_conn :: "nat option"
  us_gen :: nat
  us_peers :: "(ip4, peer) klist"
  us_lastSent :: time

definition new_session :: "nat \<Rightarrow> nat \<Rightarrow> time \<Rightarrow> udp_session" where
  "new_session f port t = \<lparr>us_flow = f, us_port = port, us_done = False, us_sendQ = [], us_conn = None, us_gen = 0,
     us_peers = kl_empty, us_lastSent = t\<rparr>"

definition knows :: "udp_session \<Rightarrow> ip4 \<Rightarrow> bool" where
  "knows s a \<longleftrightarrow> kl_m (us_peers s) a \<noteq> None"

definition insertLocked :: "int \<Rightarrow> ip4 \<Rightarrow> time \<Rightarrow> udp_session \<Rightarrow> udp_session" where
  "insertLocked mx a t s = s\<lparr>us_peers := kl_push pr_addr \<lparr>pr_addr = a, pr_last = t\<rparr>
     (kl_evict pr_addr mx (kl_m (us_peers s)) (kl_l (us_peers s)))\<rparr>"

definition admit :: "int \<Rightarrow> ip4 \<Rightarrow> time \<Rightarrow> udp_session \<Rightarrow> udp_session" where
  "admit mx a t s = (if kl_m (us_peers s) a = None then insertLocked mx a t s else s)"

text \<open>A refreshed peer is the same list element, with a new time, moved to the back.\<close>

definition sent :: "int \<Rightarrow> ip4 \<Rightarrow> time \<Rightarrow> udp_session \<Rightarrow> udp_session" where
  "sent mx a t s0 = (let s = s0\<lparr>us_lastSent := t\<rparr> in
     case kl_m (us_peers s) a of
       Some el \<Rightarrow> s\<lparr>us_peers := kl_push pr_addr (el\<lparr>pr_last := t\<rparr>) (kl_drop pr_addr el (us_peers s))\<rparr>
     | None \<Rightarrow> insertLocked mx a t s)"

definition prune :: "time \<Rightarrow> udp_session \<Rightarrow> udp_session" where
  "prune before s = s\<lparr>us_peers := sweep_front pr_addr (\<lambda>p. pr_last p < before) (kl_m (us_peers s)) (kl_l (us_peers s))\<rparr>"

definition peerCount :: "udp_session \<Rightarrow> int" where
  "peerCount s = int (length (kl_l (us_peers s)))"

text \<open>\<open>send\<close> queues without blocking and admits the destination; the flag says whether it was queued.\<close>

definition send :: "int \<Rightarrow> int \<Rightarrow> udp_out \<Rightarrow> time \<Rightarrow> udp_session \<Rightarrow> udp_session \<times> bool" where
  "send udpPeers udpSendQ out t s =
    (if us_done s then (s, False)
     else let s1 = admit udpPeers (fst (uo_dst out)) t s
       in if int (length (us_sendQ s1)) < udpSendQ then (s1\<lparr>us_sendQ := us_sendQ s1 @ [out]\<rparr>, True) else (s1, False))"

definition discard :: "udp_session \<Rightarrow> udp_session" where
  "discard s = s\<lparr>us_sendQ := []\<rparr>"

definition setConn :: "nat \<Rightarrow> nat \<Rightarrow> udp_session \<Rightarrow> udp_session \<times> bool" where
  "setConn c gen s = (if us_done s then (s, False) else (s\<lparr>us_conn := Some c, us_gen := gen\<rparr>, True))"

text \<open>The handle to close, if there is one.\<close>

definition closeConn :: "udp_session \<Rightarrow> udp_session \<times> nat option" where
  "closeConn s = (s\<lparr>us_done := True\<rparr>, us_conn s)"

text \<open>What the read loop does with a datagram from \<open>src\<close> (None: not an IPv4 address): the source it
  passes to the app as a reply, or nothing.\<close>

definition read_accepts :: "udp_session \<Rightarrow> ip4 option \<Rightarrow> bool" where
  "read_accepts s src = (case src of None \<Rightarrow> False | Some a \<Rightarrow> knows s a)"

section \<open>The peer table is bounded\<close>

definition peers_wf :: "int \<Rightarrow> udp_session \<Rightarrow> bool" where
  "peers_wf mx s \<longleftrightarrow> kl_wf pr_addr (us_peers s) \<and> (0 < mx \<longrightarrow> peerCount s \<le> mx)"

definition peer_time :: "udp_session \<Rightarrow> ip4 \<Rightarrow> time option" where
  "peer_time s a = map_option pr_last (kl_m (us_peers s) a)"

lemma new_session_wf: "peers_wf mx (new_session f p t)"
  by (simp add: peers_wf_def new_session_def peerCount_def) (simp add: kl_empty_def)

lemma insertLocked_spec:
  assumes wf: "peers_wf mx s" and new: "kl_m (us_peers s) a = None"
  shows "peers_wf mx (insertLocked mx a t s)" "peer_time (insertLocked mx a t s) a = Some t"
    "a' \<noteq> a \<Longrightarrow> peer_time (insertLocked mx a t s) a' = Some w \<Longrightarrow> peer_time s a' = Some w"
    "peerCount s < mx \<Longrightarrow> a' \<noteq> a \<Longrightarrow> peer_time (insertLocked mx a t s) a' = peer_time s a'"
proof -
  have k: "kl_wf pr_addr (us_peers s)" "pr_addr \<lparr>pr_addr = a, pr_last = t\<rparr> \<notin> pr_addr ` set (kl_l (us_peers s))"
    using wf new kl_wf_None [of pr_addr "us_peers s" a] by (simp_all add: peers_wf_def)
  note p = kl_push_evict [OF k, where mx = mx]
  show "peers_wf mx (insertLocked mx a t s)" "peer_time (insertLocked mx a t s) a = Some t"
    using p(1-3) by (simp_all add: peers_wf_def insertLocked_def peerCount_def peer_time_def)
  show "a' \<noteq> a \<Longrightarrow> peer_time (insertLocked mx a t s) a' = Some w \<Longrightarrow> peer_time s a' = Some w"
    using p(4) [of a'] by (auto simp: insertLocked_def peer_time_def)
  show "peerCount s < mx \<Longrightarrow> a' \<noteq> a \<Longrightarrow> peer_time (insertLocked mx a t s) a' = peer_time s a'"
    using p(5) [of a'] by (simp add: insertLocked_def peer_time_def peerCount_def)
qed

lemma peers_touch: "peers_wf mx (s\<lparr>us_lastSent := t\<rparr>) = peers_wf mx s" "peer_time (s\<lparr>us_lastSent := t\<rparr>) = peer_time s"
  "peerCount (s\<lparr>us_lastSent := t\<rparr>) = peerCount s"
  by (simp_all add: peers_wf_def peer_time_def peerCount_def fun_eq_iff)

lemma sent_known:
  assumes wf: "peers_wf mx s" and m: "kl_m (us_peers s) a = Some el"
  shows "peers_wf mx (sent mx a t s)" "peer_time (sent mx a t s) a' = (if a' = a then Some t else peer_time s a')"
proof -
  have k: "kl_wf pr_addr (us_peers s)" using wf by (simp add: peers_wf_def)
  have el: "el \<in> set (kl_l (us_peers s))" "pr_addr el = a" using kl_wfD [OF k] m by auto
  have d: "kl_wf pr_addr (kl_drop pr_addr el (us_peers s))" by (rule kl_wf_drop [OF k el(1)])
  moreover have "kl_m (kl_drop pr_addr el (us_peers s)) a = None" using el(2) by (simp add: kl_simps)
  ultimately have "kl_wf pr_addr (kl_push pr_addr (el\<lparr>pr_last := t\<rparr>) (kl_drop pr_addr el (us_peers s)))"
    using kl_wf_push [OF d, of "el\<lparr>pr_last := t\<rparr>"] kl_wf_None [OF d, of a] el(2) by simp
  moreover have "length (remove1 el (kl_l (us_peers s))) + 1 = length (kl_l (us_peers s))"
    using el(1) length_pos_if_in_set [OF el(1)] by (simp add: length_remove1)
  ultimately show "peers_wf mx (sent mx a t s)"
    using wf by (simp add: sent_def m peers_wf_def peerCount_def kl_simps)
  show "peer_time (sent mx a t s) a' = (if a' = a then Some t else peer_time s a')"
    using el(2) by (simp add: sent_def m peer_time_def kl_simps)
qed

lemma sent_new: "kl_m (us_peers s) a = None \<Longrightarrow> sent mx a t s = insertLocked mx a t (s\<lparr>us_lastSent := t\<rparr>)"
  by (simp add: sent_def)

interpretation peers: bounded_table "peers_wf mx" peer_time "\<lambda>s a t. sent mx a t s" peerCount "\<lambda>_. mx" for mx :: int
proof
  fix s :: udp_session and a a' :: ip4 and t w :: time
  note touched = insertLocked_spec [of mx "s\<lparr>us_lastSent := t\<rparr>", unfolded peers_touch, simplified]
  show "peers_wf mx s \<Longrightarrow> peers_wf mx (sent mx a t s)"
    by (cases "kl_m (us_peers s) a") (simp_all add: sent_known sent_new touched(1))
  show "peers_wf mx s \<Longrightarrow> peer_time (sent mx a t s) a = Some t"
    by (cases "kl_m (us_peers s) a") (simp_all add: sent_known sent_new touched(2))
  show "peers_wf mx s \<Longrightarrow> a' \<noteq> a \<Longrightarrow> peer_time (sent mx a t s) a' = Some w \<Longrightarrow> peer_time s a' = Some w"
    by (cases "kl_m (us_peers s) a") (simp_all add: sent_known sent_new touched(3))
  show "peers_wf mx s \<Longrightarrow> peerCount s < mx \<Longrightarrow> a' \<noteq> a \<Longrightarrow> peer_time (sent mx a t s) a' = peer_time s a'"
    by (cases "kl_m (us_peers s) a") (simp_all add: sent_known sent_new touched(4))
qed (simp_all add: peers_wf_def)

section \<open>Address-dependent filtering\<close>

text \<open>What happens to a session: the app sends a datagram or the first fragment of one, the session's
  goroutine writes the datagram at the head of the queue (with or without an error), idle peers
  are pruned, the session is closed, its queue discarded.\<close>

datatype session_op = App_Send udp_out time | App_Fragment ip4 time | Write_Out bool time | Prune_Idle time | Close | Discard

text \<open>The session goroutine takes one datagram off the queue and writes it.\<close>

definition session_write :: "int \<Rightarrow> bool \<Rightarrow> time \<Rightarrow> udp_session \<Rightarrow> udp_session" where
  "session_write mx ok t s = (case us_sendQ s of [] \<Rightarrow> s
     | d # rest \<Rightarrow> let s1 = s\<lparr>us_sendQ := rest\<rparr> in if ok then sent mx (fst (uo_dst d)) t s1 else s1)"

fun session_step :: "int \<Rightarrow> int \<Rightarrow> udp_session \<Rightarrow> session_op \<Rightarrow> udp_session" where
  "session_step mx q s (App_Send d t) = fst (send mx q d t s)"
| "session_step mx q s (App_Fragment a t) = admit mx a t s"
| "session_step mx q s (Write_Out ok t) = session_write mx ok t s"
| "session_step mx q s (Prune_Idle t) = prune t s"
| "session_step mx q s Close = fst (closeConn s)"
| "session_step mx q s Discard = discard s"

text \<open>The addresses the app sent to.\<close>

fun op_dests :: "session_op \<Rightarrow> ip4 list" where
  "op_dests (App_Send d t) = [fst (uo_dst d)]"
| "op_dests (App_Fragment a t) = [a]"
| "op_dests _ = []"

definition session_inv :: "int \<Rightarrow> int \<Rightarrow> ip4 set \<Rightarrow> udp_session \<Rightarrow> bool" where
  "session_inv mx q D s \<longleftrightarrow> peers_wf mx s \<and> int (length (us_sendQ s)) \<le> q \<and>
     {a. peer_time s a \<noteq> None} \<subseteq> D \<and> (\<lambda>d. fst (uo_dst d)) ` set (us_sendQ s) \<subseteq> D"

lemma knows_time: "knows s a \<longleftrightarrow> peer_time s a \<noteq> None"
  by (simp add: knows_def peer_time_def)

lemma session_fields [simp]:
  "us_sendQ (insertLocked mx a t s) = us_sendQ s" "us_sendQ (admit mx a t s) = us_sendQ s" "us_sendQ (sent mx a t s) = us_sendQ s"
  "us_done (admit mx a t s) = us_done s"
  by (auto simp: insertLocked_def admit_def sent_def Let_def split: option.splits)

lemma peers_frame: "us_peers s' = us_peers s \<Longrightarrow> peers_wf mx s' = peers_wf mx s \<and> peer_time s' = peer_time s"
  by (auto simp: peers_wf_def peer_time_def peerCount_def fun_eq_iff)

lemma admit_inv:
  assumes "session_inv mx q D s"
  shows "session_inv mx q (insert a D) (admit mx a t s)"
proof (cases "kl_m (us_peers s) a")
  case None
  have wf: "peers_wf mx s" using assms by (simp add: session_inv_def)
  have "a' \<in> insert a D" if ne: "peer_time (insertLocked mx a t s) a' \<noteq> None" for a'
  proof (cases "a' = a")
    case False
    obtain w where "peer_time (insertLocked mx a t s) a' = Some w" using ne by auto
    then have "peer_time s a' = Some w" by (rule insertLocked_spec(3) [OF wf None False])
    then show ?thesis using assms by (auto simp: session_inv_def)
  qed simp
  then show ?thesis using assms insertLocked_spec(1) [OF wf None] by (auto simp: session_inv_def admit_def None)
qed (use assms in \<open>auto simp: session_inv_def admit_def\<close>)

lemma sent_inv:
  assumes "session_inv mx q D s" and "a \<in> D"
  shows "session_inv mx q D (sent mx a t s)"
proof -
  have wf: "peers_wf mx s" using assms by (simp add: session_inv_def)
  have "a' \<in> D" if ne: "peer_time (sent mx a t s) a' \<noteq> None" for a'
  proof (cases "a' = a")
    case False
    obtain w where "peer_time (sent mx a t s) a' = Some w" using ne by auto
    then have "peer_time s a' = Some w" using peers.look_ins_other [OF wf False] by blast
    then show ?thesis using assms(1) by (auto simp: session_inv_def)
  qed (simp add: assms(2))
  then show ?thesis using assms(1) peers.inv_ins [OF wf] by (auto simp: session_inv_def)
qed

lemma prune_inv:
  assumes "session_inv mx q D s"
  shows "session_inv mx q D (prune t s)"
proof -
  let ?k = "sweep_front pr_addr (\<lambda>p. pr_last p < t) (kl_m (us_peers s)) (kl_l (us_peers s))"
  have wf: "kl_wf pr_addr (us_peers s)" using assms by (simp add: session_inv_def peers_wf_def)
  then have k: "kl_wf pr_addr ?k" "set (kl_l ?k) \<subseteq> set (kl_l (us_peers s))" "length (kl_l ?k) \<le> length (kl_l (us_peers s))"
    using sweep_front_spec [of pr_addr "kl_m (us_peers s)" "kl_l (us_peers s)"]
    by (auto dest: set_dropWhileD intro: length_dropWhile_le)
  have "{a. kl_m ?k a \<noteq> None} \<subseteq> {a. kl_m (us_peers s) a \<noteq> None}" using kl_wf_mono [OF k(1) wf k(2)] by auto
  then show ?thesis using assms k by (auto simp: session_inv_def prune_def peers_wf_def peerCount_def peer_time_def)
qed

lemma session_step_inv:
  assumes s: "session_inv mx q D s" and q: "0 \<le> q"
  shows "session_inv mx q (D \<union> set (op_dests op)) (session_step mx q s op)"
proof (cases op)
  case (App_Send d t)
  have a: "session_inv mx q (insert (fst (uo_dst d)) D) (admit mx (fst (uo_dst d)) t s)" by (rule admit_inv [OF s])
  have "session_inv mx q (insert (fst (uo_dst d)) D) ((admit mx (fst (uo_dst d)) t s)\<lparr>us_sendQ := us_sendQ s @ [d]\<rparr>)"
    if "int (length (us_sendQ s)) < q"
    using a that peers_frame [of "(admit mx (fst (uo_dst d)) t s)\<lparr>us_sendQ := us_sendQ s @ [d]\<rparr>" "admit mx (fst (uo_dst d)) t s" mx]
    by (auto simp: session_inv_def)
  then show ?thesis using a s by (auto simp: App_Send send_def Let_def session_inv_def)
next
  case (Write_Out ok t)
  show ?thesis
  proof (cases "us_sendQ s")
    case (Cons d rest)
    have "session_inv mx q D (s\<lparr>us_sendQ := rest\<rparr>)" "fst (uo_dst d) \<in> D"
      using s Cons peers_frame [of "s\<lparr>us_sendQ := rest\<rparr>" s mx] by (auto simp: session_inv_def)
    then show ?thesis using sent_inv by (auto simp: Write_Out session_write_def Cons Let_def)
  qed (use s Write_Out in \<open>simp add: session_write_def\<close>)
next
  case (App_Fragment a t)
  then show ?thesis using admit_inv [OF s] by simp
next
  case (Prune_Idle t)
  then show ?thesis using prune_inv [OF s] by simp
next
  case Close
  then show ?thesis using s peers_frame [of "fst (closeConn s)" s mx] by (simp add: closeConn_def session_inv_def)
next
  case Discard
  then show ?thesis using s q peers_frame [of "discard s" s mx] by (simp add: discard_def session_inv_def)
qed

lemma session_steps_inv:
  "session_inv mx q D s \<Longrightarrow> 0 \<le> q \<Longrightarrow> session_inv mx q (D \<union> set (concat (map op_dests ops))) (foldl (session_step mx q) s ops)"
proof (induction ops rule: rev_induct)
  case (snoc op ops)
  then show ?case using session_step_inv [OF snoc.IH, of op] by (simp add: Un_assoc)
qed simp

text \<open>C28: a bypassed port only hears from addresses its app sent to.  After any run of a session, a reply
  passes only if its source was the destination of a datagram or fragment of the app; the peer
  table and the send queue stay within their limits.\<close>

theorem session_replies_only_from_peers:
  assumes "0 < mx" and "0 \<le> q" and "s = foldl (session_step mx q) (new_session f port t) ops"
  shows "(read_accepts s src \<longrightarrow> (\<exists>a \<in> set (concat (map op_dests ops)). src = Some a)) \<and>
    peerCount s \<le> mx \<and> int (length (us_sendQ s)) \<le> q"
proof -
  have "session_inv mx q {} (new_session f port t)"
    using assms(2) new_session_wf [of mx f port t]
    by (simp add: session_inv_def) (simp add: new_session_def peer_time_def kl_empty_def)
  then have "session_inv mx q (set (concat (map op_dests ops))) s"
    using session_steps_inv [of mx q "{}" "new_session f port t" ops] assms(2,3) by simp
  then show ?thesis
    using assms(1) by (auto simp: session_inv_def peers_wf_def read_accepts_def knows_time split: option.splits)
qed

text \<open>With room for one peer, the second destination evicts the first.\<close>

theorem session_replies_only_from_peers_witness:
  "let s = foldl (session_step 1 4) (new_session 0 4000 0)
      [App_Send \<lparr>uo_dst = (7, 53), uo_p = copyPacket [], uo_off = 0\<rparr> 1, App_Fragment 9 2]
   in read_accepts s (Some 9) \<and> \<not> read_accepts s (Some 7) \<and> peerCount s \<le> 1 \<and> int (length (us_sendQ s)) \<le> 4"
proof -
  let ?ops = "[App_Send \<lparr>uo_dst = (7, 53), uo_p = copyPacket [], uo_off = 0\<rparr> 1, App_Fragment 9 2]"
  let ?s = "foldl (session_step 1 4) (new_session 0 4000 0) ?ops"
  have "read_accepts ?s (Some 9)" "\<not> read_accepts ?s (Some 7)"
    by (simp_all add: send_def admit_def insertLocked_def new_session_def kl_empty_def kl_evict_Cons kl_simps
        read_accepts_def knows_def Let_def)
  then show ?thesis using session_replies_only_from_peers [OF _ _ refl, of 1 4 0 4000 0 ?ops "Some 9"] by simp
qed

end
