(* ===== verification/Frag_Tracker.thy ===== *)
theory Frag_Tracker
  imports Udp_Session
begin

text \<open>splittunnel/frag.go: the records that make every fragment of a datagram take the path of its first
  fragment, with the bytes held for datagrams whose first fragment has not come yet.  A flow is named by
  its identity, as in the engine.\<close>

type_synonym frag_key = "ip4 \<times> nat"

datatype frag_kind = FragHeld | FragTunnel | FragCollect | FragDrop

record frag_rec =
  fr_key :: frag_key
  fr_kind :: frag_kind
  fr_f :: "nat option"
  fr_queued :: bool
  fr_held :: "packet_buf list"
  fr_cost :: int
  fr_expires :: time

definition new_frag :: "frag_key \<Rightarrow> frag_kind \<Rightarrow> time \<Rightarrow> frag_rec" where
  "new_frag k kind ex = \<lparr>fr_key = k, fr_kind = kind, fr_f = None, fr_queued = False, fr_held = [], fr_cost = 0, fr_expires = ex\<rparr>"

record frag_tracker =
  ft_kl :: "(frag_key, frag_rec) klist"
  ft_bytes :: int

definition ft_init :: frag_tracker where
  "ft_init = \<lparr>ft_kl = kl_empty, ft_bytes = 0\<rparr>"

definition ft_get :: "frag_tracker \<Rightarrow> frag_key \<Rightarrow> frag_rec option" where
  "ft_get t k = kl_m (ft_kl t) k"

definition ft_len :: "frag_tracker \<Rightarrow> int" where
  "ft_len t = int (length (kl_l (ft_kl t)))"

text \<open>The record evicted, if any, keeps what it holds: the caller flushes it.\<close>

definition ft_add :: "frag_rec \<Rightarrow> int \<Rightarrow> frag_tracker \<Rightarrow> frag_tracker \<times> frag_rec option" where
  "ft_add r mx t = (case kl_m (ft_kl t) (fr_key r) of
       Some old \<Rightarrow> (t\<lparr>ft_kl := kl_push fr_key r (kl_drop fr_key old (ft_kl t))\<rparr>, Some old)
     | None \<Rightarrow> if 0 < mx \<and> mx \<le> ft_len t
         then let front = hd (kl_l (ft_kl t)) in (t\<lparr>ft_kl := kl_push fr_key r (kl_drop fr_key front (ft_kl t))\<rparr>, Some front)
         else (t\<lparr>ft_kl := kl_push fr_key r (ft_kl t)\<rparr>, None))"

text \<open>Records are shared by pointer: a change to one that is in the tracker is seen there.\<close>

definition ft_store :: "frag_rec \<Rightarrow> frag_tracker \<Rightarrow> frag_tracker" where
  "ft_store r t = (if kl_m (ft_kl t) (fr_key r) = None then t
     else t\<lparr>ft_kl := \<lparr>kl_m = (kl_m (ft_kl t))(fr_key r \<mapsto> r),
       kl_l = map (\<lambda>x. if fr_key x = fr_key r then r else x) (kl_l (ft_kl t))\<rparr>\<rparr>)"

definition ft_hold :: "frag_rec \<Rightarrow> packet_buf \<Rightarrow> frag_tracker \<Rightarrow> frag_tracker" where
  "ft_hold r p t = (ft_store (r\<lparr>fr_held := fr_held r @ [p], fr_cost := fr_cost r + bufCost p\<rparr>) t)\<lparr>ft_bytes := ft_bytes t + bufCost p\<rparr>"

text \<open>What a record holds, taken from it; the record itself is emptied.\<close>

definition emptied :: "frag_rec \<Rightarrow> frag_rec" where
  "emptied r = r\<lparr>fr_held := [], fr_cost := 0\<rparr>"

definition ft_takeHeld :: "frag_rec \<Rightarrow> frag_tracker \<Rightarrow> frag_tracker \<times> packet_buf list" where
  "ft_takeHeld r t = (t\<lparr>ft_bytes := ft_bytes t - fr_cost r\<rparr>, fr_held r)"

definition ft_expired :: "time \<Rightarrow> frag_tracker \<Rightarrow> frag_tracker \<times> frag_rec list" where
  "ft_expired now t = (t\<lparr>ft_kl := sweep_front fr_key (\<lambda>r. fr_expires r < now) (kl_m (ft_kl t)) (kl_l (ft_kl t))\<rparr>,
     takeWhile (\<lambda>r. fr_expires r < now) (kl_l (ft_kl t)))"

definition ft_clear :: "frag_tracker \<Rightarrow> frag_tracker \<times> packet_buf list" where
  "ft_clear t = (\<lparr>ft_kl = kl_empty, ft_bytes = ft_bytes t - sum_list (map fr_cost (kl_l (ft_kl t)))\<rparr>,
     concat (map fr_held (kl_l (ft_kl t))))"

section \<open>The accounting\<close>

definition buf_sum :: "packet_buf list \<Rightarrow> int" where
  "buf_sum ps = sum_list (map bufCost ps)"

lemma buf_sum_simps [simp]: "buf_sum [] = 0" "buf_sum (p # ps) = bufCost p + buf_sum ps" "buf_sum (ps @ qs) = buf_sum ps + buf_sum qs"
  by (simp_all add: buf_sum_def)

text \<open>A record accounts for what it holds, and no buffer has a negative size.\<close>

definition frec_ok :: "frag_rec \<Rightarrow> bool" where
  "frec_ok r \<longleftrightarrow> fr_cost r = buf_sum (fr_held r) \<and> list_all (\<lambda>p. 0 \<le> pb_cap p) (fr_held r)"

lemma frec_ok_empty [simp]: "fr_held r = [] \<Longrightarrow> frec_ok r \<longleftrightarrow> fr_cost r = 0"
  by (simp add: frec_ok_def)

definition ft_wf :: "int \<Rightarrow> frag_tracker \<Rightarrow> bool" where
  "ft_wf mx t \<longleftrightarrow> kl_wf fr_key (ft_kl t) \<and> (0 < mx \<longrightarrow> ft_len t \<le> mx) \<and>
     list_all frec_ok (kl_l (ft_kl t)) \<and>
     ft_bytes t = sum_list (map fr_cost (kl_l (ft_kl t)))"

lemma ft_wf_init [simp]: "ft_wf mx ft_init"
  by (simp add: ft_wf_def ft_init_def ft_len_def) (simp add: kl_empty_def)

lemma ft_wfD:
  assumes "ft_wf mx t" and "ft_get t k = Some r"
  shows "r \<in> set (kl_l (ft_kl t))" "fr_key r = k" "frec_ok r"
  using assms by (auto simp: ft_wf_def ft_get_def kl_wfD list_all_iff)

lemma sum_list_remove1: "x \<in> set xs \<Longrightarrow> sum_list (map f (remove1 x xs)) = sum_list (map f xs) - (f x :: int)"
  by (induction xs) auto

lemma list_all_remove1: "list_all P xs \<Longrightarrow> list_all P (remove1 x xs)"
  by (induction xs) auto

lemma ft_drop_push:
  assumes wf: "ft_wf mx t" and old: "old \<in> set (kl_l (ft_kl t))" and r: "frec_ok r"
    and k: "fr_key r = fr_key old \<or> kl_m (ft_kl t) (fr_key r) = None"
  shows "kl_wf fr_key (kl_push fr_key r (kl_drop fr_key old (ft_kl t)))"
    "length (kl_l (kl_push fr_key r (kl_drop fr_key old (ft_kl t)))) = length (kl_l (ft_kl t))"
    "sum_list (map fr_cost (kl_l (kl_push fr_key r (kl_drop fr_key old (ft_kl t)))))
       = sum_list (map fr_cost (kl_l (ft_kl t))) - fr_cost old + fr_cost r"
    "list_all frec_ok (kl_l (kl_push fr_key r (kl_drop fr_key old (ft_kl t))))"
proof -
  have w: "kl_wf fr_key (ft_kl t)" using wf by (simp add: ft_wf_def)
  note d = kl_wf_drop [OF w old]
  have "kl_m (kl_drop fr_key old (ft_kl t)) (fr_key r) = None" using k by (auto simp: kl_simps)
  then show "kl_wf fr_key (kl_push fr_key r (kl_drop fr_key old (ft_kl t)))"
    using kl_wf_push [OF d] kl_wf_None [OF d] by simp
  show "length (kl_l (kl_push fr_key r (kl_drop fr_key old (ft_kl t)))) = length (kl_l (ft_kl t))"
    using old length_pos_if_in_set [OF old] by (simp add: kl_simps length_remove1)
  show "sum_list (map fr_cost (kl_l (kl_push fr_key r (kl_drop fr_key old (ft_kl t)))))
       = sum_list (map fr_cost (kl_l (ft_kl t))) - fr_cost old + fr_cost r"
    using old by (simp add: kl_simps sum_list_remove1)
  show "list_all frec_ok (kl_l (kl_push fr_key r (kl_drop fr_key old (ft_kl t))))"
    using wf r by (simp add: ft_wf_def kl_simps list_all_remove1)
qed

text \<open>Adding a record: the evicted one is out of the list but still accounted until it is flushed.\<close>

lemma ft_add_spec:
  assumes wf: "ft_wf mx t" and r: "frec_ok r"
  shows "case ft_add r mx t of (t', None) \<Rightarrow> ft_wf mx (t'\<lparr>ft_bytes := ft_bytes t + fr_cost r\<rparr>) \<and> ft_get t' (fr_key r) = Some r
    | (t', Some ev) \<Rightarrow> ft_wf mx (t'\<lparr>ft_bytes := ft_bytes t + fr_cost r - fr_cost ev\<rparr>) \<and> ft_get t' (fr_key r) = Some r \<and>
        frec_ok ev \<and> ft_get t (fr_key ev) = Some ev"
proof (cases "kl_m (ft_kl t) (fr_key r)")
  case (Some old)
  then have old: "old \<in> set (kl_l (ft_kl t))" "fr_key old = fr_key r" "frec_ok old"
    using ft_wfD [OF wf, of "fr_key r" old] by (simp_all add: ft_get_def)
  show ?thesis
    using ft_drop_push [OF wf old(1) r] wf old Some by (simp add: ft_add_def ft_wf_def ft_len_def ft_get_def) (simp add: kl_simps)
next
  case None
  show ?thesis
  proof (cases "0 < mx \<and> mx \<le> ft_len t")
    case True
    then have front: "hd (kl_l (ft_kl t)) \<in> set (kl_l (ft_kl t))" by (cases "kl_l (ft_kl t)") (auto simp: ft_len_def)
    then have c: "frec_ok (hd (kl_l (ft_kl t)))" 
      "ft_get t (fr_key (hd (kl_l (ft_kl t)))) = Some (hd (kl_l (ft_kl t)))"
      using wf by (auto simp: ft_wf_def list_all_iff ft_get_def kl_wfD)
    show ?thesis
      using ft_drop_push [OF wf front r] wf True None c
      by (simp add: ft_add_def ft_wf_def ft_len_def ft_get_def Let_def) (simp add: kl_simps)
  next
    case False
    have w: "kl_wf fr_key (ft_kl t)" using wf by (simp add: ft_wf_def)
    have "kl_wf fr_key (kl_push fr_key r (ft_kl t))" using kl_wf_push [OF w] None kl_wf_None [OF w] by simp
    then show ?thesis using False None wf r by (auto simp: ft_add_def ft_wf_def ft_len_def ft_get_def kl_simps)
  qed
qed

lemma kl_replace:
  assumes wf: "kl_wf key c" and old: "kl_m c (key r) = Some old"
  defines "l \<equiv> map (\<lambda>x. if key x = key r then r else x) (kl_l c)"
  shows "kl_wf key \<lparr>kl_m = (kl_m c)(key r \<mapsto> r), kl_l = l\<rparr>" "length l = length (kl_l c)"
    "sum_list (map f l) = sum_list (map f (kl_l c)) - f old + (f r :: int)"
    "x \<in> set l \<Longrightarrow> x = r \<or> x \<in> set (kl_l c)"
proof -
  have o: "old \<in> set (kl_l c)" "key old = key r"
    using kl_wfD [OF wf, of "key r" old] old by simp_all
  have inj: "\<And>x. x \<in> set (kl_l c) \<Longrightarrow> key x = key r \<Longrightarrow> x = old"
    using kl_wf_inj [OF wf _ o(1)] o(2) by simp
  have "map key l = map key (kl_l c)" by (simp add: l_def)
  then have d: "distinct (map key l)" using wf by (simp only: kl_wf_def)
  have mem: "e \<in> set l \<longleftrightarrow> e = r \<or> (e \<in> set (kl_l c) \<and> key e \<noteq> key r)" for e
    using o unfolding l_def set_map image_iff by (auto split: if_splits)
  have m: "((kl_m c)(key r \<mapsto> r)) k = Some e \<longleftrightarrow> e \<in> set l \<and> key e = k" for k e
    using mem [of e] kl_wfD [OF wf, of k e] by (cases "k = key r") auto
  show "kl_wf key \<lparr>kl_m = (kl_m c)(key r \<mapsto> r), kl_l = l\<rparr>" using d m by (simp add: kl_wf_def)
  show "length l = length (kl_l c)" by (simp add: l_def)
  show "x \<in> set l \<Longrightarrow> x = r \<or> x \<in> set (kl_l c)" by (auto simp: l_def split: if_splits)
  have dl: "distinct (kl_l c)" using wf by (auto simp: kl_wf_def distinct_map)
  have "(key x = key r) = (x = old)" if "x \<in> set (kl_l c)" for x
    using inj [OF that] o(2) by blast
  then have eq: "l = map (\<lambda>x. if x = old then r else x) (kl_l c)" unfolding l_def by (intro map_cong) simp_all
  have "sum_list (map f (map (\<lambda>x. if x = old then r else x) xs)) =
      sum_list (map f xs) + (if old \<in> set xs then f r - f old else 0)" if "distinct xs" for xs
    using that by (induction xs) auto
  then show "sum_list (map f l) = sum_list (map f (kl_l c)) - f old + f r" using dl o(1) by (simp add: eq)
qed

lemma ft_store_spec:
  assumes wf: "ft_wf mx t" and old: "ft_get t (fr_key r) = Some old" and r: "frec_ok r"
  shows "ft_wf mx ((ft_store r t)\<lparr>ft_bytes := ft_bytes t - fr_cost old + fr_cost r\<rparr>)"
    "ft_get (ft_store r t) k = (if k = fr_key r then Some r else ft_get t k)"
proof -
  have w: "kl_wf fr_key (ft_kl t)" and m: "kl_m (ft_kl t) (fr_key r) = Some old"
    using wf old by (simp_all add: ft_wf_def ft_get_def)
  note k = kl_replace [OF w m]
  have "list_all frec_ok (map (\<lambda>x. if fr_key x = fr_key r then r else x) (kl_l (ft_kl t)))"
    using wf r k(4) by (auto simp: ft_wf_def list_all_iff)
  then show "ft_wf mx ((ft_store r t)\<lparr>ft_bytes := ft_bytes t - fr_cost old + fr_cost r\<rparr>)"
    using wf m k(1-3) by (auto simp: ft_store_def ft_wf_def ft_len_def)
  show "ft_get (ft_store r t) k = (if k = fr_key r then Some r else ft_get t k)"
    using m by (simp add: ft_store_def ft_get_def)
qed

lemma ft_hold_spec:
  assumes wf: "ft_wf mx t" and r: "ft_get t (fr_key r) = Some r" and p: "0 \<le> pb_cap p"
  shows "ft_wf mx (ft_hold r p t)" "ft_bytes (ft_hold r p t) = ft_bytes t + bufCost p"
    "ft_get (ft_hold r p t) (fr_key r) = Some (r\<lparr>fr_held := fr_held r @ [p], fr_cost := fr_cost r + bufCost p\<rparr>)"
proof -
  let ?r = "r\<lparr>fr_held := fr_held r @ [p], fr_cost := fr_cost r + bufCost p\<rparr>"
  have c: "frec_ok ?r" "ft_get t (fr_key ?r) = Some r"
    using ft_wfD(3) [OF wf r] r p by (simp_all add: frec_ok_def)
  show "ft_wf mx (ft_hold r p t)" using ft_store_spec(1) [OF wf c(2,1)] by (simp add: ft_hold_def)
  show "ft_bytes (ft_hold r p t) = ft_bytes t + bufCost p" by (simp add: ft_hold_def)
  show "ft_get (ft_hold r p t) (fr_key r) = Some ?r"
    using ft_store_spec(2) [OF wf c(2,1), of "fr_key r"] by (simp add: ft_hold_def ft_get_def)
qed

text \<open>Emptying a record of the tracker, and rewriting the verdict of an emptied one.\<close>

lemma ft_flush_spec:
  assumes wf: "ft_wf mx t" and r: "ft_get t (fr_key r) = Some r" and r': "fr_key r' = fr_key r" "fr_held r' = []" "fr_cost r' = 0"
  shows "ft_wf mx (ft_store r' (fst (ft_takeHeld r t)))" "ft_get (ft_store r' (fst (ft_takeHeld r t))) (fr_key r) = Some r'"
    "ft_bytes (ft_store r' (fst (ft_takeHeld r t))) = ft_bytes t - fr_cost r"
proof -
  have c: "frec_ok r'" "ft_get t (fr_key r') = Some r" using r r' by simp_all
  have b: "ft_bytes (ft_store r' t') = ft_bytes t'" for t' by (simp add: ft_store_def)
  have st: "ft_store r' (t\<lparr>ft_bytes := x\<rparr>) = (ft_store r' t)\<lparr>ft_bytes := x\<rparr>" for x by (simp add: ft_store_def)
  show "ft_wf mx (ft_store r' (fst (ft_takeHeld r t)))"
    using ft_store_spec(1) [OF wf c(2,1)] r' by (simp add: ft_takeHeld_def st)
  show "ft_get (ft_store r' (fst (ft_takeHeld r t))) (fr_key r) = Some r'"
    using ft_store_spec(2) [OF wf c(2,1), of "fr_key r"] r' by (simp add: ft_takeHeld_def st ft_get_def)
  show "ft_bytes (ft_store r' (fst (ft_takeHeld r t))) = ft_bytes t - fr_cost r" by (simp add: b ft_takeHeld_def)
qed

text \<open>Ageing takes the expired records off the front and accounts for what they held once flushed.\<close>

lemma ft_expired_spec:
  assumes wf: "ft_wf mx t"
  shows "ft_wf mx (foldl (\<lambda>t r. fst (ft_takeHeld r t)) (fst (ft_expired now t)) (snd (ft_expired now t)))"
proof -
  let ?k = "sweep_front fr_key (\<lambda>r. fr_expires r < now) (kl_m (ft_kl t)) (kl_l (ft_kl t))"
  have k: "kl_wf fr_key ?k" "kl_l ?k = dropWhile (\<lambda>r. fr_expires r < now) (kl_l (ft_kl t))"
    using wf sweep_front_spec [of fr_key "kl_m (ft_kl t)" "kl_l (ft_kl t)"] by (simp_all add: ft_wf_def)
  have f: "foldl (\<lambda>t r. fst (ft_takeHeld r t)) t' rs = t'\<lparr>ft_bytes := ft_bytes t' - sum_list (map fr_cost rs)\<rparr>" for t' rs
    by (induction rs arbitrary: t') (simp_all add: ft_takeHeld_def)
  have l: "kl_l (ft_kl t) = takeWhile (\<lambda>r. fr_expires r < now) (kl_l (ft_kl t)) @ kl_l ?k" using k(2) by simp
  have s: "sum_list (map fr_cost (kl_l (ft_kl t))) =
      sum_list (map fr_cost (takeWhile (\<lambda>r. fr_expires r < now) (kl_l (ft_kl t)))) + sum_list (map fr_cost (kl_l ?k))"
    by (subst l) simp
  have "length (kl_l ?k) \<le> length (kl_l (ft_kl t))" unfolding k(2) by (rule length_dropWhile_le)
  then show ?thesis
    using wf k s unfolding f ft_expired_def
    by (auto simp: ft_wf_def ft_len_def list_all_iff dest: set_dropWhileD)
qed

lemma ft_clear_wf: "ft_wf mx t \<Longrightarrow> fst (ft_clear t) = ft_init"
  by (simp add: ft_clear_def ft_wf_def ft_init_def)

section \<open>The tracker as a bounded table\<close>

definition frag_ins :: "int \<Rightarrow> frag_tracker \<Rightarrow> frag_key \<Rightarrow> frag_kind \<times> time \<Rightarrow> frag_tracker" where
  "frag_ins mx t k v = (case ft_add (new_frag k (fst v) (snd v)) mx t of (t', None) \<Rightarrow> t' | (t', Some ev) \<Rightarrow> fst (ft_takeHeld ev t'))"

definition frag_verdict :: "frag_tracker \<Rightarrow> frag_key \<Rightarrow> (frag_kind \<times> time) option" where
  "frag_verdict t k = map_option (\<lambda>r. (fr_kind r, fr_expires r)) (ft_get t k)"

lemma ft_add_get_other:
  assumes wf: "ft_wf mx t" and k: "k \<noteq> fr_key r"
  shows "ft_get (fst (ft_add r mx t)) k = Some x \<Longrightarrow> ft_get t k = Some x"
    "ft_len t < mx \<Longrightarrow> ft_get (fst (ft_add r mx t)) k = ft_get t k"
  using k ft_wfD(2) [OF wf] by (auto simp: ft_add_def ft_get_def kl_simps Let_def split: option.splits if_splits)

lemma new_frag_cost: "frec_ok (new_frag k a b)" "fr_key (new_frag k a b) = k"
  by (simp_all add: new_frag_def)

lemma ft_add_bytes: "ft_bytes (fst (ft_add r mx t)) = ft_bytes t"
  by (simp add: ft_add_def Let_def split: option.split)

lemma frag_ins_spec:
  assumes "ft_wf mx t"
  shows "ft_wf mx (frag_ins mx t k v)" "frag_verdict (frag_ins mx t k v) k = Some v"
    "ft_get (frag_ins mx t k v) = ft_get (fst (ft_add (new_frag k (fst v) (snd v)) mx t))"
proof -
  let ?r = "new_frag k (fst v) (snd v)"
  have *: "ft_bytes t + fr_cost ?r = ft_bytes t" by (simp add: new_frag_def)
  obtain t' ev where a: "ft_add ?r mx t = (t', ev)" by (cases "ft_add ?r mx t")
  have b: "ft_bytes t' = ft_bytes t" using ft_add_bytes [of ?r mx t] a by simp
  then have b': "t'\<lparr>ft_bytes := ft_bytes t\<rparr> = t'" by simp
  have i: "frag_ins mx t k v = (case ev of None \<Rightarrow> t' | Some ev \<Rightarrow> t'\<lparr>ft_bytes := ft_bytes t - fr_cost ev\<rparr>)"
    using b by (simp add: frag_ins_def a ft_takeHeld_def split: option.split)
  note s = ft_add_spec [OF assms new_frag_cost(1) [of k "fst v" "snd v"], unfolded a prod.case *]
  show "ft_wf mx (frag_ins mx t k v)" using s b' by (auto simp: i split: option.splits)
  show g: "ft_get (frag_ins mx t k v) = ft_get (fst (ft_add ?r mx t))"
    by (simp add: i a ft_get_def fun_eq_iff split: option.split)
  have "ft_get t' k = Some ?r" using s by (auto simp: new_frag_cost split: option.splits)
  then show "frag_verdict (frag_ins mx t k v) k = Some v"
    unfolding frag_verdict_def g a by (simp add: new_frag_def)
qed

interpretation frt: bounded_table "ft_wf mx" frag_verdict "frag_ins mx" ft_len "\<lambda>_. mx" for mx :: int
proof
  fix t :: frag_tracker and k k' :: frag_key and v w :: "frag_kind \<times> time"
  show "ft_wf mx t \<Longrightarrow> ft_wf mx (frag_ins mx t k v)" by (rule frag_ins_spec(1))
  show "ft_wf mx t \<Longrightarrow> 0 < mx \<Longrightarrow> ft_len t \<le> mx" by (simp add: ft_wf_def)
  show "ft_wf mx t \<Longrightarrow> frag_verdict (frag_ins mx t k v) k = Some v" by (rule frag_ins_spec(2))
  show "ft_wf mx t \<Longrightarrow> k' \<noteq> k \<Longrightarrow> frag_verdict (frag_ins mx t k v) k' = Some w \<Longrightarrow> frag_verdict t k' = Some w"
    using ft_add_get_other(1) [of mx t k' "new_frag k (fst v) (snd v)"]
    by (auto simp: frag_verdict_def frag_ins_spec(3) new_frag_cost)
  show "ft_wf mx t \<Longrightarrow> ft_len t < mx \<Longrightarrow> k' \<noteq> k \<Longrightarrow> frag_verdict (frag_ins mx t k v) k' = frag_verdict t k'"
    using ft_add_get_other(2) [of mx t k' "new_frag k (fst v) (snd v)"]
    by (simp add: frag_verdict_def frag_ins_spec(3) new_frag_cost)
qed simp

end
