(* ===== verification/Engine_State.thy ===== *)
theory Engine_State
  imports Frag_Tracker
begin

text \<open>splittunnel/engine.go and rules.go: the state of the split-tunnel engine and the helpers every
  handler uses.  Flows and UDP sessions are objects behind pointers: a pointer is the index of an
  object in a heap that only grows, so that a callback which kept an old pointer can be told from
  the entry that replaced it.  Atomics and fields of the Device and the Controller the engine
  reads (rules in force, permitted, engine down, tunnel only, addresses) are fields of the state.
  Statistics counters and rate-limited log lines are left out.\<close>

section \<open>Rule sets\<close>

text \<open>The matcher interface: \<open>rs_id\<close> is the generation (the pointer), \<open>rs_match\<close> is MatchChain.\<close>

record rule_set =
  rs_id :: nat
  rs_empty :: bool
  rs_match :: "string list \<Rightarrow> bool"

definition rs_allows :: "rule_set \<Rightarrow> string list \<Rightarrow> bool" where
  "rs_allows rs chain \<longleftrightarrow> \<not> rs_empty rs \<and> 0 < length chain \<and> rs_match rs chain"

definition rs_sameAs :: "(rule_set \<Rightarrow> rule_set \<Rightarrow> bool) \<Rightarrow> rule_set \<Rightarrow> rule_set \<Rightarrow> bool" where
  "rs_sameAs sameRules rs r \<longleftrightarrow> (if rs_empty rs \<or> rs_empty r then rs_empty rs \<and> rs_empty r else sameRules rs r)"

datatype verdict = VerdictTunnel | VerdictBypass

record owner =
  ow_pid :: int
  ow_start :: int
  ow_sock :: int
  ow_chain :: "string list"

record match_result =
  mr_verdict :: verdict
  mr_owner :: owner

definition no_owner :: owner where
  "no_owner = \<lparr>ow_pid = 0, ow_start = 0, ow_sock = 0, ow_chain = []\<rparr>"

definition no_result :: match_result where
  "no_result = \<lparr>mr_verdict = VerdictTunnel, mr_owner = no_owner\<rparr>"

section \<open>Limits\<close>

record limits =
  lim_outQueue :: int
  lim_pendingFlows :: int
  lim_pendingBytes :: int
  lim_tcpQueue :: int
  lim_bypassTCP :: int
  lim_cacheEntries :: int
  lim_batch :: int
  lim_pendingTimeout :: int
  lim_tunnelTTL :: int
  lim_linger :: int
  lim_lingerCap :: int
  lim_dialFailLinger :: int
  lim_endedTTL :: int
  lim_embryonicTTL :: int
  lim_scanEvery :: int
  lim_udpQueueBytes :: int
  lim_udpSessions :: int
  lim_udpCreating :: int
  lim_udpPeers :: int
  lim_udpSendQ :: int
  lim_udpFresh :: int
  lim_udpRevalidate :: int
  lim_udpIdle :: int
  lim_validateEvery :: int
  lim_validateStale :: int
  lim_failSafeBase :: int
  lim_failSafeMax :: int
  lim_egressBackoff :: int
  lim_fragTTL :: int
  lim_fragMax :: int
  lim_fragBytes :: int

definition seconds :: "int \<Rightarrow> int" where
  "seconds n = n * 1000000000"

definition defaultLimits :: limits where
  "defaultLimits = \<lparr>lim_outQueue = 1024, lim_pendingFlows = 1024, lim_pendingBytes = 4 * 1048576, lim_tcpQueue = 32,
     lim_bypassTCP = 2048, lim_cacheEntries = 65536, lim_batch = 64, lim_pendingTimeout = seconds 1,
     lim_tunnelTTL = seconds 30, lim_linger = seconds 41, lim_lingerCap = 8192, lim_dialFailLinger = seconds 10,
     lim_endedTTL = seconds 120, lim_embryonicTTL = seconds 30, lim_scanEvery = seconds 1,
     lim_udpQueueBytes = 112 * 1024, lim_udpSessions = 1024, lim_udpCreating = 64, lim_udpPeers = 4096, lim_udpSendQ = 64,
     lim_udpFresh = seconds 1, lim_udpRevalidate = seconds 30, lim_udpIdle = seconds 120, lim_validateEvery = seconds 1,
     lim_validateStale = seconds 5, lim_failSafeBase = seconds 5, lim_failSafeMax = seconds 60,
     lim_egressBackoff = seconds 5, lim_fragTTL = seconds 2, lim_fragMax = 256, lim_fragBytes = 4 * 1048576\<rparr>"

section \<open>Flows\<close>

datatype action = ActTunnel | ActDrop | ActStack | ActHeld

datatype flow_state = StatePending | StateTunnel | StateBypass | StateLinger

text \<open>A splice to reset: the gVisor endpoint and the physical connection, as handles.\<close>

record abort_target =
  at_ep :: "nat option"
  at_phys :: "nat option"

record flow =
  fl_proto :: nat
  fl_key :: flow_key
  fl_isn :: int
  fl_state :: flow_state
  fl_draining :: bool
  fl_submitted :: bool
  fl_deadline :: time
  fl_queue :: "packet_buf list"
  fl_queueCost :: int
  fl_owner :: owner
  fl_prev :: "abort_target list"
  fl_awaitingDial :: bool
  fl_live :: bool
  fl_aborted :: bool
  fl_endedAt :: time
  fl_ep :: "nat option"
  fl_phys :: "nat option"
  fl_sess :: "nat option"
  fl_validatedAt :: time
  fl_lastSeen :: time
  fl_expiresAt :: time
  fl_holdDeadline :: time
  fl_failStreak :: int
  fl_failSafe :: bool
  fl_egressDown :: bool
  fl_revalidating :: bool
  fl_holding :: bool

text \<open>The zero flow with the fields a literal sets.\<close>

definition pending_flow :: "nat \<Rightarrow> flow_key \<Rightarrow> time \<Rightarrow> flow" where
  "pending_flow proto key deadline = \<lparr>fl_proto = proto, fl_key = key, fl_isn = 0, fl_state = StatePending,
     fl_draining = False, fl_submitted = False, fl_deadline = deadline, fl_queue = [], fl_queueCost = 0,
     fl_owner = no_owner, fl_prev = [], fl_awaitingDial = False, fl_live = False, fl_aborted = False, fl_endedAt = 0,
     fl_ep = None, fl_phys = None, fl_sess = None, fl_validatedAt = 0, fl_lastSeen = 0, fl_expiresAt = 0,
     fl_holdDeadline = 0, fl_failStreak = 0, fl_failSafe = False, fl_egressDown = False, fl_revalidating = False,
     fl_holding = False\<rparr>"

section \<open>The engine\<close>

record engine =
  e_lim :: limits
  e_addr :: ip4
  e_dns :: "ip4 list"
  e_rules :: rule_set
  e_permitted :: bool
  e_engDown :: bool
  e_tunnelOnly :: bool
  e_out :: "packet_buf list"
  e_stack :: "byte list list"
  e_kick :: bool
  e_closed :: bool
  e_heap :: "nat \<Rightarrow> flow"
  e_next :: nat
  e_sessions :: "nat \<Rightarrow> udp_session"
  e_nextSess :: nat
  e_tcp :: "flow_key \<Rightarrow> nat option"
  e_tcpLen :: int
  e_pendingQ :: "nat list"
  e_inflight :: "nat list"
  e_pending :: int
  e_pendingCost :: int
  e_bypassTCP :: int
  e_tunnelTCP :: fifo_cache
  e_endedTCP :: fifo_cache
  e_lastScan :: time
  e_udp :: "nat \<Rightarrow> nat option"
  e_udpLive :: "nat list"
  e_revalQ :: "nat list"
  e_holdQ :: "nat list"
  e_udpCreating :: int
  e_egressDownTo :: time
  e_valDue :: bool
  e_lastValidate :: time
  e_endedUDP :: fifo_cache
  e_frags :: frag_tracker

definition newEngine :: "limits \<Rightarrow> ip4 \<Rightarrow> ip4 list \<Rightarrow> rule_set \<Rightarrow> engine" where
  "newEngine lim addr dns rs = \<lparr>e_lim = lim, e_addr = addr, e_dns = dns, e_rules = rs, e_permitted = False, e_engDown = False,
     e_tunnelOnly = False, e_out = [], e_stack = [], e_kick = False, e_closed = False,
     e_heap = (\<lambda>_. pending_flow 0 \<lparr>fk_port = 0, fk_dst = (0, 0)\<rparr> 0), e_next = 0,
     e_sessions = (\<lambda>_. new_session 0 0 0), e_nextSess = 0, e_tcp = Map.empty, e_tcpLen = 0, e_pendingQ = [], e_inflight = [],
     e_pending = 0, e_pendingCost = 0, e_bypassTCP = 0, e_tunnelTCP = fc_init (lim_cacheEntries lim),
     e_endedTCP = fc_init (lim_cacheEntries lim), e_lastScan = 0, e_udp = Map.empty, e_udpLive = [], e_revalQ = [], e_holdQ = [],
     e_udpCreating = 0, e_egressDownTo = 0, e_valDue = False, e_lastValidate = 0,
     e_endedUDP = fc_init (lim_cacheEntries lim), e_frags = ft_init\<rparr>"

text \<open>Reading and updating the flow behind a pointer.\<close>

definition fl :: "engine \<Rightarrow> nat \<Rightarrow> flow" where
  "fl e i = e_heap e i"

definition mod_fl :: "nat \<Rightarrow> (flow \<Rightarrow> flow) \<Rightarrow> engine \<Rightarrow> engine" where
  "mod_fl i g e = e\<lparr>e_heap := (e_heap e)(i := g (e_heap e i))\<rparr>"

definition alloc_fl :: "flow \<Rightarrow> engine \<Rightarrow> engine \<times> nat" where
  "alloc_fl f e = (e\<lparr>e_heap := (e_heap e)(e_next e := f), e_next := Suc (e_next e)\<rparr>, e_next e)"

section \<open>Helpers of the handlers\<close>

definition kickWorker :: "engine \<Rightarrow> engine" where
  "kickWorker e = e\<lparr>e_kick := True\<rparr>"

definition pushOut :: "packet_buf \<Rightarrow> engine \<Rightarrow> engine" where
  "pushOut p e = (if int (length (e_out e)) < lim_outQueue (e_lim e) then e\<lparr>e_out := e_out e @ [p]\<rparr> else e)"

text \<open>link.deliver: the packet is handed to the in-process TCP/IP stack.\<close>

definition to_stack :: "byte list \<Rightarrow> engine \<Rightarrow> engine" where
  "to_stack b e = e\<lparr>e_stack := e_stack e @ [b]\<rparr>"

definition gateOpen :: "engine \<Rightarrow> bool" where
  "gateOpen e \<longleftrightarrow> \<not> rs_empty (e_rules e) \<and> e_permitted e \<and> \<not> e_engDown e \<and> \<not> e_tunnelOnly e"

definition currentLocked :: "engine \<Rightarrow> nat \<Rightarrow> bool" where
  "currentLocked e i = (if fl_proto (fl e i) = protoUDP then e_udp e (fk_port (fl_key (fl e i))) = Some i
     else e_tcp e (fl_key (fl e i)) = Some i)"

definition takeQueueLocked :: "nat \<Rightarrow> engine \<Rightarrow> engine \<times> packet_buf list" where
  "takeQueueLocked i e = ((mod_fl i (\<lambda>f. f\<lparr>fl_queue := [], fl_queueCost := 0\<rparr>) e)
     \<lparr>e_pendingCost := e_pendingCost e - fl_queueCost (fl e i)\<rparr>, fl_queue (fl e i))"

definition dropQueueLocked :: "nat \<Rightarrow> engine \<Rightarrow> engine" where
  "dropQueueLocked i e = fst (takeQueueLocked i e)"

definition releaseLiveLocked :: "nat \<Rightarrow> engine \<Rightarrow> engine" where
  "releaseLiveLocked i e = (if fl_live (fl e i)
     then (mod_fl i (\<lambda>f. f\<lparr>fl_live := False\<rparr>) e)\<lparr>e_bypassTCP := e_bypassTCP e - 1\<rparr> else e)"

text \<open>Map stores and deletes keep the length Go's len answers.\<close>

definition tcp_delete :: "flow_key \<Rightarrow> engine \<Rightarrow> engine" where
  "tcp_delete k e = e\<lparr>e_tcp := (e_tcp e)(k := None), e_tcpLen := e_tcpLen e - (if e_tcp e k = None then 0 else 1)\<rparr>"

definition tcp_store :: "flow_key \<Rightarrow> nat \<Rightarrow> engine \<Rightarrow> engine" where
  "tcp_store k i e = e\<lparr>e_tcp := (e_tcp e)(k \<mapsto> i), e_tcpLen := e_tcpLen e + (if e_tcp e k = None then 1 else 0)\<rparr>"

definition udp_delete :: "nat \<Rightarrow> engine \<Rightarrow> engine" where
  "udp_delete p e = e\<lparr>e_udp := (e_udp e)(p := None)\<rparr>"

definition udp_store :: "nat \<Rightarrow> nat \<Rightarrow> engine \<Rightarrow> engine" where
  "udp_store p i e = e\<lparr>e_udp := (e_udp e)(p \<mapsto> i)\<rparr>"

definition mod_sess :: "nat \<Rightarrow> (udp_session \<Rightarrow> udp_session) \<Rightarrow> engine \<Rightarrow> engine" where
  "mod_sess s g e = e\<lparr>e_sessions := (e_sessions e)(s := g (e_sessions e s))\<rparr>"

text \<open>The verdict under the rules in force, recomputed from the owner chain when the rules changed
  while the lookup ran.\<close>

definition bypassVerdictLocked :: "match_result \<Rightarrow> rule_set option \<Rightarrow> engine \<Rightarrow> bool" where
  "bypassVerdictLocked res classified e = (case classified of None \<Rightarrow> False
     | Some rs \<Rightarrow> if \<not> gateOpen e then False
         else if rs_id (e_rules e) \<noteq> rs_id rs then rs_allows (e_rules e) (ow_chain (mr_owner res))
         else mr_verdict res = VerdictBypass)"

end
