(* ===== verification/Engine_TCP.thy ===== *)
theory Engine_TCP
  imports Engine_State
begin

text \<open>splittunnel/engine.go and tcp.go: the TCP flow table.  Each operation holds the flow mutex for its
  whole body and is one function of the engine state.  What must be reset outside the lock is
  returned as a list of targets.\<close>

definition enqueueLocked :: "nat \<Rightarrow> byte list \<Rightarrow> engine \<Rightarrow> engine \<times> action" where
  "enqueueLocked i pkt e =
    (if lim_tcpQueue (e_lim e) \<le> int (length (fl_queue (fl e i))) \<and> \<not> fl_draining (fl e i) then (e, ActDrop)
     else let p = copyPacket pkt; cost = bufCost p in
       if lim_pendingBytes (e_lim e) < e_pendingCost e + cost then (e, ActDrop)
       else ((mod_fl i (\<lambda>f. f\<lparr>fl_queue := fl_queue f @ [p], fl_queueCost := fl_queueCost f + cost\<rparr>) e)
               \<lparr>e_pendingCost := e_pendingCost e + cost\<rparr>, ActHeld))"

text \<open>The caps and the gate a new flow must pass.\<close>

definition may_classify :: "engine \<Rightarrow> bool" where
  "may_classify e \<longleftrightarrow> \<not> (\<not> gateOpen e \<or> lim_pendingFlows (e_lim e) \<le> e_pending e \<or>
     lim_pendingBytes (e_lim e) < e_pendingCost e + engineBufSize)"

definition newTCPLocked :: "flow_key \<Rightarrow> int \<Rightarrow> byte list \<Rightarrow> time \<Rightarrow> abort_target list \<Rightarrow> engine \<Rightarrow> engine \<times> action \<times> abort_target list" where
  "newTCPLocked key isn pkt now prev e =
    (if \<not> may_classify e then (e, ActTunnel, prev)
     else let f = (pending_flow protoTCP key (now + lim_pendingTimeout (e_lim e)))\<lparr>fl_isn := isn, fl_prev := prev\<rparr>;
              (e1, i) = alloc_fl f e;
              e2 = (tcp_store key i e1)\<lparr>e_pending := e_pending e + 1, e_pendingQ := e_pendingQ e @ [i]\<rparr>
          in (kickWorker (fst (enqueueLocked i pkt e2)), ActHeld, []))"

definition dropFlowLocked :: "nat \<Rightarrow> engine \<Rightarrow> engine \<times> abort_target list" where
  "dropFlowLocked i e =
    (let f = fl e i;
         e1 = (if e_tcp e (fl_key f) = Some i then tcp_delete (fl_key f) e else e);
         e2 = (if fl_state f = StatePending then e1\<lparr>e_pending := e_pending e1 - 1\<rparr> else e1);
         e3 = dropQueueLocked i e2;
         e4 = (if fl_awaitingDial f then releaseLiveLocked i (mod_fl i (\<lambda>f. f\<lparr>fl_awaitingDial := False\<rparr>) e3) else e3);
         e5 = mod_fl i (\<lambda>f. f\<lparr>fl_aborted := True, fl_prev := []\<rparr>) e4
     in (e5, fl_prev f @ (if fl_ep f \<noteq> None \<or> fl_phys f \<noteq> None then [\<lparr>at_ep = fl_ep f, at_phys = fl_phys f\<rparr>] else [])))"

definition abortLocked :: "nat \<Rightarrow> time \<Rightarrow> engine \<Rightarrow> engine \<times> abort_target" where
  "abortLocked i now e =
    (let e1 = mod_fl i (\<lambda>f. f\<lparr>fl_aborted := True, fl_state := StateLinger, fl_endedAt := now,
           fl_deadline := now + lim_linger (e_lim e)\<rparr>) e;
         e2 = (if fl_awaitingDial (fl e i) then releaseLiveLocked i (mod_fl i (\<lambda>f. f\<lparr>fl_awaitingDial := False\<rparr>) e1) else e1)
     in (e2, \<lparr>at_ep = fl_ep (fl e i), at_phys = fl_phys (fl e i)\<rparr>))"

text \<open>The flags decideTCP tests: a SYN without ACK.\<close>

definition tcp_syn :: "pkt_info \<Rightarrow> bool" where
  "tcp_syn info \<longleftrightarrow> pi_flags info AND 2 \<noteq> 0 \<and> pi_flags info AND 16 = 0"

definition tcp_key :: "pkt_info \<Rightarrow> flow_key" where
  "tcp_key info = \<lparr>fk_port = pi_srcPort info, fk_dst = (pi_dst info, pi_dstPort info)\<rparr>"

definition decideTCP :: "pkt_info \<Rightarrow> byte list \<Rightarrow> time \<Rightarrow> engine \<Rightarrow> engine \<times> action \<times> abort_target list" where
  "decideTCP info pkt now e =
    (let key = tcp_key info; syn = tcp_syn info in
     if e_closed e then (e, ActTunnel, [])
     else case e_tcp e key of
       Some i \<Rightarrow> let f = fl e i in
         if syn \<and> (fl_isn f \<noteq> pi_seq info \<or> fl_state f = StateLinger \<or> fl_aborted f) then
           (let (e1, prev) = dropFlowLocked i e in newTCPLocked key (pi_seq info) pkt now prev e1)
         else if fl_state f = StatePending \<or> fl_draining f then
           (let (e1, act) = enqueueLocked i pkt e in (e1, act, []))
         else if fl_state f = StateTunnel then (e, ActTunnel, [])
         else (e, ActStack, [])
     | None \<Rightarrow> (let (tc, ce) = fc_get (e_tunnelTCP e) key now; e1 = e\<lparr>e_tunnelTCP := tc\<rparr> in
         case ce of
           Some ce \<Rightarrow> if syn \<and> ce_isn ce \<noteq> pi_seq info
             then newTCPLocked key (pi_seq info) pkt now [] (e1\<lparr>e_tunnelTCP := fc_remove tc key\<rparr>)
             else (e1, ActTunnel, [])
         | None \<Rightarrow> (let (ec, ee) = fc_get (e_endedTCP e1) key now; e2 = e1\<lparr>e_endedTCP := ec\<rparr> in
             case ee of
               Some _ \<Rightarrow> if syn then newTCPLocked key (pi_seq info) pkt now [] (e2\<lparr>e_endedTCP := fc_remove ec key\<rparr>)
                 else (e2, ActDrop, [])
             | None \<Rightarrow> if syn then newTCPLocked key (pi_seq info) pkt now [] e2 else (e2, ActTunnel, []))))"

section \<open>Installing a verdict and draining\<close>

datatype sink = SinkOut | SinkStack | SinkSession nat

definition sinkLocked :: "nat \<Rightarrow> engine \<Rightarrow> sink" where
  "sinkLocked i e = (let f = fl e i in
     if fl_proto f = protoTCP \<and> fl_state f = StateTunnel then SinkOut
     else if fl_proto f = protoTCP then SinkStack
     else case fl_sess f of Some s \<Rightarrow> if fl_state f = StateBypass then SinkSession s else SinkOut | None \<Rightarrow> SinkOut)"

text \<open>The TCP part of resolveAt: None when the flow is no longer pending; otherwise the splices to reset
  and the queue to drain.\<close>

definition resolveTCP :: "nat \<Rightarrow> match_result \<Rightarrow> rule_set option \<Rightarrow> time \<Rightarrow> engine
    \<Rightarrow> engine \<times> (abort_target list \<times> packet_buf list \<times> sink) option" where
  "resolveTCP i res classified now e =
    (if e_closed e \<or> \<not> currentLocked e i \<or> fl_state (fl e i) \<noteq> StatePending then (e, None)
     else let bypass = (e_bypassTCP e < lim_bypassTCP (e_lim e) \<and> bypassVerdictLocked res classified e);
              e1 = e\<lparr>e_pending := e_pending e - 1\<rparr>;
              e2 = mod_fl i (\<lambda>f. f\<lparr>fl_submitted := False, fl_owner := mr_owner res, fl_draining := True\<rparr>) e1;
              e3 = (if bypass
                then (mod_fl i (\<lambda>f. f\<lparr>fl_state := StateBypass, fl_live := True, fl_awaitingDial := True,
                        fl_deadline := now + lim_embryonicTTL (e_lim e)\<rparr>) e2)\<lparr>e_bypassTCP := e_bypassTCP e2 + 1\<rparr>
                else mod_fl i (\<lambda>f. f\<lparr>fl_state := StateTunnel\<rparr>) e2);
              prev = fl_prev (fl e i);
              (e4, q) = takeQueueLocked i (mod_fl i (\<lambda>f. f\<lparr>fl_prev := []\<rparr>) e3)
          in (e4, Some (prev, q, if bypass then SinkStack else SinkOut)))"

definition drainNext :: "nat \<Rightarrow> time \<Rightarrow> engine \<Rightarrow> engine \<times> (packet_buf list \<times> sink) option" where
  "drainNext i now e =
    (if e_closed e \<or> \<not> currentLocked e i then (e, None)
     else if fl_queue (fl e i) = [] then
       (let e1 = mod_fl i (\<lambda>f. f\<lparr>fl_draining := False\<rparr>) e; f = fl e i in
        (if fl_proto f = protoTCP \<and> fl_state f = StateTunnel
         then (tcp_delete (fl_key f) e1)\<lparr>e_tunnelTCP := fc_put (e_tunnelTCP e1) (fl_key f) (fl_isn f) (now + lim_tunnelTTL (e_lim e))\<rparr>
         else e1, None))
     else let (e1, q) = takeQueueLocked i e in (e1, Some (q, sinkLocked i e1)))"

section \<open>The splice\<close>

text \<open>tcp.go: the forwarder consumes the mark of a freshly classified bypass SYN.\<close>

definition takeDialMark :: "flow_key \<Rightarrow> engine \<Rightarrow> engine \<times> nat option" where
  "takeDialMark key e = (case e_tcp e key of
       None \<Rightarrow> (e, None)
     | Some i \<Rightarrow> let f = fl e i in
        if e_closed e \<or> fl_state f \<noteq> StateBypass \<or> \<not> fl_awaitingDial f \<or> fl_aborted f then (e, None)
        else (mod_fl i (\<lambda>f. f\<lparr>fl_awaitingDial := False\<rparr>) e, Some i))"

definition attach :: "nat \<Rightarrow> nat option \<Rightarrow> nat option \<Rightarrow> engine \<Rightarrow> engine \<times> bool" where
  "attach i ep conn e = (if e_closed e \<or> fl_aborted (fl e i) then (e, False)
     else (mod_fl i (\<lambda>f. f\<lparr>fl_ep := ep, fl_phys := conn\<rparr>) e, True))"

definition finishFlow :: "nat \<Rightarrow> int \<Rightarrow> time \<Rightarrow> engine \<Rightarrow> engine" where
  "finishFlow i linger now e =
    (let e1 = mod_fl i (\<lambda>f. f\<lparr>fl_ep := None, fl_phys := None\<rparr>) (releaseLiveLocked i e); f = fl e1 i in
     if e_tcp e1 (fl_key f) = Some i \<and> fl_state f = StateBypass then
       (let e2 = mod_fl i (\<lambda>f. f\<lparr>fl_endedAt := now\<rparr>) e1 in
        if lim_lingerCap (e_lim e2) \<le> e_tcpLen e2 \<and> \<not> fl_draining f
        then (tcp_delete (fl_key f) e2)\<lparr>e_endedTCP := fc_put (e_endedTCP e2) (fl_key f) 0 (now + lim_endedTTL (e_lim e2))\<rparr>
        else mod_fl i (\<lambda>f. f\<lparr>fl_state := StateLinger, fl_deadline := now + linger\<rparr>) e2)
     else e1)"

text \<open>The scan of one TCP entry: a bypass never dialled in time is dropped, a lingering key past its
  deadline moves to the ended cache.\<close>

definition scanTCP :: "time \<Rightarrow> flow_key \<Rightarrow> engine \<Rightarrow> engine \<times> abort_target list" where
  "scanTCP now k e = (case e_tcp e k of
       None \<Rightarrow> (e, [])
     | Some i \<Rightarrow> let f = fl e i in
         if fl_state f = StateBypass then (if fl_awaitingDial f \<and> fl_deadline f < now then dropFlowLocked i e else (e, []))
         else if fl_state f = StateLinger \<and> fl_deadline f < now \<and> \<not> fl_draining f
         then ((tcp_delete (fl_key f) e)\<lparr>e_endedTCP := fc_put (e_endedTCP e) (fl_key f) 0 (fl_endedAt f + lim_endedTTL (e_lim e))\<rparr>, [])
         else (e, []))"

text \<open>One entry of the loop of rulesChanged over the TCP table.\<close>

definition rulesChangedTCP :: "rule_set \<Rightarrow> time \<Rightarrow> flow_key \<Rightarrow> engine \<Rightarrow> engine \<times> abort_target list" where
  "rulesChangedTCP rs now k e = (case e_tcp e k of
       None \<Rightarrow> (e, [])
     | Some i \<Rightarrow> if fl_state (fl e i) = StateBypass \<and> \<not> fl_aborted (fl e i) \<and> \<not> rs_allows rs (ow_chain (fl_owner (fl e i)))
         then (let (e1, t) = abortLocked i now e in (e1, [t])) else (e, []))"

text \<open>A loop over the entries of a map, in some order, gathering what it returns.\<close>

fun map_loop :: "('k \<Rightarrow> engine \<Rightarrow> engine \<times> 'a list) \<Rightarrow> 'k list \<Rightarrow> engine \<Rightarrow> engine \<times> 'a list" where
  "map_loop g [] e = (e, [])"
| "map_loop g (k # ks) e = (let (e1, xs) = g k e; (e2, ys) = map_loop g ks e1 in (e2, xs @ ys))"

end
