(* ===== verification/Engine_UDP.thy ===== *)
theory Engine_UDP
  imports Engine_TCP
begin

text \<open>splittunnel/udp.go and the engine side of udpsession.go: the UDP port table, its sessions, and the
  fragments of frag.go that join a port's queue.\<close>

section \<open>Queues and sessions\<close>

definition enqueueBufLocked :: "nat \<Rightarrow> packet_buf \<Rightarrow> engine \<Rightarrow> engine \<times> action" where
  "enqueueBufLocked i p e = (let cost = bufCost p in
     if (\<not> fl_draining (fl e i) \<and> lim_udpQueueBytes (e_lim e) < fl_queueCost (fl e i) + cost) \<or>
        lim_pendingBytes (e_lim e) < e_pendingCost e + cost then (e, ActDrop)
     else ((mod_fl i (\<lambda>f. f\<lparr>fl_queue := fl_queue f @ [p], fl_queueCost := fl_queueCost f + cost\<rparr>) e)
             \<lparr>e_pendingCost := e_pendingCost e + cost\<rparr>, ActHeld))"

definition enqueueUDPLocked :: "nat \<Rightarrow> byte list \<Rightarrow> engine \<Rightarrow> engine \<times> action" where
  "enqueueUDPLocked i pkt e = enqueueBufLocked i (copyPacket pkt) e"

definition newUDPLocked :: "nat \<Rightarrow> ip4 \<times> nat \<Rightarrow> byte list \<Rightarrow> time \<Rightarrow> int \<Rightarrow> engine \<Rightarrow> engine \<times> action \<times> nat option \<times> bool" where
  "newUDPLocked port dst pkt now streak e =
    (if \<not> may_classify e then (e, ActTunnel, None, False)
     else let f = (pending_flow protoUDP \<lparr>fk_port = port, fk_dst = dst\<rparr> (now + lim_pendingTimeout (e_lim e)))
                    \<lparr>fl_failStreak := streak, fl_lastSeen := now\<rparr>;
              (e1, i) = alloc_fl f e;
              e2 = (udp_store port i e1)\<lparr>e_pending := e_pending e + 1, e_pendingQ := e_pendingQ e @ [i]\<rparr>;
              (e3, act) = enqueueUDPLocked i pkt e2
          in (kickWorker e3, act, Some i, True))"

definition startSessionLocked :: "nat \<Rightarrow> time \<Rightarrow> engine \<Rightarrow> engine" where
  "startSessionLocked i now e =
    (let s = e_nextSess e;
         e1 = e\<lparr>e_sessions := (e_sessions e)(s := new_session i (fk_port (fl_key (fl e i))) now), e_nextSess := Suc s\<rparr>;
         e2 = mod_fl i (\<lambda>f. f\<lparr>fl_sess := Some s, fl_state := StateBypass, fl_holding := False\<rparr>) e1
     in e2\<lparr>e_udpLive := (if i \<in> set (e_udpLive e2) then e_udpLive e2 else e_udpLive e2 @ [i]), e_udpCreating := e_udpCreating e2 + 1\<rparr>)"

text \<open>The back-off of a fail-safe entry: it doubles with each failure up to a maximum, also when the
  shift leaves the 64 bits of a duration.\<close>

definition shl64 :: "int \<Rightarrow> nat \<Rightarrow> int" where
  "shl64 x n = (x * 2 ^ n + 2 ^ 63) mod 2 ^ 64 - 2 ^ 63"

definition failSafe_ttl :: "limits \<Rightarrow> int \<Rightarrow> int" where
  "failSafe_ttl lim streak = (let ttl = shl64 (lim_failSafeBase lim) (nat (min streak 8)) in
     if lim_failSafeMax lim < ttl \<or> ttl \<le> 0 then lim_failSafeMax lim else ttl)"

definition setFailSafeLocked :: "nat \<Rightarrow> bool \<Rightarrow> bool \<Rightarrow> time \<Rightarrow> engine \<Rightarrow> engine" where
  "setFailSafeLocked i failSafe egressDown now e =
    (if \<not> failSafe then mod_fl i (\<lambda>f. f\<lparr>fl_failSafe := False, fl_egressDown := False, fl_failStreak := 0\<rparr>) e
     else let ttl = failSafe_ttl (e_lim e) (fl_failStreak (fl e i)) in
       mod_fl i (\<lambda>f. f\<lparr>fl_failStreak := (if fl_failStreak f < 16 then fl_failStreak f + 1 else fl_failStreak f),
         fl_failSafe := True, fl_egressDown := egressDown, fl_expiresAt := now + ttl\<rparr>) e)"

definition endSessionLocked :: "nat \<Rightarrow> time \<Rightarrow> engine \<Rightarrow> engine \<times> nat list" where
  "endSessionLocked i now e = (case fl_sess (fl e i) of
       None \<Rightarrow> (e, [])
     | Some s \<Rightarrow>
        let e1 = mod_fl i (\<lambda>f. f\<lparr>fl_sess := None\<rparr>) e;
            e2 = mod_sess s (\<lambda>x. x\<lparr>us_done := True\<rparr>) e1
        in (e2\<lparr>e_udpLive := removeAll i (e_udpLive e2),
              e_endedUDP := fc_put (e_endedUDP e2) \<lparr>fk_port = fk_port (fl_key (fl e i)), fk_dst = (0, 0)\<rparr> 0 (now + lim_endedTTL (e_lim e2))\<rparr>,
            [s]))"

fun enqueue_all :: "nat \<Rightarrow> packet_buf list \<Rightarrow> engine \<Rightarrow> engine" where
  "enqueue_all i [] e = e"
| "enqueue_all i (p # ps) e = enqueue_all i ps (fst (enqueueBufLocked i p e))"

text \<open>The destination a re-classification starts from: that of the first packet held, if it shows ports.\<close>

definition requeue_dst :: "packet_buf list \<Rightarrow> ip4 \<times> nat \<Rightarrow> ip4 \<times> nat" where
  "requeue_dst q dflt = (case q of [] \<Rightarrow> dflt | p # _ \<Rightarrow> (case parseIPv4 (pb_data p) of
       Some info \<Rightarrow> if pi_ports info then (pi_dst info, pi_dstPort info) else dflt | None \<Rightarrow> dflt))"

definition forgetUDPLocked :: "nat \<Rightarrow> time \<Rightarrow> engine \<Rightarrow> engine" where
  "forgetUDPLocked i now e =
    (let f = fl e i; port = fk_port (fl_key f);
         e1 = (if e_udp e port = Some i then udp_delete port e else e);
         e2 = (if fl_state f = StatePending then e1\<lparr>e_pending := e_pending e1 - 1\<rparr> else e1);
         (e3, q) = takeQueueLocked i (mod_fl i (\<lambda>f. f\<lparr>fl_holding := False\<rparr>) e2)
     in if q = [] then e3
        else if e_closed e3 \<or> lim_pendingFlows (e_lim e3) \<le> e_pending e3 then e3
        else let nf = (pending_flow protoUDP \<lparr>fk_port = port, fk_dst = requeue_dst q (fk_dst (fl_key f))\<rparr>
                         (now + lim_pendingTimeout (e_lim e3)))\<lparr>fl_lastSeen := now\<rparr>;
                 (e4, n) = alloc_fl nf e3;
                 e5 = (udp_store port n e4)\<lparr>e_pending := e_pending e4 + 1, e_pendingQ := e_pendingQ e4 @ [n]\<rparr>
             in kickWorker (enqueue_all n q e5))"

text \<open>A port whose session ended becomes a short-lived tunnel entry; its held packets are returned to
  be drained to the tunnel, unless a drain of it already runs.\<close>

definition failSafeUDPLocked :: "nat \<Rightarrow> time \<Rightarrow> bool \<Rightarrow> engine \<Rightarrow> engine \<times> (nat \<times> packet_buf list) list" where
  "failSafeUDPLocked i now egressDown e =
    (if \<not> currentLocked e i then (e, [])
     else let e1 = setFailSafeLocked i True egressDown now
            (mod_fl i (\<lambda>f. f\<lparr>fl_state := StateTunnel, fl_holding := False, fl_revalidating := False\<rparr>) e)
       in if fl_draining (fl e1 i) \<or> fl_queue (fl e1 i) = [] then (e1, [])
          else let (e2, q) = takeQueueLocked i (mod_fl i (\<lambda>f. f\<lparr>fl_draining := True\<rparr>) e1) in (e2, [(i, q)]))"

definition retireToTunnelLocked :: "nat \<Rightarrow> time \<Rightarrow> engine \<Rightarrow> engine \<times> nat list \<times> (nat \<times> packet_buf list) list" where
  "retireToTunnelLocked i now e =
    (let (e1, closing) = endSessionLocked i now e; (e2, drains) = failSafeUDPLocked i now False e1 in (e2, closing, drains))"

section \<open>The per-port verdict\<close>

text \<open>Handing a datagram to a session.\<close>

definition sess_send :: "nat \<Rightarrow> udp_out \<Rightarrow> time \<Rightarrow> engine \<Rightarrow> engine" where
  "sess_send s out now e = mod_sess s (\<lambda>x. fst (send (lim_udpPeers (e_lim e)) (lim_udpSendQ (e_lim e)) out now x)) e"

definition sess_admit :: "nat \<Rightarrow> ip4 \<Rightarrow> time \<Rightarrow> engine \<Rightarrow> engine" where
  "sess_admit s a now e = mod_sess s (admit (lim_udpPeers (e_lim e)) a now) e"

definition payload_of :: "pkt_info \<Rightarrow> byte list \<Rightarrow> byte list" where
  "payload_of info pkt = (case udpPayload info of None \<Rightarrow> [] | Some (lo, hi) \<Rightarrow> slice lo hi pkt)"

text \<open>A destination is trusted when it is a peer already, or on an owner check that is still fresh.\<close>

definition trusted_dst :: "nat \<Rightarrow> nat \<Rightarrow> ip4 \<Rightarrow> time \<Rightarrow> engine \<Rightarrow> bool" where
  "trusted_dst i s dst now e \<longleftrightarrow> knows (e_sessions e s) dst \<or>
     (\<not> fl_holding (fl e i) \<and> now - fl_validatedAt (fl e i) \<le> lim_udpFresh (e_lim e))"

definition udpLocked :: "pkt_info \<Rightarrow> byte list \<Rightarrow> time \<Rightarrow> bool \<Rightarrow> engine \<Rightarrow> engine \<times> action \<times> nat option \<times> bool" where
  "udpLocked info pkt now frag e0 =
    (let dst = (pi_dst info, pi_dstPort info); port = pi_srcPort info in
     case e_udp e0 port of
       None \<Rightarrow> newUDPLocked port dst pkt now 0 e0
     | Some i \<Rightarrow>
       let e = mod_fl i (\<lambda>f. f\<lparr>fl_lastSeen := now\<rparr>) e0; f = fl e i in
       if fl_state f = StatePending \<or> fl_draining f then
         (let (e1, act) = enqueueUDPLocked i pkt e in (e1, act, Some i, True))
       else if fl_state f = StateTunnel then
         (if fl_failSafe f \<and> fl_expiresAt f < now then newUDPLocked port dst pkt now (fl_failStreak f) (udp_delete port e)
          else if \<not> fl_failSafe f \<and> \<not> fl_revalidating f \<and> lim_udpRevalidate (e_lim e) \<le> now - fl_validatedAt f \<and> gateOpen e
            then (kickWorker ((mod_fl i (\<lambda>f. f\<lparr>fl_revalidating := True\<rparr>) e)\<lparr>e_revalQ := e_revalQ e @ [i]\<rparr>), ActTunnel, None, False)
          else (e, ActTunnel, None, False))
       else (case fl_sess f of
           None \<Rightarrow> (e, ActTunnel, None, False)
         | Some s \<Rightarrow>
           if trusted_dst i s (pi_dst info) now e then
             (if frag then (sess_admit s (pi_dst info) now e, ActStack, Some i, False)
              else (sess_send s \<lparr>uo_dst = dst, uo_p = copyPacket (payload_of info pkt), uo_off = 0\<rparr> now e, ActHeld, Some i, False))
           else
             (let e1 = (if fl_holding f then e
                else kickWorker ((mod_fl i (\<lambda>f. f\<lparr>fl_holding := True, fl_holdDeadline := now + lim_pendingTimeout (e_lim e)\<rparr>) e)
                       \<lparr>e_holdQ := e_holdQ e @ [i], e_valDue := True\<rparr>));
                  (e2, act) = enqueueUDPLocked i pkt e1
              in (e2, act, Some i, True))))"

definition decideUDP :: "pkt_info \<Rightarrow> byte list \<Rightarrow> time \<Rightarrow> engine \<Rightarrow> engine \<times> action" where
  "decideUDP info pkt now e =
    (if udpPayload info = None then (e, ActTunnel)
     else if e_closed e then (e, ActTunnel)
     else let (e1, act, _, _) = udpLocked info pkt now False e in (e1, act))"

section \<open>Resolving and re-checking\<close>

definition session_room :: "engine \<Rightarrow> bool" where
  "session_room e \<longleftrightarrow> int (length (e_udpLive e)) < lim_udpSessions (e_lim e) \<and> e_udpCreating e < lim_udpCreating (e_lim e)"

definition revalidatedLocked :: "nat \<Rightarrow> match_result \<Rightarrow> rule_set option \<Rightarrow> time \<Rightarrow> time \<Rightarrow> engine \<Rightarrow> engine" where
  "revalidatedLocked i res classified snapAt now e =
    (let e1 = mod_fl i (\<lambda>f. f\<lparr>fl_revalidating := False, fl_submitted := False\<rparr>) e in
     case classified of
       None \<Rightarrow> mod_fl i (\<lambda>f. f\<lparr>fl_validatedAt := now\<rparr>) e1
     | Some _ \<Rightarrow> let e2 = mod_fl i (\<lambda>f. f\<lparr>fl_owner := mr_owner res, fl_validatedAt := snapAt\<rparr>) e1 in
         if \<not> fl_draining (fl e2 i) \<and> bypassVerdictLocked res classified e2 \<and> session_room e2 \<and> \<not> now < e_egressDownTo e2
         then startSessionLocked i now e2 else e2)"

definition resolveUDP :: "nat \<Rightarrow> match_result \<Rightarrow> rule_set option \<Rightarrow> time \<Rightarrow> time \<Rightarrow> engine
    \<Rightarrow> engine \<times> bool \<times> (packet_buf list \<times> sink) option" where
  "resolveUDP i res classified snapAt now e =
    (if e_closed e \<or> \<not> currentLocked e i then (e, False, None)
     else if fl_state (fl e i) = StateTunnel \<and> fl_revalidating (fl e i)
       then (revalidatedLocked i res classified snapAt now e, True, None)
     else if fl_state (fl e i) \<noteq> StatePending then (e, False, None)
     else let want = bypassVerdictLocked res classified e;
              full = (want \<and> \<not> session_room e);
              down = (want \<and> \<not> full \<and> now < e_egressDownTo e);
              bypass = (want \<and> \<not> full \<and> \<not> down);
              failSafe = (full \<or> down \<or> classified = None);
              e1 = mod_fl i (\<lambda>f. f\<lparr>fl_submitted := False, fl_owner := mr_owner res, fl_validatedAt := snapAt, fl_draining := True\<rparr>)
                     (e\<lparr>e_pending := e_pending e - 1\<rparr>);
              e2 = (if bypass then setFailSafeLocked i False False now (startSessionLocked i now e1)
                else setFailSafeLocked i failSafe down now (mod_fl i (\<lambda>f. f\<lparr>fl_state := StateTunnel\<rparr>) e1));
              k = sinkLocked i e2;
              (e3, q) = takeQueueLocked i e2
          in (e3, True, Some (q, k)))"

text \<open>One session of validateOnce, with the answer of the owner check (\<open>None\<close>: the check failed as a
  whole): released, or closed and its port forgotten.\<close>

definition validateFlow :: "time \<Rightarrow> time \<Rightarrow> nat \<times> nat option \<times> bool \<Rightarrow> engine
    \<Rightarrow> engine \<times> nat list \<times> (nat \<times> packet_buf list \<times> sink) list" where
  "validateFlow snapAt now fso e = (case fso of (i, sess, ok) \<Rightarrow>
     if e_closed e \<or> \<not> currentLocked e i \<or> fl_sess (fl e i) \<noteq> sess then (e, [], [])
     else if ok then
       (let e1 = mod_fl i (\<lambda>f. f\<lparr>fl_validatedAt := snapAt\<rparr>) e in
        if fl_holding (fl e i) \<and> \<not> fl_draining (fl e i) then
          (let (e2, q) = takeQueueLocked i (mod_fl i (\<lambda>f. f\<lparr>fl_holding := False, fl_draining := True\<rparr>) e1)
           in (e2, [], [(i, q, sinkLocked i e2)]))
        else (e1, [], []))
     else (let (e1, closing) = endSessionLocked i now e in (forgetUDPLocked i now e1, closing, [])))"

text \<open>The snapshot validateOnce takes: what it checks is the owner of every live session.\<close>

definition validate_take :: "bool \<Rightarrow> time \<Rightarrow> engine \<Rightarrow> engine \<times> (nat \<times> nat option \<times> owner) list" where
  "validate_take ready now e = (if e_closed e \<or> \<not> e_valDue e \<or> \<not> ready then (e, [])
     else (e\<lparr>e_valDue := False, e_lastValidate := now\<rparr>, map (\<lambda>i. (i, fl_sess (fl e i), fl_owner (fl e i))) (e_udpLive e)))"

section \<open>Rules, sweeps and failures\<close>

definition rulesChangedUDP :: "rule_set \<Rightarrow> time \<Rightarrow> nat \<Rightarrow> engine \<Rightarrow> engine \<times> nat list" where
  "rulesChangedUDP rs now port e = (case e_udp e port of
       None \<Rightarrow> (e, [])
     | Some i \<Rightarrow> let f = fl e i in
        if fl_sess f \<noteq> None then
          (if \<not> rs_allows rs (ow_chain (fl_owner f)) then
             (let (e1, closing) = endSessionLocked i now e in (forgetUDPLocked i now e1, closing)) else (e, []))
        else if fl_state f = StateTunnel \<and> \<not> fl_draining f \<and> (rs_empty rs \<or> fl_failSafe f \<or> rs_allows rs (ow_chain (fl_owner f)))
        then (udp_delete port e, [])
        else (e, []))"

text \<open>One entry of sweepHoldsLocked: kept in the queue, dropped from it, or retired to the tunnel.\<close>

definition sweepHold :: "time \<Rightarrow> nat \<Rightarrow> engine \<Rightarrow> engine \<times> bool \<times> nat list \<times> (nat \<times> packet_buf list) list" where
  "sweepHold now i e = (if \<not> fl_holding (fl e i) \<or> \<not> currentLocked e i then (e, False, [], [])
     else if \<not> fl_holdDeadline (fl e i) < now then (e, True, [], [])
     else let (e1, closing, drains) = retireToTunnelLocked i now e in (e1, False, closing, drains))"

fun sweepHoldsLocked :: "time \<Rightarrow> nat list \<Rightarrow> nat list \<Rightarrow> engine \<Rightarrow> engine \<times> nat list \<times> (nat \<times> packet_buf list) list" where
  "sweepHoldsLocked now [] kept e = (e\<lparr>e_holdQ := kept\<rparr>, [], [])"
| "sweepHoldsLocked now (i # is) kept e = (let (e1, keep, c1, d1) = sweepHold now i e;
       (e2, c2, d2) = sweepHoldsLocked now is (if keep then kept @ [i] else kept) e1 in (e2, c1 @ c2, d1 @ d2))"

definition scanUDP :: "time \<Rightarrow> nat \<Rightarrow> engine \<Rightarrow> engine \<times> nat list \<times> (nat \<times> packet_buf list) list" where
  "scanUDP now port e = (case e_udp e port of
       None \<Rightarrow> (e, [], [])
     | Some i \<Rightarrow> let f = fl e i in
        if fl_draining f then (e, [], [])
        else (case fl_sess f of
            Some s \<Rightarrow>
              if lim_udpIdle (e_lim e) < now - us_lastSent (e_sessions e s) then
                (let (e1, closing) = endSessionLocked i now e in (forgetUDPLocked i now e1, closing, []))
              else if lim_validateStale (e_lim e) < now - fl_validatedAt f then retireToTunnelLocked i now e
              else (mod_sess s (prune (now - lim_udpIdle (e_lim e))) e, [], [])
          | None \<Rightarrow> if fl_state f = StateTunnel \<and> lim_udpIdle (e_lim e) < now - fl_lastSeen f
              then (udp_delete port e, [], []) else (e, [], [])))"

definition listenDone :: "nat \<Rightarrow> bool \<Rightarrow> time \<Rightarrow> engine \<Rightarrow> engine \<times> (nat \<times> packet_buf list) list" where
  "listenDone s err now e =
    (let i = us_flow (e_sessions e s); e1 = e\<lparr>e_udpCreating := e_udpCreating e - 1\<rparr> in
     if err \<and> \<not> e_closed e1 \<and> currentLocked e1 i \<and> fl_sess (fl e1 i) = Some s then
       (let e2 = fst (endSessionLocked i now (e1\<lparr>e_egressDownTo := now + lim_egressBackoff (e_lim e1)\<rparr>))
        in failSafeUDPLocked i now True e2)
     else (e1, []))"

definition sessionFailed :: "nat \<Rightarrow> time \<Rightarrow> engine \<Rightarrow> engine" where
  "sessionFailed s now e = (let i = us_flow (e_sessions e s) in
     if \<not> e_closed e \<and> currentLocked e i \<and> fl_sess (fl e i) = Some s
     then forgetUDPLocked i now (fst (endSessionLocked i now e)) else e)"

text \<open>A packet of a bypass port's queue: fragments go to the stack for reassembly, datagrams to the session.\<close>

definition toSession :: "nat \<Rightarrow> packet_buf \<Rightarrow> time \<Rightarrow> engine \<Rightarrow> engine" where
  "toSession s p now e = (case parseIPv4 (pb_data p) of
       None \<Rightarrow> e
     | Some info \<Rightarrow> if pi_proto info \<noteq> protoUDP then e
        else if pi_frag info then
          to_stack (pb_data p) (if pi_ports info then sess_admit s (pi_dst info) now e else e)
        else (case udpPayload info of None \<Rightarrow> e
          | Some (lo, hi) \<Rightarrow> sess_send s \<lparr>uo_dst = (pi_dst info, pi_dstPort info),
              uo_p = p\<lparr>pb_data := take hi (pb_data p)\<rparr>, uo_off = lo\<rparr> now e))"

definition bypassSession :: "nat \<Rightarrow> engine \<Rightarrow> nat option" where
  "bypassSession port e = (case e_udp e port of None \<Rightarrow> None
     | Some i \<Rightarrow> if \<not> e_closed e \<and> fl_state (fl e i) = StateBypass then fl_sess (fl e i) else None)"

text \<open>A datagram gVisor reassembled, valid or not by its own length and checksum, sent by \<open>app\<close> from
  \<open>port\<close> to \<open>dst\<close>.\<close>

definition handleUDP :: "bool \<Rightarrow> ip4 \<Rightarrow> nat \<Rightarrow> ip4 \<times> nat \<Rightarrow> byte list \<Rightarrow> time \<Rightarrow> engine \<Rightarrow> engine" where
  "handleUDP valid app port dst payload now e =
    (if app \<noteq> e_addr e \<or> \<not> valid then e
     else case bypassSession port e of None \<Rightarrow> e
       | Some s \<Rightarrow> sess_send s \<lparr>uo_dst = dst, uo_p = \<lparr>pb_data = payload, pb_cap = int (length payload)\<rparr>, uo_off = 0\<rparr> now e)"

end
