(* ===== verification/Engine.thy ===== *)
theory Engine
  imports Engine_UDP
begin

text \<open>splittunnel/frag.go and engine.go: the handling of fragments, the decision on every packet read
  from the tunnel device, the worker's batches, the sweeps and the reactions to rule changes and
  failures, composed of the operations of the two flow tables.\<close>

section \<open>Fragments\<close>

type_synonym spill = "(action \<times> packet_buf) list"

definition spill_add :: "action \<Rightarrow> packet_buf list \<Rightarrow> spill \<Rightarrow> spill" where
  "spill_add act ps sp = sp @ map (\<lambda>p. (act, p)) ps"

fun flushSpill :: "spill \<Rightarrow> engine \<Rightarrow> engine" where
  "flushSpill [] e = e"
| "flushSpill ((act, p) # sp) e = flushSpill sp (case act of
      ActTunnel \<Rightarrow> pushOut p e | ActStack \<Rightarrow> to_stack (pb_data p) e | _ \<Rightarrow> e)"

definition addFragLocked :: "frag_rec \<Rightarrow> spill \<Rightarrow> engine \<Rightarrow> engine \<times> spill" where
  "addFragLocked r sp e = (case ft_add r (lim_fragMax (e_lim e)) (e_frags e) of
       (t, Some ev) \<Rightarrow> if fr_held ev = [] then (e\<lparr>e_frags := t\<rparr>, sp)
         else (let (t2, held) = ft_takeHeld ev t in (e\<lparr>e_frags := t2\<rparr>, spill_add ActTunnel held sp))
     | (t, None) \<Rightarrow> (e\<lparr>e_frags := t\<rparr>, sp))"

text \<open>What the fragments held for a datagram become once its first fragment is decided.\<close>

fun release_held :: "frag_kind \<Rightarrow> nat option \<Rightarrow> bool \<Rightarrow> packet_buf list \<Rightarrow> spill \<Rightarrow> engine \<Rightarrow> engine \<times> spill" where
  "release_held kind f queued [] sp e = (e, sp)"
| "release_held kind f queued (p # ps) sp e =
     (if kind = FragTunnel then release_held kind f queued ps (spill_add ActTunnel [p] sp) e
      else if kind = FragCollect then (case f of
          Some i \<Rightarrow> if queued then release_held kind f queued ps sp (fst (enqueueBufLocked i p e))
            else release_held kind f queued ps (spill_add ActStack [p] sp) e
        | None \<Rightarrow> release_held kind f queued ps (spill_add ActStack [p] sp) e)
      else release_held kind f queued ps sp e)"

definition is_dns :: "pkt_info \<Rightarrow> engine \<Rightarrow> bool" where
  "is_dns info e \<longleftrightarrow> pi_dstPort info = 53 \<or> pi_dstPort info = 853 \<or> pi_dst info \<in> set (e_dns e)"

definition first_verdict :: "pkt_info \<Rightarrow> byte list \<Rightarrow> time \<Rightarrow> engine \<Rightarrow> engine \<times> action \<times> nat option \<times> bool" where
  "first_verdict info pkt now e =
    (if pi_ports info \<and> \<not> is_dns info e \<and> \<not> alwaysTunnelDst (pi_dst info) then udpLocked info pkt now True e
     else (e, ActTunnel, None, False))"

definition frag_kind_of :: "action \<Rightarrow> nat option \<Rightarrow> frag_kind" where
  "frag_kind_of act f = (if act = ActDrop then FragDrop else if f \<noteq> None then FragCollect else FragTunnel)"

definition firstFragLocked :: "frag_key \<Rightarrow> frag_rec option \<Rightarrow> pkt_info \<Rightarrow> byte list \<Rightarrow> time \<Rightarrow> engine \<Rightarrow> engine \<times> action \<times> spill" where
  "firstFragLocked key r0 info pkt now e0 =
    (let (ft, held) = (case r0 of None \<Rightarrow> (e_frags e0, []) | Some r \<Rightarrow> (let (t, h) = ft_takeHeld r (e_frags e0) in (ft_store (emptied r) t, h)));
         (e1, act, f, queued) = first_verdict info pkt now (e0\<lparr>e_frags := ft\<rparr>);
         kind = frag_kind_of act f
     in if r0 = None \<and> kind = FragTunnel \<and> \<not> gateOpen e1 \<and> ft_len (e_frags e1) = 0 then (e1, act, [])
        else let r = (case r0 of None \<Rightarrow> new_frag key FragHeld (now + lim_fragTTL (e_lim e1)) | Some r \<Rightarrow> emptied r);
                 r' = r\<lparr>fr_kind := kind, fr_f := f, fr_queued := queued\<rparr>;
                 (e2, sp) = (case r0 of None \<Rightarrow> addFragLocked r [] e1 | Some _ \<Rightarrow> (e1, []));
                 e3 = e2\<lparr>e_frags := ft_store r' (e_frags e2)\<rparr>;
                 (e4, sp2) = release_held kind f queued held sp e3
             in (e4, act, sp2))"

definition collectLocked :: "frag_rec \<Rightarrow> byte list \<Rightarrow> engine \<Rightarrow> engine \<times> action" where
  "collectLocked r pkt e = (case fr_f r of
       None \<Rightarrow> (e, ActDrop)
     | Some i \<Rightarrow> if \<not> currentLocked e i then (e, ActDrop)
        else let f = fl e i in
          if fl_state f = StatePending \<or> fl_draining f \<or> (fr_queued r \<and> fl_holding f) then enqueueUDPLocked i pkt e
          else if fl_state f = StateBypass \<and> fl_sess f \<noteq> None then (e, ActStack)
          else if fl_state f = StateTunnel then (e, ActTunnel)
          else (e, ActDrop))"

text \<open>A fragment other than the first, of a datagram with record \<open>r\<close>.\<close>

definition laterFrag :: "frag_rec \<Rightarrow> byte list \<Rightarrow> spill \<Rightarrow> engine \<Rightarrow> engine \<times> action \<times> spill" where
  "laterFrag r pkt sp e = (case fr_kind r of
       FragHeld \<Rightarrow> let p = copyPacket pkt in
         if lim_fragBytes (e_lim e) < ft_bytes (e_frags e) + bufCost p then
           (let (t, held) = ft_takeHeld r (e_frags e)
            in (e\<lparr>e_frags := ft_store ((emptied r)\<lparr>fr_kind := FragTunnel\<rparr>) t\<rparr>, ActDrop,
                spill_add ActTunnel [p] (spill_add ActTunnel held sp)))
         else (e\<lparr>e_frags := ft_hold r p (e_frags e)\<rparr>, ActHeld, sp)
     | FragTunnel \<Rightarrow> (e, ActTunnel, sp)
     | FragDrop \<Rightarrow> (e, ActDrop, sp)
     | FragCollect \<Rightarrow> (let (e1, act) = collectLocked r pkt e in (e1, act, sp)))"

definition decideFrag :: "pkt_info \<Rightarrow> byte list \<Rightarrow> time \<Rightarrow> engine \<Rightarrow> engine \<times> action \<times> spill" where
  "decideFrag info pkt now e =
    (if e_closed e then (e, ActTunnel, [])
     else let key = (pi_dst info, pi_id info); r0 = ft_get (e_frags e) key in
       if pi_fragOff info = 0 then firstFragLocked key r0 info pkt now e
       else case r0 of
           Some r \<Rightarrow> laterFrag r pkt [] e
         | None \<Rightarrow> if \<not> gateOpen e \<and> ft_len (e_frags e) = 0 then (e, ActTunnel, [])
             else let r = new_frag key FragHeld (now + lim_fragTTL (e_lim e)); (e1, sp) = addFragLocked r [] e
                  in laterFrag r pkt sp e1)"

section \<open>Deciding a packet\<close>

definition decideICMP :: "pkt_info \<Rightarrow> byte list \<Rightarrow> time \<Rightarrow> engine \<Rightarrow> engine \<times> action" where
  "decideICMP info pkt now e =
    (case icmpQuote (slice (pi_ihl info) (pi_total info) pkt) of
       None \<Rightarrow> (e, ActTunnel)
     | Some q \<Rightarrow> if q_dst q \<noteq> e_addr e then (e, ActTunnel)
       else if q_proto q = protoTCP then
         (let key = \<lparr>fk_port = q_dstPort q, fk_dst = (q_src q, q_srcPort q)\<rparr> in
          if (case e_tcp e key of None \<Rightarrow> False | Some i \<Rightarrow> fl_state (fl e i) = StateBypass \<or> fl_state (fl e i) = StateLinger)
          then (e, ActDrop)
          else let (c, ce) = fc_get (e_endedTCP e) key now in (e\<lparr>e_endedTCP := c\<rparr>, if ce \<noteq> None then ActDrop else ActTunnel))
       else if (case e_udp e (q_dstPort q) of None \<Rightarrow> False | Some i \<Rightarrow> fl_sess (fl e i) \<noteq> None) then (e, ActDrop)
       else let (c, ce) = fc_get (e_endedUDP e) \<lparr>fk_port = q_dstPort q, fk_dst = (0, 0)\<rparr> now
            in (e\<lparr>e_endedUDP := c\<rparr>, if ce \<noteq> None then ActDrop else ActTunnel))"

text \<open>The result: the state, the action, what the spill carries and the splices to reset in the background.\<close>

definition decide :: "byte list \<Rightarrow> time \<Rightarrow> engine \<Rightarrow> engine \<times> action \<times> spill \<times> abort_target list" where
  "decide pkt now e =
    (if e_tunnelOnly e then (e, ActTunnel, [], [])
     else case parseIPv4 pkt of
       None \<Rightarrow> (e, ActTunnel, [], [])
     | Some info \<Rightarrow>
        if pi_frag info then
          (if pi_proto info \<noteq> protoUDP \<or> pi_src info \<noteq> e_addr e then (e, ActTunnel, [], [])
           else let (e1, act, sp) = decideFrag info pkt now e in (e1, act, sp, []))
        else if pi_proto info = protoICMP then (let (e1, act) = decideICMP info pkt now e in (e1, act, [], []))
        else if pi_proto info \<noteq> protoTCP \<and> pi_proto info \<noteq> protoUDP then (e, ActTunnel, [], [])
        else if pi_src info \<noteq> e_addr e then (e, ActTunnel, [], [])
        else if is_dns info e \<or> alwaysTunnelDst (pi_dst info) then (e, ActTunnel, [], [])
        else if pi_proto info = protoUDP then (let (e1, act) = decideUDP info pkt now e in (e1, act, [], []))
        else let (e1, act, ts) = decideTCP info pkt now e in (e1, act, [], ts))"

definition route :: "byte list \<Rightarrow> time \<Rightarrow> bool \<Rightarrow> engine \<Rightarrow> engine \<times> bool \<times> abort_target list" where
  "route pkt now keepTunnel e =
    (let (e1, act, sp, ts) = decide pkt now e;
         (e2, diverted) = (case act of
             ActTunnel \<Rightarrow> if keepTunnel then (e1, False) else (pushOut (copyPacket pkt) e1, True)
           | ActStack \<Rightarrow> (to_stack pkt e1, True)
           | _ \<Rightarrow> (e1, True))
     in (flushSpill sp e2, diverted, ts))"

section \<open>The worker\<close>

text \<open>The two loops of takeBatch: entries no longer wanted are skipped and forgotten.  The result is the
  batch and what stays queued.\<close>

fun take_loop :: "int \<Rightarrow> (engine \<Rightarrow> nat \<Rightarrow> bool) \<Rightarrow> nat list \<Rightarrow> nat list \<Rightarrow> engine \<Rightarrow> engine \<times> nat list \<times> nat list" where
  "take_loop mx wanted [] batch e = (e, batch, [])"
| "take_loop mx wanted (i # is) batch e =
     (if mx \<le> int (length batch) then (e, batch, i # is)
      else if \<not> wanted e i then take_loop mx wanted is batch e
      else take_loop mx wanted is (batch @ [i]) (mod_fl i (\<lambda>f. f\<lparr>fl_submitted := True\<rparr>) e))"

definition wanted_pending :: "engine \<Rightarrow> nat \<Rightarrow> bool" where
  "wanted_pending e i \<longleftrightarrow> currentLocked e i \<and> fl_state (fl e i) = StatePending \<and> \<not> fl_submitted (fl e i)"

definition wanted_reval :: "engine \<Rightarrow> nat \<Rightarrow> bool" where
  "wanted_reval e i \<longleftrightarrow> currentLocked e i \<and> fl_state (fl e i) = StateTunnel \<and> fl_revalidating (fl e i) \<and> \<not> fl_submitted (fl e i)"

definition takeBatch :: "engine \<Rightarrow> engine \<times> nat list" where
  "takeBatch e =
    (if e_closed e then (e, [])
     else let (e1, b1, rest1) = take_loop (lim_batch (e_lim e)) wanted_pending (e_pendingQ e) [] e;
              (e2, b2, rest2) = take_loop (lim_batch (e_lim e)) wanted_reval (e_revalQ e1) b1 (e1\<lparr>e_pendingQ := rest1\<rparr>)
          in (e2\<lparr>e_revalQ := rest2, e_inflight := b2\<rparr>, b2))"

definition compactPendingLocked :: "engine \<Rightarrow> engine" where
  "compactPendingLocked e = e\<lparr>e_pendingQ := filter (wanted_pending e) (e_pendingQ e), e_revalQ := filter (wanted_reval e) (e_revalQ e)\<rparr>"

text \<open>A queue to deliver for a flow, and where it goes.\<close>

type_synonym drain_job = "nat \<times> packet_buf list \<times> sink"

definition resolveAt :: "nat \<Rightarrow> match_result \<Rightarrow> rule_set option \<Rightarrow> time \<Rightarrow> time \<Rightarrow> engine
    \<Rightarrow> engine \<times> bool \<times> drain_job list \<times> abort_target list" where
  "resolveAt i res classified snapAt now e =
    (if fl_proto (fl e i) = protoUDP then
       (case resolveUDP i res classified snapAt now e of
          (e1, done_, None) \<Rightarrow> (e1, done_, [], [])
        | (e1, done_, Some (q, k)) \<Rightarrow> (e1, done_, [(i, q, k)], []))
     else case resolveTCP i res classified now e of
          (e1, None) \<Rightarrow> (e1, False, [], [])
        | (e1, Some (prev, q, k)) \<Rightarrow> (e1, True, [(i, q, k)], prev))"

text \<open>deliver: one packet after the other to the sink.\<close>

definition deliver1 :: "sink \<Rightarrow> time \<Rightarrow> packet_buf \<Rightarrow> engine \<Rightarrow> engine" where
  "deliver1 k now p e = (case k of SinkStack \<Rightarrow> to_stack (pb_data p) e | SinkSession s \<Rightarrow> toSession s p now e | SinkOut \<Rightarrow> pushOut p e)"

definition deliver :: "packet_buf list \<Rightarrow> sink \<Rightarrow> time \<Rightarrow> engine \<Rightarrow> engine" where
  "deliver q k now e = foldl (\<lambda>e p. deliver1 k now p e) e q"

section \<open>Sweeps and reactions\<close>

text \<open>The flows whose verdict is overdue.\<close>

definition overdue :: "time \<Rightarrow> engine \<Rightarrow> nat list" where
  "overdue now e = filter (\<lambda>i. fl_state (fl e i) = StatePending \<and> currentLocked e i \<and> fl_deadline (fl e i) < now)
     (e_pendingQ e @ e_inflight e)"

fun udp_loop :: "(nat \<Rightarrow> engine \<Rightarrow> engine \<times> nat list \<times> (nat \<times> packet_buf list) list) \<Rightarrow> nat list \<Rightarrow> engine
    \<Rightarrow> engine \<times> nat list \<times> (nat \<times> packet_buf list) list" where
  "udp_loop g [] e = (e, [], [])"
| "udp_loop g (k # ks) e = (let (e1, c1, d1) = g k e; (e2, c2, d2) = udp_loop g ks e1 in (e2, c1 @ c2, d1 @ d2))"

record swept =
  sw_expired :: "nat list"
  sw_flush :: "packet_buf list"
  sw_closing :: "nat list"
  sw_drains :: "(nat \<times> packet_buf list) list"
  sw_targets :: "abort_target list"

text \<open>The locked part of sweep.  \<open>ks\<close> and \<open>ps\<close> are the orders in which the two maps are walked.\<close>

definition sweep_locked :: "flow_key list \<Rightarrow> nat list \<Rightarrow> time \<Rightarrow> engine \<Rightarrow> engine \<times> swept" where
  "sweep_locked ks ps now e =
    (let expired = overdue now e;
         (e1, c1, d1) = sweepHoldsLocked now (e_holdQ e) [] e;
         (t, old) = ft_expired now (e_frags e1);
         flush = concat (map fr_held old);
         e2 = e1\<lparr>e_frags := foldl (\<lambda>t r. fst (ft_takeHeld r t)) t old\<rparr>;
         e3 = (if e_udpLive e2 \<noteq> [] \<and> lim_validateEvery (e_lim e2) \<le> now - e_lastValidate e2 then kickWorker (e2\<lparr>e_valDue := True\<rparr>) else e2)
     in if now - e_lastScan e3 < lim_scanEvery (e_lim e3)
        then (e3, \<lparr>sw_expired = expired, sw_flush = flush, sw_closing = c1, sw_drains = d1, sw_targets = []\<rparr>)
        else let e4 = compactPendingLocked (e3\<lparr>e_lastScan := now\<rparr>);
                 (e5, ts) = map_loop (scanTCP now) ks e4;
                 e6 = e5\<lparr>e_tunnelTCP := fc_sweep (e_tunnelTCP e5) now, e_endedTCP := fc_sweep (e_endedTCP e5) now,
                         e_endedUDP := fc_sweep (e_endedUDP e5) now\<rparr>;
                 (e7, c2, d2) = udp_loop (scanUDP now) ps e6
             in (e7, \<lparr>sw_expired = expired, sw_flush = flush, sw_closing = c1 @ c2, sw_drains = d1 @ d2, sw_targets = ts\<rparr>))"

definition rulesChanged :: "rule_set \<Rightarrow> flow_key list \<Rightarrow> nat list \<Rightarrow> time \<Rightarrow> engine \<Rightarrow> engine \<times> abort_target list \<times> nat list" where
  "rulesChanged rs ks ps now e =
    (let (e1, ts) = map_loop (rulesChangedTCP rs now) ks e; (e2, closing) = map_loop (rulesChangedUDP rs now) ps e1 in (e2, ts, closing))"

text \<open>One entry of the two loops of failSafeAll: what to reset, and the pending flows to resolve.\<close>

definition failSafeTCP :: "time \<Rightarrow> flow_key \<Rightarrow> engine \<Rightarrow> engine \<times> (abort_target + nat) list" where
  "failSafeTCP now k e = (case e_tcp e k of
       None \<Rightarrow> (e, [])
     | Some i \<Rightarrow> if fl_state (fl e i) = StateBypass \<and> \<not> fl_aborted (fl e i) then (let (e1, t) = abortLocked i now e in (e1, [Inl t]))
         else if fl_state (fl e i) = StatePending then (e, [Inr i]) else (e, []))"

definition failSafeUDP :: "time \<Rightarrow> nat \<Rightarrow> engine \<Rightarrow> engine \<times> ((nat \<times> (nat \<times> packet_buf list) list) + nat) list" where
  "failSafeUDP now p e = (case e_udp e p of
       None \<Rightarrow> (e, [])
     | Some i \<Rightarrow> (case fl_sess (fl e i) of
         Some s \<Rightarrow> (let (e1, _) = endSessionLocked i now e; (e2, drains) = failSafeUDPLocked i now False e1 in (e2, [Inl (s, drains)]))
       | None \<Rightarrow> if fl_state (fl e i) = StatePending then (e, [Inr i]) else (e, [])))"

definition failSafe_locked :: "flow_key list \<Rightarrow> nat list \<Rightarrow> time \<Rightarrow> engine
    \<Rightarrow> engine \<times> (abort_target + nat) list \<times> ((nat \<times> (nat \<times> packet_buf list) list) + nat) list" where
  "failSafe_locked ks ps now e =
    (let (e1, xs) = map_loop (failSafeTCP now) ks e; (e2, ys) = map_loop (failSafeUDP now) ps e1 in (e2, xs, ys))"

definition shutdownTCP :: "flow_key \<Rightarrow> engine \<Rightarrow> engine \<times> abort_target list" where
  "shutdownTCP k e = (case e_tcp e k of
       None \<Rightarrow> (e, [])
     | Some i \<Rightarrow> let f = fl e i in
        (dropQueueLocked i (mod_fl i (\<lambda>f. f\<lparr>fl_prev := []\<rparr>) e),
         (if fl_phys f \<noteq> None then [\<lparr>at_ep = None, at_phys = fl_phys f\<rparr>] else []) @ fl_prev f))"

definition shutdownUDP :: "time \<Rightarrow> nat \<Rightarrow> engine \<Rightarrow> engine \<times> nat list" where
  "shutdownUDP now p e = (case e_udp e p of
       None \<Rightarrow> (e, [])
     | Some i \<Rightarrow> (let (e1, c) = endSessionLocked i now e in (dropQueueLocked i e1, c)))"

definition shutdown_locked :: "flow_key list \<Rightarrow> nat list \<Rightarrow> time \<Rightarrow> engine \<Rightarrow> engine \<times> abort_target list \<times> nat list" where
  "shutdown_locked ks ps now e0 =
    (let e = e0\<lparr>e_closed := True\<rparr>; (e1, ts) = map_loop shutdownTCP ks e; (e2, c) = map_loop (shutdownUDP now) ps e1
     in (e2\<lparr>e_frags := fst (ft_clear (e_frags e2))\<rparr>, ts, c))"

end
