(* ===== verification/Engine_Account.thy ===== *)
theory Engine_Account
  imports Engine
begin

text \<open>The books of the engine: the counters for pending flows, queued bytes and bypassed connections say
  what the flow heap holds, and stay within the limits.  The invariant is stated over the
  components of the state it reads, so that a change of any other field keeps it by simplification;
  one lemma per kind of heap change carries the operations.\<close>

definition cur_of :: "(flow_key \<Rightarrow> nat option) \<Rightarrow> (nat \<Rightarrow> nat option) \<Rightarrow> (nat \<Rightarrow> flow) \<Rightarrow> nat \<Rightarrow> bool" where
  "cur_of t u h i \<longleftrightarrow> (if fl_proto (h i) = protoUDP then u (fk_port (fl_key (h i))) = Some i else t (fl_key (h i)) = Some i)"

definition pend_of :: "(nat \<Rightarrow> flow) \<Rightarrow> nat \<Rightarrow> (flow_key \<Rightarrow> nat option) \<Rightarrow> (nat \<Rightarrow> nat option) \<Rightarrow> nat set" where
  "pend_of h n t u = {i. i < n \<and> cur_of t u h i \<and> fl_state (h i) = StatePending}"

definition live_of :: "(nat \<Rightarrow> flow) \<Rightarrow> nat \<Rightarrow> nat set" where
  "live_of h n = {i. i < n \<and> fl_live (h i)}"

definition tables_ok :: "(nat \<Rightarrow> flow) \<Rightarrow> nat \<Rightarrow> (flow_key \<Rightarrow> nat option) \<Rightarrow> (nat \<Rightarrow> nat option) \<Rightarrow> bool" where
  "tables_ok h n t u \<longleftrightarrow>
     (\<forall>k i. t k = Some i \<longrightarrow> i < n \<and> fl_key (h i) = k \<and> fl_proto (h i) = protoTCP) \<and>
     (\<forall>p i. u p = Some i \<longrightarrow> i < n \<and> fk_port (fl_key (h i)) = p \<and> fl_proto (h i) = protoUDP)"

text \<open>A flow's queue is accounted and no buffer has a negative size; a pending flow is not live and
  holds nothing for an owner check; a session belongs to a UDP port in the bypass state.\<close>

definition flow_ok :: "flow \<Rightarrow> bool" where
  "flow_ok f \<longleftrightarrow> fl_queueCost f = buf_sum (fl_queue f) \<and> list_all (\<lambda>p. 0 \<le> pb_cap p) (fl_queue f) \<and>
     (fl_live f \<longrightarrow> fl_state f \<noteq> StatePending) \<and> (fl_holding f \<longrightarrow> fl_state f \<noteq> StatePending) \<and>
     (fl_sess f \<noteq> None \<longrightarrow> fl_state f = StateBypass \<and> fl_proto f = protoUDP)"

definition acct :: "limits \<Rightarrow> (nat \<Rightarrow> flow) \<Rightarrow> nat \<Rightarrow> (flow_key \<Rightarrow> nat option) \<Rightarrow> (nat \<Rightarrow> nat option) \<Rightarrow> int \<Rightarrow> int \<Rightarrow> int \<Rightarrow> bool" where
  "acct lim h n t u p c b \<longleftrightarrow> tables_ok h n t u \<and> (\<forall>i<n. flow_ok (h i)) \<and>
     p = int (card (pend_of h n t u)) \<and> c = (\<Sum>i<n. fl_queueCost (h i)) \<and> b = int (card (live_of h n)) \<and>
     p \<le> lim_pendingFlows lim \<and> c \<le> lim_pendingBytes lim \<and> b \<le> lim_bypassTCP lim"

definition books :: "engine \<Rightarrow> bool" where
  "books e \<longleftrightarrow> acct (e_lim e) (e_heap e) (e_next e) (e_tcp e) (e_udp e) (e_pending e) (e_pendingCost e) (e_bypassTCP e)"

lemma protos [simp]: "protoTCP \<noteq> protoUDP" "protoUDP \<noteq> protoTCP"
  by (simp_all add: protoTCP_def protoUDP_def)

lemma currentLocked_cur: "currentLocked e i \<longleftrightarrow> cur_of (e_tcp e) (e_udp e) (e_heap e) i"
  by (simp add: currentLocked_def cur_of_def fl_def)

lemma finite_pend [simp]: "finite (pend_of h n t u)" and finite_live [simp]: "finite (live_of h n)"
  by (simp_all add: pend_of_def live_of_def)

lemma buf_sum_nonneg: "list_all (\<lambda>p. 0 \<le> pb_cap p) ps \<Longrightarrow> 0 \<le> buf_sum ps"
  by (induction ps) (auto simp: bufCost_def)

lemma sum_upd: "i < n \<Longrightarrow> (\<Sum>j<n. g ((h(i := f)) j)) = (\<Sum>j<(n::nat). g (h j)) - g (h i) + (g f :: int)"
  by (simp add: sum.remove [of "{..<n}" i])

lemma table_inj:
  assumes "tables_ok h n t u"
  shows "t k = Some i \<Longrightarrow> t k' = Some i \<Longrightarrow> k' = k" "u p = Some i \<Longrightarrow> u p' = Some i \<Longrightarrow> p' = p" "t k = Some i \<Longrightarrow> u p = Some i \<Longrightarrow> False"
    "t k = Some i \<Longrightarrow> i < n" "u p = Some i \<Longrightarrow> i < n" "t k = Some i \<Longrightarrow> fl_key (h i) = k" "u p = Some i \<Longrightarrow> fk_port (fl_key (h i)) = p"
    "t k = Some i \<Longrightarrow> fl_proto (h i) = protoTCP" "u p = Some i \<Longrightarrow> fl_proto (h i) = protoUDP"
  using assms unfolding tables_ok_def by (metis protos)+

section \<open>One lemma per kind of change\<close>

text \<open>Rewriting a flow: what the books read of it, and how the counters follow.\<close>

lemma tables_upd: "tables_ok h n t u \<Longrightarrow> fl_proto f = fl_proto (h i) \<Longrightarrow> fl_key f = fl_key (h i) \<Longrightarrow> tables_ok (h(i := f)) n t u"
  by (auto simp: tables_ok_def)

lemma cur_upd: "fl_proto f = fl_proto (h i) \<Longrightarrow> fl_key f = fl_key (h i) \<Longrightarrow> cur_of t u (h(i := f)) j = cur_of t u h j"
  by (simp add: cur_of_def)

lemma pend_upd:
  assumes "fl_proto f = fl_proto (h i)" "fl_key f = fl_key (h i)"
  shows "pend_of (h(i := f)) n t u = (if i < n \<and> cur_of t u h i \<and> fl_state f = StatePending then insert i (pend_of h n t u) else pend_of h n t u - {i})"
  by (auto simp: pend_of_def cur_upd [of f h i t u, OF assms])

lemma live_upd: "live_of (h(i := f)) n = (if i < n \<and> fl_live f then insert i (live_of h n) else live_of h n - {i})"
  by (auto simp: live_of_def)

lemma card_int_insert: "finite A \<Longrightarrow> int (card (insert x A)) = int (card A) + (if x \<in> A then 0 else 1)"
  by (simp add: card_insert_if)

lemma card_int_remove: "finite A \<Longrightarrow> int (card (A - {x})) = int (card A) - (if x \<in> A then 1 else 0)"
  using card_Suc_Diff1 [of A x] by (cases "x \<in> A") auto

lemma acct_upd:
  assumes a: "acct lim h n t u p c b" and i: "i < n" and f: "fl_proto f = fl_proto (h i)" "fl_key f = fl_key (h i)" and q: "flow_ok f"
    and p': "p' = p - (if cur_of t u h i \<and> fl_state (h i) = StatePending then 1 else 0) + (if cur_of t u h i \<and> fl_state f = StatePending then 1 else 0)"
    and c': "c' = c - fl_queueCost (h i) + fl_queueCost f"
    and b': "b' = b - (if fl_live (h i) then 1 else 0) + (if fl_live f then 1 else 0)"
    and bounds: "p' \<le> lim_pendingFlows lim" "c' \<le> lim_pendingBytes lim" "b' \<le> lim_bypassTCP lim"
  shows "acct lim (h(i := f)) n t u p' c' b'"
proof -
  have t: "tables_ok (h(i := f)) n t u" using a f by (simp add: acct_def tables_upd)
  have "\<forall>j<n. flow_ok ((h(i := f)) j)" using a q by (simp add: acct_def)
  moreover have "p' = int (card (pend_of (h(i := f)) n t u))"
    using a i unfolding p' pend_upd [of f h i n t u, OF f]
    by (auto simp: acct_def card_int_insert card_int_remove pend_of_def [of h n t u])
  moreover have "c' = (\<Sum>j<n. fl_queueCost ((h(i := f)) j))"
    using a c' by (simp only: sum_upd [OF i] acct_def)
  moreover have "b' = int (card (live_of (h(i := f)) n))"
    using a i unfolding b' live_upd by (auto simp: acct_def card_int_insert card_int_remove live_of_def)
  ultimately show ?thesis using t bounds by (simp add: acct_def)
qed

text \<open>A change of fields the books do not read.\<close>

definition same_books :: "flow \<Rightarrow> flow \<Rightarrow> bool" where
  "same_books f g \<longleftrightarrow> fl_proto f = fl_proto g \<and> fl_key f = fl_key g \<and> (fl_state f = StatePending) = (fl_state g = StatePending) \<and>
     fl_queue f = fl_queue g \<and> fl_queueCost f = fl_queueCost g \<and> fl_live f = fl_live g \<and>
     (fl_holding f \<longrightarrow> fl_holding g \<or> fl_state f \<noteq> StatePending) \<and>
     (fl_sess f \<noteq> None \<longrightarrow> (fl_state f = StateBypass \<and> fl_proto f = protoUDP) \<or> (fl_sess f = fl_sess g \<and> fl_state f = fl_state g))"

lemma acct_frame:
  assumes a: "acct lim h n t u p c b" and s: "same_books f (h i)"
  shows "acct lim (h(i := f)) n t u p c b"
proof (cases "i < n")
  case True
  have "flow_ok f" using a s True by (auto simp: acct_def same_books_def flow_ok_def)
  then show ?thesis using a s by (intro acct_upd [OF a True]) (auto simp: same_books_def acct_def)
next
  case False
  have t: "tables_ok (h(i := f)) n t u" using a s by (simp add: acct_def same_books_def tables_upd)
  have "pend_of (h(i := f)) n t u = pend_of h n t u" "live_of (h(i := f)) n = live_of h n"
    using False s pend_upd [of f h i n t u] live_upd [of h i f n] by (auto simp: same_books_def pend_of_def live_of_def)
  moreover have "(\<Sum>j<n. fl_queueCost ((h(i := f)) j)) = (\<Sum>j<n. fl_queueCost (h j))" using False by (intro sum.cong) auto
  ultimately show ?thesis using a t False by (simp add: acct_def)
qed

text \<open>A new pending flow, with its entry in a table that has none for its key.\<close>

lemma acct_alloc:
  assumes a: "acct lim h n t u p c b" and f: "fl_state f = StatePending" "fl_queue f = []" "fl_queueCost f = 0" "\<not> fl_live f"
      "\<not> fl_holding f" "fl_sess f = None"
    and t': "(fl_proto f = protoTCP \<and> t (fl_key f) = None \<and> t' = t(fl_key f \<mapsto> n) \<and> u' = u) \<or>
      (fl_proto f = protoUDP \<and> u (fk_port (fl_key f)) = None \<and> t' = t \<and> u' = u(fk_port (fl_key f) \<mapsto> n))"
    and room: "p < lim_pendingFlows lim"
  shows "acct lim (h(n := f)) (Suc n) t' u' (p + 1) c b"
proof -
  have tb: "tables_ok h n t u" using a by (simp add: acct_def)
  have nt: "t k \<noteq> Some n" "u q \<noteq> Some n" for k q using table_inj(4,5) [OF tb] by blast+
  have old: "t k = Some i \<Longrightarrow> i < n \<and> i \<noteq> n \<and> fl_key (h i) = k \<and> fl_proto (h i) = protoTCP"
    "u q = Some i \<Longrightarrow> i < n \<and> i \<noteq> n \<and> fk_port (fl_key (h i)) = q \<and> fl_proto (h i) = protoUDP" for k q i
    using tb nt by (auto simp: tables_ok_def)
  have tok: "tables_ok (h(n := f)) (Suc n) t' u'"
    using t' old unfolding tables_ok_def by (elim disjE) (auto split: if_splits simp: less_Suc_eq)
  have "cur_of t' u' (h(n := f)) i = cur_of t u h i" if "i < n" for i
    using that t' by (auto simp: cur_of_def split: if_splits)
  moreover have "cur_of t' u' (h(n := f)) n" using t' by (auto simp: cur_of_def)
  ultimately have "pend_of (h(n := f)) (Suc n) t' u' = insert n (pend_of h n t u)"
    using f by (auto simp: pend_of_def less_Suc_eq)
  moreover have "n \<notin> pend_of h n t u" by (simp add: pend_of_def)
  moreover have "live_of (h(n := f)) (Suc n) = live_of h n" using f by (auto simp: live_of_def less_Suc_eq)
  moreover have "(\<Sum>j<Suc n. fl_queueCost ((h(n := f)) j)) = (\<Sum>j<n. fl_queueCost (h j))" using f by simp
  ultimately show ?thesis using a tok f room by (auto simp: acct_def less_Suc_eq flow_ok_def)
qed

text \<open>An entry leaves its table.\<close>

lemma acct_delete:
  assumes a: "acct lim h n t u p c b"
    and del: "(t k = Some i \<and> t' = t(k := None) \<and> u' = u) \<or> (u q = Some i \<and> t' = t \<and> u' = u(q := None))"
  shows "acct lim h n t' u' (p - (if fl_state (h i) = StatePending then 1 else 0)) c b"
proof -
  have tb: "tables_ok h n t u" using a by (simp add: acct_def)
  have i: "i < n" "cur_of t u h i" using del tb by (auto simp: cur_of_def tables_ok_def)
  have tok: "tables_ok h n t' u'" using tb del by (auto simp: tables_ok_def split: if_splits)
  have "cur_of t' u' h j \<longleftrightarrow> cur_of t u h j \<and> j \<noteq> i" for j
    using del
  proof
    assume d: "t k = Some i \<and> t' = t(k := None) \<and> u' = u"
    then have "fl_key (h i) = k" "fl_proto (h i) \<noteq> protoUDP" using tb by (auto simp: tables_ok_def)
    then show ?thesis using d by (auto simp: cur_of_def split: if_splits)
  next
    assume d: "u q = Some i \<and> t' = t \<and> u' = u(q := None)"
    then have "fk_port (fl_key (h i)) = q" "fl_proto (h i) = protoUDP" using tb by (auto simp: tables_ok_def)
    then show ?thesis using d by (auto simp: cur_of_def split: if_splits)
  qed
  then have "pend_of h n t' u' = pend_of h n t u - {i}" by (auto simp: pend_of_def)
  moreover have "i \<in> pend_of h n t u \<longleftrightarrow> fl_state (h i) = StatePending" using i by (simp add: pend_of_def)
  ultimately have "int (card (pend_of h n t' u')) = int (card (pend_of h n t u)) - (if fl_state (h i) = StatePending then 1 else 0)"
    by (simp add: card_int_remove)
  then show ?thesis using a tok by (auto simp: acct_def)
qed

section \<open>The helpers keep the books\<close>

lemma books_ext [simp]:
  "books (e\<lparr>e_kick := b1\<rparr>) = books e" "books (e\<lparr>e_out := b2\<rparr>) = books e" "books (e\<lparr>e_stack := b3\<rparr>) = books e"
  "books (e\<lparr>e_closed := b4\<rparr>) = books e" "books (e\<lparr>e_sessions := b5\<rparr>) = books e" "books (e\<lparr>e_nextSess := b6\<rparr>) = books e"
  "books (e\<lparr>e_pendingQ := b7\<rparr>) = books e" "books (e\<lparr>e_inflight := b8\<rparr>) = books e" "books (e\<lparr>e_tunnelTCP := b9\<rparr>) = books e"
  "books (e\<lparr>e_endedTCP := c1\<rparr>) = books e" "books (e\<lparr>e_lastScan := c2\<rparr>) = books e" "books (e\<lparr>e_udpLive := c3\<rparr>) = books e"
  "books (e\<lparr>e_revalQ := c4\<rparr>) = books e" "books (e\<lparr>e_holdQ := c5\<rparr>) = books e" "books (e\<lparr>e_udpCreating := c6\<rparr>) = books e"
  "books (e\<lparr>e_egressDownTo := c7\<rparr>) = books e" "books (e\<lparr>e_valDue := c8\<rparr>) = books e" "books (e\<lparr>e_lastValidate := c9\<rparr>) = books e"
  "books (e\<lparr>e_endedUDP := d1\<rparr>) = books e" "books (e\<lparr>e_frags := d2\<rparr>) = books e" "books (e\<lparr>e_tcpLen := d3\<rparr>) = books e"
  "books (e\<lparr>e_rules := d4\<rparr>) = books e" "books (e\<lparr>e_permitted := d5\<rparr>) = books e" "books (e\<lparr>e_engDown := d6\<rparr>) = books e"
  "books (e\<lparr>e_tunnelOnly := d7\<rparr>) = books e"
  by (simp_all add: books_def)

lemma mod_fl_sel [simp]:
  "e_next (mod_fl i g e) = e_next e" "e_tcp (mod_fl i g e) = e_tcp e" "e_udp (mod_fl i g e) = e_udp e" "e_lim (mod_fl i g e) = e_lim e"
  "e_pending (mod_fl i g e) = e_pending e" "e_pendingCost (mod_fl i g e) = e_pendingCost e" "e_bypassTCP (mod_fl i g e) = e_bypassTCP e"
  "e_heap (mod_fl i g e) = (e_heap e)(i := g (e_heap e i))" "e_sessions (mod_fl i g e) = e_sessions e" "e_closed (mod_fl i g e) = e_closed e"
  "e_udpLive (mod_fl i g e) = e_udpLive e" "e_pendingQ (mod_fl i g e) = e_pendingQ e" "e_inflight (mod_fl i g e) = e_inflight e"
  "e_nextSess (mod_fl i g e) = e_nextSess e" "e_frags (mod_fl i g e) = e_frags e" "e_stack (mod_fl i g e) = e_stack e"
  "e_rules (mod_fl i g e) = e_rules e" "e_permitted (mod_fl i g e) = e_permitted e" "e_engDown (mod_fl i g e) = e_engDown e"
  "e_tunnelOnly (mod_fl i g e) = e_tunnelOnly e" "e_holdQ (mod_fl i g e) = e_holdQ e" "e_revalQ (mod_fl i g e) = e_revalQ e"
  by (simp_all add: mod_fl_def)

lemma books_frame: "books e \<Longrightarrow> same_books (g (e_heap e i)) (e_heap e i) \<Longrightarrow> books (mod_fl i g e)"
  by (simp add: books_def acct_frame)

lemma books_tables: "books e \<Longrightarrow> tables_ok (e_heap e) (e_next e) (e_tcp e) (e_udp e)"
  by (simp add: books_def acct_def)

lemma current_less: "books e \<Longrightarrow> currentLocked e i \<Longrightarrow> i < e_next e"
  using table_inj(4,5) [OF books_tables] by (auto simp: currentLocked_cur cur_of_def split: if_splits)

lemma books_queue: "books e \<Longrightarrow> i < e_next e \<Longrightarrow> flow_ok (e_heap e i)"
  by (simp add: books_def acct_def)

lemma flow_ok_empty [simp]: "flow_ok f \<Longrightarrow> flow_ok (f\<lparr>fl_queue := [], fl_queueCost := 0\<rparr>)"
  by (simp add: flow_ok_def)

lemma flow_ok_cost: "flow_ok f \<Longrightarrow> 0 \<le> fl_queueCost f"
  by (simp add: flow_ok_def buf_sum_nonneg)

text \<open>The general form: rewriting one flow and the three counters at once.\<close>

lemma books_upd:
  assumes e: "books e" and i: "i < e_next e" and h: "e_heap e' = (e_heap e)(i := f)"
    and same: "e_next e' = e_next e" "e_tcp e' = e_tcp e" "e_udp e' = e_udp e" "e_lim e' = e_lim e"
    and f: "fl_proto f = fl_proto (e_heap e i)" "fl_key f = fl_key (e_heap e i)" "flow_ok f"
    and p: "e_pending e' = e_pending e - (if currentLocked e i \<and> fl_state (e_heap e i) = StatePending then 1 else 0)
      + (if currentLocked e i \<and> fl_state f = StatePending then 1 else 0)"
    and c: "e_pendingCost e' = e_pendingCost e - fl_queueCost (e_heap e i) + fl_queueCost f"
    and b: "e_bypassTCP e' = e_bypassTCP e - (if fl_live (e_heap e i) then 1 else 0) + (if fl_live f then 1 else 0)"
    and le: "e_pending e' \<le> lim_pendingFlows (e_lim e)" "e_pendingCost e' \<le> lim_pendingBytes (e_lim e)"
      "e_bypassTCP e' \<le> lim_bypassTCP (e_lim e)"
  shows "books e'"
  using acct_upd [OF e [unfolded books_def] i f p [unfolded currentLocked_cur] c b le]
  by (simp add: books_def h same)

lemma books_le: "books e \<Longrightarrow> e_pending e \<le> lim_pendingFlows (e_lim e) \<and> e_pendingCost e \<le> lim_pendingBytes (e_lim e) \<and>
    e_bypassTCP e \<le> lim_bypassTCP (e_lim e)"
  by (simp add: books_def acct_def)

lemma books_take: "books e \<Longrightarrow> i < e_next e \<Longrightarrow> books (fst (takeQueueLocked i e))"
  using flow_ok_cost [OF books_queue, of e i] books_le [of e] books_queue [of e i]
  by (rule_tac f = "(e_heap e i)\<lparr>fl_queue := [], fl_queueCost := 0\<rparr>" in books_upd [of e i]) (auto simp: takeQueueLocked_def fl_def)

lemma books_drop: "books e \<Longrightarrow> i < e_next e \<Longrightarrow> books (dropQueueLocked i e)"
  by (simp add: dropQueueLocked_def books_take)

lemma books_release: "books e \<Longrightarrow> i < e_next e \<Longrightarrow> books (releaseLiveLocked i e)"
  using books_le [of e] books_queue [of e i]
  by (cases "fl_live (e_heap e i)", rule_tac f = "(e_heap e i)\<lparr>fl_live := False\<rparr>" in books_upd [of e i])
    (auto simp: releaseLiveLocked_def fl_def flow_ok_def)

lemma copyPacket_cap: "0 \<le> pb_cap (copyPacket b)" "bufCost (copyPacket b) = pb_cap (copyPacket b)"
  by (auto simp: copyPacket_def newPacketBuf_cap_def engineBufSize_def bufCost_def)

text \<open>Appending a packet within the byte budget.\<close>

definition push_queue :: "nat \<Rightarrow> packet_buf \<Rightarrow> engine \<Rightarrow> engine" where
  "push_queue i p e = (mod_fl i (\<lambda>f. f\<lparr>fl_queue := fl_queue f @ [p], fl_queueCost := fl_queueCost f + bufCost p\<rparr>) e)
     \<lparr>e_pendingCost := e_pendingCost e + bufCost p\<rparr>"

lemma books_push:
  "books e \<Longrightarrow> i < e_next e \<Longrightarrow> 0 \<le> pb_cap p \<Longrightarrow> e_pendingCost e + bufCost p \<le> lim_pendingBytes (e_lim e) \<Longrightarrow> books (push_queue i p e)"
  using books_le [of e] books_queue [of e i]
  by (rule_tac f = "(e_heap e i)\<lparr>fl_queue := fl_queue (e_heap e i) @ [p], fl_queueCost := fl_queueCost (e_heap e i) + bufCost p\<rparr>" in books_upd [of e i])
    (auto simp: push_queue_def fl_def flow_ok_def)

lemma enqueueLocked_eq: "enqueueLocked i pkt e =
    (if (lim_tcpQueue (e_lim e) \<le> int (length (fl_queue (fl e i))) \<and> \<not> fl_draining (fl e i)) \<or>
        lim_pendingBytes (e_lim e) < e_pendingCost e + bufCost (copyPacket pkt) then (e, ActDrop) else (push_queue i (copyPacket pkt) e, ActHeld))"
  by (simp add: enqueueLocked_def push_queue_def Let_def)

lemma enqueueBufLocked_eq: "enqueueBufLocked i p e =
    (if (\<not> fl_draining (fl e i) \<and> lim_udpQueueBytes (e_lim e) < fl_queueCost (fl e i) + bufCost p) \<or>
        lim_pendingBytes (e_lim e) < e_pendingCost e + bufCost p then (e, ActDrop) else (push_queue i p e, ActHeld))"
  by (simp add: enqueueBufLocked_def push_queue_def Let_def)

lemma books_enqueue: "books e \<Longrightarrow> i < e_next e \<Longrightarrow> books (fst (enqueueLocked i pkt e))"
  by (simp add: enqueueLocked_eq books_push copyPacket_cap(1))

lemma books_enqueueBuf: "books e \<Longrightarrow> i < e_next e \<Longrightarrow> 0 \<le> pb_cap p \<Longrightarrow> books (fst (enqueueBufLocked i p e))"
  by (simp add: enqueueBufLocked_eq books_push)

lemma books_tcp_delete: "books e \<Longrightarrow> e_tcp e k = Some i \<Longrightarrow> fl_state (e_heap e i) \<noteq> StatePending \<Longrightarrow> books (tcp_delete k e)"
  using acct_delete [of "e_lim e" "e_heap e" "e_next e" "e_tcp e" "e_udp e" "e_pending e" "e_pendingCost e" "e_bypassTCP e" k i]
  by (simp add: books_def tcp_delete_def)

lemma books_udp_delete: "books e \<Longrightarrow> e_udp e q = Some i \<Longrightarrow> fl_state (e_heap e i) \<noteq> StatePending \<Longrightarrow> books (udp_delete q e)"
  using acct_delete [of "e_lim e" "e_heap e" "e_next e" "e_tcp e" "e_udp e" "e_pending e" "e_pendingCost e" "e_bypassTCP e" _ i _ _ q]
  by (simp add: books_def udp_delete_def)

section \<open>The TCP operations keep the books\<close>

lemma books_newTCP:
  assumes e: "books e" and k: "e_tcp e key = None"
  shows "books (fst (newTCPLocked key isn pkt now prev e))"
proof (cases "may_classify e")
  case True
  let ?f = "(pending_flow protoTCP key (now + lim_pendingTimeout (e_lim e)))\<lparr>fl_isn := isn, fl_prev := prev\<rparr>"
  let ?e = "(tcp_store key (e_next e) (fst (alloc_fl ?f e)))\<lparr>e_pending := e_pending e + 1, e_pendingQ := e_pendingQ e @ [e_next e]\<rparr>"
  have "e_pending e < lim_pendingFlows (e_lim e)" using True by (simp add: may_classify_def)
  then have "acct (e_lim e) ((e_heap e)(e_next e := ?f)) (Suc (e_next e)) ((e_tcp e)(key \<mapsto> e_next e)) (e_udp e) (e_pending e + 1)
      (e_pendingCost e) (e_bypassTCP e)"
    by (intro acct_alloc [OF e [unfolded books_def]]) (simp_all add: pending_flow_def k)
  then have "books ?e" by (simp add: books_def tcp_store_def alloc_fl_def)
  then have "books (fst (enqueueLocked (e_next e) pkt ?e))"
    by (rule books_enqueue) (simp add: tcp_store_def alloc_fl_def)
  then show ?thesis using True by (simp add: newTCPLocked_def alloc_fl_def kickWorker_def)
qed (simp add: newTCPLocked_def e)

lemma books_dropFlow:
  assumes e: "books e" and i: "e_tcp e (fl_key (e_heap e i)) = Some i"
  shows "books (fst (dropFlowLocked i e))" "e_tcp (fst (dropFlowLocked i e)) = (e_tcp e)(fl_key (e_heap e i) := None)"
    "e_next (fst (dropFlowLocked i e)) = e_next e" "e_udp (fst (dropFlowLocked i e)) = e_udp e"
proof -
  let ?k = "fl_key (e_heap e i)"
  define e2 where "e2 = (if fl_state (e_heap e i) = StatePending then (tcp_delete ?k e)\<lparr>e_pending := e_pending e - 1\<rparr> else tcp_delete ?k e)"
  have lt: "i < e_next e" using table_inj(4) [OF books_tables [OF e] i] .
  have b2: "books e2"
    using acct_delete [OF e [unfolded books_def], of ?k i] i by (auto simp: e2_def books_def tcp_delete_def)
  have s2: "e_heap e2 = e_heap e" "e_next e2 = e_next e" "e_tcp e2 = (e_tcp e)(?k := None)" "e_udp e2 = e_udp e"
    by (simp_all add: e2_def tcp_delete_def)
  define e3 where "e3 = dropQueueLocked i e2"
  have b3: "books e3" using books_drop [OF b2] lt by (simp add: e3_def s2)
  have s3: "e_next e3 = e_next e" "e_tcp e3 = (e_tcp e)(?k := None)" "e_udp e3 = e_udp e"
    by (simp_all add: e3_def dropQueueLocked_def takeQueueLocked_def s2)
  define e4 where "e4 = (if fl_awaitingDial (e_heap e i) then releaseLiveLocked i (mod_fl i (\<lambda>f. f\<lparr>fl_awaitingDial := False\<rparr>) e3) else e3)"
  have b4: "books e4"
    using b3 lt by (auto simp: e4_def s3 intro!: books_release books_frame) (simp_all add: same_books_def)
  have s4: "e_next e4 = e_next e" "e_tcp e4 = (e_tcp e)(?k := None)" "e_udp e4 = e_udp e"
    by (simp_all add: e4_def releaseLiveLocked_def s3)
  have d: "fst (dropFlowLocked i e) = mod_fl i (\<lambda>f. f\<lparr>fl_aborted := True, fl_prev := []\<rparr>) e4"
    using i by (simp add: dropFlowLocked_def Let_def fl_def e4_def e3_def e2_def tcp_delete_def)
  show "books (fst (dropFlowLocked i e))" unfolding d by (rule books_frame [OF b4]) (simp add: same_books_def)
  show "e_tcp (fst (dropFlowLocked i e)) = (e_tcp e)(fl_key (e_heap e i) := None)" "e_next (fst (dropFlowLocked i e)) = e_next e"
    "e_udp (fst (dropFlowLocked i e)) = e_udp e"
    by (simp_all add: d s4)
qed

lemma books_table_key: "books e \<Longrightarrow> e_tcp e k = Some i \<Longrightarrow> fl_key (e_heap e i) = k \<and> i < e_next e \<and> fl_proto (e_heap e i) = protoTCP"
  using books_tables [of e] by (auto simp: tables_ok_def)

lemma books_table_port: "books e \<Longrightarrow> e_udp e p = Some i \<Longrightarrow> fk_port (fl_key (e_heap e i)) = p \<and> i < e_next e \<and> fl_proto (e_heap e i) = protoUDP"
  using books_tables [of e] by (auto simp: tables_ok_def)

lemma books_decideTCP:
  assumes e: "books e"
  shows "books (fst (decideTCP info pkt now e))"
proof (cases "e_tcp e (tcp_key info)")
  case None
  then have "books (fst (newTCPLocked (tcp_key info) s pkt now ts (e\<lparr>e_tunnelTCP := a\<rparr>)))"
    "books (fst (newTCPLocked (tcp_key info) s pkt now ts (e\<lparr>e_tunnelTCP := a, e_endedTCP := b\<rparr>)))" for s ts a b
    using e by (auto intro!: books_newTCP)
  then show ?thesis using e None by (auto simp: decideTCP_def Let_def split: option.split prod.split)
next
  case (Some i)
  have k: "fl_key (e_heap e i) = tcp_key info" "i < e_next e" using books_table_key [OF e Some] by simp_all
  have d: "books (fst (dropFlowLocked i e))" "e_tcp (fst (dropFlowLocked i e)) (tcp_key info) = None"
    using books_dropFlow [OF e, of i] Some k by auto
  show ?thesis
    using e Some k d books_newTCP [OF d] books_enqueue [OF e k(2), of pkt]
    by (auto simp: decideTCP_def Let_def split: prod.split)
qed

lemma books_resolveTCP:
  assumes e: "books e"
  shows "books (fst (resolveTCP i res classified now e))"
proof (cases "e_closed e \<or> \<not> currentLocked e i \<or> fl_state (fl e i) \<noteq> StatePending")
  case False
  define bypass where "bypass = (e_bypassTCP e < lim_bypassTCP (e_lim e) \<and> bypassVerdictLocked res classified e)"
  have c: "currentLocked e i" "fl_state (e_heap e i) = StatePending" "i < e_next e"
    using False current_less [OF e] by (auto simp: fl_def)
  let ?e = "fst (resolveTCP i res classified now e)"
  let ?e1 = "e\<lparr>e_pending := e_pending e - 1\<rparr>"
  let ?e2 = "mod_fl i (\<lambda>f. f\<lparr>fl_submitted := False, fl_owner := mr_owner res, fl_draining := True\<rparr>) ?e1"
  let ?e3 = "(if bypass then (mod_fl i (\<lambda>f. f\<lparr>fl_state := StateBypass, fl_live := True, fl_awaitingDial := True,
       fl_deadline := now + lim_embryonicTTL (e_lim e)\<rparr>) ?e2)\<lparr>e_bypassTCP := e_bypassTCP ?e2 + 1\<rparr>
     else mod_fl i (\<lambda>f. f\<lparr>fl_state := StateTunnel\<rparr>) ?e2)"
  have r: "?e = fst (takeQueueLocked i (mod_fl i (\<lambda>f. f\<lparr>fl_prev := []\<rparr>) ?e3))"
    using False unfolding resolveTCP_def bypass_def [symmetric] by (simp add: Let_def split: prod.split)
  let ?f = "(e_heap ?e3 i)\<lparr>fl_prev := [], fl_queue := [], fl_queueCost := 0\<rparr>"
  have ok: "flow_ok (e_heap e i)" by (rule books_queue [OF e c(3)])
  have st: "fl_state ?f = (if bypass then StateBypass else StateTunnel)" "fl_live ?f = (bypass \<or> fl_live (e_heap e i))"
    "\<not> fl_live (e_heap e i)"
    using ok c(2) by (simp_all add: flow_ok_def)
  show ?thesis
    unfolding r
    by (rule books_upd [OF e c(3), where f = ?f])
      (use ok c st books_le [OF e] flow_ok_cost [OF ok] in \<open>auto simp: takeQueueLocked_def fl_def flow_ok_def bypass_def\<close>)
qed (auto simp: resolveTCP_def e)

lemma fc_frame [simp]: "e_heap (e\<lparr>e_endedTCP := c\<rparr>) = e_heap e" "e_heap (e\<lparr>e_tunnelTCP := c\<rparr>) = e_heap e"
  by simp_all

lemma books_drainNext:
  assumes e: "books e"
  shows "books (fst (drainNext i now e))"
proof (cases "e_closed e \<or> \<not> currentLocked e i")
  case False
  then have c: "currentLocked e i" "i < e_next e" using current_less [OF e] by auto
  show ?thesis
  proof (cases "fl_queue (fl e i) = []")
    case True
    have b1: "books (mod_fl i (\<lambda>f. f\<lparr>fl_draining := False\<rparr>) e)" by (rule books_frame [OF e]) (simp add: same_books_def)
    have "books (tcp_delete (fl_key (fl e i)) (mod_fl i (\<lambda>f. f\<lparr>fl_draining := False\<rparr>) e))"
      if "fl_proto (fl e i) = protoTCP" "fl_state (fl e i) = StateTunnel"
      using that c(1) by (intro books_tcp_delete [OF b1, of _ i]) (auto simp: currentLocked_def fl_def)
    then show ?thesis using False True b1 by (auto simp: drainNext_def Let_def)
  next
    case ne: False
    show ?thesis using False ne books_take [OF e c(2)] by (simp add: drainNext_def case_prod_beta)
  qed
qed (auto simp: drainNext_def e)

lemma books_takeDialMark: "books e \<Longrightarrow> books (fst (takeDialMark key e))"
  by (auto simp: takeDialMark_def Let_def same_books_def intro!: books_frame split: option.split)

lemma books_attach: "books e \<Longrightarrow> books (fst (attach i ep conn e))"
  by (auto simp: attach_def same_books_def intro!: books_frame)

lemma books_finishFlow:
  assumes e: "books e" and i: "i < e_next e"
  shows "books (finishFlow i linger now e)"
proof -
  define e1 where "e1 = mod_fl i (\<lambda>f. f\<lparr>fl_ep := None, fl_phys := None\<rparr>) (releaseLiveLocked i e)"
  define e2 where "e2 = mod_fl i (\<lambda>f. f\<lparr>fl_endedAt := now\<rparr>) e1"
  have b1: "books e1" unfolding e1_def by (intro books_frame books_release e i) (simp add: same_books_def)
  have b2: "books e2" unfolding e2_def by (rule books_frame [OF b1]) (simp add: same_books_def)
  have ns: "fl_sess (fl e1 i) = None" if "e_tcp e1 (fl_key (fl e1 i)) = Some i"
    using books_table_key [OF b1 that] books_queue [OF b1, of i] by (auto simp: flow_ok_def fl_def)
  have "books (tcp_delete (fl_key (fl e1 i)) e2)" if "e_tcp e1 (fl_key (fl e1 i)) = Some i" "fl_state (fl e1 i) = StateBypass"
    using that by (intro books_tcp_delete [OF b2, of _ i]) (simp_all add: e2_def fl_def)
  moreover have "books (mod_fl i (\<lambda>f. f\<lparr>fl_state := StateLinger, fl_deadline := now + linger\<rparr>) e2)"
    if "e_tcp e1 (fl_key (fl e1 i)) = Some i" "fl_state (fl e1 i) = StateBypass"
    using that ns by (intro books_frame b2) (simp add: same_books_def e2_def fl_def)
  ultimately show ?thesis
    using b1 unfolding finishFlow_def Let_def e1_def [symmetric] e2_def [symmetric] by (simp split: if_splits)
qed

lemma books_abort: 
  assumes e: "books e" and i: "i < e_next e" and st: "fl_state (fl e i) = StateBypass" and pr: "fl_proto (e_heap e i) = protoTCP"
  shows "books (fst (abortLocked i now e))"
proof -
  let ?e1 = "mod_fl i (\<lambda>f. f\<lparr>fl_aborted := True, fl_state := StateLinger, fl_endedAt := now,
           fl_deadline := now + lim_linger (e_lim e)\<rparr>) e"
  have b1: "books ?e1" by (rule books_frame [OF e]) (use st pr books_queue [OF e i] in \<open>auto simp: same_books_def flow_ok_def fl_def\<close>)
  then have "books (releaseLiveLocked i (mod_fl i (\<lambda>f. f\<lparr>fl_awaitingDial := False\<rparr>) ?e1))"
    by (intro books_release books_frame [OF b1]) (simp_all add: same_books_def i)
  then show ?thesis using b1 by (simp add: abortLocked_def Let_def)
qed

lemma books_scanTCP:
  assumes e: "books e"
  shows "books (fst (scanTCP now k e))"
proof (cases "e_tcp e k")
  case (Some i)
  note ki = books_table_key [OF e Some]
  have "books (fst (dropFlowLocked i e))" using books_dropFlow(1) [OF e] Some ki by simp
  moreover have "books (tcp_delete (fl_key (e_heap e i)) e)" if "fl_state (e_heap e i) \<noteq> StatePending"
    using books_tcp_delete [OF e _ that] Some ki by simp
  ultimately show ?thesis using e by (auto simp: scanTCP_def Some Let_def fl_def)
qed (simp add: scanTCP_def e)

lemma books_rulesChangedTCP: "books e \<Longrightarrow> books (fst (rulesChangedTCP rs now k e))"
  using books_table_key [of e k] books_abort [of e _ now]
  by (auto simp: rulesChangedTCP_def Let_def split: option.split prod.split) (metis fst_conv)

lemma books_map_loop: "(\<And>k e. books e \<Longrightarrow> books (fst (g k e))) \<Longrightarrow> books e \<Longrightarrow> books (fst (map_loop g ks e))"
  by (induction ks arbitrary: e) (auto simp: split: prod.split, metis fst_conv)

section \<open>The UDP operations keep the books\<close>

lemma books_newUDP:
  assumes e: "books e" and k: "e_udp e port = None"
  shows "books (fst (newUDPLocked port dst pkt now streak e))"
proof (cases "may_classify e")
  case True
  let ?f = "(pending_flow protoUDP \<lparr>fk_port = port, fk_dst = dst\<rparr> (now + lim_pendingTimeout (e_lim e)))\<lparr>fl_failStreak := streak, fl_lastSeen := now\<rparr>"
  let ?e = "(udp_store port (e_next e) (fst (alloc_fl ?f e)))\<lparr>e_pending := e_pending e + 1, e_pendingQ := e_pendingQ e @ [e_next e]\<rparr>"
  have "e_pending e < lim_pendingFlows (e_lim e)" using True by (simp add: may_classify_def)
  then have "acct (e_lim e) ((e_heap e)(e_next e := ?f)) (Suc (e_next e)) (e_tcp e) ((e_udp e)(port \<mapsto> e_next e)) (e_pending e + 1)
      (e_pendingCost e) (e_bypassTCP e)"
    by (intro acct_alloc [OF e [unfolded books_def]]) (simp_all add: pending_flow_def k)
  then have "books ?e" by (simp add: books_def udp_store_def alloc_fl_def)
  then have "books (fst (enqueueUDPLocked (e_next e) pkt ?e))"
    unfolding enqueueUDPLocked_def by (rule books_enqueueBuf) (simp_all add: udp_store_def alloc_fl_def copyPacket_cap)
  then show ?thesis using True by (simp add: newUDPLocked_def alloc_fl_def kickWorker_def Let_def case_prod_beta)
qed (simp add: newUDPLocked_def e)

lemma books_mod_sess [simp]: "books (mod_sess s g e) = books e"
  by (simp add: mod_sess_def)

lemma books_startSession: 
  assumes "books e" and "fl_state (e_heap e i) \<noteq> StatePending" and "fl_proto (e_heap e i) = protoUDP"
  shows "books (startSessionLocked i now e)"
  unfolding startSessionLocked_def Let_def
  by (simp only: books_ext, intro books_frame) (simp_all add: assms same_books_def)

lemma books_setFailSafe: "books e \<Longrightarrow> books (setFailSafeLocked i fs ed now e)"
  by (simp add: setFailSafeLocked_def Let_def books_frame same_books_def)

lemma books_endSession: "books e \<Longrightarrow> books (fst (endSessionLocked i now e))"
  by (auto simp: endSessionLocked_def Let_def same_books_def intro!: books_frame split: option.split)

lemma push_queue_sel [simp]: "e_next (push_queue i p e) = e_next e" "e_udp (push_queue i p e) = e_udp e" "e_tcp (push_queue i p e) = e_tcp e"
  by (simp_all add: push_queue_def)

lemma enqueueBuf_sel [simp]: "e_next (fst (enqueueBufLocked i p e)) = e_next e" "e_udp (fst (enqueueBufLocked i p e)) = e_udp e"
  "e_tcp (fst (enqueueBufLocked i p e)) = e_tcp e"
  by (simp_all add: enqueueBufLocked_eq)

lemma books_enqueue_all: "books e \<Longrightarrow> i < e_next e \<Longrightarrow> list_all (\<lambda>p. 0 \<le> pb_cap p) ps \<Longrightarrow> books (enqueue_all i ps e)"
  by (induction ps arbitrary: e) (simp_all add: books_enqueueBuf)

lemma takeQueue_sel [simp]:
  "e_next (fst (takeQueueLocked i e)) = e_next e" "e_udp (fst (takeQueueLocked i e)) = e_udp e" "e_tcp (fst (takeQueueLocked i e)) = e_tcp e"
  "snd (takeQueueLocked i e) = fl_queue (e_heap e i)" "e_lim (fst (takeQueueLocked i e)) = e_lim e"
  "e_pending (fst (takeQueueLocked i e)) = e_pending e" "e_closed (fst (takeQueueLocked i e)) = e_closed e"
  "e_heap (fst (takeQueueLocked i e)) = (e_heap e)(i := (e_heap e i)\<lparr>fl_queue := [], fl_queueCost := 0\<rparr>)"
  by (simp_all add: takeQueueLocked_def fl_def)

text \<open>A new pending entry for a port, with the packets held so far.\<close>

lemma books_requeue:
  assumes e: "books e" and k: "e_udp e port = None" and room: "e_pending e < lim_pendingFlows (e_lim e)"
    and q: "list_all (\<lambda>p. 0 \<le> pb_cap p) q"
  shows "books (enqueue_all (e_next e) q ((udp_store port (e_next e) (fst (alloc_fl ((pending_flow protoUDP \<lparr>fk_port = port, fk_dst = dst\<rparr> dl)\<lparr>fl_lastSeen := now\<rparr>) e)))
      \<lparr>e_pending := e_pending e + 1, e_pendingQ := Q\<rparr>))"
proof -
  let ?f = "(pending_flow protoUDP \<lparr>fk_port = port, fk_dst = dst\<rparr> dl)\<lparr>fl_lastSeen := now\<rparr>"
  have "acct (e_lim e) ((e_heap e)(e_next e := ?f)) (Suc (e_next e)) (e_tcp e) ((e_udp e)(port \<mapsto> e_next e)) (e_pending e + 1)
      (e_pendingCost e) (e_bypassTCP e)"
    by (intro acct_alloc [OF e [unfolded books_def]]) (simp_all add: pending_flow_def k room)
  then show ?thesis by (intro books_enqueue_all q) (simp_all add: books_def udp_store_def alloc_fl_def)
qed

lemma books_forget:
  assumes e: "books e" and i: "e_udp e (fk_port (fl_key (e_heap e i))) = Some i"
  shows "books (forgetUDPLocked i now e)"
proof -
  let ?p = "fk_port (fl_key (e_heap e i))"
  define e2 where "e2 = (if fl_state (e_heap e i) = StatePending then (udp_delete ?p e)\<lparr>e_pending := e_pending e - 1\<rparr> else udp_delete ?p e)"
  have lt: "i < e_next e" using table_inj(5) [OF books_tables [OF e] i] .
  have b2: "books e2"
    using acct_delete [OF e [unfolded books_def], of _ i _ _ ?p] i by (auto simp: e2_def books_def udp_delete_def)
  have s2: "e_heap e2 = e_heap e" "e_next e2 = e_next e" "e_udp e2 ?p = None"
    by (simp_all add: e2_def udp_delete_def)
  define e3 where "e3 = fst (takeQueueLocked i (mod_fl i (\<lambda>f. f\<lparr>fl_holding := False\<rparr>) e2))"
  have b3: "books e3" unfolding e3_def by (intro books_take books_frame b2) (simp_all add: same_books_def s2 lt)
  have u3: "e_udp e3 ?p = None" by (simp add: e3_def s2)
  have q: "list_all (\<lambda>p. 0 \<le> pb_cap p) (fl_queue (e_heap e i))" using books_queue [OF e lt] by (simp add: flow_ok_def)
  have ee: "(if e_udp e ?p = Some i then udp_delete ?p e else e) = udp_delete ?p e" using i by simp
  have e2': "(if fl_state (e_heap e i) = StatePending then (udp_delete ?p e)\<lparr>e_pending := e_pending (udp_delete ?p e) - 1\<rparr> else udp_delete ?p e) = e2"
    by (simp add: e2_def udp_delete_def)
  note r = books_requeue [OF b3 u3, of "fl_queue (e_heap e i)"]
  show ?thesis
    unfolding forgetUDPLocked_def Let_def fl_def ee e2' case_prod_beta e3_def [symmetric]
    using b3 r q by (auto simp: kickWorker_def alloc_fl_def s2)
qed

lemma endSession_sel [simp]:
  "e_next (fst (endSessionLocked i now e)) = e_next e" "e_udp (fst (endSessionLocked i now e)) = e_udp e"
  "e_tcp (fst (endSessionLocked i now e)) = e_tcp e" "e_lim (fst (endSessionLocked i now e)) = e_lim e"
  "e_closed (fst (endSessionLocked i now e)) = e_closed e" "e_pendingQ (fst (endSessionLocked i now e)) = e_pendingQ e"
  "e_heap (fst (endSessionLocked i now e)) = (e_heap e)(i := (e_heap e i)\<lparr>fl_sess := None\<rparr>)"
  by (auto simp: endSessionLocked_def Let_def mod_sess_def fl_def split: option.split)

lemma books_end_forget:
  assumes "books e" and "e_udp e p = Some i"
  shows "books (forgetUDPLocked i now (fst (endSessionLocked i now e)))"
  using books_endSession [OF assms(1), of i now] books_table_port [OF assms] assms(2) by (intro books_forget) simp_all

lemma books_failSafeUDP:
  assumes e: "books e" and st: "fl_state (e_heap e i) \<noteq> StatePending" "fl_sess (e_heap e i) = None"
  shows "books (fst (failSafeUDPLocked i now ed e))"
proof (cases "currentLocked e i")
  case True
  define e1 where "e1 = setFailSafeLocked i True ed now (mod_fl i (\<lambda>f. f\<lparr>fl_state := StateTunnel, fl_holding := False, fl_revalidating := False\<rparr>) e)"
  have b1: "books e1" unfolding e1_def by (intro books_setFailSafe books_frame e) (use st in \<open>simp add: same_books_def\<close>)
  have "i < e_next e1" using current_less [OF e True] by (simp add: e1_def setFailSafeLocked_def Let_def)
  then have "books (fst (takeQueueLocked i (mod_fl i (\<lambda>f. f\<lparr>fl_draining := True\<rparr>) e1)))"
    by (intro books_take books_frame b1) (simp_all add: same_books_def)
  then show ?thesis using b1 True by (simp add: failSafeUDPLocked_def Let_def case_prod_beta e1_def [symmetric])
qed (simp add: failSafeUDPLocked_def e)

lemma books_retire:
  assumes "books e" and "fl_state (e_heap e i) \<noteq> StatePending"
  shows "books (fst (retireToTunnelLocked i now e))"
  using books_failSafeUDP [OF books_endSession [OF assms(1), of i now], of i now False] assms(2)
  by (simp add: retireToTunnelLocked_def Let_def case_prod_beta)

lemma books_udpLocked:
  assumes e0: "books e0"
  shows "books (fst (udpLocked info pkt now frag e0))"
proof (cases "e_udp e0 (pi_srcPort info)")
  case None
  then show ?thesis using books_newUDP [OF e0] by (simp add: udpLocked_def)
next
  case (Some i)
  define e where "e = mod_fl i (\<lambda>f. f\<lparr>fl_lastSeen := now\<rparr>) e0"
  have e: "books e" unfolding e_def by (rule books_frame [OF e0]) (simp add: same_books_def)
  have k: "i < e_next e" "e_udp e (pi_srcPort info) = Some i" using books_table_port [OF e0 Some] Some by (simp_all add: e_def)
  have fr: "books (mod_fl i g e)" if "same_books (g (e_heap e i)) (e_heap e i)" for g using books_frame [OF e] that by simp
  have enq: "books (fst (enqueueUDPLocked i pkt e'))" if "books e'" "e_next e' = e_next e" for e'
    using that k unfolding enqueueUDPLocked_def by (intro books_enqueueBuf) (simp_all add: copyPacket_cap)
  have del: "books (udp_delete (pi_srcPort info) e)" if "fl_state (e_heap e i) = StateTunnel"
    using books_udp_delete [OF e k(2)] that by simp
  have new: "books (fst (newUDPLocked (pi_srcPort info) d pkt now s (udp_delete (pi_srcPort info) e)))" if "fl_state (e_heap e i) = StateTunnel" for d s
    using del [OF that] by (intro books_newUDP) (simp_all add: udp_delete_def)
  show ?thesis
    unfolding udpLocked_def Let_def Some option.case e_def [symmetric] fl_def case_prod_beta
    using e fr new enq [OF e] enq [of "kickWorker ((mod_fl i (\<lambda>f. f\<lparr>fl_holding := True, fl_holdDeadline := now + lim_pendingTimeout (e_lim e)\<rparr>) e)
                       \<lparr>e_holdQ := e_holdQ e @ [i], e_valDue := True\<rparr>)"]
    by (auto simp: same_books_def kickWorker_def sess_admit_def sess_send_def split: option.split)
qed

lemma books_decideUDP: "books e \<Longrightarrow> books (fst (decideUDP info pkt now e))"
  using books_udpLocked [of e info pkt now False] by (simp add: decideUDP_def case_prod_beta)

lemma startSession_sel [simp]:
  "e_next (startSessionLocked i now e) = e_next e" "e_udp (startSessionLocked i now e) = e_udp e" "e_tcp (startSessionLocked i now e) = e_tcp e"
  "e_lim (startSessionLocked i now e) = e_lim e" "e_pending (startSessionLocked i now e) = e_pending e"
  "e_pendingCost (startSessionLocked i now e) = e_pendingCost e" "e_bypassTCP (startSessionLocked i now e) = e_bypassTCP e"
  "e_heap (startSessionLocked i now e) = (e_heap e)(i := (e_heap e i)\<lparr>fl_sess := Some (e_nextSess e), fl_state := StateBypass, fl_holding := False\<rparr>)"
  by (simp_all add: startSessionLocked_def Let_def)

lemma setFailSafe_sel [simp]:
  "e_next (setFailSafeLocked i fs ed now e) = e_next e" "e_udp (setFailSafeLocked i fs ed now e) = e_udp e"
  "e_tcp (setFailSafeLocked i fs ed now e) = e_tcp e" "e_lim (setFailSafeLocked i fs ed now e) = e_lim e"
  "e_pending (setFailSafeLocked i fs ed now e) = e_pending e" "e_pendingCost (setFailSafeLocked i fs ed now e) = e_pendingCost e"
  "e_bypassTCP (setFailSafeLocked i fs ed now e) = e_bypassTCP e" "e_closed (setFailSafeLocked i fs ed now e) = e_closed e"
  "e_sessions (setFailSafeLocked i fs ed now e) = e_sessions e" "e_udpLive (setFailSafeLocked i fs ed now e) = e_udpLive e"
  "e_stack (setFailSafeLocked i fs ed now e) = e_stack e" "e_nextSess (setFailSafeLocked i fs ed now e) = e_nextSess e"
  by (simp_all add: setFailSafeLocked_def Let_def)

text \<open>What a fail-safe setting may change of a flow.\<close>

lemma setFailSafe_heap:
  "e_heap (setFailSafeLocked i fs ed now e) j = (if j = i then (e_heap e i)\<lparr>fl_failStreak := fl_failStreak (e_heap (setFailSafeLocked i fs ed now e) i),
     fl_failSafe := fl_failSafe (e_heap (setFailSafeLocked i fs ed now e) i), fl_egressDown := fl_egressDown (e_heap (setFailSafeLocked i fs ed now e) i),
     fl_expiresAt := fl_expiresAt (e_heap (setFailSafeLocked i fs ed now e) i)\<rparr> else e_heap e j)"
  by (simp add: setFailSafeLocked_def Let_def)

lemma setFailSafe_upd: "e_heap (setFailSafeLocked i fs ed now e) = (e_heap e)(i := e_heap (setFailSafeLocked i fs ed now e) i)"
  by (simp add: setFailSafeLocked_def Let_def)

lemma setFailSafe_fields [simp]:
  "fl_proto (e_heap (setFailSafeLocked i fs ed now e) i) = fl_proto (e_heap e i)" "fl_key (e_heap (setFailSafeLocked i fs ed now e) i) = fl_key (e_heap e i)"
  "fl_state (e_heap (setFailSafeLocked i fs ed now e) i) = fl_state (e_heap e i)" "fl_live (e_heap (setFailSafeLocked i fs ed now e) i) = fl_live (e_heap e i)"
  "fl_queue (e_heap (setFailSafeLocked i fs ed now e) i) = fl_queue (e_heap e i)" "fl_queueCost (e_heap (setFailSafeLocked i fs ed now e) i) = fl_queueCost (e_heap e i)"
  "fl_draining (e_heap (setFailSafeLocked i fs ed now e) i) = fl_draining (e_heap e i)" "fl_sess (e_heap (setFailSafeLocked i fs ed now e) i) = fl_sess (e_heap e i)"
  "fl_holding (e_heap (setFailSafeLocked i fs ed now e) i) = fl_holding (e_heap e i)"
  by (simp_all add: setFailSafeLocked_def Let_def)

lemma books_revalidated: 
  assumes e: "books e" and st: "fl_state (e_heap e i) \<noteq> StatePending" "fl_proto (e_heap e i) = protoUDP"
  shows "books (revalidatedLocked i res cl snapAt now e)"
proof -
  have b: "books (mod_fl i g e')" if "books e'" "same_books (g (e_heap e' i)) (e_heap e' i)" for g e' using books_frame that by blast
  show ?thesis
    using e st by (auto simp: revalidatedLocked_def Let_def same_books_def intro!: b books_startSession split: option.split)
qed

lemma books_resolveUDP:
  assumes e: "books e" and pr: "fl_proto (e_heap e i) = protoUDP"
  shows "books (fst (resolveUDP i res cl snapAt now e))"
proof -
  consider "e_closed e \<or> \<not> currentLocked e i" | "\<not> (e_closed e \<or> \<not> currentLocked e i)" "fl_state (fl e i) = StateTunnel \<and> fl_revalidating (fl e i)"
    | "\<not> (e_closed e \<or> \<not> currentLocked e i)" "\<not> (fl_state (fl e i) = StateTunnel \<and> fl_revalidating (fl e i))" "fl_state (fl e i) \<noteq> StatePending"
    | "\<not> (e_closed e \<or> \<not> currentLocked e i)" "fl_state (fl e i) = StatePending" by blast
  then show ?thesis
  proof cases
    case 3
    then show ?thesis by (auto simp: resolveUDP_def e)
  next
    case 2
    then show ?thesis using books_revalidated [OF e _ pr] by (auto simp: resolveUDP_def fl_def)
  next
    case 4
    have c: "currentLocked e i" "fl_state (e_heap e i) = StatePending" "i < e_next e" using 4 current_less [OF e] by (auto simp: fl_def)
    have ok: "flow_ok (e_heap e i)" by (rule books_queue [OF e c(3)])
    define e1 where "e1 = mod_fl i (\<lambda>f. f\<lparr>fl_submitted := False, fl_owner := mr_owner res, fl_validatedAt := snapAt, fl_draining := True\<rparr>)
      (e\<lparr>e_pending := e_pending e - 1\<rparr>)"
    have fin: "books (fst (takeQueueLocked i e2))"
      if "e_heap e2 = (e_heap e)(i := e_heap e2 i)" "e_next e2 = e_next e" "e_tcp e2 = e_tcp e" "e_udp e2 = e_udp e" "e_lim e2 = e_lim e"
        "fl_proto (e_heap e2 i) = fl_proto (e_heap e i)" "fl_key (e_heap e2 i) = fl_key (e_heap e i)" "fl_state (e_heap e2 i) \<noteq> StatePending"
        "fl_queue (e_heap e2 i) = fl_queue (e_heap e i)" "fl_queueCost (e_heap e2 i) = fl_queueCost (e_heap e i)" "fl_live (e_heap e2 i) = fl_live (e_heap e i)"
        "e_pending e2 = e_pending e - 1" "e_pendingCost e2 = e_pendingCost e" "e_bypassTCP e2 = e_bypassTCP e"
        "fl_sess (e_heap e2 i) \<noteq> None \<longrightarrow> fl_state (e_heap e2 i) = StateBypass" for e2
    proof (rule books_upd [OF e c(3), where f = "(e_heap e2 i)\<lparr>fl_queue := [], fl_queueCost := 0\<rparr>"])
      show "e_heap (fst (takeQueueLocked i e2)) = (e_heap e)(i := (e_heap e2 i)\<lparr>fl_queue := [], fl_queueCost := 0\<rparr>)"
        using that(1) by (metis fun_upd_upd takeQueue_sel(8))
    qed (use that ok c pr books_le [OF e] flow_ok_cost [OF ok] in \<open>auto simp: takeQueueLocked_def fl_def flow_ok_def\<close>)
    have ns: "fl_sess (e_heap e i) = None" using ok c(2) by (auto simp: flow_ok_def)
    have "books (fst (takeQueueLocked i (setFailSafeLocked i False False now (startSessionLocked i now e1))))"
      "books (fst (takeQueueLocked i (setFailSafeLocked i a b now (mod_fl i (\<lambda>f. f\<lparr>fl_state := StateTunnel\<rparr>) e1))))" for a b
      by (intro fin; (subst setFailSafe_upd)?; simp add: e1_def ns)+
    then show ?thesis
      using 4 unfolding resolveUDP_def Let_def case_prod_beta e1_def [symmetric] by simp
  qed (simp_all add: resolveUDP_def e)
qed

lemma books_validateFlow: "books e \<Longrightarrow> fl_proto (e_heap e (fst fso)) = protoUDP \<Longrightarrow> books (fst (validateFlow snapAt now fso e))"
proof -
  assume e: "books e" and pr: "fl_proto (e_heap e (fst fso)) = protoUDP"
  obtain i sess ok where fso: "fso = (i, sess, ok)" by (cases fso) auto
  have b1: "books (mod_fl i (\<lambda>f. f\<lparr>fl_validatedAt := snapAt\<rparr>) e)" by (rule books_frame [OF e]) (simp add: same_books_def)
  have b2: "books (fst (takeQueueLocked i (mod_fl i (\<lambda>f. f\<lparr>fl_holding := False, fl_draining := True\<rparr>) (mod_fl i (\<lambda>f. f\<lparr>fl_validatedAt := snapAt\<rparr>) e))))"
    if "currentLocked e i"
    using current_less [OF e that] by (intro books_take books_frame b1) (simp_all add: same_books_def)
  have "e_udp e (fk_port (fl_key (e_heap e i))) = Some i" if "currentLocked e i" using that pr by (simp add: fso currentLocked_def fl_def)
  then have b3: "books (forgetUDPLocked i now (fst (endSessionLocked i now e)))" if "currentLocked e i"
    using books_end_forget [OF e] that by blast
  show "books (fst (validateFlow snapAt now fso e))"
    using e b1 b2 b3 by (auto simp: validateFlow_def fso Let_def case_prod_beta)
qed

lemma books_rulesChangedUDP:
  assumes e: "books e"
  shows "books (fst (rulesChangedUDP rs now port e))"
  using e books_end_forget [OF e] books_udp_delete [OF e]
  by (auto simp: rulesChangedUDP_def Let_def case_prod_beta fl_def split: option.split)

end
