(* ===== verification/Engine_Invariant.thy ===== *)
theory Engine_Invariant
  imports Engine_Account
begin

text \<open>The invariant of the whole engine: its books (Engine_Account), the fragment tracker's accounting
  and the bounded caches; every event of the engine keeps it, so it holds in every reachable state.\<close>

section \<open>Sweeps, failures and drains keep the books\<close>

lemma retire_sel [simp]: "e_next (fst (retireToTunnelLocked i now e)) = e_next e"
  by (simp add: retireToTunnelLocked_def failSafeUDPLocked_def Let_def case_prod_beta)

lemma books_retire':
  assumes e: "books e" and st: "fl_state (e_heap e i) \<noteq> StatePending"
  shows "books (fst (retireToTunnelLocked i now e))"
  using books_failSafeUDP [OF books_endSession [OF e, of i now], of i now False] st
  by (simp add: retireToTunnelLocked_def Let_def case_prod_beta)

lemma books_sweepHold: 
  assumes e: "books e"
  shows "books (fst (sweepHold now i e))"
proof -
  have "fl_state (e_heap e i) \<noteq> StatePending" if "fl_holding (e_heap e i)" "currentLocked e i"
    using that books_queue [OF e current_less [OF e that(2)]] by (simp add: flow_ok_def)
  then show ?thesis using e books_retire' [OF e] by (auto simp: sweepHold_def case_prod_beta fl_def)
qed

lemma books_sweepHolds: "books e \<Longrightarrow> books (fst (sweepHoldsLocked now is kept e))"
proof (induction "is" arbitrary: kept e)
  case (Cons i "is")
  show ?case using Cons.IH [OF books_sweepHold [OF Cons.prems]] by (simp add: case_prod_beta)
qed simp

lemma books_scanUDP:
  assumes e: "books e"
  shows "books (fst (scanUDP now port e))"
proof (cases "e_udp e port")
  case (Some i)
  have ok: "flow_ok (e_heap e i)" using books_queue [OF e] books_table_port [OF e Some] by blast
  then have st: "fl_sess (e_heap e i) \<noteq> None \<Longrightarrow> fl_state (e_heap e i) \<noteq> StatePending" by (simp add: flow_ok_def)
  show ?thesis
    using e st books_end_forget [OF e Some] books_retire' [OF e] books_udp_delete [OF e Some]
    by (auto simp: scanUDP_def Some Let_def case_prod_beta fl_def split: option.split)
qed (simp add: scanUDP_def e)

lemma books_listenDone:
  assumes e: "books e"
  shows "books (fst (listenDone s err now e))"
proof -
  let ?i = "us_flow (e_sessions e s)"
  let ?e1 = "e\<lparr>e_udpCreating := e_udpCreating e - 1, e_egressDownTo := now + lim_egressBackoff (e_lim e)\<rparr>"
  have "books (fst (failSafeUDPLocked ?i now True (fst (endSessionLocked ?i now ?e1))))"
    if "currentLocked e ?i" "fl_sess (e_heap e ?i) = Some s"
    using that books_queue [OF e current_less [OF e that(1)]] e
    by (intro books_failSafeUDP books_endSession) (auto simp: flow_ok_def)
  then show ?thesis using e by (auto simp: listenDone_def Let_def fl_def currentLocked_def)
qed

lemma books_sessionFailed:
  assumes e: "books e"
  shows "books (sessionFailed s now e)"
proof -
  let ?i = "us_flow (e_sessions e s)"
  have "e_udp e (fk_port (fl_key (e_heap e ?i))) = Some ?i" if "currentLocked e ?i" "fl_sess (e_heap e ?i) = Some s"
    using that books_queue [OF e current_less [OF e that(1)]] by (auto simp: flow_ok_def currentLocked_def fl_def)
  then show ?thesis using e books_end_forget [OF e] by (auto simp: sessionFailed_def Let_def fl_def)
qed

lemma books_toSession [simp]: "books (toSession s p now e) = books e"
  by (auto simp: toSession_def to_stack_def sess_admit_def sess_send_def split: option.split)

lemma books_handleUDP [simp]: "books (handleUDP v app port dst pl now e) = books e"
  by (auto simp: handleUDP_def sess_send_def split: option.split)

lemma books_pushOut [simp]: "books (pushOut p e) = books e" "books (to_stack b e) = books e"
  by (simp_all add: pushOut_def to_stack_def)

lemma books_deliver [simp]: "books (deliver q k now e) = books e"
  by (induction q arbitrary: e) (auto simp: deliver_def deliver1_def split: sink.split)

lemma books_take_loop: "books e \<Longrightarrow> books (fst (take_loop mx w is b e))"
proof (induction mx w "is" b e rule: take_loop.induct)
  case (2 mx w i "is" b e)
  have "books (mod_fl i (\<lambda>f. f\<lparr>fl_submitted := True\<rparr>) e)" by (rule books_frame [OF 2(3)]) (simp add: same_books_def)
  then show ?case using 2 by simp
qed simp

lemma books_takeBatch: "books e \<Longrightarrow> books (fst (takeBatch e))"
proof -
  assume e: "books e"
  define e1 where "e1 = (fst (take_loop (lim_batch (e_lim e)) wanted_pending (e_pendingQ e) [] e))
    \<lparr>e_pendingQ := snd (snd (take_loop (lim_batch (e_lim e)) wanted_pending (e_pendingQ e) [] e))\<rparr>"
  have "books e1" by (simp add: e1_def books_take_loop e)
  then show ?thesis
    using e books_take_loop [of e1] by (auto simp: takeBatch_def Let_def case_prod_beta e1_def)
qed

lemma books_udp_loop: "(\<And>k e. books e \<Longrightarrow> books (fst (g k e))) \<Longrightarrow> books e \<Longrightarrow> books (fst (udp_loop g ks e))"
proof (induction ks arbitrary: e)
  case (Cons k ks)
  show ?case using Cons.IH [OF Cons.prems(1) Cons.prems(1) [OF Cons.prems(2)]] by (simp add: case_prod_beta)
qed simp

lemma books_sweep: 
  assumes e: "books e"
  shows "books (fst (sweep_locked ks ps now e))"
proof -
  define e1 where "e1 = fst (sweepHoldsLocked now (e_holdQ e) [] e)"
  have b1: "books e1" by (simp add: e1_def books_sweepHolds e)
  define e2 where "e2 = e1\<lparr>e_frags := foldl (\<lambda>t r. fst (ft_takeHeld r t)) (fst (ft_expired now (e_frags e1))) (snd (ft_expired now (e_frags e1)))\<rparr>"
  define e3 where "e3 = (if e_udpLive e2 \<noteq> [] \<and> lim_validateEvery (e_lim e2) \<le> now - e_lastValidate e2 then kickWorker (e2\<lparr>e_valDue := True\<rparr>) else e2)"
  have b3: "books e3" using b1 by (simp add: e3_def e2_def kickWorker_def)
  define e5 where "e5 = fst (map_loop (scanTCP now) ks (compactPendingLocked (e3\<lparr>e_lastScan := now\<rparr>)))"
  have b5: "books e5" unfolding e5_def
    by (rule books_map_loop) (simp_all add: books_scanTCP compactPendingLocked_def b3)
  define e6 where "e6 = e5\<lparr>e_tunnelTCP := fc_sweep (e_tunnelTCP e5) now, e_endedTCP := fc_sweep (e_endedTCP e5) now, e_endedUDP := fc_sweep (e_endedUDP e5) now\<rparr>"
  have b7: "books (fst (udp_loop (scanUDP now) ps e6))" by (rule books_udp_loop) (simp_all add: books_scanUDP e6_def b5)
  show ?thesis
    using b3 b7 unfolding sweep_locked_def Let_def case_prod_beta e1_def [symmetric] e2_def [symmetric] e3_def [symmetric]
      e5_def [symmetric] e6_def [symmetric] by simp
qed

lemma books_rulesChanged: "books e \<Longrightarrow> books (fst (rulesChanged rs ks ps now e))"
  unfolding rulesChanged_def Let_def case_prod_beta fst_conv
  by (intro books_map_loop books_rulesChangedTCP books_rulesChangedUDP)

lemma books_failSafe:
  assumes "books e"
  shows "books (fst (failSafe_locked ks ps now e))"
proof -
  have t: "books (fst (failSafeTCP now k e))" if e: "books e" for k e
    using e books_table_key [OF e, of k] books_abort [OF e] by (auto simp: failSafeTCP_def case_prod_beta split: option.split)
  have u: "books (fst (failSafeUDP now p e))" if e: "books e" for p e
  proof (cases "e_udp e p")
    case (Some i)
    have ok: "flow_ok (e_heap e i)" using books_queue [OF e] books_table_port [OF e Some] by blast
    have "books (fst (failSafeUDPLocked i now False (fst (endSessionLocked i now e))))" if "fl_sess (e_heap e i) = Some s" for s
      using that ok by (intro books_failSafeUDP books_endSession e) (simp_all add: flow_ok_def)
    then show ?thesis using e by (auto simp: failSafeUDP_def Some case_prod_beta fl_def split: option.split)
  qed (simp add: failSafeUDP_def e)
  show ?thesis
    unfolding failSafe_locked_def Let_def case_prod_beta fst_conv by (intro books_map_loop t u assms)
qed

lemma books_shutdown:
  assumes "books e"
  shows "books (fst (shutdown_locked ks ps now e))"
proof -
  have t: "books (fst (shutdownTCP k e))" if e: "books e" for k e
    using e books_table_key [OF e, of k]
    by (auto simp: shutdownTCP_def Let_def same_books_def intro!: books_drop books_frame split: option.split)
  have u: "books (fst (shutdownUDP now p e))" if e: "books e" for p e
    using e books_table_port [OF e, of p]
    by (auto simp: shutdownUDP_def case_prod_beta intro!: books_drop books_endSession split: option.split)
  show ?thesis
    unfolding shutdown_locked_def Let_def case_prod_beta fst_conv books_ext by (intro books_map_loop t u) (simp_all add: assms)
qed

section \<open>Caches and fragments\<close>

definition caches_ok :: "engine \<Rightarrow> bool" where
  "caches_ok e \<longleftrightarrow> fc_wf (e_tunnelTCP e) \<and> fc_wf (e_endedTCP e) \<and> fc_wf (e_endedUDP e)"

definition frags_ok :: "engine \<Rightarrow> bool" where
  "frags_ok e \<longleftrightarrow> ft_wf (lim_fragMax (e_lim e)) (e_frags e) \<and> ft_bytes (e_frags e) \<le> lim_fragBytes (e_lim e)"

text \<open>The part of the state those two speak of: most operations leave it alone, which simplification shows.\<close>

definition rest :: "engine \<Rightarrow> frag_tracker \<times> limits \<times> fifo_cache \<times> fifo_cache \<times> fifo_cache" where
  "rest e = (e_frags e, e_lim e, e_tunnelTCP e, e_endedTCP e, e_endedUDP e)"

lemma rest_same: "rest e' = rest e \<Longrightarrow> frags_ok e' = frags_ok e \<and> caches_ok e' = caches_ok e"
  by (simp add: rest_def frags_ok_def caches_ok_def)

lemma rest_ext [simp]:
  "rest (e\<lparr>e_kick := b1\<rparr>) = rest e" "rest (e\<lparr>e_out := b2\<rparr>) = rest e" "rest (e\<lparr>e_stack := b3\<rparr>) = rest e"
  "rest (e\<lparr>e_closed := b4\<rparr>) = rest e" "rest (e\<lparr>e_sessions := b5\<rparr>) = rest e" "rest (e\<lparr>e_nextSess := b6\<rparr>) = rest e"
  "rest (e\<lparr>e_pendingQ := b7\<rparr>) = rest e" "rest (e\<lparr>e_inflight := b8\<rparr>) = rest e" "rest (e\<lparr>e_heap := b9\<rparr>) = rest e"
  "rest (e\<lparr>e_next := c1\<rparr>) = rest e" "rest (e\<lparr>e_lastScan := c2\<rparr>) = rest e" "rest (e\<lparr>e_udpLive := c3\<rparr>) = rest e"
  "rest (e\<lparr>e_revalQ := c4\<rparr>) = rest e" "rest (e\<lparr>e_holdQ := c5\<rparr>) = rest e" "rest (e\<lparr>e_udpCreating := c6\<rparr>) = rest e"
  "rest (e\<lparr>e_egressDownTo := c7\<rparr>) = rest e" "rest (e\<lparr>e_valDue := c8\<rparr>) = rest e" "rest (e\<lparr>e_lastValidate := c9\<rparr>) = rest e"
  "rest (e\<lparr>e_tcp := d1\<rparr>) = rest e" "rest (e\<lparr>e_udp := d2\<rparr>) = rest e" "rest (e\<lparr>e_tcpLen := d3\<rparr>) = rest e"
  "rest (e\<lparr>e_pending := d4\<rparr>) = rest e" "rest (e\<lparr>e_pendingCost := d5\<rparr>) = rest e" "rest (e\<lparr>e_bypassTCP := d6\<rparr>) = rest e"
  "rest (e\<lparr>e_rules := d7\<rparr>) = rest e" "rest (e\<lparr>e_permitted := d8\<rparr>) = rest e" "rest (e\<lparr>e_engDown := d9\<rparr>) = rest e"
  "rest (e\<lparr>e_tunnelOnly := f1\<rparr>) = rest e"
  by (simp_all add: rest_def)

lemma rest_mod [simp]: "rest (mod_fl i g e) = rest e" "rest (mod_sess s m e) = rest e" "rest (kickWorker e) = rest e"
  "rest (tcp_delete k e) = rest e" "rest (udp_delete p e) = rest e" "rest (fst (takeQueueLocked i e)) = rest e"
  "rest (tcp_store k i e) = rest e" "rest (udp_store p i e) = rest e" "rest (fst (alloc_fl f e)) = rest e"
  "rest (releaseLiveLocked i e) = rest e" "rest (push_queue i b e) = rest e" "rest (dropQueueLocked i e) = rest e"
  "rest (setFailSafeLocked i fs ed now e) = rest e" "rest (startSessionLocked i now e) = rest e" "rest (pushOut b e) = rest e"
  "rest (to_stack x e) = rest e" "rest (sess_send s d now e) = rest e" "rest (sess_admit s a now e) = rest e"
  by (simp_all add: rest_def mod_fl_def mod_sess_def kickWorker_def tcp_delete_def udp_delete_def takeQueueLocked_def tcp_store_def
      udp_store_def alloc_fl_def releaseLiveLocked_def push_queue_def dropQueueLocked_def setFailSafeLocked_def startSessionLocked_def
      Let_def pushOut_def to_stack_def sess_send_def sess_admit_def)

lemma rest_enqueue [simp]: "rest (fst (enqueueLocked i pkt e)) = rest e" "rest (fst (enqueueBufLocked i b e)) = rest e"
  "rest (fst (enqueueUDPLocked i pkt e)) = rest e"
  by (simp_all add: enqueueLocked_eq enqueueBufLocked_eq enqueueUDPLocked_def)

lemma rest_enqueue_all [simp]: "rest (enqueue_all i ps e) = rest e"
  by (induction ps arbitrary: e) simp_all

lemma rest_tcp_ops [simp]: "rest (fst (newTCPLocked key isn pkt now prev e)) = rest e" "rest (fst (dropFlowLocked i e)) = rest e"
  "rest (fst (abortLocked i now e)) = rest e" "rest (fst (resolveTCP i res cl now e)) = rest e"
  "rest (fst (takeDialMark key e)) = rest e" "rest (fst (attach i ep conn e)) = rest e" "rest (fst (rulesChangedTCP rs now key e)) = rest e"
  by (simp_all add: newTCPLocked_def dropFlowLocked_def abortLocked_def resolveTCP_def takeDialMark_def attach_def rulesChangedTCP_def
      case_prod_beta Let_def split: option.split)

lemma rest_newUDP [simp]: "rest (fst (newUDPLocked port dst pkt now streak e)) = rest e"
  by (simp add: newUDPLocked_def case_prod_beta Let_def)

lemma rest_udpLocked [simp]: "rest (fst (udpLocked info pkt now frag e)) = rest e"
  by (simp add: udpLocked_def Let_def case_prod_beta split: option.split)

lemma rest_small [simp]: "rest (fst (decideUDP info pkt now e)) = rest e" "rest (revalidatedLocked i res cl snapAt now e) = rest e"
  "rest (fst (failSafeUDPLocked i now ed e)) = rest e" "rest (forgetUDPLocked i now e) = rest e"
  "rest (toSession s p now e) = rest e" "rest (handleUDP v app port dst pl now e) = rest e" "rest (deliver1 k now p e) = rest e"
  by (simp_all add: decideUDP_def revalidatedLocked_def failSafeUDPLocked_def forgetUDPLocked_def toSession_def handleUDP_def deliver1_def
      Let_def case_prod_beta split: option.split sink.split)

lemma rest_deliver [simp]: "rest (deliver q k now e) = rest e"
  by (induction q arbitrary: e) (simp_all add: deliver_def)

lemma rest_resolveUDP [simp]: "rest (fst (resolveUDP i res cl snapAt now e)) = rest e"
  by (simp add: resolveUDP_def Let_def case_prod_beta)

lemma rest_take_loop [simp]: "rest (fst (take_loop mx w is b e)) = rest e"
  by (induction mx w "is" b e rule: take_loop.induct) simp_all

lemma rest_takeBatch [simp]: "rest (fst (takeBatch e)) = rest e" "rest (compactPendingLocked e) = rest e"
  by (simp_all add: takeBatch_def compactPendingLocked_def Let_def case_prod_beta)

text \<open>Operations that may also put into a cache.\<close>

definition caches_step :: "engine \<Rightarrow> engine \<Rightarrow> bool" where
  "caches_step e e' \<longleftrightarrow> e_frags e' = e_frags e \<and> e_lim e' = e_lim e \<and> (caches_ok e \<longrightarrow> caches_ok e')"

lemma caches_step_refl [simp]: "rest e' = rest e \<Longrightarrow> caches_step e e'"
  by (simp add: caches_step_def rest_def caches_ok_def)

lemma caches_step_trans: "caches_step e e1 \<Longrightarrow> caches_step e1 e2 \<Longrightarrow> caches_step e e2"
  by (simp add: caches_step_def)

lemma caches_step_rest: "rest e1 = rest e2 \<Longrightarrow> caches_step e e1 \<longleftrightarrow> caches_step e e2"
  by (simp add: caches_step_def rest_def caches_ok_def)

lemma rest_caches: "rest e' = rest e \<Longrightarrow> e_frags e' = e_frags e \<and> e_lim e' = e_lim e \<and> e_tunnelTCP e' = e_tunnelTCP e \<and>
    e_endedTCP e' = e_endedTCP e \<and> e_endedUDP e' = e_endedUDP e"
  by (simp add: rest_def)

lemma caches_endSession: "caches_step e (fst (endSessionLocked i now e))"
  by (auto simp: caches_step_def caches_ok_def endSessionLocked_def Let_def mod_sess_def mod_fl_def intro: inv_intros split: option.split)

lemma caches_put:
  assumes "rest e1 = rest e" and "rest e0 = rest e"
  shows "caches_step e (e1\<lparr>e_tunnelTCP := fc_put (e_tunnelTCP e0) k i x\<rparr>)" "caches_step e (e1\<lparr>e_endedTCP := fc_put (e_endedTCP e0) k i x\<rparr>)"
  using rest_caches [OF assms(1)] rest_caches [OF assms(2)] by (auto simp: caches_step_def caches_ok_def intro: inv_intros)

lemma caches_decideTCP: "caches_step e (fst (decideTCP info pkt now e))"
proof -
  have n: "caches_step e (fst (newTCPLocked key isn pkt now ts e1))" if "caches_step e e1" for key isn ts e1
    using that caches_step_rest [OF rest_tcp_ops(1), of e] by simp
  have d: "caches_step e (fst (newTCPLocked key isn pkt now ts (fst (dropFlowLocked i e))))" for key isn ts i
    by (intro n) simp
  have g: "caches_step e (e\<lparr>e_tunnelTCP := fst (fc_get (e_tunnelTCP e) k now)\<rparr>)"
    "caches_step e (e\<lparr>e_tunnelTCP := fc_remove (fst (fc_get (e_tunnelTCP e) k now)) k\<rparr>)"
    "caches_step e (e\<lparr>e_tunnelTCP := fst (fc_get (e_tunnelTCP e) k now), e_endedTCP := fst (fc_get (e_endedTCP e) k now)\<rparr>)"
    "caches_step e (e\<lparr>e_tunnelTCP := fst (fc_get (e_tunnelTCP e) k now), e_endedTCP := fc_remove (fst (fc_get (e_endedTCP e) k now)) k\<rparr>)" for k
    by (auto simp: caches_step_def caches_ok_def intro: inv_intros)
  show ?thesis
    unfolding decideTCP_def Let_def case_prod_beta using g [of "tcp_key info"] d
    by (auto intro!: n split: option.split)
qed

lemma caches_drainNext: "caches_step e (fst (drainNext i now e))"
  by (simp add: drainNext_def Let_def case_prod_beta caches_put)

lemma caches_finishFlow: "caches_step e (finishFlow i linger now e)"
  by (simp add: finishFlow_def Let_def caches_put)

lemma caches_scanTCP: "caches_step e (fst (scanTCP now k e))"
  by (simp add: scanTCP_def Let_def caches_put split: option.split)

lemma caches_end_more: "caches_step e (forgetUDPLocked i now (fst (endSessionLocked i now e)))"
  "caches_step e (fst (failSafeUDPLocked i now ed (fst (endSessionLocked i now e))))" "caches_step e (dropQueueLocked i (fst (endSessionLocked i now e)))"
  using caches_endSession by (simp_all add: caches_step_rest [OF rest_small(4)] caches_step_rest [OF rest_small(3)] caches_step_rest [OF rest_mod(12)])

lemma caches_retire: "caches_step e (fst (retireToTunnelLocked i now e))"
  by (simp add: retireToTunnelLocked_def case_prod_beta caches_end_more Let_def)

lemma caches_udp_small: "caches_step e (fst (rulesChangedUDP rs now port e))" "caches_step e (fst (sweepHold now i e))"
  "caches_step e (fst (scanUDP now port e))" "caches_step e (sessionFailed s now e)" "caches_step e (fst (validateFlow snapAt now fso e))"
  "caches_step e (fst (failSafeTCP now k e))" "caches_step e (fst (failSafeUDP now port e))" "caches_step e (fst (shutdownTCP k e))"
  "caches_step e (fst (shutdownUDP now port e))"
  by (auto simp: rulesChangedUDP_def sweepHold_def scanUDP_def sessionFailed_def validateFlow_def failSafeTCP_def failSafeUDP_def
      shutdownTCP_def shutdownUDP_def Let_def case_prod_beta caches_end_more caches_retire split: option.split prod.split)

lemma caches_listenDone: "caches_step e (fst (listenDone s err now e))"
proof -
  have "caches_step e1 (fst (failSafeUDPLocked i now True (fst (endSessionLocked i now e1))))" for i e1 by (rule caches_end_more)
  then have "caches_step e (fst (failSafeUDPLocked i now True (fst (endSessionLocked i now e1))))" if "rest e1 = rest e" for i e1
    using that caches_step_trans [OF caches_step_refl] by blast
  then show ?thesis by (simp add: listenDone_def Let_def)
qed

lemma caches_map_loop: "(\<And>k e. caches_step e (fst (g k e))) \<Longrightarrow> caches_step e (fst (map_loop g ks e))"
  by (induction ks arbitrary: e) (simp_all add: case_prod_beta, blast intro: caches_step_trans)

lemma caches_udp_loop: "(\<And>k e. caches_step e (fst (h k e))) \<Longrightarrow> caches_step e (fst (udp_loop h ps e))"
  by (induction ps arbitrary: e) (simp_all add: case_prod_beta, blast intro: caches_step_trans)

lemma caches_sweepHolds: "caches_step e (fst (sweepHoldsLocked now is kept e))"
proof (induction "is" arbitrary: kept e)
  case (Cons i "is")
  show ?case using caches_step_trans [OF caches_udp_small(2) Cons.IH] by (simp add: case_prod_beta)
qed simp

lemma caches_big: "caches_step e (fst (rulesChanged rs ks ps now e))" "caches_step e (fst (failSafe_locked ks ps now e))"
proof -
  show "caches_step e (fst (rulesChanged rs ks ps now e))"
    unfolding rulesChanged_def Let_def case_prod_beta fst_conv
    by (rule caches_step_trans [OF caches_map_loop caches_map_loop]) (simp_all add: caches_udp_small)
  show "caches_step e (fst (failSafe_locked ks ps now e))"
    unfolding failSafe_locked_def Let_def case_prod_beta fst_conv
    by (rule caches_step_trans [OF caches_map_loop caches_map_loop]) (simp_all add: caches_udp_small)
qed

lemma caches_decideICMP: "caches_step e (fst (decideICMP info pkt now e))"
  by (auto simp: decideICMP_def Let_def case_prod_beta caches_step_def caches_ok_def intro: inv_intros split: option.split)

section \<open>Fragments keep their accounting\<close>

definition einv :: "engine \<Rightarrow> bool" where
  "einv e \<longleftrightarrow> books e \<and> caches_ok e \<and> frags_ok e"

lemma einv_step: "einv e \<Longrightarrow> books e' \<Longrightarrow> caches_step e e' \<Longrightarrow> einv e'"
  by (simp add: einv_def caches_step_def frags_ok_def)

lemma einv_books: "einv e \<Longrightarrow> books e"
  by (simp add: einv_def)

lemma frags_upd: "einv (e\<lparr>e_frags := t\<rparr>) \<longleftrightarrow> books e \<and> caches_ok e \<and> ft_wf (lim_fragMax (e_lim e)) t \<and> ft_bytes t \<le> lim_fragBytes (e_lim e)"
  by (simp add: einv_def caches_ok_def frags_ok_def)

lemma frec_cost: "frec_ok r \<Longrightarrow> 0 \<le> fr_cost r"
  by (simp add: frec_ok_def buf_sum_nonneg)

lemma addFrag_inv:
  assumes e: "einv e" and r: "frec_ok r" "fr_cost r = 0"
  shows "einv (fst (addFragLocked r sp e))" "ft_get (e_frags (fst (addFragLocked r sp e))) (fr_key r) = Some r"
    "rest (fst (addFragLocked r sp e)) = rest (e\<lparr>e_frags := e_frags (fst (addFragLocked r sp e))\<rparr>)"
    "e_next (fst (addFragLocked r sp e)) = e_next e" "e_udp (fst (addFragLocked r sp e)) = e_udp e" "e_heap (fst (addFragLocked r sp e)) = e_heap e"
proof -
  obtain t ev where a: "ft_add r (lim_fragMax (e_lim e)) (e_frags e) = (t, ev)" by (cases "ft_add r (lim_fragMax (e_lim e)) (e_frags e)")
  have wf: "ft_wf (lim_fragMax (e_lim e)) (e_frags e)" using e by (simp add: einv_def frags_ok_def)
  have bytes: "ft_bytes t = ft_bytes (e_frags e)" using ft_add_bytes [of r "lim_fragMax (e_lim e)" "e_frags e"] a by simp
  then have tb: "t\<lparr>ft_bytes := ft_bytes (e_frags e)\<rparr> = t" by simp
  note s = ft_add_spec [OF wf r(1), unfolded a r(2) prod.case add_0_right]
  have le: "ft_bytes (e_frags e) \<le> lim_fragBytes (e_lim e)" and bc: "books e" "caches_ok e"
    using e by (simp_all add: einv_def frags_ok_def)
  show "einv (fst (addFragLocked r sp e))"
  proof (cases ev)
    case None
    then show ?thesis using s bc le bytes tb by (simp add: addFragLocked_def a frags_upd)
  next
    case (Some x)
    have x: "frec_ok x" "ft_wf (lim_fragMax (e_lim e)) (t\<lparr>ft_bytes := ft_bytes (e_frags e) - fr_cost x\<rparr>)" using s Some by simp_all
    have "t\<lparr>ft_bytes := ft_bytes (e_frags e) - fr_cost x\<rparr> = t" if "fr_held x = []" using that x(1) bytes by simp
    then show ?thesis
      using x bc le bytes tb frec_cost [OF x(1)] by (cases "fr_held x = []") (simp_all add: addFragLocked_def a Some ft_takeHeld_def frags_upd)
  qed
  show "ft_get (e_frags (fst (addFragLocked r sp e))) (fr_key r) = Some r"
    using s by (cases ev) (auto simp: addFragLocked_def a ft_takeHeld_def ft_get_def)
  show "rest (fst (addFragLocked r sp e)) = rest (e\<lparr>e_frags := e_frags (fst (addFragLocked r sp e))\<rparr>)"
    "e_next (fst (addFragLocked r sp e)) = e_next e" "e_udp (fst (addFragLocked r sp e)) = e_udp e" "e_heap (fst (addFragLocked r sp e)) = e_heap e"
    by (cases ev; simp add: addFragLocked_def a ft_takeHeld_def rest_def)+
qed

lemma einv_frag: "einv e \<Longrightarrow> ft_get (e_frags e) k = Some r \<Longrightarrow> frec_ok r \<and> fr_key r = k \<and> ft_wf (lim_fragMax (e_lim e)) (e_frags e)"
  using ft_wfD(2,3) [of "lim_fragMax (e_lim e)" "e_frags e" k r] by (simp add: einv_def frags_ok_def)

lemma flush_inv:
  assumes e: "einv e" and g: "ft_get (e_frags e) (fr_key r) = Some r" and r': "fr_key r' = fr_key r" "fr_held r' = []" "fr_cost r' = 0"
  shows "einv (e\<lparr>e_frags := ft_store r' (fst (ft_takeHeld r (e_frags e)))\<rparr>)"
    "ft_get (ft_store r' (fst (ft_takeHeld r (e_frags e)))) (fr_key r) = Some r'"
proof -
  have wf: "ft_wf (lim_fragMax (e_lim e)) (e_frags e)" and ok: "frec_ok r" using einv_frag [OF e g] by simp_all
  note f = ft_flush_spec [OF wf g r']
  show "einv (e\<lparr>e_frags := ft_store r' (fst (ft_takeHeld r (e_frags e)))\<rparr>)"
    using e f(1,3) frec_cost [OF ok] by (simp add: frags_upd) (simp add: einv_def frags_ok_def)
  show "ft_get (ft_store r' (fst (ft_takeHeld r (e_frags e)))) (fr_key r) = Some r'" by (rule f(2))
qed

lemma udpLocked_flow:
  assumes e: "books e" and r: "fst (snd (snd (udpLocked info pkt now frag e))) = Some i"
  shows "i < e_next (fst (udpLocked info pkt now frag e))"
proof -
  have n: "e_next (fst (enqueueUDPLocked j pkt e')) = e_next e'" for j e' by (simp add: enqueueUDPLocked_def)
  have s: "e_next (sess_admit s a now e') = e_next e'" "e_next (sess_send s d now e') = e_next e'" for s a d e'
    by (simp_all add: sess_admit_def sess_send_def mod_sess_def)
  have k: "e_next (kickWorker e') = e_next e'" for e' by (simp add: kickWorker_def)
  have nu: "fst (snd (snd (newUDPLocked p d pkt now st e'))) = Some i \<Longrightarrow> i < e_next (fst (newUDPLocked p d pkt now st e'))" for p d st e'
    by (simp add: newUDPLocked_def alloc_fl_def Let_def case_prod_beta n k udp_store_def split: if_splits)
  show ?thesis
    using r books_table_port [OF e, of "pi_srcPort info"] nu
    by (auto simp: udpLocked_def Let_def case_prod_beta n s k split: option.splits if_splits)
qed

lemma release_held_inv:
  assumes "einv e" and "list_all (\<lambda>p. 0 \<le> pb_cap p) ps" and "\<And>i. f = Some i \<Longrightarrow> i < e_next e"
  shows "einv (fst (release_held kind f q ps sp e))"
  using assms
proof (induction kind f q ps sp e rule: release_held.induct)
  case (2 kind f q p ps sp e)
  have "einv (fst (enqueueBufLocked i p e))" if "f = Some i" for i
    using that 2(6-8) by (intro einv_step [OF 2(6)] books_enqueueBuf) (simp_all add: einv_def)
  then show ?case using 2 by (auto split: option.split)
qed simp

lemma enqueueUDP_inv:
  assumes "einv e" and "i < e_next e"
  shows "einv (fst (enqueueUDPLocked i pkt e))"
  unfolding enqueueUDPLocked_def
  by (rule einv_step [OF assms(1)], rule books_enqueueBuf [OF einv_books [OF assms(1)] assms(2) copyPacket_cap(1)]) simp

lemma laterFrag_inv:
  assumes e: "einv e" and g: "ft_get (e_frags e) (fr_key r) = Some r"
  shows "einv (fst (laterFrag r pkt sp e))"
proof (cases "fr_kind r")
  case FragHeld
  let ?p = "copyPacket pkt"
  have wf: "ft_wf (lim_fragMax (e_lim e)) (e_frags e)" using einv_frag [OF e g] by simp
  have fl: "einv (e\<lparr>e_frags := ft_store ((emptied r)\<lparr>fr_kind := FragTunnel\<rparr>) (fst (ft_takeHeld r (e_frags e)))\<rparr>)"
    by (rule flush_inv(1) [OF e g]) (simp_all add: emptied_def)
  have "einv (e\<lparr>e_frags := ft_hold r ?p (e_frags e)\<rparr>)" if "ft_bytes (e_frags e) + bufCost ?p \<le> lim_fragBytes (e_lim e)"
    using e that ft_hold_spec(1,2) [OF wf g copyPacket_cap(1)] by (simp add: frags_upd) (simp add: einv_def)
  then show ?thesis using fl by (simp add: laterFrag_def FragHeld Let_def case_prod_beta)
next
  case FragCollect
  have "einv (fst (collectLocked r pkt e))"
    using e current_less [OF einv_books [OF e]] enqueueUDP_inv [OF e]
    by (auto simp: collectLocked_def Let_def split: option.split)
  then show ?thesis by (simp add: laterFrag_def FragCollect case_prod_beta)
qed (simp_all add: laterFrag_def e)

lemma first_verdict_inv:
  assumes "einv e"
  shows "einv (fst (first_verdict info pkt now e))" "rest (fst (first_verdict info pkt now e)) = rest e"
    "fst (snd (snd (first_verdict info pkt now e))) = Some i \<Longrightarrow> i < e_next (fst (first_verdict info pkt now e))"
  using assms books_udpLocked [OF einv_books [OF assms]] udpLocked_flow [OF einv_books [OF assms]]
  by (auto simp: first_verdict_def intro!: einv_step [OF assms])

lemma frag_store_inv:
  assumes e: "einv e" and g: "ft_get (e_frags e) (fr_key r) = Some r" and r: "fr_held r = []" "fr_cost r = 0"
    and r': "fr_key r' = fr_key r" "fr_held r' = []" "fr_cost r' = 0"
  shows "einv (e\<lparr>e_frags := ft_store r' (e_frags e)\<rparr>)"
proof -
  have "fst (ft_takeHeld r (e_frags e)) = e_frags e" using r by (simp add: ft_takeHeld_def)
  then show ?thesis using flush_inv(1) [OF e g r'] by simp
qed

lemma einv_rest: "einv e \<Longrightarrow> rest e' = rest e \<Longrightarrow> books e' \<Longrightarrow> einv e'"
  using rest_same [of e' e] by (simp add: einv_def)

lemma firstFrag_inv:
  assumes e0: "einv e0" and r0: "\<And>r. r0 = Some r \<Longrightarrow> fr_key r = key \<and> ft_get (e_frags e0) key = Some r"
  shows "einv (fst (firstFragLocked key r0 info pkt now e0))"
proof -
  define ft where "ft = (case r0 of None \<Rightarrow> e_frags e0 | Some r \<Rightarrow> ft_store (emptied r) (fst (ft_takeHeld r (e_frags e0))))"
  define held where "held = (case r0 of None \<Rightarrow> [] | Some r \<Rightarrow> fr_held r)"
  have f0: "(case r0 of None \<Rightarrow> (e_frags e0, []) | Some r \<Rightarrow> (ft_store (emptied r) (fst (ft_takeHeld r (e_frags e0))), snd (ft_takeHeld r (e_frags e0)))) = (ft, held)"
    by (cases r0) (simp_all add: ft_def held_def ft_takeHeld_def)
  have i0: "einv (e0\<lparr>e_frags := ft\<rparr>)" and gr: "r0 = Some r \<Longrightarrow> ft_get ft key = Some (emptied r)" for r
    using e0 r0 flush_inv [OF e0, of _ "emptied _"] by (cases r0; force simp: ft_def emptied_def)+
  have caps: "list_all (\<lambda>p. 0 \<le> pb_cap p) held"
    using r0 einv_frag [OF e0, of key] by (cases r0) (auto simp: held_def frec_ok_def)
  define e1 where "e1 = fst (first_verdict info pkt now (e0\<lparr>e_frags := ft\<rparr>))"
  define f where "f = fst (snd (snd (first_verdict info pkt now (e0\<lparr>e_frags := ft\<rparr>))))"
  define kind where "kind = frag_kind_of (fst (snd (first_verdict info pkt now (e0\<lparr>e_frags := ft\<rparr>)))) f"
  define q where "q = snd (snd (snd (first_verdict info pkt now (e0\<lparr>e_frags := ft\<rparr>))))"
  note fv = first_verdict_inv [OF i0, of info pkt now, folded e1_def f_def]
  have ft1: "e_frags e1 = ft" using fv(2) by (simp add: rest_def)
  define r where "r = (case r0 of None \<Rightarrow> new_frag key FragHeld (now + lim_fragTTL (e_lim e1)) | Some r \<Rightarrow> emptied r)"
  define r' where "r' = r\<lparr>fr_kind := kind, fr_f := f, fr_queued := q\<rparr>"
  define e2 where "e2 = fst (case r0 of None \<Rightarrow> addFragLocked r [] e1 | Some _ \<Rightarrow> (e1, []))"
  have rz: "fr_held r = []" "fr_cost r = 0" "fr_key r = key" using r0 by (cases r0; simp add: r_def new_frag_def emptied_def)+
  have i2: "einv e2" "ft_get (e_frags e2) (fr_key r) = Some r" "e_next e2 = e_next e1"
    using fv(1) addFrag_inv [OF fv(1), of r "[]"] rz gr r0 ft1 by (cases r0; simp add: e2_def r_def)+
  have i3: "einv (e2\<lparr>e_frags := ft_store r' (e_frags e2)\<rparr>)"
    by (rule frag_store_inv [OF i2(1,2) rz(1,2)]) (simp_all add: r'_def rz)
  have "einv (fst (release_held kind f q held sp (e2\<lparr>e_frags := ft_store r' (e_frags e2)\<rparr>)))" for sp
    by (rule release_held_inv [OF i3 caps]) (use fv(3) i2(3) in simp)
  then show ?thesis
    using fv(1) unfolding firstFragLocked_def Let_def case_prod_beta unfolding f0 fst_conv snd_conv e1_def [symmetric] f_def [symmetric]
      kind_def [symmetric] q_def [symmetric] r_def [symmetric] r'_def [symmetric] e2_def [symmetric] by simp
qed

lemma decideFrag_inv:
  assumes e: "einv e"
  shows "einv (fst (decideFrag info pkt now e))"
proof -
  let ?key = "(pi_dst info, pi_id info)"
  have r0: "ft_get (e_frags e) ?key = Some r \<Longrightarrow> fr_key r = ?key \<and> ft_get (e_frags e) ?key = Some r" for r
    using einv_frag [OF e] by blast
  let ?r = "new_frag ?key FragHeld (now + lim_fragTTL (e_lim e))"
  have a: "einv (fst (addFragLocked ?r [] e))" "ft_get (e_frags (fst (addFragLocked ?r [] e))) (fr_key ?r) = Some ?r"
    using addFrag_inv [OF e, of ?r "[]"] new_frag_cost by (simp_all add: new_frag_def)
  show ?thesis
    unfolding decideFrag_def Let_def case_prod_beta
    using e firstFrag_inv [OF e r0] laterFrag_inv [OF e] laterFrag_inv [OF a] r0 by (auto split: option.split)
qed

lemma books_decideICMP: "books e \<Longrightarrow> books (fst (decideICMP info pkt now e))"
  by (simp add: decideICMP_def Let_def case_prod_beta split: option.split)

lemma decide_parts_inv:
  assumes e: "einv e"
  shows "einv (fst (decideICMP info pkt now e))" "einv (fst (decideUDP info pkt now e))" "einv (fst (decideTCP info pkt now e))"
  by (rule einv_step [OF e]; simp add: books_decideICMP books_decideUDP books_decideTCP einv_books [OF e] caches_decideICMP caches_decideTCP)+

lemma decide_inv: "einv e \<Longrightarrow> einv (fst (decide pkt now e))"
  by (simp add: decide_def Let_def case_prod_beta decide_parts_inv decideFrag_inv split: option.split)

lemma flushSpill_rest [simp]: "rest (flushSpill sp e) = rest e" and flushSpill_books [simp]: "books (flushSpill sp e) = books e"
  by (induction sp e rule: flushSpill.induct) (simp_all split: action.split)

lemma einv_frame: "einv e \<Longrightarrow> rest e' = rest e \<Longrightarrow> books e' = books e \<Longrightarrow> einv e'"
  by (simp add: einv_rest einv_books)

lemma route_inv: 
  assumes e: "einv e"
  shows "einv (fst (route pkt now keep e))"
  by (rule einv_frame [OF decide_inv [OF e, of pkt now]])
    (simp_all add: route_def Let_def case_prod_beta split: action.split)

lemma resolveAt_inv:
  assumes e: "einv e"
  shows "einv (fst (resolveAt i res cl snapAt now e))"
proof -
  have "einv (fst (resolveUDP i res cl snapAt now e))" if "fl_proto (fl e i) = protoUDP"
    using that by (intro einv_rest [OF e] books_resolveUDP einv_books [OF e]) (simp_all add: fl_def)
  moreover have "einv (fst (resolveTCP i res cl now e))" by (intro einv_rest [OF e] books_resolveTCP einv_books [OF e]) simp
  ultimately show ?thesis by (auto simp: resolveAt_def case_prod_beta split: option.split prod.split)
qed

lemma flush_bytes: "\<forall>r \<in> set rs. frec_ok r \<Longrightarrow> ft_bytes (foldl (\<lambda>t r. fst (ft_takeHeld r t)) t0 rs) \<le> ft_bytes t0"
proof (induction rs arbitrary: t0)
  case (Cons r rs)
  have "ft_bytes (fst (ft_takeHeld r t0)) \<le> ft_bytes t0" using Cons.prems frec_cost [of r] by (simp add: ft_takeHeld_def)
  then show ?case using Cons.IH [of "fst (ft_takeHeld r t0)"] Cons.prems by force
qed simp

lemma sweep_inv:
  assumes e: "einv e"
  shows "einv (fst (sweep_locked ks ps now e))"
proof -
  define e1 where "e1 = fst (sweepHoldsLocked now (e_holdQ e) [] e)"
  have c1: "caches_step e e1" by (simp add: e1_def caches_sweepHolds)
  define t where "t = foldl (\<lambda>t r. fst (ft_takeHeld r t)) (fst (ft_expired now (e_frags e1))) (snd (ft_expired now (e_frags e1)))"
  define e2 where "e2 = e1\<lparr>e_frags := t\<rparr>"
  define e3 where "e3 = (if e_udpLive e2 \<noteq> [] \<and> lim_validateEvery (e_lim e2) \<le> now - e_lastValidate e2 then kickWorker (e2\<lparr>e_valDue := True\<rparr>) else e2)"
  have i1: "einv e1" by (rule einv_step [OF e _ c1]) (simp add: e1_def books_sweepHolds einv_books [OF e])
  then have f1: "ft_wf (lim_fragMax (e_lim e1)) (e_frags e1)" "ft_bytes (e_frags e1) \<le> lim_fragBytes (e_lim e1)"
    by (simp_all add: einv_def frags_ok_def)
  have "ft_bytes t \<le> ft_bytes (e_frags e1)"
  proof -
    have "\<forall>r \<in> set (snd (ft_expired now (e_frags e1))). frec_ok r"
      using f1 by (auto simp: ft_expired_def ft_wf_def list_all_iff dest: set_takeWhileD)
    then show ?thesis unfolding t_def using flush_bytes [of "snd (ft_expired now (e_frags e1))" "fst (ft_expired now (e_frags e1))"]
      by (simp add: ft_expired_def)
  qed
  then have i2: "einv e2" using i1 f1 ft_expired_spec [OF f1(1), of now]
    by (simp add: e2_def frags_upd t_def [symmetric]) (simp add: einv_def)
  have r3: "rest e3 = rest e2" by (simp add: e3_def)
  define e5 where "e5 = fst (map_loop (scanTCP now) ks (compactPendingLocked (e3\<lparr>e_lastScan := now\<rparr>)))"
  have c5: "caches_step e2 e5"
    unfolding e5_def by (rule caches_step_trans [OF caches_step_refl caches_map_loop]) (simp_all add: r3 caches_scanTCP)
  define e6 where "e6 = e5\<lparr>e_tunnelTCP := fc_sweep (e_tunnelTCP e5) now, e_endedTCP := fc_sweep (e_endedTCP e5) now, e_endedUDP := fc_sweep (e_endedUDP e5) now\<rparr>"
  have c6: "caches_step e5 e6" by (auto simp: caches_step_def caches_ok_def e6_def intro: inv_intros)
  have c7: "caches_step e2 (fst (udp_loop (scanUDP now) ps e6))"
    by (rule caches_step_trans [OF caches_step_trans [OF c5 c6] caches_udp_loop]) (simp add: caches_udp_small)
  have eq: "fst (sweep_locked ks ps now e) = (if now - e_lastScan e3 < lim_scanEvery (e_lim e3) then e3 else fst (udp_loop (scanUDP now) ps e6))"
    unfolding sweep_locked_def Let_def case_prod_beta e1_def [symmetric] t_def [symmetric] e2_def [symmetric] e3_def [symmetric]
      e5_def [symmetric] e6_def [symmetric] by simp
  have "caches_step e2 (fst (sweep_locked ks ps now e))" using c7 r3 by (simp add: eq)
  then show ?thesis by (rule einv_step [OF i2 books_sweep [OF einv_books [OF e]]])
qed

lemma caches_shutdown: "caches_step e (fst (map_loop (shutdownUDP now) ps (fst (map_loop shutdownTCP ks (e\<lparr>e_closed := True\<rparr>)))))"
proof -
  have c0: "caches_step e (e\<lparr>e_closed := True\<rparr>)" by simp
  have c1: "caches_step (e\<lparr>e_closed := True\<rparr>) (fst (map_loop shutdownTCP ks (e\<lparr>e_closed := True\<rparr>)))"
    by (rule caches_map_loop) (simp add: caches_udp_small)
  have c2: "caches_step e1 (fst (map_loop (shutdownUDP now) ps e1))" for e1 by (rule caches_map_loop) (simp add: caches_udp_small)
  show ?thesis by (rule caches_step_trans [OF caches_step_trans [OF c0 c1] c2])
qed

lemma shutdown_inv: 
  assumes e: "einv e"
  shows "einv (fst (shutdown_locked ks ps now e))"
proof -
  define e2 where "e2 = fst (map_loop (shutdownUDP now) ps (fst (map_loop shutdownTCP ks (e\<lparr>e_closed := True\<rparr>))))"
  have eq: "fst (shutdown_locked ks ps now e) = e2\<lparr>e_frags := fst (ft_clear (e_frags e2))\<rparr>"
    by (simp add: shutdown_locked_def Let_def case_prod_beta e2_def)
  have b: "books e2" using books_shutdown [OF einv_books [OF e], of ks ps now] unfolding eq by simp
  then have "einv e2" using einv_step [OF e b caches_shutdown [of e now ps ks, folded e2_def]] by simp
  then have f: "caches_ok e2" "ft_wf (lim_fragMax (e_lim e2)) (e_frags e2)" "ft_bytes (e_frags e2) \<le> lim_fragBytes (e_lim e2)"
    by (simp_all add: einv_def frags_ok_def)
  have "0 \<le> ft_bytes (e_frags e2)" using f(2) frec_cost by (auto simp: ft_wf_def list_all_iff intro!: sum_list_nonneg)
  then have "ft_bytes ft_init \<le> lim_fragBytes (e_lim e2)" using f(3) by (simp add: ft_init_def)
  then show ?thesis unfolding eq frags_upd ft_clear_wf [OF f(2)] using b f(1) ft_wf_init by blast
qed

section \<open>The engine as a transition system\<close>

text \<open>One rule per thing that can happen: a packet is read, the worker takes and resolves a batch, a drain
  delivers or takes more, the splice and the session goroutines act, the sweeper ticks, the rules or
  the gate change, everything fails safe, the engine shuts down.  Flow pointers are those of flows
  that exist; the worker is one goroutine, so it takes a batch when the last one is done, and is done
  with a batch when none of its flows waits for a verdict; a lookup says bypass only for an owner its
  rules allow; a loop over a map reaches every key; everything else is arbitrary.\<close>

text \<open>The contract of a lookup: the number of a rule set identifies it, and a bypass verdict is given on the
  chain it names.\<close>

definition lookup_ok :: "match_result \<Rightarrow> rule_set option \<Rightarrow> engine \<Rightarrow> bool" where
  "lookup_ok res cl e \<longleftrightarrow> (case cl of None \<Rightarrow> True
     | Some rs \<Rightarrow> (rs_id rs = rs_id (e_rules e) \<longrightarrow> rs = e_rules e) \<and>
         (mr_verdict res = VerdictBypass \<longrightarrow> rs_allows rs (ow_chain (mr_owner res))))"

definition wanted_verdict :: "engine \<Rightarrow> nat \<Rightarrow> bool" where
  "wanted_verdict e i \<longleftrightarrow> currentLocked e i \<and> fl_state (fl e i) = StatePending"

inductive engine_step :: "engine \<Rightarrow> engine \<Rightarrow> bool" where
  packet: "engine_step e (fst (route pkt now keep e))"
| outbound_read: "engine_step e (e\<lparr>e_out := drop n (e_out e)\<rparr>)"
| batch: "e_inflight e = [] \<Longrightarrow> engine_step e (fst (takeBatch e))"
| batch_done: "\<forall>i \<in> set (e_inflight e). e_closed e \<or> \<not> wanted_verdict e i \<Longrightarrow> engine_step e (e\<lparr>e_inflight := []\<rparr>)"
| resolve: "lookup_ok res cl e \<Longrightarrow> engine_step e (fst (resolveAt i res cl snapAt now e))"
| deliver: "engine_step e (deliver q k now e)"
| drain: "engine_step e (fst (drainNext i now e))"
| dial_mark: "engine_step e (fst (takeDialMark key e))"
| attach: "engine_step e (fst (attach i ep conn e))"
| finish: "i < e_next e \<Longrightarrow> engine_step e (finishFlow i linger now e)"
| session: "engine_step e (mod_sess s (\<lambda>x. session_step (lim_udpPeers (e_lim e)) (lim_udpSendQ (e_lim e)) x op) e)"
| listen: "engine_step e (fst (listenDone s err now e))"
| session_failed: "engine_step e (sessionFailed s now e)"
| reassembled: "engine_step e (handleUDP valid app port dst payload now e)"
| validate_begin: "engine_step e (fst (validate_take ready now e))"
| validated: "fl_proto (e_heap e i) = protoUDP \<Longrightarrow> engine_step e (fst (validateFlow snapAt now (i, sess, ok) e))"
| new_rules: "dom (e_tcp e) \<subseteq> set ks \<Longrightarrow> dom (e_udp e) \<subseteq> set ps \<Longrightarrow>
    engine_step e (fst (rulesChanged rs ks ps now (e\<lparr>e_rules := rs\<rparr>)))"
| gate: "engine_step e (e\<lparr>e_permitted := p, e_engDown := d, e_tunnelOnly := o'\<rparr>)"
| sweep: "engine_step e (fst (sweep_locked ks ps now e))"
| fail_safe: "dom (e_tcp e) \<subseteq> set ks \<Longrightarrow> dom (e_udp e) \<subseteq> set ps \<Longrightarrow> engine_step e (fst (failSafe_locked ks ps now e))"
| shutdown: "engine_step e (fst (shutdown_locked ks ps now e))"

inductive engine_reachable :: "limits \<Rightarrow> engine \<Rightarrow> bool" for lim where
  start: "engine_reachable lim (newEngine lim addr dns rs)"
| step: "engine_reachable lim e \<Longrightarrow> engine_step e e' \<Longrightarrow> engine_reachable lim e'"

definition limits_ok :: "limits \<Rightarrow> bool" where
  "limits_ok lim \<longleftrightarrow> 0 \<le> lim_pendingFlows lim \<and> 0 \<le> lim_pendingBytes lim \<and> 0 \<le> lim_bypassTCP lim \<and> 0 \<le> lim_fragBytes lim"

lemma einv_new: "limits_ok lim \<Longrightarrow> einv (newEngine lim addr dns rs)"
  by (simp add: einv_def books_def acct_def tables_ok_def pend_of_def live_of_def caches_ok_def frags_ok_def newEngine_def limits_ok_def)
    (simp add: ft_init_def)

lemma einv_caches: "einv e \<Longrightarrow> books e' \<Longrightarrow> caches_step e e' \<Longrightarrow> einv e'"
  by (rule einv_step)

lemma engine_step_inv: "engine_step e e' \<Longrightarrow> einv e \<Longrightarrow> einv e'"
proof (induction rule: engine_step.induct)
  case (new_rules e ks ps rs now)
  have e: "einv (e\<lparr>e_rules := rs\<rparr>)" by (rule einv_frame [OF new_rules(3)]) simp_all
  show ?case by (rule einv_step [OF e books_rulesChanged [OF einv_books [OF e]] caches_big(1)])
next
  case (validated e i snapAt now sess ok)
  have "books (fst (validateFlow snapAt now (i, sess, ok) e))"
    by (rule books_validateFlow [OF einv_books [OF validated(2)]]) (simp add: validated(1))
  then show ?case by (rule einv_step [OF validated(2) _ caches_udp_small(5)])
next
  case (validate_begin e ready now)
  show ?case by (rule einv_frame [OF validate_begin]) (simp_all add: validate_take_def)
next
  case (packet e pkt now keep)
  then show ?case by (rule route_inv)
next
  case (outbound_read e n)
  show ?case by (rule einv_frame [OF outbound_read]) simp_all
next
  case (batch e)
  show ?case by (rule einv_rest [OF batch(2)]) (simp_all add: books_takeBatch einv_books [OF batch(2)])
next
  case (batch_done e)
  show ?case by (rule einv_frame [OF batch_done(2)]) simp_all
next
  case (resolve res cl e i snapAt now)
  then show ?case by (intro resolveAt_inv)
next
  case (deliver e q k now)
  show ?case by (rule einv_frame [OF deliver]) simp_all
next
  case (drain e i now)
  show ?case by (rule einv_step [OF drain books_drainNext [OF einv_books [OF drain]] caches_drainNext])
next
  case (dial_mark e key)
  show ?case by (rule einv_rest [OF dial_mark]) (simp_all add: books_takeDialMark einv_books [OF dial_mark])
next
  case (attach e i ep conn)
  show ?case by (rule einv_rest [OF attach]) (simp_all add: books_attach einv_books [OF attach])
next
  case (finish i e linger now)
  show ?case by (rule einv_step [OF finish(2) books_finishFlow [OF einv_books [OF finish(2)] finish(1)] caches_finishFlow])
next
  case (session e s op)
  show ?case by (rule einv_frame [OF session]) simp_all
next
  case (listen e s err now)
  show ?case by (rule einv_step [OF listen books_listenDone [OF einv_books [OF listen]] caches_listenDone])
next
  case (session_failed e s now)
  show ?case by (rule einv_step [OF session_failed books_sessionFailed [OF einv_books [OF session_failed]] caches_udp_small(4)])
next
  case (reassembled e valid app port dst payload now)
  show ?case by (rule einv_frame [OF reassembled]) simp_all
next
  case (gate e p d o')
  show ?case by (rule einv_frame [OF gate]) simp_all
next
  case (sweep e ks ps now)
  then show ?case by (rule sweep_inv)
next
  case (fail_safe e ks ps now)
  show ?case by (rule einv_step [OF fail_safe(3) books_failSafe [OF einv_books [OF fail_safe(3)]] caches_big(2)])
next
  case (shutdown e ks ps now)
  then show ?case by (rule shutdown_inv)
qed

lemma reachable_einv: "engine_reachable lim e \<Longrightarrow> limits_ok lim \<Longrightarrow> einv e"
  by (induction rule: engine_reachable.induct) (simp_all add: einv_new engine_step_inv)

end
