(* ===== verification/Engine_Bounds.thy ===== *)
theory Engine_Bounds
  imports Engine_Invariant
begin

text \<open>What the books of the engine say, spelled out for every reachable state.\<close>

section \<open>The limits never change\<close>

lemma lim_rest: "rest e' = rest e \<Longrightarrow> e_lim e' = e_lim e"
  by (simp add: rest_def)

lemma lim_caches: "caches_step e e' \<Longrightarrow> e_lim e' = e_lim e"
  by (simp add: caches_step_def)

lemmas lim_ops [simp] = rest_mod [THEN lim_rest] rest_enqueue [THEN lim_rest] rest_enqueue_all [THEN lim_rest] rest_tcp_ops [THEN lim_rest]
  rest_udpLocked [THEN lim_rest] rest_small [THEN lim_rest] rest_deliver [THEN lim_rest] rest_resolveUDP [THEN lim_rest]
  rest_takeBatch [THEN lim_rest] flushSpill_rest [THEN lim_rest] caches_drainNext [THEN lim_caches] caches_finishFlow [THEN lim_caches]
  caches_listenDone [THEN lim_caches] caches_udp_small [THEN lim_caches] caches_big [THEN lim_caches] caches_decideICMP [THEN lim_caches]
  caches_decideTCP [THEN lim_caches] caches_sweepHolds [THEN lim_caches]

lemma lim_release_held: "e_lim (fst (release_held kind f q ps sp e)) = e_lim e"
  by (induction kind f q ps sp e rule: release_held.induct) (auto split: option.split)

lemma lim_addFrag: "e_lim (fst (addFragLocked r sp e)) = e_lim e"
  by (simp add: addFragLocked_def case_prod_beta split: option.split prod.split)

lemma lim_laterFrag: "e_lim (fst (laterFrag r pkt sp e)) = e_lim e"
  by (simp add: laterFrag_def collectLocked_def Let_def case_prod_beta split: frag_kind.split option.split)

lemma lim_firstFrag: "e_lim (fst (firstFragLocked key r0 info pkt now e)) = e_lim e"
  by (cases r0) (simp_all add: firstFragLocked_def first_verdict_def Let_def case_prod_beta lim_release_held lim_addFrag)

lemma lim_decide: "e_lim (fst (decide pkt now e)) = e_lim e"
  by (simp add: decide_def decideFrag_def Let_def case_prod_beta lim_firstFrag lim_laterFrag lim_addFrag
      split: option.split)

lemma lim_route: "e_lim (fst (route pkt now keep e)) = e_lim e"
  by (simp add: route_def Let_def case_prod_beta lim_decide split: action.split)

lemma lim_resolveAt: "e_lim (fst (resolveAt i res cl snapAt now e)) = e_lim e"
  by (simp add: resolveAt_def case_prod_beta split: option.split prod.split)

lemma lim_sweep: "e_lim (fst (sweep_locked ks ps now e)) = e_lim e"
proof -
  have m: "e_lim (fst (map_loop (scanTCP now) ks e)) = e_lim e" for e
    by (rule lim_caches [OF caches_map_loop]) (simp add: caches_scanTCP)
  have u: "e_lim (fst (udp_loop (scanUDP now) ps e)) = e_lim e" for e
    by (rule lim_caches [OF caches_udp_loop]) (simp add: caches_udp_small)
  show ?thesis
    by (simp add: sweep_locked_def Let_def case_prod_beta m u compactPendingLocked_def)
qed

lemma lim_shutdown: "e_lim (fst (shutdown_locked ks ps now e)) = e_lim e"
  using lim_caches [OF caches_shutdown, of now ps ks e] by (simp add: shutdown_locked_def Let_def case_prod_beta)

lemma step_lim: "engine_step e e' \<Longrightarrow> e_lim e' = e_lim e"
proof (induction rule: engine_step.induct)
  case (new_rules e ks ps rs now)
  show ?case using lim_caches [OF caches_big(1), of rs ks ps now "e\<lparr>e_rules := rs\<rparr>"] by simp
qed (simp_all add: lim_route lim_resolveAt lim_sweep lim_shutdown validate_take_def)

lemma reachable_lim: "engine_reachable lim e \<Longrightarrow> e_lim e = lim"
  by (induction rule: engine_reachable.induct) (simp_all add: newEngine_def step_lim)

lemma reachable_limits:
  assumes "engine_reachable lim e" and "limits_ok lim"
  shows "e_pending e = int (card {i. i < e_next e \<and> currentLocked e i \<and> fl_state (fl e i) = StatePending})"
    and "e_pending e \<le> lim_pendingFlows lim"
    and "e_pendingCost e = (\<Sum>i<e_next e. buf_sum (fl_queue (fl e i)))"
    and "e_pendingCost e \<le> lim_pendingBytes lim"
    and "e_bypassTCP e = int (card {i. i < e_next e \<and> fl_live (fl e i)})"
    and "e_bypassTCP e \<le> lim_bypassTCP lim"
    and "\<forall>c \<in> {e_tunnelTCP e, e_endedTCP e, e_endedUDP e}. 0 < fc_max c \<longrightarrow> fc_len c \<le> fc_max c"
    and "ft_bytes (e_frags e) = sum_list (map (\<lambda>r. buf_sum (fr_held r)) (kl_l (ft_kl (e_frags e))))"
    and "ft_bytes (e_frags e) \<le> lim_fragBytes lim"
proof -
  have l: "e_lim e = lim" by (rule reachable_lim [OF assms(1)])
  have inv: "books e" "caches_ok e" "frags_ok e" using reachable_einv [OF assms] by (simp_all add: einv_def)
  show "e_pending e = int (card {i. i < e_next e \<and> currentLocked e i \<and> fl_state (fl e i) = StatePending})"
    "e_bypassTCP e = int (card {i. i < e_next e \<and> fl_live (fl e i)})"
    using inv(1) by (simp_all add: books_def acct_def pend_of_def live_of_def currentLocked_cur fl_def)
  show "e_pending e \<le> lim_pendingFlows lim" "e_pendingCost e \<le> lim_pendingBytes lim" "e_bypassTCP e \<le> lim_bypassTCP lim"
    using books_le [OF inv(1)] l by simp_all
  have "(\<Sum>i<e_next e. fl_queueCost (e_heap e i)) = (\<Sum>i<e_next e. buf_sum (fl_queue (fl e i)))"
    using inv(1) by (intro sum.cong) (simp_all add: books_def acct_def flow_ok_def fl_def)
  then show "e_pendingCost e = (\<Sum>i<e_next e. buf_sum (fl_queue (fl e i)))"
    using inv(1) by (simp add: books_def acct_def)
  show "\<forall>c \<in> {e_tunnelTCP e, e_endedTCP e, e_endedUDP e}. 0 < fc_max c \<longrightarrow> fc_len c \<le> fc_max c"
    using inv(2) by (simp add: caches_ok_def fc_wf_def)
  have "map fr_cost (kl_l (ft_kl (e_frags e))) = map (\<lambda>r. buf_sum (fr_held r)) (kl_l (ft_kl (e_frags e)))"
    using inv(3) by (simp add: frags_ok_def ft_wf_def list_all_iff frec_ok_def cong: map_cong)
  then show "ft_bytes (e_frags e) = sum_list (map (\<lambda>r. buf_sum (fr_held r)) (kl_l (ft_kl (e_frags e))))"
    using inv(3) by (simp only: frags_ok_def ft_wf_def)
  show "ft_bytes (e_frags e) \<le> lim_fragBytes lim" using inv(3) l by (simp add: frags_ok_def)
qed


end
