(* ===== verification/Engine_Env.thy ===== *)
theory Engine_Env
  imports Engine_Bounds
begin

text \<open>Frame lemmas: which part of the engine the operations on flows leave alone.\<close>

section \<open>What no operation changes\<close>

text \<open>The rules in force, the gate, the addresses and the limits: the operations on flows only read them.\<close>

definition env :: "engine \<Rightarrow> rule_set \<times> (bool \<times> bool \<times> bool) \<times> (ip4 \<times> ip4 list) \<times> bool" where
  "env e = (e_rules e, (e_permitted e, e_engDown e, e_tunnelOnly e), (e_addr e, e_dns e), e_closed e)"

lemma envD: "env e' = env e \<Longrightarrow> e_rules e' = e_rules e \<and> e_addr e' = e_addr e \<and> e_dns e' = e_dns e \<and> e_tunnelOnly e' = e_tunnelOnly e \<and>
    e_closed e' = e_closed e \<and> gateOpen e' = gateOpen e"
  by (simp add: env_def gateOpen_def)

lemma env_ext [simp]:
  "env (e\<lparr>e_kick := b1\<rparr>) = env e" "env (e\<lparr>e_out := b2\<rparr>) = env e" "env (e\<lparr>e_stack := b3\<rparr>) = env e"
  "env (e\<lparr>e_sessions := b5\<rparr>) = env e" "env (e\<lparr>e_nextSess := b6\<rparr>) = env e" "env (e\<lparr>e_heap := b9\<rparr>) = env e"
  "env (e\<lparr>e_pendingQ := b7\<rparr>) = env e" "env (e\<lparr>e_inflight := b8\<rparr>) = env e" "env (e\<lparr>e_tunnelTCP := d1\<rparr>) = env e"
  "env (e\<lparr>e_next := c1\<rparr>) = env e" "env (e\<lparr>e_lastScan := c2\<rparr>) = env e" "env (e\<lparr>e_udpLive := c3\<rparr>) = env e"
  "env (e\<lparr>e_revalQ := c4\<rparr>) = env e" "env (e\<lparr>e_holdQ := c5\<rparr>) = env e" "env (e\<lparr>e_udpCreating := c6\<rparr>) = env e"
  "env (e\<lparr>e_egressDownTo := c7\<rparr>) = env e" "env (e\<lparr>e_valDue := c8\<rparr>) = env e" "env (e\<lparr>e_lastValidate := c9\<rparr>) = env e"
  "env (e\<lparr>e_tcp := d2\<rparr>) = env e" "env (e\<lparr>e_udp := d3\<rparr>) = env e" "env (e\<lparr>e_tcpLen := d4\<rparr>) = env e"
  "env (e\<lparr>e_pending := d5\<rparr>) = env e" "env (e\<lparr>e_pendingCost := d6\<rparr>) = env e" "env (e\<lparr>e_bypassTCP := d7\<rparr>) = env e"
  "env (e\<lparr>e_endedTCP := d8\<rparr>) = env e" "env (e\<lparr>e_endedUDP := d9\<rparr>) = env e" "env (e\<lparr>e_frags := f1\<rparr>) = env e"
  by (simp_all add: env_def)

lemma snd_alloc [simp]: "snd (alloc_fl f e) = e_next e"
  by (simp add: alloc_fl_def)

lemma env_mod [simp]: "env (mod_fl i g e) = env e" "env (mod_sess s m e) = env e" "env (kickWorker e) = env e"
  "env (tcp_delete k e) = env e" "env (udp_delete p e) = env e" "env (fst (takeQueueLocked i e)) = env e"
  "env (tcp_store k i e) = env e" "env (udp_store p i e) = env e" "env (fst (alloc_fl f e)) = env e"
  "env (releaseLiveLocked i e) = env e" "env (dropQueueLocked i e) = env e" "env (setFailSafeLocked i fs ed now e) = env e"
  "env (startSessionLocked i now e) = env e" "env (pushOut b e) = env e" "env (to_stack x e) = env e" "env (sess_send s d now e) = env e"
  "env (sess_admit s a now e) = env e" "env (fst (enqueueLocked i pkt e)) = env e" "env (fst (enqueueBufLocked i b e)) = env e"
  "env (fst (enqueueUDPLocked i pkt e)) = env e"
  by (simp_all add: env_def mod_fl_def mod_sess_def kickWorker_def tcp_delete_def udp_delete_def takeQueueLocked_def tcp_store_def
      udp_store_def alloc_fl_def releaseLiveLocked_def dropQueueLocked_def setFailSafeLocked_def startSessionLocked_def
      Let_def pushOut_def to_stack_def sess_send_def sess_admit_def enqueueLocked_def enqueueBufLocked_def enqueueUDPLocked_def)

lemma env_enqueue_all [simp]: "env (enqueue_all i ps e) = env e"
  by (induction ps arbitrary: e) simp_all

lemma env_tcp_ops [simp]: "env (fst (newTCPLocked key isn pkt now prev e)) = env e" "env (fst (dropFlowLocked i e)) = env e"
  "env (fst (abortLocked i now e)) = env e" "env (fst (resolveTCP i res cl now e)) = env e"
  "env (fst (takeDialMark key e)) = env e" "env (fst (attach i ep conn e)) = env e" "env (fst (rulesChangedTCP rs now key e)) = env e"
  "env (fst (drainNext i now e)) = env e" "env (finishFlow i linger now e) = env e" "env (fst (failSafeTCP now key e)) = env e"
  by (simp_all add: newTCPLocked_def dropFlowLocked_def abortLocked_def resolveTCP_def takeDialMark_def attach_def rulesChangedTCP_def
      drainNext_def finishFlow_def failSafeTCP_def case_prod_beta Let_def split: option.split)

lemma env_tcp_ops2 [simp]: "env (fst (scanTCP now key e)) = env e" "env (fst (shutdownTCP key e)) = env e" "env (fst (decideTCP info pkt now e)) = env e"
  by (simp_all add: scanTCP_def shutdownTCP_def decideTCP_def case_prod_beta Let_def split: option.split)

lemma env_udp_ops [simp]: "env (fst (newUDPLocked port dst pkt now streak e)) = env e" "env (fst (endSessionLocked i now e)) = env e"
  "env (revalidatedLocked i res cl snapAt now e) = env e" "env (fst (failSafeUDPLocked i now ed e)) = env e" "env (forgetUDPLocked i now e) = env e"
  "env (toSession s b now e) = env e" "env (handleUDP v app port dst pl now e) = env e" "env (fst (resolveUDP i res cl snapAt now e)) = env e"
  by (simp_all add: newUDPLocked_def endSessionLocked_def revalidatedLocked_def failSafeUDPLocked_def forgetUDPLocked_def toSession_def
      handleUDP_def resolveUDP_def Let_def case_prod_beta split: option.split)

lemma env_udpLocked [simp]: "env (fst (udpLocked info pkt now frag e)) = env e"
  by (simp add: udpLocked_def Let_def case_prod_beta split: option.split)

lemma env_udp_ops2 [simp]: "env (fst (retireToTunnelLocked i now e)) = env e" "env (fst (decideUDP info pkt now e)) = env e"
  "env (fst (validateFlow snapAt now fso e)) = env e" "env (fst (rulesChangedUDP rs now p e)) = env e" "env (fst (sweepHold now i e)) = env e"
  "env (fst (failSafeUDP now p e)) = env e" "env (fst (shutdownUDP now p e)) = env e" "env (fst (listenDone s err now e)) = env e"
  "env (sessionFailed s now e) = env e" "env (deliver1 k now b e) = env e" "env (fst (validate_take ready now e)) = env e"
  by (simp_all add: retireToTunnelLocked_def decideUDP_def validateFlow_def rulesChangedUDP_def sweepHold_def failSafeUDP_def shutdownUDP_def
      listenDone_def sessionFailed_def deliver1_def validate_take_def Let_def case_prod_beta split: option.split sink.split prod.split)

lemma env_scanUDP [simp]: "env (fst (scanUDP now p e)) = env e"
  by (simp add: scanUDP_def Let_def case_prod_beta split: option.split)

lemma env_loops [simp]: "env (deliver q k now e) = env e" "env (fst (take_loop mx w is b e)) = env e" "env (flushSpill sp e) = env e"
  "env (fst (release_held kind f qd ps sp e)) = env e" "env (fst (sweepHoldsLocked now is kept e)) = env e"
proof -
  show "env (deliver q k now e) = env e" by (induction q arbitrary: e) (simp_all add: deliver_def)
  show "env (fst (take_loop mx w is b e)) = env e" by (induction mx w "is" b e rule: take_loop.induct) simp_all
  show "env (flushSpill sp e) = env e" by (induction sp e rule: flushSpill.induct) (simp_all split: action.split)
  show "env (fst (release_held kind f qd ps sp e)) = env e"
    by (induction kind f qd ps sp e rule: release_held.induct) (simp_all split: option.split)
  show "env (fst (sweepHoldsLocked now is kept e)) = env e" by (induction "is" arbitrary: kept e) (simp_all add: case_prod_beta)
qed

lemma env_map_loop: "(\<And>k e. env (fst (g k e)) = env e) \<Longrightarrow> env (fst (map_loop g ks e)) = env e"
  by (induction ks arbitrary: e) (simp_all add: case_prod_beta)

lemma env_udp_loop: "(\<And>k e. env (fst (h k e)) = env e) \<Longrightarrow> env (fst (udp_loop h ps e)) = env e"
  by (induction ps arbitrary: e) (simp_all add: case_prod_beta)

lemma env_frags [simp]: "env (fst (addFragLocked r sp e)) = env e" "env (fst (first_verdict info pkt now e)) = env e"
  "env (fst (collectLocked r pkt e)) = env e"
  by (simp_all add: addFragLocked_def first_verdict_def collectLocked_def Let_def case_prod_beta split: option.split prod.split)

lemma env_frags2 [simp]: "env (fst (laterFrag r pkt sp e)) = env e" "env (fst (firstFragLocked key r0 info pkt now e)) = env e"
  by (simp add: laterFrag_def Let_def case_prod_beta split: frag_kind.split)
    (cases r0; simp add: firstFragLocked_def Let_def case_prod_beta)

lemma env_decide [simp]: "env (fst (decide pkt now e)) = env e"
  by (simp add: decide_def decideFrag_def decideICMP_def Let_def case_prod_beta split: option.split)

lemma env_big [simp]: "env (fst (route pkt now keep e)) = env e" "env (fst (takeBatch e)) = env e" "env (fst (resolveAt i res cl snapAt now e)) = env e"
  "env (fst (sweep_locked ks ps now e)) = env e" "env (fst (rulesChanged rs ks ps now e)) = env e" "env (fst (failSafe_locked ks ps now e)) = env e"
  by (simp_all add: route_def takeBatch_def resolveAt_def sweep_locked_def compactPendingLocked_def rulesChanged_def failSafe_locked_def
      Let_def case_prod_beta env_map_loop env_udp_loop split: action.split option.split prod.split)

end
