(* ===== verification/Engine_Samples.thy ===== *)
theory Engine_Samples
  imports Engine_Env
begin

text \<open>A concrete run, used by the witnesses: with the default limits and a rule for one program, that
  program opens a TCP connection and sends a UDP datagram; both are held, looked up and bypassed.\<close>

definition sample_chain :: "string list" where
  "sample_chain = [''/usr/bin/game'']"

definition sample_rules :: rule_set where
  "sample_rules = \<lparr>rs_id = 1, rs_empty = False, rs_match = (\<lambda>c. c = sample_chain)\<rparr>"

definition sample_found :: match_result where
  "sample_found = \<lparr>mr_verdict = VerdictBypass, mr_owner = \<lparr>ow_pid = 7, ow_start = 1, ow_sock = 0, ow_chain = sample_chain\<rparr>\<rparr>"

definition sample_syn :: "byte list" where
  "sample_syn = [0x45, 0, 0, 40, 0, 1, 0, 0, 64, 6, 0, 0, 10, 0, 0, 2, 93, 184, 216, 34,
     0xC3, 0x50, 1, 0xBB, 0, 0, 0, 7, 0, 0, 0, 0, 0x50, 2, 0, 0, 0, 0, 0, 0]"

definition sample_udp :: "byte list" where
  "sample_udp = [0x45, 0, 0, 30, 0, 2, 0, 0, 64, 17, 0, 0, 10, 0, 0, 2, 93, 184, 216, 34,
     0xC3, 0x51, 1, 0xBB, 0, 10, 0, 0, 1, 2]"

definition sample_open :: engine where
  "sample_open = (newEngine defaultLimits 0x0A000002 [0x0A000001] sample_rules)\<lparr>e_permitted := True, e_engDown := False, e_tunnelOnly := False\<rparr>"

definition sample_held :: engine where
  "sample_held = fst (route sample_udp 6 False (fst (route sample_syn 5 False sample_open)))"

definition sample_batch :: engine where
  "sample_batch = fst (takeBatch sample_held)"

definition sample_bypass :: engine where
  "sample_bypass = fst (resolveAt 1 sample_found (Some sample_rules) 8 9 (fst (resolveAt 0 sample_found (Some sample_rules) 8 9 sample_batch)))"

definition sample_key :: flow_key where
  "sample_key = \<lparr>fk_port = 50000, fk_dst = (0x5DB8D822, 443)\<rparr>"

lemma sample_parse:
  "\<exists>info. parseIPv4 sample_syn = Some info \<and> tcp_key info = sample_key \<and> tcp_syn info \<and> pi_proto info = protoTCP \<and> \<not> pi_frag info \<and>
     pi_src info = 0x0A000002 \<and> pi_seq info = 7 \<and> pi_dst info = 0x5DB8D822 \<and> pi_dstPort info = 443"
  "\<exists>info. parseIPv4 sample_udp = Some info \<and> pi_srcPort info = 50001 \<and> pi_proto info = protoUDP \<and> \<not> pi_frag info \<and>
     pi_src info = 0x0A000002 \<and> pi_dst info = 0x5DB8D822 \<and> pi_dstPort info = 443 \<and> udpPayload info = Some (28, 30)"
  by (simp_all add: parseIPv4_def be16_def be32_def slice_def parse_transport_def with_udp_def with_ports_def ip_info_def sample_syn_def sample_udp_def
        protoTCP_def protoUDP_def udpPayload_def Let_def tcp_key_def tcp_syn_def addr_of_def sample_key_def)

lemma sample_defaults [simp]: "e_lim sample_open = defaultLimits" "e_addr sample_open = 0x0A000002" "e_dns sample_open = [0x0A000001]"
  "e_rules sample_open = sample_rules" "e_tunnelOnly sample_open = False" "e_closed sample_open = False" "gateOpen sample_open"
  "e_tcp sample_open = Map.empty" "e_udp sample_open = Map.empty" "e_pending sample_open = 0" "e_pendingCost sample_open = 0" "e_bypassTCP sample_open = 0"
  "e_pendingQ sample_open = []" "e_next sample_open = 0" "e_tcpLen sample_open = 0" "e_inflight sample_open = []" "e_revalQ sample_open = []"
  "e_udpLive sample_open = []" "e_udpCreating sample_open = 0" "e_egressDownTo sample_open = 0"
  "fc_get (e_tunnelTCP sample_open) k t = (e_tunnelTCP sample_open, None)" "fc_get (e_endedTCP sample_open) k t = (e_endedTCP sample_open, None)"
  by (simp_all add: sample_open_def newEngine_def gateOpen_def sample_rules_def fc_get_def fc_init_def kl_empty_def)

definition sample_tcp_flow :: flow where
  "sample_tcp_flow = (pending_flow protoTCP sample_key (5 + seconds 1))\<lparr>fl_isn := 7, fl_queue := [copyPacket sample_syn], fl_queueCost := 2048\<rparr>"

definition sample_udp_flow :: flow where
  "sample_udp_flow = (pending_flow protoUDP \<lparr>fk_port = 50001, fk_dst = (0x5DB8D822, 443)\<rparr> (6 + seconds 1))
     \<lparr>fl_lastSeen := 6, fl_queue := [copyPacket sample_udp], fl_queueCost := 2048\<rparr>"

lemma sample_cost [simp]: "bufCost (copyPacket sample_syn) = 2048" "bufCost (copyPacket sample_udp) = 2048"
  by (simp_all add: copyPacket_def bufCost_def newPacketBuf_cap_def engineBufSize_def sample_syn_def sample_udp_def)

lemma sample_dst [simp]: "\<not> alwaysTunnelDst 0x5DB8D822"
  by (simp add: alwaysTunnelDst_def)

lemma sample_route_tcp:
  "fst (route sample_syn 5 False sample_open) = sample_open\<lparr>e_tcp := [sample_key \<mapsto> 0], e_tcpLen := 1, e_heap := (e_heap sample_open)(0 := sample_tcp_flow),
     e_next := 1, e_pending := 1, e_pendingQ := [0], e_pendingCost := 2048, e_kick := True\<rparr>"
  using sample_parse(1)
  by (auto simp: route_def decide_def is_dns_def decideTCP_def newTCPLocked_def may_classify_def defaultLimits_def engineBufSize_def Let_def
      protoTCP_def protoUDP_def protoICMP_def alloc_fl_def tcp_store_def enqueueLocked_def kickWorker_def mod_fl_def fl_def pending_flow_def sample_tcp_flow_def)

lemma sample_held_eq:
  "sample_held = sample_open\<lparr>e_tcp := [sample_key \<mapsto> 0], e_tcpLen := 1, e_udp := [50001 \<mapsto> 1],
     e_heap := (e_heap sample_open)(0 := sample_tcp_flow, 1 := sample_udp_flow),
     e_next := 2, e_pending := 2, e_pendingQ := [0, 1], e_pendingCost := 4096, e_kick := True\<rparr>"
proof -
  have g: "gateOpen (sample_open\<lparr>e_tcp := a, e_tcpLen := b, e_heap := c, e_next := d, e_pending := f, e_pendingQ := g, e_pendingCost := h, e_kick := i\<rparr>)"
    for a b c d f g h i using sample_defaults(7) by (simp add: gateOpen_def)
  show ?thesis
    using sample_parse(2) g unfolding sample_held_def sample_route_tcp
    by (auto simp: route_def decide_def is_dns_def decideUDP_def udpLocked_def newUDPLocked_def may_classify_def defaultLimits_def engineBufSize_def Let_def
        protoTCP_def protoUDP_def protoICMP_def alloc_fl_def udp_store_def enqueueUDPLocked_def enqueueBufLocked_def kickWorker_def mod_fl_def fl_def
        pending_flow_def sample_udp_flow_def)
qed

lemma sample_batch_eq:
  "takeBatch sample_held = (sample_open\<lparr>e_tcp := [sample_key \<mapsto> 0], e_tcpLen := 1, e_udp := [50001 \<mapsto> 1],
     e_heap := (e_heap sample_open)(0 := sample_tcp_flow\<lparr>fl_submitted := True\<rparr>, 1 := sample_udp_flow\<lparr>fl_submitted := True\<rparr>),
     e_next := 2, e_pending := 2, e_pendingQ := [], e_inflight := [0, 1], e_pendingCost := 4096, e_kick := True\<rparr>, [0, 1])"
  by (simp add: sample_held_eq takeBatch_def defaultLimits_def wanted_pending_def currentLocked_def fl_def sample_tcp_flow_def sample_udp_flow_def
      pending_flow_def mod_fl_def protoTCP_def protoUDP_def fun_upd_twist)

definition sample_tcp_bypass :: flow where
  "sample_tcp_bypass = sample_tcp_flow\<lparr>fl_draining := True, fl_owner := mr_owner sample_found, fl_state := StateBypass, fl_live := True,
     fl_awaitingDial := True, fl_deadline := 9 + seconds 30, fl_queue := [], fl_queueCost := 0\<rparr>"

definition sample_udp_bypass :: flow where
  "sample_udp_bypass = sample_udp_flow\<lparr>fl_draining := True, fl_owner := mr_owner sample_found, fl_state := StateBypass, fl_sess := Some 0,
     fl_validatedAt := 8, fl_queue := [], fl_queueCost := 0\<rparr>"

lemma sample_verdict: "e_rules e = sample_rules \<Longrightarrow> gateOpen e \<Longrightarrow> bypassVerdictLocked sample_found (Some sample_rules) e"
  by (simp add: bypassVerdictLocked_def sample_found_def)

lemma sample_resolve_tcp:
  "fst (resolveAt 0 sample_found (Some sample_rules) 8 9 sample_batch) =
    sample_open\<lparr>e_tcp := [sample_key \<mapsto> 0], e_tcpLen := 1, e_udp := [50001 \<mapsto> 1],
     e_heap := (e_heap sample_open)(0 := sample_tcp_bypass, 1 := sample_udp_flow\<lparr>fl_submitted := True\<rparr>),
     e_next := 2, e_pending := 1, e_pendingQ := [], e_inflight := [0, 1], e_pendingCost := 2048, e_bypassTCP := 1, e_kick := True\<rparr>"
proof -
  have "bypassVerdictLocked sample_found (Some sample_rules) sample_batch"
    using sample_defaults(7) by (intro sample_verdict) (simp_all add: sample_batch_def sample_batch_eq gateOpen_def)
  then show ?thesis
    by (simp add: sample_batch_def sample_batch_eq resolveAt_def resolveTCP_def currentLocked_def fl_def sample_tcp_flow_def sample_tcp_bypass_def
        pending_flow_def mod_fl_def protoTCP_def protoUDP_def takeQueueLocked_def Let_def defaultLimits_def fun_upd_twist)
qed

lemma sample_bypass_eq:
  "sample_bypass = sample_open\<lparr>e_tcp := [sample_key \<mapsto> 0], e_tcpLen := 1, e_udp := [50001 \<mapsto> 1],
     e_heap := (e_heap sample_open)(0 := sample_tcp_bypass, 1 := sample_udp_bypass),
     e_next := 2, e_pending := 0, e_pendingQ := [], e_inflight := [0, 1], e_pendingCost := 0, e_bypassTCP := 1, e_kick := True,
     e_sessions := (e_sessions sample_open)(0 := new_session 1 50001 9), e_nextSess := 1, e_udpLive := [1], e_udpCreating := 1\<rparr>"
proof -
  define e where "e = sample_open\<lparr>e_tcp := [sample_key \<mapsto> 0], e_tcpLen := 1, e_udp := [50001 \<mapsto> 1],
     e_heap := (e_heap sample_open)(0 := sample_tcp_bypass, 1 := sample_udp_flow\<lparr>fl_submitted := True\<rparr>),
     e_next := 2, e_pending := 1, e_pendingQ := [], e_inflight := [0, 1], e_pendingCost := 2048, e_bypassTCP := 1, e_kick := True\<rparr>"
  have f: "fl e 1 = sample_udp_flow\<lparr>fl_submitted := True\<rparr>" by (simp add: e_def fl_def)
  have v: "bypassVerdictLocked sample_found (Some sample_rules) e"
    using sample_defaults(7) by (intro sample_verdict) (simp_all add: e_def gateOpen_def)
  have c: "currentLocked e 1" "fl_proto (fl e 1) = protoUDP" "fl_state (fl e 1) = StatePending" "session_room e" "\<not> 9 < e_egressDownTo e" "\<not> e_closed e"
    unfolding currentLocked_def f by (simp_all add: sample_udp_flow_def pending_flow_def session_room_def e_def defaultLimits_def)
  have n: "e_nextSess sample_open = 0" by (simp add: sample_open_def newEngine_def)
  have "fst (resolveUDP 1 sample_found (Some sample_rules) 8 9 e) = fst (takeQueueLocked 1 (setFailSafeLocked 1 False False 9 (startSessionLocked 1 9
      (mod_fl 1 (\<lambda>f. f\<lparr>fl_submitted := False, fl_owner := mr_owner sample_found, fl_validatedAt := 8, fl_draining := True\<rparr>) (e\<lparr>e_pending := e_pending e - 1\<rparr>)))))"
    using v c by (simp add: resolveUDP_def Let_def case_prod_beta)
  then have "fst (resolveAt 1 sample_found (Some sample_rules) 8 9 e) = fst (takeQueueLocked 1 (setFailSafeLocked 1 False False 9 (startSessionLocked 1 9
      (mod_fl 1 (\<lambda>f. f\<lparr>fl_submitted := False, fl_owner := mr_owner sample_found, fl_validatedAt := 8, fl_draining := True\<rparr>) (e\<lparr>e_pending := e_pending e - 1\<rparr>)))))"
    using c(2) by (simp add: resolveAt_def case_prod_beta split: option.split prod.split)
  then show ?thesis
    unfolding sample_bypass_def sample_resolve_tcp e_def [symmetric]
    by (simp add: e_def n takeQueueLocked_def setFailSafeLocked_def startSessionLocked_def mod_fl_def fl_def Let_def sample_udp_flow_def
        sample_udp_bypass_def pending_flow_def fun_upd_twist)
qed

lemma sample_lookup: "e_rules e = sample_rules \<Longrightarrow> lookup_ok sample_found (Some sample_rules) e"
  by (simp add: lookup_ok_def sample_found_def rs_allows_def sample_rules_def sample_chain_def)

lemma sample_reachable: "engine_reachable defaultLimits sample_held" "engine_reachable defaultLimits sample_bypass" "limits_ok defaultLimits"
proof -
  have o: "engine_reachable defaultLimits sample_open"
    unfolding sample_open_def by (rule engine_reachable.step [OF engine_reachable.start engine_step.gate])
  show h: "engine_reachable defaultLimits sample_held"
    unfolding sample_held_def by (rule engine_reachable.step [OF engine_reachable.step [OF o engine_step.packet] engine_step.packet])
  have b: "engine_reachable defaultLimits sample_batch"
    unfolding sample_batch_def by (rule engine_reachable.step [OF h engine_step.batch]) (simp add: sample_held_eq)
  have r: "e_rules sample_batch = sample_rules" by (simp add: sample_batch_def sample_batch_eq)
  have l: "lookup_ok sample_found (Some sample_rules) (fst (resolveAt 0 sample_found (Some sample_rules) 8 9 sample_batch))"
    by (rule sample_lookup) (simp add: r env_big(3) [THEN envD])
  show "engine_reachable defaultLimits sample_bypass"
    unfolding sample_bypass_def
    by (rule engine_reachable.step [OF engine_reachable.step [OF b engine_step.resolve [OF sample_lookup [OF r]]] engine_step.resolve [OF l]])
  show "limits_ok defaultLimits" by (simp add: limits_ok_def defaultLimits_def)
qed


end
