(* ===== verification/Engine_Escape.thy ===== *)
theory Engine_Escape
  imports Engine_Samples
begin

text \<open>Which packets leave the tunnel: what must hold when the engine hands a packet to its own TCP/IP stack
  or to an off-tunnel session.\<close>

section \<open>Handing over a datagram\<close>

text \<open>The port has a session that is past its drain and trusts the destination.\<close>

definition udp_open :: "pkt_info \<Rightarrow> time \<Rightarrow> engine \<Rightarrow> bool" where
  "udp_open info now e \<longleftrightarrow> (\<exists>i s. e_udp e (pi_srcPort info) = Some i \<and> fl_sess (fl e i) = Some s \<and> \<not> fl_draining (fl e i) \<and>
     fl_state (fl e i) \<noteq> StatePending \<and> fl_state (fl e i) \<noteq> StateTunnel \<and>
     (knows (e_sessions e s) (pi_dst info) \<or>
       \<not> fl_holding (fl e i) \<and> now - fl_validatedAt (fl e i) \<le> lim_udpFresh (e_lim e)))"

text \<open>The connection was given a bypass verdict and its queue is drained.\<close>

definition tcp_open :: "pkt_info \<Rightarrow> engine \<Rightarrow> bool" where
  "tcp_open info e \<longleftrightarrow> (\<exists>i. e_tcp e (tcp_key info) = Some i \<and> fl_state (fl e i) \<in> {StateBypass, StateLinger} \<and> \<not> fl_draining (fl e i))"

text \<open>A fragment whose first one was handed over, the port still having its session.\<close>

definition frag_open :: "pkt_info \<Rightarrow> engine \<Rightarrow> bool" where
  "frag_open info e \<longleftrightarrow> (\<exists>r i. ft_get (e_frags e) (pi_dst info, pi_id info) = Some r \<and> fr_kind r = FragCollect \<and> fr_f r = Some i \<and>
     currentLocked e i \<and> fl_state (fl e i) = StateBypass \<and> fl_sess (fl e i) \<noteq> None \<and> \<not> fl_draining (fl e i))"

lemma sessions_ext [simp]: "e_sessions (kickWorker e) = e_sessions e" "e_sessions (fst (enqueueUDPLocked i pkt e)) = e_sessions e"
  "e_sessions (udp_delete p e) = e_sessions e" "e_sessions (udp_store p i e) = e_sessions e" "e_sessions (fst (alloc_fl f e)) = e_sessions e"
  "e_sessions (fst (enqueueBufLocked i b e)) = e_sessions e" "e_sessions (fst (enqueueLocked i pkt e)) = e_sessions e"
  by (simp_all add: kickWorker_def enqueueUDPLocked_def enqueueBufLocked_def enqueueLocked_def Let_def udp_delete_def udp_store_def alloc_fl_def mod_fl_def)

lemma act_enqueue: "snd (enqueueUDPLocked i pkt e) \<noteq> ActStack" "snd (enqueueLocked i pkt e) \<noteq> ActStack"
  by (simp_all add: enqueueUDPLocked_def enqueueBufLocked_def enqueueLocked_def Let_def)

lemma newUDP_out: "newUDPLocked port dst pkt now streak e = (e', act, f, q) \<Longrightarrow> act \<noteq> ActStack \<and> e_sessions e' = e_sessions e \<and> (f \<noteq> None \<longrightarrow> q)"
  using act_enqueue(1) by (auto simp: newUDPLocked_def Let_def case_prod_beta split: if_splits)

lemma trusted_mod [simp]: "trusted_dst i s a now (mod_fl j (\<lambda>f. f\<lparr>fl_lastSeen := t\<rparr>) e) = trusted_dst i s a now e"
  by (simp add: trusted_dst_def fl_def)

lemma udpLocked_out:
  assumes u: "udpLocked info pkt now frag e = (e', act, f, q)" and x: "act = ActStack \<or> e_sessions e' \<noteq> e_sessions e \<or> (f \<noteq> None \<and> \<not> q)"
  shows "udp_open info now e"
proof (cases "e_udp e (pi_srcPort info)")
  case None
  then show ?thesis using u x newUDP_out by (fastforce simp: udpLocked_def)
next
  case (Some i)
  let ?e = "mod_fl i (\<lambda>f. f\<lparr>fl_lastSeen := now\<rparr>) e"
  have st: "fl_state (fl ?e i) = fl_state (fl e i)" "fl_draining (fl ?e i) = fl_draining (fl e i)" "fl_sess (fl ?e i) = fl_sess (fl e i)" by (simp_all add: fl_def)
  note d = u [unfolded udpLocked_def Let_def case_prod_beta Some option.case]
  have held: "\<not> (fl_state (fl e i) = StatePending \<or> fl_draining (fl e i))"
    using d x act_enqueue(1) [of i pkt ?e] by (auto simp: st)
  have tun: "fl_state (fl e i) \<noteq> StateTunnel"
    using d x held newUDP_out [of "pi_srcPort info" _ pkt now _ "udp_delete (pi_srcPort info) ?e" e' act f q] by (auto simp: st split: if_splits)
  obtain s where s: "fl_sess (fl e i) = Some s"
    using d x held tun by (cases "fl_sess (fl e i)") (auto simp: st)
  have "trusted_dst i s (pi_dst info) now e"
  proof (rule ccontr)
    assume "\<not> trusted_dst i s (pi_dst info) now e"
    then show False
      using d x held tun s act_enqueue(1) by (auto simp: st split: if_splits)
  qed
  then show ?thesis using Some held tun s by (auto simp: udp_open_def trusted_dst_def)
qed

lemma decideTCP_out:
  assumes "decideTCP info pkt now e = (e', act, ts)"
  shows "e_sessions e' = e_sessions e" and "act = ActStack \<Longrightarrow> tcp_open info e"
proof -
  have n: "newTCPLocked key isn pkt now prev e1 = (e', act, ts) \<Longrightarrow> act \<noteq> ActStack \<and> e_sessions e' = e_sessions e1" for key isn prev e1
    by (auto simp: newTCPLocked_def Let_def case_prod_beta tcp_store_def split: if_splits)
  have dr: "e_sessions (fst (dropFlowLocked i e1)) = e_sessions e1" for i e1
    by (simp add: dropFlowLocked_def Let_def dropQueueLocked_def takeQueueLocked_def releaseLiveLocked_def tcp_delete_def)
  show "e_sessions e' = e_sessions e"
    using assms n dr by (auto simp: decideTCP_def Let_def case_prod_beta split: if_splits option.splits dest!: n)
  show "tcp_open info e" if "act = ActStack"
    using assms that n act_enqueue(2) flow_state.exhaust
    by (auto simp: decideTCP_def Let_def case_prod_beta tcp_open_def split: if_splits option.splits dest!: n)
       (metis flow_state.exhaust)+
qed

section \<open>Fragments\<close>

definition no_stack :: "spill \<Rightarrow> bool" where
  "no_stack sp \<longleftrightarrow> (\<forall>p. (ActStack, p) \<notin> set sp)"

lemma no_stack_add [simp]: "no_stack (spill_add act ps sp) \<longleftrightarrow> no_stack sp \<and> (act = ActStack \<longrightarrow> ps = [])" "no_stack []"
  by (cases ps) (auto simp: no_stack_def spill_add_def)

lemma addFrag_out: "no_stack sp \<Longrightarrow> no_stack (snd (addFragLocked r sp e)) \<and> e_sessions (fst (addFragLocked r sp e)) = e_sessions e"
  by (simp add: addFragLocked_def case_prod_beta split: option.split prod.split)

lemma laterFrag_out:
  assumes l: "laterFrag r pkt sp e = (e', act, sp')" and sp: "no_stack sp"
  shows "no_stack sp' \<and> e_sessions e' = e_sessions e"
    and "act = ActStack \<Longrightarrow> fr_kind r = FragCollect \<and> (\<exists>i. fr_f r = Some i \<and> currentLocked e i \<and> fl_state (fl e i) = StateBypass \<and>
      fl_sess (fl e i) \<noteq> None \<and> \<not> fl_draining (fl e i))"
  using l sp act_enqueue(1)
  by (auto simp: laterFrag_def collectLocked_def Let_def case_prod_beta split: frag_kind.splits if_splits option.splits)

lemma release_held_out:
  "no_stack sp \<Longrightarrow> kind = FragCollect \<Longrightarrow> f \<noteq> None \<Longrightarrow> q \<Longrightarrow> no_stack (snd (release_held kind f q ps sp e))"
  "no_stack sp \<Longrightarrow> kind \<noteq> FragCollect \<Longrightarrow> no_stack (snd (release_held kind f q ps sp e))"
  "e_sessions (fst (release_held kind f q ps sp e)) = e_sessions e"
  by (induction kind f q ps sp e rule: release_held.induct) (auto split: option.splits)

lemma udp_open_frags [simp]: "udp_open info now (e\<lparr>e_frags := t\<rparr>) = udp_open info now e"
  by (simp add: udp_open_def fl_def)

lemma firstFrag_out:
  assumes l: "firstFragLocked key r0 info pkt now e = (e', act, sp)" and x: "act = ActStack \<or> \<not> no_stack sp \<or> e_sessions e' \<noteq> e_sessions e"
  shows "udp_open info now e \<and> \<not> is_dns info e \<and> \<not> alwaysTunnelDst (pi_dst info)"
proof -
  define ft where "ft = (case r0 of None \<Rightarrow> e_frags e | Some r \<Rightarrow> ft_store (emptied r) (fst (ft_takeHeld r (e_frags e))))"
  define held where "held = (case r0 of None \<Rightarrow> [] | Some r \<Rightarrow> snd (ft_takeHeld r (e_frags e)))"
  have f0: "(case r0 of None \<Rightarrow> (e_frags e, []) | Some r \<Rightarrow> (ft_store (emptied r) (fst (ft_takeHeld r (e_frags e))), snd (ft_takeHeld r (e_frags e)))) = (ft, held)"
    by (cases r0) (simp_all add: ft_def held_def)
  obtain e1 a1 f q where v: "first_verdict info pkt now (e\<lparr>e_frags := ft\<rparr>) = (e1, a1, f, q)" by (metis prod_cases4)
  define R where "R = (case r0 of None \<Rightarrow> new_frag key FragHeld (now + lim_fragTTL (e_lim e1)) | Some r \<Rightarrow> emptied r)"
  define e2 where "e2 = (case r0 of None \<Rightarrow> addFragLocked R [] e1 | Some _ \<Rightarrow> (e1, []))"
  have a2: "no_stack (snd e2)" "e_sessions (fst e2) = e_sessions e1"
    using addFrag_out [of "[]" R e1] by (cases r0; simp add: e2_def)+
  have r: "act = a1" "e_sessions e' = e_sessions e1" "frag_kind_of a1 f = FragCollect \<Longrightarrow> q \<Longrightarrow> no_stack sp" "frag_kind_of a1 f \<noteq> FragCollect \<Longrightarrow> no_stack sp"
    using l release_held_out a2 unfolding firstFragLocked_def Let_def case_prod_beta unfolding f0 v fst_conv snd_conv R_def [symmetric] e2_def [symmetric]
    by (auto split: if_splits simp: frag_kind_of_def)
  have "a1 = ActStack \<or> e_sessions e1 \<noteq> e_sessions e \<or> (f \<noteq> None \<and> \<not> q)"
    using x r by (cases "a1 = ActDrop"; cases f) (auto simp: frag_kind_of_def)
  then show ?thesis
    using v udpLocked_out [of info pkt now True "e\<lparr>e_frags := ft\<rparr>" e1 a1 f q]
    by (auto simp: first_verdict_def is_dns_def split: if_splits)
qed

section \<open>What leaves the tunnel\<close>

lemma frag_open_cong: "e_frags e' = e_frags e \<Longrightarrow> e_heap e' = e_heap e \<Longrightarrow> e_udp e' = e_udp e \<Longrightarrow> e_tcp e' = e_tcp e \<Longrightarrow> frag_open info e' = frag_open info e"
  by (simp add: frag_open_def fl_def currentLocked_def)

lemma decideFrag_out:
  assumes l: "decideFrag info pkt now e = (e', act, sp)" and x: "act = ActStack \<or> \<not> no_stack sp \<or> e_sessions e' \<noteq> e_sessions e"
  shows "if pi_fragOff info = 0 then udp_open info now e \<and> \<not> is_dns info e \<and> \<not> alwaysTunnelDst (pi_dst info) else frag_open info e"
proof (cases "pi_fragOff info = 0 \<and> \<not> e_closed e")
  case True
  then show ?thesis using l x firstFrag_out by (auto simp: decideFrag_def Let_def)
next
  case False
  show ?thesis
  proof (cases "ft_get (e_frags e) (pi_dst info, pi_id info)")
    case None
    let ?r = "new_frag (pi_dst info, pi_id info) FragHeld (now + lim_fragTTL (e_lim e))"
    have a: "no_stack (snd (addFragLocked ?r [] e))" "e_sessions (fst (addFragLocked ?r [] e)) = e_sessions e" using addFrag_out by simp_all
    show ?thesis
      using l x False None a laterFrag_out(1) [of ?r pkt "snd (addFragLocked ?r [] e)" "fst (addFragLocked ?r [] e)" e' act sp]
        laterFrag_out(2) [of ?r pkt "snd (addFragLocked ?r [] e)" "fst (addFragLocked ?r [] e)" e' act sp]
      by (auto simp: decideFrag_def Let_def case_prod_beta new_frag_def split: if_splits)
  next
    case (Some r)
    then show ?thesis
      using l x False laterFrag_out [of r pkt "[]" e e' act sp] by (auto simp: decideFrag_def Let_def frag_open_def split: if_splits)
  qed
qed

text \<open>C10: A packet read from the device reaches the engine's own TCP/IP stack, a held fragment does, or an
  off-tunnel session learns of a datagram or a destination, only when the device is not in its
  tunnel-only fallback and the packet comes from the tunnel address; a DNS query or a destination that
  always stays in the tunnel never does.  A TCP segment then belongs to a connection that was given a
  bypass verdict, a datagram or first fragment to a port with a live session that trusts the
  destination (known to it, or confirmed by an owner check no older than the freshness limit), a
  later fragment follows a first one that was handed over.  No packet overtakes a queue.\<close>

theorem packet_leaves_tunnel_only_if:
  assumes "decide pkt now e = (e', act, sp, ts)" and "act = ActStack \<or> (\<exists>p. (ActStack, p) \<in> set sp) \<or> e_sessions e' \<noteq> e_sessions e"
  shows "\<not> e_tunnelOnly e \<and> (\<exists>info. parseIPv4 pkt = Some info \<and> pi_src info = e_addr e \<and>
    (if pi_frag info \<and> pi_fragOff info \<noteq> 0 then pi_proto info = protoUDP \<and> frag_open info e
     else \<not> is_dns info e \<and> \<not> alwaysTunnelDst (pi_dst info) \<and>
       (pi_proto info = protoUDP \<and> udp_open info now e \<or> pi_proto info = protoTCP \<and> \<not> pi_frag info \<and> tcp_open info e)))"
proof -
  have x: "act = ActStack \<or> \<not> no_stack sp \<or> e_sessions e' \<noteq> e_sessions e" using assms(2) by (auto simp: no_stack_def)
  note d = assms(1) [unfolded decide_def Let_def case_prod_beta]
  have to: "\<not> e_tunnelOnly e" using d x by (auto split: if_splits)
  then obtain info where i: "parseIPv4 pkt = Some info" using d x by (cases "parseIPv4 pkt") auto
  have icmp: "fst (decideICMP info pkt now e) = e' \<Longrightarrow> snd (decideICMP info pkt now e) = act \<Longrightarrow> e_sessions e' = e_sessions e \<and> act \<noteq> ActStack"
    by (auto simp: decideICMP_def Let_def case_prod_beta split: if_splits option.splits)
  have udp: "fst (decideUDP info pkt now e) = e' \<Longrightarrow> snd (decideUDP info pkt now e) = act \<Longrightarrow> sp = [] \<Longrightarrow> udp_open info now e"
    using x udpLocked_out [of info pkt now False e e' act] by (auto simp: decideUDP_def Let_def case_prod_beta prod_eq_iff split: if_splits)
  have tcp: "decideTCP info pkt now e = (e', act, ts) \<Longrightarrow> sp = [] \<Longrightarrow> tcp_open info e"
    using x decideTCP_out [of info pkt now e e' act ts] by auto
  have frag: "decideFrag info pkt now e = (e', act, sp) \<Longrightarrow>
      if pi_fragOff info = 0 then udp_open info now e \<and> \<not> is_dns info e \<and> \<not> alwaysTunnelDst (pi_dst info) else frag_open info e"
    by (rule decideFrag_out [OF _ x])
  show ?thesis
    using d x to i icmp udp tcp frag by (auto simp: prod_eq_iff split: if_splits)
qed

text \<open>A later datagram of the sample port, once its queue is drained, goes straight to its session.\<close>

definition sample_drained :: engine where
  "sample_drained = fst (drainNext 1 10 sample_bypass)"

lemma sample_drained_eq: "sample_drained = sample_bypass\<lparr>e_heap := (e_heap sample_bypass)(1 := sample_udp_bypass\<lparr>fl_draining := False\<rparr>)\<rparr>"
  by (simp add: sample_drained_def drainNext_def sample_bypass_eq currentLocked_def fl_def sample_udp_bypass_def sample_udp_flow_def pending_flow_def
      mod_fl_def Let_def)

theorem packet_leaves_tunnel_only_if_witness:
  "\<exists>e' act sp ts info. decide sample_udp 11 sample_drained = (e', act, sp, ts) \<and> e_sessions e' \<noteq> e_sessions sample_drained \<and>
     parseIPv4 sample_udp = Some info \<and> udp_open info 11 sample_drained"
proof -
  obtain e' act sp ts where d: "decide sample_udp 11 sample_drained = (e', act, sp, ts)" by (metis prod_cases4)
  obtain info where i: "parseIPv4 sample_udp = Some info" "pi_srcPort info = 50001" "pi_proto info = protoUDP" "\<not> pi_frag info"
    "pi_src info = 0x0A000002" "pi_dst info = 0x5DB8D822" "pi_dstPort info = 443" "udpPayload info = Some (28, 30)"
    using sample_parse(2) by blast
  have env: "e_tunnelOnly sample_drained = False" "e_addr sample_drained = 0x0A000002" "e_dns sample_drained = [0x0A000001]" "e_closed sample_drained = False"
    "e_udp sample_drained 50001 = Some 1" "e_lim sample_drained = defaultLimits" "e_sessions sample_drained 0 = new_session 1 50001 9"
    "fl sample_drained 1 = sample_udp_bypass\<lparr>fl_draining := False\<rparr>"
    by (simp_all add: sample_drained_eq sample_bypass_eq fl_def)
  have fl: "fl_state (fl sample_drained 1) = StateBypass" "\<not> fl_draining (fl sample_drained 1)" "fl_sess (fl sample_drained 1) = Some 0"
    "\<not> fl_holding (fl sample_drained 1)" "fl_validatedAt (fl sample_drained 1) = 8"
    unfolding env(8) by (simp_all add: sample_udp_bypass_def sample_udp_flow_def pending_flow_def)
  have t: "trusted_dst 1 0 (pi_dst info) 11 sample_drained"
    using fl(4,5) env(6) by (simp add: trusted_dst_def defaultLimits_def seconds_def)
  have st: "fl_state (fl (mod_fl 1 (\<lambda>f. f\<lparr>fl_lastSeen := 11\<rparr>) sample_drained) 1) = StateBypass"
    "\<not> fl_draining (fl (mod_fl 1 (\<lambda>f. f\<lparr>fl_lastSeen := 11\<rparr>) sample_drained) 1)"
    "fl_sess (fl (mod_fl 1 (\<lambda>f. f\<lparr>fl_lastSeen := 11\<rparr>) sample_drained) 1) = Some 0"
    using fl by (simp_all add: fl_def)
  have "e' = sess_send 0 \<lparr>uo_dst = (pi_dst info, pi_dstPort info), uo_p = copyPacket (payload_of info sample_udp), uo_off = 0\<rparr> 11
      (mod_fl 1 (\<lambda>f. f\<lparr>fl_lastSeen := 11\<rparr>) sample_drained)"
    using d i(1-8) env st t
    by (simp add: decide_def is_dns_def decideUDP_def udpLocked_def Let_def protoUDP_def protoTCP_def protoICMP_def)
  then have "us_sendQ (e_sessions e' 0) \<noteq> us_sendQ (e_sessions sample_drained 0)"
    by (simp add: sess_send_def mod_sess_def env send_def new_session_def defaultLimits_def admit_def insertLocked_def knows_def Let_def)
  then have "e_sessions e' \<noteq> e_sessions sample_drained" by metis
  then show ?thesis
    using packet_leaves_tunnel_only_if [OF d] d i by (auto simp: protoUDP_def protoTCP_def)
qed

end
