(* ===== verification/Engine_Rules.thy ===== *)
theory Engine_Rules
  imports Engine_Samples
begin

text \<open>Who may leave the tunnel: every bypassed connection and every UDP session in the tables belongs to an
  owner the rules in force allow.  The invariant is stated over the keys and ports of two sets, so
  that a loop over a table establishes it entry by entry.\<close>

definition tcp_fine :: "rule_set \<Rightarrow> flow \<Rightarrow> bool" where
  "tcp_fine rs f \<longleftrightarrow> (fl_state f = StateBypass \<and> \<not> fl_aborted f \<longrightarrow> rs_allows rs (ow_chain (fl_owner f)))"

definition udp_fine :: "rule_set \<Rightarrow> flow \<Rightarrow> bool" where
  "udp_fine rs f \<longleftrightarrow> (fl_sess f \<noteq> None \<longrightarrow> rs_allows rs (ow_chain (fl_owner f)))"

definition alw :: "rule_set \<Rightarrow> flow_key set \<Rightarrow> nat set \<Rightarrow> (flow_key \<Rightarrow> nat option) \<Rightarrow> (nat \<Rightarrow> nat option) \<Rightarrow> (nat \<Rightarrow> flow) \<Rightarrow> bool" where
  "alw rs K P t u h \<longleftrightarrow> (\<forall>k i. k \<in> K \<longrightarrow> t k = Some i \<longrightarrow> tcp_fine rs (h i)) \<and> (\<forall>p i. p \<in> P \<longrightarrow> u p = Some i \<longrightarrow> udp_fine rs (h i))"

definition allowed :: "rule_set \<Rightarrow> flow_key set \<Rightarrow> nat set \<Rightarrow> engine \<Rightarrow> bool" where
  "allowed rs K P e \<longleftrightarrow> alw rs K P (e_tcp e) (e_udp e) (e_heap e)"

lemma alw_upd: "alw rs K P t u h \<Longrightarrow> (tcp_fine rs (h i) \<Longrightarrow> tcp_fine rs f) \<Longrightarrow> (udp_fine rs (h i) \<Longrightarrow> udp_fine rs f) \<Longrightarrow> alw rs K P t u (h(i := f))"
  by (auto simp: alw_def)

lemma alw_del: "alw rs K P t u h \<Longrightarrow> alw rs K P (t(k := None)) u h" "alw rs K P t u h \<Longrightarrow> alw rs K P t (u(p := None)) h"
  by (auto simp: alw_def)

lemma alw_new: "alw rs K P t u h \<Longrightarrow> tcp_fine rs (h i) \<Longrightarrow> alw rs K P (t(k \<mapsto> i)) u h" "alw rs K P t u h \<Longrightarrow> udp_fine rs (h i) \<Longrightarrow> alw rs K P t (u(p \<mapsto> i)) h"
  by (auto simp: alw_def)

lemma allowed_ext [simp]:
  "allowed rs K P (e\<lparr>e_kick := b1\<rparr>) = allowed rs K P e" "allowed rs K P (e\<lparr>e_out := b2\<rparr>) = allowed rs K P e" "allowed rs K P (e\<lparr>e_stack := b3\<rparr>) = allowed rs K P e"
  "allowed rs K P (e\<lparr>e_closed := b4\<rparr>) = allowed rs K P e" "allowed rs K P (e\<lparr>e_sessions := b5\<rparr>) = allowed rs K P e" "allowed rs K P (e\<lparr>e_nextSess := b6\<rparr>) = allowed rs K P e"
  "allowed rs K P (e\<lparr>e_pendingQ := b7\<rparr>) = allowed rs K P e" "allowed rs K P (e\<lparr>e_inflight := b8\<rparr>) = allowed rs K P e" "allowed rs K P (e\<lparr>e_tunnelTCP := b9\<rparr>) = allowed rs K P e"
  "allowed rs K P (e\<lparr>e_endedTCP := c1\<rparr>) = allowed rs K P e" "allowed rs K P (e\<lparr>e_lastScan := c2\<rparr>) = allowed rs K P e" "allowed rs K P (e\<lparr>e_udpLive := c3\<rparr>) = allowed rs K P e"
  "allowed rs K P (e\<lparr>e_revalQ := c4\<rparr>) = allowed rs K P e" "allowed rs K P (e\<lparr>e_holdQ := c5\<rparr>) = allowed rs K P e" "allowed rs K P (e\<lparr>e_udpCreating := c6\<rparr>) = allowed rs K P e"
  "allowed rs K P (e\<lparr>e_egressDownTo := c7\<rparr>) = allowed rs K P e" "allowed rs K P (e\<lparr>e_valDue := c8\<rparr>) = allowed rs K P e" "allowed rs K P (e\<lparr>e_lastValidate := c9\<rparr>) = allowed rs K P e"
  "allowed rs K P (e\<lparr>e_endedUDP := d1\<rparr>) = allowed rs K P e" "allowed rs K P (e\<lparr>e_frags := d2\<rparr>) = allowed rs K P e" "allowed rs K P (e\<lparr>e_tcpLen := d3\<rparr>) = allowed rs K P e"
  "allowed rs K P (e\<lparr>e_rules := d4\<rparr>) = allowed rs K P e" "allowed rs K P (e\<lparr>e_permitted := d5\<rparr>) = allowed rs K P e" "allowed rs K P (e\<lparr>e_engDown := d6\<rparr>) = allowed rs K P e"
  "allowed rs K P (e\<lparr>e_tunnelOnly := d7\<rparr>) = allowed rs K P e" "allowed rs K P (e\<lparr>e_pending := d8\<rparr>) = allowed rs K P e" "allowed rs K P (e\<lparr>e_pendingCost := d9\<rparr>) = allowed rs K P e"
  "allowed rs K P (e\<lparr>e_bypassTCP := f1\<rparr>) = allowed rs K P e" "allowed rs K P (e\<lparr>e_next := f2\<rparr>) = allowed rs K P e"
  by (simp_all add: allowed_def)

lemma allowed_mod: "allowed rs K P e \<Longrightarrow> (tcp_fine rs (fl e i) \<Longrightarrow> tcp_fine rs (g (fl e i))) \<Longrightarrow> (udp_fine rs (fl e i) \<Longrightarrow> udp_fine rs (g (fl e i))) \<Longrightarrow>
    allowed rs K P (mod_fl i g e)"
  by (simp add: allowed_def fl_def alw_upd)

text \<open>Changes of other fields, and the ones that only take privileges away.\<close>

lemmas fine = tcp_fine_def udp_fine_def

lemma allowed_small [intro]:
  assumes "allowed rs K P e"
  shows "allowed rs K P (kickWorker e)" "allowed rs K P (pushOut b e)" "allowed rs K P (to_stack x e)" "allowed rs K P (tcp_delete k e)"
    "allowed rs K P (udp_delete p e)" "allowed rs K P (fst (takeQueueLocked i e))" "allowed rs K P (dropQueueLocked i e)"
    "allowed rs K P (releaseLiveLocked i e)" "allowed rs K P (mod_sess s m e)" "allowed rs K P (sess_send s d now e)"
    "allowed rs K P (sess_admit s a now e)" "allowed rs K P (fst (enqueueLocked i pkt e))" "allowed rs K P (fst (enqueueBufLocked i b e))"
    "allowed rs K P (setFailSafeLocked i fs ed now e)"
  using assms
  by (auto simp: kickWorker_def pushOut_def to_stack_def tcp_delete_def udp_delete_def takeQueueLocked_def dropQueueLocked_def
      releaseLiveLocked_def mod_sess_def sess_send_def sess_admit_def enqueueLocked_def enqueueBufLocked_def setFailSafeLocked_def Let_def
      fine intro!: allowed_mod) (simp_all add: allowed_def alw_del)

section \<open>Operations that let nobody out\<close>

lemma allowed_alloc:
  assumes "allowed rs K P e" and "fl_state f = StatePending" "fl_sess f = None" "n = e_next e"
  shows "allowed rs K P (tcp_store k n (fst (alloc_fl f e)))" "allowed rs K P (udp_store p n (fst (alloc_fl f e)))"
proof -
  have "alw rs K P (e_tcp e) (e_udp e) ((e_heap e)(e_next e := f))"
    using assms by (intro alw_upd) (simp_all add: allowed_def fine)
  then show "allowed rs K P (tcp_store k n (fst (alloc_fl f e)))" "allowed rs K P (udp_store p n (fst (alloc_fl f e)))"
    using assms(2-4) by (simp_all add: allowed_def tcp_store_def udp_store_def alloc_fl_def alw_new fine)
qed

lemma allowed_newTCP [intro]: "allowed rs K P e \<Longrightarrow> allowed rs K P (fst (newTCPLocked key isn pkt now prev e))"
  by (auto simp: newTCPLocked_def Let_def case_prod_beta pending_flow_def intro!: allowed_alloc allowed_small)

lemma allowed_tcp_ops [intro]:
  assumes e: "allowed rs K P e"
  shows "allowed rs K P (fst (dropFlowLocked i e))" "allowed rs K P (fst (abortLocked i now e))" "allowed rs K P (fst (takeDialMark key e))"
    "allowed rs K P (fst (attach i ep conn e))" "allowed rs K P (fst (rulesChangedTCP rs' now k e))" "allowed rs K P (fst (failSafeTCP now k e))"
    "allowed rs K P (fst (shutdownTCP k e))" "allowed rs K P (fst (drainNext i now e))" "allowed rs K P (finishFlow i linger now e)"
    "allowed rs K P (fst (scanTCP now k e))"
proof -
  show d: "allowed rs K P (fst (dropFlowLocked i e))" for i
    using e by (auto simp: dropFlowLocked_def Let_def fine intro!: allowed_mod allowed_small)
  show ab: "allowed rs K P (fst (abortLocked i now e))" for i
    using e by (auto simp: abortLocked_def Let_def fine intro!: allowed_mod allowed_small)
  show "allowed rs K P (fst (takeDialMark key e))" using e by (auto simp: takeDialMark_def Let_def fine intro!: allowed_mod split: option.split)
  show "allowed rs K P (fst (attach i ep conn e))" using e by (auto simp: attach_def fine intro!: allowed_mod)
  show "allowed rs K P (fst (rulesChangedTCP rs' now k e))" using e ab by (auto simp: rulesChangedTCP_def case_prod_beta split: option.split)
  show "allowed rs K P (fst (failSafeTCP now k e))" using e ab by (auto simp: failSafeTCP_def case_prod_beta split: option.split)
  show "allowed rs K P (fst (shutdownTCP k e))" using e by (auto simp: shutdownTCP_def Let_def fine intro!: allowed_mod split: option.split)
  show "allowed rs K P (fst (drainNext i now e))" using e by (auto simp: drainNext_def Let_def case_prod_beta fine intro!: allowed_mod)
  show "allowed rs K P (finishFlow i linger now e)"
    using e by (auto simp: finishFlow_def Let_def fine intro!: allowed_mod allowed_small)
  show "allowed rs K P (fst (scanTCP now k e))" using e d by (auto simp: scanTCP_def Let_def split: option.split)
qed

lemma allowed_decideTCP [intro]: "allowed rs K P e \<Longrightarrow> allowed rs K P (fst (decideTCP info pkt now e))"
  by (auto simp: decideTCP_def Let_def case_prod_beta intro!: allowed_newTCP allowed_small split: option.split)

lemma allowed_enqueueUDP [intro]: "allowed rs K P e \<Longrightarrow> allowed rs K P (fst (enqueueUDPLocked i pkt e))"
  by (auto simp: enqueueUDPLocked_def)

lemma allowed_enqueue_all [intro]: "allowed rs K P e \<Longrightarrow> allowed rs K P (enqueue_all i ps e)"
  by (induction ps arbitrary: e) auto

lemma allowed_newUDP [intro]: "allowed rs K P e \<Longrightarrow> allowed rs K P (fst (newUDPLocked port dst pkt now streak e))"
  by (auto simp: newUDPLocked_def Let_def case_prod_beta pending_flow_def intro!: allowed_alloc allowed_small allowed_enqueueUDP)

lemma allowed_cases: "(c \<Longrightarrow> allowed rs K P (fst x)) \<Longrightarrow> (\<not> c \<Longrightarrow> allowed rs K P (fst y)) \<Longrightarrow> allowed rs K P (fst (if c then x else y))"
  "(d \<Longrightarrow> allowed rs K P e1) \<Longrightarrow> (\<not> d \<Longrightarrow> allowed rs K P e2) \<Longrightarrow> allowed rs K P (if d then e1 else e2)"
  "(o' = None \<Longrightarrow> allowed rs K P (fst x)) \<Longrightarrow> (\<And>j. o' = Some j \<Longrightarrow> allowed rs K P (fst (z j))) \<Longrightarrow>
    allowed rs K P (fst (case o' of None \<Rightarrow> x | Some j \<Rightarrow> z j))"
  by (simp_all split: option.split)

lemma allowed_udpLocked [intro]:
  assumes e: "allowed rs K P e"
  shows "allowed rs K P (fst (udpLocked info pkt now frag e))"
proof -
  have m: "allowed rs K P (mod_fl i (\<lambda>f. f\<lparr>fl_lastSeen := now\<rparr>) e)" for i using e by (rule allowed_mod) (simp_all add: fine)
  have mm: "allowed rs K P (mod_fl i (\<lambda>f. f\<lparr>fl_revalidating := True\<rparr>) e')" "allowed rs K P (mod_fl i (\<lambda>f. f\<lparr>fl_holding := True, fl_holdDeadline := d\<rparr>) e')"
    if "allowed rs K P e'" for i e' d using that by (rule allowed_mod; simp add: fine)+
  show ?thesis
    unfolding udpLocked_def Let_def case_prod_beta
    by (intro allowed_cases; (simp only: fst_conv)?; intro allowed_small allowed_newUDP allowed_enqueueUDP allowed_ext [THEN iffD2] mm m e allowed_cases)
qed

lemma allowed_endSession [intro]: "allowed rs K P e \<Longrightarrow> allowed rs K P (fst (endSessionLocked i now e))"
  by (auto simp: endSessionLocked_def Let_def fine intro!: allowed_mod allowed_small split: option.split)

lemma allowed_forget [intro]:
  assumes "allowed rs K P e"
  shows "allowed rs K P (forgetUDPLocked i now e)"
proof -
  define e1 where "e1 = (if e_udp e (fk_port (fl_key (fl e i))) = Some i then udp_delete (fk_port (fl_key (fl e i))) e else e)"
  define e2 where "e2 = (if fl_state (fl e i) = StatePending then e1\<lparr>e_pending := e_pending e1 - 1\<rparr> else e1)"
  define e3 where "e3 = fst (takeQueueLocked i (mod_fl i (\<lambda>f. f\<lparr>fl_holding := False\<rparr>) e2))"
  have "allowed rs K P e1" using assms by (simp add: e1_def allowed_small)
  then have "allowed rs K P e2" by (simp add: e2_def)
  then have e3: "allowed rs K P e3" unfolding e3_def by (intro allowed_small allowed_mod) (simp_all add: fine)
  have "allowed rs K P (kickWorker (enqueue_all (e_next e3) q ((udp_store p (e_next e3) (fst (alloc_fl f e3)))\<lparr>e_pending := x, e_pendingQ := y\<rparr>)))"
    if "fl_state f = StatePending" "fl_sess f = None" for q p f x y
    using allowed_alloc(2) [OF e3 that, of "e_next e3" p] by (intro allowed_small allowed_enqueue_all) simp
  then show ?thesis
    unfolding forgetUDPLocked_def Let_def case_prod_beta e1_def [symmetric] e2_def [symmetric] e3_def [symmetric]
    using e3 by (simp add: pending_flow_def)
qed

lemma allowed_failSafeUDPLocked [intro]: "allowed rs K P e \<Longrightarrow> allowed rs K P (fst (failSafeUDPLocked i now ed e))"
  by (auto simp: failSafeUDPLocked_def Let_def case_prod_beta fine intro!: allowed_mod allowed_small)

lemma allowed_udp_ops [intro]:
  assumes e: "allowed rs K P e"
  shows "allowed rs K P (fst (retireToTunnelLocked i now e))" "allowed rs K P (fst (decideUDP info pkt now e))"
    "allowed rs K P (fst (validateFlow snapAt now fso e))" "allowed rs K P (fst (rulesChangedUDP rs' now p e))"
    "allowed rs K P (fst (scanUDP now p e))" "allowed rs K P (fst (listenDone s err now e))" "allowed rs K P (sessionFailed s now e)"
    "allowed rs K P (toSession s b now e)" "allowed rs K P (handleUDP v app port dst pl now e)" "allowed rs K P (fst (failSafeUDP now p e))"
    "allowed rs K P (fst (shutdownUDP now p e))" "allowed rs K P (fst (sweepHold now i e))" "allowed rs K P (fst (validate_take ready now e))"
proof -
  show r: "allowed rs K P (fst (retireToTunnelLocked i now e))" for i using e by (auto simp: retireToTunnelLocked_def case_prod_beta Let_def)
  show "allowed rs K P (fst (decideUDP info pkt now e))" using e by (auto simp: decideUDP_def case_prod_beta Let_def)
  show "allowed rs K P (fst (validateFlow snapAt now fso e))"
    using e by (auto simp: validateFlow_def case_prod_beta Let_def fine intro!: allowed_mod allowed_small allowed_forget)
  show "allowed rs K P (fst (rulesChangedUDP rs' now p e))" using e by (auto simp: rulesChangedUDP_def case_prod_beta Let_def split: option.split)
  show "allowed rs K P (fst (scanUDP now p e))" using e r by (auto simp: scanUDP_def case_prod_beta Let_def split: option.split)
  show "allowed rs K P (fst (listenDone s err now e))" using e by (auto simp: listenDone_def Let_def intro!: allowed_failSafeUDPLocked allowed_endSession)
  show "allowed rs K P (sessionFailed s now e)" using e by (auto simp: sessionFailed_def Let_def)
  show "allowed rs K P (toSession s b now e)" using e by (auto simp: toSession_def Let_def split: option.split)
  show "allowed rs K P (handleUDP v app port dst pl now e)" using e by (auto simp: handleUDP_def split: option.split)
  show "allowed rs K P (fst (failSafeUDP now p e))" using e by (auto simp: failSafeUDP_def case_prod_beta Let_def split: option.split)
  show "allowed rs K P (fst (shutdownUDP now p e))" using e by (auto simp: shutdownUDP_def case_prod_beta Let_def split: option.split)
  show "allowed rs K P (fst (sweepHold now i e))" using e r by (auto simp: sweepHold_def case_prod_beta Let_def)
  show "allowed rs K P (fst (validate_take ready now e))" using e by (simp add: validate_take_def)
qed

lemma allowed_release_held [intro]: "allowed rs K P e \<Longrightarrow> allowed rs K P (fst (release_held kind f q ps sp e))"
  by (induction kind f q ps sp e rule: release_held.induct) (auto split: option.split)

lemma allowed_addFrag [intro]: "allowed rs K P e \<Longrightarrow> allowed rs K P (fst (addFragLocked r sp e))"
  by (simp add: addFragLocked_def case_prod_beta split: option.split prod.split)

lemma allowed_firstVerdict [intro]: "allowed rs K P e \<Longrightarrow> allowed rs K P (fst (first_verdict info pkt now e))"
  by (auto simp: first_verdict_def)

lemma allowed_firstFrag [intro]: "allowed rs K P e \<Longrightarrow> allowed rs K P (fst (firstFragLocked key r0 info pkt now e))"
  by (cases r0) (simp_all add: firstFragLocked_def Let_def case_prod_beta allowed_firstVerdict allowed_release_held allowed_addFrag)

lemma allowed_laterFrag [intro]: "allowed rs K P e \<Longrightarrow> allowed rs K P (fst (laterFrag r pkt sp e))"
  by (auto simp: laterFrag_def collectLocked_def Let_def case_prod_beta split: frag_kind.split option.split)

lemma allowed_decideFrag [intro]: "allowed rs K P e \<Longrightarrow> allowed rs K P (fst (decideFrag info pkt now e))"
  by (auto simp: decideFrag_def Let_def case_prod_beta split: option.split)

lemma allowed_decideICMP [intro]: "allowed rs K P e \<Longrightarrow> allowed rs K P (fst (decideICMP info pkt now e))"
  by (simp add: decideICMP_def Let_def case_prod_beta split: option.split)

lemma allowed_decide [intro]: "allowed rs K P e \<Longrightarrow> allowed rs K P (fst (decide pkt now e))"
  by (auto simp: decide_def Let_def case_prod_beta split: option.split)

lemma allowed_flushSpill [intro]: "allowed rs K P e \<Longrightarrow> allowed rs K P (flushSpill sp e)"
  by (induction sp e rule: flushSpill.induct) (simp_all add: allowed_small split: action.split)

lemma allowed_route [intro]: "allowed rs K P e \<Longrightarrow> allowed rs K P (fst (route pkt now keep e))"
  using allowed_decide [of rs K P e pkt now] by (auto simp: route_def Let_def case_prod_beta split: action.split)

lemma allowed_deliver [intro]: "allowed rs K P e \<Longrightarrow> allowed rs K P (deliver q k now e)"
  by (induction q arbitrary: e) (simp_all add: deliver_def deliver1_def allowed_small allowed_udp_ops split: sink.split)

lemma allowed_takeBatch [intro]: "allowed rs K P e \<Longrightarrow> allowed rs K P (fst (takeBatch e))"
proof -
  have m: "allowed rs K P e \<Longrightarrow> allowed rs K P (mod_fl i (\<lambda>f. f\<lparr>fl_submitted := True\<rparr>) e)" for i e
    by (rule allowed_mod) (simp_all add: fine)
  have t: "allowed rs K P e \<Longrightarrow> allowed rs K P (fst (take_loop mx w is b e))" for mx w "is" b e
    by (induction mx w "is" b e rule: take_loop.induct) (simp_all add: m)
  show "allowed rs K P e \<Longrightarrow> allowed rs K P (fst (takeBatch e))" by (simp add: takeBatch_def Let_def case_prod_beta t)
qed

lemma allowed_map_loop: "(\<And>k e. allowed rs K P e \<Longrightarrow> allowed rs K P (fst (g k e))) \<Longrightarrow> allowed rs K P e \<Longrightarrow> allowed rs K P (fst (map_loop g ks e))"
  by (induction ks arbitrary: e) (simp_all add: case_prod_beta)

lemma allowed_udp_loop: "(\<And>k e. allowed rs K P e \<Longrightarrow> allowed rs K P (fst (g k e))) \<Longrightarrow> allowed rs K P e \<Longrightarrow> allowed rs K P (fst (udp_loop g ks e))"
  by (induction ks arbitrary: e) (simp_all add: case_prod_beta)

lemma allowed_sweepHolds: "allowed rs K P e \<Longrightarrow> allowed rs K P (fst (sweepHoldsLocked now is kept e))"
  by (induction "is" arbitrary: kept e) (simp_all add: case_prod_beta allowed_udp_ops)

lemma allowed_sweep [intro]:
  assumes "allowed rs K P e"
  shows "allowed rs K P (fst (sweep_locked ks ps now e))"
proof -
  have h: "allowed rs K P (fst (sweepHoldsLocked now (e_holdQ e) [] e))" by (rule allowed_sweepHolds [OF assms])
  have l: "allowed rs K P e' \<Longrightarrow> allowed rs K P (fst (map_loop (scanTCP now) ks e'))" for e' by (rule allowed_map_loop) auto
  have u: "allowed rs K P e' \<Longrightarrow> allowed rs K P (fst (udp_loop (scanUDP now) ps e'))" for e' by (rule allowed_udp_loop) auto
  show ?thesis
    using h by (simp add: sweep_locked_def Let_def case_prod_beta compactPendingLocked_def l u allowed_small)
qed

lemma allowed_big [intro]:
  assumes "allowed rs K P e"
  shows "allowed rs K P (fst (failSafe_locked ks ps now e))" "allowed rs K P (fst (shutdown_locked ks ps now e))"
proof -
  show "allowed rs K P (fst (failSafe_locked ks ps now e))"
    unfolding failSafe_locked_def Let_def case_prod_beta fst_conv by (intro allowed_map_loop) (auto simp: assms)
  show "allowed rs K P (fst (shutdown_locked ks ps now e))"
    unfolding shutdown_locked_def Let_def case_prod_beta fst_conv allowed_ext by (intro allowed_map_loop) (auto simp: assms)
qed

section \<open>A verdict lets out only what the rules allow\<close>

lemma verdict_allowed: "lookup_ok res cl e \<Longrightarrow> bypassVerdictLocked res cl e \<Longrightarrow> rs_allows (e_rules e) (ow_chain (mr_owner res))"
  by (auto simp: lookup_ok_def bypassVerdictLocked_def split: option.splits if_splits)

lemma allowed_resolveTCP:
  assumes e: "allowed rs K P e" and inv: "einv e" and l: "bypassVerdictLocked res cl e \<Longrightarrow> rs_allows rs (ow_chain (mr_owner res))" and p: "fl_proto (fl e i) \<noteq> protoUDP"
  shows "allowed rs K P (fst (resolveTCP i res cl now e))"
proof (cases "e_closed e \<or> \<not> currentLocked e i \<or> fl_state (fl e i) \<noteq> StatePending")
  case True
  then show ?thesis using e by (simp add: resolveTCP_def)
next
  case False
  have s: "fl_sess (e_heap e i) = None"
    using False books_queue [OF einv_books [OF inv] current_less [OF einv_books [OF inv], of i]] p by (auto simp: flow_ok_def fl_def)
  have "alw rs K P (e_tcp e) (e_udp e) ((e_heap e)(i := f))" if "fl_state f = StateTunnel \<or> rs_allows rs (ow_chain (fl_owner f))" "fl_sess f = None" for f
    using e that by (auto simp: allowed_def fine intro!: alw_upd)
  then show ?thesis
    using False s l
    by (simp add: resolveTCP_def Let_def takeQueueLocked_def allowed_def fl_def)
qed

lemma allowed_revalidated:
  assumes e: "allowed rs K P e" and s: "fl_sess (fl e i) = None" "fl_state (fl e i) = StateTunnel" and l: "bypassVerdictLocked res cl e \<Longrightarrow> rs_allows rs (ow_chain (mr_owner res))"
  shows "allowed rs K P (revalidatedLocked i res cl snapAt now e)"
proof -
  have "alw rs K P (e_tcp e) (e_udp e) ((e_heap e)(i := f))"
    if "fl_state f = StateTunnel \<and> fl_sess f = None \<or> rs_allows rs (ow_chain (fl_owner f))" for f
    using e that by (auto simp: allowed_def fine intro!: alw_upd)
  moreover have "bypassVerdictLocked res cl (mod_fl i g e') = bypassVerdictLocked res cl e'" for g e'
    by (simp add: bypassVerdictLocked_def gateOpen_def split: option.split)
  ultimately show ?thesis
    using s l
    by (auto simp: revalidatedLocked_def Let_def allowed_def fl_def startSessionLocked_def split: option.split)
qed

lemma allowed_resolveUDP:
  assumes e: "allowed rs K P e" and inv: "einv e" and l: "bypassVerdictLocked res cl e \<Longrightarrow> rs_allows rs (ow_chain (mr_owner res))"
  shows "allowed rs K P (fst (resolveUDP i res cl snapAt now e))"
proof (cases "e_closed e \<or> \<not> currentLocked e i")
  case True
  then show ?thesis using e by (simp add: resolveUDP_def)
next
  case open_: False
  have ok: "flow_ok (fl e i)"
    using open_ books_queue [OF einv_books [OF inv] current_less [OF einv_books [OF inv], of i]] by (simp add: fl_def)
  show ?thesis
  proof (cases "fl_state (fl e i) = StateTunnel \<and> fl_revalidating (fl e i)")
    case True
    then show ?thesis using open_ ok allowed_revalidated [OF e _ _ l] by (auto simp: resolveUDP_def flow_ok_def)
  next
    case not_reval: False
    show ?thesis
    proof (cases "fl_state (fl e i) = StatePending")
      case True
      have s: "fl_sess (e_heap e i) = None" using ok True by (auto simp: flow_ok_def fl_def)
      have "alw rs K P (e_tcp e) (e_udp e) ((e_heap e)(i := f))"
        if "fl_state f = StateTunnel \<and> fl_sess f = None \<or> rs_allows rs (ow_chain (fl_owner f))" for f
        using e that by (auto simp: allowed_def fine intro!: alw_upd)
      then show ?thesis
        using open_ not_reval True s l
        by (simp add: resolveUDP_def Let_def takeQueueLocked_def allowed_def fl_def startSessionLocked_def setFailSafeLocked_def)
    next
      case False
      then show ?thesis using open_ not_reval e by (auto simp: resolveUDP_def)
    qed
  qed
qed

lemma allowed_resolveAt:
  assumes "allowed rs K P e" "einv e" and "bypassVerdictLocked res cl e \<Longrightarrow> rs_allows rs (ow_chain (mr_owner res))"
  shows "allowed rs K P (fst (resolveAt i res cl snapAt now e))"
  using allowed_resolveUDP [OF assms, where i = i and snapAt = snapAt and now = now] allowed_resolveTCP [OF assms, where i = i and now = now]
  by (auto simp: resolveAt_def case_prod_beta split: option.split prod.split)

section \<open>New rules are enforced\<close>

lemma alw_Un: "alw rs (K \<union> K') (P \<union> P') t u h \<longleftrightarrow> alw rs K P t u h \<and> alw rs K' P' t u h"
  unfolding alw_def by blast

lemma allowed_Un: "allowed rs (K \<union> K') (P \<union> P') e \<longleftrightarrow> allowed rs K P e \<and> allowed rs K' P' e"
  by (simp add: allowed_def alw_Un)

lemma allowed_none: "allowed rs (- dom (e_tcp e)) (- dom (e_udp e)) e"
  by (auto simp: allowed_def alw_def)

lemma allowed_loop_tcp:
  assumes keep: "\<And>K k e. allowed rs K {} e \<Longrightarrow> allowed rs K {} (fst (g k e))" and est: "\<And>k e. allowed rs {k} {} (fst (g k e))"
  shows "allowed rs (set ks) {} (fst (map_loop g ks e))"
proof (induction ks arbitrary: e)
  case Nil
  show ?case by (simp add: allowed_def alw_def)
next
  case (Cons k ks)
  have "allowed rs {k} {} (fst (map_loop g ks (fst (g k e))))" by (rule allowed_map_loop [OF keep est])
  then show ?case using Cons [of "fst (g k e)"] allowed_Un [of rs "{k}" "set ks" "{}" "{}"] by (simp add: case_prod_beta)
qed

lemma allowed_loop_udp:
  assumes keep: "\<And>P p e. allowed rs {} P e \<Longrightarrow> allowed rs {} P (fst (g p e))" and est: "\<And>p e. allowed rs {} {p} (fst (g p e))"
  shows "allowed rs {} (set ps) (fst (map_loop g ps e))"
proof (induction ps arbitrary: e)
  case Nil
  show ?case by (simp add: allowed_def alw_def)
next
  case (Cons p ps)
  have "allowed rs {} {p} (fst (map_loop g ps (fst (g p e))))" by (rule allowed_map_loop [OF keep est])
  then show ?case using Cons [of "fst (g p e)"] allowed_Un [of rs "{}" "{}" "{p}" "set ps"] by (simp add: case_prod_beta)
qed

lemma rulesChangedTCP_est: "allowed rs {k} {} (fst (rulesChangedTCP rs now k e))"
  by (auto simp: rulesChangedTCP_def abortLocked_def releaseLiveLocked_def Let_def case_prod_beta allowed_def alw_def fine fl_def mod_fl_def split: option.split)

lemma endSession_est: "e_udp e p = Some i \<Longrightarrow> allowed rs {} {p} (fst (endSessionLocked i now e))"
  by (auto simp: endSessionLocked_def Let_def allowed_def alw_def fine fl_def mod_sess_def split: option.split)

lemma rulesChangedUDP_est: "allowed rs {} {p} (fst (rulesChangedUDP rs now p e))"
proof (cases "e_udp e p")
  case None
  then show ?thesis by (simp add: rulesChangedUDP_def allowed_def alw_def)
next
  case (Some i)
  have "allowed rs {} {p} e" if "fl_sess (fl e i) = None \<or> rs_allows rs (ow_chain (fl_owner (fl e i)))"
    using that Some by (auto simp: allowed_def alw_def fine fl_def)
  then show ?thesis using Some endSession_est [OF Some] by (auto simp: rulesChangedUDP_def Let_def case_prod_beta)
qed

lemma rulesChanged_est:
  assumes "dom (e_tcp e) \<subseteq> set ks" "dom (e_udp e) \<subseteq> set ps"
  shows "allowed rs UNIV UNIV (fst (rulesChanged rs ks ps now e))"
proof -
  let ?e1 = "fst (map_loop (rulesChangedTCP rs now) ks e)"
  let ?e2 = "fst (map_loop (rulesChangedUDP rs now) ps ?e1)"
  have keep: "allowed rs K P ?e2" if "allowed rs K P ?e1" for K P
    by (rule allowed_map_loop [OF _ that]) auto
  have "allowed rs (set ks) {} ?e1"
    by (rule allowed_loop_tcp [OF _ rulesChangedTCP_est]) auto
  then have k: "allowed rs (set ks) {} ?e2" by (rule keep)
  have p: "allowed rs {} (set ps) ?e2" by (rule allowed_loop_udp [OF _ rulesChangedUDP_est]) auto
  have "allowed rs (- dom (e_tcp e)) (- dom (e_udp e)) ?e1" by (rule allowed_map_loop [OF _ allowed_none]) auto
  then have n: "allowed rs (- dom (e_tcp e)) (- dom (e_udp e)) ?e2" by (rule keep)
  have "allowed rs (set ks \<union> - dom (e_tcp e)) ((set ps \<union> {}) \<union> - dom (e_udp e)) ?e2"
    using k p n allowed_Un [of rs "set ks" "{}" "{}" "set ps" ?e2] by (simp add: allowed_Un)
  moreover have "set ks \<union> - dom (e_tcp e) = UNIV" "(set ps \<union> {}) \<union> - dom (e_udp e) = UNIV" using assms by auto
  ultimately show ?thesis by (simp add: rulesChanged_def Let_def case_prod_beta)
qed

lemma step_allowed:
  assumes "engine_step e e'" and "einv e" and "allowed (e_rules e) UNIV UNIV e"
  shows "allowed (e_rules e') UNIV UNIV e'"
  using assms
proof (induction rule: engine_step.induct)
  case (new_rules e ks ps rs now)
  have "e_rules (fst (rulesChanged rs ks ps now (e\<lparr>e_rules := rs\<rparr>))) = rs"
    using envD [OF env_big(5), of rs ks ps now "e\<lparr>e_rules := rs\<rparr>"] by simp
  then show ?case using rulesChanged_est [of "e\<lparr>e_rules := rs\<rparr>" ks ps rs now] new_rules(1,2) by simp
next
  case (resolve res cl e i snapAt now)
  show ?case using allowed_resolveAt [OF resolve(3,2) verdict_allowed [OF resolve(1)]] envD [OF env_big(3)] by simp
next
  case (shutdown e ks ps now)
  have "e_rules (fst (shutdown_locked ks ps now e)) = e_rules e"
  proof -
    have "env (fst (map_loop (shutdownUDP now) ps (fst (map_loop shutdownTCP ks (e\<lparr>e_closed := True\<rparr>))))) = env (e\<lparr>e_closed := True\<rparr>)"
      by (simp add: env_map_loop)
    then show ?thesis using envD [of _ "e\<lparr>e_closed := True\<rparr>"] by (simp add: shutdown_locked_def Let_def case_prod_beta)
  qed
  then show ?case using shutdown by auto
qed (auto simp: env_big [THEN envD] env_mod [THEN envD] env_tcp_ops [THEN envD] env_udp_ops [THEN envD] env_udp_ops2 [THEN envD] env_loops [THEN envD]
    intro: allowed_small)

lemma reachable_allowed:
  assumes "engine_reachable lim e" and "limits_ok lim"
  shows "allowed (e_rules e) UNIV UNIV e"
  using assms
proof (induction rule: engine_reachable.induct)
  case (start addr dns rs)
  show ?case by (simp add: newEngine_def allowed_def alw_def)
next
  case (step e e')
  show ?case by (rule step_allowed [OF step(2) reachable_einv [OF step(1,4)] step(3) [OF step(4)]])
qed



end
