(* ===== verification/Engine_Deadlines.thy ===== *)
theory Engine_Deadlines
  imports Engine_Samples
begin

text \<open>No flow waits for its verdict beyond its deadline: every flow that waits is in the worker's queue or in
  its batch, no operation puts one there late, and a sweep resolves those that are overdue.\<close>

section \<open>Waiting flows\<close>

definition wants :: "(flow_key \<Rightarrow> nat option) \<Rightarrow> (nat \<Rightarrow> nat option) \<Rightarrow> (nat \<Rightarrow> flow) \<Rightarrow> nat \<Rightarrow> bool" where
  "wants t u h i \<longleftrightarrow> cur_of t u h i \<and> fl_state (h i) = StatePending"

lemma wanted_wants: "wanted_verdict e i \<longleftrightarrow> wants (e_tcp e) (e_udp e) (e_heap e) i"
  by (simp add: wanted_verdict_def wants_def currentLocked_cur fl_def)

text \<open>From one state to a later one, a flow that waits either waited before, with the same deadline and mark,
  or is new, in the worker's queue, and not due before \<open>now\<close>.\<close>

definition waits_ok :: "engine \<Rightarrow> time \<Rightarrow> (flow_key \<Rightarrow> nat option) \<Rightarrow> (nat \<Rightarrow> nat option) \<Rightarrow> (nat \<Rightarrow> flow) \<Rightarrow> nat list \<Rightarrow> nat list \<Rightarrow> bool" where
  "waits_ok e0 now t u h pq infl \<longleftrightarrow> set (e_pendingQ e0) \<subseteq> set pq \<and> infl = e_inflight e0 \<and>
     (\<forall>i. wants t u h i \<longrightarrow>
        (wanted_verdict e0 i \<and> fl_deadline (h i) = fl_deadline (fl e0 i) \<and> fl_submitted (h i) = fl_submitted (fl e0 i)) \<or>
        (i \<in> set pq \<and> \<not> fl_submitted (h i) \<and> now \<le> fl_deadline (h i)))"

definition onward :: "engine \<Rightarrow> time \<Rightarrow> engine \<Rightarrow> bool" where
  "onward e0 now e \<longleftrightarrow> waits_ok e0 now (e_tcp e) (e_udp e) (e_heap e) (e_pendingQ e) (e_inflight e) \<and> e_lim e = e_lim e0"

lemma onward_refl [simp]: "onward e now e"
  by (simp add: onward_def waits_ok_def wanted_wants fl_def)

lemma onward_trans:
  assumes "onward e0 now e1" and "onward e1 now e2"
  shows "onward e0 now e2"
proof -
  have "(wanted_verdict e0 i \<and> fl_deadline (e_heap e2 i) = fl_deadline (fl e0 i) \<and> fl_submitted (e_heap e2 i) = fl_submitted (fl e0 i)) \<or>
      (i \<in> set (e_pendingQ e2) \<and> \<not> fl_submitted (e_heap e2 i) \<and> now \<le> fl_deadline (e_heap e2 i))"
    if "wants (e_tcp e2) (e_udp e2) (e_heap e2) i" for i
    using assms that unfolding onward_def waits_ok_def wanted_wants fl_def by (metis subsetD)
  then show ?thesis using assms by (simp add: onward_def waits_ok_def) blast
qed

lemma waits_upd:
  assumes "waits_ok e0 now t u h pq infl" and "fl_proto f = fl_proto (h i)" "fl_key f = fl_key (h i)"
    and "fl_state f = StatePending \<Longrightarrow> fl_state (h i) = StatePending \<and> fl_deadline f = fl_deadline (h i) \<and> fl_submitted f = fl_submitted (h i)"
  shows "waits_ok e0 now t u (h(i := f)) pq infl"
  using assms by (auto simp: waits_ok_def wants_def cur_upd [of f h i, OF assms(2,3)])

lemma waits_del: "waits_ok e0 now t u h pq infl \<Longrightarrow> waits_ok e0 now (t(k := None)) u h pq infl"
  "waits_ok e0 now t u h pq infl \<Longrightarrow> waits_ok e0 now t (u(p := None)) h pq infl"
  by (auto simp: waits_ok_def wants_def cur_of_def split: if_splits)

lemma waits_new:
  assumes "waits_ok e0 now t u h pq infl" and "\<not> fl_submitted f" "now \<le> fl_deadline f"
    and "(t' = t(k \<mapsto> n) \<and> u' = u) \<or> (t' = t \<and> u' = u(p \<mapsto> n))"
  shows "waits_ok e0 now t' u' (h(n := f)) (pq @ [n]) infl"
proof -
  have "wants t u h i" if "wants t' u' (h(n := f)) i" "i \<noteq> n" for i
    using that assms(4) by (auto simp: wants_def cur_of_def split: if_splits)
  then show ?thesis using assms(1-3) by (auto simp: waits_ok_def)
qed

lemma onward_ext [simp]:
  "onward e0 t (e\<lparr>e_kick := b1\<rparr>) = onward e0 t e" "onward e0 t (e\<lparr>e_out := b2\<rparr>) = onward e0 t e" "onward e0 t (e\<lparr>e_stack := b3\<rparr>) = onward e0 t e"
  "onward e0 t (e\<lparr>e_closed := b4\<rparr>) = onward e0 t e" "onward e0 t (e\<lparr>e_sessions := b5\<rparr>) = onward e0 t e" "onward e0 t (e\<lparr>e_nextSess := b6\<rparr>) = onward e0 t e"
  "onward e0 t (e\<lparr>e_tunnelTCP := b9\<rparr>) = onward e0 t e" "onward e0 t (e\<lparr>e_rules := d4\<rparr>) = onward e0 t e" "onward e0 t (e\<lparr>e_permitted := d5\<rparr>) = onward e0 t e"
  "onward e0 t (e\<lparr>e_endedTCP := c1\<rparr>) = onward e0 t e" "onward e0 t (e\<lparr>e_lastScan := c2\<rparr>) = onward e0 t e" "onward e0 t (e\<lparr>e_udpLive := c3\<rparr>) = onward e0 t e"
  "onward e0 t (e\<lparr>e_revalQ := c4\<rparr>) = onward e0 t e" "onward e0 t (e\<lparr>e_holdQ := c5\<rparr>) = onward e0 t e" "onward e0 t (e\<lparr>e_udpCreating := c6\<rparr>) = onward e0 t e"
  "onward e0 t (e\<lparr>e_egressDownTo := c7\<rparr>) = onward e0 t e" "onward e0 t (e\<lparr>e_valDue := c8\<rparr>) = onward e0 t e" "onward e0 t (e\<lparr>e_lastValidate := c9\<rparr>) = onward e0 t e"
  "onward e0 t (e\<lparr>e_endedUDP := d1\<rparr>) = onward e0 t e" "onward e0 t (e\<lparr>e_frags := d2\<rparr>) = onward e0 t e" "onward e0 t (e\<lparr>e_tcpLen := d3\<rparr>) = onward e0 t e"
  "onward e0 t (e\<lparr>e_engDown := d6\<rparr>) = onward e0 t e" "onward e0 t (e\<lparr>e_pending := d8\<rparr>) = onward e0 t e" "onward e0 t (e\<lparr>e_pendingCost := d9\<rparr>) = onward e0 t e"
  "onward e0 t (e\<lparr>e_tunnelOnly := d7\<rparr>) = onward e0 t e" "onward e0 t (e\<lparr>e_bypassTCP := f1\<rparr>) = onward e0 t e" "onward e0 t (e\<lparr>e_next := f2\<rparr>) = onward e0 t e"
  by (simp_all add: onward_def)

lemma onward_mod:
  assumes "onward e0 now e" and "\<And>f. fl_proto (g f) = fl_proto f \<and> fl_key (g f) = fl_key f"
    and "fl_state (g (fl e i)) = StatePending \<Longrightarrow> fl_state (fl e i) = StatePending \<and> fl_deadline (g (fl e i)) = fl_deadline (fl e i) \<and>
      fl_submitted (g (fl e i)) = fl_submitted (fl e i)"
  shows "onward e0 now (mod_fl i g e)"
  using assms by (simp add: onward_def fl_def waits_upd)

lemma onward_small [intro]:
  assumes "onward e0 now e"
  shows "onward e0 now (kickWorker e)" "onward e0 now (pushOut b e)" "onward e0 now (to_stack x e)" "onward e0 now (tcp_delete k e)"
    "onward e0 now (udp_delete p e)" "onward e0 now (fst (takeQueueLocked i e))" "onward e0 now (dropQueueLocked i e)"
    "onward e0 now (releaseLiveLocked i e)" "onward e0 now (mod_sess s m e)" "onward e0 now (sess_send s d t e)"
    "onward e0 now (sess_admit s a t e)" "onward e0 now (fst (enqueueLocked i pkt e))" "onward e0 now (fst (enqueueBufLocked i b e))"
    "onward e0 now (setFailSafeLocked i fs ed t e)" "onward e0 now (fst (enqueueUDPLocked i pkt e))"
  using assms
  by (auto simp: kickWorker_def pushOut_def to_stack_def tcp_delete_def udp_delete_def takeQueueLocked_def dropQueueLocked_def
      releaseLiveLocked_def mod_sess_def sess_send_def sess_admit_def enqueueLocked_def enqueueBufLocked_def enqueueUDPLocked_def
      setFailSafeLocked_def Let_def intro!: onward_mod) (simp_all add: onward_def waits_del)

lemma onward_alloc:
  assumes "onward e0 now e" and "\<not> fl_submitted f" "now \<le> fl_deadline f" "n = e_next e"
  shows "onward e0 now ((tcp_store k n (fst (alloc_fl f e)))\<lparr>e_pending := x, e_pendingQ := e_pendingQ e @ [n]\<rparr>)"
    "onward e0 now ((udp_store p n (fst (alloc_fl f e)))\<lparr>e_pending := x, e_pendingQ := e_pendingQ e @ [n]\<rparr>)"
proof -
  have w: "waits_ok e0 now (e_tcp e) (e_udp e) (e_heap e) (e_pendingQ e) (e_inflight e)" using assms(1) by (simp add: onward_def)
  have "waits_ok e0 now ((e_tcp e)(k \<mapsto> n)) (e_udp e) ((e_heap e)(n := f)) (e_pendingQ e @ [n]) (e_inflight e)"
    "waits_ok e0 now (e_tcp e) ((e_udp e)(p \<mapsto> n)) ((e_heap e)(n := f)) (e_pendingQ e @ [n]) (e_inflight e)"
    by (rule waits_new [OF w assms(2,3)], blast)+
  then show "onward e0 now ((tcp_store k n (fst (alloc_fl f e)))\<lparr>e_pending := x, e_pendingQ := e_pendingQ e @ [n]\<rparr>)"
    "onward e0 now ((udp_store p n (fst (alloc_fl f e)))\<lparr>e_pending := x, e_pendingQ := e_pendingQ e @ [n]\<rparr>)"
    using assms(1,4) by (simp_all add: onward_def tcp_store_def udp_store_def alloc_fl_def)
qed

section \<open>The operations\<close>

lemma onward_lim: "onward e0 now e \<Longrightarrow> e_lim e = e_lim e0"
  by (simp add: onward_def)

lemma onward_enqueue_all: "onward e0 now e \<Longrightarrow> onward e0 now (enqueue_all i ps e)"
  by (induction ps arbitrary: e) (simp_all add: onward_small)

text \<open>From here on the time a flow may wait is not negative.\<close>

lemma onward_newTCP:
  assumes e: "onward e0 now e" and l: "0 \<le> lim_pendingTimeout (e_lim e0)"
  shows "onward e0 now (fst (newTCPLocked key isn pkt now prev e))"
  using e l onward_lim [OF e]
  by (auto simp: newTCPLocked_def Let_def case_prod_beta pending_flow_def intro!: onward_alloc onward_small)

lemma onward_newUDP:
  assumes e: "onward e0 now e" and l: "0 \<le> lim_pendingTimeout (e_lim e0)"
  shows "onward e0 now (fst (newUDPLocked port dst pkt now streak e))"
  using e l onward_lim [OF e]
  by (auto simp: newUDPLocked_def Let_def case_prod_beta pending_flow_def intro!: onward_alloc onward_small)

lemma onward_tcp_ops:
  assumes e: "onward e0 now e"
  shows "onward e0 now (fst (dropFlowLocked i e))" "onward e0 now (fst (abortLocked i t e))" "onward e0 now (fst (takeDialMark key e))"
    "onward e0 now (fst (attach i ep conn e))" "onward e0 now (fst (rulesChangedTCP rs' t k e))" "onward e0 now (fst (failSafeTCP t k e))"
    "onward e0 now (fst (shutdownTCP k e))" "onward e0 now (fst (drainNext i t e))" "onward e0 now (finishFlow i linger t e)"
    "onward e0 now (fst (scanTCP t k e))"
proof -
  show d: "onward e0 now (fst (dropFlowLocked i e))" for i
    using e by (auto simp: dropFlowLocked_def Let_def intro!: onward_mod onward_small)
  show ab: "onward e0 now (fst (abortLocked i t e))" for i
    using e by (auto simp: abortLocked_def Let_def intro!: onward_mod onward_small)
  show "onward e0 now (fst (takeDialMark key e))" using e by (auto simp: takeDialMark_def Let_def intro!: onward_mod split: option.split)
  show "onward e0 now (fst (attach i ep conn e))" using e by (auto simp: attach_def intro!: onward_mod)
  show "onward e0 now (fst (rulesChangedTCP rs' t k e))" using e ab by (auto simp: rulesChangedTCP_def case_prod_beta split: option.split)
  show "onward e0 now (fst (failSafeTCP t k e))" using e ab by (auto simp: failSafeTCP_def case_prod_beta split: option.split)
  show "onward e0 now (fst (shutdownTCP k e))" using e by (auto simp: shutdownTCP_def Let_def intro!: onward_mod split: option.split)
  show "onward e0 now (fst (drainNext i t e))" using e by (auto simp: drainNext_def Let_def case_prod_beta intro!: onward_mod)
  show "onward e0 now (finishFlow i linger t e)"
    using e by (auto simp: finishFlow_def Let_def intro!: onward_mod onward_small)
  show "onward e0 now (fst (scanTCP t k e))" using e d by (auto simp: scanTCP_def Let_def split: option.split)
qed

lemma onward_decideTCP:
  assumes "onward e0 now e" and "0 \<le> lim_pendingTimeout (e_lim e0)"
  shows "onward e0 now (fst (decideTCP info pkt now e))"
  using assms by (auto simp: decideTCP_def Let_def case_prod_beta intro!: onward_newTCP onward_small onward_tcp_ops split: option.split)

lemma onward_cases: "(c \<Longrightarrow> onward e0 now (fst x)) \<Longrightarrow> (\<not> c \<Longrightarrow> onward e0 now (fst y)) \<Longrightarrow> onward e0 now (fst (if c then x else y))"
  "(d \<Longrightarrow> onward e0 now e1) \<Longrightarrow> (\<not> d \<Longrightarrow> onward e0 now e2) \<Longrightarrow> onward e0 now (if d then e1 else e2)"
  "(o' = None \<Longrightarrow> onward e0 now (fst x)) \<Longrightarrow> (\<And>j. o' = Some j \<Longrightarrow> onward e0 now (fst (z j))) \<Longrightarrow>
    onward e0 now (fst (case o' of None \<Rightarrow> x | Some j \<Rightarrow> z j))"
  by (simp_all split: option.split)

lemma onward_udpLocked:
  assumes e: "onward e0 now e" and l: "0 \<le> lim_pendingTimeout (e_lim e0)"
  shows "onward e0 now (fst (udpLocked info pkt now frag e))"
proof -
  have m: "onward e0 now (mod_fl i (\<lambda>f. f\<lparr>fl_lastSeen := now\<rparr>) e)" for i using e by (rule onward_mod) simp_all
  have mm: "onward e0 now (mod_fl i (\<lambda>f. f\<lparr>fl_revalidating := True\<rparr>) e')" "onward e0 now (mod_fl i (\<lambda>f. f\<lparr>fl_holding := True, fl_holdDeadline := d\<rparr>) e')"
    if "onward e0 now e'" for i e' d using that by (rule onward_mod; simp)+
  show ?thesis
    unfolding udpLocked_def Let_def case_prod_beta
    by (intro onward_cases; (simp only: fst_conv)?; intro onward_small onward_newUDP onward_ext [THEN iffD2] mm m e l onward_cases)
qed

lemma onward_endSession: "onward e0 now e \<Longrightarrow> onward e0 now (fst (endSessionLocked i t e))"
  by (auto simp: endSessionLocked_def Let_def intro!: onward_mod onward_small split: option.split)

lemma onward_forget:
  assumes e: "onward e0 now e" and l: "0 \<le> lim_pendingTimeout (e_lim e0)"
  shows "onward e0 now (forgetUDPLocked i now e)"
proof -
  define e1 where "e1 = (if e_udp e (fk_port (fl_key (fl e i))) = Some i then udp_delete (fk_port (fl_key (fl e i))) e else e)"
  define e2 where "e2 = (if fl_state (fl e i) = StatePending then e1\<lparr>e_pending := e_pending e1 - 1\<rparr> else e1)"
  define e3 where "e3 = fst (takeQueueLocked i (mod_fl i (\<lambda>f. f\<lparr>fl_holding := False\<rparr>) e2))"
  have "onward e0 now e1" using e by (simp add: e1_def onward_small)
  then have "onward e0 now e2" by (simp add: e2_def)
  then have e3: "onward e0 now e3" unfolding e3_def by (intro onward_small onward_mod) simp_all
  then have l3: "0 \<le> lim_pendingTimeout (e_lim e3)" using l onward_lim by metis
  have "onward e0 now (kickWorker (enqueue_all (e_next e3) q ((udp_store p (e_next e3) (fst (alloc_fl f e3)))\<lparr>e_pending := x, e_pendingQ := e_pendingQ e3 @ [e_next e3]\<rparr>)))"
    if "\<not> fl_submitted f" "now \<le> fl_deadline f" for q p f x
    using onward_alloc(2) [OF e3 that, where n = "e_next e3" and p = p and x = x] by (intro onward_small onward_enqueue_all) simp
  moreover have "e_pendingQ (fst (alloc_fl f e3)) = e_pendingQ e3" for f by (simp add: alloc_fl_def)
  ultimately show ?thesis
    unfolding forgetUDPLocked_def Let_def case_prod_beta e1_def [symmetric] e2_def [symmetric] e3_def [symmetric]
    using e3 l3 by (simp add: pending_flow_def)
qed

lemma onward_failSafeUDPLocked: "onward e0 now e \<Longrightarrow> onward e0 now (fst (failSafeUDPLocked i t ed e))"
  by (auto simp: failSafeUDPLocked_def Let_def case_prod_beta intro!: onward_mod onward_small)

lemma onward_plain_ops:
  assumes e: "onward e0 now e"
  shows "onward e0 now (fst (retireToTunnelLocked i t e))" "onward e0 now (fst (listenDone s err t e))" "onward e0 now (toSession s b t e)"
    "onward e0 now (handleUDP v app port dst pl t e)" "onward e0 now (fst (failSafeUDP t p e))" "onward e0 now (fst (shutdownUDP t p e))"
    "onward e0 now (fst (sweepHold t i e))" "onward e0 now (fst (validate_take ready t e))" "onward e0 now (deliver q k t e)"
    "onward e0 now (fst (resolveTCP i res cl t e))"
proof -
  show r: "onward e0 now (fst (retireToTunnelLocked i t e))" for i
    using e by (simp add: retireToTunnelLocked_def case_prod_beta Let_def onward_failSafeUDPLocked onward_endSession)
  show "onward e0 now (fst (listenDone s err t e))"
    using e by (auto simp: listenDone_def Let_def intro!: onward_failSafeUDPLocked onward_endSession)
  have ts: "onward e0 now (toSession s b t e)" if "onward e0 now e" for s b e
    using that by (auto simp: toSession_def Let_def split: option.split)
  show "onward e0 now (toSession s b t e)" by (rule ts [OF e])
  show "onward e0 now (handleUDP v app port dst pl t e)" using e by (auto simp: handleUDP_def split: option.split)
  show "onward e0 now (fst (failSafeUDP t p e))"
    using e by (simp add: failSafeUDP_def case_prod_beta Let_def onward_failSafeUDPLocked onward_endSession split: option.split)
  show "onward e0 now (fst (shutdownUDP t p e))"
    using e by (simp add: shutdownUDP_def case_prod_beta Let_def onward_small onward_endSession split: option.split)
  show "onward e0 now (fst (sweepHold t i e))" using e r by (simp add: sweepHold_def case_prod_beta Let_def)
  show "onward e0 now (fst (validate_take ready t e))" using e by (simp add: validate_take_def)
  show "onward e0 now (deliver q k t e)"
    using e ts by (induction q arbitrary: e) (simp_all add: deliver_def deliver1_def onward_small split: sink.split)
  have "waits_ok e0 now (e_tcp e) (e_udp e) ((e_heap e)(i := f)) (e_pendingQ e) (e_inflight e)"
    if "fl_state f \<noteq> StatePending" "fl_proto f = fl_proto (e_heap e i)" "fl_key f = fl_key (e_heap e i)" for f
    using e that by (intro waits_upd) (auto simp: onward_def)
  then show "onward e0 now (fst (resolveTCP i res cl t e))"
    using e by (simp add: resolveTCP_def Let_def takeQueueLocked_def onward_def fl_def)
qed

lemma onward_resolveUDP:
  assumes e: "onward e0 now e"
  shows "onward e0 now (fst (resolveUDP i res cl snapAt t e))"
proof -
  have w: "waits_ok e0 now (e_tcp e) (e_udp e) ((e_heap e)(i := f)) (e_pendingQ e) (e_inflight e)"
    if "fl_state f \<noteq> StatePending" "fl_proto f = fl_proto (e_heap e i)" "fl_key f = fl_key (e_heap e i)" for f
    using e that by (intro waits_upd) (auto simp: onward_def)
  have v: "onward e0 now (revalidatedLocked i res cl snapAt t e)" if "fl_state (e_heap e i) = StateTunnel"
    using e that w by (simp add: revalidatedLocked_def Let_def onward_def fl_def startSessionLocked_def split: option.split)
  show ?thesis
    using e w v by (simp add: resolveUDP_def Let_def takeQueueLocked_def onward_def fl_def startSessionLocked_def setFailSafeLocked_def)
qed

lemma onward_resolveAt: "onward e0 now e \<Longrightarrow> onward e0 now (fst (resolveAt i res cl snapAt t e))"
  using onward_resolveUDP [of e0 now e i res cl snapAt t] onward_plain_ops(10) [of e0 now e i res cl t]
  by (auto simp: resolveAt_def case_prod_beta split: option.split prod.split)

lemma onward_udp_ops:
  assumes e: "onward e0 now e" and l: "0 \<le> lim_pendingTimeout (e_lim e0)"
  shows "onward e0 now (fst (validateFlow snapAt now fso e))" "onward e0 now (fst (rulesChangedUDP rs' now p e))"
    "onward e0 now (fst (scanUDP now p e))" "onward e0 now (sessionFailed s now e)" "onward e0 now (fst (decideUDP info pkt now e))"
proof -
  show "onward e0 now (fst (validateFlow snapAt now fso e))"
    using e by (auto simp: validateFlow_def case_prod_beta Let_def intro!: onward_mod onward_small onward_forget onward_endSession l)
  show "onward e0 now (fst (rulesChangedUDP rs' now p e))"
    using e by (auto simp: rulesChangedUDP_def case_prod_beta Let_def intro!: onward_small onward_forget onward_endSession l split: option.split)
  show "onward e0 now (fst (scanUDP now p e))"
    using e onward_plain_ops(1) [OF e]
    by (auto simp: scanUDP_def case_prod_beta Let_def intro!: onward_small onward_forget onward_endSession l split: option.split)
  show "onward e0 now (sessionFailed s now e)"
    using e by (auto simp: sessionFailed_def Let_def intro!: onward_forget onward_endSession l)
  show "onward e0 now (fst (decideUDP info pkt now e))"
    using e by (auto simp: decideUDP_def case_prod_beta Let_def intro!: onward_udpLocked l)
qed

lemma onward_release_held: "onward e0 now e \<Longrightarrow> onward e0 now (fst (release_held kind f q ps sp e))"
  by (induction kind f q ps sp e rule: release_held.induct) (auto split: option.split)

lemma onward_addFrag: "onward e0 now e \<Longrightarrow> onward e0 now (fst (addFragLocked r sp e))"
  by (simp add: addFragLocked_def case_prod_beta split: option.split prod.split)

lemma onward_laterFrag: "onward e0 now e \<Longrightarrow> onward e0 now (fst (laterFrag r pkt sp e))"
  by (auto simp: laterFrag_def collectLocked_def Let_def case_prod_beta split: frag_kind.split option.split)

lemma onward_firstFrag:
  assumes "onward e0 now e" and "0 \<le> lim_pendingTimeout (e_lim e0)"
  shows "onward e0 now (fst (firstFragLocked key r0 info pkt now e))"
proof -
  have v: "onward e0 now e' \<Longrightarrow> onward e0 now (fst (first_verdict info pkt now e'))" for e'
    using onward_udpLocked [OF _ assms(2)] by (simp add: first_verdict_def)
  show ?thesis
    using assms(1) by (cases r0) (simp_all add: firstFragLocked_def Let_def case_prod_beta v onward_release_held onward_addFrag)
qed

lemma onward_route:
  assumes e: "onward e0 now e" and l: "0 \<le> lim_pendingTimeout (e_lim e0)"
  shows "onward e0 now (fst (route pkt now keep e))"
proof -
  have fr: "onward e0 now (fst (decideFrag info pkt now e))" for info
    using e by (simp add: decideFrag_def Let_def case_prod_beta onward_firstFrag l onward_laterFrag onward_addFrag split: option.split)
  have ic: "onward e0 now (fst (decideICMP info pkt now e))" for info
    using e by (simp add: decideICMP_def Let_def case_prod_beta split: option.split)
  have d: "onward e0 now (fst (decide pkt now e))"
    using e by (simp add: decide_def Let_def case_prod_beta fr ic onward_decideTCP onward_udp_ops l split: option.split)
  have "onward e0 now e' \<Longrightarrow> onward e0 now (flushSpill sp e')" for sp e'
    by (induction sp e' rule: flushSpill.induct) (simp_all add: onward_small split: action.split)
  then show ?thesis using d by (simp add: route_def Let_def case_prod_beta onward_small split: action.split)
qed

section \<open>Loops\<close>

lemma onward_map_loop: "(\<And>k e. onward e0 now e \<Longrightarrow> onward e0 now (fst (g k e))) \<Longrightarrow> onward e0 now e \<Longrightarrow> onward e0 now (fst (map_loop g ks e))"
  by (induction ks arbitrary: e) (simp_all add: case_prod_beta)

lemma onward_udp_loop: "(\<And>k e. onward e0 now e \<Longrightarrow> onward e0 now (fst (g k e))) \<Longrightarrow> onward e0 now e \<Longrightarrow> onward e0 now (fst (udp_loop g ks e))"
  by (induction ks arbitrary: e) (simp_all add: case_prod_beta)

lemma onward_sweepHolds: "onward e0 now e \<Longrightarrow> onward e0 now (fst (sweepHoldsLocked t is kept e))"
  by (induction "is" arbitrary: kept e) (simp_all add: case_prod_beta onward_plain_ops)

lemma onward_big:
  assumes e: "onward e0 now e" and l: "0 \<le> lim_pendingTimeout (e_lim e0)"
  shows "onward e0 now (fst (rulesChanged rs ks ps now e))" "onward e0 now (fst (failSafe_locked ks ps now e))"
    "onward e0 now (fst (shutdown_locked ks ps now e))"
proof -
  show "onward e0 now (fst (rulesChanged rs ks ps now e))"
    unfolding rulesChanged_def Let_def case_prod_beta fst_conv by (intro onward_map_loop onward_tcp_ops onward_udp_ops l e)
  show "onward e0 now (fst (failSafe_locked ks ps now e))"
    unfolding failSafe_locked_def Let_def case_prod_beta fst_conv by (intro onward_map_loop onward_tcp_ops onward_plain_ops e)
  show "onward e0 now (fst (shutdown_locked ks ps now e))"
    unfolding shutdown_locked_def Let_def case_prod_beta fst_conv onward_ext by (intro onward_map_loop onward_tcp_ops onward_plain_ops) (simp_all add: e)
qed

section \<open>Every waiting flow is the worker's\<close>

lemma env_closed: "env e' = env e \<Longrightarrow> e_closed e' = e_closed e"
  by (simp add: env_def)

definition tracked :: "engine \<Rightarrow> bool" where
  "tracked e \<longleftrightarrow> e_closed e \<or> (\<forall>i. wanted_verdict e i \<longrightarrow> (i \<in> set (e_pendingQ e) \<and> \<not> fl_submitted (fl e i)) \<or> i \<in> set (e_inflight e))"

lemma onward_tracked: "onward e now e' \<Longrightarrow> tracked e \<Longrightarrow> e_closed e' = e_closed e \<Longrightarrow> tracked e'"
  unfolding tracked_def onward_def waits_ok_def wanted_wants [of e'] fl_def
  by (metis fl_def subsetD)

lemma take_loop_pending:
  shows "wanted_verdict (fst (take_loop mx wanted_pending is b e)) i \<longleftrightarrow> wanted_verdict e i"
    and "fl_deadline (fl (fst (take_loop mx w is b e)) i) = fl_deadline (fl e i)"
    and "set b \<subseteq> set (fst (snd (take_loop mx w is b e)))"
    and "wanted_verdict e i \<Longrightarrow> i \<in> set is \<Longrightarrow> \<not> fl_submitted (fl e i) \<Longrightarrow>
      i \<in> set (fst (snd (take_loop mx wanted_pending is b e))) \<or>
      (i \<in> set (snd (snd (take_loop mx wanted_pending is b e))) \<and> \<not> fl_submitted (fl (fst (take_loop mx wanted_pending is b e)) i))"
proof -
  have m: "wanted_verdict (mod_fl j (\<lambda>f. f\<lparr>fl_submitted := True\<rparr>) e) i = wanted_verdict e i" for j e
    by (simp add: wanted_verdict_def currentLocked_def fl_def)
  have c: "currentLocked (mod_fl j (\<lambda>f. f\<lparr>fl_submitted := True\<rparr>) e) i = currentLocked e i" for j e
    by (simp add: currentLocked_def fl_def)
  show "wanted_verdict (fst (take_loop mx wanted_pending is b e)) i \<longleftrightarrow> wanted_verdict e i"
    by (induction "is" arbitrary: b e) (simp_all add: m)
  show "fl_deadline (fl (fst (take_loop mx w is b e)) i) = fl_deadline (fl e i)"
    by (induction "is" arbitrary: b e) (simp_all add: fl_def)
  show sub: "set b \<subseteq> set (fst (snd (take_loop mx w is b e)))" for w "is" b e
  proof (induction "is" arbitrary: b e)
    case (Cons j "is")
    show ?case using Cons [of b e] Cons [of "b @ [j]" "mod_fl j (\<lambda>f. f\<lparr>fl_submitted := True\<rparr>) e"] by simp
  qed simp
  show "wanted_verdict e i \<Longrightarrow> i \<in> set is \<Longrightarrow> \<not> fl_submitted (fl e i) \<Longrightarrow>
      i \<in> set (fst (snd (take_loop mx wanted_pending is b e))) \<or>
      (i \<in> set (snd (snd (take_loop mx wanted_pending is b e))) \<and> \<not> fl_submitted (fl (fst (take_loop mx wanted_pending is b e)) i))"
  proof (induction "is" arbitrary: b e)
    case (Cons j "is")
    let ?e = "mod_fl j (\<lambda>f. f\<lparr>fl_submitted := True\<rparr>) e"
    show ?case
    proof (cases "mx \<le> int (length b)")
      case True
      then show ?thesis using Cons.prems by simp
    next
      case room: False
      show ?thesis
      proof (cases "j = i")
        case True
        then have "wanted_pending e i" using Cons.prems by (simp add: wanted_pending_def wanted_verdict_def)
        then show ?thesis using True room sub [of "b @ [i]" wanted_pending "is" ?e] by simp
      next
        case False
        have "fl_submitted (fl ?e i) = fl_submitted (fl e i)" using False by (simp add: fl_def)
        then show ?thesis using False room Cons.IH [of e b] Cons.IH [of ?e "b @ [j]"] Cons.prems m [of j e] by simp
      qed
    qed
  qed simp
qed

lemma wanted_ext [simp]:
  "wanted_verdict (e\<lparr>e_pendingQ := q1\<rparr>) i = wanted_verdict e i" "wanted_verdict (e\<lparr>e_revalQ := q2\<rparr>) i = wanted_verdict e i"
  "wanted_verdict (e\<lparr>e_inflight := q3\<rparr>) i = wanted_verdict e i" "wanted_verdict (e\<lparr>e_lastScan := t\<rparr>) i = wanted_verdict e i"
  "wanted_verdict (compactPendingLocked e) i = wanted_verdict e i"
  by (simp_all add: wanted_verdict_def currentLocked_def fl_def compactPendingLocked_def)

lemma fl_ext [simp]: "fl (e\<lparr>e_pendingQ := q1\<rparr>) i = fl e i" "fl (e\<lparr>e_revalQ := q2\<rparr>) i = fl e i" "fl (e\<lparr>e_inflight := q3\<rparr>) i = fl e i"
  "fl (e\<lparr>e_lastScan := t\<rparr>) i = fl e i" "fl (compactPendingLocked e) i = fl e i"
  by (simp_all add: fl_def compactPendingLocked_def)

lemma take_loop_reval:
  "wanted_verdict (fst (take_loop mx wanted_reval is b e)) i \<longleftrightarrow> wanted_verdict e i"
  "fl_state (fl e i) = StatePending \<Longrightarrow> fl_submitted (fl (fst (take_loop mx wanted_reval is b e)) i) = fl_submitted (fl e i)"
proof -
  have m: "wanted_verdict (mod_fl j (\<lambda>f. f\<lparr>fl_submitted := True\<rparr>) e) i = wanted_verdict e i" for j e
    by (simp add: wanted_verdict_def currentLocked_def fl_def)
  show "wanted_verdict (fst (take_loop mx wanted_reval is b e)) i \<longleftrightarrow> wanted_verdict e i"
    by (induction "is" arbitrary: b e) (simp_all add: m)
  show "fl_state (fl e i) = StatePending \<Longrightarrow> fl_submitted (fl (fst (take_loop mx wanted_reval is b e)) i) = fl_submitted (fl e i)"
  proof (induction "is" arbitrary: b e)
    case (Cons j "is")
    have "wanted_reval e j \<Longrightarrow> j \<noteq> i" using Cons.prems by (auto simp: wanted_reval_def)
    then show ?case
      using Cons.IH [of e b] Cons.IH [of "mod_fl j (\<lambda>f. f\<lparr>fl_submitted := True\<rparr>) e" "b @ [j]"] Cons.prems by (auto simp: fl_def)
  qed simp
qed

lemma tracked_takeBatch:
  assumes "tracked e" and "e_inflight e = []"
  shows "tracked (fst (takeBatch e))"
proof (cases "e_closed e")
  case False
  define l1 where "l1 = take_loop (lim_batch (e_lim e)) wanted_pending (e_pendingQ e) [] e"
  define l2 where "l2 = take_loop (lim_batch (e_lim e)) wanted_reval (e_revalQ (fst l1)) (fst (snd l1)) ((fst l1)\<lparr>e_pendingQ := snd (snd l1)\<rparr>)"
  have eq: "fst (takeBatch e) = (fst l2)\<lparr>e_revalQ := snd (snd l2), e_inflight := fst (snd l2)\<rparr>"
    using False by (simp add: takeBatch_def Let_def case_prod_beta l1_def l2_def)
  have pq: "e_pendingQ (fst (take_loop mx w is b e')) = e_pendingQ e'" for mx w "is" b e'
    by (induction "is" arbitrary: b e') simp_all
  have "(i \<in> set (snd (snd l1)) \<and> \<not> fl_submitted (fl (fst l2) i)) \<or> i \<in> set (fst (snd l2))" if w: "wanted_verdict (fst l2) i" for i
  proof -
    have w1: "wanted_verdict (fst l1) i"
      using w take_loop_reval(1) [of "lim_batch (e_lim e)" "e_revalQ (fst l1)" "fst (snd l1)" "(fst l1)\<lparr>e_pendingQ := snd (snd l1)\<rparr>" i]
      by (simp add: l2_def)
    then have w0: "wanted_verdict e i" unfolding l1_def by (simp add: take_loop_pending(1))
    then have "i \<in> set (e_pendingQ e)" "\<not> fl_submitted (fl e i)" using assms False by (auto simp: tracked_def)
    then have "i \<in> set (fst (snd l1)) \<or> (i \<in> set (snd (snd l1)) \<and> \<not> fl_submitted (fl (fst l1) i))"
      using take_loop_pending(4) [OF w0, of "e_pendingQ e" "lim_batch (e_lim e)" "[]"] by (simp add: l1_def)
    moreover have "set (fst (snd l1)) \<subseteq> set (fst (snd l2))" unfolding l2_def by (rule take_loop_pending(3))
    moreover have "fl_submitted (fl (fst l2) i) = fl_submitted (fl (fst l1) i)"
      using w1 take_loop_reval(2) [of "(fst l1)\<lparr>e_pendingQ := snd (snd l1)\<rparr>" i] by (simp add: l2_def wanted_verdict_def)
    ultimately show ?thesis by blast
  qed
  then show ?thesis
    using pq [of "lim_batch (e_lim e)" wanted_reval "e_revalQ (fst l1)" "fst (snd l1)" "(fst l1)\<lparr>e_pendingQ := snd (snd l1)\<rparr>"]
    by (simp add: tracked_def eq l2_def)
qed (simp add: takeBatch_def assms)

lemma tracked_compact: "tracked e \<Longrightarrow> tracked (compactPendingLocked e)"
  by (auto simp: tracked_def) (auto simp: compactPendingLocked_def wanted_pending_def wanted_verdict_def)

text \<open>The flows that are past their deadline.\<close>

definition late :: "time \<Rightarrow> engine \<Rightarrow> nat set" where
  "late now e = {i. wanted_verdict e i \<and> fl_deadline (fl e i) < now}"

lemma onward_late: "onward e now e' \<Longrightarrow> late now e' \<subseteq> late now e"
  unfolding late_def onward_def waits_ok_def wanted_wants [of e'] fl_def by fastforce

lemma late_overdue: "tracked e \<Longrightarrow> \<not> e_closed e \<Longrightarrow> late now e \<subseteq> set (overdue now e)"
  by (auto simp: late_def tracked_def overdue_def wanted_verdict_def)

lemma late_compact: "late now (compactPendingLocked e) = late now e"
  by (simp add: late_def)

lemma sweep_waits:
  assumes l: "0 \<le> lim_pendingTimeout (e_lim e)"
  shows "late now (fst (sweep_locked ks ps now e)) \<subseteq> late now e" "tracked e \<Longrightarrow> tracked (fst (sweep_locked ks ps now e))"
    "sw_expired (snd (sweep_locked ks ps now e)) = overdue now e"
proof -
  define e1 where "e1 = fst (sweepHoldsLocked now (e_holdQ e) [] e)"
  define t where "t = foldl (\<lambda>t r. fst (ft_takeHeld r t)) (fst (ft_expired now (e_frags e1))) (snd (ft_expired now (e_frags e1)))"
  define e2 where "e2 = e1\<lparr>e_frags := t\<rparr>"
  define e3 where "e3 = (if e_udpLive e2 \<noteq> [] \<and> lim_validateEvery (e_lim e2) \<le> now - e_lastValidate e2 then kickWorker (e2\<lparr>e_valDue := True\<rparr>) else e2)"
  define e4 where "e4 = compactPendingLocked (e3\<lparr>e_lastScan := now\<rparr>)"
  define e5 where "e5 = fst (map_loop (scanTCP now) ks e4)"
  define e6 where "e6 = e5\<lparr>e_tunnelTCP := fc_sweep (e_tunnelTCP e5) now, e_endedTCP := fc_sweep (e_endedTCP e5) now, e_endedUDP := fc_sweep (e_endedUDP e5) now\<rparr>"
  have eq: "fst (sweep_locked ks ps now e) = (if now - e_lastScan e3 < lim_scanEvery (e_lim e3) then e3 else fst (udp_loop (scanUDP now) ps e6))"
    unfolding sweep_locked_def Let_def case_prod_beta e1_def [symmetric] t_def [symmetric] e2_def [symmetric] e3_def [symmetric]
      e4_def [symmetric] e5_def [symmetric] e6_def [symmetric] by simp
  have o1: "onward e now e1" unfolding e1_def by (rule onward_sweepHolds) simp
  have o3: "onward e now e3" using o1 by (simp add: e3_def e2_def onward_small)
  have "e_lim e4 = e_lim e" using onward_lim [OF o3] by (simp add: e4_def compactPendingLocked_def)
  then have l4: "0 \<le> lim_pendingTimeout (e_lim e4)" using l by simp
  have o6: "onward e4 now e6" unfolding e6_def onward_ext e5_def by (intro onward_map_loop onward_tcp_ops) simp_all
  have o7: "onward e4 now (fst (udp_loop (scanUDP now) ps e6))"
    by (rule onward_udp_loop [OF _ o6]) (rule onward_udp_ops(3) [OF _ l4])
  have lt: "late now (e3\<lparr>e_lastScan := now\<rparr>) = late now e3"
    by (simp add: late_def)
  show "late now (fst (sweep_locked ks ps now e)) \<subseteq> late now e"
    using onward_late [OF o3] onward_late [OF o7] by (auto simp: eq e4_def late_compact lt)
  have en: "e_closed e3 = e_closed e" by (rule env_closed) (simp add: e3_def e2_def e1_def)
  have en7: "e_closed (fst (udp_loop (scanUDP now) ps e6)) = e_closed e4" by (rule env_closed) (simp add: e6_def e5_def env_udp_loop env_map_loop)
  show "tracked (fst (sweep_locked ks ps now e))" if "tracked e"
  proof -
    have t3: "tracked e3" by (rule onward_tracked [OF o3 that en])
    then have "tracked (e3\<lparr>e_lastScan := now\<rparr>)" by (simp add: tracked_def)
    then have "tracked e4" unfolding e4_def by (rule tracked_compact)
    then show ?thesis using t3 onward_tracked [OF o7 _ en7] by (simp add: eq)
  qed
  show "sw_expired (snd (sweep_locked ks ps now e)) = overdue now e"
    by (simp add: sweep_locked_def Let_def case_prod_beta)
qed

lemma step_tracked:
  assumes "engine_step e e'" and "0 \<le> lim_pendingTimeout (e_lim e)" and "tracked e"
  shows "tracked e'"
  using assms
proof (induction rule: engine_step.induct)
  case (batch e)
  then show ?case by (intro tracked_takeBatch)
next
  case (batch_done e)
  then show ?case by (auto simp: tracked_def)
next
  case (sweep e ks ps now)
  then show ?case by (intro sweep_waits(2))
next
  case (shutdown e ks ps now)
  have "e_closed (fst (shutdown_locked ks ps now e))"
  proof -
    have "env (fst (map_loop (shutdownUDP now) ps (fst (map_loop shutdownTCP ks (e\<lparr>e_closed := True\<rparr>))))) = env (e\<lparr>e_closed := True\<rparr>)"
      by (simp add: env_map_loop)
    from env_closed [OF this] show ?thesis by (simp add: shutdown_locked_def Let_def case_prod_beta)
  qed
  then show ?case by (simp add: tracked_def)
next
  case (packet e pkt now keep)
  show ?case by (rule onward_tracked [OF onward_route [OF onward_refl packet(1)] packet(2) env_closed]) simp
next
  case (outbound_read e n)
  then show ?case by (simp add: tracked_def wanted_wants fl_def)
next
  case (resolve res cl e i snapAt now)
  show ?case by (rule onward_tracked [OF onward_resolveAt [OF onward_refl] resolve(3) env_closed]) simp
next
  case (deliver e q k now)
  show ?case by (rule onward_tracked [OF onward_plain_ops(9) [OF onward_refl] deliver(2) env_closed]) simp
next
  case (drain e i now)
  show ?case by (rule onward_tracked [OF onward_tcp_ops(8) [OF onward_refl] drain(2) env_closed]) simp
next
  case (dial_mark e key)
  show ?case by (rule onward_tracked [OF onward_tcp_ops(3) [OF onward_refl] dial_mark(2) env_closed]) simp
next
  case (attach e i ep conn)
  show ?case by (rule onward_tracked [OF onward_tcp_ops(4) [OF onward_refl] attach(2) env_closed]) simp
next
  case (finish i e linger now)
  show ?case by (rule onward_tracked [OF onward_tcp_ops(9) [OF onward_refl] finish(3) env_closed]) simp
next
  case (session e s op)
  show ?case by (rule onward_tracked [OF onward_small(9) [OF onward_refl] session(2) env_closed]) simp
next
  case (listen e s err now)
  show ?case by (rule onward_tracked [OF onward_plain_ops(2) [OF onward_refl] listen(2) env_closed]) simp
next
  case (session_failed e s now)
  show ?case by (rule onward_tracked [OF onward_udp_ops(4) [OF onward_refl session_failed(1)] session_failed(2) env_closed]) simp
next
  case (reassembled e valid app port dst payload now)
  show ?case by (rule onward_tracked [OF onward_plain_ops(4) [OF onward_refl] reassembled(2) env_closed]) simp
next
  case (validate_begin e ready now)
  show ?case by (rule onward_tracked [OF onward_plain_ops(8) [OF onward_refl] validate_begin(2) env_closed]) simp
next
  case (validated e i snapAt now sess ok)
  show ?case by (rule onward_tracked [OF onward_udp_ops(1) [OF onward_refl validated(2)] validated(3) env_closed]) simp
next
  case (new_rules e ks ps rs now)
  have "onward (e\<lparr>e_rules := rs\<rparr>) now (fst (rulesChanged rs ks ps now (e\<lparr>e_rules := rs\<rparr>)))"
    using new_rules(3) by (intro onward_big(1)) simp_all
  moreover have "tracked (e\<lparr>e_rules := rs\<rparr>)" using new_rules(4) by (simp add: tracked_def wanted_wants fl_def)
  ultimately show ?case by (rule onward_tracked) (rule env_closed, simp)
next
  case (gate e p d o')
  then show ?case by (simp add: tracked_def wanted_wants fl_def)
next
  case (fail_safe e ks ps now)
  show ?case by (rule onward_tracked [OF onward_big(2) [OF onward_refl fail_safe(3)] fail_safe(4) env_closed]) simp
qed

lemma reachable_tracked: "engine_reachable lim e \<Longrightarrow> 0 \<le> lim_pendingTimeout lim \<Longrightarrow> tracked e"
proof (induction rule: engine_reachable.induct)
  case (start addr dns rs)
  show ?case by (simp add: tracked_def wanted_verdict_def currentLocked_def newEngine_def fl_def)
next
  case (step e e')
  then show ?case using step_tracked reachable_lim by metis
qed

section \<open>Drains return\<close>

text \<open>The loop of drain, with nothing else running: deliver, then take what was queued meanwhile.\<close>

partial_function (option) drain :: "nat \<Rightarrow> packet_buf list \<Rightarrow> sink \<Rightarrow> time \<Rightarrow> engine \<Rightarrow> engine option" where
  "drain i q k now e = (case drainNext i now (deliver q k now e) of
       (e1, None) \<Rightarrow> Some e1
     | (e1, Some (q1, k1)) \<Rightarrow> drain i q1 k1 now e1)"

lemma deliver_flows [simp]: "e_heap (deliver q k now e) = e_heap e" "e_tcp (deliver q k now e) = e_tcp e" "e_udp (deliver q k now e) = e_udp e"
  "e_closed (deliver q k now e) = e_closed e"
proof -
  have "e_heap (deliver1 k now p e) = e_heap e \<and> e_tcp (deliver1 k now p e) = e_tcp e \<and> e_udp (deliver1 k now p e) = e_udp e \<and>
      e_closed (deliver1 k now p e) = e_closed e" for p e
    by (simp add: deliver1_def to_stack_def pushOut_def toSession_def sess_send_def sess_admit_def mod_sess_def split: sink.split option.split)
  then show "e_heap (deliver q k now e) = e_heap e" "e_tcp (deliver q k now e) = e_tcp e" "e_udp (deliver q k now e) = e_udp e"
    "e_closed (deliver q k now e) = e_closed e"
    by (induction q arbitrary: e) (simp_all add: deliver_def)
qed

lemma drain_returns: "\<exists>e'. drain i q k now e = Some e' \<and> (\<forall>e0 t. onward e0 t e \<longrightarrow> onward e0 t e') \<and> env e' = env e \<and>
    (\<not> e_closed e \<and> currentLocked e i \<longrightarrow> fl_queue (fl e' i) = [] \<and> \<not> fl_draining (fl e' i))"
proof -
  define e1 where "e1 = fst (drainNext i now (deliver q k now e))"
  have o1: "onward e0 t e \<Longrightarrow> onward e0 t e1" for e0 t unfolding e1_def by (intro onward_tcp_ops onward_plain_ops)
  have n1: "env e1 = env e" by (simp add: e1_def)
  have c: "currentLocked (deliver q k now e) i = currentLocked e i" by (simp add: currentLocked_def fl_def)
  show ?thesis
  proof (cases "snd (drainNext i now (deliver q k now e))")
    case None
    then have "drain i q k now e = Some e1" by (subst drain.simps) (simp add: e1_def case_prod_beta)
    moreover have "\<not> e_closed e \<and> currentLocked e i \<longrightarrow> fl_queue (fl e1 i) = [] \<and> \<not> fl_draining (fl e1 i)"
      using None c by (auto simp: e1_def drainNext_def Let_def case_prod_beta fl_def tcp_delete_def split: if_splits)
    ultimately show ?thesis using o1 n1 by blast
  next
    case (Some qk)
    then have open_: "\<not> e_closed e" "currentLocked e i" and e1: "e1 = fst (takeQueueLocked i (deliver q k now e))"
      using c by (auto simp: e1_def drainNext_def Let_def case_prod_beta split: if_splits)
    define e2 where "e2 = fst (drainNext i now (deliver (fst qk) (snd qk) now e1))"
    have q0: "fl_queue (fl (deliver (fst qk) (snd qk) now e1) i) = []"
      by (simp add: fl_def e1 takeQueueLocked_def)
    have cur: "currentLocked (deliver (fst qk) (snd qk) now e1) i"
      using open_(2) by (auto simp: currentLocked_def fl_def e1 takeQueueLocked_def split: if_splits)
    have "\<not> e_closed e1" using open_(1) n1 env_closed by metis
    then have none: "snd (drainNext i now (deliver (fst qk) (snd qk) now e1)) = None" "fl_queue (fl e2 i) = []" "\<not> fl_draining (fl e2 i)"
      using q0 cur by (auto simp: e2_def drainNext_def Let_def fl_def tcp_delete_def)
    have "drain i (fst qk) (snd qk) now e1 = Some e2" using none(1) by (subst drain.simps) (simp add: e2_def case_prod_beta)
    then have "drain i q k now e = Some e2" using Some by (subst drain.simps) (simp add: e1_def case_prod_beta)
    moreover have "onward e0 t e \<Longrightarrow> onward e0 t e2" for e0 t unfolding e2_def by (intro onward_tcp_ops onward_plain_ops o1)
    moreover have "env e2 = env e" using n1 by (simp add: e2_def)
    ultimately show ?thesis using none by blast
  qed
qed

end
