(* ===== verification/Engine_Reactions.thy ===== *)
theory Engine_Reactions
  imports Engine_Rules Engine_Deadlines
begin

text \<open>The sweep and the fail-safe as a whole: the locked part, the drains and the verdicts that follow it.\<close>

section \<open>Drains and verdicts in a row\<close>

fun drain_all :: "time \<Rightarrow> drain_job list \<Rightarrow> engine \<Rightarrow> engine option" where
  "drain_all now [] e = Some e"
| "drain_all now ((i, q, k) # js) e = Option.bind (drain i q k now e) (drain_all now js)"

text \<open>engine.resolve: a verdict, with its drain.\<close>

definition resolve :: "nat \<Rightarrow> match_result \<Rightarrow> rule_set option \<Rightarrow> time \<Rightarrow> engine \<Rightarrow> engine option" where
  "resolve i res cl now e = (case resolveAt i res cl now now e of (e1, _, jobs, _) \<Rightarrow> drain_all now jobs e1)"

fun resolve_all :: "time \<Rightarrow> nat list \<Rightarrow> engine \<Rightarrow> engine option" where
  "resolve_all now [] e = Some e"
| "resolve_all now (i # is) e = Option.bind (resolve i no_result None now e) (resolve_all now is)"

definition engine_sweep :: "flow_key list \<Rightarrow> nat list \<Rightarrow> time \<Rightarrow> engine \<Rightarrow> engine option" where
  "engine_sweep ks ps now e =
    (let (e1, sw) = sweep_locked ks ps now e; e2 = foldl (\<lambda>e p. pushOut p e) e1 (sw_flush sw)
     in Option.bind (drain_all now (map (\<lambda>(i, q). (i, q, SinkOut)) (sw_drains sw)) e2) (resolve_all now (sw_expired sw)))"

text \<open>What such a row keeps: whatever is kept by delivering, by the drain step and by a fail-safe verdict.\<close>

lemma drain_all_returns: "\<exists>e'. drain_all now js e = Some e' \<and> (\<forall>e0 t. onward e0 t e \<longrightarrow> onward e0 t e') \<and> env e' = env e"
proof (induction js arbitrary: e)
  case (Cons j js)
  obtain i q k where j: "j = (i, q, k)" by (cases j)
  obtain e1 where e1: "drain i q k now e = Some e1" "\<forall>e0 t. onward e0 t e \<longrightarrow> onward e0 t e1" "env e1 = env e"
    using drain_returns [of i q k now e] by blast
  obtain e2 where e2: "drain_all now js e1 = Some e2" "\<forall>e0 t. onward e0 t e1 \<longrightarrow> onward e0 t e2" "env e2 = env e1"
    using Cons.IH [of e1] by blast
  show ?case using e1 e2 by (intro exI [of _ e2]) (simp add: j)
qed simp

lemma resolveAt_done: "\<not> e_closed e \<Longrightarrow> \<not> wanted_verdict (fst (resolveAt i res cl snapAt now e)) i"
proof -
  assume c: "\<not> e_closed e"
  have "\<not> wanted_verdict (fst (resolveTCP i res cl now e)) i"
    using c by (auto simp: resolveTCP_def Let_def takeQueueLocked_def wanted_verdict_def fl_def)
  moreover have "\<not> wanted_verdict (fst (resolveUDP i res cl snapAt now e)) i"
    using c by (auto simp: resolveUDP_def Let_def takeQueueLocked_def wanted_verdict_def fl_def revalidatedLocked_def startSessionLocked_def
        setFailSafeLocked_def split: option.split)
  ultimately show ?thesis by (auto simp: resolveAt_def case_prod_beta split: option.split prod.split)
qed

lemma onward_wanted: "(\<And>t. onward a t b) \<Longrightarrow> wanted_verdict b j \<Longrightarrow> wanted_verdict a j"
proof -
  assume o: "\<And>t. onward a t b" and w: "wanted_verdict b j"
  show "wanted_verdict a j" using o [of "fl_deadline (fl b j) + 1"] w by (auto simp: onward_def waits_ok_def wanted_wants fl_def)
qed

lemma resolve_returns:
  assumes "\<not> e_closed e"
  shows "\<exists>e'. resolve i res cl now e = Some e' \<and> (\<forall>e0 t. onward e0 t e \<longrightarrow> onward e0 t e') \<and> env e' = env e \<and>
    late t e' \<subseteq> late t e - {i} \<and> (wanted_verdict e' j \<longrightarrow> wanted_verdict e j \<and> j \<noteq> i)"
proof -
  define e1 where "e1 = fst (resolveAt i res cl now now e)"
  obtain e2 where e2: "drain_all now (fst (snd (snd (resolveAt i res cl now now e)))) e1 = Some e2"
    "\<forall>e0 t. onward e0 t e1 \<longrightarrow> onward e0 t e2" "env e2 = env e1"
    using drain_all_returns by blast
  have o1: "onward e0 t e \<Longrightarrow> onward e0 t e1" for e0 t unfolding e1_def by (rule onward_resolveAt)
  have d: "\<not> wanted_verdict e1 i" unfolding e1_def by (rule resolveAt_done [OF assms])
  have bk: "wanted_verdict e1 j \<Longrightarrow> wanted_verdict e j" "wanted_verdict e2 j \<Longrightarrow> wanted_verdict e1 j" for j
    using onward_wanted [of e e1] onward_wanted [of e1 e2] o1 [OF onward_refl] e2(2) by simp_all
  have "late t e2 \<subseteq> late t e1" "late t e1 \<subseteq> late t e" using e2(2) o1 by (simp_all add: onward_late)
  moreover have "i \<notin> late t e1" using d by (simp add: late_def)
  ultimately have "late t e2 \<subseteq> late t e - {i}" by blast
  moreover have "resolve i res cl now e = Some e2" using e2(1) by (simp add: resolve_def e1_def case_prod_beta)
  moreover have "env e2 = env e" using e2(3) by (simp add: e1_def)
  ultimately show ?thesis using e2(2) o1 bk d by blast
qed

lemma resolve_all_returns:
  assumes "\<not> e_closed e"
  shows "\<exists>e'. resolve_all now is e = Some e' \<and> env e' = env e \<and> late t e' \<subseteq> late t e - set is \<and>
    (\<forall>j. wanted_verdict e' j \<longrightarrow> wanted_verdict e j \<and> j \<notin> set is)"
  using assms
proof (induction "is" arbitrary: e)
  case (Cons i "is")
  obtain e1 where e1: "resolve i no_result None now e = Some e1" "env e1 = env e" "late t e1 \<subseteq> late t e - {i}"
    "\<And>j. wanted_verdict e1 j \<longrightarrow> wanted_verdict e j \<and> j \<noteq> i"
    using resolve_returns [OF Cons.prems, of i no_result None now t] by (metis option.inject)
  have "\<not> e_closed e1" using e1(2) Cons.prems env_closed by metis
  then obtain e2 where e2: "resolve_all now is e1 = Some e2" "env e2 = env e1" "late t e2 \<subseteq> late t e1 - set is"
    "\<forall>j. wanted_verdict e2 j \<longrightarrow> wanted_verdict e1 j \<and> j \<notin> set is"
    using Cons.IH [of e1] by blast
  show ?case using e1 e2 by (intro exI [of _ e2]) auto
qed simp

text \<open>C14: Whatever the engine went through, and even if a lookup never answers, one sweep returns and leaves no
  flow waiting for a verdict past its deadline: every flow that waits is in the worker's queue or in the
  batch it took, and the sweep sends those that are overdue to the tunnel.\<close>

theorem sweep_meets_deadlines:
  assumes "engine_reachable lim e" and "0 \<le> lim_pendingTimeout lim" and "\<not> e_closed e"
  shows "\<exists>e'. engine_sweep ks ps now e = Some e' \<and> (\<forall>i. currentLocked e' i \<and> fl_state (fl e' i) = StatePending \<longrightarrow> now \<le> fl_deadline (fl e' i))"
proof -
  have l: "0 \<le> lim_pendingTimeout (e_lim e)" using assms(2) reachable_lim [OF assms(1)] by simp
  have t: "tracked e" by (rule reachable_tracked [OF assms(1,2)])
  define e1 where "e1 = fst (sweep_locked ks ps now e)"
  define sw where "sw = snd (sweep_locked ks ps now e)"
  define e2 where "e2 = foldl (\<lambda>e p. pushOut p e) e1 (sw_flush sw)"
  have fp: "onward a t b \<Longrightarrow> onward a t (foldl (\<lambda>e p. pushOut p e) b ps)" "env (foldl (\<lambda>e p. pushOut p e) b ps) = env b" for a t b ps
    by (induction ps arbitrary: b) (simp_all add: onward_small)
  have l2: "late now e2 \<subseteq> late now e1" unfolding e2_def by (rule onward_late [OF fp(1) [OF onward_refl]])
  obtain e3 where e3: "drain_all now (map (\<lambda>(i, q). (i, q, SinkOut)) (sw_drains sw)) e2 = Some e3" "\<forall>e0 t. onward e0 t e2 \<longrightarrow> onward e0 t e3" "env e3 = env e2"
    using drain_all_returns by blast
  have "env e3 = env e" using e3(3) fp(2) by (simp add: e2_def e1_def)
  then have "\<not> e_closed e3" using assms(3) env_closed by metis
  then obtain e4 where e4: "resolve_all now (sw_expired sw) e3 = Some e4" "late now e4 \<subseteq> late now e3 - set (sw_expired sw)"
    using resolve_all_returns by blast
  have "late now e3 \<subseteq> late now e2" using e3(2) by (simp add: onward_late)
  then have "late now e4 \<subseteq> late now e - set (overdue now e)"
    using e4(2) l2 sweep_waits(1,3) [OF l, where ks = ks and ps = ps and now = now] by (auto simp: e1_def sw_def)
  then have "late now e4 = {}" using late_overdue [OF t assms(3)] by blast
  then have "\<forall>i. currentLocked e4 i \<and> fl_state (fl e4 i) = StatePending \<longrightarrow> now \<le> fl_deadline (fl e4 i)"
    by (auto simp: late_def wanted_verdict_def not_less)
  moreover have "engine_sweep ks ps now e = Some e4"
    using e3(1) e4(1) by (simp add: engine_sweep_def case_prod_beta Let_def e1_def [symmetric] sw_def [symmetric] e2_def [symmetric])
  ultimately show ?thesis by blast
qed

text \<open>Two seconds after the sample packets both flows are overdue; the sweep answers.\<close>

theorem sweep_meets_deadlines_witness:
  "engine_reachable defaultLimits sample_held \<and> fl_deadline (fl sample_held 0) < seconds 2 \<and>
   (\<exists>e'. engine_sweep [sample_key] [50001] (seconds 2) sample_held = Some e' \<and>
      (\<forall>i. currentLocked e' i \<and> fl_state (fl e' i) = StatePending \<longrightarrow> seconds 2 \<le> fl_deadline (fl e' i)))"
proof -
  have "fl_deadline (fl sample_held 0) < seconds 2"
    by (simp add: sample_held_eq fl_def sample_tcp_flow_def pending_flow_def seconds_def)
  then show ?thesis
    using sweep_meets_deadlines [OF sample_reachable(1), of "[sample_key]" "[50001]" "seconds 2"] sample_reachable(1)
    by (simp add: defaultLimits_def seconds_def sample_held_eq)
qed

section \<open>Failing safe\<close>

definition fail_safe_drains :: "((nat \<times> (nat \<times> packet_buf list) list) + nat) list \<Rightarrow> drain_job list" where
  "fail_safe_drains ys = concat (map (case_sum (\<lambda>sd. map (\<lambda>iq. (fst iq, snd iq, SinkOut)) (snd sd)) (\<lambda>_. [])) ys)"

definition fail_safe_pending :: "('a + nat) list \<Rightarrow> nat list" where
  "fail_safe_pending xs = concat (map (case_sum (\<lambda>_. []) (\<lambda>i. [i])) xs)"

definition failSafeAll :: "flow_key list \<Rightarrow> nat list \<Rightarrow> time \<Rightarrow> engine \<Rightarrow> engine option" where
  "failSafeAll ks ps now e = (case failSafe_locked ks ps now e of
     (e1, xs, ys) \<Rightarrow> Option.bind (drain_all now (fail_safe_drains ys) e1) (resolve_all now (fail_safe_pending xs @ fail_safe_pending ys)))"

text \<open>The rules of nobody: under them being allowed means not being bypassed at all.\<close>

definition no_rules :: rule_set where
  "no_rules = \<lparr>rs_id = 0, rs_empty = True, rs_match = (\<lambda>_. False)\<rparr>"

lemma no_rules_allow [simp]: "\<not> rs_allows no_rules c"
  by (simp add: rs_allows_def no_rules_def)

lemma failSafeTCP_est: "allowed no_rules {k} {} (fst (failSafeTCP now k e))"
  by (auto simp: failSafeTCP_def abortLocked_def releaseLiveLocked_def Let_def case_prod_beta allowed_def alw_def fine fl_def mod_fl_def split: option.split)

lemma failSafeUDP_est: "allowed no_rules {} {p} (fst (failSafeUDP now p e))"
proof (cases "e_udp e p")
  case None
  then show ?thesis by (simp add: failSafeUDP_def allowed_def alw_def)
next
  case (Some i)
  have "allowed no_rules {} {p} (fst (failSafeUDPLocked i now False (fst (endSessionLocked i now e))))"
    by (rule allowed_failSafeUDPLocked [OF endSession_est [OF Some]])
  moreover have "allowed no_rules {} {p} e" if "fl_sess (fl e i) = None"
    using that Some by (auto simp: allowed_def alw_def fine fl_def)
  ultimately show ?thesis using Some by (auto simp: failSafeUDP_def Let_def case_prod_beta split: option.split)
qed

lemma failSafe_est:
  assumes "dom (e_tcp e) \<subseteq> set ks" "dom (e_udp e) \<subseteq> set ps"
  shows "allowed no_rules UNIV UNIV (fst (failSafe_locked ks ps now e))"
proof -
  let ?e1 = "fst (map_loop (failSafeTCP now) ks e)"
  let ?e2 = "fst (map_loop (failSafeUDP now) ps ?e1)"
  have keep: "allowed no_rules K P ?e2" if "allowed no_rules K P ?e1" for K P by (rule allowed_map_loop [OF _ that]) auto
  have "allowed no_rules (set ks) {} ?e1" by (rule allowed_loop_tcp [OF _ failSafeTCP_est]) auto
  then have k: "allowed no_rules (set ks) {} ?e2" by (rule keep)
  have p: "allowed no_rules {} (set ps) ?e2" by (rule allowed_loop_udp [OF _ failSafeUDP_est]) auto
  have "allowed no_rules (- dom (e_tcp e)) (- dom (e_udp e)) ?e1" by (rule allowed_map_loop [OF _ allowed_none]) auto
  then have n: "allowed no_rules (- dom (e_tcp e)) (- dom (e_udp e)) ?e2" by (rule keep)
  have "allowed no_rules (set ks \<union> - dom (e_tcp e)) ((set ps \<union> {}) \<union> - dom (e_udp e)) ?e2"
    using k p n allowed_Un [of no_rules "set ks" "{}" "{}" "set ps" ?e2] by (simp add: allowed_Un)
  moreover have "set ks \<union> - dom (e_tcp e) = UNIV" "(set ps \<union> {}) \<union> - dom (e_udp e) = UNIV" using assms by auto
  ultimately show ?thesis by (simp add: failSafe_locked_def Let_def case_prod_beta)
qed

text \<open>The loops of the fail-safe leave the tables alone, make nobody wait and open no session.\<close>

definition calms :: "engine \<Rightarrow> engine \<Rightarrow> bool" where
  "calms e e' \<longleftrightarrow> e_tcp e' = e_tcp e \<and> e_udp e' = e_udp e \<and>
     (\<forall>i. fl_proto (fl e' i) = fl_proto (fl e i) \<and> fl_key (fl e' i) = fl_key (fl e i) \<and>
        (fl_state (fl e' i) = StatePending \<longrightarrow> fl_state (fl e i) = StatePending) \<and> (fl_sess (fl e' i) \<noteq> None \<longrightarrow> fl_sess (fl e i) \<noteq> None))"

lemma calms_refl [simp]: "calms e e"
  by (simp add: calms_def)

lemma calms_trans: "calms a b \<Longrightarrow> calms b c \<Longrightarrow> calms a c"
  by (simp add: calms_def)

lemma calms_TCP: "calms e (fst (failSafeTCP now k e))"
  by (auto simp: calms_def failSafeTCP_def abortLocked_def releaseLiveLocked_def Let_def case_prod_beta fl_def mod_fl_def split: option.split)

lemma calms_end: "calms e (fst (endSessionLocked i now e))"
  by (auto simp: calms_def endSessionLocked_def Let_def fl_def mod_sess_def split: option.split)

lemma calms_failSafe: "calms e (fst (failSafeUDPLocked i now ed e))"
  by (auto simp: calms_def failSafeUDPLocked_def setFailSafeLocked_def takeQueueLocked_def Let_def case_prod_beta fl_def)

lemma calms_UDP: "calms e (fst (failSafeUDP now p e))"
  using calms_trans [OF calms_end calms_failSafe] by (simp add: failSafeUDP_def case_prod_beta Let_def split: option.split)

lemma calms_map_loop: "(\<And>k e. calms e (fst (g k e))) \<Longrightarrow> calms e (fst (map_loop g ks e))"
  by (induction ks arbitrary: e) (simp_all add: case_prod_beta, blast intro: calms_trans)

lemma pending_TCP:
  assumes "e_tcp e k = Some i" "k \<in> set ks" "fl_state (fl (fst (map_loop (failSafeTCP now) ks e)) i) = StatePending"
  shows "i \<in> set (fail_safe_pending (snd (map_loop (failSafeTCP now) ks e)))"
  using assms
proof (induction ks arbitrary: e)
  case (Cons k' ks)
  let ?e1 = "fst (failSafeTCP now k' e)"
  have c1: "calms e ?e1" by (rule calms_TCP)
  have c2: "calms ?e1 (fst (map_loop (failSafeTCP now) ks ?e1))" by (rule calms_map_loop) (rule calms_TCP)
  have p: "fl_state (fl e i) = StatePending" using Cons.prems(3) c1 c2 by (simp add: calms_def case_prod_beta)
  show ?case
  proof (cases "k = k'")
    case True
    then show ?thesis using Cons.prems(1) p by (simp add: failSafeTCP_def case_prod_beta fail_safe_pending_def)
  next
    case False
    then show ?thesis using Cons.IH [of ?e1] Cons.prems c1 by (auto simp: case_prod_beta calms_def fail_safe_pending_def)
  qed
qed simp

lemma pending_UDP:
  assumes "e_udp e p = Some i" "p \<in> set ps" "fl_state (fl (fst (map_loop (failSafeUDP now) ps e)) i) = StatePending" "fl_sess (fl e i) = None"
  shows "i \<in> set (fail_safe_pending (snd (map_loop (failSafeUDP now) ps e)))"
  using assms
proof (induction ps arbitrary: e)
  case (Cons p' ps)
  let ?e1 = "fst (failSafeUDP now p' e)"
  have c1: "calms e ?e1" by (rule calms_UDP)
  have c2: "calms ?e1 (fst (map_loop (failSafeUDP now) ps ?e1))" by (rule calms_map_loop) (rule calms_UDP)
  have q: "fl_state (fl e i) = StatePending" "fl_sess (fl ?e1 i) = None"
    using Cons.prems(3,4) c1 c2 by (auto simp: calms_def case_prod_beta)
  show ?case
  proof (cases "p = p'")
    case True
    then show ?thesis using Cons.prems(1,4) q by (simp add: failSafeUDP_def case_prod_beta fail_safe_pending_def)
  next
    case False
    then show ?thesis using Cons.IH [of ?e1] Cons.prems c1 q by (auto simp: case_prod_beta calms_def fail_safe_pending_def)
  qed
qed simp

text \<open>Whatever delivering and the drain step keep, a drain keeps.\<close>

lemma drain_keeps:
  assumes "drain i q k now e = Some e'" and "P e" and step: "\<And>q k e. P e \<Longrightarrow> P (fst (drainNext i now (deliver q k now e)))"
  shows "P e'"
proof -
  have "i = i \<longrightarrow> now = now \<longrightarrow> P e \<longrightarrow> P e'"
  proof (rule drain.raw_induct [where P = "\<lambda>i' q k now' e e'. i' = i \<longrightarrow> now' = now \<longrightarrow> P e \<longrightarrow> P e'", OF _ assms(1)], intro impI)
    fix d i' q k now' e e'
    assume ih: "\<And>i' q k now' e e'. d i' q k now' e = Some e' \<Longrightarrow> i' = i \<longrightarrow> now' = now \<longrightarrow> P e \<longrightarrow> P e'"
      and d: "(case drainNext i' now' (deliver q k now' e) of (e1, None) \<Rightarrow> Some e1 | (e1, Some (q1, k1)) \<Rightarrow> d i' q1 k1 now' e1) = Some e'"
      and eq: "i' = i" "now' = now" and p: "P e"
    show "P e'"
      using d ih step [OF p, of q k] unfolding eq
      by (cases "drainNext i now (deliver q k now e)") (auto split: option.splits)
  qed
  then show ?thesis using assms(2) by simp
qed

lemma drain_all_keeps:
  assumes "drain_all now js e = Some e'" and "P e" and "\<And>i q k e. P e \<Longrightarrow> P (fst (drainNext i now (deliver q k now e)))"
  shows "P e'"
  using assms(1,2)
proof (induction js arbitrary: e)
  case (Cons j js)
  obtain i q k where j: "j = (i, q, k)" by (cases j)
  obtain e1 where e1: "drain i q k now e = Some e1" "drain_all now js e1 = Some e'"
    using Cons.prems(1) by (auto simp: j bind_eq_Some_conv)
  show ?case by (rule Cons.IH [OF e1(2) drain_keeps [where P = P, OF e1(1) Cons.prems(2) assms(3)]])
qed simp

lemma resolve_all_keeps:
  assumes "resolve_all now is e = Some e'" and "P e" and "\<And>i q k e. P e \<Longrightarrow> P (fst (drainNext i now (deliver q k now e)))"
    and "\<And>i e. P e \<Longrightarrow> P (fst (resolveAt i no_result None now now e))"
  shows "P e'"
  using assms(1,2)
proof (induction "is" arbitrary: e)
  case (Cons i "is")
  obtain e1 where e1: "resolve i no_result None now e = Some e1" "resolve_all now is e1 = Some e'"
    using Cons.prems(1) by (auto simp: bind_eq_Some_conv)
  have "P e1"
    using e1(1) drain_all_keeps [where P = P, OF _ assms(4) [OF Cons.prems(2)] assms(3)] by (auto simp: resolve_def case_prod_beta)
  then show ?case by (rule Cons.IH [OF e1(2)])
qed simp

text \<open>Every flow that still waits after the locked part is on one of its two lists.\<close>

lemma fail_safe_listed:
  assumes inv: "einv e" and dom: "dom (e_tcp e) \<subseteq> set ks" "dom (e_udp e) \<subseteq> set ps"
    and w: "wanted_verdict (fst (failSafe_locked ks ps now e)) j"
  shows "j \<in> set (fail_safe_pending (fst (snd (failSafe_locked ks ps now e))) @ fail_safe_pending (snd (snd (failSafe_locked ks ps now e))))"
proof -
  let ?m = "fst (map_loop (failSafeTCP now) ks e)"
  let ?e = "fst (map_loop (failSafeUDP now) ps ?m)"
  have c1: "calms e ?m" by (rule calms_map_loop) (rule calms_TCP)
  have c2: "calms ?m ?e" by (rule calms_map_loop) (rule calms_UDP)
  have w: "wanted_verdict ?e j" using w by (simp add: failSafe_locked_def Let_def case_prod_beta)
  then have st: "fl_state (fl ?e j) = StatePending" by (simp add: wanted_verdict_def)
  then have stm: "fl_state (fl ?m j) = StatePending" "fl_state (fl e j) = StatePending" using c1 c2 by (simp_all add: calms_def)
  show ?thesis
  proof (cases "fl_proto (fl ?e j) = protoUDP")
    case True
    then obtain p where "e_udp ?e p = Some j" using w by (auto simp: wanted_verdict_def currentLocked_def)
    then have p: "e_udp ?m p = Some j" "e_udp e p = Some j" using c1 c2 by (simp_all add: calms_def)
    have "flow_ok (fl e j)" using books_queue [OF einv_books [OF inv]] table_inj(5) [OF books_tables [OF einv_books [OF inv]] p(2)] by (simp add: fl_def)
    then have "fl_sess (fl ?m j) = None" using c1 stm by (auto simp: calms_def flow_ok_def)
    moreover have "p \<in> set ps" using p(2) dom(2) by blast
    ultimately show ?thesis
      using pending_UDP [OF p(1), of ps now] st by (simp add: failSafe_locked_def case_prod_beta Let_def)
  next
    case False
    then obtain k where "e_tcp ?e k = Some j" using w by (auto simp: wanted_verdict_def currentLocked_def)
    then have "e_tcp e k = Some j" using c1 c2 by (simp add: calms_def)
    then show ?thesis
      using pending_TCP [of e k j ks now] dom(1) stm by (auto simp: failSafe_locked_def case_prod_beta Let_def)
  qed
qed

lemma drain_step_keeps:
  assumes "einv a \<and> allowed rs K P a"
  shows "einv (fst (drainNext i now (deliver q k now a))) \<and> allowed rs K P (fst (drainNext i now (deliver q k now a)))"
  using assms engine_step_inv [OF engine_step.drain [of "deliver q k now a" i now]] engine_step_inv [OF engine_step.deliver [of a q k now]] by auto

lemma fail_safe_verdict_keeps:
  assumes "einv a \<and> allowed rs K P a"
  shows "einv (fst (resolveAt i no_result None now now a)) \<and> allowed rs K P (fst (resolveAt i no_result None now now a))"
  using assms resolveAt_inv [of a i no_result None now now] by (auto intro!: allowed_resolveAt simp: bypassVerdictLocked_def)

text \<open>C18: When the engine fails safe, nothing is left outside the tunnel: afterwards no connection in the table
  is bypassed and not reset, no UDP port has a session, and no flow waits for a verdict that could
  still let it out; and failing safe returns.\<close>

theorem fail_safe_clears:
  assumes "engine_reachable lim e" and "limits_ok lim" and "\<not> e_closed e" and "dom (e_tcp e) \<subseteq> set ks" "dom (e_udp e) \<subseteq> set ps"
  shows "\<exists>e'. failSafeAll ks ps now e = Some e' \<and>
    (\<forall>k i. e_tcp e' k = Some i \<longrightarrow> fl_state (fl e' i) \<noteq> StatePending \<and> (fl_state (fl e' i) = StateBypass \<longrightarrow> fl_aborted (fl e' i))) \<and>
    (\<forall>p i. e_udp e' p = Some i \<longrightarrow> fl_state (fl e' i) \<noteq> StatePending \<and> fl_sess (fl e' i) = None)"
proof -
  define e1 where "e1 = fst (failSafe_locked ks ps now e)"
  define xs where "xs = fst (snd (failSafe_locked ks ps now e))"
  define ys where "ys = snd (snd (failSafe_locked ks ps now e))"
  let ?P = "\<lambda>e. einv e \<and> allowed no_rules UNIV UNIV e"
  have inv: "einv e" by (rule reachable_einv [OF assms(1,2)])
  have a1: "?P e1"
    using failSafe_est [OF assms(4,5)] engine_step_inv [OF engine_step.fail_safe [OF assms(4,5)] inv] by (simp add: e1_def)
  obtain e2 where e2: "drain_all now (fail_safe_drains ys) e1 = Some e2" "\<forall>e0 t. onward e0 t e1 \<longrightarrow> onward e0 t e2" "env e2 = env e1"
    using drain_all_returns by blast
  have "env e2 = env e" using e2(3) by (simp add: e1_def)
  then have "\<not> e_closed e2" using assms(3) env_closed by metis
  then obtain e3 where e3: "resolve_all now (fail_safe_pending xs @ fail_safe_pending ys) e2 = Some e3"
    "\<And>j. wanted_verdict e3 j \<Longrightarrow> wanted_verdict e2 j \<and> j \<notin> set (fail_safe_pending xs @ fail_safe_pending ys)"
    using resolve_all_returns by metis
  have run: "failSafeAll ks ps now e = Some e3"
    using e2(1) e3(1) by (simp add: failSafeAll_def case_prod_beta e1_def xs_def ys_def)
  have a2: "?P e2" by (rule drain_all_keeps [where P = ?P, OF e2(1) a1 drain_step_keeps])
  have a3: "?P e3" by (rule resolve_all_keeps [where P = ?P, OF e3(1) a2 drain_step_keeps fail_safe_verdict_keeps])
  have t3: "tables_ok (e_heap e3) (e_next e3) (e_tcp e3) (e_udp e3)" using a3 books_tables einv_books by blast
  have "wanted_verdict e1 j" if "wanted_verdict e2 j" for j
    using onward_wanted [of e1 e2] e2(2) that by simp
  then have nw: "\<not> wanted_verdict e3 j" for j
    using e3(2) [of j] fail_safe_listed [OF inv assms(4,5), of now j] by (auto simp: e1_def xs_def ys_def)
  have "fl_state (fl e3 i) \<noteq> StatePending" if "e_tcp e3 k = Some i \<or> e_udp e3 p = Some i" for k p i
    using nw [of i] that table_inj(6-9) [OF t3] by (auto simp: wanted_verdict_def currentLocked_def fl_def)
  then show ?thesis using a3 run by (auto simp: allowed_def alw_def fine fl_def)
qed

text \<open>The sample engine, with a bypassed connection and a session, fails safe.\<close>

theorem fail_safe_clears_witness:
  "\<exists>e'. failSafeAll [sample_key] [50001] 20 sample_bypass = Some e' \<and> fl_state (fl sample_bypass 0) = StateBypass \<and>
     (\<forall>k i. e_tcp e' k = Some i \<longrightarrow> fl_state (fl e' i) = StateBypass \<longrightarrow> fl_aborted (fl e' i)) \<and>
     fl_sess (fl sample_bypass 1) = Some 0 \<and> (\<forall>p i. e_udp e' p = Some i \<longrightarrow> fl_sess (fl e' i) = None)"
proof -
  have f: "fl_state (fl sample_bypass 0) = StateBypass" "fl_sess (fl sample_bypass 1) = Some 0" "\<not> e_closed sample_bypass"
    "dom (e_tcp sample_bypass) \<subseteq> set [sample_key]" "dom (e_udp sample_bypass) \<subseteq> set [50001]"
    by (simp_all add: sample_bypass_eq fl_def sample_tcp_bypass_def sample_udp_bypass_def)
  show ?thesis using fail_safe_clears [OF sample_reachable(2,3) f(3,4,5), of 20] f(1,2) by blast
qed

end
