(* ===== verification/Engine_Order.thy ===== *)
theory Engine_Order
  imports Engine_Samples
begin

text \<open>The packets of a flow keep their order: while its queue is drained, what the pump reads for it joins
  the queue, and the drain ends only with nothing left to deliver.\<close>

text \<open>The per-protocol part of decide.\<close>

definition arrive :: "pkt_info \<Rightarrow> byte list \<Rightarrow> time \<Rightarrow> engine \<Rightarrow> engine \<times> action" where
  "arrive info pkt now e = (if pi_proto info = protoUDP then decideUDP info pkt now e
     else let (e1, act, _) = decideTCP info pkt now e in (e1, act))"

text \<open>The packet continues flow \<open>i\<close>: it is of its port, or of its connection and not a SYN that replaces it.\<close>

definition continues :: "nat \<Rightarrow> pkt_info \<Rightarrow> engine \<Rightarrow> bool" where
  "continues i info e \<longleftrightarrow> (if pi_proto info = protoUDP then e_udp e (pi_srcPort info) = Some i \<and> udpPayload info \<noteq> None
     else e_tcp e (tcp_key info) = Some i \<and>
       \<not> (tcp_syn info \<and> (fl_isn (fl e i) \<noteq> pi_seq info \<or> fl_state (fl e i) = StateLinger \<or> fl_aborted (fl e i))))"

datatype drain_event = Arrive pkt_info "byte list" time | Turn time

text \<open>The drain's turns and the arrivals in any order; the result has what was handed on and what was accepted.\<close>

fun drain_run :: "nat \<Rightarrow> drain_event list \<Rightarrow> engine \<Rightarrow> packet_buf list \<Rightarrow> packet_buf list \<Rightarrow> engine \<times> packet_buf list \<times> packet_buf list" where
  "drain_run i [] e out acc = (e, out, acc)"
| "drain_run i (Arrive info pkt now # evs) e out acc = (let (e1, act) = arrive info pkt now e
     in drain_run i evs e1 out (if act = ActHeld then acc @ [copyPacket pkt] else acc))"
| "drain_run i (Turn now # evs) e out acc = (case drainNext i now e of
       (e1, None) \<Rightarrow> (e1, out, acc)
     | (e1, Some (q, _)) \<Rightarrow> drain_run i evs e1 (out @ q) acc)"

text \<open>What an arrival or a turn leaves alone.\<close>

definition steady :: "nat \<Rightarrow> engine \<Rightarrow> engine \<Rightarrow> bool" where
  "steady i e e' \<longleftrightarrow> e_tcp e' = e_tcp e \<and> e_udp e' = e_udp e \<and> e_closed e' = e_closed e \<and>
     fl_proto (fl e' i) = fl_proto (fl e i) \<and> fl_key (fl e' i) = fl_key (fl e i) \<and> fl_isn (fl e' i) = fl_isn (fl e i) \<and>
     fl_state (fl e' i) = fl_state (fl e i) \<and> fl_aborted (fl e' i) = fl_aborted (fl e i) \<and> fl_draining (fl e' i) = fl_draining (fl e i)"

lemma steady_continues: "steady i e e' \<Longrightarrow> continues i info e' \<longleftrightarrow> continues i info e"
  by (simp add: steady_def continues_def)

lemma steady_current: "steady i e e' \<Longrightarrow> currentLocked e' i \<longleftrightarrow> currentLocked e i"
  by (simp add: steady_def currentLocked_def)

lemma enqueue_steady:
  assumes "fl_draining (fl e i)"
  shows "steady i e (fst (enqueueLocked i pkt e))" "steady i e (fst (enqueueBufLocked i b e))"
    "fl_queue (fl (fst (enqueueLocked i pkt e)) i) = fl_queue (fl e i) @ (if snd (enqueueLocked i pkt e) = ActHeld then [copyPacket pkt] else [])"
    "fl_queue (fl (fst (enqueueBufLocked i b e)) i) = fl_queue (fl e i) @ (if snd (enqueueBufLocked i b e) = ActHeld then [b] else [])"
    "snd (enqueueLocked i pkt e) \<in> {ActHeld, ActDrop}" "snd (enqueueBufLocked i b e) \<in> {ActHeld, ActDrop}"
  using assms by (auto simp: enqueueLocked_def enqueueBufLocked_def Let_def steady_def fl_def)

lemma arrive_draining:
  assumes "fl_draining (fl e i)" and "\<not> e_closed e" and "continues i info e"
  shows "snd (arrive info pkt now e) \<in> {ActHeld, ActDrop} \<and> steady i e (fst (arrive info pkt now e)) \<and>
    fl_queue (fl (fst (arrive info pkt now e)) i) = fl_queue (fl e i) @ (if snd (arrive info pkt now e) = ActHeld then [copyPacket pkt] else [])"
proof (cases "pi_proto info = protoUDP")
  case True
  let ?e = "mod_fl i (\<lambda>f. f\<lparr>fl_lastSeen := now\<rparr>) e"
  have d: "fl_draining (fl ?e i)" and s: "steady i e ?e" and q: "fl_queue (fl ?e i) = fl_queue (fl e i)"
    using assms(1) by (simp_all add: fl_def steady_def)
  have "arrive info pkt now e = enqueueUDPLocked i pkt ?e"
    using assms True d by (auto simp: arrive_def decideUDP_def udpLocked_def continues_def Let_def case_prod_beta)
  then show ?thesis
    using enqueue_steady(2,4,6) [OF d, of "copyPacket pkt"] s q by (auto simp: enqueueUDPLocked_def steady_def)
next
  case False
  then have "arrive info pkt now e = enqueueLocked i pkt e"
    using assms by (auto simp: arrive_def decideTCP_def continues_def Let_def case_prod_beta)
  then show ?thesis using enqueue_steady(1,3,5) [OF assms(1), of pkt] by simp
qed

lemma turn_draining:
  assumes "\<not> e_closed e" and "currentLocked e i"
  shows "drainNext i now e = (e1, Some (q, k)) \<Longrightarrow> steady i e e1 \<and> q = fl_queue (fl e i) \<and> fl_queue (fl e1 i) = []"
    and "drainNext i now e = (e1, None) \<Longrightarrow> fl_queue (fl e i) = [] \<and> fl_queue (fl e1 i) = []"
  using assms by (auto simp: drainNext_def Let_def takeQueueLocked_def steady_def fl_def tcp_delete_def split: if_splits)

lemma drain_run_order:
  assumes "fl_draining (fl e i)" "\<not> e_closed e" "currentLocked e i"
    and "\<forall>info pkt now. Arrive info pkt now \<in> set evs \<longrightarrow> continues i info e" and "drain_run i evs e out0 acc0 = (e', out, acc)"
  shows "\<exists>acc1. acc = acc0 @ acc1 \<and> out @ fl_queue (fl e' i) = out0 @ fl_queue (fl e i) @ acc1 \<and> (fl_queue (fl e' i) = [] \<or> fl_draining (fl e' i))"
  using assms
proof (induction evs arbitrary: e out0 acc0)
  case (Cons ev evs)
  have keep: "fl_draining (fl e1 i) \<and> \<not> e_closed e1 \<and> currentLocked e1 i \<and> (\<forall>info pkt now. Arrive info pkt now \<in> set evs \<longrightarrow> continues i info e1)"
    if "steady i e e1" for e1
    using Cons.prems(1-4) steady_current [OF that] steady_continues [OF that] that by (auto simp: steady_def)
  show ?case
  proof (cases ev)
    case (Arrive info pkt now)
    let ?e1 = "fst (arrive info pkt now e)" and ?x = "if snd (arrive info pkt now e) = ActHeld then [copyPacket pkt] else []"
    have a: "steady i e ?e1" "fl_queue (fl ?e1 i) = fl_queue (fl e i) @ ?x"
      using arrive_draining [OF Cons.prems(1,2), of info pkt now] Cons.prems(4) Arrive by auto
    have "drain_run i evs ?e1 out0 (acc0 @ ?x) = (e', out, acc)" using Cons.prems(5) Arrive by (auto simp: case_prod_beta)
    from Cons.IH [OF _ _ _ _ this] obtain acc1 where "acc = (acc0 @ ?x) @ acc1" "out @ fl_queue (fl e' i) = out0 @ fl_queue (fl ?e1 i) @ acc1"
      "fl_queue (fl e' i) = [] \<or> fl_draining (fl e' i)" using keep [OF a(1)] by blast
    then show ?thesis using a(2) by (intro exI [of _ "?x @ acc1"]) simp
  next
    case (Turn now)
    obtain e1 r where d: "drainNext i now e = (e1, r)" by (cases "drainNext i now e")
    show ?thesis
    proof (cases r)
      case None
      then show ?thesis using Cons.prems(5) d Turn turn_draining(2) [OF Cons.prems(2,3), of now e1] by simp
    next
      case (Some qk)
      obtain q k where qk: "qk = (q, k)" by (cases qk)
      have t: "steady i e e1 \<and> q = fl_queue (fl e i) \<and> fl_queue (fl e1 i) = []"
        using turn_draining(1) [OF Cons.prems(2,3), of now e1 q k] d Some qk by simp
      have "drain_run i evs e1 (out0 @ q) acc0 = (e', out, acc)" using Cons.prems(5) d Turn Some qk by simp
      from Cons.IH [OF _ _ _ _ this] show ?thesis using t keep [of e1] by simp
    qed
  qed
qed simp

text \<open>C20: While a flow's queue is being drained, a packet that continues the flow never overtakes it: it is
  queued or dropped, not forwarded.  However such arrivals and the turns of the drain interleave, what
  was handed on, followed by what is still queued, is what was queued at first followed by the packets
  accepted since, in order of arrival; and once the drain has ended nothing is left in the queue.\<close>

theorem drain_keeps_order:
  assumes "fl_draining (fl e i)" and "\<not> e_closed e" and "currentLocked e i"
    and "\<forall>info pkt now. Arrive info pkt now \<in> set evs \<longrightarrow> continues i info e"
    and "drain_run i evs e [] [] = (e', out, acc)"
  shows "out @ fl_queue (fl e' i) = fl_queue (fl e i) @ acc \<and> (fl_queue (fl e' i) = [] \<or> fl_draining (fl e' i)) \<and>
    (\<forall>info pkt now. continues i info e \<longrightarrow> snd (arrive info pkt now e) \<in> {ActHeld, ActDrop})"
  using drain_run_order [OF assms] arrive_draining [OF assms(1,2)] by auto

text \<open>A second datagram of the sample port arrives while its queue is drained: it is handed on at the next turn.\<close>

theorem drain_keeps_order_witness:
  "\<exists>info e' out. parseIPv4 sample_udp = Some info \<and>
     drain_run 1 [Arrive info sample_udp 12, Turn 13, Turn 14] sample_bypass [] [] = (e', out, [copyPacket sample_udp]) \<and>
     out @ fl_queue (fl e' 1) = [copyPacket sample_udp]"
proof -
  obtain info where i: "parseIPv4 sample_udp = Some info" "pi_srcPort info = 50001" "pi_proto info = protoUDP" "udpPayload info = Some (28, 30)"
    using sample_parse(2) by blast
  have f: "fl_draining (fl sample_bypass 1)" "\<not> e_closed sample_bypass" "currentLocked sample_bypass 1" "fl_queue (fl sample_bypass 1) = []"
    "e_pendingCost sample_bypass = 0" "e_udp sample_bypass 50001 = Some 1" "e_lim sample_bypass = defaultLimits"
    by (simp_all add: sample_bypass_eq fl_def currentLocked_def sample_udp_bypass_def sample_udp_flow_def pending_flow_def)
  have c: "continues 1 info sample_bypass" using i f(6) by (simp add: continues_def)
  let ?e = "mod_fl 1 (\<lambda>f. f\<lparr>fl_lastSeen := 12\<rparr>) sample_bypass"
  have d: "fl_draining (fl ?e 1)" using f(1) by (simp add: fl_def)
  have "arrive info sample_udp 12 sample_bypass = enqueueUDPLocked 1 sample_udp ?e"
    using i f d c by (simp add: arrive_def decideUDP_def udpLocked_def Let_def case_prod_beta)
  then have h: "snd (arrive info sample_udp 12 sample_bypass) = ActHeld"
    using d f(5,7) by (simp add: enqueueUDPLocked_def enqueueBufLocked_def Let_def defaultLimits_def)
  obtain e' out acc where r: "drain_run 1 [Arrive info sample_udp 12, Turn 13, Turn 14] sample_bypass [] [] = (e', out, acc)" by (metis prod_cases3)
  have "acc = [copyPacket sample_udp]" using r h by (auto simp: case_prod_beta split: option.splits prod.splits)
  then show ?thesis using drain_keeps_order [OF f(1-3) _ r] c f(4) i(1) r by auto
qed

end
