(* ===== verification/Rule_Text.thy ===== *)
theory Rule_Text
  imports Prelude
begin

text \<open>splittunnel/procmatch/rules.go, the text part: how an entry of the user's app list becomes a
  normalised rule on each operating system, and what a normalised rule covers.  \<open>path_Clean\<close> is Go's
  path.Clean and \<open>path_Base\<close> its path.Base; strings.ToLower is the ASCII one.\<close>

section \<open>Paths\<close>

abbreviation fslash :: char where "fslash \<equiv> CHR ''/''"
abbreviation bslash :: char where "bslash \<equiv> CHR 0x5C"

definition has_suffix :: "string \<Rightarrow> string \<Rightarrow> bool" where
  "has_suffix s p \<longleftrightarrow> has_prefix (rev s) (rev p)"

definition trim_suffix :: "string \<Rightarrow> string \<Rightarrow> string" where
  "trim_suffix s p = (if has_suffix s p then take (length s - length p) s else s)"

definition cut_prefix :: "string \<Rightarrow> string \<Rightarrow> string option" where
  "cut_prefix s p = (if has_prefix s p then Some (drop (length p) s) else None)"

definition trim_right :: "string \<Rightarrow> string \<Rightarrow> string" where
  "trim_right s cutset = rev (dropWhile (\<lambda>c. c \<in> set cutset) (rev s))"

definition replace_char :: "char \<Rightarrow> char \<Rightarrow> string \<Rightarrow> string" where
  "replace_char a b = map (\<lambda>c. if c = a then b else c)"

definition clean_step :: "bool \<Rightarrow> string list \<Rightarrow> string \<Rightarrow> string list" where
  "clean_step rooted acc c = (if c = [] \<or> c = ''.'' then acc
     else if c = ''..'' then (if acc \<noteq> [] \<and> (rooted \<or> last acc \<noteq> ''..'') then butlast acc
                              else if rooted then acc else acc @ [c])
     else acc @ [c])"

definition path_Clean :: "string \<Rightarrow> string" where
  "path_Clean p = (let rooted = has_prefix p [fslash];
       cs = foldl (clean_step rooted) [] (split_on fslash p); body = join [fslash] cs
     in if rooted then fslash # body else if cs = [] then ''.'' else body)"

definition path_Base :: "string \<Rightarrow> string" where
  "path_Base p = (if p = [] then ''.''
     else let q = trim_right p [fslash] in if q = [] then [fslash] else last (split_on fslash q))"

definition withSep :: "string \<Rightarrow> char \<Rightarrow> string" where
  "withSep p sep = (if has_suffix p [sep] then p else p @ [sep])"

definition isDriveAbs :: "string \<Rightarrow> bool" where
  "isDriveAbs p \<longleftrightarrow> (case p of c0 # c1 # c2 # _ \<Rightarrow> c1 = CHR '':'' \<and> c2 = bslash \<and>
       (let c = (of_char c0 :: nat) OR 0x20 in 97 \<le> c \<and> c \<le> 122)
     | _ \<Rightarrow> False)"

definition win_step :: "string list \<Rightarrow> string \<Rightarrow> string list" where
  "win_step acc c = (if c = [] \<or> c = ''.'' then acc
     else if c = ''..'' then butlast acc
     else let t = trim_right c ''. '' in if t \<noteq> [] then acc @ [t] else acc)"

definition cleanWindows :: "string \<Rightarrow> string" where
  "cleanWindows p0 = (let p = to_lower p0 in take 3 p @ join [bslash] (foldl win_step [] (split_on bslash (drop 3 p))))"

text \<open>The image path of a process in rule form.\<close>

definition normalizeWinImage :: "string \<Rightarrow> string" where
  "normalizeWinImage p0 = (let p = replace_char fslash bslash p0 in
     to_lower (case cut_prefix p ([bslash, bslash, CHR ''?'', bslash] @ ''UNC'' @ [bslash]) of
         Some rest \<Rightarrow> [bslash, bslash] @ rest
       | None \<Rightarrow> (case cut_prefix p [bslash, bslash, CHR ''?'', bslash] of Some rest \<Rightarrow> rest | None \<Rightarrow> p)))"

definition winBase :: "string \<Rightarrow> string" where
  "winBase p = last (split_on bslash p)"

section \<open>Rules\<close>

datatype rule_kind = RuleFile | RuleDir | RuleBundle

datatype compiled_rule = CompiledRule (cr_kind: rule_kind) (cr_raw: string)

datatype rule_code = CodeNotAbsolute | CodeTooLong | CodeNUL | CodeUnsupportedForm | CodeSystemProcess
  | CodeTooBroad | CodeOwnImage | CodeTooMany

definition code_text :: "rule_code \<Rightarrow> string" where
  "code_text c = (case c of CodeNotAbsolute \<Rightarrow> ''notAbsolute'' | CodeTooLong \<Rightarrow> ''tooLong'' | CodeNUL \<Rightarrow> ''nul''
     | CodeUnsupportedForm \<Rightarrow> ''unsupportedForm'' | CodeSystemProcess \<Rightarrow> ''systemProcess'' | CodeTooBroad \<Rightarrow> ''tooBroad''
     | CodeOwnImage \<Rightarrow> ''ownImage'' | CodeTooMany \<Rightarrow> ''tooMany'')"

definition maxRuleLen :: nat where "maxRuleLen = 1024"
definition MaxRules :: nat where "MaxRules = 256"

definition parseWindowsRule :: "string \<Rightarrow> (rule_code, compiled_rule) result" where
  "parseWindowsRule entry = (let p = replace_char fslash bslash entry in
     if has_prefix p [bslash, bslash] \<or> has_prefix p [bslash, CHR ''?'', CHR ''?'', bslash] then Inl CodeUnsupportedForm
     else if \<not> isDriveAbs p then Inl CodeNotAbsolute
     else let clean = cleanWindows p in
       if has_suffix p [bslash] then Inr (CompiledRule RuleDir (withSep clean bslash))
       else if length clean \<le> 3 \<or> \<not> has_suffix clean ''.exe'' then Inl CodeUnsupportedForm
       else Inr (CompiledRule RuleFile clean))"

definition parseDarwinRule :: "string \<Rightarrow> (rule_code, compiled_rule) result" where
  "parseDarwinRule entry = (if \<not> has_prefix entry [fslash] then Inl CodeNotAbsolute
     else let clean = path_Clean entry in
       if clean \<noteq> [fslash] \<and> has_suffix (to_lower clean) ''.app'' then Inr (CompiledRule RuleBundle (clean @ [fslash]))
       else if has_suffix entry [fslash] then Inr (CompiledRule RuleDir (withSep clean fslash))
       else Inr (CompiledRule RuleFile clean))"

definition snapDir :: "string \<Rightarrow> string option" where
  "snapDir clean = (case split_on fslash (trim_prefix clean [fslash]) of
       p0 # p1 # p2 # rest \<Rightarrow>
         if p0 \<noteq> ''snap'' then None
         else if p1 = ''bin'' then
           (let name = (case cut CHR ''.'' p2 of Some (a, _) \<Rightarrow> a | None \<Rightarrow> p2) in
             if rest \<noteq> [] \<or> name = [] then None else Some (''/snap/'' @ name @ [fslash]))
         else Some (''/snap/'' @ p1 @ [fslash])
     | _ \<Rightarrow> None)"

definition parseLinuxRule :: "string \<Rightarrow> (rule_code, compiled_rule) result" where
  "parseLinuxRule entry = (if \<not> has_prefix entry [fslash] then Inl CodeNotAbsolute
     else let clean = path_Clean entry in
       case snapDir clean of Some snap \<Rightarrow> Inr (CompiledRule RuleDir snap)
       | None \<Rightarrow> if has_suffix entry [fslash] then Inr (CompiledRule RuleDir (withSep clean fslash))
                 else Inr (CompiledRule RuleFile clean))"

definition parseRule :: "string \<Rightarrow> string \<Rightarrow> (rule_code, compiled_rule) result" where
  "parseRule goos entry = (if CHR 0x00 \<in> set entry then Inl CodeNUL
     else if maxRuleLen < length entry then Inl CodeTooLong
     else if goos = ''windows'' then parseWindowsRule entry
     else if goos = ''darwin'' then parseDarwinRule entry
     else parseLinuxRule entry)"

text \<open>A resolver result as a rule of the original kind.\<close>

definition normalizeResolved :: "string \<Rightarrow> rule_kind \<Rightarrow> string \<Rightarrow> compiled_rule option" where
  "normalizeResolved goos kind p0 =
    (let p1 = (if kind \<noteq> RuleFile then withSep p0 (if goos = ''windows'' then bslash else fslash) else p0);
         p = (if goos = ''windows'' then normalizeWinImage p1 else p1)
     in case parseRule goos p of Inl _ \<Rightarrow> None
        | Inr r \<Rightarrow> (let k = (if kind = RuleBundle \<and> cr_kind r = RuleDir then RuleBundle else cr_kind r)
                    in if k \<noteq> kind then None else Some (CompiledRule k (cr_raw r))))"

section \<open>What a rule covers\<close>

definition covers :: "compiled_rule \<Rightarrow> string \<Rightarrow> bool" where
  "covers r p \<longleftrightarrow> (if cr_kind r = RuleFile then cr_raw r = p else has_prefix p (cr_raw r))"

definition rule_overlaps :: "compiled_rule \<Rightarrow> compiled_rule \<Rightarrow> bool" where
  "rule_overlaps a b \<longleftrightarrow> covers a (cr_raw b) \<or> covers b (cr_raw a)"

section \<open>Order\<close>

text \<open>The order newRules sorts by: strings.Compare on the text, then the kind.\<close>

primrec kind_no :: "rule_kind \<Rightarrow> nat" where
  "kind_no RuleFile = 0"
| "kind_no RuleDir = 1"
| "kind_no RuleBundle = 2"

lemma kind_no_inj [simp]: "kind_no a = kind_no b \<longleftrightarrow> a = b"
  by (cases a; cases b) auto

instantiation compiled_rule :: linorder
begin

definition less_compiled_rule :: "compiled_rule \<Rightarrow> compiled_rule \<Rightarrow> bool" where
  "a < b \<longleftrightarrow> cr_raw a < cr_raw b \<or> cr_raw a = cr_raw b \<and> kind_no (cr_kind a) < kind_no (cr_kind b)"

definition less_eq_compiled_rule :: "compiled_rule \<Rightarrow> compiled_rule \<Rightarrow> bool" where
  "a \<le> b \<longleftrightarrow> a < b \<or> a = (b :: compiled_rule)"

instance
  by intro_classes (auto simp: less_compiled_rule_def less_eq_compiled_rule_def intro: compiled_rule.expand)

end

lemmas path_defs = has_suffix_def has_prefix_def trim_suffix_def cut_prefix_def trim_right_def replace_char_def

end
