(* ===== verification/Rule_Normal.thy ===== *)
theory Rule_Normal
  imports Rule_Text
begin

text \<open>Normal forms of rules: cleaning a path yields components that cleaning leaves alone, so a rule's
  own text is read back as the same rule, and folder rules cover whole path components.\<close>

section \<open>Strings\<close>

lemma split_on_sep: "split_on sep (a @ sep # b) = split_on sep a @ split_on sep b"
  by (induction a) (auto split: list.splits)

lemma split_on_chars: "w \<in> set (split_on sep s) \<Longrightarrow> set w \<subseteq> set s"
proof (induction s arbitrary: w)
  case (Cons c s)
  obtain a list where s: "split_on sep s = a # list" by (cases "split_on sep s") simp_all
  then have "set v \<subseteq> set s" if "v \<in> set (a # list)" for v using Cons.IH that by simp
  then show ?case using Cons.prems s by (fastforce split: if_splits)
qed simp

lemma split_on_inj: "split_on sep a = split_on sep b \<longleftrightarrow> a = b"
proof -
  have "join [sep] (split_on sep s) = s" for s
  proof (induction s)
    case (Cons c s)
    then show ?case by (cases "split_on sep s" rule: list.exhaust) (auto, (metis join.simps(2,3) list.exhaust append_Cons)+)
  qed simp
  then show ?thesis by metis
qed

lemma join_append: "a \<noteq> [] \<Longrightarrow> b \<noteq> [] \<Longrightarrow> join sep (a @ b) = join sep a @ sep @ join sep b"
  by (induction sep a rule: join.induct) (auto simp: neq_Nil_conv)

lemma set_join_sep: "set (join sep ws) \<subseteq> \<Union> (set ` set ws) \<union> set sep"
  by (induction sep ws rule: join.induct) auto

lemma has_prefix_Cons [simp]: "has_prefix (c # s) (d # p) \<longleftrightarrow> c = d \<and> has_prefix s p" "has_prefix s []" "\<not> has_prefix [] (d # p)"
  by (auto simp: has_prefix_def)

lemma has_prefix_single: "has_prefix s [c] \<longleftrightarrow> s \<noteq> [] \<and> hd s = c"
  by (cases s) (auto simp: has_prefix_def)

lemma has_suffix_single: "has_suffix s [c] \<longleftrightarrow> s \<noteq> [] \<and> last s = c"
  by (auto simp: has_suffix_def has_prefix_single hd_rev)

lemma has_suffix_snoc [simp]: "has_suffix (s @ [c]) [c]"
  by (simp add: has_suffix_single)

lemma withSep_suffix [simp]: "has_suffix (withSep p c) [c]"
  by (simp add: withSep_def)

lemma withSep_id: "has_suffix p [c] \<Longrightarrow> withSep p c = p"
  by (simp add: withSep_def)

lemma has_suffix_last: "has_suffix s (p @ [c]) \<Longrightarrow> s \<noteq> [] \<and> last s = c"
  by (auto simp: has_suffix_def has_prefix_def hd_rev [symmetric]) (cases "rev s"; simp)+

lemma trim_right_idem: "trim_right (trim_right s cs) cs = trim_right s cs"
  by (simp add: trim_right_def dropWhile_idem)

lemma set_trim_right: "set (trim_right s cs) \<subseteq> set s"
  by (auto simp: trim_right_def dest: set_dropWhileD)

lemma trim_right_last: "trim_right s cs \<noteq> [] \<Longrightarrow> last (trim_right s cs) \<notin> set cs"
  using hd_dropWhile [of "\<lambda>c. c \<in> set cs" "rev s"] by (auto simp: trim_right_def last_rev simp del: dropWhile_eq_Nil_conv)

lemma trim_right_id: "s \<noteq> [] \<Longrightarrow> last s \<notin> set cs \<Longrightarrow> trim_right s cs = s"
  by (simp add: trim_right_def dropWhile_eq_self hd_rev)

lemma replace_char_none: "a \<notin> set s \<Longrightarrow> replace_char a b s = s"
  by (auto simp: replace_char_def intro: map_idI)

lemma replace_char_gone: "a \<noteq> b \<Longrightarrow> a \<notin> set (replace_char a b s)"
  by (auto simp: replace_char_def)

text \<open>Lower case.\<close>

lemma of_char_lower: "(of_char (lower_char c) :: nat) = (let n = of_char c in if 65 \<le> n \<and> n \<le> 90 then n + 32 else n)"
  by (simp add: lower_char_def Let_def)

lemma lower_idem [simp]: "lower_char (lower_char c) = lower_char c"
  by (simp add: lower_char_def)

lemma lower_map_idem [simp]: "to_lower (to_lower s) = to_lower s"
  by (simp add: to_lower_def)

lemma lower_eq_plain: "(of_char c :: nat) < 65 \<or> 122 < (of_char c :: nat) \<or> 90 < (of_char c :: nat) \<and> (of_char c :: nat) < 97 \<Longrightarrow> lower_char d = c \<longleftrightarrow> d = c"
  by (auto simp: lower_char_def split: if_splits)

lemma or32: "(n::nat) OR 32 = n + (if odd (n div 32) then 0 else 32)"
proof -
  have "n OR 32 = set_bit 5 n" by (simp add: set_bit_eq_or push_bit_eq_mult)
  then show ?thesis by (simp add: set_bit_eq bit_iff_odd)
qed

lemma drive_letter:
  assumes "n < 256"
  shows "97 \<le> (n::nat) OR 0x20 \<and> n OR 0x20 \<le> 122 \<longleftrightarrow> 65 \<le> n \<and> n \<le> 90 \<or> 97 \<le> n \<and> n \<le> 122"
proof -
  define q r where "q = n div 32" and "r = n mod 32"
  have n: "n = 32 * q + r" "r < 32" by (simp_all add: q_def r_def)
  then have "q < 8" using assms by simp
  then have "q = 0 \<or> q = 1 \<or> q = 2 \<or> q = 3 \<or> q = 4 \<or> q = 5 \<or> q = 6 \<or> q = 7" by arith
  moreover have "n OR 32 = n + (if odd q then 0 else 32)" by (simp add: or32 q_def)
  ultimately show ?thesis using n by (elim disjE) simp_all
qed

lemma isDriveAbs_iff: "isDriveAbs p \<longleftrightarrow> (\<exists>c rest. p = c # CHR '':'' # bslash # rest \<and>
    (65 \<le> (of_char c :: nat) \<and> (of_char c :: nat) \<le> 90 \<or> 97 \<le> (of_char c :: nat) \<and> (of_char c :: nat) \<le> 122))"
proof -
  have "(of_char c :: nat) < 256" for c by (metis of_char_of nat_of_char_less_256)
  then show ?thesis
    by (auto simp: isDriveAbs_def Let_def drive_letter split: list.splits)
qed

section \<open>Clean components\<close>

definition unix_comp :: "string \<Rightarrow> bool" where
  "unix_comp c \<longleftrightarrow> c \<notin> {[], ''.'', ''..''} \<and> fslash \<notin> set c"

definition win_comp :: "string \<Rightarrow> bool" where
  "win_comp c \<longleftrightarrow> c \<noteq> [] \<and> last c \<notin> set ''. '' \<and> bslash \<notin> set c \<and> to_lower c = c"

lemma clean_step_clean: "unix_comp c \<Longrightarrow> clean_step r acc c = acc @ [c]"
  by (auto simp: clean_step_def unix_comp_def)

lemma clean_fold: "list_all unix_comp cs \<Longrightarrow> foldl (clean_step r) acc cs = acc @ cs"
  by (induction cs arbitrary: acc) (simp_all add: clean_step_clean)

lemma clean_step_comps: "list_all unix_comp acc \<Longrightarrow> fslash \<notin> set c \<Longrightarrow> list_all unix_comp (clean_step True acc c)"
  by (auto simp: clean_step_def unix_comp_def list_all_iff dest: in_set_butlastD)

lemma clean_comps: "\<forall>c \<in> set cs. fslash \<notin> set c \<Longrightarrow> list_all unix_comp acc \<Longrightarrow> list_all unix_comp (foldl (clean_step True) acc cs)"
  by (induction cs arbitrary: acc) (simp_all add: clean_step_comps)

lemma clean_step_chars: "\<Union> (set ` set (clean_step r acc c)) \<subseteq> \<Union> (set ` set acc) \<union> set c"
  by (auto simp: clean_step_def dest: in_set_butlastD)

lemma clean_chars: "\<Union> (set ` set (foldl (clean_step r) acc cs)) \<subseteq> \<Union> (set ` set acc) \<union> \<Union> (set ` set cs)"
proof (induction cs arbitrary: acc)
  case (Cons c cs)
  have "\<Union> (set ` set (foldl (clean_step r) acc (c # cs))) \<subseteq> \<Union> (set ` set (clean_step r acc c)) \<union> \<Union> (set ` set cs)"
    unfolding foldl_Cons by (rule Cons.IH)
  also have "\<dots> \<subseteq> (\<Union> (set ` set acc) \<union> set c) \<union> \<Union> (set ` set cs)"
    using clean_step_chars by (rule Un_mono) simp
  finally show ?case by (simp add: Un_assoc)
qed simp

lemma path_Clean_rooted:
  assumes "has_prefix p [fslash]"
  obtains cs where "path_Clean p = fslash # join [fslash] cs" "list_all unix_comp cs" "\<Union> (set ` set cs) \<subseteq> set p"
proof
  let ?cs = "foldl (clean_step True) [] (split_on fslash p)"
  show "path_Clean p = fslash # join [fslash] ?cs" using assms by (simp add: path_Clean_def Let_def)
  show "list_all unix_comp ?cs" by (intro clean_comps) (simp_all add: split_on_pieces)
  have "\<Union> (set ` set ?cs) \<subseteq> \<Union> (set ` set (split_on fslash p))" using clean_chars [of True "[]"] by simp
  also have "\<dots> \<subseteq> set p" using split_on_chars [of _ fslash p] by blast
  finally show "\<Union> (set ` set ?cs) \<subseteq> set p" .
qed

lemma clean_join: "list_all unix_comp cs \<Longrightarrow> foldl (clean_step True) [] (split_on fslash (join [fslash] cs)) = cs"
proof (cases "cs = []")
  case False
  assume a: "list_all unix_comp cs"
  then have "split_on fslash (join [fslash] cs) = cs" using False by (intro split_on_join) (auto simp: list_all_iff unix_comp_def)
  then show ?thesis using clean_fold [OF a] by simp
qed (simp add: clean_step_def)

lemma path_Clean_join:
  assumes "list_all unix_comp cs"
  shows "path_Clean (fslash # join [fslash] cs) = fslash # join [fslash] cs"
    and "path_Clean (fslash # join [fslash] cs @ [fslash]) = fslash # join [fslash] cs"
proof -
  have e: "clean_step True xs [] = xs" for xs by (simp add: clean_step_def)
  show "path_Clean (fslash # join [fslash] cs) = fslash # join [fslash] cs"
    using clean_join [OF assms] by (simp add: path_Clean_def Let_def e)
  show "path_Clean (fslash # join [fslash] cs @ [fslash]) = fslash # join [fslash] cs"
    using clean_join [OF assms] by (simp add: path_Clean_def Let_def e split_on_sep)
qed


text \<open>The Windows forms.\<close>

lemma win_step_clean: "win_comp c \<Longrightarrow> win_step acc c = acc @ [c]"
  by (auto simp: win_step_def win_comp_def trim_right_id)

lemma win_fold: "list_all win_comp cs \<Longrightarrow> foldl win_step acc cs = acc @ cs"
  by (induction cs arbitrary: acc) (simp_all add: win_step_clean)

lemma to_lower_chars: "to_lower c = c \<longleftrightarrow> (\<forall>x \<in> set c. lower_char x = x)"
  by (induction c) (auto simp: to_lower_def)

lemma win_step_comps:
  assumes "list_all win_comp acc" and "bslash \<notin> set c" and "to_lower c = c"
  shows "list_all win_comp (win_step acc c)"
proof -
  have "win_comp (trim_right c ''. '')" if "trim_right c ''. '' \<noteq> []"
    using that assms trim_right_last [OF that] set_trim_right [of c "''. ''"] by (auto simp: win_comp_def to_lower_chars)
  then show ?thesis using assms(1) by (auto simp: win_step_def list_all_iff Let_def dest: in_set_butlastD)
qed

lemma win_comps: "\<forall>c \<in> set cs. bslash \<notin> set c \<and> to_lower c = c \<Longrightarrow> list_all win_comp acc \<Longrightarrow> list_all win_comp (foldl win_step acc cs)"
  by (induction cs arbitrary: acc) (simp_all add: win_step_comps)

lemma win_step_chars: "\<Union> (set ` set (win_step acc c)) \<subseteq> \<Union> (set ` set acc) \<union> set c"
  using set_trim_right [of c] by (auto simp: win_step_def Let_def dest: in_set_butlastD)

lemma win_chars: "\<Union> (set ` set (foldl win_step acc cs)) \<subseteq> \<Union> (set ` set acc) \<union> \<Union> (set ` set cs)"
proof (induction cs arbitrary: acc)
  case (Cons c cs)
  have "\<Union> (set ` set (foldl win_step acc (c # cs))) \<subseteq> \<Union> (set ` set (win_step acc c)) \<union> \<Union> (set ` set cs)"
    unfolding foldl_Cons by (rule Cons.IH)
  also have "\<dots> \<subseteq> (\<Union> (set ` set acc) \<union> set c) \<union> \<Union> (set ` set cs)"
    using win_step_chars by (rule Un_mono) simp
  finally show ?case by (simp add: Un_assoc)
qed simp

lemma win_join: "list_all win_comp cs \<Longrightarrow> foldl win_step [] (split_on bslash (join [bslash] cs)) = cs"
proof (cases "cs = []")
  case False
  assume a: "list_all win_comp cs"
  then have "split_on bslash (join [bslash] cs) = cs" using False by (intro split_on_join) (auto simp: list_all_iff win_comp_def)
  then show ?thesis using win_fold [OF a] by simp
qed (simp add: win_step_def)

lemma lower_join: "list_all win_comp cs \<Longrightarrow> to_lower (join [bslash] cs) = join [bslash] cs"
  using set_join_sep [of "[bslash]" cs] by (fastforce simp: to_lower_chars list_all_iff win_comp_def lower_char_def)

definition win_form :: "string \<Rightarrow> string list \<Rightarrow> bool" where
  "win_form p cs \<longleftrightarrow> list_all win_comp cs \<and> (\<exists>c. p = c # CHR '':'' # bslash # join [bslash] cs \<and> 97 \<le> (of_char c :: nat) \<and> (of_char c :: nat) \<le> 122)"

lemma cleanWindows_form:
  assumes "isDriveAbs p"
  obtains cs where "win_form (cleanWindows p) cs" "\<Union> (set ` set cs) \<subseteq> set (to_lower p)"
proof -
  obtain c rest where p: "p = c # CHR '':'' # bslash # rest" and c: "65 \<le> (of_char c :: nat) \<and> (of_char c :: nat) \<le> 90 \<or> 97 \<le> (of_char c :: nat) \<and> (of_char c :: nat) \<le> 122"
    using assms by (auto simp: isDriveAbs_iff)
  define cs where "cs = foldl win_step [] (split_on bslash (to_lower rest))"
  have l: "lower_char CHR '':'' = CHR '':''" "lower_char bslash = bslash" by (simp_all add: lower_char_def)
  have cl: "cleanWindows p = lower_char c # CHR '':'' # bslash # join [bslash] cs"
    by (simp add: cleanWindows_def p cs_def to_lower_def l numeral_3_eq_3)
  have low: "to_lower w = w" if "w \<in> set (split_on bslash (to_lower rest))" for w
    unfolding to_lower_chars
  proof
    fix x assume "x \<in> set w"
    then have "x \<in> lower_char ` set rest" using split_on_chars [OF that] by (auto simp: to_lower_def)
    then show "lower_char x = x" by fastforce
  qed
  have "\<forall>w \<in> set (split_on bslash (to_lower rest)). bslash \<notin> set w \<and> to_lower w = w"
    using split_on_pieces [of bslash] low by blast
  then have "list_all win_comp cs" unfolding cs_def by (rule win_comps) simp
  moreover have "97 \<le> (of_char (lower_char c) :: nat) \<and> (of_char (lower_char c) :: nat) \<le> 122" using c by (auto simp: of_char_lower)
  ultimately have f: "win_form (cleanWindows p) cs" unfolding win_form_def cl by blast
  have "\<Union> (set ` set cs) \<subseteq> \<Union> (set ` set (split_on bslash (to_lower rest)))"
    unfolding cs_def using win_chars [of "[]"] by simp
  also have "\<dots> \<subseteq> set (to_lower p)"
    using split_on_chars [of _ bslash "to_lower rest"] by (auto simp: p to_lower_def)
  finally show thesis using that f by blast
qed

lemma cleanWindows_fix:
  assumes "win_form p cs"
  shows "isDriveAbs p" and "cleanWindows p = p" and "cs \<noteq> [] \<Longrightarrow> cleanWindows (p @ [bslash]) = p" and "\<not> has_prefix p [bslash, d]"
proof -
  obtain c where p: "p = c # CHR '':'' # bslash # join [bslash] cs" and c: "97 \<le> (of_char c :: nat)" "(of_char c :: nat) \<le> 122" and cs: "list_all win_comp cs"
    using assms by (auto simp: win_form_def)
  have l: "lower_char CHR '':'' = CHR '':''" "lower_char bslash = bslash" "lower_char c = c" using c by (simp_all add: lower_char_def)
  have j: "map lower_char (join [bslash] cs) = join [bslash] cs" using lower_join [OF cs] by (simp add: to_lower_def)
  have e: "win_step xs [] = xs" for xs by (simp add: win_step_def)
  show "isDriveAbs p" using c by (auto simp: isDriveAbs_iff p)
  show "cleanWindows p = p" using win_join [OF cs] by (simp add: cleanWindows_def p to_lower_def l j numeral_3_eq_3)
  show "cleanWindows (p @ [bslash]) = p"
    using win_join [OF cs] by (simp add: cleanWindows_def p to_lower_def l j numeral_3_eq_3 split_on_sep e)
  show "\<not> has_prefix p [bslash, d]" using c by (auto simp: p)
qed

section \<open>Reading a rule back\<close>

lemma snapDir_join:
  assumes "list_all unix_comp cs" and "snapDir (fslash # join [fslash] cs) = Some d"
  obtains n where "unix_comp n" "d = fslash # join [fslash] [''snap'', n] @ [fslash]" "set n \<subseteq> \<Union> (set ` set cs)"
proof -
  have "cs \<noteq> []" using assms(2) by (auto simp: snapDir_def trim_prefix_def)
  then have sp: "split_on fslash (trim_prefix (fslash # join [fslash] cs) [fslash]) = cs"
    using assms(1) by (auto simp: trim_prefix_def list_all_iff unix_comp_def intro: split_on_join)
  then obtain p1 p2 rest where cs: "cs = ''snap'' # p1 # p2 # rest"
    using assms(2) by (auto simp: snapDir_def split: list.splits if_splits)
  have u: "unix_comp p1" "unix_comp p2" using assms(1) by (simp_all add: cs)
  define name where "name = (case cut CHR ''.'' p2 of Some (a, _) \<Rightarrow> a | None \<Rightarrow> p2)"
  have nm: "set name \<subseteq> set p2 \<and> (name \<noteq> [] \<longrightarrow> unix_comp name)"
  proof (cases "cut CHR ''.'' p2")
    case (Some ab)
    obtain a b where ab: "ab = (a, b)" by (cases ab)
    have "p2 = a @ CHR ''.'' # b" "CHR ''.'' \<notin> set a" using cut_SomeD [of _ p2 a b] Some ab by auto
    then show ?thesis using u(2) Some ab by (auto simp: name_def unix_comp_def)
  qed (simp add: name_def u)
  have "d = ''/snap/'' @ p1 @ [fslash] \<or> (d = ''/snap/'' @ name @ [fslash] \<and> name \<noteq> [])"
    using assms(2) unfolding snapDir_def sp by (auto simp: cs name_def [symmetric] Let_def split: if_splits)
  then show thesis
  proof
    assume "d = ''/snap/'' @ p1 @ [fslash]"
    then show thesis using u by (intro that [of p1]) (auto simp: cs)
  next
    assume "d = ''/snap/'' @ name @ [fslash] \<and> name \<noteq> []"
    then show thesis using nm by (intro that [of name]) (auto simp: cs)
  qed
qed

lemma snapDir_two: "fslash \<notin> set n \<Longrightarrow> snapDir (fslash # join [fslash] [''snap'', n]) = None"
  by (simp add: snapDir_def trim_prefix_def)

lemma root_or_no_sep: "list_all unix_comp cs \<Longrightarrow> has_suffix (fslash # join [fslash] cs) [fslash] \<longleftrightarrow> cs = []"
proof (cases cs rule: rev_cases)
  case (snoc ds c)
  assume a: "list_all unix_comp cs"
  then have c: "c \<noteq> []" "fslash \<notin> set c" using snoc by (auto simp: unix_comp_def)
  then have "last (join [fslash] cs) = last c \<and> join [fslash] cs \<noteq> []" by (cases "ds = []") (auto simp: snoc join_append)
  moreover have "last c \<noteq> fslash" using c last_in_set by metis
  ultimately show ?thesis using c snoc by (auto simp: has_suffix_single)
qed (simp add: has_suffix_single)

lemma withSep_clean:
  assumes "list_all unix_comp cs"
  shows "withSep (fslash # join [fslash] cs) fslash = fslash # join [fslash] cs @ (if cs = [] then [] else [fslash])"
  using root_or_no_sep [OF assms] by (simp add: withSep_def)

lemma path_Clean_withSep: "list_all unix_comp cs \<Longrightarrow> path_Clean (withSep (fslash # join [fslash] cs) fslash) = fslash # join [fslash] cs"
  using path_Clean_join [of cs] by (auto simp: withSep_clean)

lemma unix_rooted [simp]: "has_prefix (withSep (fslash # s) fslash) [fslash]"
  by (simp add: withSep_def)

lemma linux_stable:
  assumes "parseLinuxRule e = Inr r" and "r \<noteq> CompiledRule RuleFile [fslash]"
  shows "parseLinuxRule (cr_raw r) = Inr r \<and> set (cr_raw r) \<subseteq> set e \<union> set ''/snap/''"
proof -
  have e: "has_prefix e [fslash]" using assms(1) by (auto simp: parseLinuxRule_def split: if_splits)
  then obtain cs where cs: "path_Clean e = fslash # join [fslash] cs" "list_all unix_comp cs" "\<Union> (set ` set cs) \<subseteq> set e"
    using path_Clean_rooted by blast
  have chars: "set (fslash # join [fslash] cs) \<subseteq> set e \<union> set ''/snap/''" using set_join_sep [of "[fslash]" cs] cs(3) by auto
  show ?thesis
  proof (cases "snapDir (path_Clean e)")
    case (Some d)
    then obtain n where n: "unix_comp n" "d = fslash # join [fslash] [''snap'', n] @ [fslash]" "set n \<subseteq> \<Union> (set ` set cs)"
      using snapDir_join [OF cs(2)] unfolding cs(1) by blast
    have r: "r = CompiledRule RuleDir d" using assms(1) e Some by (simp add: parseLinuxRule_def Let_def)
    have l: "list_all unix_comp [''snap'', n]" using n(1) by (simp add: unix_comp_def)
    have w: "d = withSep (fslash # join [fslash] [''snap'', n]) fslash" using withSep_clean [OF l] n(2) by simp
    have "path_Clean d = fslash # join [fslash] [''snap'', n]" unfolding w by (rule path_Clean_withSep [OF l])
    moreover have "snapDir (fslash # join [fslash] [''snap'', n]) = None" using n(1) by (intro snapDir_two) (simp add: unix_comp_def)
    moreover have "has_prefix d [fslash]" by (simp add: n(2))
    ultimately have "parseLinuxRule d = Inr r" using w by (simp add: parseLinuxRule_def Let_def r)
    then show ?thesis using n(2,3) cs(3) by (auto simp: r)
  next
    case None
    show ?thesis
    proof (cases "has_suffix e [fslash]")
      case True
      then have r: "r = CompiledRule RuleDir (withSep (fslash # join [fslash] cs) fslash)"
        using assms(1) e None by (simp add: parseLinuxRule_def Let_def cs(1))
      have "parseLinuxRule (cr_raw r) = Inr r" using None path_Clean_withSep [OF cs(2)] by (simp add: parseLinuxRule_def Let_def r cs(1))
      then show ?thesis using chars by (auto simp: r withSep_def)
    next
      case False
      then have r: "r = CompiledRule RuleFile (fslash # join [fslash] cs)"
        using assms(1) e None by (simp add: parseLinuxRule_def Let_def cs(1))
      have "cs \<noteq> []" using assms(2) r by auto
      then have "parseLinuxRule (cr_raw r) = Inr r"
        using None path_Clean_join(1) [OF cs(2)] root_or_no_sep [OF cs(2)] by (simp add: parseLinuxRule_def Let_def r cs(1))
      then show ?thesis using chars by (simp add: r)
    qed
  qed
qed

lemma darwin_stable:
  assumes "parseDarwinRule e = Inr r" and "r \<noteq> CompiledRule RuleFile [fslash]"
  shows "parseDarwinRule (cr_raw r) = Inr r \<and> set (cr_raw r) \<subseteq> set e \<union> set ''/snap/''"
proof -
  have e: "has_prefix e [fslash]" using assms(1) by (auto simp: parseDarwinRule_def split: if_splits)
  then obtain cs where cs: "path_Clean e = fslash # join [fslash] cs" "list_all unix_comp cs" "\<Union> (set ` set cs) \<subseteq> set e"
    using path_Clean_rooted by blast
  have chars: "set (fslash # join [fslash] cs) \<subseteq> set e \<union> set ''/snap/''" using set_join_sep [of "[fslash]" cs] cs(3) by auto
  show ?thesis
  proof (cases "cs \<noteq> [] \<and> has_suffix (to_lower (fslash # join [fslash] cs)) ''.app''")
    case True
    have ne: "join [fslash] cs \<noteq> []" if "list_all unix_comp cs" "cs \<noteq> []" for cs
      using that by (induction "[fslash]" cs rule: join.induct) (auto simp: unix_comp_def)
    then have app: "join [fslash] cs \<noteq> []" using True cs(2) by blast
    then have r: "r = CompiledRule RuleBundle (fslash # join [fslash] cs @ [fslash])"
      using assms(1) e True by (simp add: parseDarwinRule_def Let_def cs(1))
    then have "parseDarwinRule (cr_raw r) = Inr r"
      using path_Clean_join(2) [OF cs(2)] True app by (simp add: parseDarwinRule_def Let_def)
    then show ?thesis using chars by (auto simp: r)
  next
    case False
    then have noapp: "\<not> (path_Clean e \<noteq> [fslash] \<and> has_suffix (to_lower (path_Clean e)) ''.app'')" by (auto simp: cs(1))
    show ?thesis
    proof (cases "has_suffix e [fslash]")
      case True
      then have r: "r = CompiledRule RuleDir (withSep (path_Clean e) fslash)"
        using assms(1) e noapp unfolding parseDarwinRule_def Let_def by simp
      have "parseDarwinRule (cr_raw r) = Inr r" using noapp path_Clean_withSep [OF cs(2)] unfolding parseDarwinRule_def Let_def r cs(1) by simp
      then show ?thesis using chars by (auto simp: r withSep_def cs(1))
    next
      case f: False
      then have r: "r = CompiledRule RuleFile (path_Clean e)"
        using assms(1) e noapp unfolding parseDarwinRule_def Let_def by simp
      have "cs \<noteq> []" using assms(2) r by (auto simp: cs(1))
      then have "parseDarwinRule (cr_raw r) = Inr r"
        using noapp path_Clean_join(1) [OF cs(2)] root_or_no_sep [OF cs(2)] unfolding parseDarwinRule_def Let_def r cs(1) by simp
      then show ?thesis using chars by (simp add: r cs(1))
    qed
  qed
qed

lemma windows_stable:
  assumes "parseWindowsRule e = Inr r"
  shows "parseWindowsRule (cr_raw r) = Inr r \<and> set (cr_raw r) \<subseteq> set (to_lower e) \<union> {bslash, CHR '':''} \<union> {c. 97 \<le> (of_char c :: nat)}"
proof -
  define p where "p = replace_char fslash bslash e"
  have abs: "isDriveAbs p" using assms by (auto simp: parseWindowsRule_def p_def Let_def split: if_splits)
  obtain cs where cs: "win_form (cleanWindows p) cs" "\<Union> (set ` set cs) \<subseteq> set (to_lower p)" by (rule cleanWindows_form [OF abs])
  note fx = cleanWindows_fix [OF cs(1)]
  obtain c where f: "cleanWindows p = c # CHR '':'' # bslash # join [bslash] cs" "97 \<le> (of_char c :: nat)" and lc: "list_all win_comp cs"
    using cs(1) by (auto simp: win_form_def)
  have j: "set (join [bslash] cs) \<subseteq> set (to_lower p) \<union> {bslash}" using set_join_sep [of "[bslash]" cs] cs(2) by auto
  have np: "fslash \<notin> set (to_lower p)"
  proof
    assume "fslash \<in> set (to_lower p)"
    then obtain x where x: "x \<in> set p" "lower_char x = fslash" by (auto simp: to_lower_def)
    have "lower_char x = fslash \<longleftrightarrow> x = fslash" by (rule lower_eq_plain) simp
    then show False using x replace_char_gone [of fslash bslash e] by (simp add: p_def)
  qed
  then have nf: "fslash \<notin> set (cleanWindows p)" using j f by auto
  have low: "set (to_lower p) \<subseteq> set (to_lower e) \<union> {bslash}" by (auto simp: to_lower_def p_def replace_char_def lower_char_def)
  have chars: "set (cleanWindows p) \<subseteq> set (to_lower e) \<union> {bslash, CHR '':''} \<union> {c. 97 \<le> (of_char c :: nat)}" using j f low by auto
  have pre: "\<not> has_prefix (cleanWindows p @ s) [bslash, bslash]" "\<not> has_prefix (cleanWindows p @ s) [bslash, CHR ''?'', CHR ''?'', bslash]" for s
    using f by auto
  show ?thesis
  proof (cases "has_suffix p [bslash]")
    case True
    then have r: "r = CompiledRule RuleDir (withSep (cleanWindows p) bslash)"
      using assms abs by (auto simp: parseWindowsRule_def p_def [symmetric] Let_def split: if_splits)
    have w: "withSep (cleanWindows p) bslash = cleanWindows p @ (if has_suffix (cleanWindows p) [bslash] then [] else [bslash])" by (simp add: withSep_def)
    have "cs = [] \<Longrightarrow> has_suffix (cleanWindows p) [bslash]" using f by (simp add: has_suffix_single)
    then have cw: "cleanWindows (withSep (cleanWindows p) bslash) = cleanWindows p" using fx(2,3) by (auto simp: withSep_def)
    have "isDriveAbs (withSep (cleanWindows p) bslash)" using fx(1) unfolding isDriveAbs_iff w by (metis append_Cons)
    moreover have "replace_char fslash bslash (withSep (cleanWindows p) bslash) = withSep (cleanWindows p) bslash"
      using nf by (intro replace_char_none) (simp add: w)
    ultimately have "parseWindowsRule (cr_raw r) = Inr r" using pre cw by (simp add: parseWindowsRule_def Let_def r) (simp add: w)
    then show ?thesis using chars by (auto simp: r w)
  next
    case False
    then have r: "r = CompiledRule RuleFile (cleanWindows p)" "3 < length (cleanWindows p)" "has_suffix (cleanWindows p) ''.exe''"
      using assms abs by (auto simp: parseWindowsRule_def p_def [symmetric] Let_def split: if_splits)
    have "last (cleanWindows p) = CHR ''e''" using has_suffix_last [of _ "''.ex''"] r(3) by simp
    then have "\<not> has_suffix (cleanWindows p) [bslash]" by (simp add: has_suffix_single)
    then have "parseWindowsRule (cr_raw r) = Inr r"
      using r fx(1,2) pre [of "[]"] replace_char_none [OF nf] by (simp add: parseWindowsRule_def Let_def)
    then show ?thesis using chars by (simp add: r)
  qed
qed

text \<open>C29: A normalised rule is a normal form: handing its text back to the compiler gives the same rule again, of
  the same kind.  The only exceptions are a text the final separator takes past the length limit and
  the file rule for the root directory, which the entries that clean to the root without ending in
  a slash become.\<close>

theorem parseRule_stable:
  assumes "parseRule goos e = Inr r" and "length (cr_raw r) \<le> maxRuleLen" and "r \<noteq> CompiledRule RuleFile [fslash]"
  shows "parseRule goos (cr_raw r) = Inr r"
proof -
  have nul: "CHR 0x00 \<notin> set e" using assms(1) by (auto simp: parseRule_def split: if_splits)
  have low: "CHR 0x00 \<notin> set (to_lower e)"
  proof
    assume "CHR 0x00 \<in> set (to_lower e)"
    then obtain x where x: "x \<in> set e" "lower_char x = CHR 0x00" by (auto simp: to_lower_def)
    have "lower_char x = CHR 0x00 \<longleftrightarrow> x = CHR 0x00" by (rule lower_eq_plain) simp
    then show False using x nul by simp
  qed
  have p: "if goos = ''windows'' then parseWindowsRule e = Inr r else if goos = ''darwin'' then parseDarwinRule e = Inr r else parseLinuxRule e = Inr r"
    using assms(1) by (auto simp: parseRule_def split: if_splits)
  have stable: "(if goos = ''windows'' then parseWindowsRule (cr_raw r) else if goos = ''darwin'' then parseDarwinRule (cr_raw r) else parseLinuxRule (cr_raw r)) = Inr r
      \<and> CHR 0x00 \<notin> set (cr_raw r)"
  proof (cases "goos = ''windows''")
    case True
    then show ?thesis using windows_stable [of e r] p low by auto
  next
    case False
    then show ?thesis using linux_stable [of e r] darwin_stable [of e r] p nul assms(3) by (cases "goos = ''darwin''") auto
  qed
  then show ?thesis using assms(2) by (simp add: parseRule_def)
qed

theorem parseRule_stable_witness:
  "parseRule ''linux'' ''/snap/firefox/4173/usr/../bin/'' = Inr (CompiledRule RuleDir ''/snap/firefox/'') \<and>
   parseRule ''linux'' ''/snap/firefox/'' = Inr (CompiledRule RuleDir ''/snap/firefox/'')"
proof -
  have a: "parseRule ''linux'' ''/snap/firefox/4173/usr/../bin/'' = Inr (CompiledRule RuleDir ''/snap/firefox/'')" by code_simp
  have "parseRule ''linux'' (cr_raw (CompiledRule RuleDir ''/snap/firefox/'')) = Inr (CompiledRule RuleDir ''/snap/firefox/'')"
    by (rule parseRule_stable [OF a]) (simp_all add: maxRuleLen_def)
  then show ?thesis using a by simp
qed

section \<open>Folder rules\<close>

definition path_sep :: "string \<Rightarrow> char" where
  "path_sep goos = (if goos = ''windows'' then bslash else fslash)"

lemma snapDir_sep: "snapDir c = Some d \<Longrightarrow> has_suffix d [fslash]"
  by (auto simp: snapDir_def Let_def has_suffix_single split: list.splits if_splits)

lemma folder_sep:
  assumes "parseRule goos e = Inr r" and "cr_kind r \<noteq> RuleFile"
  shows "has_suffix (cr_raw r) [path_sep goos]"
  using assms snapDir_sep
  by (auto simp: parseRule_def parseWindowsRule_def parseDarwinRule_def parseLinuxRule_def Let_def path_sep_def split: if_splits option.splits)

lemma prefix_components:
  "has_prefix p (d @ [sep]) \<longleftrightarrow> (\<exists>rest. rest \<noteq> [] \<and> split_on sep p = split_on sep d @ rest)"
proof
  assume "has_prefix p (d @ [sep])"
  then obtain t where "p = d @ sep # t" by (auto dest: has_prefixE)
  then show "\<exists>rest. rest \<noteq> [] \<and> split_on sep p = split_on sep d @ rest" by (auto simp: split_on_sep)
next
  assume "\<exists>rest. rest \<noteq> [] \<and> split_on sep p = split_on sep d @ rest"
  then obtain rest where r: "rest \<noteq> []" "split_on sep p = split_on sep d @ rest" by blast
  then have "split_on sep (join [sep] rest) = rest" using split_on_pieces [of sep p] by (intro split_on_join) auto
  then have "split_on sep p = split_on sep (d @ sep # join [sep] rest)" using r by (simp add: split_on_sep)
  then have "p = (d @ [sep]) @ join [sep] rest" by (simp add: split_on_inj)
  then show "has_prefix p (d @ [sep])" by (metis has_prefix_append)
qed

text \<open>C30: A folder rule (a directory, a bundle, a snap) covers exactly the paths below it, component by component:
  never a sibling whose name merely begins with the folder's name, and never the folder itself.\<close>

theorem folder_rule_components:
  assumes "parseRule goos e = Inr r" and "cr_kind r \<noteq> RuleFile"
  shows "covers r p \<longleftrightarrow> (\<exists>rest. rest \<noteq> [] \<and> split_on (path_sep goos) p = butlast (split_on (path_sep goos) (cr_raw r)) @ rest)"
proof -
  obtain d where "cr_raw r = d @ [path_sep goos]"
    using folder_sep [OF assms] by (metis append_butlast_last_id has_suffix_single)
  then show ?thesis using assms(2) prefix_components [of p d] by (simp add: covers_def split_on_sep butlast_append)
qed

theorem folder_rule_components_witness:
  "covers (CompiledRule RuleDir ''/opt/app/'') ''/opt/app/bin/x'' \<and> \<not> covers (CompiledRule RuleDir ''/opt/app/'') ''/opt/application/x''"
proof -
  have a: "parseRule ''linux'' ''/opt//app/'' = Inr (CompiledRule RuleDir ''/opt/app/'')" by code_simp
  have s: "split_on (path_sep ''linux'') ''/opt/app/'' = [[], ''opt'', ''app'', []]"
    "split_on (path_sep ''linux'') ''/opt/app/bin/x'' = [[], ''opt'', ''app'', ''bin'', ''x'']"
    "split_on (path_sep ''linux'') ''/opt/application/x'' = [[], ''opt'', ''application'', ''x'']"
    by (simp_all add: path_sep_def)
  show ?thesis using folder_rule_components [OF a, of "''/opt/app/bin/x''"] folder_rule_components [OF a, of "''/opt/application/x''"] s by simp
qed

end
