(* ===== verification/Rule_Policy.thy ===== *)
theory Rule_Policy
  imports Rule_Normal
begin

text \<open>splittunnel/procmatch/env.go: the per-system policy on parsed rules (folders too broad to exclude,
  session roots, interpreters, the daemon's own images) and the images the ancestor walk stops at.
  Go maps used as sets are lists in source order.  The resolver and the check of a translocation mount are
  the system's, so they are arguments where they are used.\<close>

section \<open>Environment\<close>

record rule_env =
  re_goos :: string
  re_systemRoots :: "string list"
  re_usersRoots :: "string list"
  re_broad :: "string list"
  re_protected :: "compiled_rule list"
  re_own :: "compiled_rule list"

record env_settings =
  es_systemRoots :: "string list"
  es_programDirs :: "string list"
  es_usersRoots :: "string list"
  es_initExe :: string
  es_own :: "string list"

definition winProtectedNames :: "string list" where
  "winProtectedNames = [''explorer.exe'', ''smss.exe'', ''csrss.exe'', ''wininit.exe'', ''winlogon.exe'', ''services.exe'', ''lsass.exe'',
     ''svchost.exe'', ''userinit.exe'', ''sihost.exe'', ''runtimebroker.exe'', ''dllhost.exe'', ''taskhostw.exe'', ''dwm.exe'', ''ctfmon.exe'',
     ''fontdrvhost.exe'', ''conhost.exe'', ''applicationframehost.exe'', ''startmenuexperiencehost.exe'', ''shellexperiencehost.exe'',
     ''searchhost.exe'']"

definition linuxProtectedNames :: "string list" where
  "linuxProtectedNames = [''systemd'', ''dbus-daemon'', ''gnome-shell'', ''gnome-session-binary'', ''plasmashell'', ''ksmserver'',
     ''kwin_wayland'', ''kwin_x11'', ''Xorg'', ''Xwayland'']"

definition linuxProtectedPrefixes :: "string list" where
  "linuxProtectedPrefixes = [''dbus-broker'', ''gdm'', ''sddm'', ''lightdm'', ''xdg-desktop-portal'']"

definition linuxInterpreters :: "string list" where
  "linuxInterpreters = [''sh'', ''bash'', ''dash'', ''zsh'', ''fish'', ''ksh'', ''env'', ''node'', ''java'', ''php'', ''flatpak'', ''bwrap'',
     ''snap'', ''snap-confine'', ''xdg-open'', ''gtk-launch'', ''gio'', ''sudo'', ''pkexec'']"

definition linuxInterpreterPrefixes :: "string list" where
  "linuxInterpreterPrefixes = [''python'', ''perl'', ''ruby'', ''wine'', ''systemd'']"

definition hasAnyPrefix :: "string \<Rightarrow> string list \<Rightarrow> bool" where
  "hasAnyPrefix s ps \<longleftrightarrow> list_ex (has_prefix s) ps"

definition linuxProtectedBase :: "string \<Rightarrow> bool" where
  "linuxProtectedBase base \<longleftrightarrow> base \<in> set linuxProtectedNames \<or> hasAnyPrefix base linuxProtectedPrefixes"

definition linuxInterpreter :: "string \<Rightarrow> bool" where
  "linuxInterpreter base \<longleftrightarrow> base \<in> set linuxInterpreters \<or> hasAnyPrefix base linuxInterpreterPrefixes"

definition bs :: "string list \<Rightarrow> string" where
  "bs ws = join [bslash] ws"

text \<open>initWindows: drive-absolute roots, cleaned, without repeats.\<close>

definition add_roots :: "string list \<Rightarrow> string list" where
  "add_roots raw = foldl (\<lambda>dst p. let q = replace_char fslash bslash p in
       if \<not> isDriveAbs q then dst else let c = cleanWindows q in if c \<in> set dst then dst else dst @ [c]) [] raw"

definition initWindows :: "env_settings \<Rightarrow> rule_env \<Rightarrow> rule_env" where
  "initWindows s e =
    (let sys = add_roots (bs [''c:'', ''windows''] # es_systemRoots s);
         programs = add_roots ([bs [''c:'', ''program files''], bs [''c:'', ''program files (x86)''], bs [''c:'', ''program files (arm)''],
                                bs [''c:'', ''programdata'']] @ es_programDirs s);
         users = add_roots (bs [''c:'', ''users''] # es_usersRoots s)
     in e\<lparr>re_systemRoots := sys, re_usersRoots := users,
         re_broad := map (\<lambda>r. withSep r bslash) sys
           @ concat (map (\<lambda>p. withSep p bslash #
               (if has_suffix p (bslash # ''program files'') then [p @ [bslash] @ ''windowsapps'' @ [bslash]] else [])) programs)
           @ map (\<lambda>u. withSep u bslash) users,
         re_protected := concat (map (\<lambda>root.
             concat (map (\<lambda>name. [CompiledRule RuleFile (root @ bslash # ''system32'' @ bslash # name),
                                  CompiledRule RuleFile (root @ bslash # ''syswow64'' @ bslash # name)]) winProtectedNames)
             @ [CompiledRule RuleFile (root @ bslash # ''explorer.exe'')]) sys)\<rparr>)"

definition own_rules :: "string \<Rightarrow> string list \<Rightarrow> compiled_rule list" where
  "own_rules goos ps = concat (map (\<lambda>p. case parseRule goos p of
       Inr r \<Rightarrow> if cr_kind r = RuleFile then [r] else [] | Inl _ \<Rightarrow> []) ps)"

definition newRuleEnv :: "string \<Rightarrow> env_settings \<Rightarrow> rule_env" where
  "newRuleEnv goos s =
    (let e0 = \<lparr>re_goos = goos, re_systemRoots = [], re_usersRoots = [], re_broad = [], re_protected = [], re_own = []\<rparr>;
         e1 = (if goos = ''windows'' then initWindows s e0
           else if goos = ''darwin'' then e0\<lparr>
             re_broad := [''/'', ''/Applications/'', ''/System/'', ''/Library/'', ''/usr/'', ''/Users/''],
             re_protected := [CompiledRule RuleFile ''/sbin/launchd'', CompiledRule RuleFile ''/usr/libexec/xpcproxy'',
               CompiledRule RuleBundle ''/System/Library/CoreServices/Finder.app/'',
               CompiledRule RuleBundle ''/System/Library/CoreServices/Dock.app/'',
               CompiledRule RuleBundle ''/System/Library/CoreServices/loginwindow.app/'']\<rparr>
           else e0\<lparr>
             re_broad := [''/'', ''/usr/'', ''/usr/local/'', ''/usr/bin/'', ''/usr/sbin/'', ''/usr/share/'', ''/bin/'', ''/sbin/'', ''/opt/'',
               ''/home/'', ''/tmp/'', ''/var/'', ''/snap/'', ''/root/''],
             re_protected := map (\<lambda>p. CompiledRule RuleFile (path_Clean p)) (filter (\<lambda>p. has_prefix p [fslash])
               [''/sbin/init'', ''/usr/sbin/init'', ''/lib/systemd/systemd'', ''/usr/lib/systemd/systemd'', ''/usr/lib/xorg/Xorg'', es_initExe s])\<rparr>)
     in e1\<lparr>re_own := own_rules goos (es_own s)\<rparr>)"

section \<open>Too broad\<close>

definition sharedUserDir :: "string \<Rightarrow> bool" where
  "sharedUserDir name \<longleftrightarrow> name \<in> {''desktop'', ''downloads'', ''documents''}"

definition user_dir_tails :: "string list" where
  "user_dir_tails = [[], ''appdata'', bs [''appdata'', ''local''], bs [''appdata'', ''roaming''], bs [''appdata'', ''local'', ''programs''],
     ''desktop'', ''downloads'', ''documents'', bs [''appdata'', ''local'', ''temp'']]"

definition tooBroadWindows :: "rule_env \<Rightarrow> string \<Rightarrow> bool" where
  "tooBroadWindows e dir \<longleftrightarrow> length dir \<le> 3 \<or>
     list_ex (\<lambda>b. trim_suffix dir [bslash] = trim_suffix b [bslash] @ bslash # ''common files'') (re_broad e) \<or>
     list_ex (\<lambda>u. case cut_prefix dir (u @ [bslash]) of None \<Rightarrow> False
       | Some rest \<Rightarrow> (let parts = split_on bslash (trim_suffix rest [bslash]) in
           join [bslash] (tl parts) \<in> set user_dir_tails \<or>
           (2 \<le> length parts \<and> has_prefix (parts ! 1) ''onedrive'' \<and>
             (length parts = 2 \<or> length parts = 3 \<and> sharedUserDir (parts ! 2))))) (re_usersRoots e)"

definition tooBroadDarwin :: "string \<Rightarrow> bool" where
  "tooBroadDarwin cmp \<longleftrightarrow> (case cut_prefix cmp ''/users/'' of None \<Rightarrow> False
     | Some rest \<Rightarrow> (let parts = split_on fslash (trim_suffix rest [fslash]) in
         length parts = 1 \<or> length parts = 2 \<and> sharedUserDir (parts ! 1)))"

definition trim_both :: "string \<Rightarrow> string \<Rightarrow> string" where
  "trim_both s cutset = dropWhile (\<lambda>c. c \<in> set cutset) (trim_right s cutset)"

definition tooBroadLinux :: "string \<Rightarrow> bool" where
  "tooBroadLinux dir \<longleftrightarrow> (let parts = split_on fslash (trim_both dir [fslash]) in
     length parts = 1 \<and> has_prefix (parts ! 0) ''lib'' \<or>
     length parts = 2 \<and> parts ! 0 = ''usr'' \<and> has_prefix (parts ! 1) ''lib'' \<or>
     length parts = 2 \<and> parts ! 0 = ''home'' \<or>
     length parts = 3 \<and> parts ! 0 = ''home'' \<and> sharedUserDir (to_lower (parts ! 2)))"

text \<open>macOS file systems fold case, so the comparison does.\<close>

definition fold_case :: "rule_env \<Rightarrow> string \<Rightarrow> string" where
  "fold_case e p = (if re_goos e = ''darwin'' then to_lower p else p)"

definition tooBroad :: "rule_env \<Rightarrow> string \<Rightarrow> bool" where
  "tooBroad e dir \<longleftrightarrow> list_ex (\<lambda>b. has_prefix (fold_case e b) (fold_case e dir)) (re_broad e) \<or>
     (if re_goos e = ''windows'' then tooBroadWindows e dir
      else if re_goos e = ''darwin'' then tooBroadDarwin (fold_case e dir) else tooBroadLinux dir)"

section \<open>System processes\<close>

definition fold_rule :: "rule_env \<Rightarrow> compiled_rule \<Rightarrow> compiled_rule" where
  "fold_rule e r = CompiledRule (cr_kind r) (fold_case e (cr_raw r))"

definition count_char :: "char \<Rightarrow> string \<Rightarrow> nat" where
  "count_char c s = length (filter (\<lambda>x. x = c) s)"

definition systemProcess :: "rule_env \<Rightarrow> compiled_rule \<Rightarrow> bool" where
  "systemProcess e r \<longleftrightarrow> list_ex (\<lambda>p. rule_overlaps (fold_rule e r) (fold_rule e p)) (re_protected e) \<or>
     (if re_goos e = ''windows'' then list_ex (\<lambda>root.
          cr_kind r = RuleFile \<and> has_prefix (cr_raw r) (root @ [bslash]) \<and> winBase (cr_raw r) \<in> set winProtectedNames \<or>
          cr_kind r = RuleDir \<and> has_prefix (cr_raw r) (root @ bslash # ''systemapps'' @ [bslash])) (re_systemRoots e)
      else if re_goos e = ''darwin'' then False
      else if cr_kind r = RuleFile then (let base = path_Base (cr_raw r) in linuxProtectedBase base \<or> linuxInterpreter base)
      else (case cut_prefix (cr_raw r) ''/snap/'' of None \<Rightarrow> False
            | Some name \<Rightarrow> count_char fslash name = 1 \<and>
                linuxInterpreter (case cut CHR ''.'' (trim_suffix name [fslash]) of Some (a, _) \<Rightarrow> a | None \<Rightarrow> trim_suffix name [fslash])))"

text \<open>The images at which the ancestor walk stops.\<close>

definition isStop :: "rule_env \<Rightarrow> string \<Rightarrow> bool" where
  "isStop e p \<longleftrightarrow> (if p = [] then False
     else if re_goos e = ''windows'' then (let q = normalizeWinImage p in
         list_ex (\<lambda>root. has_prefix q (root @ [bslash]) \<and> winBase q \<in> set winProtectedNames) (re_systemRoots e))
     else if re_goos e = ''darwin'' then list_ex (\<lambda>r. covers (fold_rule e r) (to_lower p)) (re_protected e)
     else list_ex (\<lambda>r. covers r p) (re_protected e) \<or> linuxProtectedBase (path_Base p))"

section \<open>Policy\<close>

definition policy :: "rule_env \<Rightarrow> compiled_rule \<Rightarrow> compiled_rule list \<Rightarrow> rule_code option" where
  "policy e r never = (if cr_kind r \<noteq> RuleFile \<and> tooBroad e (cr_raw r) then Some CodeTooBroad
     else if systemProcess e r then Some CodeSystemProcess
     else if list_ex (rule_overlaps r) (re_own e) then Some CodeOwnImage
     else if list_ex (rule_overlaps r) never then Some CodeOwnImage
     else None)"

definition env_check :: "rule_env \<Rightarrow> string \<Rightarrow> compiled_rule list \<Rightarrow> (rule_code, compiled_rule) result" where
  "env_check e entry never = bind_res (parseRule (re_goos e) entry)
     (\<lambda>r. case policy e r never of Some c \<Rightarrow> Inl c | None \<Rightarrow> Inr r)"

lemma env_check_Inr: "env_check e entry never = Inr r \<longleftrightarrow> parseRule (re_goos e) entry = Inr r \<and> policy e r never = None"
  by (auto simp: env_check_def split: option.splits)

lemma policy_None: "policy e r never = None \<Longrightarrow> \<not> systemProcess e r \<and> (\<forall>w \<in> set (re_own e) \<union> set never. \<not> rule_overlaps r w) \<and>
    (cr_kind r = RuleFile \<or> \<not> tooBroad e (cr_raw r))"
  by (auto simp: policy_def list_ex_iff split: if_splits)

end
