(* ===== verification/Rule_Match.thy ===== *)
theory Rule_Match
  imports Rule_Policy
begin

text \<open>splittunnel/procmatch/rules.go, the compiled rule set: checking the entries, the match index, equality of
  rule sets, matching a process image or a chain of images, and the background resolution of links.
  The system's resolver is the argument \<open>found\<close> (what it answered in time for each rule), and the check of a
  Gatekeeper mount is the function stored in the rule set, as in the code.\<close>

section \<open>The index\<close>

record match_index =
  mi_exact :: "string set"
  mi_prefix :: "string list"
  mi_bundles :: "string list"

definition empty_index :: match_index where
  "empty_index = \<lparr>mi_exact = {}, mi_prefix = [], mi_bundles = []\<rparr>"

definition idx_add :: "match_index \<Rightarrow> compiled_rule \<Rightarrow> match_index" where
  "idx_add m r = (if cr_kind r = RuleFile then m\<lparr>mi_exact := insert (cr_raw r) (mi_exact m)\<rparr>
     else let m1 = m\<lparr>mi_prefix := mi_prefix m @ [cr_raw r]\<rparr> in
       if cr_kind r = RuleBundle then m1\<lparr>mi_bundles := mi_bundles m @ [path_Base (trim_suffix (cr_raw r) [fslash])]\<rparr> else m1)"

definition idx_match :: "match_index \<Rightarrow> string \<Rightarrow> bool" where
  "idx_match m p \<longleftrightarrow> p \<in> mi_exact m \<or> list_ex (has_prefix p) (mi_prefix m)"

definition hasBundle :: "match_index \<Rightarrow> string \<Rightarrow> bool" where
  "hasBundle m name \<longleftrightarrow> name \<in> set (mi_bundles m)"

definition index_of :: "compiled_rule list \<Rightarrow> match_index" where
  "index_of rs = foldl idx_add empty_index rs"

lemma idx_add_match: "idx_match (idx_add m r) p \<longleftrightarrow> idx_match m p \<or> covers r p"
  by (auto simp: idx_add_def idx_match_def covers_def Let_def)

lemma foldl_match: "idx_match (foldl idx_add m rs) p \<longleftrightarrow> idx_match m p \<or> (\<exists>r \<in> set rs. covers r p)"
  by (induction rs arbitrary: m) (auto simp: idx_add_match)

lemma index_of_match: "idx_match (index_of rs) p \<longleftrightarrow> (\<exists>r \<in> set rs. covers r p)"
  by (simp add: index_of_def foldl_match) (simp add: idx_match_def empty_index_def)

lemma index_of_bundles: "hasBundle (index_of rs) n \<longleftrightarrow> (\<exists>r \<in> set rs. cr_kind r = RuleBundle \<and> path_Base (trim_suffix (cr_raw r) [fslash]) = n)"
proof -
  have "hasBundle (foldl idx_add m rs) n \<longleftrightarrow> hasBundle m n \<or> (\<exists>r \<in> set rs. cr_kind r = RuleBundle \<and> path_Base (trim_suffix (cr_raw r) [fslash]) = n)" for m
    by (induction rs arbitrary: m) (auto simp: idx_add_def hasBundle_def Let_def)
  then show ?thesis by (simp add: index_of_def) (simp add: hasBundle_def empty_index_def)
qed

section \<open>Rule sets\<close>

record resolution =
  rn_extra :: "match_index option"
  rn_done :: bool

datatype rules = Rules (rl_goos: string) (rl_rules: "compiled_rule list") (rl_idx: match_index)
  (rl_res: "resolution option") (rl_never: "rules option") (rl_translocated: "(string \<Rightarrow> bool) option")

definition newRules :: "string \<Rightarrow> compiled_rule list \<Rightarrow> rules" where
  "newRules goos rs = (let rs1 = sort rs in Rules goos rs1 (index_of rs1) None None None)"

definition rules_Empty :: "rules option \<Rightarrow> bool" where
  "rules_Empty r \<longleftrightarrow> (case r of None \<Rightarrow> True | Some x \<Rightarrow> rl_rules x = [])"

definition sameEntries :: "rules option \<Rightarrow> rules option \<Rightarrow> bool" where
  "sameEntries r q \<longleftrightarrow> (if rules_Empty r \<or> rules_Empty q then rules_Empty r \<and> rules_Empty q
     else rl_rules (the r) = rl_rules (the q))"

definition rules_Equal :: "rules option \<Rightarrow> rules option \<Rightarrow> bool" where
  "rules_Equal r q \<longleftrightarrow> (if rules_Empty r \<or> rules_Empty q then rules_Empty r \<and> rules_Empty q
     else rl_goos (the r) = rl_goos (the q) \<and> rl_rules (the r) = rl_rules (the q) \<and> sameEntries (rl_never (the r)) (rl_never (the q)))"

section \<open>Matching\<close>

text \<open>strings.Cut at a longer separator.\<close>

fun cut_str :: "string \<Rightarrow> string \<Rightarrow> (string \<times> string) option" where
  "cut_str sep s = (if has_prefix s sep then Some ([], drop (length sep) s)
     else (case s of [] \<Rightarrow> None | c # cs \<Rightarrow> map_option (\<lambda>(a, b). (c # a, b)) (cut_str sep cs)))"

definition splitN4 :: "char \<Rightarrow> string \<Rightarrow> string list" where
  "splitN4 sep s = (let ps = split_on sep s in if length ps \<le> 4 then ps else take 3 ps @ [join [sep] (drop 3 ps)])"

definition res_extra :: "rules \<Rightarrow> match_index option" where
  "res_extra r = (case rl_res r of None \<Rightarrow> None | Some n \<Rightarrow> rn_extra n)"

definition matchTranslocated :: "rules \<Rightarrow> string \<Rightarrow> bool" where
  "matchTranslocated r p \<longleftrightarrow> (if \<not> has_prefix p ''/private/var/folders/'' then False
     else case cut_str ''/AppTranslocation/'' p of None \<Rightarrow> False
     | Some (head, rest) \<Rightarrow> (let parts = splitN4 fslash rest in
         if length parts < 4 \<or> parts ! 0 = [] \<or> parts ! 1 \<noteq> ''d'' \<or> \<not> has_suffix (to_lower (parts ! 2)) ''.app'' then False
         else let name = parts ! 2; known = (hasBundle (rl_idx r) name \<or> (case res_extra r of None \<Rightarrow> False | Some x \<Rightarrow> hasBundle x name))
           in known \<and> (case rl_translocated r of None \<Rightarrow> False
                | Some f \<Rightarrow> f (head @ ''/AppTranslocation/'' @ parts ! 0 @ ''/d''))))"

definition image_form :: "string \<Rightarrow> string \<Rightarrow> string" where
  "image_form goos p = (if goos = ''windows'' then normalizeWinImage p else p)"

definition MatchPath :: "rules option \<Rightarrow> string \<Rightarrow> bool" where
  "MatchPath ro p0 \<longleftrightarrow> (if rules_Empty ro \<or> p0 = [] then False
     else let r = the ro; p = image_form (rl_goos r) p0 in
       idx_match (rl_idx r) p \<or> (case res_extra r of None \<Rightarrow> False | Some x \<Rightarrow> idx_match x p) \<or>
       (rl_goos r = ''darwin'' \<and> matchTranslocated r p))"

definition MatchChain :: "rules option \<Rightarrow> string list \<Rightarrow> bool" where
  "MatchChain r chain \<longleftrightarrow> list_ex (MatchPath r) chain"

lemma MatchPath_Nil [simp]: "\<not> MatchPath r []"
  by (simp add: MatchPath_def)

lemma MatchPath_Empty: "rules_Empty r \<Longrightarrow> \<not> MatchPath r p"
  by (simp add: MatchPath_def)

lemma MatchChain_Empty: "rules_Empty r \<Longrightarrow> \<not> MatchChain r c"
  by (simp add: MatchChain_def MatchPath_Empty list_ex_iff)

section \<open>Compiling\<close>

fun check_from :: "rule_env \<Rightarrow> compiled_rule list \<Rightarrow> nat \<Rightarrow> string list \<Rightarrow> compiled_rule list \<times> (nat \<times> rule_code) list
    \<Rightarrow> compiled_rule list \<times> (nat \<times> rule_code) list" where
  "check_from env never i [] acc = acc"
| "check_from env never i (entry # es) (out, errs) = check_from env never (Suc i) es
     (case env_check env entry never of
        Inl code \<Rightarrow> (out, errs @ [(i, code)])
      | Inr r \<Rightarrow> if r \<in> set out then (out, errs)
                else if MaxRules \<le> length out then (out, errs @ [(i, CodeTooMany)])
                else (out @ [r], errs))"

definition checkEntries :: "rule_env \<Rightarrow> string list \<Rightarrow> compiled_rule list \<Rightarrow> compiled_rule list \<times> (nat \<times> rule_code) list" where
  "checkEntries env entries never = check_from env never 0 entries ([], [])"

definition parseImages :: "string \<Rightarrow> string list \<Rightarrow> compiled_rule list" where
  "parseImages goos ps = foldl (\<lambda>out p. case parseRule goos p of Inl _ \<Rightarrow> out
      | Inr r \<Rightarrow> if r \<in> set out then out else out @ [r]) [] ps"

definition with_res :: "resolution option \<Rightarrow> rules \<Rightarrow> rules" where
  "with_res n r = Rules (rl_goos r) (rl_rules r) (rl_idx r) n (rl_never r) (rl_translocated r)"

text \<open>startResolve, before its lookups have answered; \<open>resolves\<close> says whether the system has a resolver.\<close>

definition startResolve :: "bool \<Rightarrow> rules \<Rightarrow> rules" where
  "startResolve resolves r = (if \<not> resolves \<or> rl_rules r = [] then r else with_res (Some \<lparr>rn_extra = None, rn_done = False\<rparr>) r)"

definition compileImages :: "bool \<Rightarrow> (string \<Rightarrow> bool) option \<Rightarrow> rule_env \<Rightarrow> string list \<Rightarrow> rules option" where
  "compileImages resolves tr env ps = (let out = parseImages (re_goos env) ps in
     if out = [] then None
     else let r = newRules (re_goos env) out in
       Some (startResolve resolves (Rules (rl_goos r) (rl_rules r) (rl_idx r) None None tr)))"

definition compileRules :: "bool \<Rightarrow> (string \<Rightarrow> bool) option \<Rightarrow> rule_env \<Rightarrow> string list \<Rightarrow> string list \<Rightarrow> rules \<times> (nat \<times> rule_code) list" where
  "compileRules resolves tr env entries neverBypass =
    (let never = compileImages resolves tr env neverBypass;
         neverRules = (case never of None \<Rightarrow> [] | Some n \<Rightarrow> rl_rules n);
         (out, errs) = checkEntries env entries neverRules;
         r = newRules (re_goos env) out
     in (startResolve resolves (Rules (rl_goos r) (rl_rules r) (rl_idx r) None never tr), errs))"

text \<open>What the background goroutine stores once every lookup answered or timed out.\<close>

definition resolved_rules :: "rule_env \<Rightarrow> bool \<Rightarrow> compiled_rule list \<Rightarrow> compiled_rule list \<Rightarrow> (compiled_rule \<Rightarrow> string list) \<Rightarrow> compiled_rule list" where
  "resolved_rules env applyPolicy never rs found = concat (map (\<lambda>cr. concat (map (\<lambda>f.
      case normalizeResolved (re_goos env) (cr_kind cr) f of None \<Rightarrow> []
      | Some rr \<Rightarrow> if rr = cr \<or> (applyPolicy \<and> policy env rr never \<noteq> None) then [] else [rr]) (found cr))) rs)"

definition resolve_done :: "rule_env \<Rightarrow> bool \<Rightarrow> compiled_rule list \<Rightarrow> (compiled_rule \<Rightarrow> string list) \<Rightarrow> rules \<Rightarrow> rules" where
  "resolve_done env applyPolicy never found r = (let extra = resolved_rules env applyPolicy never (rl_rules r) found in
     with_res (Some \<lparr>rn_extra = (if extra = [] then None else Some (index_of extra)), rn_done = True\<rparr>) r)"

fun resolveDone :: "rules \<Rightarrow> bool" where
  "resolveDone (Rules g rs ix n never tr) = ((case n of None \<Rightarrow> True | Some x \<Rightarrow> rn_done x) \<and>
     (case never of None \<Rightarrow> True | Some m \<Rightarrow> resolveDone m))"

end
