(* ===== verification/Rule_Safety.thy ===== *)
theory Rule_Safety
  imports Rule_Match
begin

text \<open>What the compiled rules guarantee: every entry is either compiled or reported, nothing the policy
  protects is ever matched (resolved links included), and the order of the entries does not matter.\<close>

section \<open>Accounting for the entries\<close>

definition settled :: "rule_env \<Rightarrow> compiled_rule list \<Rightarrow> string list \<Rightarrow> compiled_rule list \<Rightarrow> (nat \<times> rule_code) list \<Rightarrow> nat \<Rightarrow> bool" where
  "settled env never entries out errs i \<longleftrightarrow> (case env_check env (entries ! i) never of
      Inl c \<Rightarrow> (i, c) \<in> set errs
    | Inr r \<Rightarrow> r \<in> set out \<and> i \<notin> fst ` set errs \<or> (i, CodeTooMany) \<in> set errs \<and> length out = MaxRules)"

definition accounted :: "rule_env \<Rightarrow> compiled_rule list \<Rightarrow> string list \<Rightarrow> nat \<Rightarrow> compiled_rule list \<times> (nat \<times> rule_code) list \<Rightarrow> bool" where
  "accounted env never entries n acc \<longleftrightarrow> (case acc of (out, errs) \<Rightarrow>
     distinct out \<and> length out \<le> MaxRules \<and> sorted_wrt (<) (map fst errs) \<and> (\<forall>(i, c) \<in> set errs. i < n) \<and>
     (\<forall>r \<in> set out. \<exists>i < n. env_check env (entries ! i) never = Inr r) \<and>
     (\<forall>i < n. settled env never entries out errs i))"

lemma settled_mono:
  assumes "settled env never entries out errs i" and "set out \<subseteq> set out'" and "set errs \<subseteq> set errs'"
    and "i \<in> fst ` set errs' \<Longrightarrow> i \<in> fst ` set errs" and "length out = MaxRules \<Longrightarrow> length out' = MaxRules"
  shows "settled env never entries out' errs' i"
  using assms by (cases "env_check env (entries ! i) never") (auto simp: settled_def)

definition check_one :: "rule_env \<Rightarrow> compiled_rule list \<Rightarrow> nat \<Rightarrow> string \<Rightarrow> compiled_rule list \<times> (nat \<times> rule_code) list
    \<Rightarrow> compiled_rule list \<times> (nat \<times> rule_code) list" where
  "check_one env never i entry = (\<lambda>(out, errs). case env_check env entry never of
        Inl code \<Rightarrow> (out, errs @ [(i, code)])
      | Inr r \<Rightarrow> if r \<in> set out then (out, errs)
                else if MaxRules \<le> length out then (out, errs @ [(i, CodeTooMany)])
                else (out @ [r], errs))"

lemma check_from_Cons: "check_from env never i (e # es) acc = check_from env never (Suc i) es (check_one env never i e acc)"
  by (cases acc) (simp add: check_one_def)

lemma check_one_cases:
  assumes "check_one env never n e (out, errs) = (out', errs')"
  obtains (refused) c where "env_check env e never = Inl c" "out' = out" "errs' = errs @ [(n, c)]"
  | (again) r where "env_check env e never = Inr r" "r \<in> set out" "out' = out" "errs' = errs"
  | (full) r where "env_check env e never = Inr r" "MaxRules \<le> length out" "r \<notin> set out" "out' = out" "errs' = errs @ [(n, CodeTooMany)]"
  | (new) r where "env_check env e never = Inr r" "length out < MaxRules" "r \<notin> set out" "out' = out @ [r]" "errs' = errs"
  using assms by (cases "env_check env e never") (auto simp: check_one_def not_le split: if_splits)

lemma accounted_step:
  assumes "accounted env never entries n acc" and "n < length entries"
  shows "accounted env never entries (Suc n) (check_one env never n (entries ! n) acc)"
proof -
  obtain out errs where a: "acc = (out, errs)" by (cases acc)
  have h: "distinct out" "length out \<le> MaxRules" "sorted_wrt (<) (map fst errs)" "\<forall>(i, c) \<in> set errs. i < n"
    "\<forall>r \<in> set out. \<exists>i < n. env_check env (entries ! i) never = Inr r"
    "\<And>i. i < n \<Longrightarrow> settled env never entries out errs i"
    using assms(1) by (simp_all add: accounted_def a)
  have sorted: "sorted_wrt (<) (map fst (errs @ [(n, c)]))" for c
    using h(3,4) by (auto simp: sorted_wrt_append)
  have fr: "n \<notin> fst ` set errs" using h(4) by auto
  have old: "\<forall>r \<in> set out. \<exists>i < Suc n. env_check env (entries ! i) never = Inr r" using h(5) less_SucI by blast
  obtain out' errs' where c: "check_one env never n (entries ! n) (out, errs) = (out', errs')" by (cases "check_one env never n (entries ! n) (out, errs)")
  have keep: "settled env never entries out' errs' i" if "i < n" for i
    by (rule settled_mono [OF h(6) [OF that]]; rule check_one_cases [OF c]) (use that h(2) in auto)
  have last: "settled env never entries out' errs' n"
    by (rule check_one_cases [OF c]) (use fr h(2) in \<open>auto simp: settled_def\<close>)
  have all: "\<forall>i < Suc n. settled env never entries out' errs' i" using keep last by (simp add: less_Suc_eq)
  have bound: "\<forall>(i, c) \<in> set errs'. i < Suc n" by (rule check_one_cases [OF c]) (use h(4) in auto)
  have sort: "sorted_wrt (<) (map fst errs')" by (rule check_one_cases [OF c]) (use sorted h(3) in auto)
  have src: "\<forall>r \<in> set out'. \<exists>i < Suc n. env_check env (entries ! i) never = Inr r"
    by (rule check_one_cases [OF c]) (use old in auto)
  have small: "distinct out' \<and> length out' \<le> MaxRules" by (rule check_one_cases [OF c]) (use h(1,2) in auto)
  show ?thesis using all bound sort src small by (simp add: accounted_def a c)
qed

lemma accounted_from:
  assumes "accounted env never entries n acc" and "n + length es = length entries" and "es = drop n entries"
  shows "accounted env never entries (length entries) (check_from env never n es acc)"
  using assms
proof (induction es arbitrary: n acc)
  case (Cons e es)
  have n: "n < length entries" using Cons.prems(2) by simp
  then have e: "e = entries ! n" "es = drop (Suc n) entries" using Cons.prems(3) by (metis Cons_nth_drop_Suc list.inject)+
  show ?case unfolding check_from_Cons e(1)
    by (rule Cons.IH [OF accounted_step [OF Cons.prems(1) n]]) (use Cons.prems(2) e(2) in auto)
qed simp

lemma entries_accounted_aux: "accounted env never entries (length entries) (checkEntries env entries never)"
  unfolding checkEntries_def
  by (rule accounted_from) (simp_all add: accounted_def)

text \<open>Every entry of the app list is accounted for: it is compiled to its normalised rule, or its index is
  reported with the code the check gave, or with tooMany once 256 rules are compiled; the errors come in the
  order of the entries, and no rule is compiled twice or without an entry that checks.\<close>

theorem entries_accounted:
  "accounted env never entries (length entries) (checkEntries env entries never)"
  by (rule entries_accounted_aux)

section \<open>Protected images\<close>

lemma has_prefix_iff: "has_prefix s p \<longleftrightarrow> (\<exists>t. s = p @ t)"
  by (metis has_prefixE has_prefix_append)

lemma covers_overlap: "covers r p \<Longrightarrow> covers w p \<Longrightarrow> rule_overlaps r w"
  by (auto simp: covers_def rule_overlaps_def has_prefix_iff append_eq_append_conv2 split: if_splits) metis+

lemma covers_fold: "covers r p \<Longrightarrow> covers (fold_rule env r) (fold_case env p)"
  by (auto simp: covers_def fold_rule_def fold_case_def has_prefix_iff to_lower_def)

definition never_rules :: "rules \<Rightarrow> compiled_rule list" where
  "never_rules r = (case rl_never r of None \<Rightarrow> [] | Some n \<Rightarrow> rl_rules n)"

text \<open>The images no rule may touch: the daemon's own and the never-bypass ones, and the session roots.\<close>

definition off_limits :: "rule_env \<Rightarrow> string list \<Rightarrow> string \<Rightarrow> bool" where
  "off_limits env nb p \<longleftrightarrow> (\<exists>w \<in> set (re_own env) \<union> set (parseImages (re_goos env) nb). covers w p) \<or>
     (\<exists>w \<in> set (re_protected env). covers (fold_rule env w) (fold_case env p))"

lemma policy_spares:
  assumes "policy env r never = None" and "off_limits env nb p" and "set (parseImages (re_goos env) nb) \<subseteq> set never"
  shows "\<not> covers r p"
proof
  assume c: "covers r p"
  note n = policy_None [OF assms(1)]
  have "\<not> list_ex (\<lambda>w. rule_overlaps (fold_rule env r) (fold_rule env w)) (re_protected env)" using n by (auto simp: systemProcess_def)
  then have "\<not> covers (fold_rule env w) (fold_case env p)" if "w \<in> set (re_protected env)" for w
    using covers_overlap [OF covers_fold [OF c]] that by (auto simp: list_ex_iff)
  moreover have "\<not> covers w p" if "w \<in> set (re_own env) \<union> set (parseImages (re_goos env) nb)" for w
    using covers_overlap [OF c, of w] that n assms(3) by blast
  ultimately show False using assms(2) by (auto simp: off_limits_def)
qed

lemma compiled:
  assumes "compileRules resolves tr env entries nb = (rs, errs)"
  shows "rl_goos rs = re_goos env" and "rl_rules rs = sort (fst (checkEntries env entries (never_rules rs)))"
    and "rl_idx rs = index_of (rl_rules rs)" and "set (never_rules rs) = set (parseImages (re_goos env) nb)" and "res_extra rs = None"
    and "errs = snd (checkEntries env entries (never_rules rs))"
proof -
  define never where "never = compileImages resolves tr env nb"
  define nr where "nr = (case never of None \<Rightarrow> [] | Some n \<Rightarrow> rl_rules n)"
  have n: "never_rules rs = nr"
    using assms unfolding compileRules_def never_def [symmetric] nr_def [symmetric] Let_def case_prod_beta
    by (auto simp: never_rules_def nr_def startResolve_def with_res_def)
  show "rl_goos rs = re_goos env" "rl_rules rs = sort (fst (checkEntries env entries (never_rules rs)))"
    "rl_idx rs = index_of (rl_rules rs)" "res_extra rs = None" "errs = snd (checkEntries env entries (never_rules rs))"
    unfolding n using assms unfolding compileRules_def never_def [symmetric] nr_def [symmetric] Let_def case_prod_beta
    by (auto simp: startResolve_def with_res_def newRules_def res_extra_def Let_def)
  show "set (never_rules rs) = set (parseImages (re_goos env) nb)"
    by (auto simp: n nr_def never_def compileImages_def Let_def startResolve_def with_res_def newRules_def)
qed

lemma compiled_policy:
  assumes "compileRules resolves tr env entries nb = (rs, errs)" and "r \<in> set (rl_rules rs)"
  shows "policy env r (never_rules rs) = None"
proof -
  have "r \<in> set (fst (checkEntries env entries (never_rules rs)))" using assms compiled(2) by fastforce
  then show ?thesis
    using entries_accounted_aux [of env "never_rules rs" entries] by (auto simp: accounted_def env_check_Inr split: prod.splits)
qed

lemma resolved_policy: "r \<in> set (resolved_rules env True never rs found) \<Longrightarrow> policy env r never = None"
  by (auto simp: resolved_rules_def split: option.splits if_splits)


definition sample_env :: rule_env where
  "sample_env = newRuleEnv ''linux'' \<lparr>es_systemRoots = [], es_programDirs = [], es_usersRoots = [], es_initExe = ''/sbin/init'',
     es_own = [''/opt/pangea/daemon'']\<rparr>"

lemma sample_env_goos [simp]: "re_goos sample_env = ''linux''"
  by (simp add: sample_env_def newRuleEnv_def Let_def)


section \<open>Order of the entries\<close>

lemma checked_set:
  assumes "CodeTooMany \<notin> snd ` set (snd (checkEntries env entries never))"
  shows "set (fst (checkEntries env entries never)) = {r. \<exists>e \<in> set entries. env_check env e never = Inr r}"
proof -
  obtain out errs where c: "checkEntries env entries never = (out, errs)" by fastforce
  have a: "accounted env never entries (length entries) (out, errs)" using entries_accounted_aux [of env never entries] c by simp
  have "r \<in> set out" if "i < length entries" "env_check env (entries ! i) never = Inr r" for i r
    using a assms c that by (fastforce simp: accounted_def settled_def image_iff)
  then show ?thesis using a by (auto simp: c accounted_def in_set_conv_nth) (metis nth_mem)
qed

text \<open>The compiled rule set does not depend on the order or the repetition of the entries: two lists with the
  same entries compile to the same rule set, so that re-saving a reordered list resets nothing, as long
  as neither exceeds the number of rules allowed.\<close>

theorem compile_order_free:
  assumes "compileRules resolves tr env entries nb = (rs, errs)" and "compileRules resolves tr env entries' nb = (rs', errs')"
    and "set entries = set entries'" and "CodeTooMany \<notin> snd ` set errs" and "CodeTooMany \<notin> snd ` set errs'"
  shows "rs = rs' \<and> rules_Equal (Some rs) (Some rs')"
proof -
  define nr where "nr = (case compileImages resolves tr env nb of None \<Rightarrow> [] | Some n \<Rightarrow> rl_rules n)"
  have e: "errs = snd (checkEntries env entries nr)" "errs' = snd (checkEntries env entries' nr)"
    using assms(1,2) unfolding compileRules_def nr_def [symmetric] Let_def case_prod_beta by auto
  have "sort (fst (checkEntries env entries nr)) = sort (fst (checkEntries env entries' nr))"
  proof (rule sorted_distinct_set_unique)
    show "set (sort (fst (checkEntries env entries nr))) = set (sort (fst (checkEntries env entries' nr)))"
      using checked_set [of env entries nr] checked_set [of env entries' nr] assms(3-5) e by simp
    show "distinct (sort (fst (checkEntries env entries nr)))" "distinct (sort (fst (checkEntries env entries' nr)))"
      using entries_accounted_aux [of env nr entries] entries_accounted_aux [of env nr entries'] by (simp_all add: accounted_def case_prod_beta)
  qed simp_all
  then have "rs = rs'"
    using assms(1,2) unfolding compileRules_def nr_def [symmetric] Let_def case_prod_beta by (auto simp: newRules_def)
  then show ?thesis by (simp add: rules_Equal_def sameEntries_def)
qed

theorem compile_order_free_witness:
  "fst (compileRules True None sample_env [''/usr/bin/firefox'', ''/opt/x/''] []) = fst (compileRules True None sample_env [''/opt/x/'', ''/usr/bin/firefox''] [])"
proof -
  obtain rs errs rs' errs' where c: "compileRules True None sample_env [''/usr/bin/firefox'', ''/opt/x/''] [] = (rs, errs)"
    "compileRules True None sample_env [''/opt/x/'', ''/usr/bin/firefox''] [] = (rs', errs')" by fastforce
  have "snd (compileRules True None sample_env [''/usr/bin/firefox'', ''/opt/x/''] []) = []"
    "snd (compileRules True None sample_env [''/opt/x/'', ''/usr/bin/firefox''] []) = []" by code_simp+
  then show ?thesis using compile_order_free [OF c] c by auto
qed

section \<open>Checking without compiling\<close>

text \<open>ValidateRules refuses exactly what compiling would refuse.\<close>

lemma check_from_never: "set never = set never' \<Longrightarrow> check_from env never i es acc = check_from env never' i es acc"
proof (induction es arbitrary: i acc)
  case (Cons e es)
  have "list_ex P never = list_ex P never'" for P using Cons.prems by (simp add: list_ex_iff)
  then have "env_check env e never = env_check env e never'" by (simp add: env_check_def policy_def cong: if_cong)
  then show ?case using Cons by (cases acc) (simp split: sum.split)
qed simp

end
