(* ===== verification/Lineage.thy ===== *)
theory Lineage
  imports Prelude "HOL-Library.Finite_Map"
begin

text \<open>splittunnel/procmatch/lineage.go: the record of which process started which.  A process is its pid with
  its start time; the node table is a finite map, so that the loop that drops exited processes ends.  Loops over
  Go maps take the order of the keys as an argument.  A node pointer that is nil where the code dereferences it
  makes the operation None.\<close>

section \<open>State\<close>

datatype proc_key = ProcKey (pk_pid: int) (pk_start: int)

definition maxChainDepth :: nat where "maxChainDepth = 16"

record proc_info =
  pr_pid :: int
  pr_ppid :: int
  pr_start :: int
  pr_path :: string

record lineage_node =
  ln_parent :: "proc_key option"
  ln_path :: string
  ln_alive :: bool
  ln_refs :: int
  ln_seen :: nat

record lineage =
  l_nodes :: "(proc_key, lineage_node) fmap"
  l_live :: "int \<rightharpoonup> proc_key"
  l_tick :: nat

definition newLineage :: lineage where
  "newLineage = \<lparr>l_nodes = fmempty, l_live = (\<lambda>_. None), l_tick = 0\<rparr>"

abbreviation node :: "lineage \<Rightarrow> proc_key \<Rightarrow> lineage_node option" where
  "node l k \<equiv> fmlookup (l_nodes l) k"

definition set_node :: "proc_key \<Rightarrow> lineage_node \<Rightarrow> lineage \<Rightarrow> lineage" where
  "set_node k n l = l\<lparr>l_nodes := fmupd k n (l_nodes l)\<rparr>"

definition new_node :: "string \<Rightarrow> lineage_node" where
  "new_node p = \<lparr>ln_parent = None, ln_path = p, ln_alive = False, ln_refs = 0, ln_seen = 0\<rparr>"

definition key_of :: "proc_info \<Rightarrow> proc_key" where
  "key_of p = ProcKey (pr_pid p) (pr_start p)"

section \<open>Operations\<close>

definition lin_mark :: "lineage \<Rightarrow> lineage \<times> nat" where
  "lin_mark l = (l\<lparr>l_tick := l_tick l + 1\<rparr>, l_tick l + 1)"

definition lin_has :: "lineage \<Rightarrow> proc_key \<Rightarrow> bool" where
  "lin_has l k \<longleftrightarrow> node l k \<noteq> None"

definition lin_known :: "lineage \<Rightarrow> proc_key \<Rightarrow> bool" where
  "lin_known l k \<longleftrightarrow> (case node l k of None \<Rightarrow> False | Some n \<Rightarrow> ln_path n \<noteq> [])"

definition link :: "proc_key \<Rightarrow> lineage_node \<Rightarrow> proc_key \<Rightarrow> lineage \<Rightarrow> lineage" where
  "link k n parent l = (if pk_pid parent = pk_pid k \<or> pk_start k < pk_start parent then l
     else case node l parent of None \<Rightarrow> l
     | Some pn \<Rightarrow> set_node parent (pn\<lparr>ln_refs := ln_refs pn + 1\<rparr>) (set_node k (n\<lparr>ln_parent := Some parent\<rparr>) l))"

lemma fcard_drop [termination_simp]: "fmlookup m k = Some n \<Longrightarrow> fcard (fmdom (fmdrop k m)) < fcard (fmdom m)"
  using fcard_fminus1_less [of k "fmdom m"] by (simp add: fmdomI)

function collect :: "proc_key \<Rightarrow> lineage \<Rightarrow> lineage" where
  "collect k l = (case node l k of None \<Rightarrow> l
     | Some n \<Rightarrow> if ln_alive n \<or> 0 < ln_refs n then l
       else let l1 = l\<lparr>l_nodes := fmdrop k (l_nodes l)\<rparr> in
         (case ln_parent n of None \<Rightarrow> l1
          | Some p \<Rightarrow> (case node l1 p of None \<Rightarrow> l1
              | Some pn \<Rightarrow> collect p (set_node p (pn\<lparr>ln_refs := ln_refs pn - 1\<rparr>) l1))))"
  by auto
termination
proof (relation "measure (\<lambda>(k, l). fcard (fmdom (l_nodes l)))")
  show "wf (measure (\<lambda>(k, l :: lineage). fcard (fmdom (l_nodes l))))" by simp
next
  fix k :: proc_key and l l1 :: lineage and n pn :: lineage_node and p :: proc_key
  assume n: "node l k = Some n" and l1: "l1 = l\<lparr>l_nodes := fmdrop k (l_nodes l)\<rparr>" and p: "node l1 p = Some pn"
  have "fmdom (l_nodes (set_node p (pn\<lparr>ln_refs := ln_refs pn - 1\<rparr>) l1)) = fmdom (l_nodes l1)"
    using p by (auto simp: set_node_def fmdomI finsert_absorb)
  then show "((p, set_node p (pn\<lparr>ln_refs := ln_refs pn - 1\<rparr>) l1), k, l) \<in> measure (\<lambda>(k, l). fcard (fmdom (l_nodes l)))"
    using fcard_drop [OF n] l1 by simp
qed

declare collect.simps [simp del]

definition retire :: "proc_key \<Rightarrow> lineage \<Rightarrow> lineage" where
  "retire k l = (case node l k of None \<Rightarrow> l
     | Some n \<Rightarrow> (let l1 = set_node k (n\<lparr>ln_alive := False\<rparr>) l;
                     l2 = (if l_live l1 (pk_pid k) = Some k then l1\<lparr>l_live := (l_live l1)(pk_pid k := None)\<rparr> else l1)
                 in collect k l2))"

text \<open>Retiring another process that holds the pid.\<close>

definition retire_other :: "proc_key \<Rightarrow> lineage \<Rightarrow> lineage" where
  "retire_other k l = (case l_live l (pk_pid k) of Some old \<Rightarrow> if old \<noteq> k then retire old l else l | None \<Rightarrow> l)"

text \<open>Creating the node, or filling in its path.\<close>

definition note_path :: "proc_key \<Rightarrow> string \<Rightarrow> lineage \<Rightarrow> lineage" where
  "note_path k path l = (case node l k of None \<Rightarrow> set_node k (new_node path) l
     | Some n \<Rightarrow> if ln_path n = [] then set_node k (n\<lparr>ln_path := path\<rparr>) l else l)"

definition set_alive :: "proc_key \<Rightarrow> lineage_node \<Rightarrow> nat \<Rightarrow> lineage \<Rightarrow> lineage" where
  "set_alive k n tick l = (set_node k (n\<lparr>ln_alive := True, ln_seen := tick\<rparr>) l)\<lparr>l_live := (l_live l)(pk_pid k \<mapsto> k)\<rparr>"

definition lin_add :: "proc_info \<Rightarrow> proc_key option \<Rightarrow> lineage \<Rightarrow> lineage" where
  "lin_add p parent l = (let k = key_of p;
       l2 = note_path k (pr_path p) (retire_other k l);
       l3 = (case parent of None \<Rightarrow> l2 | Some pk \<Rightarrow>
               (case node l2 k of Some n \<Rightarrow> if ln_parent n = None then link k n pk l2 else l2 | None \<Rightarrow> l2));
       (l4, tick) = lin_mark l3
     in case node l4 k of Some n \<Rightarrow> set_alive k n tick l4 | None \<Rightarrow> l4)"

text \<open>sync: a full snapshot taken after tick \<open>since\<close>.\<close>

definition sync_note :: "nat \<Rightarrow> lineage \<times> proc_key set \<times> (int \<rightharpoonup> proc_key) \<Rightarrow> proc_info \<Rightarrow> lineage \<times> proc_key set \<times> (int \<rightharpoonup> proc_key)" where
  "sync_note since acc p = (case acc of (l, present, byPID) \<Rightarrow> let k = key_of p in
     if (case l_live l (pr_pid p) of Some cur \<Rightarrow> cur \<noteq> k \<and> (case node l cur of Some n \<Rightarrow> since \<le> ln_seen n | None \<Rightarrow> False) | None \<Rightarrow> False)
     then acc else (note_path k (pr_path p) l, insert k present, byPID(pr_pid p \<mapsto> k)))"

definition sync_link :: "proc_key set \<Rightarrow> (int \<rightharpoonup> proc_key) \<Rightarrow> lineage \<Rightarrow> proc_info \<Rightarrow> lineage" where
  "sync_link present byPID l p = (let k = key_of p in
     if k \<notin> present then l
     else case node l k of None \<Rightarrow> l
       | Some n \<Rightarrow> if ln_parent n \<noteq> None then l
                   else (case byPID (pr_ppid p) of Some pk \<Rightarrow> link k n pk l | None \<Rightarrow> l))"

fun sync_alive :: "nat \<Rightarrow> proc_key list \<Rightarrow> lineage \<Rightarrow> lineage option" where
  "sync_alive tick [] l = Some l"
| "sync_alive tick (k # ks) l = (let l1 = retire_other k l in
     case node l1 k of None \<Rightarrow> None | Some n \<Rightarrow> sync_alive tick ks (set_alive k n tick l1))"

definition sync_drop :: "proc_key set \<Rightarrow> nat \<Rightarrow> lineage \<Rightarrow> proc_key \<Rightarrow> lineage" where
  "sync_drop present since l k = (case node l k of None \<Rightarrow> l
     | Some n \<Rightarrow> if ln_alive n \<and> k \<notin> present \<and> ln_seen n < since then retire k l else l)"

text \<open>\<open>order\<close> enumerates a set of keys: the order in which Go happens to visit a map.\<close>

definition lin_sync :: "(proc_key set \<Rightarrow> proc_key list) \<Rightarrow> proc_info list \<Rightarrow> nat \<Rightarrow> lineage \<Rightarrow> lineage option" where
  "lin_sync order procs since l =
    (let (l1, present, byPID) = foldl (sync_note since) (l, {}, \<lambda>_. None) procs;
         l2 = foldl (sync_link present byPID) l1 procs;
         (l3, tick) = lin_mark l2
     in case sync_alive tick (order present) l3 of None \<Rightarrow> None
        | Some l4 \<Rightarrow> Some (foldl (sync_drop present since) l4 (order (fset (fmdom (l_nodes l4))))))"

definition setPath :: "proc_key \<Rightarrow> string \<Rightarrow> lineage \<Rightarrow> lineage \<times> bool" where
  "setPath k p l = (case node l k of None \<Rightarrow> (l, False)
     | Some n \<Rightarrow> if p = [] \<or> ln_path n = p then (l, False) else (set_node k (n\<lparr>ln_path := p\<rparr>) l, True))"

section \<open>Reading the ancestry\<close>

record lineage_view =
  v_keys :: "proc_key list"
  v_paths :: "string list"
  v_chain :: "string list"

definition no_view :: lineage_view where
  "no_view = \<lparr>v_keys = [], v_paths = [], v_chain = []\<rparr>"

fun view_loop :: "nat \<Rightarrow> lineage \<Rightarrow> proc_key \<Rightarrow> (string \<Rightarrow> bool) \<Rightarrow> bool \<Rightarrow> lineage_view \<Rightarrow> lineage_view" where
  "view_loop 0 l k isStop stopped v = v"
| "view_loop (Suc d) l k isStop stopped v = (case node l k of None \<Rightarrow> v
     | Some n \<Rightarrow> if pk_pid k \<in> {0, 1, 4} then v
       else let stopped1 = (stopped \<or> ln_path n = [] \<or> isStop (ln_path n));
                v1 = \<lparr>v_keys = v_keys v @ [k], v_paths = v_paths v @ [ln_path n],
                      v_chain = (if stopped1 then v_chain v else v_chain v @ [ln_path n])\<rparr>
            in case ln_parent n of None \<Rightarrow> v1 | Some p \<Rightarrow> view_loop d l p isStop stopped1 v1)"

definition lin_view :: "lineage \<Rightarrow> proc_key \<Rightarrow> (string \<Rightarrow> bool) \<Rightarrow> lineage_view" where
  "lin_view l k isStop = view_loop maxChainDepth l k isStop False no_view"

fun ancestor_loop :: "nat \<Rightarrow> lineage \<Rightarrow> proc_key \<Rightarrow> proc_key set \<Rightarrow> bool" where
  "ancestor_loop 0 l k S = False"
| "ancestor_loop (Suc d) l k S = (case node l k of None \<Rightarrow> False
     | Some n \<Rightarrow> (case ln_parent n of None \<Rightarrow> False | Some p \<Rightarrow> p \<in> S \<or> ancestor_loop d l p S))"

definition hasAncestor :: "lineage \<Rightarrow> proc_key \<Rightarrow> proc_key set \<Rightarrow> bool" where
  "hasAncestor l k S = ancestor_loop maxChainDepth l k S"

end
