(* ===== verification/Lineage_Invariant.thy ===== *)
theory Lineage_Invariant
  imports Lineage
begin

text \<open>The books of the lineage: reference counts count children, parents are never older records that are gone,
  an exited process is kept only while a child refers to it, and the live table lists the live nodes.\<close>

definition children :: "lineage \<Rightarrow> proc_key \<Rightarrow> proc_key set" where
  "children l k = {c. \<exists>n. node l c = Some n \<and> ln_parent n = Some k}"

text \<open>\<open>X\<close> holds the nodes an operation has in hand: unreferenced and not (yet) alive.\<close>

definition lin_inv :: "proc_key set \<Rightarrow> lineage \<Rightarrow> bool" where
  "lin_inv X l \<longleftrightarrow> (\<forall>k n. node l k = Some n \<longrightarrow> ln_refs n = int (card (children l k)) \<and> (ln_alive n \<or> 0 < ln_refs n \<or> k \<in> X) \<and>
       (\<forall>p. ln_parent n = Some p \<longrightarrow> node l p \<noteq> None \<and> pk_pid p \<noteq> pk_pid k \<and> pk_start p \<le> pk_start k)) \<and>
     (\<forall>q k. l_live l q = Some k \<longleftrightarrow> pk_pid k = q \<and> (\<exists>n. node l k = Some n \<and> ln_alive n))"

lemma lin_invD:
  assumes "lin_inv X l" and "node l k = Some n"
  shows "ln_refs n = int (card (children l k))" and "ln_alive n \<or> 0 < ln_refs n \<or> k \<in> X"
    and "ln_parent n = Some p \<Longrightarrow> node l p \<noteq> None \<and> pk_pid p \<noteq> pk_pid k \<and> pk_start p \<le> pk_start k"
  using assms unfolding lin_inv_def by blast+

lemma no_self:
  assumes "lin_inv X l" and "node l k = Some n"
  shows "ln_parent n \<noteq> Some k" and "Some k \<noteq> ln_parent n"
  using lin_invD(3) [OF assms, of k] by auto

lemma lin_inv_live: "lin_inv X l \<Longrightarrow> l_live l q = Some k \<longleftrightarrow> pk_pid k = q \<and> (\<exists>n. node l k = Some n \<and> ln_alive n)"
  by (auto simp: lin_inv_def)

lemma lin_invI:
  assumes "\<And>k n. node l k = Some n \<Longrightarrow> ln_refs n = int (card (children l k))"
    and "\<And>k n. node l k = Some n \<Longrightarrow> ln_alive n \<or> 0 < ln_refs n \<or> k \<in> X"
    and "\<And>k n p. node l k = Some n \<Longrightarrow> ln_parent n = Some p \<Longrightarrow> node l p \<noteq> None \<and> pk_pid p \<noteq> pk_pid k \<and> pk_start p \<le> pk_start k"
    and "\<And>q k. l_live l q = Some k \<longleftrightarrow> pk_pid k = q \<and> (\<exists>n. node l k = Some n \<and> ln_alive n)"
  shows "lin_inv X l"
  using assms unfolding lin_inv_def by blast

lemma finite_children [simp]: "finite (children l k)"
proof (rule finite_subset)
  show "children l k \<subseteq> fset (fmdom (l_nodes l))" by (auto simp: children_def fmlookup_dom_iff)
qed simp

lemma lin_inv_mono: "lin_inv X l \<Longrightarrow> X \<subseteq> Y \<Longrightarrow> lin_inv Y l"
  unfolding lin_inv_def by blast

lemma lin_inv_tick [simp]: "lin_inv X (l\<lparr>l_tick := t\<rparr>) = lin_inv X l" "node (l\<lparr>l_tick := t\<rparr>) = node l" "l_live (l\<lparr>l_tick := t\<rparr>) = l_live l"
  by (simp_all add: lin_inv_def children_def)

lemma node_set [simp]: "node (set_node k n l) j = (if j = k then Some n else node l j)" "l_live (set_node k n l) = l_live l"
  by (auto simp: set_node_def)

lemma node_live [simp]: "node (l\<lparr>l_live := v\<rparr>) = node l" "l_live (l\<lparr>l_live := v\<rparr>) = v" "l_live (l\<lparr>l_nodes := m\<rparr>) = l_live l"
  "children (l\<lparr>l_live := v\<rparr>) = children l"
  by (auto simp: children_def)

text \<open>Updates that keep a node's parent keep the children.\<close>

lemma children_set: "node l k = Some n \<Longrightarrow> ln_parent m = ln_parent n \<Longrightarrow> children (set_node k m l) = children l"
  by (auto simp: children_def fun_eq_iff)

lemma children_new: "node l k = None \<Longrightarrow> ln_parent m = None \<Longrightarrow> children (set_node k m l) = children l"
  by (auto simp: children_def fun_eq_iff)

lemma inv_new:
  assumes "lin_inv X l" and "node l k = None"
  shows "lin_inv (insert k X) (set_node k (new_node p) l)"
proof -
  have "children l k = {}" using lin_invD(3) [OF assms(1)] assms(2) by (fastforce simp: children_def)
  then show ?thesis
    using assms by (intro lin_invI) (auto simp: children_new new_node_def lin_inv_live [OF assms(1)] dest: lin_invD split: if_splits)
qed

lemma inv_same:
  assumes "lin_inv X l" and "node l k = Some n" and "ln_parent m = ln_parent n" and "ln_alive m = ln_alive n" and "ln_refs m = ln_refs n"
  shows "lin_inv X (set_node k m l)"
  using assms(2-) lin_invD [OF assms(1)] lin_inv_live [OF assms(1)] no_self [OF assms(1,2)]
  by (intro lin_invI) (auto simp: children_set [OF assms(2,3)] split: if_splits)

lemma inv_path: "lin_inv X l \<Longrightarrow> node l k = Some n \<Longrightarrow> lin_inv X (set_node k (n\<lparr>ln_path := p\<rparr>) l)"
  by (rule inv_same) simp_all

lemma inv_note: "lin_inv X l \<Longrightarrow> lin_inv (insert k X) (note_path k p l) \<and> (node l k \<noteq> None \<longrightarrow> lin_inv X (note_path k p l))"
  using lin_inv_mono [of X _ "insert k X"] by (fastforce simp: note_path_def inv_new inv_path split: option.splits)

lemma inv_alive:
  assumes "lin_inv X l" and "node l k = Some n" and "l_live l (pk_pid k) = None \<or> l_live l (pk_pid k) = Some k"
  shows "lin_inv (X - {k}) (set_alive k n tick l)"
proof -
  have c: "children (set_node k (n\<lparr>ln_alive := True, ln_seen := tick\<rparr>) l) = children l" by (rule children_set [OF assms(2)]) simp
  have u: "j = k" if "node l j = Some m" "ln_alive m" "pk_pid j = pk_pid k" for j m
    using lin_inv_live [OF assms(1), of "pk_pid k" j] that assms(3) by auto
  show ?thesis
    using assms(2) lin_invD [OF assms(1)] lin_inv_live [OF assms(1)] u no_self [OF assms(1,2)]
    by (intro lin_invI) (auto simp: set_alive_def c split: if_splits)
qed

lemma inv_link:
  assumes "lin_inv X l" and "node l k = Some n" and "ln_parent n = None"
  shows "lin_inv X (link k n p l)"
proof (cases "pk_pid p = pk_pid k \<or> pk_start k < pk_start p \<or> node l p = None")
  case True
  then show ?thesis using assms(1) by (auto simp: link_def split: option.splits)
next
  case False
  then obtain pn where p: "node l p = Some pn" "pk_pid p \<noteq> pk_pid k" "pk_start p \<le> pk_start k" by auto
  define l' where "l' = link k n p l"
  have l': "l' = set_node p (pn\<lparr>ln_refs := ln_refs pn + 1\<rparr>) (set_node k (n\<lparr>ln_parent := Some p\<rparr>) l)"
    using p by (simp add: l'_def link_def not_less)
  have pk: "p \<noteq> k" using p(2) by auto
  have ch: "children l' j = (if j = p then insert k (children l p) else children l j)" for j
    using p assms(2,3) pk by (auto simp: children_def l')
  have "k \<notin> children l p" using assms(2,3) by (simp add: children_def)
  then have cc: "card (children l' j) = card (children l j) + (if j = p then 1 else 0)" for j by (simp add: ch)
  have nd: "node l' j = (if j = p then Some (pn\<lparr>ln_refs := ln_refs pn + 1\<rparr>) else if j = k then Some (n\<lparr>ln_parent := Some p\<rparr>) else node l j)"
    "l_live l' = l_live l" for j by (simp_all add: l')
  note D = lin_invD [OF assms(1)]
  have "lin_inv X l'"
  proof (rule lin_invI)
    fix j m assume m: "node l' j = Some m"
    show "ln_refs m = int (card (children l' j))"
      using m D(1) [OF assms(2)] D(1) [OF p(1)] D(1) [of j m] by (auto simp: nd cc split: if_splits)
    show "ln_alive m \<or> 0 < ln_refs m \<or> j \<in> X"
      using m D(2) [OF assms(2)] D(1) [OF p(1)] D(2) [of j m] by (auto simp: nd split: if_splits)
    fix q assume q: "ln_parent m = Some q"
    have "if j = k then q = p else \<exists>n. node l j = Some n \<and> ln_parent n = Some q"
      using m q pk p(1) by (auto simp: nd split: if_splits)
    then show "node l' q \<noteq> None \<and> pk_pid q \<noteq> pk_pid j \<and> pk_start q \<le> pk_start j"
      using p D(3) [of j _ q] by (auto simp: nd split: if_splits)
  next
    show "l_live l' q = Some j \<longleftrightarrow> pk_pid j = q \<and> (\<exists>n. node l' j = Some n \<and> ln_alive n)" for q j
      using lin_inv_live [OF assms(1), of q j] assms(2) p(1) pk by (auto simp: nd split: if_splits)
  qed
  then show ?thesis by (simp add: l'_def)
qed

text \<open>Dropping an unreferenced node and the count it held.\<close>

lemma inv_drop:
  assumes "lin_inv (insert k X) l" and "node l k = Some n" and "\<not> ln_alive n" and "\<not> 0 < ln_refs n"
  shows "ln_parent n = None \<Longrightarrow> lin_inv X (l\<lparr>l_nodes := fmdrop k (l_nodes l)\<rparr>)"
    and "ln_parent n = Some p \<Longrightarrow> \<exists>pn. node l p = Some pn \<and> p \<noteq> k \<and>
      lin_inv (insert p X) (set_node p (pn\<lparr>ln_refs := ln_refs pn - 1\<rparr>) (l\<lparr>l_nodes := fmdrop k (l_nodes l)\<rparr>))"
proof -
  let ?d = "l\<lparr>l_nodes := fmdrop k (l_nodes l)\<rparr>"
  have "card (children l k) = 0" using lin_invD(1) [OF assms(1,2)] assms(4) by simp
  then have no: "ln_parent m \<noteq> Some k" if "node l j = Some m" for j m using that by (simp add: card_eq_0_iff) (auto simp: children_def)
  have nl: "l_live l q \<noteq> Some k" for q using lin_inv_live [OF assms(1), of q k] assms(2,3) by auto
  have live: "l_live l q = Some j \<longleftrightarrow> pk_pid j = q \<and> (\<exists>m. j \<noteq> k \<and> node l j = Some m \<and> ln_alive m)" for q j
    using lin_inv_live [OF assms(1), of q j] assms(2,3) by auto
  have ch: "children ?d j = children l j - {k}" for j by (auto simp: children_def)
  {
    assume "ln_parent n = None"
    then have "k \<notin> children l j" for j using assms(2) by (simp add: children_def)
    then have c: "children ?d j = children l j" for j by (simp add: ch)
    show "lin_inv X ?d"
      using lin_invD [OF assms(1)] live no by (intro lin_invI) (auto simp: c split: if_splits)
  next
    assume p: "ln_parent n = Some p"
    then obtain pn where pn: "node l p = Some pn" "p \<noteq> k" using lin_invD(3) [OF assms(1,2) p] by auto
    define e where "e = set_node p (pn\<lparr>ln_refs := ln_refs pn - 1\<rparr>) ?d"
    have "node ?d p = Some pn" using pn by simp
    then have c: "children e = children ?d" unfolding e_def by (rule children_set) simp
    have nd: "node e j = (if j = p then Some (pn\<lparr>ln_refs := ln_refs pn - 1\<rparr>) else if j = k then None else node l j)" "l_live e = l_live l" for j
      by (simp_all add: e_def)
    have "k \<in> children l j \<longleftrightarrow> j = p" for j using assms(2) p by (auto simp: children_def)
    then have cc: "card (children e j) = (if j = p then card (children l p) - 1 else card (children l j))" for j
      by (simp add: c ch card_Diff_singleton_if)
    have "0 < card (children l p)" using assms(2) p by (simp add: card_gt_0_iff) (auto simp: children_def)
    then have "lin_inv (insert p X) e"
      using lin_invD [OF assms(1)] live no pn no_self [OF assms(1) pn(1)]
      by (intro lin_invI) (auto simp: cc nd split: if_splits)
    then show "\<exists>pn. node l p = Some pn \<and> p \<noteq> k \<and> lin_inv (insert p X) (set_node p (pn\<lparr>ln_refs := ln_refs pn - 1\<rparr>) ?d)"
      using pn unfolding e_def by blast
  }
qed

lemma lin_inv_shrink: "lin_inv (insert k X) l \<Longrightarrow> \<forall>n. node l k = Some n \<longrightarrow> ln_alive n \<or> 0 < ln_refs n \<Longrightarrow> lin_inv X l"
  unfolding lin_inv_def by blast

lemma inv_collect: "lin_inv (insert k X) l \<Longrightarrow> lin_inv X (collect k l)"
proof (induction k l rule: collect.induct)
  case (1 k l)
  show ?case
  proof (cases "node l k")
    case None
    then have "lin_inv X l" by (intro lin_inv_shrink [OF 1(2)]) simp
    then show ?thesis using None by (simp add: collect.simps [of k l])
  next
    case (Some n)
    show ?thesis
    proof (cases "ln_alive n \<or> 0 < ln_refs n")
      case True
      then have "lin_inv X l" using Some by (intro lin_inv_shrink [OF 1(2)]) simp
      then show ?thesis using Some True by (simp add: collect.simps [of k l])
    next
      case False
      note d = inv_drop [OF 1(2) Some]
      show ?thesis
      proof (cases "ln_parent n")
        case None
        then show ?thesis using d(1) Some False by (simp add: collect.simps [of k l])
      next
        case (Some p)
        then obtain pn where pn: "node l p = Some pn" "p \<noteq> k"
          "lin_inv (insert p X) (set_node p (pn\<lparr>ln_refs := ln_refs pn - 1\<rparr>) (l\<lparr>l_nodes := fmdrop k (l_nodes l)\<rparr>))"
          using d(2) False by blast
        have "lin_inv X (collect p (set_node p (pn\<lparr>ln_refs := ln_refs pn - 1\<rparr>) (l\<lparr>l_nodes := fmdrop k (l_nodes l)\<rparr>)))"
          by (rule 1(1) [OF \<open>node l k = Some n\<close> False refl Some _ pn(3)]) (simp add: pn)
        then show ?thesis using \<open>node l k = Some n\<close> False Some pn by (simp add: collect.simps [of k l] Let_def)
      qed
    qed
  qed
qed

lemma inv_retire:
  assumes "lin_inv X l"
  shows "lin_inv X (retire k l)"
proof (cases "node l k")
  case None
  then show ?thesis using assms by (simp add: retire_def)
next
  case (Some n)
  let ?l = "set_node k (n\<lparr>ln_alive := False\<rparr>) l"
  let ?m = "if l_live ?l (pk_pid k) = Some k then ?l\<lparr>l_live := (l_live ?l)(pk_pid k := None)\<rparr> else ?l"
  have c: "children ?l = children l" by (rule children_set [OF Some]) simp
  have n: "node ?m = node ?l" "children ?m = children l" by (auto simp: c)
  have kk: "l_live l (pk_pid k) = Some k \<longleftrightarrow> ln_alive n" using lin_inv_live [OF assms] Some by simp
  have u: "\<not> (\<exists>m. node l j = Some m \<and> ln_alive m)" if "l_live l (pk_pid k) = Some k" "pk_pid j = pk_pid k" "j \<noteq> k" for j
    using lin_inv_live [OF assms, of "pk_pid k" j] that by simp
  have live: "l_live ?m q = Some j \<longleftrightarrow> pk_pid j = q \<and> (\<exists>m. j \<noteq> k \<and> node l j = Some m \<and> ln_alive m)" for q j
  proof (cases "l_live l (pk_pid k) = Some k")
    case True
    then show ?thesis using u [OF True, of j] lin_inv_live [OF assms, of q j] by (cases "j = k"; cases "q = pk_pid k") auto
  next
    case False
    then show ?thesis using kk lin_inv_live [OF assms, of q j] Some by (cases "j = k") auto
  qed
  define m where "m = ?m"
  have m: "node m j = (if j = k then Some (n\<lparr>ln_alive := False\<rparr>) else node l j)" "children m = children l"
    "l_live m q = Some j \<longleftrightarrow> pk_pid j = q \<and> (\<exists>m. j \<noteq> k \<and> node l j = Some m \<and> ln_alive m)" for j q
    using live [of q j] n c unfolding m_def by (simp_all only: node_set)
  have "lin_inv (insert k X) m"
    using Some lin_invD [OF assms] no_self [OF assms Some] by (intro lin_invI) (auto simp: m split: if_splits)
  then have "lin_inv X (collect k m)" by (rule inv_collect)
  then show ?thesis using Some by (simp add: retire_def Let_def m_def)
qed

lemma inv_retire_other: "lin_inv X l \<Longrightarrow> lin_inv X (retire_other k l)"
  by (simp add: retire_other_def inv_retire split: option.split)

text \<open>Collecting leaves the live table and what remains of the nodes alone.\<close>

lemma collect_cases:
  obtains (keep) "collect k l = l" "node l k = None \<or> (\<exists>n. node l k = Some n \<and> (ln_alive n \<or> 0 < ln_refs n))"
  | (drop) n where "node l k = Some n" "\<not> ln_alive n" "\<not> 0 < ln_refs n" "collect k l = l\<lparr>l_nodes := fmdrop k (l_nodes l)\<rparr>"
  | (up) n p pn where "node l k = Some n" "\<not> ln_alive n" "\<not> 0 < ln_refs n" "ln_parent n = Some p" "node l p = Some pn" "p \<noteq> k"
      "collect k l = collect p (set_node p (pn\<lparr>ln_refs := ln_refs pn - 1\<rparr>) (l\<lparr>l_nodes := fmdrop k (l_nodes l)\<rparr>))"
  using collect.simps [of k l] by (auto simp: Let_def split: option.splits if_splits)

lemma collect_induct [case_names keep drop up]:
  assumes "\<And>k l. node l k = None \<or> (\<exists>n. node l k = Some n \<and> (ln_alive n \<or> 0 < ln_refs n)) \<Longrightarrow> P k l l"
    and "\<And>k l n. node l k = Some n \<Longrightarrow> \<not> ln_alive n \<Longrightarrow> \<not> 0 < ln_refs n \<Longrightarrow> P k l (l\<lparr>l_nodes := fmdrop k (l_nodes l)\<rparr>)"
    and "\<And>k l n p pn l'. node l k = Some n \<Longrightarrow> \<not> ln_alive n \<Longrightarrow> \<not> 0 < ln_refs n \<Longrightarrow> ln_parent n = Some p \<Longrightarrow> node l p = Some pn \<Longrightarrow> p \<noteq> k
      \<Longrightarrow> P p (set_node p (pn\<lparr>ln_refs := ln_refs pn - 1\<rparr>) (l\<lparr>l_nodes := fmdrop k (l_nodes l)\<rparr>)) l' \<Longrightarrow> P k l l'"
  shows "P k l (collect k l)"
proof (induction k l rule: collect.induct)
  case (1 k l)
  show ?case
  proof (cases rule: collect_cases [of k l])
    case keep
    then show ?thesis using assms(1) by simp
  next
    case (drop n)
    then show ?thesis using assms(2) by simp
  next
    case (up n p pn)
    have "P p (set_node p (pn\<lparr>ln_refs := ln_refs pn - 1\<rparr>) (l\<lparr>l_nodes := fmdrop k (l_nodes l)\<rparr>))
        (collect p (set_node p (pn\<lparr>ln_refs := ln_refs pn - 1\<rparr>) (l\<lparr>l_nodes := fmdrop k (l_nodes l)\<rparr>)))"
      by (rule 1 [OF up(1) _ refl up(4)]) (use up in simp_all)
    then show ?thesis using assms(3) [OF up(1-6)] up(7) by simp
  qed
qed

lemma collect_live [simp]: "l_live (collect k l) = l_live l" "l_tick (collect k l) = l_tick l"
proof -
  have "l_live (collect k l) = l_live l \<and> l_tick (collect k l) = l_tick l"
    by (induction k l rule: collect_induct) (simp_all add: set_node_def)
  then show "l_live (collect k l) = l_live l" "l_tick (collect k l) = l_tick l" by simp_all
qed

lemma collect_keeps:
  "node (collect j l) k = Some n \<Longrightarrow> \<exists>m. node l k = Some m \<and> ln_alive m = ln_alive n \<and> ln_seen m = ln_seen n \<and> ln_parent m = ln_parent n"
  by (induction j l rule: collect_induct) (fastforce split: if_splits)+

lemma retire_other_live:
  assumes "lin_inv X l"
  shows "l_live (retire_other k l) (pk_pid k) = None \<or> l_live (retire_other k l) (pk_pid k) = Some k"
proof (cases "l_live l (pk_pid k)")
  case (Some old)
  then have "pk_pid old = pk_pid k" "node l old \<noteq> None" using lin_inv_live [OF assms] by auto
  then show ?thesis using Some by (auto simp: retire_other_def retire_def Let_def)
qed (simp add: retire_other_def)

section \<open>add\<close>

lemma note_path_simps [simp]: "l_live (note_path k p l) = l_live l" "\<exists>n. node (note_path k p l) k = Some n"
  by (auto simp: note_path_def split: option.splits)

lemma link_simps [simp]: "l_live (link k n p l) = l_live l" "node l j = Some m \<Longrightarrow> \<exists>m. node (link k n p l) j = Some m"
  by (auto simp: link_def split: option.splits)

lemma inv_add:
  assumes "lin_inv {} l"
  shows "lin_inv {} (lin_add p parent l)"
proof -
  define k where "k = key_of p"
  define l1 where "l1 = retire_other k l"
  define l2 where "l2 = note_path k (pr_path p) l1"
  define l3 where "l3 = (case parent of None \<Rightarrow> l2 | Some pk \<Rightarrow>
       (case node l2 k of Some n \<Rightarrow> if ln_parent n = None then link k n pk l2 else l2 | None \<Rightarrow> l2))"
  have i1: "lin_inv {} l1" unfolding l1_def by (rule inv_retire_other [OF assms])
  have i2: "lin_inv {k} l2" unfolding l2_def using inv_note [OF i1] by simp
  have i3: "lin_inv {k} l3" unfolding l3_def using i2 by (auto intro: inv_link split: option.split)
  have "\<exists>n. node l2 k = Some n" unfolding l2_def by (rule note_path_simps(2))
  then have n3: "\<exists>n. node l3 k = Some n" unfolding l3_def by (auto split: option.split)
  then obtain n where n: "node l3 k = Some n" by blast
  have "l_live l3 = l_live l1" by (auto simp: l3_def l2_def split: option.split)
  then have lv: "l_live l3 (pk_pid k) = None \<or> l_live l3 (pk_pid k) = Some k" using retire_other_live [OF assms, of k] by (simp add: l1_def)
  have "lin_inv ({k} - {k}) (set_alive k n (l_tick l3 + 1) (l3\<lparr>l_tick := l_tick l3 + 1\<rparr>))"
    by (rule inv_alive) (use i3 n lv in simp_all)
  then have "lin_inv {} (set_alive k n (l_tick l3 + 1) (l3\<lparr>l_tick := l_tick l3 + 1\<rparr>))" by simp
  moreover have "lin_add p parent l = set_alive k n (l_tick l3 + 1) (l3\<lparr>l_tick := l_tick l3 + 1\<rparr>)"
    unfolding lin_add_def Let_def lin_mark_def k_def [symmetric] l1_def [symmetric] l2_def [symmetric] l3_def [symmetric] using n by simp
  ultimately show ?thesis by simp
qed

section \<open>sync\<close>

lemma inv_sync_note:
  assumes "lin_inv present l \<and> (\<forall>k \<in> present. node l k \<noteq> None)" and "sync_note since (l, present, byPID) p = (l', present', byPID')"
  shows "lin_inv present' l' \<and> (\<forall>k \<in> present'. node l' k \<noteq> None)"
proof (cases "present' = present \<and> l' = l")
  case False
  then have e: "l' = note_path (key_of p) (pr_path p) l" "present' = insert (key_of p) present"
    using assms(2) by (auto simp: sync_note_def Let_def split: if_splits)
  have "node l j \<noteq> None \<Longrightarrow> node l' j \<noteq> None" for j unfolding e(1) by (auto simp: note_path_def split: option.splits)
  then show ?thesis using assms(1) inv_note [of present l "key_of p" "pr_path p"]
    unfolding e by auto
qed (use assms(1) in simp)

lemma inv_sync_notes:
  assumes "foldl (sync_note since) (l, present, byPID) procs = (l', present', byPID')" and "lin_inv present l \<and> (\<forall>k \<in> present. node l k \<noteq> None)"
  shows "lin_inv present' l' \<and> (\<forall>k \<in> present'. node l' k \<noteq> None)"
  using assms
proof (induction procs arbitrary: l present byPID)
  case (Cons p ps)
  obtain l1 pr1 b1 where s: "sync_note since (l, present, byPID) p = (l1, pr1, b1)" by (metis prod_cases3)
  show ?case by (rule Cons.IH [of l1 pr1 b1]) (use Cons.prems(1) s inv_sync_note [OF Cons.prems(2) s] in simp_all)
qed simp

lemma notes_present:
  "foldl (sync_note since) (l, P, b) procs = (l', present, byPID) \<Longrightarrow> present \<subseteq> P \<union> key_of ` set procs"
proof (induction procs arbitrary: l P b)
  case (Cons p ps)
  obtain m1 P1 b1 where s: "sync_note since (l, P, b) p = (m1, P1, b1)" by (metis prod_cases3)
  then have "P1 \<subseteq> insert (key_of p) P" by (auto simp: sync_note_def Let_def split: if_splits)
  moreover have "present \<subseteq> P1 \<union> key_of ` set ps" by (rule Cons.IH [of m1 P1 b1]) (use Cons.prems s in simp)
  ultimately show ?case by auto
qed simp

lemma inv_sync_link: "lin_inv X l \<Longrightarrow> lin_inv X (sync_link present byPID l p)"
  by (auto simp: sync_link_def Let_def intro: inv_link split: option.splits)

lemma inv_sync_alive: "sync_alive tick ks l = Some l' \<Longrightarrow> lin_inv (set ks) l \<Longrightarrow> lin_inv {} l'"
proof (induction ks arbitrary: l)
  case (Cons k ks)
  define l1 where "l1 = retire_other k l"
  have i: "lin_inv (set (k # ks)) l1" unfolding l1_def by (rule inv_retire_other [OF Cons.prems(2)])
  obtain n where n: "node l1 k = Some n" "sync_alive tick ks (set_alive k n tick l1) = Some l'"
    using Cons.prems(1) by (auto simp: l1_def Let_def split: option.splits)
  have "lin_inv (set (k # ks) - {k}) (set_alive k n tick l1)"
    by (rule inv_alive [OF i n(1)]) (use retire_other_live [OF Cons.prems(2), of k] in \<open>simp add: l1_def\<close>)
  then have "lin_inv (set ks) (set_alive k n tick l1)" by (rule lin_inv_mono) auto
  then show ?case by (rule Cons.IH [OF n(2)])
qed simp

lemma inv_sync_drop: "lin_inv X l \<Longrightarrow> lin_inv X (sync_drop present since l k)"
  by (auto simp: sync_drop_def inv_retire split: option.split)

lemma inv_sync:
  assumes "lin_inv {} l" and "lin_sync order procs since l = Some l'" and "\<And>S. finite S \<Longrightarrow> set (order S) = S"
  shows "lin_inv {} l'"
proof -
  obtain l1 present byPID where n: "foldl (sync_note since) (l, {}, \<lambda>_. None) procs = (l1, present, byPID)" by (metis prod_cases3)
  define l2 where "l2 = foldl (sync_link present byPID) l1 procs"
  have i1: "lin_inv present l1" using inv_sync_notes [OF n] assms(1) by simp
  have i2: "lin_inv present l2" unfolding l2_def by (rule foldl_preserve [where I = "lin_inv present", OF i1]) (rule inv_sync_link)
  obtain l4 where l4: "sync_alive (l_tick l2 + 1) (order present) (l2\<lparr>l_tick := l_tick l2 + 1\<rparr>) = Some l4"
    "l' = foldl (sync_drop present since) l4 (order (fset (fmdom (l_nodes l4))))"
    using assms(2) n by (auto simp: lin_sync_def Let_def lin_mark_def l2_def split: option.splits)
  have "present \<subseteq> key_of ` set procs" using notes_present [OF n] by simp
  then have "set (order present) = present" by (intro assms(3)) (rule finite_subset, auto)
  then have "lin_inv {} l4" using inv_sync_alive [OF l4(1)] i2 by simp
  then show ?thesis unfolding l4(2) by (rule foldl_preserve [where I = "lin_inv {}"]) (rule inv_sync_drop)
qed

section \<open>A snapshot never loses the processes it lists\<close>

text \<open>Each process in hand is alive, or fresh with only processes in hand as children.\<close>

definition held :: "proc_key set \<Rightarrow> lineage \<Rightarrow> bool" where
  "held P l \<longleftrightarrow> (\<forall>a \<in> P. \<exists>n. node l a = Some n \<and> (ln_alive n \<or> children l a \<subseteq> P))"

lemma heldD: "held P l \<Longrightarrow> a \<in> P \<Longrightarrow> \<exists>n. node l a = Some n \<and> (ln_alive n \<or> children l a \<subseteq> P)"
  by (simp add: held_def)

lemma held_mono:
  assumes "held P l" and "\<And>a n. a \<in> P \<Longrightarrow> node l a = Some n \<Longrightarrow> \<exists>m. node l' a = Some m \<and> (ln_alive n \<longrightarrow> ln_alive m)"
    and "\<And>a. children l' a \<subseteq> children l a \<union> P"
  shows "held P l'"
  unfolding held_def
proof
  fix a assume a: "a \<in> P"
  obtain n where n: "node l a = Some n" "ln_alive n \<or> children l a \<subseteq> P" using heldD [OF assms(1) a] by blast
  then show "\<exists>m. node l' a = Some m \<and> (ln_alive m \<or> children l' a \<subseteq> P)" using assms(2) [OF a n(1)] assms(3) [of a] by blast
qed

lemma held_collect: "k \<notin> P \<or> (\<exists>n. node l k = Some n \<and> ln_alive n) \<Longrightarrow> held P l \<Longrightarrow> held P (collect k l)"
proof (induction k l rule: collect_induct)
  case (drop k l n)
  then show ?case by (intro held_mono [OF drop(5)]) (auto simp: children_def split: if_splits)
next
  case (up k l n p pn l')
  let ?d = "l\<lparr>l_nodes := fmdrop k (l_nodes l)\<rparr>"
  let ?e = "set_node p (pn\<lparr>ln_refs := ln_refs pn - 1\<rparr>) ?d"
  have k: "k \<notin> P" using up(1,2,8) by auto
  have "children ?e = children ?d" by (rule children_set) (use up(5,6) in simp_all)
  then have "held P ?e" using up(5) k by (intro held_mono [OF up(9)]) (auto simp: children_def split: if_splits)
  moreover have "p \<notin> P \<or> (\<exists>n. node ?e p = Some n \<and> ln_alive n)"
  proof (cases "p \<in> P")
    case True
    have "k \<in> children l p" using up(1,4) by (simp add: children_def)
    then show ?thesis using heldD [OF up(9) True] up(5) k by auto
  qed simp
  ultimately show ?case by (intro up(7))
qed simp

lemma held_retire:
  assumes "held P l" and "k \<notin> P"
  shows "held P (retire k l)"
proof (cases "node l k")
  case (Some n)
  let ?l = "set_node k (n\<lparr>ln_alive := False\<rparr>) l"
  let ?m = "if l_live ?l (pk_pid k) = Some k then ?l\<lparr>l_live := (l_live ?l)(pk_pid k := None)\<rparr> else ?l"
  have "children ?l = children l" by (rule children_set [OF Some]) simp
  then have "held P ?m" using assms(2) by (intro held_mono [OF assms(1)]) auto
  then have "held P (collect k ?m)" using assms(2) by (intro held_collect) simp
  then show ?thesis using Some by (simp add: retire_def Let_def)
qed (simp add: retire_def assms)

lemma held_link: "held P l \<Longrightarrow> k \<in> P \<Longrightarrow> node l k = Some n \<Longrightarrow> held P (link k n p l)"
  by (erule held_mono) (auto simp: link_def children_def split: option.splits if_splits)

lemma held_alive: "held P l \<Longrightarrow> node l k = Some n \<Longrightarrow> held P (set_alive k n tick l)"
  by (erule held_mono) (auto simp: set_alive_def children_def split: if_splits)

lemma held_sync_link: "held P l \<Longrightarrow> held P (sync_link P byPID l p)"
  by (auto simp: sync_link_def Let_def intro: held_link split: option.splits)

lemma held_sync_alive:
  assumes "held P l" and "lin_inv X l" and "set ks \<subseteq> P" and "inj_on pk_pid P"
  shows "\<exists>l'. sync_alive tick ks l = Some l'"
  using assms(1-3)
proof (induction ks arbitrary: l X)
  case (Cons k ks)
  define l1 where "l1 = retire_other k l"
  have k: "k \<in> P" using Cons.prems(3) by simp
  have "old \<notin> P" if "l_live l (pk_pid k) = Some old" "old \<noteq> k" for old
    using lin_inv_live [OF Cons.prems(2)] that k inj_onD [OF assms(4), of old k] by auto
  then have h: "held P l1" using Cons.prems(1) by (auto simp: l1_def retire_other_def held_retire split: option.split)
  then obtain n where n: "node l1 k = Some n" using heldD [OF h k] by blast
  have i: "lin_inv X l1" unfolding l1_def by (rule inv_retire_other [OF Cons.prems(2)])
  have "lin_inv (X - {k}) (set_alive k n tick l1)"
    by (rule inv_alive [OF i n]) (use retire_other_live [OF Cons.prems(2), of k] in \<open>simp add: l1_def\<close>)
  then show ?case
    using Cons.IH [OF held_alive [OF h n]] Cons.prems(3) n by (simp add: l1_def [symmetric] Let_def)
qed simp

lemma held_notes:
  assumes "foldl (sync_note since) (l, P, b) procs = (l', present, byPID)" and "held P l" and "lin_inv P l"
    and "\<forall>p \<in> set procs. key_of p \<notin> P \<longrightarrow> (\<forall>n. node l (key_of p) = Some n \<longrightarrow> ln_alive n)"
  shows "held present l'"
  using assms
proof (induction procs arbitrary: l P b)
  case (Cons p ps)
  obtain m1 P1 b1 where s: "sync_note since (l, P, b) p = (m1, P1, b1)" by (metis prod_cases3)
  show ?case
  proof (cases "m1 = l \<and> P1 = P")
    case True
    then show ?thesis using Cons.IH [of l P b1] Cons.prems s by simp
  next
    case False
    then have e: "m1 = note_path (key_of p) (pr_path p) l" "P1 = insert (key_of p) P"
      using s by (auto simp: sync_note_def Let_def split: if_splits)
    have ch: "children m1 = children l" unfolding e
      by (cases "node l (key_of p)") (auto simp: note_path_def new_node_def intro: children_new children_set)
    have nd: "node m1 a = node l a \<or> a = key_of p \<and> (\<exists>n. node m1 a = Some n \<and> (\<forall>m. node l a = Some m \<longrightarrow> ln_alive n = ln_alive m))" for a
      unfolding e by (auto simp: note_path_def split: option.split)
    have none: "children l (key_of p) = {}" if "node l (key_of p) = None"
      using lin_invD(3) [OF Cons.prems(3)] that by (fastforce simp: children_def)
    have "held P1 m1"
      unfolding held_def
    proof
      fix a assume a: "a \<in> P1"
      show "\<exists>n. node m1 a = Some n \<and> (ln_alive n \<or> children m1 a \<subseteq> P1)"
      proof (cases "a \<in> P")
        case True
        then obtain n where "node l a = Some n" "ln_alive n \<or> children l a \<subseteq> P" using heldD [OF Cons.prems(2)] by blast
        then show ?thesis using nd [of a] ch e(2) by auto
      next
        case False
        then have a: "a = key_of p" using a e(2) by simp
        then show ?thesis using nd [of a] ch none Cons.prems(4) False e note_path_simps(2) [of a "pr_path p" l]
          by (cases "node l a") auto
      qed
    qed
    moreover have "lin_inv P1 m1" using inv_note [OF Cons.prems(3), of "key_of p" "pr_path p"] e by simp
    moreover have "node m1 (key_of q) = node l (key_of q)" if "key_of q \<notin> P1" for q using nd [of "key_of q"] that e(2) by auto
    ultimately show ?thesis using Cons.IH [of m1 P1 b1] Cons.prems s e(2) by simp
  qed
qed simp

text \<open>The last pass leaves alive only what the snapshot lists or what was seen since.\<close>

lemma retire_keeps: "node (retire j l) k = Some n \<Longrightarrow> ln_alive n \<Longrightarrow> k \<noteq> j \<and> (\<exists>m. node l k = Some m \<and> ln_alive m \<and> ln_seen m = ln_seen n)"
proof -
  assume a: "node (retire j l) k = Some n" "ln_alive n"
  show ?thesis
  proof (cases "node l j")
    case None
    then show ?thesis using a by (auto simp: retire_def)
  next
    case (Some m)
    then show ?thesis using a by (auto simp: retire_def Let_def split: if_splits dest!: collect_keeps)
  qed
qed

lemma drop_keeps: "node (sync_drop P since l j) k = Some n \<Longrightarrow> ln_alive n \<Longrightarrow> \<exists>m. node l k = Some m \<and> ln_alive m \<and> ln_seen m = ln_seen n"
  by (auto simp: sync_drop_def split: option.splits if_splits dest: retire_keeps)

lemma drops_keep: "node (foldl (sync_drop P since) l ks) k = Some n \<Longrightarrow> ln_alive n \<Longrightarrow> \<exists>m. node l k = Some m \<and> ln_alive m \<and> ln_seen m = ln_seen n"
proof (induction ks arbitrary: l)
  case (Cons j ks)
  then obtain m where "node (sync_drop P since l j) k = Some m" "ln_alive m" "ln_seen m = ln_seen n" by auto
  then show ?case using drop_keeps by fastforce
qed auto

lemma drops_done:
  "k \<in> set ks \<Longrightarrow> node (foldl (sync_drop P since) l ks) k = Some n \<Longrightarrow> ln_alive n \<Longrightarrow> k \<in> P \<or> since \<le> ln_seen n"
proof (induction ks arbitrary: l)
  case (Cons j ks)
  show ?case
  proof (cases "k \<in> set ks")
    case True
    then show ?thesis using Cons.IH [of "sync_drop P since l j"] Cons.prems by simp
  next
    case False
    then have "j = k" using Cons.prems(1) by simp
    then obtain m where m: "node (sync_drop P since l k) k = Some m" "ln_alive m" "ln_seen m = ln_seen n"
      using drops_keep [of P since "sync_drop P since l j" ks k n] Cons.prems(2,3) by auto
    then show ?thesis by (auto simp: sync_drop_def not_less split: option.splits if_splits dest: retire_keeps)
  qed
qed simp

section \<open>Reachable lineages\<close>

inductive lin_reachable :: "lineage \<Rightarrow> bool" where
  start: "lin_reachable newLineage"
| mark: "lin_reachable l \<Longrightarrow> lin_reachable (fst (lin_mark l))"
| observed: "lin_reachable l \<Longrightarrow> lin_reachable (lin_add p parent l)"
| gone: "lin_reachable l \<Longrightarrow> lin_reachable (retire k l)"
| execd: "lin_reachable l \<Longrightarrow> lin_reachable (fst (setPath k p l))"
| snapshot: "lin_reachable l \<Longrightarrow> \<forall>S. finite S \<longrightarrow> set (order S) = S \<Longrightarrow> lin_sync order procs since l = Some l' \<Longrightarrow> lin_reachable l'"

lemma reachable_inv: "lin_reachable l \<Longrightarrow> lin_inv {} l"
proof (induction rule: lin_reachable.induct)
  case start
  show ?case by (auto simp: lin_inv_def newLineage_def)
next
  case (mark l)
  then show ?case by (simp add: lin_mark_def)
next
  case (execd l k p)
  then show ?case by (auto simp: setPath_def inv_path split: option.split)
next
  case (snapshot l order procs since l')
  show ?case by (rule inv_sync [OF snapshot.IH snapshot.hyps(3)]) (use snapshot.hyps(2) in blast)
qed (simp_all add: inv_add inv_retire)

text \<open>C17: However processes are observed, reported gone, exec another image or are synchronised with a snapshot, the
  lineage's books agree: a node's count is the number of recorded children, an exited process is kept
  only while some recorded child refers to it, a recorded parent is itself recorded, is another process
  and did not start later, and the table of live processes has exactly the nodes that are alive, one
  for each pid.\<close>

theorem lineage_books:
  assumes "lin_reachable l"
  shows "(\<forall>k n. node l k = Some n \<longrightarrow> ln_refs n = int (card (children l k)) \<and> (ln_alive n \<or> children l k \<noteq> {}) \<and>
      (\<forall>p. ln_parent n = Some p \<longrightarrow> node l p \<noteq> None \<and> pk_pid p \<noteq> pk_pid k \<and> pk_start p \<le> pk_start k)) \<and>
    (\<forall>q k. l_live l q = Some k \<longleftrightarrow> pk_pid k = q \<and> (\<exists>n. node l k = Some n \<and> ln_alive n))"
proof -
  have i: "lin_inv {} l" by (rule reachable_inv [OF assms])
  have c: "ln_alive n \<or> children l k \<noteq> {}" if "node l k = Some n" for k n
    using lin_invD(1,2) [OF i that] by auto
  show ?thesis
  proof (intro conjI allI impI)
    fix k n assume n: "node l k = Some n"
    show "ln_refs n = int (card (children l k))" by (rule lin_invD(1) [OF i n])
    show "ln_alive n \<or> children l k \<noteq> {}" by (rule c [OF n])
    fix p assume p: "ln_parent n = Some p"
    show "node l p \<noteq> None" "pk_pid p \<noteq> pk_pid k" "pk_start p \<le> pk_start k" using lin_invD(3) [OF i n p] by blast+
  next
    show "l_live l q = Some k \<longleftrightarrow> pk_pid k = q \<and> (\<exists>n. node l k = Some n \<and> ln_alive n)" for q k by (rule lin_inv_live [OF i])
  qed
qed

text \<open>A shell (100) starts a program (200) and exits: the shell's record stays for the program's sake.\<close>

definition sample_shell :: proc_key where "sample_shell = ProcKey 100 1"
definition sample_prog :: proc_key where "sample_prog = ProcKey 200 2"

definition sample_lineage :: lineage where
  "sample_lineage = retire sample_shell
     (lin_add \<lparr>pr_pid = 200, pr_ppid = 100, pr_start = 2, pr_path = ''/opt/app''\<rparr> (Some sample_shell)
       (lin_add \<lparr>pr_pid = 100, pr_ppid = 1, pr_start = 1, pr_path = ''/bin/sh''\<rparr> None newLineage))"

lemmas lineage_eval = lin_add_def key_of_def retire_other_def newLineage_def note_path_def set_node_def new_node_def link_def
  lin_mark_def set_alive_def retire_def Let_def

theorem lineage_books_witness:
  "lin_reachable sample_lineage \<and> l_live sample_lineage 100 = None \<and>
   (\<exists>n. node sample_lineage sample_shell = Some n \<and> ln_refs n = 1 \<and> children sample_lineage sample_shell \<noteq> {})"
proof -
  have r: "lin_reachable sample_lineage" unfolding sample_lineage_def by (intro lin_reachable.intros)
  have e: "\<exists>n. node sample_lineage sample_shell = Some n \<and> ln_refs n = 1 \<and> \<not> ln_alive n" "l_live sample_lineage 100 = None"
    by (simp_all add: sample_lineage_def sample_shell_def lineage_eval collect.simps [of "ProcKey 100 1"])
  then show ?thesis using lineage_books [OF r] r by blast
qed


definition sample_snapshot :: "proc_info list" where
  "sample_snapshot = [\<lparr>pr_pid = 200, pr_ppid = 100, pr_start = 2, pr_path = []\<rparr>, \<lparr>pr_pid = 300, pr_ppid = 200, pr_start = 5, pr_path = ''/opt/child''\<rparr>]"


end
