(* ===== verification/Socket_Owners.thy ===== *)
theory Socket_Owners
  imports Packet
begin

text \<open>splittunnel/procmatch/owners.go, pcblist.go and sockdiag.go, what they decide on parsed tables: which
  process a flow belongs to, by the socket tables of Windows, macOS and Linux.\<close>

section \<open>Endpoints\<close>

text \<open>netip.AddrPort; its zero value has no address.\<close>

datatype addr_port = AddrPort (ap_addr: "addr option") (ap_port: nat)

definition ap_valid :: "addr_port \<Rightarrow> bool" where
  "ap_valid a \<longleftrightarrow> ap_addr a \<noteq> None"

definition unspecified :: "addr option \<Rightarrow> bool" where
  "unspecified a \<longleftrightarrow> a = Some (V4 0) \<or> a = Some (V6 0)"

text \<open>netip.Addr.Unmap: an IPv4-mapped IPv6 address as the IPv4 one.\<close>

definition unmap :: "addr \<Rightarrow> addr" where
  "unmap a = (case a of V4 w \<Rightarrow> V4 w | V6 w \<Rightarrow> if drop_bit 32 w = 0xFFFF then V4 (ucast w) else V6 w)"

definition unmap_ap :: "addr_port \<Rightarrow> addr_port" where
  "unmap_ap a = AddrPort (map_option unmap (ap_addr a)) (ap_port a)"

record flow_id =
  fi_proto :: nat
  fi_app :: addr_port
  fi_remote :: addr_port

section \<open>Owner tables\<close>

definition tcpStateListen :: int where "tcpStateListen = 2"
definition tcpStateTimeWait :: int where "tcpStateTimeWait = 11"

record tcp_row =
  tr_state :: int
  tr_local :: addr_port
  tr_remote :: addr_port
  tr_pid :: int

record udp_row =
  ur_local :: addr_port
  ur_pid :: int

text \<open>The rows of a flow.\<close>

definition tcp_row_of :: "addr_port \<Rightarrow> addr_port \<Rightarrow> tcp_row \<Rightarrow> bool" where
  "tcp_row_of app remote r \<longleftrightarrow> \<not> (tr_state r = tcpStateListen \<or> tr_state r = tcpStateTimeWait \<or> tr_local r \<noteq> app) \<and>
     \<not> (ap_valid remote \<and> tr_remote r \<noteq> remote)"

definition udp_row_of :: "addr_port \<Rightarrow> udp_row \<Rightarrow> bool" where
  "udp_row_of app r \<longleftrightarrow> \<not> ap_port (ur_local r) \<noteq> ap_port app \<and>
     \<not> (ap_addr (ur_local r) \<noteq> ap_addr app \<and> \<not> unspecified (ap_addr (ur_local r)))"

text \<open>The loop both share: the pid of every row that passes; differing pids or no row fail.\<close>

fun sole_pid :: "('r \<Rightarrow> bool) \<Rightarrow> ('r \<Rightarrow> int) \<Rightarrow> 'r list \<Rightarrow> int option \<Rightarrow> int option" where
  "sole_pid ok pid [] found = found"
| "sole_pid ok pid (r # rs) found = (if \<not> ok r then sole_pid ok pid rs found
     else if found \<noteq> None \<and> found \<noteq> Some (pid r) then None
     else sole_pid ok pid rs (Some (pid r)))"

definition tcpOwner :: "tcp_row list \<Rightarrow> addr_port \<Rightarrow> addr_port \<Rightarrow> int option" where
  "tcpOwner rows app remote = sole_pid (tcp_row_of app remote) tr_pid rows None"

definition udpOwner :: "udp_row list \<Rightarrow> addr_port \<Rightarrow> int option" where
  "udpOwner rows app = sole_pid (udp_row_of app) ur_pid rows None"

definition flowOwner :: "tcp_row list \<Rightarrow> udp_row list \<Rightarrow> flow_id \<Rightarrow> int option" where
  "flowOwner tcp udp f = (if fi_proto f = protoTCP then tcpOwner tcp (fi_app f) (fi_remote f)
     else if fi_proto f = protoUDP then udpOwner udp (fi_app f) else None)"

text \<open>ntToDos: the device table in the order Go visits it.\<close>

fun ntToDos :: "(string \<times> string) list \<Rightarrow> string \<Rightarrow> string option" where
  "ntToDos [] nt = None"
| "ntToDos ((dev, drive) # ds) nt = (if has_prefix (to_lower nt) dev \<and> has_prefix (drop (length dev) (to_lower nt)) [CHR 0x5C]
     then Some (drive @ drop (length dev) (to_lower nt)) else ntToDos ds nt)"

text \<open>logLimiter: whether the line is printed, and the time of the last one of each class.\<close>

definition logEvery :: int where "logEvery = 60 * 1000000000"

definition limiter_logf :: "string \<Rightarrow> int \<Rightarrow> (string \<rightharpoonup> int) \<Rightarrow> (string \<rightharpoonup> int) \<times> bool" where
  "limiter_logf class now seen = (case seen class of
       Some t \<Rightarrow> if now - t < logEvery then (seen, False) else (seen(class \<mapsto> now), True)
     | None \<Rightarrow> (seen(class \<mapsto> now), True))"

section \<open>macOS: sockets with two candidate owners\<close>

record pcb_record =
  pb_local :: addr_port
  pb_remote :: addr_port
  pb_state :: int
  pb_uid :: nat
  pb_lastPID :: int
  pb_ePID :: int
  pb_flags :: nat
  pb_gencnt :: nat

datatype pcb_owner = PcbOwner (po_last: int) (po_eff: int)

definition record_owner :: "pcb_record \<Rightarrow> pcb_owner" where
  "record_owner r = PcbOwner (pb_lastPID r) (if 0 < pb_ePID r \<and> pb_ePID r \<noteq> pb_lastPID r then pb_ePID r else 0)"

definition owner_pids :: "pcb_owner \<Rightarrow> int list" where
  "owner_pids w = (if 0 < po_last w then [po_last w] else []) @ (if 0 < po_eff w then [po_eff w] else [])"

definition owner_has :: "pcb_owner \<Rightarrow> int \<Rightarrow> bool" where
  "owner_has w pid \<longleftrightarrow> 0 < pid \<and> (po_last w = pid \<or> po_eff w = pid)"

text \<open>BSD TCP states onto the owner-table numbering; the sum is a uint32.\<close>

definition darwinTCPState :: "int \<Rightarrow> int" where
  "darwinTCPState s = (if s = 1 then tcpStateListen else if s = 10 then tcpStateTimeWait else (0x100 + s) mod 2 ^ 32)"

record pcb_snapshot =
  ps_tcp :: "tcp_row list"
  ps_udp :: "udp_row list"
  ps_owners :: "pcb_owner list"
  ps_ids :: "pcb_owner \<rightharpoonup> int"

definition empty_snapshot :: pcb_snapshot where
  "empty_snapshot = \<lparr>ps_tcp = [], ps_udp = [], ps_owners = [], ps_ids = (\<lambda>_. None)\<rparr>"

definition idOf :: "pcb_owner \<Rightarrow> pcb_snapshot \<Rightarrow> pcb_snapshot \<times> int" where
  "idOf w s = (if po_last w \<le> 0 \<and> po_eff w \<le> 0 then (s, 0)
     else case ps_ids s w of Some i \<Rightarrow> (s, i)
     | None \<Rightarrow> (let i = int (length (ps_owners s)) + 1 in
         (s\<lparr>ps_owners := ps_owners s @ [w], ps_ids := (ps_ids s)(w \<mapsto> i)\<rparr>, i)))"

definition pcb_add1 :: "nat \<Rightarrow> pcb_snapshot \<Rightarrow> pcb_record \<Rightarrow> pcb_snapshot" where
  "pcb_add1 proto s r = (let (s1, i) = idOf (record_owner r) s in
     if proto = protoTCP then s1\<lparr>ps_tcp := ps_tcp s1 @
         [\<lparr>tr_state = darwinTCPState (pb_state r), tr_local = pb_local r, tr_remote = pb_remote r, tr_pid = i\<rparr>]\<rparr>
     else if proto = protoUDP then s1\<lparr>ps_udp := ps_udp s1 @ [\<lparr>ur_local = pb_local r, ur_pid = i\<rparr>]\<rparr>
     else s1)"

definition pcb_add :: "nat \<Rightarrow> pcb_record list \<Rightarrow> pcb_snapshot \<Rightarrow> pcb_snapshot" where
  "pcb_add proto rs s = foldl (pcb_add1 proto) s rs"

definition snapshot_owner :: "pcb_snapshot \<Rightarrow> flow_id \<Rightarrow> pcb_owner option" where
  "snapshot_owner s f = (case flowOwner (ps_tcp s) (ps_udp s) f of None \<Rightarrow> None
     | Some i \<Rightarrow> if i \<le> 0 \<or> int (length (ps_owners s)) < i then None else Some (ps_owners s ! nat (i - 1)))"

section \<open>Linux: rows of the socket diagnostics\<close>

record diag_row =
  dr_family :: nat
  dr_state :: nat
  dr_local :: addr_port
  dr_remote :: addr_port
  dr_uid :: nat
  dr_inode :: nat
  dr_cookie :: nat
  dr_v6only :: bool

definition tcpDiagMatch :: "diag_row \<Rightarrow> addr_port \<Rightarrow> addr_port \<Rightarrow> bool" where
  "tcpDiagMatch r app remote \<longleftrightarrow> (if dr_state r = 10 \<or> dr_state r = 6 \<or> dr_inode r = 0 then False
     else if dr_local r \<noteq> app then False else \<not> ap_valid remote \<or> dr_remote r = remote)"

definition udpDiagMatch :: "diag_row \<Rightarrow> addr_port \<Rightarrow> bool" where
  "udpDiagMatch r app \<longleftrightarrow> (if ap_port (dr_local r) \<noteq> ap_port app \<or> dr_inode r = 0 then False
     else let a = ap_addr (dr_local r) in
       if a = ap_addr app then True
       else if a = Some (V4 0) then True
       else if a = Some (V6 0) then \<not> dr_v6only r else False)"

definition diagRowsFor :: "diag_row list \<Rightarrow> nat \<Rightarrow> addr_port \<Rightarrow> addr_port \<Rightarrow> diag_row list" where
  "diagRowsFor rows proto app0 remote0 =
    (let app = unmap_ap app0; remote = (if ap_valid remote0 then unmap_ap remote0 else remote0)
     in foldl (\<lambda>out r. if proto = protoTCP then (if tcpDiagMatch r app remote then out @ [r] else out)
           else if proto = protoUDP then
             (if udpDiagMatch r app then (if ap_addr (dr_local r) = ap_addr app then r # out else out @ [r]) else out)
           else out) [] rows)"

section \<open>Owners are unambiguous\<close>

lemma sole_pid_iff: "sole_pid ok pid rs found = Some p \<longleftrightarrow>
    (found = None \<longrightarrow> (\<exists>r \<in> set rs. ok r)) \<and> (found \<noteq> None \<longrightarrow> found = Some p) \<and> (\<forall>r \<in> set rs. ok r \<longrightarrow> pid r = p)"
  by (induction ok pid rs found rule: sole_pid.induct) auto

text \<open>The rows that could have sent the flow, and their pids.\<close>

definition flow_pids :: "tcp_row list \<Rightarrow> udp_row list \<Rightarrow> flow_id \<Rightarrow> int set" where
  "flow_pids tcp udp f = (if fi_proto f = protoTCP then tr_pid ` {r \<in> set tcp. tcp_row_of (fi_app f) (fi_remote f) r}
     else if fi_proto f = protoUDP then ur_pid ` {r \<in> set udp. udp_row_of (fi_app f) r} else {})"

lemma flowOwner_sole: "flowOwner tcp udp f = Some p \<longleftrightarrow> flow_pids tcp udp f = {p}"
  by (auto simp: flowOwner_def flow_pids_def tcpOwner_def udpOwner_def sole_pid_iff)

text \<open>A flow has an owner exactly when the rows that could have sent it (for UDP every socket on the port bound
  to its address or to the wildcard, for TCP every live socket with its endpoints) name one single
  process: two processes on the same port, or none, leave it unattributed, whatever the order of the table.\<close>

theorem flow_owner_unambiguous:
  "flowOwner tcp udp f = Some p \<longleftrightarrow> flow_pids tcp udp f = {p}"
  by (rule flowOwner_sole)

section \<open>A snapshot keeps its owners apart\<close>

text \<open>The rows of a table built from records, and what its row pids name.\<close>

definition known_owner :: "pcb_owner \<Rightarrow> bool" where
  "known_owner w \<longleftrightarrow> 0 < po_last w \<or> 0 < po_eff w"

definition snapshot_ok :: "pcb_snapshot \<Rightarrow> bool" where
  "snapshot_ok s \<longleftrightarrow> (\<forall>w i. ps_ids s w = Some i \<longleftrightarrow> 1 \<le> i \<and> i \<le> int (length (ps_owners s)) \<and> ps_owners s ! nat (i - 1) = w) \<and>
     (\<forall>w \<in> set (ps_owners s). known_owner w)"

definition id_names :: "pcb_snapshot \<Rightarrow> int \<Rightarrow> pcb_owner \<Rightarrow> bool" where
  "id_names s i w \<longleftrightarrow> (if known_owner w then ps_ids s w = Some i else i = 0)"

lemma idOf_ok:
  assumes "snapshot_ok s" and "idOf w s = (s', i)"
  shows "snapshot_ok s' \<and> id_names s' i w \<and> (\<forall>v j. id_names s j v \<longrightarrow> id_names s' j v) \<and> ps_tcp s' = ps_tcp s \<and> ps_udp s' = ps_udp s"
proof (cases "known_owner w \<and> ps_ids s w = None")
  case False
  then have "s' = s \<and> id_names s i w"
    using assms(2) by (auto simp: idOf_def known_owner_def id_names_def not_le split: if_splits)
  then show ?thesis using assms(1) by simp
next
  case True
  define n where "n = int (length (ps_owners s))"
  have e: "s' = s\<lparr>ps_owners := ps_owners s @ [w], ps_ids := (ps_ids s)(w \<mapsto> n + 1)\<rparr>" "i = n + 1"
    using assms(2) True by (auto simp: idOf_def known_owner_def n_def Let_def not_le split: if_splits)
  have ids: "ps_ids s v = Some j \<longleftrightarrow> 1 \<le> j \<and> j \<le> n \<and> ps_owners s ! nat (j - 1) = v" for v j
    using assms(1) by (simp add: snapshot_ok_def n_def)
  have "ps_ids s' v = Some j \<longleftrightarrow> 1 \<le> j \<and> j \<le> int (length (ps_owners s')) \<and> ps_owners s' ! nat (j - 1) = v" for v j
  proof (cases "j = n + 1")
    case j: True
    have "ps_ids s v \<noteq> Some j" using ids [of v j] j by simp
    then show ?thesis using j by (auto simp: e n_def)
  next
    case j: False
    have l: "ps_owners s' ! nat (j - 1) = ps_owners s ! nat (j - 1)" if "1 \<le> j" "j \<le> n" using that by (simp add: e nth_append n_def nat_less_iff)
    have "v \<noteq> w" if "ps_ids s v = Some j" using that True by auto
    then show ?thesis using j l ids [of v j] True by (auto simp: e n_def)
  qed
  then have "snapshot_ok s'" using assms(1) True by (auto simp: snapshot_ok_def e)
  then show ?thesis using True by (auto simp: id_names_def e)
qed

definition tcp_made :: "pcb_snapshot \<Rightarrow> tcp_row \<Rightarrow> pcb_record \<Rightarrow> bool" where
  "tcp_made s t r \<longleftrightarrow> tr_state t = darwinTCPState (pb_state r) \<and> tr_local t = pb_local r \<and> tr_remote t = pb_remote r \<and>
     id_names s (tr_pid t) (record_owner r)"

definition udp_made :: "pcb_snapshot \<Rightarrow> udp_row \<Rightarrow> pcb_record \<Rightarrow> bool" where
  "udp_made s t r \<longleftrightarrow> ur_local t = pb_local r \<and> id_names s (ur_pid t) (record_owner r)"

definition built :: "pcb_record list \<Rightarrow> pcb_record list \<Rightarrow> pcb_snapshot \<Rightarrow> bool" where
  "built ts us s \<longleftrightarrow> snapshot_ok s \<and> list_all2 (tcp_made s) (ps_tcp s) ts \<and> list_all2 (udp_made s) (ps_udp s) us"

lemma built_add1:
  assumes "built ts us s"
  shows "built (if proto = protoTCP then ts @ [r] else ts) (if proto = protoUDP then us @ [r] else us) (pcb_add1 proto s r)"
proof -
  obtain s' i where i: "idOf (record_owner r) s = (s', i)" by fastforce
  have o: "snapshot_ok s'" "id_names s' i (record_owner r)" "\<And>v j. id_names s j v \<Longrightarrow> id_names s' j v" "ps_tcp s' = ps_tcp s" "ps_udp s' = ps_udp s"
    using idOf_ok [OF _ i] assms by (auto simp: built_def)
  have "list_all2 (tcp_made s') (ps_tcp s) ts" "list_all2 (udp_made s') (ps_udp s) us"
    using assms o(3) by (auto simp: built_def tcp_made_def udp_made_def elim!: list_all2_mono)
  moreover have x: "snapshot_ok (s'\<lparr>ps_tcp := a\<rparr>) = snapshot_ok s'" "snapshot_ok (s'\<lparr>ps_udp := b\<rparr>) = snapshot_ok s'"
    "tcp_made (s'\<lparr>ps_tcp := a\<rparr>) = tcp_made s'" "udp_made (s'\<lparr>ps_tcp := a\<rparr>) = udp_made s'"
    "tcp_made (s'\<lparr>ps_udp := b\<rparr>) = tcp_made s'" "udp_made (s'\<lparr>ps_udp := b\<rparr>) = udp_made s'" for a b
    by (simp_all add: snapshot_ok_def tcp_made_def udp_made_def id_names_def fun_eq_iff)
  ultimately show ?thesis
    using o by (auto simp: built_def pcb_add1_def i protoTCP_def protoUDP_def list_all2_appendI tcp_made_def udp_made_def id_names_def x)
qed

lemma built_add:
  "built ts us s \<Longrightarrow> built (if proto = protoTCP then ts @ rs else ts) (if proto = protoUDP then us @ rs else us) (pcb_add proto rs s)"
proof (induction rs arbitrary: ts us s)
  case (Cons r rs)
  then show ?case using Cons.IH [OF built_add1 [OF Cons.prems, of proto r]] by (auto simp: pcb_add_def split: if_splits)
qed (simp add: pcb_add_def)

text \<open>The owners of the records that could have sent the flow.\<close>

definition record_owners :: "pcb_record list \<Rightarrow> pcb_record list \<Rightarrow> flow_id \<Rightarrow> pcb_owner set" where
  "record_owners ts us f = (if fi_proto f = protoTCP then record_owner ` {r \<in> set ts.
        darwinTCPState (pb_state r) \<notin> {tcpStateListen, tcpStateTimeWait} \<and> pb_local r = fi_app f \<and>
        (ap_valid (fi_remote f) \<longrightarrow> pb_remote r = fi_remote f)}
     else if fi_proto f = protoUDP then record_owner ` {r \<in> set us. ap_port (pb_local r) = ap_port (fi_app f) \<and>
        (ap_addr (pb_local r) = ap_addr (fi_app f) \<or> unspecified (ap_addr (pb_local r)))}
     else {})"

lemma list_all2_image:
  assumes "list_all2 R xs ys" and "\<And>x y. R x y \<Longrightarrow> P x \<longleftrightarrow> Q y"
  shows "\<forall>x \<in> {x \<in> set xs. P x}. \<exists>y \<in> {y \<in> set ys. Q y}. R x y" and "\<forall>y \<in> {y \<in> set ys. Q y}. \<exists>x \<in> {x \<in> set xs. P x}. R x y"
  using assms(1) by (induction, auto simp: assms(2))

lemma image_ex:
  "\<forall>x \<in> A. \<exists>y \<in> B. M x y \<Longrightarrow> (\<And>x y. M x y \<Longrightarrow> N (g x) (h y)) \<Longrightarrow> \<forall>i \<in> g ` A. \<exists>w \<in> h ` B. N i w"
  "\<forall>y \<in> B. \<exists>x \<in> A. M x y \<Longrightarrow> (\<And>x y. M x y \<Longrightarrow> N (g x) (h y)) \<Longrightarrow> \<forall>w \<in> h ` B. \<exists>i \<in> g ` A. N i w"
  by blast+

lemma pids_owners:
  assumes "built ts us s"
  shows "\<forall>i \<in> flow_pids (ps_tcp s) (ps_udp s) f. \<exists>w \<in> record_owners ts us f. id_names s i w"
    and "\<forall>w \<in> record_owners ts us f. \<exists>i \<in> flow_pids (ps_tcp s) (ps_udp s) f. id_names s i w"
proof -
  define Q where "Q r \<longleftrightarrow> darwinTCPState (pb_state r) \<notin> {tcpStateListen, tcpStateTimeWait} \<and> pb_local r = fi_app f \<and>
      (ap_valid (fi_remote f) \<longrightarrow> pb_remote r = fi_remote f)" for r :: pcb_record
  define U where "U r \<longleftrightarrow> ap_port (pb_local r) = ap_port (fi_app f) \<and>
      (ap_addr (pb_local r) = ap_addr (fi_app f) \<or> unspecified (ap_addr (pb_local r)))" for r :: pcb_record
  note t = list_all2_image [of "tcp_made s" "ps_tcp s" ts "tcp_row_of (fi_app f) (fi_remote f)" Q]
  note u = list_all2_image [of "udp_made s" "ps_udp s" us "udp_row_of (fi_app f)" U]
  have a: "list_all2 (tcp_made s) (ps_tcp s) ts" "list_all2 (udp_made s) (ps_udp s) us" using assms by (simp_all add: built_def)
  have q: "tcp_made s x y \<Longrightarrow> tcp_row_of (fi_app f) (fi_remote f) x \<longleftrightarrow> Q y" "udp_made s v y \<Longrightarrow> udp_row_of (fi_app f) v \<longleftrightarrow> U y" for x y v
    by (auto simp: tcp_made_def tcp_row_of_def Q_def udp_made_def udp_row_of_def U_def)
  have m: "tcp_made s x y \<Longrightarrow> id_names s (tr_pid x) (record_owner y)" "udp_made s v y \<Longrightarrow> id_names s (ur_pid v) (record_owner y)" for x y v
    by (simp_all add: tcp_made_def udp_made_def)
  show "\<forall>i \<in> flow_pids (ps_tcp s) (ps_udp s) f. \<exists>w \<in> record_owners ts us f. id_names s i w"
    unfolding flow_pids_def record_owners_def Q_def [symmetric] U_def [symmetric]
    using image_ex(1) [where g = tr_pid and h = record_owner and N = "id_names s", OF t(1) [OF a(1) q(1)] m(1)] image_ex(1) [where g = ur_pid and h = record_owner and N = "id_names s", OF u(1) [OF a(2) q(2)] m(2)] by simp
  show "\<forall>w \<in> record_owners ts us f. \<exists>i \<in> flow_pids (ps_tcp s) (ps_udp s) f. id_names s i w"
    unfolding flow_pids_def record_owners_def Q_def [symmetric] U_def [symmetric]
    using image_ex(2) [where g = tr_pid and h = record_owner and N = "id_names s", OF t(2) [OF a(1) q(1)] m(1)] image_ex(2) [where g = ur_pid and h = record_owner and N = "id_names s", OF u(2) [OF a(2) q(2)] m(2)] by simp
qed

text \<open>C32: On macOS, where a socket has up to two candidate owners, a snapshot of the kernel's socket lists
  attributes a flow exactly when all sockets that could have sent it have the same candidates and these
  name a process; numbering the candidates loses and confuses none.\<close>

theorem snapshot_owner_exact:
  "snapshot_owner (pcb_add protoUDP us (pcb_add protoTCP ts empty_snapshot)) f = Some w \<longleftrightarrow>
    record_owners ts us f = {w} \<and> known_owner w"
proof -
  define s where "s = pcb_add protoUDP us (pcb_add protoTCP ts empty_snapshot)"
  have "built [] [] empty_snapshot" by (auto simp: built_def empty_snapshot_def snapshot_ok_def)
  from built_add [OF this, of protoTCP ts] have "built ts [] (pcb_add protoTCP ts empty_snapshot)" by (simp add: protoTCP_def protoUDP_def)
  from built_add [OF this, of protoUDP us] have b: "built ts us s" by (simp add: s_def protoTCP_def protoUDP_def)
  note p = pids_owners [OF b, of f]
  have ids: "ps_ids s v = Some j \<longleftrightarrow> 1 \<le> j \<and> j \<le> int (length (ps_owners s)) \<and> ps_owners s ! nat (j - 1) = v" for v j
    using b by (simp add: built_def snapshot_ok_def)
  have kn: "known_owner v" if "ps_ids s v = Some j" for v j
    using b that unfolding ids by (auto simp: built_def snapshot_ok_def)
  have fn: "i = j" if "id_names s i v" "id_names s j v" for i j v using that by (auto simp: id_names_def split: if_splits)
  show ?thesis unfolding s_def [symmetric]
  proof
    assume "snapshot_owner s f = Some w"
    then obtain i where fo: "flowOwner (ps_tcp s) (ps_udp s) f = Some i" and b: "0 < i" "i \<le> int (length (ps_owners s))" "ps_owners s ! nat (i - 1) = w"
      by (auto simp: snapshot_owner_def not_le not_less split: option.splits if_splits)
    have i: "flow_pids (ps_tcp s) (ps_udp s) f = {i}" "0 < i" "ps_ids s w = Some i" using fo b by (simp_all add: flowOwner_sole ids)
    have "v = w" if v: "v \<in> record_owners ts us f" for v
    proof -
      have "id_names s i v" using p(2) v i(1) by auto
      then have "ps_ids s v = Some i" using i(2) by (auto simp: id_names_def split: if_splits)
      then show "v = w" using i(3) by (simp add: ids)
    qed
    moreover have "record_owners ts us f \<noteq> {}" using p(1) i(1) by auto
    ultimately show "record_owners ts us f = {w} \<and> known_owner w" using kn [OF i(3)] by blast
  next
    assume w: "record_owners ts us f = {w} \<and> known_owner w"
    then obtain i where i: "i \<in> flow_pids (ps_tcp s) (ps_udp s) f" "id_names s i w" using p(2) by blast
    have "j = i" if "j \<in> flow_pids (ps_tcp s) (ps_udp s) f" for j
      using p(1) that w fn [OF _ i(2), of j] by auto
    then have "flow_pids (ps_tcp s) (ps_udp s) f = {i}" using i(1) by blast
    then have "flowOwner (ps_tcp s) (ps_udp s) f = Some i" by (simp add: flowOwner_sole)
    moreover have "ps_ids s w = Some i" using i(2) w by (simp add: id_names_def)
    ultimately show "snapshot_owner s f = Some w" by (simp add: snapshot_owner_def ids)
  qed
qed

end
