(* ===== verification/Socket_Tables.thy ===== *)
theory Socket_Tables
  imports Socket_Owners
begin

text \<open>splittunnel/procmatch/pcblist.go and sockdiag.go, the byte level: walking the kernel's socket lists and the
  netlink answers.  Reading outside a slice is a panic in Go and None here.  Native byte order is the
  little-endian one of every platform the daemon is built for; int is 64 bits there, so the sums of 32-bit
  lengths do not wrap.\<close>

section \<open>Checked reads\<close>

definition sub :: "nat \<Rightarrow> nat \<Rightarrow> byte list \<Rightarrow> byte list option" where
  "sub a b xs = (if a \<le> b \<and> b \<le> length xs then Some (slice a b xs) else None)"

definition le_val :: "byte list \<Rightarrow> nat" where
  "le_val bs = foldr (\<lambda>b n. unat b + 256 * n) bs 0"

definition be_val :: "byte list \<Rightarrow> int" where
  "be_val bs = foldl (\<lambda>n b. 256 * n + uint b) 0 bs"

definition rd_le :: "nat \<Rightarrow> nat \<Rightarrow> byte list \<Rightarrow> nat option" where
  "rd_le n pos xs = map_option le_val (sub pos (pos + n) xs)"

definition rd_be16 :: "nat \<Rightarrow> byte list \<Rightarrow> nat option" where
  "rd_be16 pos xs = map_option (\<lambda>b. nat (be_val b)) (sub pos (pos + 2) xs)"

definition int32 :: "nat \<Rightarrow> int" where
  "int32 n = (if n < 2 ^ 31 then int n else int n - 2 ^ 32)"

definition addr4_at :: "nat \<Rightarrow> byte list \<Rightarrow> addr option" where
  "addr4_at pos xs = map_option (\<lambda>b. V4 (word_of_int (be_val b))) (sub pos (pos + 4) xs)"

definition addr16_at :: "nat \<Rightarrow> byte list \<Rightarrow> addr option" where
  "addr16_at pos xs = map_option (\<lambda>b. unmap (V6 (word_of_int (be_val b)))) (sub pos (pos + 16) xs)"

definition the_byte :: "nat \<Rightarrow> byte list \<Rightarrow> nat option" where
  "the_byte pos xs = (if pos < length xs then Some (unat (xs ! pos)) else None)"

lemma reads [simp]: "pos + n \<le> length xs \<Longrightarrow> \<exists>v. rd_le n pos xs = Some v" "pos + 2 \<le> length xs \<Longrightarrow> \<exists>v. rd_be16 pos xs = Some v"
  "pos + 4 \<le> length xs \<Longrightarrow> \<exists>a. addr4_at pos xs = Some a" "pos + 16 \<le> length xs \<Longrightarrow> \<exists>a. addr16_at pos xs = Some a"
  "pos < length xs \<Longrightarrow> \<exists>v. the_byte pos xs = Some v" "a \<le> b \<Longrightarrow> b \<le> length xs \<Longrightarrow> \<exists>ys. sub a b xs = Some ys"
  by (simp_all add: rd_le_def rd_be16_def addr4_at_def addr16_at_def the_byte_def sub_def)

lemma length_sub: "sub a b xs = Some ys \<Longrightarrow> length ys = b - a"
  by (auto simp: sub_def slice_def split: if_splits)

section \<open>pcblist_n\<close>

definition pcb_want :: "bool \<Rightarrow> nat" where
  "pcb_want tcp = (if tcp then 0x3F else 0x1F)"

definition roundup64 :: "nat \<Rightarrow> nat" where
  "roundup64 n = (n + 7) div 8 * 8"

text \<open>pcbRecordFrom: the outer option is a panic, the inner one the result.\<close>

definition pcb_fields :: "byte list \<Rightarrow> byte list \<Rightarrow> byte list \<Rightarrow> bool \<Rightarrow> (nat \<times> int \<times> int \<times> nat \<times> nat \<times> int) option" where
  "pcb_fields inp so tp tcp =
    Option.bind (rd_le 4 64 so) (\<lambda>uid. Option.bind (rd_le 4 68 so) (\<lambda>lastPID.
    Option.bind (if 76 \<le> length so then map_option int32 (rd_le 4 72 so) else Some 0) (\<lambda>ePID.
    Option.bind (if 84 \<le> length so then rd_le 8 76 so else Some 0) (\<lambda>gencnt.
    Option.bind (if 88 \<le> length so then rd_le 4 84 so else Some 0) (\<lambda>flags.
    Option.bind (if tcp \<and> 40 \<le> length tp then map_option int32 (rd_le 4 36 tp) else Some (- 1)) (\<lambda>state.
      Some (uid, int32 lastPID, ePID, gencnt, flags, state)))))))"

definition pcb_addrs :: "byte list \<Rightarrow> (addr \<times> addr) option option" where
  "pcb_addrs inp = Option.bind (the_byte 44 inp) (\<lambda>vflag.
     if vflag AND 1 \<noteq> 0 then Option.bind (addr4_at 60 inp) (\<lambda>f. Option.bind (addr4_at 76 inp) (\<lambda>l. Some (Some (l, f))))
     else if vflag AND 2 \<noteq> 0 then Option.bind (addr16_at 48 inp) (\<lambda>f. Option.bind (addr16_at 64 inp) (\<lambda>l. Some (Some (l, f))))
     else Some None)"

definition pcbRecordFrom :: "byte list \<Rightarrow> byte list \<Rightarrow> byte list \<Rightarrow> bool \<Rightarrow> pcb_record option option" where
  "pcbRecordFrom inp so tp tcp = (if length inp < 80 \<or> length so < 72 then Some None
     else Option.bind (pcb_fields inp so tp tcp) (\<lambda>(uid, lastPID, ePID, gencnt, flags, state).
       Option.bind (rd_be16 16 inp) (\<lambda>fport. Option.bind (rd_be16 18 inp) (\<lambda>lport.
       Option.bind (pcb_addrs inp) (\<lambda>addrs. Some (map_option (\<lambda>(l, f).
         \<lparr>pb_local = AddrPort (Some l) lport, pb_remote = AddrPort (Some f) fport, pb_state = state, pb_uid = uid,
          pb_lastPID = lastPID, pb_ePID = ePID, pb_flags = flags, pb_gencnt = gencnt\<rparr>) addrs))))))"

record pcb_parts =
  pp_inp :: "byte list"
  pp_so :: "byte list"
  pp_tp :: "byte list"
  pp_mask :: nat

definition no_parts :: pcb_parts where
  "no_parts = \<lparr>pp_inp = [], pp_so = [], pp_tp = [], pp_mask = 0\<rparr>"

text \<open>One sub-structure: the parts it leaves, and the record it completes.\<close>

definition pcb_take :: "bool \<Rightarrow> nat \<Rightarrow> byte list \<Rightarrow> pcb_parts \<Rightarrow> (pcb_parts \<times> pcb_record option) option" where
  "pcb_take tcp kind s parts0 =
    (let parts1 = (if pp_mask parts0 AND kind \<noteq> 0 then no_parts else parts0);
         parts2 = parts1\<lparr>pp_mask := pp_mask parts1 OR kind\<rparr>;
         parts = (if kind = 0x10 then parts2\<lparr>pp_inp := s\<rparr> else if kind = 0x01 then parts2\<lparr>pp_so := s\<rparr>
                  else if kind = 0x20 then parts2\<lparr>pp_tp := s\<rparr> else parts2)
     in if pp_mask parts \<noteq> pcb_want tcp then Some (parts, None)
        else map_option (\<lambda>r. (no_parts, r)) (pcbRecordFrom (pp_inp parts) (pp_so parts) (pp_tp parts) tcp))"

function pcb_loop :: "bool \<Rightarrow> byte list \<Rightarrow> nat \<Rightarrow> pcb_parts \<Rightarrow> pcb_record list \<Rightarrow> pcb_record list option" where
  "pcb_loop tcp buf pos parts out = (if length buf < pos + 8 then Some out
     else Option.bind (rd_le 4 pos buf) (\<lambda>l. Option.bind (rd_le 4 (pos + 4) buf) (\<lambda>kind.
       if l \<le> 24 \<or> length buf < pos + l then Some out
       else Option.bind (sub pos (pos + l) buf) (\<lambda>s.
         let pos1 = pos + roundup64 l in
         if kind AND pcb_want tcp = 0 \<or> kind AND (kind - 1) \<noteq> 0 then pcb_loop tcp buf pos1 parts out
         else Option.bind (pcb_take tcp kind s parts) (\<lambda>(parts1, r).
           pcb_loop tcp buf pos1 parts1 (out @ (case r of None \<Rightarrow> [] | Some x \<Rightarrow> [x])))))))"
  by auto
termination
  by (relation "measure (\<lambda>(tcp, buf, pos, parts, out). length buf - pos)") (auto simp: roundup64_def)

declare pcb_loop.simps [simp del]

definition parsePCBList :: "byte list \<Rightarrow> bool \<Rightarrow> pcb_record list option" where
  "parsePCBList buf tcp = (if length buf < 24 then Some []
     else Option.bind (rd_le 4 0 buf) (\<lambda>n. pcb_loop tcp buf (roundup64 n) no_parts []))"

section \<open>Netlink\<close>

datatype diag_error = DiagMalformed

text \<open>walkNetlink: the messages handed to the callback, which may stop after any of them (\<open>go_on\<close>).\<close>

function walk :: "(nat \<Rightarrow> nat \<Rightarrow> byte list \<Rightarrow> bool) \<Rightarrow> byte list \<Rightarrow> (nat \<times> nat \<times> byte list) list
    \<Rightarrow> ((nat \<times> nat \<times> byte list) list \<times> diag_error option) option" where
  "walk go_on b seen = (if length b < 16 then Some (seen, None)
     else Option.bind (rd_le 4 0 b) (\<lambda>l.
       if l < 16 \<or> length b < l then Some (seen, Some DiagMalformed)
       else Option.bind (rd_le 2 4 b) (\<lambda>mtyp. Option.bind (rd_le 4 8 b) (\<lambda>seq. Option.bind (sub 16 l b) (\<lambda>d.
         if \<not> go_on mtyp seq d then Some (seen @ [(mtyp, seq, d)], None)
         else let l4 = (l + 3) div 4 * 4 in
           if length b \<le> l4 then Some (seen @ [(mtyp, seq, d)], None)
           else walk go_on (drop l4 b) (seen @ [(mtyp, seq, d)]))))))"
  by auto
termination
  by (relation "measure (\<lambda>(go_on, b, seen). length b)") auto

declare walk.simps [simp del]

definition walkNetlink :: "(nat \<Rightarrow> nat \<Rightarrow> byte list \<Rightarrow> bool) \<Rightarrow> byte list \<Rightarrow> ((nat \<times> nat \<times> byte list) list \<times> diag_error option) option" where
  "walkNetlink go_on b = walk go_on b []"

definition netlinkErrno :: "byte list \<Rightarrow> int option" where
  "netlinkErrno d = (if length d < 4 then Some (- 1)
     else map_option (\<lambda>n. let e = int32 n in if e < 0 then (if e = - (2 ^ 31) then e else - e) else e) (rd_le 4 0 d))"

definition diagAddr :: "nat \<Rightarrow> nat \<Rightarrow> byte list \<Rightarrow> addr option option" where
  "diagAddr family pos d = (if family = 2 then map_option Some (addr4_at pos d)
     else if family = 10 then map_option Some (addr16_at pos d) else Some None)"

text \<open>The attributes after the message: whether the socket is IPv6-only.\<close>

function v6only_loop :: "byte list \<Rightarrow> bool \<Rightarrow> bool option" where
  "v6only_loop attrs v = (if length attrs < 4 then Some v
     else Option.bind (rd_le 2 0 attrs) (\<lambda>l.
       if l < 4 \<or> length attrs < l then Some v
       else Option.bind (rd_le 2 2 attrs) (\<lambda>t.
       Option.bind (if t AND 0x3FFF = 11 \<and> 4 < l then map_option (\<lambda>x. x \<noteq> 0) (the_byte 4 attrs) else Some v) (\<lambda>v1.
         let l4 = (l + 3) div 4 * 4 in if length attrs \<le> l4 then Some v1 else v6only_loop (drop l4 attrs) v1))))"
  by auto
termination
  by (relation "measure (\<lambda>(attrs, v). length attrs)") auto

declare v6only_loop.simps [simp del]

definition parseDiagMsg :: "byte list \<Rightarrow> diag_row option option" where
  "parseDiagMsg d = (if length d < 72 then Some None
     else Option.bind (the_byte 0 d) (\<lambda>family. Option.bind (the_byte 1 d) (\<lambda>state.
       Option.bind (diagAddr family 8 d) (\<lambda>src. (case src of None \<Rightarrow> Some None | Some sa \<Rightarrow>
       Option.bind (diagAddr family 24 d) (\<lambda>dst. Option.bind (rd_be16 4 d) (\<lambda>sport. Option.bind (rd_be16 6 d) (\<lambda>dport.
       Option.bind (rd_le 4 44 d) (\<lambda>c0. Option.bind (rd_le 4 48 d) (\<lambda>c1. Option.bind (rd_le 4 64 d) (\<lambda>uid.
       Option.bind (rd_le 4 68 d) (\<lambda>inode. Option.bind (v6only_loop (drop 72 d) False) (\<lambda>v6.
         Some (Some \<lparr>dr_family = family, dr_state = state, dr_local = AddrPort (Some sa) sport, dr_remote = AddrPort dst dport,
           dr_uid = uid, dr_inode = inode, dr_cookie = c0 + c1 * 2 ^ 32, dr_v6only = v6\<rparr>))))))))))))))"

section \<open>No reads outside\<close>

lemma bind_ex: "\<exists>v. m = Some v \<Longrightarrow> (\<And>v. m = Some v \<Longrightarrow> \<exists>w. f v = Some w) \<Longrightarrow> \<exists>w. Option.bind m f = Some w"
  by auto

lemma pcbRecord_safe: "\<exists>r. pcbRecordFrom inp so tp tcp = Some r"
proof (cases "length inp < 80 \<or> length so < 72")
  case False
  have f: "\<exists>v. pcb_fields inp so tp tcp = Some v"
    unfolding pcb_fields_def using False by (intro bind_ex) auto
  have a: "\<exists>v. pcb_addrs inp = Some v"
    unfolding pcb_addrs_def using False by (intro bind_ex) (auto intro!: bind_ex)
  show ?thesis
    using False f a by (auto simp: pcbRecordFrom_def intro!: bind_ex split: prod.split)
qed (simp add: pcbRecordFrom_def)

lemma pcb_take_safe: "\<exists>r. pcb_take tcp kind s parts = Some r"
  using pcbRecord_safe by (auto simp: pcb_take_def Let_def)

lemma pcb_loop_safe: "\<exists>r. pcb_loop tcp buf pos parts out = Some r"
proof (induction tcp buf pos parts out rule: pcb_loop.induct)
  case (1 tcp buf pos parts out)
  show ?case
  proof (cases "length buf < pos + 8")
    case True
    then show ?thesis by (subst pcb_loop.simps) simp
  next
    case False
    have "\<exists>l. rd_le 4 pos buf = Some l" "\<exists>k. rd_le 4 (pos + 4) buf = Some k" using False by (intro reads(1); simp)+
    then obtain l kind where l: "rd_le 4 pos buf = Some l" "rd_le 4 (pos + 4) buf = Some kind" by blast
    show ?thesis
    proof (cases "l \<le> 24 \<or> length buf < pos + l")
      case True
      then show ?thesis using False l by (subst pcb_loop.simps) simp
    next
      case in_buf: False
      then have "\<exists>s. sub pos (pos + l) buf = Some s" by (intro reads(6)) simp_all
      then obtain s where s: "sub pos (pos + l) buf = Some s" by blast
      show ?thesis
      proof (cases "kind AND pcb_want tcp = 0 \<or> kind AND (kind - 1) \<noteq> 0")
        case True
        have "\<exists>r. pcb_loop tcp buf (pos + roundup64 l) parts out = Some r" by (rule 1(1) [OF False l in_buf s refl True])
        then show ?thesis using False l in_buf s True by (subst pcb_loop.simps) (simp add: Let_def)
      next
        case one: False
        obtain parts1 r where t: "pcb_take tcp kind s parts = Some (parts1, r)" using pcb_take_safe [of tcp kind s parts] by auto
        have "\<exists>w. pcb_loop tcp buf (pos + roundup64 l) parts1 (out @ (case r of None \<Rightarrow> [] | Some x \<Rightarrow> [x])) = Some w"
          by (rule 1(2) [OF False l in_buf s refl one t refl])
        then show ?thesis using False l in_buf s one t by (subst pcb_loop.simps) (simp add: Let_def)
      qed
    qed
  qed
qed

lemma walk_safe: "\<exists>r. walk go_on b seen = Some r"
proof (induction go_on b seen rule: walk.induct)
  case (1 go_on b seen)
  show ?case
  proof (cases "length b < 16")
    case True
    then show ?thesis by (subst walk.simps) simp
  next
    case False
    have "\<exists>l. rd_le 4 0 b = Some l" "\<exists>t. rd_le 2 4 b = Some t" "\<exists>q. rd_le 4 8 b = Some q" using False by (intro reads(1); simp)+
    then obtain l mtyp q where l: "rd_le 4 0 b = Some l" "rd_le 2 4 b = Some mtyp" "rd_le 4 8 b = Some q" by blast
    show ?thesis
    proof (cases "l < 16 \<or> length b < l")
      case True
      then show ?thesis using False l by (subst walk.simps) simp
    next
      case in_b: False
      then have "\<exists>d. sub 16 l b = Some d" by (intro reads(6)) simp_all
      then obtain d where d: "sub 16 l b = Some d" by blast
      show ?thesis
      proof (cases "\<not> go_on mtyp q d \<or> length b \<le> (l + 3) div 4 * 4")
        case True
        then show ?thesis using False l in_b d by (subst walk.simps) (auto simp: Let_def)
      next
        case more: False
        then have m: "\<not> \<not> go_on mtyp q d" "\<not> length b \<le> (l + 3) div 4 * 4" by simp_all
        have "\<exists>r. walk go_on (drop ((l + 3) div 4 * 4) b) (seen @ [(mtyp, q, d)]) = Some r" by (rule 1 [OF False l(1) in_b l(2,3) d m(1) refl m(2)])
        then show ?thesis using False l in_b d m by (subst walk.simps) (simp add: Let_def)
      qed
    qed
  qed
qed

lemma v6only_safe: "\<exists>r. v6only_loop attrs v = Some r"
proof (induction attrs v rule: v6only_loop.induct)
  case (1 attrs v)
  show ?case
  proof (cases "length attrs < 4")
    case True
    then show ?thesis by (subst v6only_loop.simps) simp
  next
    case False
    have "\<exists>l. rd_le 2 0 attrs = Some l" "\<exists>t. rd_le 2 2 attrs = Some t" using False by (intro reads(1); simp)+
    then obtain l t where l: "rd_le 2 0 attrs = Some l" "rd_le 2 2 attrs = Some t" by blast
    show ?thesis
    proof (cases "l < 4 \<or> length attrs < l")
      case True
      then show ?thesis using False l by (subst v6only_loop.simps) simp
    next
      case in_a: False
      then have "4 < l \<Longrightarrow> \<exists>x. the_byte 4 attrs = Some x" by (intro reads(5)) simp
      then obtain v1 where v1: "(if t AND 0x3FFF = 11 \<and> 4 < l then map_option (\<lambda>x. x \<noteq> 0) (the_byte 4 attrs) else Some v) = Some v1" by fastforce
      show ?thesis
      proof (cases "length attrs \<le> (l + 3) div 4 * 4")
        case True
        then show ?thesis using False l in_a v1 by (subst v6only_loop.simps) (simp add: Let_def)
      next
        case more: False
        have "\<exists>r. v6only_loop (drop ((l + 3) div 4 * 4) attrs) v1 = Some r" by (rule 1 [OF False l(1) in_a l(2) v1 refl more])
        then show ?thesis using False l in_a v1 more by (subst v6only_loop.simps) (simp add: Let_def)
      qed
    qed
  qed
qed

lemma diag_safe: "\<exists>r. parseDiagMsg d = Some r"
proof (cases "length d < 72")
  case False
  have a: "\<exists>v. diagAddr f 8 d = Some v" "\<exists>v. diagAddr f 24 d = Some v" for f
    using False reads(3,4) [of 8 d] reads(3,4) [of 24 d] by (auto simp: diagAddr_def)
  show ?thesis
    unfolding parseDiagMsg_def using False a v6only_safe by (auto intro!: bind_ex reads split: option.split)
qed (simp add: parseDiagMsg_def)

text \<open>C33: Reading the kernel's tables ends and never reads outside a buffer, whatever bytes the kernel (or a truncated
  read) delivers: the macOS socket list, the netlink messages of a datagram, an error payload and a Linux
  socket with its attributes are parsed or given up on, without a panic.\<close>

theorem tables_never_panic:
  "parsePCBList buf tcp \<noteq> None \<and> walkNetlink go_on buf \<noteq> None \<and> netlinkErrno buf \<noteq> None \<and> parseDiagMsg buf \<noteq> None"
proof -
  have "\<exists>r. parsePCBList buf tcp = Some r"
    using pcb_loop_safe by (auto simp: parsePCBList_def intro!: bind_ex reads(1))
  moreover have "\<exists>r. walkNetlink go_on buf = Some r" unfolding walkNetlink_def by (rule walk_safe)
  moreover have "\<exists>e. netlinkErrno buf = Some e" using reads(1) [of 0 4 buf] by (auto simp: netlinkErrno_def)
  moreover have "\<exists>r. parseDiagMsg buf = Some r" by (rule diag_safe)
  ultimately show ?thesis by auto
qed

end
