(* ===== verification/Flow_Verdict.thy ===== *)
theory Flow_Verdict
  imports Rule_Safety Lineage_Invariant Socket_Tables Engine_Samples
begin

text \<open>splittunnel/procmatch, from processes to verdicts: the end of lineage.go (protected owners, matching the
  chain), verdictForCandidates of pcblist.go, and the macOS classifier of classifier_darwin.go, the one whose
  flows can have two owners.  The kernel's answers (kinfo, the image path, the socket lists) are arguments that may differ at
  every call: the state counts the calls.\<close>

section \<open>Verdicts\<close>

definition protected :: "lineage_view \<Rightarrow> rules option list \<Rightarrow> proc_key \<Rightarrow> bool" where
  "protected v never self \<longleftrightarrow> list_ex (\<lambda>k. k = self) (v_keys v) \<or> list_ex (\<lambda>p. list_ex (\<lambda>n. MatchPath n p) never) (v_paths v)"

definition verdictFor :: "rules option \<Rightarrow> rules option list \<Rightarrow> proc_key \<Rightarrow> lineage_view \<Rightarrow> verdict \<times> string list" where
  "verdictFor rules never self v = (if protected v never self then (VerdictTunnel, [])
     else if MatchChain rules (v_chain v) then (VerdictBypass, v_chain v) else (VerdictTunnel, v_chain v))"

fun matching_view :: "rules option \<Rightarrow> nat \<Rightarrow> lineage_view list \<Rightarrow> (nat \<times> string list) option" where
  "matching_view rules i [] = None"
| "matching_view rules i (v # vs) = (if MatchChain rules (v_chain v) then Some (i, v_chain v) else matching_view rules (Suc i) vs)"

definition verdictForCandidates :: "rules option \<Rightarrow> rules option list \<Rightarrow> proc_key \<Rightarrow> lineage_view list \<Rightarrow> nat \<times> verdict \<times> string list" where
  "verdictForCandidates rules never self views = (if list_ex (\<lambda>v. protected v never self) views then (0, VerdictTunnel, [])
     else case matching_view rules 0 views of Some (i, chain) \<Rightarrow> (i, VerdictBypass, chain)
     | None \<Rightarrow> (0, VerdictTunnel, (case views of [] \<Rightarrow> [] | v # _ \<Rightarrow> v_chain v)))"

text \<open>The engine's view of compiled rules (splittunnel/rules.go, procRules); \<open>n\<close> is the generation.\<close>

definition engine_rules :: "nat \<Rightarrow> rules option \<Rightarrow> rule_set" where
  "engine_rules n rules = \<lparr>rs_id = n, rs_empty = rules_Empty rules, rs_match = MatchChain rules\<rparr>"

section \<open>The macOS classifier\<close>

record kernel =
  k_kinfo :: "nat \<Rightarrow> int \<Rightarrow> (int \<times> int) option"
  k_path :: "nat \<Rightarrow> int \<Rightarrow> string option"
  k_now :: "nat \<Rightarrow> int"
  k_pcbs :: "nat \<Rightarrow> nat \<Rightarrow> byte list option"

definition observe_with :: "kernel \<Rightarrow> (int \<Rightarrow> int \<Rightarrow> lineage \<times> nat \<Rightarrow> (lineage \<times> nat) \<times> proc_key option)
    \<Rightarrow> int \<Rightarrow> int \<Rightarrow> lineage \<times> nat \<Rightarrow> (lineage \<times> nat) \<times> proc_key option" where
  "observe_with K up pid notAfter st = (case st of (l, t) \<Rightarrow>
     if pid \<le> 0 then ((l, t), None)
     else case k_kinfo K t pid of None \<Rightarrow> ((l, t + 1), None)
     | Some (ppid, start) \<Rightarrow>
         if notAfter < start then ((l, t + 1), None)
         else let key = ProcKey pid start; path = (case k_path K (t + 1) pid of None \<Rightarrow> [] | Some p \<Rightarrow> p) in
           (case k_kinfo K (t + 2) pid of None \<Rightarrow> ((l, t + 3), None)
            | Some (_, again) \<Rightarrow>
                if again \<noteq> start then ((l, t + 3), None)
                else if lin_known l key then
                  ((lin_add \<lparr>pr_pid = pid, pr_ppid = 0, pr_start = start, pr_path = []\<rparr> None (fst (setPath key path l)), t + 3), Some key)
                else let ((l1, t1), parent) = (if 0 < ppid \<and> ppid \<noteq> pid then up ppid start (l, t + 3) else ((l, t + 3), None))
                  in ((lin_add \<lparr>pr_pid = pid, pr_ppid = ppid, pr_start = start, pr_path = path\<rparr> parent l1, t1), Some key)))"

text \<open>observeLocked with \<open>d\<close> levels of ancestors left.\<close>

primrec observe :: "nat \<Rightarrow> kernel \<Rightarrow> int \<Rightarrow> int \<Rightarrow> lineage \<times> nat \<Rightarrow> (lineage \<times> nat) \<times> proc_key option" where
  "observe 0 K = observe_with K (\<lambda>_ _ st. (st, None))"
| "observe (Suc d) K = observe_with K (observe d K)"

definition ownerKey :: "kernel \<Rightarrow> int \<Rightarrow> int \<Rightarrow> (lineage \<times> nat) \<times> (int \<rightharpoonup> proc_key option)
    \<Rightarrow> ((lineage \<times> nat) \<times> (int \<rightharpoonup> proc_key option)) \<times> proc_key option" where
  "ownerKey K pid at st = (case st of (lt, cache) \<Rightarrow>
     (case cache pid of Some k \<Rightarrow> (st, k)
      | None \<Rightarrow> (let (lt1, k) = observe maxChainDepth K pid at lt in ((lt1, cache(pid \<mapsto> k)), k))))"

fun candidates :: "kernel \<Rightarrow> (string \<Rightarrow> bool) \<Rightarrow> int \<Rightarrow> int list \<Rightarrow> (lineage \<times> nat) \<times> (int \<rightharpoonup> proc_key option)
    \<Rightarrow> ((lineage \<times> nat) \<times> (int \<rightharpoonup> proc_key option)) \<times> (proc_key \<times> lineage_view) list option" where
  "candidates K stop at [] st = (st, Some [])"
| "candidates K stop at (pid # pids) st = (case ownerKey K pid at st of
       (st1, None) \<Rightarrow> (st1, None)
     | (st1, Some k) \<Rightarrow> (let v = lin_view (fst (fst st1)) k stop; (st2, r) = candidates K stop at pids st1
                          in (st2, map_option (\<lambda>xs. (k, v) # xs) r)))"

definition darwin_classify1 :: "kernel \<Rightarrow> (string \<Rightarrow> bool) \<Rightarrow> rules option \<Rightarrow> rules option list \<Rightarrow> proc_key \<Rightarrow> pcb_snapshot \<Rightarrow> int
    \<Rightarrow> flow_id \<Rightarrow> (lineage \<times> nat) \<times> (int \<rightharpoonup> proc_key option) \<Rightarrow> ((lineage \<times> nat) \<times> (int \<rightharpoonup> proc_key option)) \<times> match_result" where
  "darwin_classify1 K stop rules never self snap at f st = (case snapshot_owner snap f of
       None \<Rightarrow> (st, no_result)
     | Some w \<Rightarrow> (case candidates K stop at (owner_pids w) st of
           (st1, None) \<Rightarrow> (st1, no_result)
         | (st1, Some []) \<Rightarrow> (st1, no_result)
         | (st1, Some kvs) \<Rightarrow> (let (i, v, chain) = verdictForCandidates rules never self (map snd kvs); k = fst (kvs ! i) in
             (st1, \<lparr>mr_verdict = v, mr_owner = \<lparr>ow_pid = pk_pid k, ow_start = pk_start k, ow_sock = 0, ow_chain = chain\<rparr>\<rparr>))))"

fun classify_loop :: "('s \<Rightarrow> flow_id \<Rightarrow> 's \<times> match_result) \<Rightarrow> flow_id list \<Rightarrow> 's \<Rightarrow> 's \<times> match_result list" where
  "classify_loop g [] st = (st, [])"
| "classify_loop g (f # fs) st = (let (st1, r) = g st f; (st2, rs) = classify_loop g fs st1 in (st2, r # rs))"

text \<open>snapshot: the socket lists that are needed and could be read and parsed.\<close>

definition darwin_table :: "kernel \<Rightarrow> nat \<Rightarrow> nat \<Rightarrow> pcb_snapshot \<Rightarrow> pcb_snapshot" where
  "darwin_table K t proto s = (case k_pcbs K t proto of None \<Rightarrow> s
     | Some buf \<Rightarrow> (case parsePCBList buf (proto = protoTCP) of None \<Rightarrow> s | Some rs \<Rightarrow> pcb_add proto rs s))"

definition darwin_snapshot :: "kernel \<Rightarrow> flow_id list \<Rightarrow> nat \<Rightarrow> pcb_snapshot \<times> int \<times> nat" where
  "darwin_snapshot K flows t =
    (let at = k_now K t;
         s1 = (if list_ex (\<lambda>f. fi_proto f = protoTCP) flows then darwin_table K (t + 1) protoTCP empty_snapshot else empty_snapshot);
         s2 = (if list_ex (\<lambda>f. fi_proto f = protoUDP) flows then darwin_table K (t + 2) protoUDP s1 else s1)
     in (s2, at, t + 3))"

record darwin_classifier =
  dc_lin :: lineage
  dc_self :: proc_key
  dc_never :: "rules option"
  dc_stop :: "string \<Rightarrow> bool"

definition darwin_Classify :: "kernel \<Rightarrow> rules option \<Rightarrow> flow_id list \<Rightarrow> nat \<Rightarrow> darwin_classifier \<Rightarrow> darwin_classifier \<times> match_result list" where
  "darwin_Classify K rules flows t c = (if rules_Empty rules \<or> flows = [] then (c, map (\<lambda>_. no_result) flows)
     else let (snap, at, t1) = darwin_snapshot K flows t; never = [dc_never c, rl_never (the rules)];
              (st, rs) = classify_loop (\<lambda>st f. darwin_classify1 K (dc_stop c) rules never (dc_self c) snap at f st) flows ((dc_lin c, t1), \<lambda>_. None)
          in (c\<lparr>dc_lin := fst (fst st)\<rparr>, rs))"

text \<open>Validate: the socket still belongs to the classified process; \<open>starts\<close> caches kinfo.\<close>

definition darwin_validate1 :: "kernel \<Rightarrow> pcb_snapshot \<Rightarrow> flow_id \<Rightarrow> owner \<Rightarrow> nat \<times> (int \<rightharpoonup> int) \<Rightarrow> (nat \<times> (int \<rightharpoonup> int)) \<times> bool" where
  "darwin_validate1 K snap f ow st = (case st of (t, starts) \<Rightarrow>
     (case snapshot_owner snap f of None \<Rightarrow> (st, False)
      | Some w \<Rightarrow> if \<not> owner_has w (ow_pid ow) then (st, False)
          else let (st1, start) = (case starts (ow_pid ow) of Some s \<Rightarrow> (st, s)
                 | None \<Rightarrow> (let s = (case k_kinfo K t (ow_pid ow) of Some (_, x) \<Rightarrow> x | None \<Rightarrow> - 1)
                            in ((t + 1, starts(ow_pid ow \<mapsto> s)), s)))
               in (st1, 0 \<le> start \<and> start = ow_start ow)))"

section \<open>Views\<close>

fun parent_path :: "lineage \<Rightarrow> proc_key list \<Rightarrow> bool" where
  "parent_path l (a # b # ks) \<longleftrightarrow> (\<exists>n. node l a = Some n \<and> ln_parent n = Some b) \<and> parent_path l (b # ks)"
| "parent_path l _ \<longleftrightarrow> True"

definition path_at :: "lineage \<Rightarrow> proc_key \<Rightarrow> string" where
  "path_at l k = (case node l k of Some n \<Rightarrow> ln_path n | None \<Rightarrow> [])"

lemma view_loop_app:
  "\<exists>ks. v_keys (view_loop d l k stop stopped v) = v_keys v @ ks \<and> length ks \<le> d \<and> parent_path l ks \<and> (ks = [] \<or> hd ks = k) \<and>
     (\<forall>j \<in> set ks. node l j \<noteq> None \<and> pk_pid j \<notin> {0, 1, 4}) \<and>
     v_paths (view_loop d l k stop stopped v) = v_paths v @ map (path_at l) ks \<and>
     v_chain (view_loop d l k stop stopped v) = v_chain v @ (if stopped then [] else takeWhile (\<lambda>p. p \<noteq> [] \<and> \<not> stop p) (map (path_at l) ks))"
proof (induction d l k stop stopped v rule: view_loop.induct)
  case (2 d l k stop stopped v)
  show ?case
  proof (cases "node l k = None \<or> pk_pid k \<in> {0, 1, 4}")
    case True
    then show ?thesis by (intro exI [of _ "[]"]) (auto split: option.split)
  next
    case False
    then obtain n where n: "node l k = Some n" "pk_pid k \<notin> {0, 1, 4}" by auto
    define stopped1 where "stopped1 = (stopped \<or> ln_path n = [] \<or> stop (ln_path n))"
    define v1 where "v1 = \<lparr>v_keys = v_keys v @ [k], v_paths = v_paths v @ [ln_path n],
        v_chain = (if stopped1 then v_chain v else v_chain v @ [ln_path n])\<rparr>"
    have p: "path_at l k = ln_path n" using n(1) by (simp add: path_at_def)
    show ?thesis
    proof (cases "ln_parent n")
      case None
      then have "view_loop (Suc d) l k stop stopped v = v1" using n by (simp add: v1_def stopped1_def Let_def)
      then show ?thesis using n p by (intro exI [of _ "[k]"]) (auto simp: v1_def stopped1_def)
    next
      case (Some q)
      have e: "view_loop (Suc d) l k stop stopped v = view_loop d l q stop stopped1 v1" using n Some by (simp add: v1_def stopped1_def Let_def)
      obtain ks where ks: "v_keys (view_loop d l q stop stopped1 v1) = v_keys v1 @ ks" "length ks \<le> d" "parent_path l ks" "ks = [] \<or> hd ks = q"
        "\<forall>j \<in> set ks. node l j \<noteq> None \<and> pk_pid j \<notin> {0, 1, 4}"
        "v_paths (view_loop d l q stop stopped1 v1) = v_paths v1 @ map (path_at l) ks"
        "v_chain (view_loop d l q stop stopped1 v1) = v_chain v1 @ (if stopped1 then [] else takeWhile (\<lambda>p. p \<noteq> [] \<and> \<not> stop p) (map (path_at l) ks))"
        using 2 [OF n(1) n(2) stopped1_def v1_def Some] by blast
      have "parent_path l (k # ks)" using ks(3,4) n(1) Some by (cases ks) auto
      then show ?thesis unfolding e using ks n p by (intro exI [of _ "k # ks"]) (auto simp: v1_def stopped1_def)
    qed
  qed
qed simp

lemma lin_view_spec:
  "v_paths (lin_view l k stop) = map (path_at l) (v_keys (lin_view l k stop))"
  "v_chain (lin_view l k stop) = takeWhile (\<lambda>p. p \<noteq> [] \<and> \<not> stop p) (map (path_at l) (v_keys (lin_view l k stop)))"
  "length (v_keys (lin_view l k stop)) \<le> maxChainDepth"
  "parent_path l (v_keys (lin_view l k stop))"
  using view_loop_app [of maxChainDepth l k stop False no_view] by (auto simp: lin_view_def no_view_def)

section \<open>Bypass needs an excluded ancestor\<close>

lemma matching_view_Some:
  "matching_view rules i vs = Some (j, chain) \<Longrightarrow> i \<le> j \<and> j - i < length vs \<and> chain = v_chain (vs ! (j - i)) \<and> MatchChain rules chain"
proof (induction rules i vs rule: matching_view.induct)
  case (2 rules i v vs)
  then show ?case by (cases "MatchChain rules (v_chain v)") (auto simp: nth_Cons Suc_diff_le Suc_le_eq dest!: less_imp_Suc_add)
qed simp

lemma candidates_bypass:
  assumes "verdictForCandidates rules never self vs = (i, VerdictBypass, chain)"
  shows "i < length vs \<and> chain = v_chain (vs ! i) \<and> MatchChain rules chain \<and> (\<forall>v \<in> set vs. \<not> protected v never self)"
  using assms matching_view_Some [of rules 0 vs i chain] by (auto simp: verdictForCandidates_def list_ex_iff split: if_splits option.splits)

lemma chain_ancestor:
  assumes "p \<in> set (v_chain (lin_view l k stop))"
  shows "\<exists>m < length (v_keys (lin_view l k stop)). path_at l (v_keys (lin_view l k stop) ! m) = p \<and>
    (\<forall>j \<le> m. path_at l (v_keys (lin_view l k stop) ! j) \<noteq> [] \<and> \<not> stop (path_at l (v_keys (lin_view l k stop) ! j)))"
proof -
  define ks where "ks = v_keys (lin_view l k stop)"
  define P where "P = (\<lambda>p. p \<noteq> [] \<and> \<not> stop p)"
  have c: "v_chain (lin_view l k stop) = takeWhile P (map (path_at l) ks)" by (simp add: lin_view_spec(2) ks_def P_def)
  then obtain m where m: "m < length (takeWhile P (map (path_at l) ks))" "takeWhile P (map (path_at l) ks) ! m = p"
    using assms by (metis in_set_conv_nth)
  have len: "length (takeWhile P (map (path_at l) ks)) \<le> length ks" by (metis length_map length_takeWhile_le)
  have n: "path_at l (ks ! j) = takeWhile P (map (path_at l) ks) ! j" if "j \<le> m" for j
    using that m(1) len by (simp add: takeWhile_nth)
  moreover have "P (path_at l (ks ! j))" if "j \<le> m" for j
    using n [OF that] nth_mem [of j "takeWhile P (map (path_at l) ks)"] that m(1) set_takeWhileD by fastforce
  ultimately show ?thesis unfolding ks_def [symmetric] using m len by (intro exI [of _ m]) (auto simp: P_def)
qed

text \<open>C13: A bypass verdict names a candidate owner with an excluded program among itself and its ancestors, reached
  without passing a session root, a system host or a process whose image could not be read, at most
  sixteen processes up; and neither the classifier's own process nor a never-bypass image is anywhere in
  the recorded ancestry of any candidate.  The single-owner verdict is the case of one candidate.\<close>

theorem bypass_needs_excluded_ancestor:
  assumes "verdictForCandidates rules never self (map (\<lambda>k. lin_view l k stop) ks) = (i, VerdictBypass, chain)"
  shows "i < length ks \<and>
    (\<exists>m < length (v_keys (lin_view l (ks ! i) stop)). m < maxChainDepth \<and> MatchPath rules (path_at l (v_keys (lin_view l (ks ! i) stop) ! m)) \<and>
       (\<forall>j \<le> m. path_at l (v_keys (lin_view l (ks ! i) stop) ! j) \<noteq> [] \<and> \<not> stop (path_at l (v_keys (lin_view l (ks ! i) stop) ! j)))) \<and>
    (\<forall>k \<in> set ks. self \<notin> set (v_keys (lin_view l k stop)) \<and>
       (\<forall>a \<in> set (v_keys (lin_view l k stop)). \<forall>n \<in> set never. \<not> MatchPath n (path_at l a))) \<and>
    (verdictFor rules never self v = (VerdictBypass, c) \<longleftrightarrow> verdictForCandidates rules never self [v] = (0, VerdictBypass, c))"
proof -
  note b = candidates_bypass [OF assms]
  have i: "i < length ks" using b by simp
  then have "MatchChain rules (v_chain (lin_view l (ks ! i) stop))" using b by (metis length_map nth_map)
  then obtain p where p: "p \<in> set (v_chain (lin_view l (ks ! i) stop))" "MatchPath rules p" by (auto simp: MatchChain_def list_ex_iff)
  obtain m where m: "m < length (v_keys (lin_view l (ks ! i) stop))" "path_at l (v_keys (lin_view l (ks ! i) stop) ! m) = p"
    "\<forall>j \<le> m. path_at l (v_keys (lin_view l (ks ! i) stop) ! j) \<noteq> [] \<and> \<not> stop (path_at l (v_keys (lin_view l (ks ! i) stop) ! j))"
    using chain_ancestor [OF p(1)] by blast
  have "m < maxChainDepth" using m(1) lin_view_spec(3) [of l "ks ! i" stop] by simp
  then have e: "\<exists>m < length (v_keys (lin_view l (ks ! i) stop)). m < maxChainDepth \<and> MatchPath rules (path_at l (v_keys (lin_view l (ks ! i) stop) ! m)) \<and>
       (\<forall>j \<le> m. path_at l (v_keys (lin_view l (ks ! i) stop) ! j) \<noteq> [] \<and> \<not> stop (path_at l (v_keys (lin_view l (ks ! i) stop) ! j)))"
    using m p(2) by blast
  have "\<not> protected (lin_view l k stop) never self" if "k \<in> set ks" for k using b that by auto
  then have np: "\<forall>k \<in> set ks. self \<notin> set (v_keys (lin_view l k stop)) \<and>
       (\<forall>a \<in> set (v_keys (lin_view l k stop)). \<forall>n \<in> set never. \<not> MatchPath n (path_at l a))"
    by (auto simp: protected_def list_ex_iff lin_view_spec(1))
  have "verdictFor rules never self v = (VerdictBypass, c) \<longleftrightarrow> verdictForCandidates rules never self [v] = (0, VerdictBypass, c)"
    by (auto simp: verdictFor_def verdictForCandidates_def)
  then show ?thesis using i e np by blast
qed

section \<open>The classifier keeps the engine's contract\<close>

lemma observe_reachable: "lin_reachable l \<Longrightarrow> observe d K pid at (l, t) = ((l', t'), r) \<Longrightarrow> lin_reachable l'"
proof (induction d arbitrary: pid at l t l' t' r)
  case 0
  then show ?case
    by (auto simp: observe_with_def Let_def split: option.splits prod.splits if_splits intro: lin_reachable.intros)
next
  case (Suc d)
  show ?case
    using Suc.prems Suc.IH
    by (auto simp: observe_with_def Let_def split: option.splits prod.splits if_splits intro: lin_reachable.intros)
qed

lemma ownerKey_reachable: "lin_reachable (fst (fst st)) \<Longrightarrow> lin_reachable (fst (fst (fst (ownerKey K pid at st))))"
  by (cases st) (auto simp: ownerKey_def split: option.split prod.split intro: observe_reachable)

lemma candidates_reachable: "lin_reachable (fst (fst st)) \<Longrightarrow> lin_reachable (fst (fst (fst (candidates K stop at pids st))))"
proof (induction pids arbitrary: st)
  case (Cons pid pids)
  have r: "lin_reachable (fst (fst (fst (ownerKey K pid at st))))" by (rule ownerKey_reachable [OF Cons.prems])
  show ?case using r Cons.IH [OF r] by (auto simp: Let_def split: option.split prod.split)
qed simp

lemma classify1_ok:
  assumes "darwin_classify1 K stop rules never self snap at f st = (st', r)" and "lin_reachable (fst (fst st))"
  shows "lin_reachable (fst (fst st')) \<and> (mr_verdict r = VerdictBypass \<longrightarrow> MatchChain rules (ow_chain (mr_owner r)))"
proof (cases "snapshot_owner snap f")
  case None
  then show ?thesis using assms by (auto simp: darwin_classify1_def no_result_def)
next
  case (Some w)
  obtain st1 kvs where c: "candidates K stop at (owner_pids w) st = (st1, kvs)" by fastforce
  have s: "st' = st1" using assms(1) Some c
    by (auto simp: darwin_classify1_def Let_def case_prod_beta split: option.splits list.splits)
  have "lin_reachable (fst (fst st1))" using candidates_reachable [OF assms(2), of K stop at "owner_pids w"] c by simp
  moreover have "mr_verdict r = VerdictBypass \<longrightarrow> MatchChain rules (ow_chain (mr_owner r))"
  proof
    assume b: "mr_verdict r = VerdictBypass"
    then obtain xs where xs: "kvs = Some xs" "xs \<noteq> []"
      using assms(1) Some c by (cases kvs) (auto simp: darwin_classify1_def no_result_def split: list.splits)
    obtain i v chain where v: "verdictForCandidates rules never self (map snd xs) = (i, v, chain)" by (metis prod_cases3)
    have "mr_verdict r = v \<and> ow_chain (mr_owner r) = chain"
      using assms(1) Some c xs v by (cases xs) (auto simp: darwin_classify1_def Let_def)
    then have "v = VerdictBypass" "ow_chain (mr_owner r) = chain" using b by simp_all
    then show "MatchChain rules (ow_chain (mr_owner r))" using candidates_bypass v by blast
  qed
  ultimately show ?thesis using s by simp
qed

lemma classify_loop_ok:
  assumes "\<And>st f st' r. g st f = (st', r) \<Longrightarrow> I st \<Longrightarrow> I st' \<and> Q r" and "classify_loop g fs st = (st', rs)" and "I st"
  shows "I st' \<and> length rs = length fs \<and> (\<forall>r \<in> set rs. Q r)"
  using assms(2,3)
proof (induction fs arbitrary: st st' rs)
  case (Cons f fs)
  obtain st1 r where g: "g st f = (st1, r)" by fastforce
  obtain st2 rs2 where l: "classify_loop g fs st1 = (st2, rs2)" by fastforce
  have "I st1 \<and> Q r" by (rule assms(1) [OF g Cons.prems(2)])
  then show ?case using Cons.IH [OF l] Cons.prems(1) g l by auto
qed simp

text \<open>C19: Whatever the kernel answers at each call, the macOS classifier keeps the lineage's books and gives the
  engine what its lookups rely on: one result for each flow, and a bypass only on a chain that the very
  rules it was asked with allow.\<close>

theorem darwin_meets_engine_contract:
  assumes "lin_reachable (dc_lin c)" and "darwin_Classify K rules flows t c = (c', rs)"
    and "n = rs_id (e_rules e) \<longrightarrow> engine_rules n rules = e_rules e"
  shows "lin_reachable (dc_lin c') \<and> length rs = length flows \<and> (\<forall>r \<in> set rs. lookup_ok r (Some (engine_rules n rules)) e)"
proof (cases "rules_Empty rules \<or> flows = []")
  case True
  then show ?thesis using assms by (auto simp: darwin_Classify_def lookup_ok_def no_result_def engine_rules_def)
next
  case False
  obtain snap at t1 where s: "darwin_snapshot K flows t = (snap, at, t1)" by (metis prod_cases3)
  define never where "never = [dc_never c, rl_never (the rules)]"
  obtain st where l: "classify_loop (\<lambda>st f. darwin_classify1 K (dc_stop c) rules never (dc_self c) snap at f st) flows ((dc_lin c, t1), \<lambda>_. None) = (st, rs)"
    and c': "c' = c\<lparr>dc_lin := fst (fst st)\<rparr>"
    using assms(2) False s by (auto simp: darwin_Classify_def never_def split: prod.splits)
  have "lin_reachable (fst (fst st)) \<and> length rs = length flows \<and> (\<forall>r \<in> set rs. mr_verdict r = VerdictBypass \<longrightarrow> MatchChain rules (ow_chain (mr_owner r)))"
    by (rule classify_loop_ok [OF _ l, where I = "\<lambda>st. lin_reachable (fst (fst st))"]) (use classify1_ok assms(1) in \<open>auto\<close>)
  moreover have "lookup_ok r (Some (engine_rules n rules)) e" if "mr_verdict r = VerdictBypass \<longrightarrow> MatchChain rules (ow_chain (mr_owner r))" for r
    using that assms(3) False by (cases "ow_chain (mr_owner r)") (auto simp: lookup_ok_def rs_allows_def engine_rules_def MatchChain_def)
  ultimately show ?thesis using c' by simp
qed

text \<open>The sample lineage of a shell that started a program; the program is excluded by its folder.\<close>

definition sample_ruleset :: rules where
  "sample_ruleset = newRules ''darwin'' [CompiledRule RuleDir ''/opt/'']"

lemma sample_ruleset_match: "MatchPath (Some sample_ruleset) ''/opt/app''" "\<not> MatchPath (Some sample_ruleset) ''/bin/sh''"
  "\<not> rules_Empty (Some sample_ruleset)"
  by code_simp+

lemma sample_view: "lin_view sample_lineage (ProcKey 200 2) (\<lambda>p. p = ''/bin/sh'') =
    \<lparr>v_keys = [ProcKey 200 2, ProcKey 100 1], v_paths = [''/opt/app'', ''/bin/sh''], v_chain = [''/opt/app'']\<rparr>"
  by (simp add: lin_view_def no_view_def maxChainDepth_def numeral_eq_Suc sample_lineage_def sample_shell_def lineage_eval
      collect.simps [of "ProcKey 100 1"])

theorem bypass_needs_excluded_ancestor_witness:
  "\<exists>i chain. verdictForCandidates (Some sample_ruleset) [None] (ProcKey 7 7) [lin_view sample_lineage (ProcKey 200 2) (\<lambda>p. p = ''/bin/sh'')] = (i, VerdictBypass, chain) \<and>
     i = 0 \<and> ProcKey 7 7 \<notin> set (v_keys (lin_view sample_lineage (ProcKey 200 2) (\<lambda>p. p = ''/bin/sh'')))"
proof -
  have e: "verdictForCandidates (Some sample_ruleset) [None] (ProcKey 7 7) (map (\<lambda>k. lin_view sample_lineage k (\<lambda>p. p = ''/bin/sh'')) [ProcKey 200 2])
      = (0, VerdictBypass, [''/opt/app''])"
    unfolding list.map sample_view using sample_ruleset_match
    by (simp add: verdictForCandidates_def protected_def MatchChain_def MatchPath_def [of None] rules_Empty_def [of None])
  show ?thesis using bypass_needs_excluded_ancestor [OF e] e by auto
qed

definition sample_kernel :: kernel where
  "sample_kernel = \<lparr>k_kinfo = (\<lambda>_ _. None), k_path = (\<lambda>_ _. None), k_now = (\<lambda>_. 5), k_pcbs = (\<lambda>_ _. Some (replicate 24 0))\<rparr>"

definition sample_classifier :: darwin_classifier where
  "sample_classifier = \<lparr>dc_lin = sample_lineage, dc_self = ProcKey 7 7, dc_never = None, dc_stop = (\<lambda>_. False)\<rparr>"

theorem darwin_meets_engine_contract_witness:
  "\<exists>c' rs. darwin_Classify sample_kernel (Some sample_ruleset)
       [\<lparr>fi_proto = protoUDP, fi_app = AddrPort (Some (V4 1)) 53, fi_remote = AddrPort None 0\<rparr>] 0 sample_classifier = (c', rs) \<and>
     lin_reachable (dc_lin c') \<and> length rs = 1 \<and> (\<forall>r \<in> set rs. lookup_ok r (Some (engine_rules 9 (Some sample_ruleset))) (newEngine defaultLimits 1 [] sample_rules))"
proof -
  have r: "lin_reachable (dc_lin sample_classifier)" unfolding sample_classifier_def sample_lineage_def by (simp add: lin_reachable.intros)
  obtain c' rs where c: "darwin_Classify sample_kernel (Some sample_ruleset)
       [\<lparr>fi_proto = protoUDP, fi_app = AddrPort (Some (V4 1)) 53, fi_remote = AddrPort None 0\<rparr>] 0 sample_classifier = (c', rs)" by fastforce
  have "9 = rs_id (e_rules (newEngine defaultLimits 1 [] sample_rules)) \<longrightarrow>
      engine_rules 9 (Some sample_ruleset) = e_rules (newEngine defaultLimits 1 [] sample_rules)" by (simp add: newEngine_def sample_rules_def)
  from darwin_meets_engine_contract [OF r c this] show ?thesis using c by auto
qed

end
