(* ===== verification/Split_Store.thy ===== *)
theory Split_Store
  imports Rule_Safety Allow_List
begin

text \<open>api/split_tunnel_store.go and the set helpers of api/split_tunnel.go: the split-tunnel settings, what of them
  is in force, the checks of a new list of ranges, applications and protected images, and the store with its
  generation counter.  Reading and writing the file are arguments (what the disk held, whether the write worked);
  the host's name, its \<open>filepath.IsAbs\<close> and the application policy are arguments too, as the code takes them from
  the host.\<close>

section \<open>Canonical prefix lists\<close>

text \<open>netip.Prefix.Compare: valid before invalid the other way round, IPv4 first, then the masked address, the
  length and the address.\<close>

fun addr_uint :: "addr \<Rightarrow> int" where
  "addr_uint (V4 w) = uint w"
| "addr_uint (V6 w) = uint w"

definition prefix_key :: "prefix \<Rightarrow> int list" where
  "prefix_key p = [of_bool (valid_prefix p), (if is4 (paddr p) then 0 else 1), addr_uint (paddr (masked p)), int (pbits p), addr_uint (paddr p)]"

definition sortedPrefixes :: "prefix list \<Rightarrow> prefix list" where
  "sortedPrefixes ps = remdups_adj (sort_key prefix_key ps)"

definition unionPrefixes :: "prefix list \<Rightarrow> prefix list \<Rightarrow> prefix list" where
  "unionPrefixes a b = sortedPrefixes (a @ b)"

definition intersectPrefixes :: "prefix list \<Rightarrow> prefix list \<Rightarrow> prefix list" where
  "intersectPrefixes a b = sortedPrefixes (filter (\<lambda>p. p \<in> set a) b)"

definition prefixStrings :: "prefix list \<Rightarrow> string list" where
  "prefixStrings ps = map prefix_str ps"

lemma set_sortedPrefixes [simp]: "set (sortedPrefixes ps) = set ps"
  by (simp add: sortedPrefixes_def)

lemma set_unionPrefixes [simp]: "set (unionPrefixes a b) = set a \<union> set b"
  by (simp add: unionPrefixes_def)

lemma set_intersectPrefixes [simp]: "set (intersectPrefixes a b) = set a \<inter> set b"
  by (auto simp: intersectPrefixes_def)

lemma sortedPrefixes_Nil [simp]: "sortedPrefixes [] = []"
  by (simp add: sortedPrefixes_def)

lemma addr_uint_inj: "is4 a = is4 b \<Longrightarrow> addr_uint a = addr_uint b \<Longrightarrow> a = b"
  by (cases a; cases b) (auto simp: word_uint_eq_iff)

lemma prefix_key_inj: "prefix_key p = prefix_key q \<Longrightarrow> p = q"
  by (cases p; cases q) (auto simp: prefix_key_def addr_uint_inj split: if_splits)

text \<open>Two lists with the same elements have the same canonical form, so comparing forms compares sets.\<close>

lemma sorted_distinct_key:
  assumes "sorted (map f xs)" and "inj f"
  shows "sorted_wrt (\<lambda>a b. f a < (f b :: 'b::linorder)) (remdups_adj xs)"
  using assms
proof (induction xs rule: remdups_adj.induct)
  case (3 x y xs)
  show ?case
  proof (cases "x = y")
    case False
    then have lt: "f x < f y" using 3(3,4) by (auto simp: inj_eq order_less_le)
    then have "f x < f z" if "z \<in> set (y # xs)" for z
      using that 3(3) by (auto dest: order_less_le_trans)
    then show ?thesis using 3 False by simp
  qed (use 3 in auto)
qed auto

lemma inj_prefix_key: "inj prefix_key"
  by (rule injI) (rule prefix_key_inj)

lemma sortedPrefixes_strict: "sorted_wrt (\<lambda>p q. prefix_key p < prefix_key q) (sortedPrefixes ps)"
  unfolding sortedPrefixes_def by (rule sorted_distinct_key) (auto simp: inj_prefix_key)

lemma strict_lists_eq:
  assumes "sorted_wrt (\<lambda>p q. f p < (f q :: 'b::linorder)) xs" and "sorted_wrt (\<lambda>p q. f p < f q) ys" and "set xs = set ys"
  shows "xs = ys"
proof -
  have s: "sorted_wrt (<) (map f xs)" "sorted_wrt (<) (map f ys)" using assms(1,2) by (auto simp: sorted_wrt_map)
  have "distinct (map f xs)" using s(1) by (simp add: strict_sorted_iff)
  then have inj: "inj_on f (set xs)" by (simp add: distinct_map)
  have "map f xs = map f ys" using s assms(3) by (intro strict_sorted_equal) auto
  then show ?thesis using inj assms(3) by (auto simp: inj_on_map_eq_map)
qed

lemma sortedPrefixes_eq_iff: "sortedPrefixes ps = sortedPrefixes qs \<longleftrightarrow> set ps = set qs"
  by (metis set_sortedPrefixes sortedPrefixes_strict strict_lists_eq)

lemma sortedPrefixes_idem [simp]: "sortedPrefixes (sortedPrefixes ps) = sortedPrefixes ps"
  by (simp add: sortedPrefixes_eq_iff)

section \<open>Ranges\<close>

definition minSplitCIDRBits :: nat where "minSplitCIDRBits = 8"
definition maxSplitCIDRs :: nat where "maxSplitCIDRs = 64"
definition maxSplitInput :: nat where "maxSplitInput = 1024"
definition maxSplitRoutes :: nat where "maxSplitRoutes = 1024"
definition maxSplitProtect :: nat where "maxSplitProtect = 8"
definition maxSplitPathBytes :: nat where "maxSplitPathBytes = 1024"

datatype split_code = NotIPv4 | PrefixTooShort | TooMany | TooManyRoutes | AppCode rule_code

record split_invalid =
  si_field :: string
  si_index :: nat
  si_code :: split_code

definition parseSplitCIDR :: "string \<Rightarrow> (split_code, prefix) result" where
  "parseSplitCIDR raw = (let s = trim_space raw in
     if CHR ''/'' \<in> set s then
       (case ParsePrefix s of
          None \<Rightarrow> Inl NotIPv4
        | Some p \<Rightarrow> if \<not> is4 (paddr p) then Inl NotIPv4
                    else if pbits p < minSplitCIDRBits then Inl PrefixTooShort else Inr (masked p))
     else (case ParseAddr s of
          None \<Rightarrow> Inl NotIPv4
        | Some a \<Rightarrow> if \<not> is4 a then Inl NotIPv4 else Inr (Prefix a 32)))"

text \<open>Which entries survive: no duplicate of an earlier one, none inside a wider one.  The positions the entries had
  travel with them.\<close>

definition covered_at :: "prefix list \<Rightarrow> nat \<Rightarrow> prefix \<Rightarrow> bool" where
  "covered_at ps i p \<longleftrightarrow> list_ex (\<lambda>(j, q). i \<noteq> j \<and> ((pbits q < pbits p \<and> pcontains q (paddr p)) \<or> (q = p \<and> j < i)))
     (enumerate 0 ps)"

definition reduceCoveredPrefixes :: "(prefix \<times> nat) list \<Rightarrow> (prefix \<times> nat) list" where
  "reduceCoveredPrefixes ps = map snd (filter (\<lambda>(i, (p, _)). \<not> covered_at (map fst ps) i p) (enumerate 0 ps))"

definition parse_cidrs :: "string list \<Rightarrow> (prefix \<times> nat) list \<times> split_invalid list" where
  "parse_cidrs entries =
     (concat (map (\<lambda>(i, raw). case parseSplitCIDR raw of Inl _ \<Rightarrow> [] | Inr p \<Rightarrow> [(p, i)]) (enumerate 0 entries)),
      concat (map (\<lambda>(i, raw). case parseSplitCIDR raw of Inl c \<Rightarrow> [\<lparr>si_field = ''cidrs'', si_index = i, si_code = c\<rparr>] | Inr _ \<Rightarrow> [])
        (enumerate 0 entries)))"

definition normalizeSplitCIDRList :: "string list \<Rightarrow> (split_invalid list, string list) result" where
  "normalizeSplitCIDRList entries =
     (if maxSplitInput < length entries then Inl [\<lparr>si_field = ''cidrs'', si_index = maxSplitInput, si_code = TooMany\<rparr>]
      else let (prefixes, invalid) = parse_cidrs entries in
        if invalid \<noteq> [] then Inl invalid
        else let kept = reduceCoveredPrefixes prefixes in
          if maxSplitCIDRs < length kept then Inl [\<lparr>si_field = ''cidrs'', si_index = snd (kept ! maxSplitCIDRs), si_code = TooMany\<rparr>]
          else if kept \<noteq> [] \<and> maxSplitRoutes < CountExcludeRoutes (map fst kept)
            then Inl [\<lparr>si_field = ''cidrs'', si_index = snd (kept ! 0), si_code = TooManyRoutes\<rparr>]
          else Inr (map (prefix_str \<circ> fst) kept))"

section \<open>Applications\<close>

definition splitAppKey :: "string \<Rightarrow> string \<Rightarrow> string" where
  "splitAppKey goos rule =
     (if goos = ''windows'' then to_lower (replace_char fslash bslash rule)
      else if goos = ''darwin'' then let lower = to_lower rule; trimmed = trim_right lower [fslash] in
        if has_suffix trimmed ''.app'' then trimmed else lower
      else rule)"

fun dedupe_apps :: "string \<Rightarrow> string set \<Rightarrow> string list \<Rightarrow> string list" where
  "dedupe_apps goos seen [] = []"
| "dedupe_apps goos seen (app # apps) = (let key = splitAppKey goos app in
     if key \<in> seen then dedupe_apps goos seen apps else app # dedupe_apps goos (insert key seen) apps)"

definition dedupeSplitApps :: "string \<Rightarrow> string list \<Rightarrow> string list" where
  "dedupeSplitApps goos apps = dedupe_apps goos {} apps"

text \<open>ValidateRules is the policy the service asks; procmatch/rules.go.\<close>

definition ValidateRules :: "rule_env \<Rightarrow> string list \<Rightarrow> string list \<Rightarrow> (nat \<times> rule_code) list" where
  "ValidateRules env entries neverBypass = snd (checkEntries env entries (parseImages (re_goos env) neverBypass))"

definition validateSplitApps :: "rule_env \<Rightarrow> string list \<Rightarrow> string list \<Rightarrow> split_invalid list" where
  "validateSplitApps env apps neverBypass =
     (if maxSplitInput < length apps then [\<lparr>si_field = ''apps'', si_index = maxSplitInput, si_code = AppCode CodeTooMany\<rparr>]
      else sort_key si_index (map (\<lambda>(i, c). \<lparr>si_field = ''apps'', si_index = i, si_code = AppCode c\<rparr>) (ValidateRules env apps neverBypass)))"

definition protect_code :: "(string \<Rightarrow> bool) \<Rightarrow> string \<Rightarrow> rule_code option" where
  "protect_code isAbs entry = (if CHR 0x00 \<in> set entry then Some CodeNUL
     else if maxSplitPathBytes < length entry then Some CodeTooLong
     else if \<not> isAbs entry then Some CodeNotAbsolute else None)"

definition validateSplitProtect :: "(string \<Rightarrow> bool) \<Rightarrow> string list \<Rightarrow> split_invalid list" where
  "validateSplitProtect isAbs entries =
     (if maxSplitProtect < length entries then [\<lparr>si_field = ''protect'', si_index = maxSplitProtect, si_code = AppCode CodeTooMany\<rparr>]
      else concat (map (\<lambda>(i, entry). case protect_code isAbs entry of None \<Rightarrow> []
        | Some c \<Rightarrow> [\<lparr>si_field = ''protect'', si_index = i, si_code = AppCode c\<rparr>]) (enumerate 0 entries)))"

section \<open>The store\<close>

record split_settings =
  ss_enabled :: bool
  ss_apps :: "string list"
  ss_cidrs :: "string list"
  ss_protect :: "string list"

definition no_settings :: split_settings where
  "no_settings = \<lparr>ss_enabled = False, ss_apps = [], ss_cidrs = [], ss_protect = []\<rparr>"

definition effectiveApps :: "split_settings \<Rightarrow> string list" where
  "effectiveApps c = (if ss_enabled c then ss_apps c else [])"

definition valid_cidrs :: "string list \<Rightarrow> prefix list" where
  "valid_cidrs raws = concat (map (\<lambda>raw. case parseSplitCIDR raw of Inl _ \<Rightarrow> [] | Inr p \<Rightarrow> [p]) raws)"

definition effectiveCIDRs :: "split_settings \<Rightarrow> prefix list" where
  "effectiveCIDRs c = (if ss_enabled c then sortedPrefixes (valid_cidrs (ss_cidrs c)) else [])"

record split_store =
  st_cfg :: split_settings
  st_gen :: nat

text \<open>What reading split-tunnel.json gave: no file, an error, text that does not decode, or settings.\<close>

datatype split_file = NoFile | ReadFails | Undecodable | Decoded split_settings

datatype split_store_error = StoreUnread | StoreUndecodable | StoreOverLimits split_code | StoreDropped nat

definition openSplitTunnelStore :: "string \<Rightarrow> split_file \<Rightarrow> split_store \<times> split_store_error option" where
  "openSplitTunnelStore goos file = (case file of
      NoFile \<Rightarrow> (\<lparr>st_cfg = no_settings, st_gen = 1\<rparr>, None)
    | ReadFails \<Rightarrow> (\<lparr>st_cfg = no_settings, st_gen = 1\<rparr>, Some StoreUnread)
    | Undecodable \<Rightarrow> (\<lparr>st_cfg = no_settings, st_gen = 1\<rparr>, Some StoreUndecodable)
    | Decoded cfg \<Rightarrow>
       (let valid = prefixStrings (valid_cidrs (ss_cidrs cfg));
            (cidrs, on, err) = (case normalizeSplitCIDRList valid of
                Inl invalid \<Rightarrow> (valid, False, Some (StoreOverLimits (si_code (hd invalid))))
              | Inr cidrs \<Rightarrow> (cidrs, ss_enabled cfg,
                  if length valid < length (ss_cidrs cfg) then Some (StoreDropped (length (ss_cidrs cfg) - length valid)) else None))
        in (\<lparr>st_cfg = cfg\<lparr>ss_cidrs := cidrs, ss_enabled := on, ss_apps := dedupeSplitApps goos (ss_apps cfg)\<rparr>, st_gen = 1\<rparr>, err)))"

definition store_save :: "bool \<Rightarrow> split_settings \<Rightarrow> split_store \<Rightarrow> (nat option \<times> split_store)" where
  "store_save wrote cfg st = (if wrote then (Some (st_gen st + 1), \<lparr>st_cfg = cfg, st_gen = st_gen st + 1\<rparr>) else (None, st))"

section \<open>Facts about the ranges\<close>

definition split_range :: "prefix \<Rightarrow> bool" where
  "split_range p \<longleftrightarrow> is4 (paddr p) \<and> valid_prefix p \<and> host_clear p \<and> minSplitCIDRBits \<le> pbits p"

lemma valid_single: "is4 a \<Longrightarrow> valid_prefix (Prefix a 32) \<and> host_clear (Prefix a 32)"
  by (cases a) (auto simp: valid_prefix_def host_clear_def)

lemma parseSplitCIDR_range: "parseSplitCIDR raw = Inr p \<Longrightarrow> split_range p"
  by (auto simp: parseSplitCIDR_def split_range_def Let_def minSplitCIDRBits_def valid_single host_clear_masked ParsePrefix_valid
      split: if_splits option.splits)

lemma digit_no_space: "is_digit c \<Longrightarrow> \<not> is_space c"
  by (auto simp: is_digit_def is_space_def simp flip: of_nat_of_char [where 'a = int])

lemma itoa_ends: "0 \<le> n \<Longrightarrow> \<not> is_space (hd (itoa n)) \<and> \<not> is_space (last (itoa n))"
  using itoa_digits [of n] digit_no_space by simp

lemma trim_prefix_str:
  assumes "is4 (paddr p)" and "valid_prefix p"
  shows "trim_space (prefix_str p) = prefix_str p"
proof -
  obtain w where w: "paddr p = V4 w" using assms by (cases "paddr p") auto
  obtain a b c d where o: "octets4 w = [a, b, c, d]" "0 \<le> a" using octets4_list by blast
  have "hd (prefix_str p) = hd (itoa a)" using w o assms(2) by (simp add: prefix_str_def addr4_str_def)
  moreover have "last (prefix_str p) = last (itoa_nat (pbits p))" using assms(2) by (simp add: prefix_str_def)
  ultimately show ?thesis using itoa_ends o(2) by (intro trim_space_id) auto
qed

lemma parse_prefix_str:
  assumes "split_range p"
  shows "parseSplitCIDR (prefix_str p) = Inr p"
  using assms trim_prefix_str [of p] ParsePrefix_str4 [of p] masked_id [of p]
  by (auto simp: parseSplitCIDR_def split_range_def prefix_str_def)

section \<open>Which ranges survive\<close>

definition inside_wider :: "prefix set \<Rightarrow> prefix \<Rightarrow> bool" where
  "inside_wider P p \<longleftrightarrow> (\<exists>q \<in> P. pbits q < pbits p \<and> pcontains q (paddr p))"

lemma dedup_snoc: "dedup (xs @ [x]) = dedup xs @ (if x \<in> set xs then [] else [x])"
  by (induction xs) auto

lemma first_occurrences:
  "map snd (filter (\<lambda>(i, x). \<not> (\<exists>j < i. xs ! j = x)) (enumerate 0 xs)) = dedup xs"
proof (induction xs rule: rev_induct)
  case (snoc x xs)
  have "filter (\<lambda>(i, y). \<not> (\<exists>j < i. (xs @ [x]) ! j = y)) (enumerate 0 xs) =
      filter (\<lambda>(i, y). \<not> (\<exists>j < i. xs ! j = y)) (enumerate 0 xs)"
    by (rule filter_cong) (auto simp: in_set_enumerate_eq nth_append)
  moreover have "(\<exists>j < length xs. (xs @ [x]) ! j = x) \<longleftrightarrow> x \<in> set xs"
    by (auto simp: nth_append in_set_conv_nth)
  ultimately show ?case using snoc by (auto simp: enumerate_append_eq dedup_snoc)
qed simp

lemma covered_at_iff:
  assumes "i < length ps" and "ps ! i = p"
  shows "covered_at ps i p \<longleftrightarrow> inside_wider (set ps) p \<or> (\<exists>j < i. ps ! j = p)"
proof -
  have "covered_at ps i p \<longleftrightarrow> (\<exists>j < length ps. i \<noteq> j \<and> ((pbits (ps ! j) < pbits p \<and> pcontains (ps ! j) (paddr p)) \<or> (ps ! j = p \<and> j < i)))"
    unfolding covered_at_def list_ex_iff by (force simp: in_set_enumerate_eq)
  moreover have "j < length ps \<and> i \<noteq> j" if "j < i" for j using that assms(1) by simp
  moreover have "i \<noteq> j" if "pbits (ps ! j) < pbits p" for j using that assms(2) by auto
  ultimately show ?thesis unfolding inside_wider_def by (simp add: Bex_def in_set_conv_nth) blast
qed

lemma enumerate_map_fst: "enumerate n (map f xs) = map (\<lambda>(i, x). (i, f x)) (enumerate n xs)"
  by (induction xs arbitrary: n) auto

lemma reduce_fst: "map fst (reduceCoveredPrefixes pis) = filter (\<lambda>p. \<not> inside_wider (fst ` set pis) p) (dedup (map fst pis))"
proof -
  let ?ps = "map fst pis"
  have "map fst (reduceCoveredPrefixes pis) = map snd (filter (\<lambda>(i, p). \<not> covered_at ?ps i p) (enumerate 0 ?ps))"
    by (simp add: reduceCoveredPrefixes_def enumerate_map_fst filter_map comp_def case_prod_unfold)
  also have "filter (\<lambda>(i, p). \<not> covered_at ?ps i p) (enumerate 0 ?ps) =
      filter (\<lambda>(i, p). \<not> inside_wider (set ?ps) p \<and> \<not> (\<exists>j < i. ?ps ! j = p)) (enumerate 0 ?ps)"
    by (rule filter_cong) (auto simp: in_set_enumerate_eq covered_at_iff simp del: nth_map)
  also have "map snd \<dots> = filter (\<lambda>p. \<not> inside_wider (set ?ps) p) (map snd (filter (\<lambda>(i, p). \<not> (\<exists>j < i. ?ps ! j = p)) (enumerate 0 ?ps)))"
    by (simp add: filter_map comp_def case_prod_unfold conj_commute del: nth_map)
  finally show ?thesis by (simp only: first_occurrences) simp
qed

text \<open>The widest range around an entry is kept.\<close>

lemma kept_cover:
  assumes "p \<in> P"
  shows "\<exists>q \<in> P. \<not> inside_wider P q \<and> addrs p \<subseteq> addrs q"
  using assms
proof (induction "pbits p" arbitrary: p rule: less_induct)
  case less
  show ?case
  proof (cases "inside_wider P p")
    case True
    then obtain q where q: "q \<in> P" "pbits q < pbits p" "pcontains q (paddr p)" by (auto simp: inside_wider_def)
    then obtain r where "r \<in> P" "\<not> inside_wider P r" "addrs q \<subseteq> addrs r" using less(1) [of q] by blast
    moreover have "addrs p \<subseteq> addrs q" using q(2,3) addrs_covered [of q p] by simp
    ultimately show ?thesis by blast
  qed (use less in auto)
qed

definition apart :: "prefix list \<Rightarrow> bool" where
  "apart ps \<longleftrightarrow> distinct ps \<and> (\<forall>p \<in> set ps. \<not> inside_wider (set ps) p)"

lemma reduce_facts:
  assumes "\<forall>p \<in> fst ` set pis. valid_prefix p"
  defines "kept \<equiv> map fst (reduceCoveredPrefixes pis)"
  shows "apart kept" and "set kept \<subseteq> fst ` set pis" and "addrs_of kept = addrs_of (map fst pis)"
proof -
  have s: "set kept = {p \<in> fst ` set pis. \<not> inside_wider (fst ` set pis) p}" by (auto simp: kept_def reduce_fst)
  then show "set kept \<subseteq> fst ` set pis" by blast
  have "distinct kept" by (simp add: kept_def reduce_fst)
  then show "apart kept" using s by (auto simp: apart_def inside_wider_def)
  show "addrs_of kept = addrs_of (map fst pis)"
  proof
    show "addrs_of kept \<subseteq> addrs_of (map fst pis)" using s by (auto simp: addrs_of_def)
    show "addrs_of (map fst pis) \<subseteq> addrs_of kept" using kept_cover [of _ "fst ` set pis"] s
      by (fastforce simp: addrs_of_def)
  qed
qed

lemma reduce_apart: "apart (map fst pis) \<Longrightarrow> map fst (reduceCoveredPrefixes pis) = map fst pis"
  by (simp add: reduce_fst apart_def dedup_id filter_id_conv)

section \<open>Lists as a whole\<close>

lemma parse_cidrs_none:
  "snd (parse_cidrs es) = [] \<longleftrightarrow> (\<forall>e \<in> set es. \<exists>p. parseSplitCIDR e = Inr p)"
proof -
  have "snd (parse_cidrs es) = [] \<longleftrightarrow> (\<forall>(i, e) \<in> set (enumerate 0 es). \<exists>p. parseSplitCIDR e = Inr p)"
    by (fastforce simp: parse_cidrs_def split: sum.splits)
  also have "\<dots> \<longleftrightarrow> (\<forall>e \<in> snd ` set (enumerate 0 es). \<exists>p. parseSplitCIDR e = Inr p)" by auto
  also have "snd ` set (enumerate 0 es) = set es" by (metis list.set_map map_snd_enumerate)
  finally show ?thesis .
qed

lemma parse_cidrs_fst: "map fst (fst (parse_cidrs es)) = valid_cidrs es"
proof -
  have "concat (map (\<lambda>(i, raw). case parseSplitCIDR raw of Inl _ \<Rightarrow> [] | Inr p \<Rightarrow> [p]) (enumerate n es)) = valid_cidrs es" for n
    by (induction es arbitrary: n) (auto simp: valid_cidrs_def)
  moreover have "map fst (case parseSplitCIDR raw of Inl _ \<Rightarrow> [] | Inr p \<Rightarrow> [(p, i)]) = (case parseSplitCIDR raw of Inl _ \<Rightarrow> [] | Inr p \<Rightarrow> [p])" for raw and i :: nat
    by (simp split: sum.split)
  ultimately show ?thesis by (simp add: parse_cidrs_def map_concat comp_def case_prod_unfold)
qed

lemma valid_cidrs_map: "\<forall>e \<in> set es. \<exists>p. parseSplitCIDR e = Inr p \<Longrightarrow> map parseSplitCIDR es = map Inr (valid_cidrs es)"
  by (induction es) (auto simp: valid_cidrs_def)

lemma valid_cidrs_range: "p \<in> set (valid_cidrs es) \<Longrightarrow> split_range p"
  by (auto simp: valid_cidrs_def parseSplitCIDR_range split: sum.splits)

lemma valid_cidrs_strings: "\<forall>p \<in> set ps. split_range p \<Longrightarrow> valid_cidrs (map prefix_str ps) = ps"
  by (induction ps) (auto simp: valid_cidrs_def parse_prefix_str)

text \<open>Ranges that do not contain one another do not meet.\<close>

lemma range_overlap:
  assumes "split_range p" "split_range q" "overlaps p q" "pbits p \<le> pbits q" "p \<noteq> q"
  shows "pbits p < pbits q \<and> pcontains p (paddr q)"
proof -
  have c: "pcontains p (paddr q)" using assms(3,4) by (auto simp: overlaps_iff pcontains_iff min_def)
  moreover have "p = q" if "pbits p = pbits q"
  proof -
    have "masked p = masked q"
      using that c assms(1,2) by (auto simp: masked_def split_range_def pcontains_iff valid_prefix_def abit_mask_addr intro!: addr_eqI)
    then show ?thesis using assms(1,2) by (auto simp: split_range_def masked_id)
  qed
  ultimately show ?thesis using assms(4,5) by (auto simp: order_le_less)
qed

lemma apart_disjoint:
  assumes "apart ps" and "\<forall>p \<in> set ps. split_range p"
  shows "disjoint_prefixes ps"
proof -
  have "\<not> overlaps p q" if "p \<in> set ps" "q \<in> set ps" "p \<noteq> q" for p q
    using range_overlap [of p q] range_overlap [of q p] that assms overlaps_sym [of p q]
    by (cases "pbits p \<le> pbits q") (auto simp: apart_def inside_wider_def)
  then show ?thesis using assms(1)
    by (auto simp: disjoint_prefixes_def apart_def sorted_wrt_iff_nth_less nth_eq_iff_index_eq)
qed

lemma normalize_Inr:
  "normalizeSplitCIDRList es = Inr out \<longleftrightarrow> length es \<le> maxSplitInput \<and> (\<forall>e \<in> set es. \<exists>p. parseSplitCIDR e = Inr p) \<and>
     (let kept = map fst (reduceCoveredPrefixes (fst (parse_cidrs es))) in
        length kept \<le> maxSplitCIDRs \<and> (kept \<noteq> [] \<longrightarrow> CountExcludeRoutes kept \<le> maxSplitRoutes) \<and> out = map prefix_str kept)"
  by (auto simp: normalizeSplitCIDRList_def Let_def case_prod_unfold parse_cidrs_none simp flip: parse_cidrs_none)

lemma normalize_kept:
  assumes "normalizeSplitCIDRList es = Inr out"
  obtains kept where "out = map prefix_str kept" "apart kept" "\<forall>p \<in> set kept. split_range p" "set kept \<subseteq> set (valid_cidrs es)"
    "addrs_of kept = addrs_of (valid_cidrs es)" "length kept \<le> maxSplitCIDRs" "kept \<noteq> [] \<longrightarrow> CountExcludeRoutes kept \<le> maxSplitRoutes"
proof -
  let ?pis = "fst (parse_cidrs es)"
  have img: "fst ` set ?pis = set (valid_cidrs es)" using parse_cidrs_fst [of es] by (metis list.set_map)
  then have v: "\<forall>p \<in> fst ` set ?pis. valid_prefix p" using valid_cidrs_range by (auto simp: split_range_def)
  define kept where "kept = map fst (reduceCoveredPrefixes ?pis)"
  have f: "apart kept" "set kept \<subseteq> set (valid_cidrs es)" "addrs_of kept = addrs_of (valid_cidrs es)"
    using reduce_facts [OF v] img by (simp_all add: kept_def parse_cidrs_fst)
  moreover have "\<forall>p \<in> set kept. split_range p" using f(2) valid_cidrs_range by blast
  moreover have "out = map prefix_str kept" "length kept \<le> maxSplitCIDRs" "kept \<noteq> [] \<longrightarrow> CountExcludeRoutes kept \<le> maxSplitRoutes"
    using assms unfolding normalize_Inr Let_def kept_def [symmetric] by blast+
  ultimately show thesis using that by blast
qed

lemma normalize_stable:
  assumes "apart kept" "\<forall>p \<in> set kept. split_range p" "length kept \<le> maxSplitCIDRs" "kept \<noteq> [] \<longrightarrow> CountExcludeRoutes kept \<le> maxSplitRoutes"
  shows "normalizeSplitCIDRList (map prefix_str kept) = Inr (map prefix_str kept)"
proof -
  have f: "map fst (fst (parse_cidrs (map prefix_str kept))) = kept"
    using assms(2) by (simp add: parse_cidrs_fst valid_cidrs_strings)
  then have "map fst (reduceCoveredPrefixes (fst (parse_cidrs (map prefix_str kept)))) = kept"
    using reduce_apart assms(1) by simp
  moreover have "length kept \<le> maxSplitInput" using assms(3) by (simp add: maxSplitInput_def maxSplitCIDRs_def)
  ultimately show ?thesis using assms by (auto simp: normalize_Inr Let_def parse_prefix_str)
qed

text \<open>C34: an accepted list of excluded ranges stands for exactly the addresses the user listed.  Every entry parses,
  the kept ranges cover the same addresses, lie apart from each other, are at most 64, cost at most 1024 tunnel
  routes, and are text that normalises to itself.\<close>

theorem normalizeSplitCIDRList_exact:
  assumes "normalizeSplitCIDRList es = Inr out"
  shows "map parseSplitCIDR es = map Inr (valid_cidrs es) \<and> addrs_of (valid_cidrs out) = addrs_of (valid_cidrs es) \<and>
    out = prefixStrings (valid_cidrs out) \<and> set (valid_cidrs out) \<subseteq> set (valid_cidrs es) \<and>
    disjoint_prefixes (valid_cidrs out) \<and> length out \<le> maxSplitCIDRs \<and>
    (out = [] \<or> CountExcludeRoutes (valid_cidrs out) \<le> maxSplitRoutes) \<and> normalizeSplitCIDRList out = Inr out"
proof -
  obtain kept where k: "out = map prefix_str kept" "apart kept" "\<forall>p \<in> set kept. split_range p" "set kept \<subseteq> set (valid_cidrs es)"
    "addrs_of kept = addrs_of (valid_cidrs es)" "length kept \<le> maxSplitCIDRs" "kept \<noteq> [] \<longrightarrow> CountExcludeRoutes kept \<le> maxSplitRoutes"
    using assms by (rule normalize_kept)
  moreover have "valid_cidrs out = kept" using k by (simp add: valid_cidrs_strings)
  moreover have "map parseSplitCIDR es = map Inr (valid_cidrs es)" using assms by (intro valid_cidrs_map) (simp add: normalize_Inr)
  ultimately show ?thesis using apart_disjoint normalize_stable by (auto simp: prefixStrings_def)
qed

definition sample_ranges :: "string list" where
  "sample_ranges = ['' 10.1.2.3/8'', ''10.9.0.0/16'', ''192.0.2.7'', ''192.0.2.7/32'']"

text \<open>Each exclusion splits at most one route, into at most 32.\<close>

lemma length_sub_step:
  assumes "clean ps" "disjoint_prefixes ps" "valid_prefix ex" "is4 (paddr ex)"
  shows "length (sub_step ps ex) \<le> length ps + 31"
  using assms
proof (induction ps)
  case (Cons p ps)
  have ps: "disjoint_prefixes ps" "addrs p \<inter> addrs_of ps = {}" "clean ps" and p: "valid_prefix p" "host_clear p"
    using Cons.prems disjoint_append [of "[p]" ps] by (auto simp: clean_def)
  have step: "sub_step (p # ps) ex = subtractPrefix p ex @ sub_step ps ex" by (simp add: sub_step_def)
  have apart: "subtractPrefix q ex = [q]" if "\<not> overlaps q ex" for q using that by (subst subtractPrefix_unfold) simp
  show ?case
  proof (cases "overlaps p ex \<and> pbits p < pbits ex")
    case True
    then have "addrs ex \<subseteq> addrs p" by (intro addrs_inside) (auto simp: overlaps_sym)
    then have "\<not> overlaps q ex" if "q \<in> set ps" for q using that ps(2) by (auto simp: overlaps_iff_inter addrs_of_def)
    then have "concat (map (\<lambda>p. subtractPrefix p ex) ps) = concat (map (\<lambda>p. [p]) ps)"
      by (intro arg_cong [of _ _ concat] map_cong) (auto simp: apart)
    then have "length (sub_step ps ex) = length ps" by (simp add: sub_step_def)
    moreover have "pbits ex \<le> 32" using Cons.prems by (simp add: valid_prefix_def bit_len_is4)
    then have "length (subtractPrefix p ex) \<le> 32" using length_subtractPrefix_le [OF p, of ex] by simp
    ultimately show ?thesis by (simp add: step)
  next
    case False
    then have "length (subtractPrefix p ex) \<le> 1"
      using apart [of p] by (cases "overlaps p ex") (simp_all, subst subtractPrefix_unfold, auto)
    then show ?thesis using Cons.IH ps Cons.prems by (simp add: step)
  qed
qed (simp add: sub_step_def)

lemma length_subtractRanges:
  assumes "clean ins" "disjoint_prefixes ins" "\<forall>ex \<in> set exs. valid_prefix ex \<and> is4 (paddr ex)"
  shows "length (subtractRanges ins exs) \<le> length ins + 31 * length exs"
  using assms
proof (induction exs arbitrary: ins)
  case (Cons ex exs)
  then have "length (subtractRanges (sub_step ins ex) exs) \<le> length (sub_step ins ex) + 31 * length exs"
    by (intro Cons.IH) (auto intro: clean_sub_step disjoint_sub_step)
  moreover have "length (sub_step ins ex) \<le> length ins + 31" using Cons.prems by (intro length_sub_step) auto
  ultimately show ?case by (simp add: subtractRanges_step)
qed (simp add: subtractRanges_step)

lemma CountExcludeRoutes_le:
  assumes "\<forall>p \<in> set ps. is4 (paddr p)"
  shows "CountExcludeRoutes ps \<le> 1 + 31 * (length lanExcludeRanges + length ps)"
proof -
  have all: "clean [Prefix (V4 0) 0]" "disjoint_prefixes [Prefix (V4 0) 0]"
    by (auto simp: clean_def disjoint_prefixes_def valid_prefix_def host_clear_def)
  have m: "\<forall>p \<in> set (maskedPrefixes ps). valid_prefix p \<and> is4 (paddr p)" "length (maskedPrefixes ps) \<le> length ps"
    using assms by (auto simp: maskedPrefixes_def)
  have lan: "\<forall>p \<in> set lanExcludeRanges. valid_prefix p \<and> is4 (paddr p)"
    by (simp add: lanExcludeRanges_def mk4_def valid_prefix_def)
  have "length (subtractRanges [Prefix (V4 0) 0] (lanExcludeRanges @ maskedPrefixes ps)) \<le>
      1 + 31 * (length lanExcludeRanges + length (maskedPrefixes ps))"
    using length_subtractRanges [OF all, of "lanExcludeRanges @ maskedPrefixes ps"] m lan by auto
  moreover have "length (subtractRanges [Prefix (V4 0) 0] (maskedPrefixes ps)) \<le> 1 + 31 * length (maskedPrefixes ps)"
    using length_subtractRanges [OF all, of "maskedPrefixes ps"] m by auto
  ultimately show ?thesis using m(2) by (simp add: CountExcludeRoutes_def Let_def)
qed

lemma sample_kept: "map fst (reduceCoveredPrefixes (fst (parse_cidrs sample_ranges))) = [Prefix (V4 0x0A000000) 8, Prefix (V4 0xC0000207) 32]"
  by code_simp

lemma sample_normal: "normalizeSplitCIDRList sample_ranges = Inr [''10.0.0.0/8'', ''192.0.2.7/32'']"
proof -
  have "CountExcludeRoutes [Prefix (V4 0x0A000000) 8, Prefix (V4 0xC0000207) 32] \<le> maxSplitRoutes"
    using CountExcludeRoutes_le [of "[Prefix (V4 0x0A000000) 8, Prefix (V4 0xC0000207) 32]"]
    by (simp add: maxSplitRoutes_def lanExcludeRanges_def mk4_def)
  moreover have "\<forall>e \<in> set sample_ranges. \<exists>p. parseSplitCIDR e = Inr p" "length sample_ranges \<le> maxSplitInput"
    unfolding parse_cidrs_none [symmetric] by code_simp+
  moreover have "map prefix_str [Prefix (V4 0x0A000000) 8, Prefix (V4 0xC0000207) 32] = [''10.0.0.0/8'', ''192.0.2.7/32'']"
    by code_simp
  ultimately show ?thesis by (simp add: normalize_Inr sample_kept Let_def maxSplitCIDRs_def)
qed

theorem normalizeSplitCIDRList_exact_witness:
  "normalizeSplitCIDRList sample_ranges = Inr [''10.0.0.0/8'', ''192.0.2.7/32''] \<and>
   addrs_of (valid_cidrs [''10.0.0.0/8'', ''192.0.2.7/32'']) = addrs_of (valid_cidrs sample_ranges)"
  using normalizeSplitCIDRList_exact [OF sample_normal] sample_normal by simp

section \<open>Saved settings come back\<close>

lemma dedupe_apps_fixed:
  "set (map (splitAppKey goos) (dedupe_apps goos seen apps)) \<inter> seen = {} \<and>
   dedupe_apps goos seen (dedupe_apps goos seen apps) = dedupe_apps goos seen apps"
proof (induction apps arbitrary: seen)
  case (Cons app apps)
  have "set (map (splitAppKey goos) (dedupe_apps goos (insert k seen) apps)) \<inter> insert k seen = {}" for k
    using Cons [of "insert k seen"] by (rule conjunct1)
  moreover have "dedupe_apps goos (insert k seen) (dedupe_apps goos (insert k seen) apps) = dedupe_apps goos (insert k seen) apps" for k
    using Cons [of "insert k seen"] by (rule conjunct2)
  ultimately show ?case using Cons [of seen] by (simp add: Let_def)
qed simp

lemma saved_settings_survive:
  assumes "normalizeSplitCIDRList es = Inr cidrs" and "ss_cidrs cfg = cidrs" and "ss_apps cfg = dedupeSplitApps goos apps"
  shows "openSplitTunnelStore goos (Decoded cfg) = (\<lparr>st_cfg = cfg, st_gen = 1\<rparr>, None)"
proof -
  obtain kept where k: "cidrs = map prefix_str kept" "apart kept" "\<forall>p \<in> set kept. split_range p"
    "length kept \<le> maxSplitCIDRs" "kept \<noteq> [] \<longrightarrow> CountExcludeRoutes kept \<le> maxSplitRoutes"
    using assms(1) by (rule normalize_kept)
  then have v: "valid_cidrs cidrs = kept" by (simp add: valid_cidrs_strings)
  moreover have "dedupeSplitApps goos (dedupeSplitApps goos apps) = dedupeSplitApps goos apps"
    unfolding dedupeSplitApps_def using dedupe_apps_fixed [of goos "{}" apps] by blast
  ultimately show ?thesis using k assms normalize_stable [of kept]
    by (simp add: openSplitTunnelStore_def prefixStrings_def)
qed

text \<open>Checking without compiling refuses exactly what a compile would refuse.\<close>

lemma ValidateRules_compile: "ValidateRules env entries neverBypass = snd (compileRules resolves tr env entries neverBypass)"
proof -
  have "set (case compileImages resolves tr env neverBypass of None \<Rightarrow> [] | Some n \<Rightarrow> rl_rules n) = set (parseImages (re_goos env) neverBypass)"
    by (simp add: compileImages_def Let_def newRules_def startResolve_def with_res_def)
  then have "check_from env (parseImages (re_goos env) neverBypass) 0 entries ([], []) =
      check_from env (case compileImages resolves tr env neverBypass of None \<Rightarrow> [] | Some n \<Rightarrow> rl_rules n) 0 entries ([], [])"
    by (intro check_from_never) simp
  then show ?thesis by (simp add: ValidateRules_def compileRules_def checkEntries_def Let_def case_prod_beta)
qed

end
