(* ===== verification/Go_Errors.thy ===== *)
theory Go_Errors
  imports Prelude
begin

text \<open>Go error values as the session code uses them: sentinels, wrapping with \<open>%w\<close>, lists of errors behind one
  error (the failures of a transport cascade), and the marker a rejected bring-up gate carries.  errors.Is walks
  the tree; api/service.go's hostNetworkUnreachable reads it for a host without a route.\<close>

datatype sentinel = ErrTransportExhausted | ErrHostOffline | ErrDisconnectIncomplete | ErrRebuildBusy | ErrSessionHeld
  | ErrPermitUnvouched | ErrProbeInconclusive | ErrProbeNotReady | ErrProbeConnRefused | ErrProbeOversized | ErrDataPathGate
  | CtxCanceled | CtxDeadline | ErrNoDefaultRoute | ErrStateUnreadable | ErrPortOwnersUnsupported

fun sentinel_text :: "sentinel \<Rightarrow> string" where
  "sentinel_text ErrTransportExhausted = ''all configured transports failed''"
| "sentinel_text ErrHostOffline = ''no internet connection''"
| "sentinel_text ErrDisconnectIncomplete = ''disconnect incomplete''"
| "sentinel_text ErrRebuildBusy = ''operation in progress''"
| "sentinel_text ErrSessionHeld = ''kill switch is guarding a session; disconnect first''"
| "sentinel_text ErrPermitUnvouched = ''kill switch permit refused: not a known hub or transport address while a session is active''"
| "sentinel_text ErrProbeInconclusive = ''dns probe: round did not complete''"
| "sentinel_text ErrProbeNotReady = ''dns probe: the tunnel adapter is not ready''"
| "sentinel_text ErrProbeConnRefused = ''dns probe: resolver refused the connection''"
| "sentinel_text ErrProbeOversized = ''dns probe: reply larger than the read buffer''"
| "sentinel_text ErrDataPathGate = ''rejected by the data-path gate''"
| "sentinel_text CtxCanceled = ''context canceled''"
| "sentinel_text CtxDeadline = ''context deadline exceeded''"
| "sentinel_text ErrNoDefaultRoute = ''no physical default route''"
| "sentinel_text ErrStateUnreadable = ''kill switch state file exists but could not be read''"
| "sentinel_text ErrPortOwnersUnsupported = ''udp port owner lookup unsupported on this platform''"

text \<open>\<open>Leaf\<close> is any other error, known by its text; \<open>Wrap\<close> has one wrapped error, \<open>Wraps\<close> a list (several \<open>%w\<close>,
  errors.Join, cascadeFailures), \<open>GateErr\<close> is dataPathGateError.\<close>

datatype go_err = Leaf string | Sentinel sentinel | Wrap string go_err | Wraps string "go_err list" | GateErr go_err

fun err_text :: "go_err \<Rightarrow> string" where
  "err_text (Leaf t) = t"
| "err_text (Sentinel s) = sentinel_text s"
| "err_text (Wrap t e) = t"
| "err_text (Wraps t es) = t"
| "err_text (GateErr e) = err_text e"

fun errors_Is :: "sentinel \<Rightarrow> go_err \<Rightarrow> bool" where
  "errors_Is t (Leaf _) = False"
| "errors_Is t (Sentinel s) = (s = t)"
| "errors_Is t (Wrap _ e) = errors_Is t e"
| "errors_Is t (Wraps _ es) = list_ex (errors_Is t) es"
| "errors_Is t (GateErr e) = (t = ErrDataPathGate \<or> errors_Is t e)"

text \<open>fmt.Errorf(''prefix: %w'', err) and errors.Is on a possibly nil error.\<close>

definition wrapf :: "string \<Rightarrow> go_err \<Rightarrow> go_err" where
  "wrapf pre e = Wrap (pre @ '': '' @ err_text e) e"

definition is_err :: "sentinel \<Rightarrow> go_err option \<Rightarrow> bool" where
  "is_err t e = (case e of None \<Rightarrow> False | Some x \<Rightarrow> errors_Is t x)"

definition errors_Join :: "go_err option list \<Rightarrow> go_err option" where
  "errors_Join es = (case List.map_filter id es of [] \<Rightarrow> None | xs \<Rightarrow> Some (Wraps (join [CHR 0x0A] (map err_text xs)) xs))"

definition cascade_failures :: "go_err list \<Rightarrow> go_err" where
  "cascade_failures es = Wraps (join ''; '' (map err_text es)) es"

fun contains_text :: "string \<Rightarrow> string \<Rightarrow> bool" where
  "contains_text [] sub = (sub = [])"
| "contains_text (c # cs) sub = (has_prefix (c # cs) sub \<or> contains_text cs sub)"

definition unreachable_markers :: "string list" where
  "unreachable_markers = [''unreachable network'', ''unreachable host'', ''network is unreachable'', ''no route to host'',
     ''network is down'', ''dead network'']"

fun hostNetworkUnreachable :: "go_err \<Rightarrow> bool" where
  "hostNetworkUnreachable (Wraps _ es) = list_ex hostNetworkUnreachable es"
| "hostNetworkUnreachable e = (\<not> errors_Is ErrDataPathGate e \<and>
     list_ex (contains_text (to_lower (err_text e))) unreachable_markers)"

definition unreachable_opt :: "go_err option \<Rightarrow> bool" where
  "unreachable_opt e = (case e of None \<Rightarrow> False | Some x \<Rightarrow> hostNetworkUnreachable x)"

lemma errors_Is_wrapf [simp]: "errors_Is t (wrapf pre e) = errors_Is t e"
  by (simp add: wrapf_def)

lemma errors_Is_cascade [simp]: "errors_Is t (cascade_failures es) \<longleftrightarrow> (\<exists>e \<in> set es. errors_Is t e)"
  by (simp add: cascade_failures_def list_ex_iff)

text \<open>A gate's refusal never reads as a host without a network, whatever text it quotes.\<close>

lemma gate_not_unreachable: "\<not> hostNetworkUnreachable (GateErr e) \<and> \<not> hostNetworkUnreachable (wrapf pre (GateErr e))"
  by (simp add: wrapf_def)

lemma sentinel_not_unreachable: "\<not> hostNetworkUnreachable (Sentinel ErrTransportExhausted)"
  by code_simp

text \<open>An exhausted cascade reads as a host without a network exactly when one of its failures does.\<close>

lemma exhausted_unreachable:
  "hostNetworkUnreachable (Wraps t [Sentinel ErrTransportExhausted, cascade_failures es]) \<longleftrightarrow> (\<exists>e \<in> set es. hostNetworkUnreachable e)"
  using sentinel_not_unreachable by (simp add: cascade_failures_def list_ex_iff)

end
