(* ===== verification/Text_Match.thy ===== *)
theory Text_Match
  imports Go_Errors
begin

text \<open>The four regular expressions of api/service.go over a WireGuard config (ListenPort, loopback Endpoint, any
  Endpoint, MTU) and the rewrites that use them.  A pattern is a list of items; matching is leftmost, greedy and
  backtracking, which is what Go's regexp finds.  Letters match in either case (the inputs are ASCII).\<close>

section \<open>Patterns\<close>

datatype re_item = Bol | Eol | One "char \<Rightarrow> bool" | Many "char \<Rightarrow> bool"

text \<open>The text each item took, and the rest; \<open>bol\<close> says that a line begins here.\<close>

function (sequential) re_match :: "re_item list \<Rightarrow> bool \<Rightarrow> string \<Rightarrow> (string list \<times> string) option" where
  "re_match [] bol s = Some ([], s)"
| "re_match (Bol # r) bol s = (if bol then map_option (\<lambda>(ws, t). ([] # ws, t)) (re_match r bol s) else None)"
| "re_match (Eol # r) bol s = (if s = [] \<or> hd s = CHR 0x0A then map_option (\<lambda>(ws, t). ([] # ws, t)) (re_match r bol s) else None)"
| "re_match (One P # r) bol s = (case s of [] \<Rightarrow> None
     | c # cs \<Rightarrow> if P c then map_option (\<lambda>(ws, t). ([c] # ws, t)) (re_match r (c = CHR 0x0A) cs) else None)"
| "re_match (Many P # r) bol s = (let skip = map_option (\<lambda>(ws, t). ([] # ws, t)) (re_match r bol s) in
     (case s of [] \<Rightarrow> skip
      | c # cs \<Rightarrow> if P c then (case re_match (Many P # r) (c = CHR 0x0A) cs of
            Some (w # ws, t) \<Rightarrow> Some ((c # w) # ws, t)
          | _ \<Rightarrow> skip)
        else skip))"
  by pat_completeness auto
termination by (relation "measure (\<lambda>(r, _, s). length r + length s)") auto

definition re_space :: "char \<Rightarrow> bool" where
  "re_space c \<longleftrightarrow> c \<in> set [CHR 0x09, CHR 0x0A, CHR 0x0C, CHR 0x0D, CHR '' '']"

definition re_word :: "string \<Rightarrow> re_item list" where
  "re_word w = map (\<lambda>x. One (\<lambda>c. lower_char c = lower_char x)) w"

definition re_plus :: "(char \<Rightarrow> bool) \<Rightarrow> re_item list" where
  "re_plus P = [One P, Many P]"

definition key_items :: "string \<Rightarrow> re_item list" where
  "key_items k = [Bol, Many re_space] @ re_word k @ [Many re_space, One (\<lambda>c. c = CHR ''=''), Many re_space]"

text \<open>A pattern's groups are given by the number of items in each part.\<close>

definition wgListenPortPattern :: "re_item list list" where
  "wgListenPortPattern = [key_items ''ListenPort'', re_plus is_digit, [Many re_space, Eol]]"

definition wgLoopbackEndpointPattern :: "re_item list list" where
  "wgLoopbackEndpointPattern = [key_items ''Endpoint'' @ re_word ''127.0.0.1:'', re_plus is_digit, [Many re_space, Eol]]"

definition wgEndpointPattern :: "re_item list list" where
  "wgEndpointPattern = [key_items ''Endpoint'', re_plus (\<lambda>c. \<not> re_space c), [Many re_space, Eol]]"

definition wgMTUPattern :: "re_item list list" where
  "wgMTUPattern = [key_items ''MTU'', re_plus is_digit, [Many re_space, Eol]]"

fun cut_groups :: "re_item list list \<Rightarrow> string list \<Rightarrow> string list" where
  "cut_groups [] ws = []"
| "cut_groups (p # ps) ws = concat (take (length p) ws) # cut_groups ps (drop (length p) ws)"

definition match_here :: "re_item list list \<Rightarrow> bool \<Rightarrow> string \<Rightarrow> (string list \<times> string) option" where
  "match_here p bol s = map_option (\<lambda>(ws, t). (cut_groups p ws, t)) (re_match (concat p) bol s)"

text \<open>Every match from left to right; \<open>f\<close> gets the groups.  The patterns never match the empty text.\<close>

function (sequential) all_matches :: "re_item list list \<Rightarrow> bool \<Rightarrow> string \<Rightarrow> (string list) list" where
  "all_matches p bol [] = (case match_here p bol [] of Some (gs, _) \<Rightarrow> [gs] | None \<Rightarrow> [])"
| "all_matches p bol (c # cs) = (case match_here p bol (c # cs) of
     Some (gs, t) \<Rightarrow> if length t < length (c # cs) then gs # all_matches p (last (concat gs) = CHR 0x0A) t else gs # all_matches p (c = CHR 0x0A) cs
   | None \<Rightarrow> all_matches p (c = CHR 0x0A) cs)"
  by pat_completeness auto
termination by (relation "measure (\<lambda>(_, _, s). length s)") auto

function (sequential) replace_all :: "re_item list list \<Rightarrow> (string list \<Rightarrow> string) \<Rightarrow> bool \<Rightarrow> string \<Rightarrow> string" where
  "replace_all p f bol [] = (case match_here p bol [] of Some (gs, _) \<Rightarrow> f gs | None \<Rightarrow> [])"
| "replace_all p f bol (c # cs) = (case match_here p bol (c # cs) of
     Some (gs, t) \<Rightarrow> if length t < length (c # cs) then f gs @ replace_all p f (last (concat gs) = CHR 0x0A) t
       else f gs @ c # replace_all p f (c = CHR 0x0A) cs
   | None \<Rightarrow> c # replace_all p f (c = CHR 0x0A) cs)"
  by pat_completeness auto
termination by (relation "measure (\<lambda>(_, _, _, s). length s)") auto

definition MatchString :: "re_item list list \<Rightarrow> string \<Rightarrow> bool" where
  "MatchString p s \<longleftrightarrow> all_matches p True s \<noteq> []"

section \<open>The rewrites of a session's config\<close>

text \<open>strconv.Atoi of digits, on a 64-bit host.\<close>

definition atoi_digits :: "string \<Rightarrow> int option" where
  "atoi_digits s = (case parse_dec s of Some n \<Rightarrow> if n < 2 ^ 63 then Some n else None | None \<Rightarrow> None)"

definition parseWireGuardListenPort :: "string \<Rightarrow> int option" where
  "parseWireGuardListenPort configText = (case all_matches wgListenPortPattern True configText of
      [] \<Rightarrow> None
    | ms \<Rightarrow> (case atoi_digits (last ms ! 1) of Some port \<Rightarrow> if port \<le> 0 then None else Some port | None \<Rightarrow> None))"

definition rewriteLoopbackEndpointPort :: "string \<Rightarrow> int \<Rightarrow> string \<times> bool" where
  "rewriteLoopbackEndpointPort configText newPort =
    (if \<not> MatchString wgLoopbackEndpointPattern configText then (configText, False)
     else (replace_all wgLoopbackEndpointPattern (\<lambda>gs. gs ! 0 @ itoa newPort @ gs ! 2) True configText, True))"

text \<open>The callbacks of ReplaceAllStringFunc match the matched line again.\<close>

definition rewriteWireGuardEndpoint :: "string \<Rightarrow> string \<Rightarrow> string \<times> bool" where
  "rewriteWireGuardEndpoint configText endpoint =
    (if \<not> MatchString wgEndpointPattern configText then (configText, False)
     else (replace_all wgEndpointPattern (\<lambda>gs. case all_matches wgEndpointPattern True (concat gs) of
         [] \<Rightarrow> concat gs | m # _ \<Rightarrow> m ! 0 @ endpoint @ m ! 2) True configText, True))"

definition clampWireGuardMTU :: "string \<Rightarrow> int \<Rightarrow> string" where
  "clampWireGuardMTU configText mx = replace_all wgMTUPattern (\<lambda>gs. case all_matches wgMTUPattern True (concat gs) of
       [] \<Rightarrow> concat gs
     | m # _ \<Rightarrow> (case atoi_digits (m ! 1) of
           Some current \<Rightarrow> if current \<le> mx then concat gs else m ! 0 @ itoa mx @ m ! 2
         | None \<Rightarrow> concat gs)) True configText"

section \<open>What a match leaves in place\<close>

lemma re_match_concat: "re_match r bol s = Some (ws, t) \<Longrightarrow> s = concat ws @ t \<and> length ws = length r"
proof (induction r bol s arbitrary: ws t rule: re_match.induct)
  case (5 P r bol s)
  consider (skip) w where "re_match r bol s = Some (w, t)" "ws = [] # w"
    | (more) c cs w ws' where "s = c # cs" "P c" "re_match (Many P # r) (c = CHR 0x0A) cs = Some (w # ws', t)" "ws = (c # w) # ws'"
    using 5(3) unfolding re_match.simps(5) [of P r bol s]
    by (auto simp: Let_def simp del: re_match.simps(5) split: if_splits option.splits list.splits)
  then show ?case
  proof cases
    case skip
    then show ?thesis using 5(1) by simp
  next
    case more
    then show ?thesis using 5(2) [OF refl more(1,2,3)] more by (simp del: re_match.simps(5))
  qed
qed (auto split: if_splits list.splits)

lemma concat_cut_groups: "length ws = length (concat p) \<Longrightarrow> concat (cut_groups p ws) = concat ws"
proof (induction p arbitrary: ws)
  case (Cons q p)
  then have "concat (cut_groups p (drop (length q) ws)) = concat (drop (length q) ws)" by (intro Cons.IH) simp
  then show ?case by (simp flip: concat_append)
qed simp

lemma match_here_concat: "match_here p bol s = Some (gs, t) \<Longrightarrow> s = concat gs @ t \<and> length gs = length p"
proof -
  have "length (cut_groups p ws) = length p" for ws by (induction p arbitrary: ws) auto
  moreover assume "match_here p bol s = Some (gs, t)"
  ultimately show ?thesis by (auto simp: match_here_def concat_cut_groups dest!: re_match_concat)
qed

text \<open>Text without a match is returned as it is.\<close>

lemma replace_all_none: "all_matches p bol s = [] \<Longrightarrow> replace_all p f bol s = s"
  by (induction p bol s rule: all_matches.induct) (auto split: option.splits if_splits)

lemma replace_all_same:
  "(\<And>gs. gs \<in> set (all_matches p bol s) \<Longrightarrow> f gs = concat gs) \<Longrightarrow> replace_all p f bol s = s"
proof (induction p bol s rule: all_matches.induct)
  case (1 p bol)
  then show ?case by (auto split: option.splits dest: match_here_concat)
next
  case (2 p bol c cs)
  show ?case
  proof (cases "match_here p bol (c # cs)")
    case None
    then show ?thesis using 2 by simp
  next
    case (Some m)
    then obtain gs t where m: "match_here p bol (c # cs) = Some (gs, t)" by (cases m) auto
    then have s: "c # cs = concat gs @ t" using match_here_concat by blast
    show ?thesis
    proof (cases "length t < length (c # cs)")
      case True
      have "replace_all p f (last (concat gs) = CHR 0x0A) t = t" using 2(2) [OF m refl True] 2(4) m True by simp
      moreover have "f gs = concat gs" using 2(4) m True by simp
      ultimately show ?thesis using m True by (simp flip: s)
    next
      case False
      then have "concat gs = []" using arg_cong [OF s, of length] by simp
      then show ?thesis using 2 m False by simp
    qed
  qed
qed

lemma rewriteLoopback_flag: "snd (rewriteLoopbackEndpointPort cfg port) \<longleftrightarrow> MatchString wgLoopbackEndpointPattern cfg"
  by (simp add: rewriteLoopbackEndpointPort_def)

lemma rewrite_none:
  "\<not> MatchString wgLoopbackEndpointPattern cfg \<Longrightarrow> fst (rewriteLoopbackEndpointPort cfg port) = cfg"
  "\<not> MatchString wgEndpointPattern cfg \<Longrightarrow> fst (rewriteWireGuardEndpoint cfg ep) = cfg"
  "\<not> MatchString wgMTUPattern cfg \<Longrightarrow> clampWireGuardMTU cfg mx = cfg"
  by (simp_all add: rewriteLoopbackEndpointPort_def rewriteWireGuardEndpoint_def clampWireGuardMTU_def MatchString_def replace_all_none)

end
