(* ===== verification/Session_Hosts.thy ===== *)
theory Session_Hosts
  imports Text_Match Split_Store State_Types
begin

text \<open>The pure part of api/service.go and api/split_tunnel.go: which addresses a profile needs outside the tunnel,
  the WireGuard profile a session runs with, the checks of a profile before it is used, and the bound on the routes
  split ranges may cost.  \<open>hostname\<close> is url.Parse(...).Hostname(), None where parsing fails or finds no host.
  A copied profile (deepCopyProfile) is the same value.\<close>

section \<open>Address text\<close>

definition dns_list :: "string list option \<Rightarrow> string list" where
  "dns_list d = (case d of None \<Rightarrow> [] | Some l \<Rightarrow> l)"

text \<open>netip.Addr.Unmap and net.IP.To4.\<close>

definition unmap_addr :: "addr \<Rightarrow> addr" where
  "unmap_addr a = (case a of V4 w \<Rightarrow> V4 w
     | V6 w \<Rightarrow> if drop_bit 32 w = 0xffff then V4 (ucast w) else V6 w)"

definition ip4_text :: "string \<Rightarrow> string option" where
  "ip4_text host = (case ParseAddr (trim_space host) of None \<Rightarrow> None
     | Some a \<Rightarrow> (case unmap_addr a of V4 w \<Rightarrow> Some (addr4_str w) | V6 _ \<Rightarrow> None))"

definition ipLiterals :: "string list \<Rightarrow> string list" where
  "ipLiterals hosts = List.map_filter ip4_text hosts"

definition sortedCopy :: "string list \<Rightarrow> string list" where
  "sortedCopy xs = sort xs"

definition mergeUniqueSorted :: "string list \<Rightarrow> string list \<Rightarrow> string list" where
  "mergeUniqueSorted a b = remdups_adj (sort (foldl (\<lambda>merged s. if s \<in> set merged then merged else merged @ [s]) a b))"

lemma set_mergeUniqueSorted [simp]: "set (mergeUniqueSorted a b) = set a \<union> set b"
proof -
  have "set (foldl (\<lambda>merged s. if s \<in> set merged then merged else merged @ [s]) a b) = set a \<union> set b"
    by (induction b arbitrary: a) auto
  then show ?thesis by (simp add: mergeUniqueSorted_def)
qed

text \<open>net.SplitHostPort.\<close>

definition SplitHostPort :: "string \<Rightarrow> (string \<times> string) option" where
  "SplitHostPort hp = (case (splitHost hp, cut_last CHR '':'' hp) of (Some h, Some (_, port)) \<Rightarrow> Some (h, port) | _ \<Rightarrow> None)"

definition urlHost :: "(string \<Rightarrow> string option) \<Rightarrow> string \<Rightarrow> string" where
  "urlHost hostname raw0 = (let raw = trim_space raw0 in
     if raw = [] then []
     else case hostname raw of Some h \<Rightarrow> h
       | None \<Rightarrow> (case SplitHostPort raw of Some (h, _) \<Rightarrow> h | None \<Rightarrow> raw))"

definition stunHost :: "string \<Rightarrow> string" where
  "stunHost raw0 = (let raw1 = trim_space raw0 in
     if raw1 = [] then []
     else let raw = (case cut CHR '':'' raw1 of Some (_, rest) \<Rightarrow> rest | None \<Rightarrow> raw1) in
       case SplitHostPort raw of Some (h, _) \<Rightarrow> h | None \<Rightarrow> raw)"

definition not_empty :: "string list \<Rightarrow> string list" where
  "not_empty = filter (\<lambda>h. h \<noteq> [])"

definition snowflakeHosts :: "(string \<Rightarrow> string option) \<Rightarrow> snowflake_profile option \<Rightarrow> string list" where
  "snowflakeHosts hostname sp = (case sp of None \<Rightarrow> []
     | Some p \<Rightarrow> not_empty [urlHost hostname (sn_brokerURL p), urlHost hostname (sn_ampCacheURL p)] @
         not_empty (map trim_space (sn_fronts p)) @ not_empty (map stunHost (sn_iceServers p)))"

section \<open>Addresses a profile needs outside the tunnel\<close>

definition remote_hosts :: "profile \<Rightarrow> string list" where
  "remote_hosts p = List.map_filter id [map_option na_remoteHost (p_naive p), map_option re_remoteHost (p_reality p),
     map_option hy_remoteHost (p_hysteria2 p), map_option ss_remoteHost (p_shadowsocks p), map_option at_remoteHost (p_anytls p)]"

definition transportPermitHosts :: "(string \<Rightarrow> string option) \<Rightarrow> profile \<Rightarrow> string list" where
  "transportPermitHosts hostname p = (let ips = not_empty (map trim_space (p_endpointIPs p)) in
     if ips \<noteq> [] then ips @ snowflakeHosts hostname (p_snowflake p)
     else not_empty (map trim_space (remote_hosts p)) @ snowflakeHosts hostname (p_snowflake p))"

definition killSwitchPermits :: "(string \<Rightarrow> string option) \<Rightarrow> profile \<Rightarrow> string list" where
  "killSwitchPermits hostname p = not_empty [trim_space (cl_remoteHost (p_cloak p))] @ transportPermitHosts hostname p @
     not_empty (map trim_space (wg_bypassHosts (p_wireguard p)))"

definition withTransportBypassHosts :: "(string \<Rightarrow> string option) \<Rightarrow> profile \<Rightarrow> wireguard_profile" where
  "withTransportBypassHosts hostname p = (p_wireguard p)\<lparr>
     wg_dns := (if dns_list (wg_dns (p_wireguard p)) = [] then None else wg_dns (p_wireguard p)),
     wg_bypassHosts := (if wg_hubInTunnel (p_wireguard p) then [] else wg_bypassHosts (p_wireguard p)) @
       not_empty [trim_space (cl_remoteHost (p_cloak p))] @ transportPermitHosts hostname p\<rparr>"

text \<open>Every address a stored profile names, and what vouches for a permit.\<close>

definition profile_hosts :: "profile \<Rightarrow> string list" where
  "profile_hosts p = [cl_remoteHost (p_cloak p)] @ wg_bypassHosts (p_wireguard p) @ p_endpointIPs p @ remote_hosts p @
     (case SplitHostPort (wg_directEndpoint (p_wireguard p)) of Some (h, _) \<Rightarrow> [h] | None \<Rightarrow> [])"

definition vouchedHosts :: "profile list \<Rightarrow> string set" where
  "vouchedHosts ps = set (concat (map (ipLiterals \<circ> profile_hosts) ps))"

definition unvouchedPermits :: "profile list \<Rightarrow> string list \<Rightarrow> string list" where
  "unvouchedPermits ps permits = filter (\<lambda>ip. ip \<notin> vouchedHosts ps) permits"

definition storedControlPlaneHosts :: "profile list \<Rightarrow> string list" where
  "storedControlPlaneHosts ps = concat (map (\<lambda>p. wg_bypassHosts (p_wireguard p)) ps)"

definition sessionNodeIPs :: "(string \<Rightarrow> string option) \<Rightarrow> profile \<Rightarrow> string list" where
  "sessionNodeIPs hostname p = ipLiterals ([cl_remoteHost (p_cloak p)] @ transportPermitHosts hostname p @
     (case SplitHostPort (wg_directEndpoint (p_wireguard p)) of Some (h, _) \<Rightarrow> [h] | None \<Rightarrow> []))"

section \<open>Checks\<close>

definition wg_error_go :: "wg_error \<Rightarrow> go_err" where
  "wg_error_go e = Leaf (case e of ScanTooLong \<Rightarrow> ''parse wg config: token too long'' | ConfigEmpty \<Rightarrow> ''config is empty''
     | BadAllowedIP p \<Rightarrow> ''invalid AllowedIPs entry '' @ p | BadSection sec \<Rightarrow> ''unrecognized section '' @ sec)"

definition hop_error_text :: "hop_error \<Rightarrow> string" where
  "hop_error_text e = (case e of HopIncomplete f \<Rightarrow> ''hop is missing '' @ f @ '': a partial hop would egress at the entry node''
     | SameRegion \<Rightarrow> ''hop entryRegion and exitRegion must differ'')"

definition validateProfile :: "profile \<Rightarrow> go_err option" where
  "validateProfile p =
    (if p_id p = [] then Some (Leaf ''profile id is required'')
     else case ValidateHop p of Some e \<Rightarrow> Some (Leaf (hop_error_text e))
     | None \<Rightarrow>
       if cl_localPort (p_cloak p) \<le> 0 then Some (Leaf ''cloak.localPort must be > 0'')
       else if cl_remoteHost (p_cloak p) = [] then Some (Leaf ''cloak.remoteHost is required'')
       else if cl_remotePort (p_cloak p) \<le> 0 then Some (Leaf ''cloak.remotePort must be > 0'')
       else if parseWireGuardListenPort (wg_configText (p_wireguard p)) = Some (cl_localPort (p_cloak p))
         then Some (Leaf ''wireguard listenport conflicts with cloak.localPort'')
       else if wg_tunnelName (p_wireguard p) = [] then Some (Leaf ''wireguard.tunnelName is required'')
       else if \<not> validateIPv4DNSServers (Resolvers (wg_configText (p_wireguard p)) (dns_list (wg_dns (p_wireguard p))))
         then Some (Leaf ''no tunnel session could use these resolvers'')
       else None)"

definition validDirectEndpoint :: "string \<Rightarrow> (go_err, string) result" where
  "validDirectEndpoint endpoint0 = (let endpoint = trim_space endpoint0 in
     if endpoint = [] then Inl (Leaf ''this profile carries no direct wireguard endpoint'')
     else case SplitHostPort endpoint of
         None \<Rightarrow> Inl (Leaf (''direct wireguard endpoint '' @ endpoint @ '' is not host:port''))
       | Some (host, port) \<Rightarrow>
           if trim_space host = [] then Inl (Leaf (''direct wireguard endpoint '' @ endpoint @ '' is not host:port''))
           else case atoi port of
               None \<Rightarrow> Inl (Leaf (''direct wireguard endpoint '' @ endpoint @ '' has no valid port''))
             | Some n \<Rightarrow> if n \<le> 0 \<or> 65535 < n then Inl (Leaf (''direct wireguard endpoint '' @ endpoint @ '' has no valid port''))
                         else Inr endpoint)"

section \<open>The WireGuard profile of a session\<close>

definition resolverPrefixes :: "wireguard_profile \<Rightarrow> prefix list" where
  "resolverPrefixes w = List.map_filter (\<lambda>raw. map_option (\<lambda>a. Prefix (unmap_addr a) (bit_len (unmap_addr a))) (ParseAddr raw))
     (Resolvers (wg_configText w) (dns_list (wg_dns w)))"

definition carveAllowedIPs :: "wireguard_profile \<Rightarrow> bool \<Rightarrow> prefix list \<Rightarrow> (wg_error, string) result" where
  "carveAllowedIPs w allowLAN splitCIDRs =
    (if splitCIDRs = [] then
       (if \<not> allowLAN then Inr (wg_configText w) else TransformWGConfigExcludeLAN (wg_configText w))
     else TransformWGConfigExclude (wg_configText w)
       ((if allowLAN then lanExcludeRanges else []) @ splitCIDRs) (if allowLAN then lanExcludeRangesV6 else [])
       (resolverPrefixes w))"

definition splitRouteBudgetPerEndpoint :: nat where "splitRouteBudgetPerEndpoint = 32"

definition splitEndpointCount :: "(string \<Rightarrow> string option) \<Rightarrow> profile \<Rightarrow> nat" where
  "splitEndpointCount hostname p = length (remdups (ipLiterals (killSwitchPermits hostname p))) + 1"

definition splitRoutesFit :: "(string \<Rightarrow> string option) \<Rightarrow> profile \<Rightarrow> bool \<Rightarrow> prefix list \<Rightarrow> bool" where
  "splitRoutesFit hostname p allowLAN splitCIDRs =
    (case carveAllowedIPs (withTransportBypassHosts hostname p) allowLAN splitCIDRs of Inl _ \<Rightarrow> False
     | Inr text \<Rightarrow> (case CountAllowedIPv4 text of Inl _ \<Rightarrow> False
         | Inr n \<Rightarrow> n \<noteq> 0 \<and> n \<le> maxSplitRoutes + splitRouteBudgetPerEndpoint * splitEndpointCount hostname p))"

definition wireGuardProfileFor :: "(string \<Rightarrow> string option) \<Rightarrow> profile \<Rightarrow> bool \<Rightarrow> prefix list \<Rightarrow> (go_err, wireguard_profile) result" where
  "wireGuardProfileFor hostname p allowLAN splitCIDRs0 =
    (let w = withTransportBypassHosts hostname p;
         splitCIDRs = (if splitCIDRs0 \<noteq> [] \<and> \<not> splitRoutesFit hostname p allowLAN splitCIDRs0 then [] else splitCIDRs0)
     in case carveAllowedIPs w allowLAN splitCIDRs of Inl e \<Rightarrow> Inl (wg_error_go e)
        | Inr rewritten \<Rightarrow> Inr (w\<lparr>wg_configText := rewritten\<rparr>))"

text \<open>The local port a transport was configured with, 0 where the profile does not configure it.\<close>

definition transportLocalPort :: "profile \<Rightarrow> string \<Rightarrow> int" where
  "transportLocalPort p kind =
    (if kind = ''cloak'' then cl_localPort (p_cloak p)
     else case (if kind = ''naive'' then map_option na_localPort (p_naive p)
        else if kind = ''reality'' then map_option re_localPort (p_reality p)
        else if kind = ''hysteria2'' then map_option hy_localPort (p_hysteria2 p)
        else if kind = ''shadowsocks'' then map_option ss_localPort (p_shadowsocks p)
        else if kind = ''anytls'' then map_option at_localPort (p_anytls p)
        else if kind = ''snowflake'' then map_option sn_localPort (p_snowflake p) else None)
      of Some port \<Rightarrow> port | None \<Rightarrow> 0)"

text \<open>Session addresses that bypass the tunnel are permitted by the lock, short of hosts the hub setting drops.\<close>

lemma bypass_permitted:
  "set (not_empty (map trim_space (wg_bypassHosts (withTransportBypassHosts hostname p)))) \<subseteq>
     set (killSwitchPermits hostname p) \<union> trim_space ` set (killSwitchPermits hostname p)"
  by (auto simp: withTransportBypassHosts_def killSwitchPermits_def not_empty_def image_iff split: if_splits)

end
