(* ===== verification/Session_State.thy ===== *)
theory Session_State
  imports Session_Hosts Transport_Cascade Config_Store "HOL-Library.State_Monad" "HOL-Library.AList"
begin

text \<open>The session service of api/service.go: its state, the world it calls and the primitives its operations are built
  from.  The interfaces of the Service struct (wg.Manager with its optional capabilities, the transport managers,
  the kill switch, the probes and the host) are the functions of a record \<open>world\<close>: each takes the number of the
  call, so an answer may differ from call to call.  Every call is noted in the trace with its answer, and takes some
  time.  The config store, the transport memory, the state machine and the split-tunnel store are the modelled
  components themselves.  Times are milliseconds since 1970 (0 is Go's zero time); log lines are left out.\<close>

section \<open>Values\<close>

record wg_status =
  ws_running :: bool
  ws_handshake :: int
  ws_bytesIn :: int
  ws_detail :: string

record ks_saved =
  kp_active :: bool
  kp_allowLAN :: bool
  kp_endpoints :: "string list"
  kp_tunnel :: string
  kp_locked :: bool

definition no_ks_saved :: ks_saved where
  "no_ks_saved = \<lparr>kp_active = False, kp_allowLAN = False, kp_endpoints = [], kp_tunnel = [], kp_locked = False\<rparr>"

record tunnel_ref =
  tr_name :: string
  tr_luid :: int

record connect_options =
  co_allowLAN :: bool
  co_lockdown :: bool
  co_preferred :: string

record session_record =
  sr_profileID :: string
  sr_allowLAN :: bool
  sr_lockdown :: bool
  sr_preferred :: string

text \<open>cascadeLead: the transport that died and whether it goes to the back.\<close>

record cascade_lead =
  le_kind :: string
  le_demote :: bool

record applied_split =
  ap_gen :: nat
  ap_known :: bool
  ap_routes :: "prefix list"
  ap_permits :: "prefix list"
  ap_dropped :: bool
  ap_unsure :: bool

definition no_applied :: applied_split where
  "no_applied = \<lparr>ap_gen = 0, ap_known = False, ap_routes = [], ap_permits = [], ap_dropped = False, ap_unsure = False\<rparr>"

text \<open>What bring-up reads from its context: a handshake budget, the handshake a reused device must beat, and whether a
  failed candidate keeps the device.\<close>

record bring_ctx =
  cx_budget :: "int option"
  cx_min :: int
  cx_keep :: bool

definition plain_ctx :: bring_ctx where
  "plain_ctx = \<lparr>cx_budget = None, cx_min = 0, cx_keep = False\<rparr>"

datatype reach_outcome = Answered | Refused | Silent

text \<open>When the hub last answered, by network and route; and the goroutines a bring-up leaves behind.\<close>

type_synonym reach_baseline = "(string \<times> (string \<times> int) list) list"

datatype task = Reprove profile

section \<open>Calls and the trace\<close>

datatype event =
    WgStart wireguard_profile "go_err option" | WgStop wireguard_profile "go_err option" | WgStatus wireguard_profile "(go_err, wg_status) result"
  | WgPreflight wireguard_profile "go_err option" | WgPin wireguard_profile "go_err option" | WgApply wireguard_profile "go_err option"
  | WgOther
  | KsEnable "string list" bool bool "go_err option" | KsUpdate tunnel_ref "go_err option" | KsClear "go_err option" | KsActive bool
  | KsDrop "go_err option" | KsRelease "go_err option" | KsSplit "string list" "go_err option"
  | TrStart string profile "go_err option" | TrStop string "go_err option" | TrRunning string bool | TrSession string "go_err option" | TrBound string int
  | Probe string string "go_err option"
  | SetState daemon_state string
  | Host

record world =
  w_wgStart :: "nat \<Rightarrow> wireguard_profile \<Rightarrow> go_err option"
  w_wgStop :: "nat \<Rightarrow> wireguard_profile \<Rightarrow> go_err option"
  w_wgStatus :: "nat \<Rightarrow> wireguard_profile \<Rightarrow> (go_err, wg_status) result"
  w_preflight :: "(nat \<Rightarrow> wireguard_profile \<Rightarrow> go_err option) option"
  w_pin :: "(nat \<Rightarrow> wireguard_profile \<Rightarrow> go_err option) option"
  w_apply :: "(nat \<Rightarrow> wireguard_profile \<Rightarrow> go_err option) option"
  w_iface :: "(nat \<Rightarrow> wireguard_profile \<Rightarrow> (go_err, string) result) option"
  w_luid :: "(nat \<Rightarrow> wireguard_profile \<Rightarrow> (go_err, int) result) option"
  w_ready :: "(nat \<Rightarrow> wireguard_profile \<Rightarrow> (go_err, bool) result) option"
  w_routes :: "(nat \<Rightarrow> wireguard_profile \<Rightarrow> bool \<times> go_err option) option"
  w_ensureDNS :: "(nat \<Rightarrow> wireguard_profile \<Rightarrow> bool \<times> go_err option) option"
  w_rebind :: "(nat \<Rightarrow> int) option"
  w_ksEnable :: "nat \<Rightarrow> string list \<Rightarrow> bool \<Rightarrow> bool \<Rightarrow> go_err option"
  w_ksUpdate :: "nat \<Rightarrow> tunnel_ref \<Rightarrow> go_err option"
  w_ksClear :: "nat \<Rightarrow> go_err option"
  w_ksActive :: "nat \<Rightarrow> bool"
  w_ksDrop :: "(nat \<Rightarrow> go_err option) option"
  w_ksRelease :: "(nat \<Rightarrow> go_err option) option"
  w_ksSplit :: "(nat \<Rightarrow> string list \<Rightarrow> go_err option) option"
  w_ksLoad :: "nat \<Rightarrow> (go_err, ks_saved) result"
  w_trStart :: "nat \<Rightarrow> string \<Rightarrow> profile \<Rightarrow> go_err option"
  w_trStop :: "nat \<Rightarrow> string \<Rightarrow> go_err option"
  w_trRunning :: "nat \<Rightarrow> string \<Rightarrow> bool"
  w_trBound :: "string \<Rightarrow> (nat \<Rightarrow> int) option"
  w_trSession :: "string \<Rightarrow> (nat \<Rightarrow> go_err option) option"
  w_portOwners :: "nat \<Rightarrow> int \<Rightarrow> (go_err, int list) result"
  w_probe :: "(nat \<Rightarrow> string \<Rightarrow> string \<Rightarrow> go_err option) option"
  w_probeStart :: "nat \<Rightarrow> nat option"
  w_probeDelay :: "nat \<Rightarrow> nat"
  w_networkKey :: "(nat \<Rightarrow> string) option"
  w_hostInternet :: "(nat \<Rightarrow> bool \<times> bool) option"
  w_physicalRoute :: "(nat \<Rightarrow> (go_err, string) result) option"
  w_ctxErr :: "nat \<Rightarrow> go_err option"
  w_elapsed :: "nat \<Rightarrow> nat"
  w_saveRecord :: "nat \<Rightarrow> bool"
  w_removeRecord :: "nat \<Rightarrow> bool"
  w_readRecord :: "nat \<Rightarrow> bool"
  w_memoryWrites :: "nat \<Rightarrow> bool"
  w_memoryOrder :: "tm_map \<Rightarrow> tm_map"
  w_realityHub :: "(nat \<Rightarrow> string) option"
  w_shadowsocksHub :: "(nat \<Rightarrow> string) option"
  w_hubPermitsWrite :: "nat \<Rightarrow> bool"
  w_hubPermitsRead :: "nat \<Rightarrow> bool"
  w_reach :: "(nat \<Rightarrow> (string \<times> string) list \<Rightarrow> (nat \<times> reach_outcome) list) option"
  w_updateAt :: "nat \<Rightarrow> nat"
  w_networkRepair :: bool
  w_repairDone :: "nat \<Rightarrow> bool"
  w_baselineOrder :: "reach_baseline \<Rightarrow> reach_baseline"
  w_opFree :: "nat \<Rightarrow> bool"
  w_jitter :: "nat \<Rightarrow> int \<Rightarrow> int"
  w_hostname :: "string \<Rightarrow> string option"
  w_recoveryDelays :: "int list"
  w_handshakeTimeout :: int
  w_dataPathBudget :: int

section \<open>The state\<close>

record svc =
  sv_machine :: machine
  sv_config :: config_store
  sv_memory :: "tm_store option"
  sv_profile :: "profile option"
  sv_opts :: connect_options
  sv_active :: string
  sv_connecting :: string
  sv_record :: "session_record option"
  sv_hubPermits :: "string list"
  sv_cloakFor :: "cloak_profile option"
  sv_attempts :: nat
  sv_nextAt :: int
  sv_healthHold :: int
  sv_network :: string
  sv_offlineUntil :: int
  sv_offlineHeld :: bool
  sv_keptDead :: bool
  sv_netGen :: nat
  sv_resumeFresh :: int
  sv_resumeNoted :: int
  sv_probeNextAt :: int
  sv_probeFailures :: nat
  sv_probeQuiet :: int
  sv_dnsGuardNext :: int
  sv_lead :: cascade_lead
  sv_lastDeadKind :: string
  sv_lastDeadAt :: int
  sv_exhausted :: bool
  sv_upProfile :: string
  sv_upUntil :: int
  sv_upProbeAt :: int
  sv_upProbes :: nat
  sv_routeRepairs :: nat
  sv_repair :: "string list"
  sv_baseline :: reach_baseline
  sv_tasks :: "task list"
  sv_store :: "split_store option"
  sv_applied :: applied_split
  sv_lockRanges :: "prefix list"
  sv_lockUnsure :: bool
  sv_retryAt :: int
  sv_splitKick :: bool
  sv_healthKick :: bool
  sv_now :: int
  sv_trace :: "event list"

type_synonym 'a sess = "(svc, 'a) state"

abbreviation ret :: "'a \<Rightarrow> 'a sess" where
  "ret \<equiv> State_Monad.return"

definition gets :: "(svc \<Rightarrow> 'a) \<Rightarrow> 'a sess" where
  "gets f = State (\<lambda>s. (f s, s))"

definition modify :: "(svc \<Rightarrow> svc) \<Rightarrow> unit sess" where
  "modify f = State (\<lambda>s. ((), f s))"

text \<open>One call of the world: its answer, the trace and the clock.\<close>

definition call :: "world \<Rightarrow> (nat \<Rightarrow> 'a) \<Rightarrow> ('a \<Rightarrow> event) \<Rightarrow> 'a sess" where
  "call W f ev = State (\<lambda>s. let n = length (sv_trace s); r = f n in
     (r, s\<lparr>sv_trace := sv_trace s @ [ev r], sv_now := sv_now s + int (w_elapsed W n)\<rparr>))"

definition pause :: "int \<Rightarrow> unit sess" where
  "pause d = modify (\<lambda>s. s\<lparr>sv_now := sv_now s + d\<rparr>)"

text \<open>Go on only without an error.\<close>

definition unless_err :: "go_err option sess \<Rightarrow> go_err option sess \<Rightarrow> go_err option sess" where
  "unless_err m k = do { r \<leftarrow> m; case r of Some e \<Rightarrow> ret (Some e) | None \<Rightarrow> k }"

definition when_m :: "bool \<Rightarrow> unit sess \<Rightarrow> unit sess" where
  "when_m b m = (if b then m else ret ())"

fun for_each :: "'a list \<Rightarrow> ('a \<Rightarrow> unit sess) \<Rightarrow> unit sess" where
  "for_each [] f = ret ()"
| "for_each (x # xs) f = do { f x; for_each xs f }"

text \<open>time.Now().\<close>

definition now :: "world \<Rightarrow> int sess" where
  "now W = do { call W (\<lambda>_. ()) (\<lambda>_. Host); gets sv_now }"

definition ctx_err :: "world \<Rightarrow> go_err option sess" where
  "ctx_err W = call W (w_ctxErr W) (\<lambda>_. Host)"

text \<open>select between ctx.Done() and a timer.\<close>

definition ctx_pause :: "world \<Rightarrow> int \<Rightarrow> go_err option sess" where
  "ctx_pause W d = do { c \<leftarrow> ctx_err W; case c of Some e \<Rightarrow> ret (Some e) | None \<Rightarrow> do { pause d; ret None } }"

section \<open>The interfaces\<close>

definition wg_start :: "world \<Rightarrow> wireguard_profile \<Rightarrow> go_err option sess" where
  "wg_start W p = call W (\<lambda>n. w_wgStart W n p) (WgStart p)"

definition wg_stop :: "world \<Rightarrow> wireguard_profile \<Rightarrow> go_err option sess" where
  "wg_stop W p = call W (\<lambda>n. w_wgStop W n p) (WgStop p)"

definition wg_status_of :: "world \<Rightarrow> wireguard_profile \<Rightarrow> (go_err, wg_status) result sess" where
  "wg_status_of W p = call W (\<lambda>n. w_wgStatus W n p) (WgStatus p)"

definition wg_preflight :: "world \<Rightarrow> wireguard_profile \<Rightarrow> go_err option sess" where
  "wg_preflight W p = (case w_preflight W of None \<Rightarrow> ret None | Some f \<Rightarrow> call W (\<lambda>n. f n p) (WgPreflight p))"

definition ks_enable :: "world \<Rightarrow> string list \<Rightarrow> bool \<Rightarrow> bool \<Rightarrow> go_err option sess" where
  "ks_enable W hosts lan locked = call W (\<lambda>n. w_ksEnable W n hosts lan locked) (KsEnable hosts lan locked)"

definition ks_update :: "world \<Rightarrow> tunnel_ref \<Rightarrow> go_err option sess" where
  "ks_update W t = call W (\<lambda>n. w_ksUpdate W n t) (KsUpdate t)"

definition ks_clear :: "world \<Rightarrow> go_err option sess" where
  "ks_clear W = call W (w_ksClear W) KsClear"

definition ks_active :: "world \<Rightarrow> bool sess" where
  "ks_active W = call W (w_ksActive W) KsActive"

definition ks_load :: "world \<Rightarrow> (go_err, ks_saved) result sess" where
  "ks_load W = call W (w_ksLoad W) (\<lambda>_. Host)"

definition tr_start :: "world \<Rightarrow> string \<Rightarrow> profile \<Rightarrow> go_err option sess" where
  "tr_start W kind p = call W (\<lambda>n. w_trStart W n kind p) (TrStart kind p)"

definition tr_stop :: "world \<Rightarrow> string \<Rightarrow> go_err option sess" where
  "tr_stop W kind = call W (\<lambda>n. w_trStop W n kind) (TrStop kind)"

definition tr_running :: "world \<Rightarrow> string \<Rightarrow> bool sess" where
  "tr_running W kind = call W (\<lambda>n. w_trRunning W n kind) (TrRunning kind)"

text \<open>The state machine; each move is in the trace too.\<close>

definition set_state :: "world \<Rightarrow> daemon_state \<Rightarrow> string \<Rightarrow> unit sess" where
  "set_state W st d = do { call W (\<lambda>_. ()) (\<lambda>_. SetState st d); modify (\<lambda>s. s\<lparr>sv_machine := mSet st d (sv_machine s)\<rparr>) }"

definition cas_state :: "world \<Rightarrow> daemon_state list \<Rightarrow> daemon_state \<Rightarrow> string \<Rightarrow> bool sess" where
  "cas_state W expected st d = do {
     m \<leftarrow> gets sv_machine;
     if fst (CompareAndSet expected st d m)
     then do { call W (\<lambda>_. ()) (\<lambda>_. SetState st d); modify (\<lambda>s. s\<lparr>sv_machine := snd (CompareAndSet expected st d m)\<rparr>); ret True }
     else ret False }"

definition get_state :: "daemon_state sess" where
  "get_state = gets (m_state \<circ> sv_machine)"

definition setError :: "world \<Rightarrow> string \<Rightarrow> unit sess" where
  "setError W d = set_state W StateError d"

definition setErrorFromHealthCheck :: "world \<Rightarrow> string \<Rightarrow> unit sess" where
  "setErrorFromHealthCheck W d = do { cas_state W [StateConnected] StateError d; ret () }"

definition config_profiles :: "profile list sess" where
  "config_profiles = gets (profs \<circ> csGet \<circ> sv_config)"

definition find_profile :: "string \<Rightarrow> profile option sess" where
  "find_profile pid = gets (FindProfile pid \<circ> sv_config)"

definition currentNetworkKey :: "world \<Rightarrow> string sess" where
  "currentNetworkKey W = (case w_networkKey W of None \<Rightarrow> ret [] | Some f \<Rightarrow> call W f (\<lambda>_. Host))"

end
