(* ===== verification/Session_Timers.thy ===== *)
theory Session_Timers
  imports Session_State
begin

text \<open>The schedules of api/service.go, api/upstream_hold.go, api/dns_probe.go and api/route_guard.go: when a dropped
  session is rebuilt next, the holds that park recovery while the host has no network, the probe rounds, and the
  order the next cascade starts in.  In the code all of it sits under one mutex (recoveryMu), so each of these
  operations is one step.\<close>

section \<open>Constants, in milliseconds\<close>

definition connectRetryGrace :: int where "connectRetryGrace = 15000"
definition transportFlapWindow :: int where "transportFlapWindow = 600000"
definition offlineHoldInterval :: int where "offlineHoldInterval = 12000"
definition wireGuardHandshakeStaleAfter :: int where "wireGuardHandshakeStaleAfter = 180000"
definition resumeFreshWindow :: int where "resumeFreshWindow = 90000"
definition resumeDedupeWindow :: int where "resumeDedupeWindow = 10000"
definition resumeSettleGrace :: int where "resumeSettleGrace = 15000"
definition dnsProbeFailuresBeforeRebuild :: nat where "dnsProbeFailuresBeforeRebuild = 2"
definition dnsProbeRebuildCooldown :: int where "dnsProbeRebuildCooldown = 300000"
definition dnsGuardCorrectionCooldown :: int where "dnsGuardCorrectionCooldown = 30000"
definition dnsProbeIntervalMin :: int where "dnsProbeIntervalMin = 8000"
definition dnsProbeIntervalMax :: int where "dnsProbeIntervalMax = 22000"
definition upstreamHoldLimit :: int where "upstreamHoldLimit = 90000"
definition upstreamProbeGaps :: "int list" where "upstreamProbeGaps = [2000, 3000, 5000, 8000, 10000]"
definition defaultRecoveryDelays :: "int list" where "defaultRecoveryDelays = [2000, 5000, 10000, 20000, 30000, 60000]"
definition suspendGapThreshold :: int where "suspendGapThreshold = 30000"
definition maxEndpointRouteRepairDeferrals :: nat where "maxEndpointRouteRepairDeferrals = 3"

section \<open>Rebuilding a dropped session\<close>

definition beginRecoveryAttempt :: "nat sess" where
  "beginRecoveryAttempt = do { modify (\<lambda>s. s\<lparr>sv_attempts := sv_attempts s + 1\<rparr>); gets sv_attempts }"

definition recovery_delay :: "int list \<Rightarrow> nat \<Rightarrow> int" where
  "recovery_delay configured attempt =
    (let delays = (if configured = [] then defaultRecoveryDelays else configured)
     in delays ! nat (min (max (int attempt - 1) 0) (int (length delays) - 1)))"

definition scheduleNextRecovery :: "world \<Rightarrow> nat \<Rightarrow> int sess" where
  "scheduleNextRecovery W attempt = do {
     network \<leftarrow> currentNetworkKey W;
     let delay = recovery_delay (w_recoveryDelays W) attempt;
     t \<leftarrow> now W;
     modify (\<lambda>s. s\<lparr>sv_nextAt := t + delay, sv_network := network\<rparr>);
     ret delay }"

definition deferRecovery :: "world \<Rightarrow> int \<Rightarrow> unit sess" where
  "deferRecovery W d = do {
     network \<leftarrow> currentNetworkKey W;
     t \<leftarrow> now W;
     modify (\<lambda>s. if sv_nextAt s < t + d then s\<lparr>sv_nextAt := t + d, sv_network := network\<rparr> else s) }"

definition recoveryDue :: "world \<Rightarrow> bool sess" where
  "recoveryDue W = do { t \<leftarrow> now W; gets (\<lambda>s. sv_nextAt s \<le> t) }"

definition recoveryPending :: "svc \<Rightarrow> bool" where
  "recoveryPending s \<longleftrightarrow> 0 < sv_attempts s"

definition clear_upstream :: "svc \<Rightarrow> svc" where
  "clear_upstream s = s\<lparr>sv_upProfile := [], sv_upUntil := 0, sv_upProbeAt := 0, sv_upProbes := 0\<rparr>"

definition clearUpstreamHold :: "unit sess" where
  "clearUpstreamHold = modify clear_upstream"

definition resetRecovery :: "unit sess" where
  "resetRecovery = modify (\<lambda>s. clear_upstream (s\<lparr>sv_attempts := 0, sv_nextAt := 0, sv_offlineUntil := 0, sv_offlineHeld := False\<rparr>))"

section \<open>Holds\<close>

definition kickHealthCheck :: "unit sess" where
  "kickHealthCheck = modify (\<lambda>s. s\<lparr>sv_healthKick := True\<rparr>)"

definition enterOfflineHold :: "world \<Rightarrow> nat \<Rightarrow> string \<Rightarrow> bool sess" where
  "enterOfflineHold W netGen startKey = do {
     key \<leftarrow> currentNetworkKey W;
     modify (\<lambda>s. s\<lparr>sv_offlineHeld := True\<rparr>);
     gen \<leftarrow> gets sv_netGen;
     let moved = (gen \<noteq> netGen \<and> key \<noteq> [] \<and> key \<noteq> startKey);
     if moved then do { kickHealthCheck; ret False }
     else do { t \<leftarrow> now W; modify (\<lambda>s. s\<lparr>sv_offlineUntil := t + offlineHoldInterval\<rparr>); ret True } }"

definition offlineHoldActive :: "world \<Rightarrow> bool sess" where
  "offlineHoldActive W = do { t \<leftarrow> now W; gets (\<lambda>s. t < sv_offlineUntil s) }"

definition clearOfflineHold :: "unit sess" where
  "clearOfflineHold = modify (\<lambda>s. s\<lparr>sv_offlineUntil := 0, sv_offlineHeld := False\<rparr>)"

definition setKeptDeviceDead :: "bool \<Rightarrow> unit sess" where
  "setKeptDeviceDead dead = modify (\<lambda>s. s\<lparr>sv_keptDead := dead\<rparr>)"

definition healthHeld :: "world \<Rightarrow> bool sess" where
  "healthHeld W = do { t \<leftarrow> now W; gets (\<lambda>s. t < sv_healthHold s) }"

definition enterUpstreamHold :: "world \<Rightarrow> string \<Rightarrow> unit sess" where
  "enterUpstreamHold W pid = do {
     t \<leftarrow> now W;
     modify (\<lambda>s. s\<lparr>sv_upProfile := pid, sv_upUntil := t + upstreamHoldLimit, sv_upProbes := 0,
       sv_upProbeAt := t + w_jitter W (length (sv_trace s)) (upstreamProbeGaps ! 0)\<rparr>) }"

definition scheduleUpstreamProbe :: "world \<Rightarrow> unit sess" where
  "scheduleUpstreamProbe W = do {
     modify (\<lambda>s. s\<lparr>sv_upProbes := sv_upProbes s + 1\<rparr>);
     t \<leftarrow> now W;
     modify (\<lambda>s. s\<lparr>sv_upProbeAt := t + w_jitter W (length (sv_trace s)) (upstreamProbeGaps ! min (sv_upProbes s) (length upstreamProbeGaps - 1))\<rparr>) }"

definition probeUpstreamNow :: "unit sess" where
  "probeUpstreamNow = modify (\<lambda>s. if sv_upProfile s \<noteq> [] then s\<lparr>sv_upProbeAt := 0\<rparr> else s)"

section \<open>Cascade lead\<close>

definition no_lead :: cascade_lead where
  "no_lead = \<lparr>le_kind = [], le_demote = False\<rparr>"

definition takeRecoveryLead :: "cascade_lead sess" where
  "takeRecoveryLead = do { lead \<leftarrow> gets sv_lead; modify (\<lambda>s. s\<lparr>sv_lead := no_lead\<rparr>); ret lead }"

definition noteDeadTransport :: "world \<Rightarrow> string \<Rightarrow> bool sess" where
  "noteDeadTransport W kind = do {
     t \<leftarrow> now W;
     demote \<leftarrow> gets (\<lambda>s. kind = sv_lastDeadKind s \<and> t - sv_lastDeadAt s < transportFlapWindow);
     modify (\<lambda>s. s\<lparr>sv_lead := \<lparr>le_kind = kind, le_demote = demote\<rparr>\<rparr>);
     (if demote then modify (\<lambda>s. s\<lparr>sv_lastDeadKind := [], sv_lastDeadAt := 0\<rparr>)
      else modify (\<lambda>s. s\<lparr>sv_lastDeadKind := kind, sv_lastDeadAt := t, sv_probeQuiet := 0\<rparr>));
     ret demote }"

definition noteDeadForCascade :: "world \<Rightarrow> string \<Rightarrow> unit sess" where
  "noteDeadForCascade W kind =
    (if kind = [] then ret ()
     else do {
       preferred \<leftarrow> gets (co_preferred \<circ> sv_opts);
       if preferred = [] \<or> preferred = ''auto'' then do { noteDeadTransport W kind; ret () } else ret () })"

definition applyRecoveryLead :: "'f candidate list \<Rightarrow> 'f candidate list sess" where
  "applyRecoveryLead candidates = do {
     lead \<leftarrow> takeRecoveryLead;
     ret (if le_kind lead = [] \<or> length candidates < 2 then candidates
       else let same = filter (\<lambda>c. cand_kind c = le_kind lead) candidates;
                rest = filter (\<lambda>c. cand_kind c \<noteq> le_kind lead) candidates
            in if le_demote lead then rest @ same else same @ rest) }"

definition setTransportsExhausted :: "bool \<Rightarrow> unit sess" where
  "setTransportsExhausted b = modify (\<lambda>s. s\<lparr>sv_exhausted := b\<rparr>)"

section \<open>Probe rounds\<close>

definition nextDNSProbeDelay :: "world \<Rightarrow> svc \<Rightarrow> int" where
  "nextDNSProbeDelay W s = dnsProbeIntervalMin + int (w_probeDelay W (length (sv_trace s)) mod nat (dnsProbeIntervalMax - dnsProbeIntervalMin + 1))"

definition dnsProbeDue :: "world \<Rightarrow> bool sess" where
  "dnsProbeDue W = do {
     t \<leftarrow> now W;
     due \<leftarrow> gets (\<lambda>s. sv_probeNextAt s \<le> t);
     when_m due (modify (\<lambda>s. s\<lparr>sv_probeNextAt := t + nextDNSProbeDelay W s\<rparr>));
     ret due }"

definition recordDNSProbeSuccess :: "unit sess" where
  "recordDNSProbeSuccess = modify (\<lambda>s. s\<lparr>sv_probeFailures := 0\<rparr>)"

definition recordDNSProbeFailure :: "world \<Rightarrow> (nat \<times> bool) sess" where
  "recordDNSProbeFailure W = do {
     modify (\<lambda>s. s\<lparr>sv_probeFailures := sv_probeFailures s + 1\<rparr>);
     failures \<leftarrow> gets sv_probeFailures;
     t \<leftarrow> now W;
     threshold \<leftarrow> gets (\<lambda>s. if t < sv_resumeFresh s then 1 else dnsProbeFailuresBeforeRebuild);
     if failures < threshold then ret (failures, False)
     else do {
       modify (\<lambda>s. s\<lparr>sv_probeFailures := 0\<rparr>);
       quiet \<leftarrow> gets (\<lambda>s. t < sv_probeQuiet s);
       if quiet then ret (failures, False)
       else do { modify (\<lambda>s. s\<lparr>sv_probeQuiet := t + dnsProbeRebuildCooldown\<rparr>); ret (failures, True) } } }"

definition deferDataPathRebuild :: "unit sess" where
  "deferDataPathRebuild = modify (\<lambda>s. s\<lparr>sv_probeFailures := 0, sv_probeQuiet := 0\<rparr>)"

definition resetDNSProbe :: "world \<Rightarrow> unit sess" where
  "resetDNSProbe W = do { t \<leftarrow> now W; modify (\<lambda>s. s\<lparr>sv_probeFailures := 0, sv_probeNextAt := t + nextDNSProbeDelay W s\<rparr>) }"

definition endDNSProbeSession :: "unit sess" where
  "endDNSProbeSession = modify (\<lambda>s. s\<lparr>sv_probeFailures := 0, sv_probeNextAt := 0, sv_probeQuiet := 0\<rparr>)"

definition probeDataPathNow :: "unit sess" where
  "probeDataPathNow = modify (\<lambda>s. s\<lparr>sv_probeNextAt := 0\<rparr>)"

definition recordEndpointRouteRepair :: "nat sess" where
  "recordEndpointRouteRepair = do { modify (\<lambda>s. s\<lparr>sv_routeRepairs := sv_routeRepairs s + 1\<rparr>); gets sv_routeRepairs }"

definition resetEndpointRouteRepairs :: "unit sess" where
  "resetEndpointRouteRepairs = modify (\<lambda>s. s\<lparr>sv_routeRepairs := 0\<rparr>)"

section \<open>Host network\<close>

text \<open>hostVerdict: (online, known).\<close>

definition hostVerdict :: "world \<Rightarrow> (bool \<times> bool) sess" where
  "hostVerdict W = (case w_hostInternet W of None \<Rightarrow> ret (False, False)
     | Some f \<Rightarrow> do {
         v \<leftarrow> call W f (\<lambda>_. Host);
         (case w_physicalRoute W of None \<Rightarrow> ret v
          | Some route \<Rightarrow>
              if \<not> snd v \<or> fst v then ret v
              else do {
                active \<leftarrow> ks_active W;
                if \<not> active then ret v
                else do {
                  r \<leftarrow> call W route (\<lambda>_. Host);
                  ret (case r of Inr _ \<Rightarrow> (True, True)
                     | Inl e \<Rightarrow> if errors_Is ErrNoDefaultRoute e then (False, True) else (False, False)) } }) })"

definition hostOffline :: "world \<Rightarrow> bool sess" where
  "hostOffline W = do { v \<leftarrow> hostVerdict W; ret (snd v \<and> \<not> fst v) }"

definition networkLooksUsable :: "world \<Rightarrow> bool sess" where
  "networkLooksUsable W = do {
     v \<leftarrow> hostVerdict W;
     if snd v then ret (fst v)
     else (case w_networkKey W of None \<Rightarrow> ret True | Some f \<Rightarrow> do { k \<leftarrow> call W f (\<lambda>_. Host); ret (k \<noteq> []) }) }"

definition noPhysicalRoute :: "world \<Rightarrow> bool sess" where
  "noPhysicalRoute W = (case w_physicalRoute W of None \<Rightarrow> ret False
     | Some f \<Rightarrow> do { r \<leftarrow> call W f (\<lambda>_. Host); ret (case r of Inl e \<Rightarrow> errors_Is ErrNoDefaultRoute e | Inr _ \<Rightarrow> False) })"

definition offlineNow :: "world \<Rightarrow> bool sess" where
  "offlineNow W = do {
     held \<leftarrow> gets (\<lambda>s. sv_offlineHeld s \<or> sv_upProfile s \<noteq> []);
     if held then ret True else hostOffline W }"

definition offlineForState :: "daemon_state \<Rightarrow> bool \<Rightarrow> bool" where
  "offlineForState current off \<longleftrightarrow> off \<and> current \<in> set [StateConnected, StateConnecting, StateError, StateDisconnected]"

definition wireGuardHandshakeStale :: "world \<Rightarrow> wg_status \<Rightarrow> bool sess" where
  "wireGuardHandshakeStale W st =
    (if ws_handshake st \<le> 0 then ret False
     else do { t \<leftarrow> now W; ret (wireGuardHandshakeStaleAfter < t - 1000 * ws_handshake st) })"

section \<open>The host's own events\<close>

text \<open>suspendGapTracker: idle time from one check ending to the next tick.\<close>

definition suspend_tick :: "int \<Rightarrow> int \<Rightarrow> int \<times> bool" where
  "suspend_tick lastCheckEnd t = (t - lastCheckEnd, suspendGapThreshold < t - lastCheckEnd)"

definition onSystemResume :: "world \<Rightarrow> unit sess" where
  "onSystemResume W = do {
     t \<leftarrow> now W;
     noted \<leftarrow> gets sv_resumeNoted;
     if t - noted < resumeDedupeWindow then ret ()
     else do {
       modify (\<lambda>s. s\<lparr>sv_resumeNoted := t, sv_resumeFresh := t + resumeFreshWindow, sv_healthHold := t + resumeSettleGrace,
         sv_attempts := 0, sv_nextAt := 0, sv_probeFailures := 0, sv_probeQuiet := 0, sv_probeNextAt := t + resumeSettleGrace\<rparr>);
       (case w_rebind W of None \<Rightarrow> ret () | Some f \<Rightarrow> do { call W f (\<lambda>_. WgOther); ret () }) } }"

definition onNetworkChanged :: "world \<Rightarrow> unit sess" where
  "onNetworkChanged W = do {
     usable \<leftarrow> networkLooksUsable W;
     gone \<leftarrow> (if usable then noPhysicalRoute W else ret True);
     if gone then modify (\<lambda>s. s\<lparr>sv_network := []\<rparr>)
     else do {
       network \<leftarrow> currentNetworkKey W;
       t \<leftarrow> now W;
       modify (\<lambda>s. s\<lparr>sv_healthHold := min (sv_healthHold s) t,
         sv_nextAt := (if t < sv_nextAt s \<and> (network = [] \<or> network \<noteq> sv_network s) then 0 else sv_nextAt s),
         sv_probeNextAt := (if t < sv_probeNextAt s then 0 else sv_probeNextAt s),
         sv_offlineUntil := 0, sv_upProbeAt := 0, sv_netGen := sv_netGen s + 1\<rparr>);
       kickHealthCheck } }"

section \<open>Facts\<close>

lemma recovery_delay_in: "recovery_delay configured attempt \<in> set (if configured = [] then defaultRecoveryDelays else configured)"
  unfolding recovery_delay_def Let_def
  by (intro nth_mem, cases configured) (auto simp: defaultRecoveryDelays_def nat_less_iff)

lemma default_delay_bounds: "recovery_delay [] attempt \<in> {2000..60000}"
  using recovery_delay_in [of "[]" attempt] by (auto simp: defaultRecoveryDelays_def)

lemma mset_both_parts: "mset (filter P xs) + mset (filter (\<lambda>x. \<not> P x) xs) = mset xs"
  by (induction xs) auto

lemma applyRecoveryLead_perm:
  "mset (fst (run_state (applyRecoveryLead cs) s)) = mset cs"
  using mset_both_parts [of "\<lambda>c. cand_kind c = le_kind (sv_lead s)" cs]
  by (auto simp: applyRecoveryLead_def takeRecoveryLead_def gets_def modify_def Let_def union_commute simp del: mset_filter)

end
