(* ===== verification/Session_Split.thy ===== *)
theory Session_Split
  imports Session_Timers
begin

text \<open>The session's part of split tunnelling, api/split_tunnel.go: permitting the stored ranges through the lock,
  moving the live device's routes onto them, and knowing when what the session runs with is behind the settings.
  The controller of the packet engine only gets the application rules; its calls change nothing here.\<close>

definition splitRetryDelay :: int where "splitRetryDelay = 15000"

definition live_states :: "daemon_state list" where
  "live_states = [StateConnected, StateConnecting, StateError]"

definition splitSessionLive :: "svc \<Rightarrow> bool" where
  "splitSessionLive s \<longleftrightarrow> sv_profile s \<noteq> None \<and> m_state (sv_machine s) \<in> set live_states"

definition splitPending :: "svc \<Rightarrow> bool" where
  "splitPending s \<longleftrightarrow> (case sv_store s of None \<Rightarrow> False | Some st \<Rightarrow> splitSessionLive s \<and> ap_gen (sv_applied s) \<noteq> st_gen st)"

definition updateAppliedSplit :: "(applied_split \<Rightarrow> applied_split) \<Rightarrow> unit sess" where
  "updateAppliedSplit f = modify (\<lambda>s. s\<lparr>sv_applied := f (sv_applied s)\<rparr>)"

definition resetAppliedSplit :: "unit sess" where
  "resetAppliedSplit = updateAppliedSplit (\<lambda>_. no_applied)"

definition kickSplitReconcile :: "unit sess" where
  "kickSplitReconcile = modify (\<lambda>s. s\<lparr>sv_splitKick := True\<rparr>)"

definition kickSplitReconcileIfPending :: "unit sess" where
  "kickSplitReconcileIfPending = do { p \<leftarrow> gets splitPending; when_m p kickSplitReconcile }"

text \<open>The ranges wanted, the generation they belong to, and whether they were too many for this server.\<close>

definition desired_split :: "world \<Rightarrow> profile \<Rightarrow> bool \<Rightarrow> split_store option \<Rightarrow> prefix list \<times> nat \<times> bool" where
  "desired_split W p allowLAN store = (case store of None \<Rightarrow> ([], 0, False)
     | Some st \<Rightarrow> let cidrs = effectiveCIDRs (st_cfg st) in
         if cidrs = [] then ([], st_gen st, False)
         else if \<not> splitRoutesFit (w_hostname W) p allowLAN cidrs then ([], st_gen st, True)
         else (cidrs, st_gen st, False))"

definition desiredSplit :: "world \<Rightarrow> profile \<Rightarrow> bool \<Rightarrow> (prefix list \<times> nat \<times> bool) sess" where
  "desiredSplit W p allowLAN = gets (\<lambda>s. desired_split W p allowLAN (sv_store s))"

definition splitCIDRsFor :: "world \<Rightarrow> profile \<Rightarrow> bool \<Rightarrow> prefix list sess" where
  "splitCIDRsFor W p allowLAN = do { d \<leftarrow> desiredSplit W p allowLAN; ret (fst d) }"

definition setSplitPermits :: "world \<Rightarrow> prefix list \<Rightarrow> prefix list \<Rightarrow> (prefix list \<times> go_err option) sess" where
  "setSplitPermits W prev want = do {
     settled \<leftarrow> gets (\<lambda>s. \<not> sv_lockUnsure s \<and> sv_lockRanges s = want);
     if settled \<and> prev = want then ret (want, None)
     else (case w_ksSplit W of
         None \<Rightarrow> if want = [] then ret ([], None)
                 else ret (intersectPrefixes prev want, Some (Leaf ''the kill switch cannot permit split-tunnel ranges''))
       | Some f \<Rightarrow> do {
           e \<leftarrow> call W (\<lambda>n. f n (prefixStrings want)) (KsSplit (prefixStrings want));
           modify (\<lambda>s. s\<lparr>sv_lockRanges := want, sv_lockUnsure := (e \<noteq> None)\<rparr>);
           ret (case e of Some x \<Rightarrow> (intersectPrefixes prev want, Some x) | None \<Rightarrow> (want, None)) }) }"

definition clearSplitPermits :: "world \<Rightarrow> go_err option sess" where
  "clearSplitPermits W = do {
     store \<leftarrow> gets sv_store;
     case store of None \<Rightarrow> ret None
     | Some _ \<Rightarrow> do { r \<leftarrow> setSplitPermits W [] []; resetAppliedSplit; ret (snd r) } }"

definition splitApplied :: "nat \<Rightarrow> bool \<Rightarrow> unit sess" where
  "splitApplied gen dropped = do {
     updateAppliedSplit (\<lambda>a. a\<lparr>ap_gen := gen, ap_dropped := dropped\<rparr>);
     modify (\<lambda>s. s\<lparr>sv_retryAt := 0\<rparr>) }"

definition splitApplyFailed :: "world \<Rightarrow> unit sess" where
  "splitApplyFailed W = do { t \<leftarrow> now W; modify (\<lambda>s. s\<lparr>sv_retryAt := t + splitRetryDelay\<rparr>) }"

definition set_permits :: "prefix list \<Rightarrow> unit sess" where
  "set_permits permits = updateAppliedSplit (\<lambda>a. a\<lparr>ap_permits := permits\<rparr>)"

text \<open>Moving a live device: the lock permits the old and the new ranges while the routes move.\<close>

definition move_routes :: "world \<Rightarrow> profile \<Rightarrow> bool \<Rightarrow> prefix list \<Rightarrow> nat \<Rightarrow> bool \<Rightarrow> prefix list \<Rightarrow> bool sess" where
  "move_routes W p allowLAN desired gen dropped both = (case w_apply W of
      None \<Rightarrow> do { splitApplyFailed W; ret False }
    | Some apply \<Rightarrow> do {
        err \<leftarrow> (case wireGuardProfileFor (w_hostname W) p allowLAN desired of
            Inl e \<Rightarrow> ret (Some e)
          | Inr w \<Rightarrow> call W (\<lambda>n. apply n w) (WgApply w));
        case err of
          Some _ \<Rightarrow> do { updateAppliedSplit (\<lambda>a. a\<lparr>ap_unsure := True\<rparr>); splitApplyFailed W; ret False }
        | None \<Rightarrow> do {
            updateAppliedSplit (\<lambda>a. a\<lparr>ap_known := True, ap_routes := desired, ap_unsure := False\<rparr>);
            r \<leftarrow> setSplitPermits W both desired;
            set_permits (fst r);
            if snd r \<noteq> None then do { splitApplyFailed W; ret False }
            else do { splitApplied gen dropped; ret True } } })"

definition applySplitLive :: "world \<Rightarrow> profile \<Rightarrow> bool \<Rightarrow> bool \<Rightarrow> bool sess" where
  "applySplitLive W p allowLAN withDevice = do {
     store \<leftarrow> gets sv_store;
     if store = None then ret False
     else do {
       d \<leftarrow> desiredSplit W p allowLAN;
       let desired = fst d; let gen = fst (snd d); let dropped = snd (snd d);
       prev \<leftarrow> gets sv_applied;
       if ap_known prev \<and> ap_gen prev = gen then ret False
       else if ap_known prev \<and> \<not> ap_unsure prev \<and> ap_routes prev = desired then do {
         r \<leftarrow> setSplitPermits W (ap_permits prev) desired;
         set_permits (fst r);
         if snd r \<noteq> None then do { splitApplyFailed W; ret False } else do { splitApplied gen dropped; ret True } }
       else if \<not> withDevice then do {
         r \<leftarrow> setSplitPermits W (ap_permits prev) desired;
         set_permits (fst r);
         when_m (snd r \<noteq> None) (splitApplyFailed W);
         ret False }
       else do {
         let both = unionPrefixes (ap_permits prev) desired;
         r \<leftarrow> setSplitPermits W (ap_permits prev) both;
         set_permits (fst r);
         if snd r \<noteq> None then do { splitApplyFailed W; ret False }
         else move_routes W p allowLAN desired gen dropped both } } }"

text \<open>The ranges a bring-up may route around the tunnel: never more than the lock lets out.\<close>

definition syncSplitForBringUp :: "world \<Rightarrow> profile \<Rightarrow> bool \<Rightarrow> prefix list sess" where
  "syncSplitForBringUp W p allowLAN = do {
     store \<leftarrow> gets sv_store;
     if store = None then ret []
     else do {
       d \<leftarrow> desiredSplit W p allowLAN;
       let desired = fst d; let gen = fst (snd d); let dropped = snd (snd d);
       prev \<leftarrow> gets sv_applied;
       r \<leftarrow> setSplitPermits W (ap_permits prev) desired;
       q \<leftarrow> (if fst r \<noteq> [] \<and> \<not> splitRoutesFit (w_hostname W) p allowLAN (fst r)
             then do { r2 \<leftarrow> setSplitPermits W (fst r) []; ret ([], fst r2, errors_Join [snd r, snd r2]) }
             else ret (fst r, fst r, snd r));
       let routes = fst q; let permits = fst (snd q); let err = snd (snd q);
       updateAppliedSplit (\<lambda>a. \<lparr>ap_gen = (if err \<noteq> None then 0 else ap_gen a), ap_known = True, ap_routes = routes,
         ap_permits = permits, ap_dropped = dropped, ap_unsure = False\<rparr>);
       when_m (err = None) (splitApplied gen dropped);
       ret routes } }"

section \<open>Reconciling\<close>

definition deviceRunning :: "world \<Rightarrow> profile \<Rightarrow> bool sess" where
  "deviceRunning W p = do {
     r \<leftarrow> wg_status_of W (withTransportBypassHosts (w_hostname W) p);
     ret (case r of Inl _ \<Rightarrow> False | Inr st \<Rightarrow> ws_running st) }"

definition reconcileSplitOnce :: "world \<Rightarrow> bool sess" where
  "reconcileSplitOnce W = do {
     c \<leftarrow> ctx_err W;
     if c \<noteq> None then ret False
     else do {
       live \<leftarrow> gets splitSessionLive;
       prof \<leftarrow> gets sv_profile;
       current \<leftarrow> get_state;
       case prof of None \<Rightarrow> ret False
       | Some p \<Rightarrow>
           if \<not> live then ret False
           else do {
             withDevice \<leftarrow> (if current = StateConnected then deviceRunning W p else ret False);
             opts \<leftarrow> gets sv_opts;
             applySplitLive W p (co_allowLAN opts) withDevice } } }"

fun reconcile_turns :: "world \<Rightarrow> nat \<Rightarrow> unit sess" where
  "reconcile_turns W 0 = ret ()"
| "reconcile_turns W (Suc k) = do { again \<leftarrow> reconcileSplitOnce W; if again then reconcile_turns W k else ret () }"

definition reconcileSplit :: "world \<Rightarrow> unit sess" where
  "reconcileSplit W = do { store \<leftarrow> gets sv_store; if store = None then ret () else reconcile_turns W 4 }"

definition splitTick :: "world \<Rightarrow> unit sess" where
  "splitTick W = do {
     pending \<leftarrow> gets (\<lambda>s. sv_store s \<noteq> None \<and> m_state (sv_machine s) = StateConnected \<and> splitPending s);
     if pending then do { t \<leftarrow> now W; due \<leftarrow> gets (\<lambda>s. sv_retryAt s \<le> t); when_m due kickSplitReconcile }
     else ret () }"

text \<open>New settings: checked, saved, and marked applied where only the applications changed.\<close>

record split_update =
  su_enabled :: bool
  su_apps :: "string list"
  su_cidrs :: "string list"
  su_protect :: "string list option"

definition splitNeverBypass :: "string \<Rightarrow> string list \<Rightarrow> string list" where
  "splitNeverBypass self protect = protect @ (if self \<noteq> [] then [self] else [])"

definition notePOSTKeptRoutes :: "split_settings \<Rightarrow> nat \<Rightarrow> split_settings \<Rightarrow> nat \<Rightarrow> unit sess" where
  "notePOSTKeptRoutes old oldGen new gen =
    (if effectiveCIDRs old \<noteq> effectiveCIDRs new then ret ()
     else modify (\<lambda>s. if ap_known (sv_applied s) \<and> ap_gen (sv_applied s) = oldGen
       then s\<lparr>sv_applied := (sv_applied s)\<lparr>ap_gen := gen\<rparr>\<rparr> else s))"

datatype split_reply = SplitUnavailable | SplitInvalid "split_invalid list" | SplitNotSaved | SplitSaved nat

definition UpdateSplitTunnel :: "string \<Rightarrow> string \<Rightarrow> (string \<Rightarrow> bool) \<Rightarrow> rule_env \<Rightarrow> bool \<Rightarrow> split_update \<Rightarrow> split_reply sess" where
  "UpdateSplitTunnel goos self isAbs env wrote u = do {
     store \<leftarrow> gets sv_store;
     case store of None \<Rightarrow> ret SplitUnavailable
     | Some st \<Rightarrow>
        (let old = st_cfg st;
             protect = (case su_protect u of None \<Rightarrow> ss_protect old | Some l \<Rightarrow> l);
             cidrs = normalizeSplitCIDRList (su_cidrs u);
             invalid = validateSplitApps env (su_apps u) (splitNeverBypass self protect) @
               (case cidrs of Inl bad \<Rightarrow> bad | Inr _ \<Rightarrow> []) @ validateSplitProtect isAbs protect
         in if invalid \<noteq> [] then ret (SplitInvalid invalid)
            else let new = \<lparr>ss_enabled = su_enabled u, ss_apps = dedupeSplitApps goos (su_apps u),
                     ss_cidrs = (case cidrs of Inr l \<Rightarrow> l | Inl _ \<Rightarrow> []), ss_protect = protect\<rparr>
                 in (case store_save wrote new st of
                     (None, st') \<Rightarrow> do { modify (\<lambda>s. s\<lparr>sv_store := Some st'\<rparr>); ret SplitNotSaved }
                   | (Some gen, st') \<Rightarrow> do {
                       modify (\<lambda>s. s\<lparr>sv_store := Some st'\<rparr>);
                       notePOSTKeptRoutes old (st_gen st) new gen;
                       kickSplitReconcile;
                       ret (SplitSaved gen) })) }"

end
