(* ===== verification/Session_Reach.thy ===== *)
theory Session_Reach
  imports Session_Split
begin

text \<open>Whether the host's own network still reaches the hub, api/reach_baseline.go, api/reach_verdict.go and the part
  of api/upstream_hold.go that asks it: the record of routes the hub answered on, one round of probes outside the
  tunnel, and the verdict.  A network counts as silent only on the word of a route that has worked on it before.\<close>

section \<open>api/reach_baseline.go\<close>

definition reachBaselineTTL :: int where "reachBaselineTTL = 86400000"
definition reachBaselineRefresh :: int where "reachBaselineRefresh = 21600000"
definition reachBaselineMaxNetworks :: nat where "reachBaselineMaxNetworks = 64"

definition latestProof :: "(string \<times> int) list \<Rightarrow> int" where
  "latestProof routes = foldl (\<lambda>latest r. max latest (snd r)) 0 routes"

fun stalest_network :: "reach_baseline \<Rightarrow> string \<Rightarrow> int \<Rightarrow> string" where
  "stalest_network [] stalest at = stalest"
| "stalest_network (nr # b) stalest at = (let latest = latestProof (snd nr) in
     if stalest = [] \<or> latest < at then stalest_network b (fst nr) latest else stalest_network b stalest at)"

text \<open>\<open>order\<close> is the order in which Go ranges over the map.\<close>

definition evictStalestLocked :: "(reach_baseline \<Rightarrow> reach_baseline) \<Rightarrow> reach_baseline \<Rightarrow> reach_baseline" where
  "evictStalestLocked order b = (if length b < reachBaselineMaxNetworks then b
     else filter (\<lambda>nr. fst nr \<noteq> stalest_network (order b) [] 0) b)"

definition baseline_record :: "(reach_baseline \<Rightarrow> reach_baseline) \<Rightarrow> int \<Rightarrow> string \<Rightarrow> string \<Rightarrow> reach_baseline \<Rightarrow> reach_baseline" where
  "baseline_record order t network route b =
    (if network = [] \<or> route = [] then b
     else case map_of b network of
         Some routes \<Rightarrow> AList.update network (AList.update route t routes) b
       | None \<Rightarrow> evictStalestLocked order b @ [(network, [(route, t)])])"

definition baseline_proven :: "int \<Rightarrow> string \<Rightarrow> string \<Rightarrow> reach_baseline \<Rightarrow> bool" where
  "baseline_proven t network route b = (case map_of b network of None \<Rightarrow> False
     | Some routes \<Rightarrow> (case map_of routes route of None \<Rightarrow> False | Some at \<Rightarrow> t - at < reachBaselineTTL))"

definition baseline_fresh :: "int \<Rightarrow> string \<Rightarrow> reach_baseline \<Rightarrow> bool" where
  "baseline_fresh t network b = (case map_of b network of None \<Rightarrow> False
     | Some routes \<Rightarrow> list_ex (\<lambda>r. t - snd r < reachBaselineRefresh) routes)"

definition baseline_forget :: "string \<Rightarrow> reach_baseline \<Rightarrow> reach_baseline" where
  "baseline_forget network b = filter (\<lambda>nr. fst nr \<noteq> network) b"

definition baseline_unprove :: "string \<Rightarrow> string \<Rightarrow> reach_baseline \<Rightarrow> reach_baseline" where
  "baseline_unprove network route b = (case map_of b network of None \<Rightarrow> b
     | Some routes \<Rightarrow> (let left = filter (\<lambda>r. fst r \<noteq> route) routes in
         if left = [] then baseline_forget network b else AList.update network left b))"

section \<open>One round\<close>

datatype reach_verdict = ReachUnknown | ReachOnline | ReachOffline

type_synonym reach_route = "string \<times> string"

definition route_id :: "reach_route \<Rightarrow> string" where
  "route_id r = fst r @ '':'' @ snd r"

definition vouched_now :: "string set sess" where
  "vouched_now = do { ps \<leftarrow> config_profiles; ret (vouchedHosts ps) }"

definition hub_remote :: "world \<Rightarrow> (nat \<Rightarrow> string) option \<Rightarrow> string sess" where
  "hub_remote W proxy = (case proxy of None \<Rightarrow> ret [] | Some f \<Rightarrow> call W f (\<lambda>_. Host))"

definition directHubAllowed :: "world \<Rightarrow> profile \<Rightarrow> bool sess" where
  "directHubAllowed W p =
    (if wg_hubInTunnel (p_wireguard p) then ret False
     else do {
       r \<leftarrow> hub_remote W (w_realityHub W);
       if r \<noteq> [] then ret False
       else do { s \<leftarrow> hub_remote W (w_shadowsocksHub W); ret (s = []) } })"

definition appendProxyRoute :: "world \<Rightarrow> reach_route list \<Rightarrow> string \<Rightarrow> (nat \<Rightarrow> string) \<Rightarrow> reach_route list sess" where
  "appendProxyRoute W routes kind proxy = do {
     host \<leftarrow> call W proxy (\<lambda>_. Host);
     case ipLiterals [host] of [] \<Rightarrow> ret routes
     | remote # _ \<Rightarrow> do {
         active \<leftarrow> ks_active W;
         vouched \<leftarrow> vouched_now;
         ret (if active \<and> remote \<notin> vouched then routes else routes @ [(kind, remote)]) } }"

definition reachRoutes :: "world \<Rightarrow> profile \<Rightarrow> reach_route list sess" where
  "reachRoutes W p = do {
     direct \<leftarrow> directHubAllowed W p;
     let routes = (if direct then map (Pair ''direct'') (ipLiterals (wg_bypassHosts (p_wireguard p))) else []);
     routes \<leftarrow> (case w_realityHub W of None \<Rightarrow> ret routes | Some f \<Rightarrow> appendProxyRoute W routes ''reality'' f);
     (case w_shadowsocksHub W of None \<Rightarrow> ret routes | Some f \<Rightarrow> appendProxyRoute W routes ''shadowsocks'' f) }"

text \<open>The replies in the order they arrive; the round may end at the first answer.\<close>

fun collect_replies :: "bool \<Rightarrow> (nat \<times> reach_outcome) list \<Rightarrow> (nat \<times> reach_outcome) list" where
  "collect_replies stop [] = []"
| "collect_replies stop (r # rs) = r # (if stop \<and> snd r = Answered then [] else collect_replies stop rs)"

record reach_round =
  rr_network :: string
  rr_routes :: "reach_route list"
  rr_done :: "(nat \<times> reach_outcome) list"

definition probeHub :: "world \<Rightarrow> profile \<Rightarrow> bool \<Rightarrow> reach_round option sess" where
  "probeHub W p stopOnAnswer = (case (w_reach W, w_physicalRoute W) of
      (Some probe, Some route) \<Rightarrow> do {
        iface \<leftarrow> call W route (\<lambda>_. Host);
        (case iface of Inl _ \<Rightarrow> ret None
         | Inr i \<Rightarrow> if i = [] then ret None
           else do {
             routes \<leftarrow> reachRoutes W p;
             if routes = [] then ret None
             else do {
               network \<leftarrow> currentNetworkKey W;
               replies \<leftarrow> call W (\<lambda>n. probe n routes) (\<lambda>_. Host);
               later \<leftarrow> currentNetworkKey W;
               ret (if later \<noteq> network then None
                 else Some \<lparr>rr_network = network, rr_routes = routes, rr_done = collect_replies stopOnAnswer replies\<rparr>) } }) }
    | _ \<Rightarrow> ret None)"

section \<open>The verdict\<close>

definition reach_record :: "world \<Rightarrow> string \<Rightarrow> reach_route \<Rightarrow> unit sess" where
  "reach_record W network r = do {
     t \<leftarrow> now W;
     modify (\<lambda>s. s\<lparr>sv_baseline := baseline_record (w_baselineOrder W) t network (route_id r) (sv_baseline s)\<rparr>) }"

text \<open>The outcomes in the order of the routes: the first answer, or whether one was refused and how many silences decide.\<close>

datatype reading = FirstAnswer reach_route | Read bool nat

fun read_round :: "(reach_route \<Rightarrow> bool) \<Rightarrow> (nat \<times> reach_outcome) list \<Rightarrow> nat \<Rightarrow> reach_route list \<Rightarrow> bool \<Rightarrow> nat \<Rightarrow> reading" where
  "read_round decides replies i [] refused decisive = Read refused decisive"
| "read_round decides replies i (r # rs) refused decisive = (case map_of replies i of
      None \<Rightarrow> read_round decides replies (i + 1) rs refused decisive
    | Some Answered \<Rightarrow> FirstAnswer r
    | Some Refused \<Rightarrow> read_round decides replies (i + 1) rs True decisive
    | Some Silent \<Rightarrow> read_round decides replies (i + 1) rs refused (if decides r then decisive + 1 else decisive))"

definition reachVerdictFor :: "world \<Rightarrow> profile \<Rightarrow> reach_verdict sess" where
  "reachVerdictFor W p = do {
     round \<leftarrow> probeHub W p True;
     case round of None \<Rightarrow> ret ReachUnknown
     | Some r \<Rightarrow> do {
         t \<leftarrow> now W;
         baseline \<leftarrow> gets sv_baseline;
         let nodes = sessionNodeIPs (w_hostname W) p;
         let decides = (\<lambda>x. snd x \<notin> set nodes \<and> baseline_proven t (rr_network r) (route_id x) baseline);
         (case read_round decides (rr_done r) 0 (rr_routes r) False 0 of
            FirstAnswer x \<Rightarrow> do { reach_record W (rr_network r) x; ret ReachOnline }
          | Read refused decisive \<Rightarrow> ret (if refused \<or> decisive = 0 then ReachUnknown else ReachOffline)) } }"

definition reproveBaseline :: "world \<Rightarrow> profile \<Rightarrow> unit sess" where
  "reproveBaseline W p = do {
     round \<leftarrow> probeHub W p False;
     case round of None \<Rightarrow> ret ()
     | Some r \<Rightarrow> for_each (List.enumerate 0 (rr_routes r)) (\<lambda>ix.
         if map_of (rr_done r) (fst ix) = Some Answered then reach_record W (rr_network r) (snd ix)
         else modify (\<lambda>s. s\<lparr>sv_baseline := baseline_unprove (rr_network r) (route_id (snd ix)) (sv_baseline s)\<rparr>)) }"

text \<open>refreshReachBaseline leaves a goroutine behind; it runs at any later time.\<close>

definition refreshReachBaseline :: "world \<Rightarrow> string \<Rightarrow> profile \<Rightarrow> unit sess" where
  "refreshReachBaseline W network p =
    (if w_reach W = None \<or> network = [] then ret ()
     else do {
       t \<leftarrow> now W;
       fresh \<leftarrow> gets (baseline_fresh t network \<circ> sv_baseline);
       if fresh then ret () else modify (\<lambda>s. s\<lparr>sv_tasks := sv_tasks s @ [Reprove p]\<rparr>) })"

definition run_task :: "world \<Rightarrow> nat \<Rightarrow> unit sess" where
  "run_task W i = do {
     tasks \<leftarrow> gets sv_tasks;
     if i < length tasks then do {
       modify (\<lambda>s. s\<lparr>sv_tasks := take i tasks @ drop (i + 1) tasks\<rparr>);
       (case tasks ! i of Reprove p \<Rightarrow> reproveBaseline W p) }
     else ret () }"

section \<open>Holding for a silent network\<close>

definition sessionMoved :: "string \<Rightarrow> bool sess" where
  "sessionMoved pid = gets (\<lambda>s. case sv_profile s of None \<Rightarrow> True | Some p \<Rightarrow> p_id p \<noteq> pid)"

text \<open>The health check does not hold opMu while it probes: \<open>M\<close> is what other operations do meanwhile.\<close>

definition holdForSilentNetwork :: "world \<Rightarrow> unit sess \<Rightarrow> profile \<Rightarrow> bool sess" where
  "holdForSilentNetwork W M p = do {
     verdict \<leftarrow> reachVerdictFor W p;
     M;
     moved \<leftarrow> sessionMoved (p_id p);
     if moved then ret False
     else if verdict = ReachOffline then do { enterUpstreamHold W (p_id p); ret True }
     else ret False }"

definition offlineHoldDetail :: string where
  "offlineHoldDetail = ''no internet connection; connecting when the network returns''"

definition upstreamHoldActive :: "bool sess" where
  "upstreamHoldActive = gets (\<lambda>s. sv_upProfile s \<noteq> [])"

definition holdIfNetworkSilent :: "world \<Rightarrow> unit sess \<Rightarrow> profile \<Rightarrow> go_err option \<Rightarrow> bool sess" where
  "holdIfNetworkSilent W M p err = do {
     holding \<leftarrow> upstreamHoldActive;
     if \<not> is_err ErrTransportExhausted err \<or> unreachable_opt err \<or> holding then ret False
     else do {
       held \<leftarrow> holdForSilentNetwork W M p;
       moved \<leftarrow> sessionMoved (p_id p);
       if moved then ret True
       else if \<not> held then ret False
       else do {
         stamped \<leftarrow> cas_state W [StateConnected, StateError] StateError offlineHoldDetail;
         when_m (\<not> stamped) clearUpstreamHold;
         ret True } } }"

section \<open>Facts\<close>

text \<open>Silence decides only when some route that worked on this network before, off the session's own nodes, was silent,
  and nothing answered or refused.\<close>

lemma read_round_Read:
  "read_round decides replies i rs refused decisive = Read ref dec \<Longrightarrow>
     (refused \<longrightarrow> ref) \<and> decisive \<le> dec \<and>
     (decisive < dec \<longrightarrow> (\<exists>k < length rs. decides (rs ! k) \<and> map_of replies (i + k) = Some Silent)) \<and>
     (\<forall>k < length rs. map_of replies (i + k) \<noteq> Some Answered) \<and>
     (\<not> ref \<longrightarrow> (\<forall>k < length rs. map_of replies (i + k) \<noteq> Some Refused))"
proof (induction rs arbitrary: i refused decisive)
  case (Cons r rs)
  have shift: "(\<exists>k < length (r # rs). P k ((r # rs) ! k)) \<longleftrightarrow> P 0 r \<or> (\<exists>k < length rs. P (Suc k) (rs ! k))"
    "(\<forall>k < length (r # rs). Q k) \<longleftrightarrow> Q 0 \<and> (\<forall>k < length rs. Q (Suc k))" for P Q
    by (auto simp: less_Suc_eq_0_disj)
  show ?case
    using Cons.prems Cons.IH [of "Suc i"]
    unfolding shift(2) shift(1) [where P = "\<lambda>k x. decides x \<and> map_of replies (i + k) = Some Silent"]
    by (fastforce split: option.splits reach_outcome.splits if_splits)
qed auto

lemma baseline_forget_gone: "map_of (baseline_forget network b) network = None"
  by (auto simp: baseline_forget_def map_of_eq_None_iff)

lemma baseline_record_proven:
  "network \<noteq> [] \<Longrightarrow> route \<noteq> [] \<Longrightarrow> map_of b network \<noteq> None \<or> length b < reachBaselineMaxNetworks \<Longrightarrow>
     baseline_proven t network route (baseline_record order t network route b)"
  by (auto simp: baseline_record_def baseline_proven_def evictStalestLocked_def update_conv' reachBaselineTTL_def
      map_add_def split: option.splits)

end
