(* ===== verification/Session_Bringup.thy ===== *)
theory Session_Bringup
  imports Session_Reach
begin

text \<open>The transports a session can run over, api/service.go: the start of each (its process, the port it bound written into
  the WireGuard config, the wait until it is stable, the wait for its session), plain WireGuard, and the list of
  candidates in the order they are tried.  Polling loops take a number of rounds that the clock makes sufficient.\<close>

section \<open>Transports\<close>

definition transportKindWireGuard :: string where
  "transportKindWireGuard = ''wireguard''"

definition shadowsocksMaxMTU :: int where "shadowsocksMaxMTU = 1280"
definition snowflakeReleaseGated :: bool where "snowflakeReleaseGated = True"

text \<open>The kind names its manager; None is a nil manager.\<close>

definition managerForKind :: "string \<Rightarrow> string option" where
  "managerForKind kind = (if kind \<in> set [''cloak'', ''naive'', ''reality'', ''hysteria2'', ''shadowsocks'', ''anytls'', ''snowflake'']
     then Some kind else None)"

definition activeTransport :: "string option sess" where
  "activeTransport = gets (managerForKind \<circ> sv_active)"

definition setActiveTransportKind :: "string \<Rightarrow> unit sess" where
  "setActiveTransportKind kind = modify (\<lambda>s. s\<lparr>sv_active := kind\<rparr>)"

definition setConnectingTransportKind :: "string \<Rightarrow> unit sess" where
  "setConnectingTransportKind kind = modify (\<lambda>s. s\<lparr>sv_connecting := kind\<rparr>)"

definition stop_active :: "world \<Rightarrow> unit sess" where
  "stop_active W = do { a \<leftarrow> activeTransport; case a of None \<Rightarrow> ret () | Some k \<Rightarrow> do { tr_stop W k; ret () } }"

definition with_local_port :: "string \<Rightarrow> int \<Rightarrow> profile \<Rightarrow> profile" where
  "with_local_port kind port p =
    (if kind = ''cloak'' then p\<lparr>p_cloak := (p_cloak p)\<lparr>cl_localPort := port\<rparr>\<rparr>
     else if kind = ''naive'' then p\<lparr>p_naive := map_option (\<lambda>x. x\<lparr>na_localPort := port\<rparr>) (p_naive p)\<rparr>
     else if kind = ''reality'' then p\<lparr>p_reality := map_option (\<lambda>x. x\<lparr>re_localPort := port\<rparr>) (p_reality p)\<rparr>
     else if kind = ''hysteria2'' then p\<lparr>p_hysteria2 := map_option (\<lambda>x. x\<lparr>hy_localPort := port\<rparr>) (p_hysteria2 p)\<rparr>
     else if kind = ''shadowsocks'' then p\<lparr>p_shadowsocks := map_option (\<lambda>x. x\<lparr>ss_localPort := port\<rparr>) (p_shadowsocks p)\<rparr>
     else if kind = ''anytls'' then p\<lparr>p_anytls := map_option (\<lambda>x. x\<lparr>at_localPort := port\<rparr>) (p_anytls p)\<rparr>
     else if kind = ''snowflake'' then p\<lparr>p_snowflake := map_option (\<lambda>x. x\<lparr>sn_localPort := port\<rparr>) (p_snowflake p)\<rparr>
     else p)"

definition rebindWireGuardEndpoint :: "world \<Rightarrow> string \<Rightarrow> int \<Rightarrow> wireguard_profile \<Rightarrow> (int \<times> wireguard_profile) sess" where
  "rebindWireGuardEndpoint W kind configured w = (case w_trBound W kind of None \<Rightarrow> ret (configured, w)
     | Some f \<Rightarrow> do {
         bound \<leftarrow> call W f (TrBound kind);
         ret (if bound \<le> 0 \<or> bound = configured then (configured, w)
           else let rewritten = rewriteLoopbackEndpointPort (wg_configText w) bound in
             if \<not> snd rewritten then (configured, w) else (bound, w\<lparr>wg_configText := fst rewritten\<rparr>)) })"

text \<open>None: the deadline passed; otherwise running (Some None) or a cancelled context.\<close>

fun stable_polls :: "world \<Rightarrow> string \<Rightarrow> int \<Rightarrow> nat \<Rightarrow> go_err option option sess" where
  "stable_polls W kind deadline 0 = ret None"
| "stable_polls W kind deadline (Suc k) = do {
     c \<leftarrow> ctx_pause W 50;
     case c of Some e \<Rightarrow> ret (Some (Some e))
     | None \<Rightarrow> do {
         r \<leftarrow> tr_running W kind;
         if r then ret (Some None)
         else do { t \<leftarrow> now W; if deadline < t then ret None else stable_polls W kind deadline k } } }"

definition exited_text :: "int \<Rightarrow> string" where
  "exited_text port = ''transport process exited during startup; local port '' @ itoa port @ '' is already occupied by ''"

definition waitForManagedTransportStable :: "world \<Rightarrow> string \<Rightarrow> int \<Rightarrow> int \<Rightarrow> go_err option sess" where
  "waitForManagedTransportStable W kind localPort duration = do {
     r \<leftarrow> tr_running W kind;
     if r then ret None
     else do {
       t \<leftarrow> now W;
       v \<leftarrow> stable_polls W kind (t + duration) (nat (duration div 50) + 2);
       case v of Some e \<Rightarrow> ret e
       | None \<Rightarrow>
           if 0 < localPort then do {
             owners \<leftarrow> call W (\<lambda>n. w_portOwners W n localPort) (\<lambda>_. Host);
             ret (Some (Leaf (case owners of Inr (pid # _) \<Rightarrow> exited_text localPort @ ''pid '' @ itoa pid
               | _ \<Rightarrow> exited_text localPort @ ''another process''))) }
           else ret (Some (Leaf ''transport process exited during startup'')) } }"

text \<open>A start function answers its error, the profile with the port that was bound, and the rewritten config.\<close>

type_synonym started = "go_err option \<times> profile \<times> wireguard_profile"
type_synonym start_fn = "profile \<Rightarrow> wireguard_profile \<Rightarrow> started sess"

text \<open>cloakStartedFor begins as Go's zero value.\<close>

definition zero_cloak :: cloak_profile where
  "zero_cloak = \<lparr>cl_localPort = 0, cl_remoteHost = [], cl_remotePort = 0, cl_uid = [], cl_publicKey = [],
     cl_encryptionMethod = [], cl_password = [], cl_serverName = [], cl_proxyMethod = []\<rparr>"

definition cloakStartedForRemote :: "cloak_profile \<Rightarrow> bool sess" where
  "cloakStartedForRemote c = gets (\<lambda>s. (case sv_cloakFor s of None \<Rightarrow> zero_cloak | Some l \<Rightarrow> l)\<lparr>cl_localPort := cl_localPort c\<rparr> = c)"

definition rememberCloakRemote :: "cloak_profile \<Rightarrow> unit sess" where
  "rememberCloakRemote c = modify (\<lambda>s. s\<lparr>sv_cloakFor := Some c\<rparr>)"

definition startCloakTransport :: "world \<Rightarrow> start_fn" where
  "startCloakTransport W p w = do {
     running \<leftarrow> tr_running W ''cloak'';
     same \<leftarrow> cloakStartedForRemote (p_cloak p);
     e \<leftarrow> (if running \<and> same then ret None
           else unless_err (tr_start W ''cloak'' (with_local_port ''cloak'' 0 p))
             (do { rememberCloakRemote (p_cloak p); ret None }));
     case e of Some x \<Rightarrow> ret (Some (wrapf ''start'' x), p, w)
     | None \<Rightarrow> do {
         r \<leftarrow> rebindWireGuardEndpoint W ''cloak'' (cl_localPort (p_cloak p)) w;
         let p' = with_local_port ''cloak'' (fst r) p;
         x \<leftarrow> waitForManagedTransportStable W ''cloak'' (fst r) 200;
         ret (x, p', snd r) } }"

text \<open>The other transports differ in the wait for a session; Shadowsocks has none.\<close>

definition wait_session :: "world \<Rightarrow> string \<Rightarrow> go_err option sess" where
  "wait_session W kind = (case w_trSession W kind of None \<Rightarrow> ret None | Some f \<Rightarrow> call W f (TrSession kind))"

definition start_managed :: "world \<Rightarrow> string \<Rightarrow> bool \<Rightarrow> start_fn" where
  "start_managed W kind waits p w = do {
     e \<leftarrow> tr_start W kind (with_local_port kind 0 p);
     case e of Some x \<Rightarrow> ret (Some (wrapf ''start'' x), p, w)
     | None \<Rightarrow> do {
         r \<leftarrow> rebindWireGuardEndpoint W kind (transportLocalPort p kind) w;
         let p' = with_local_port kind (fst r) p;
         s \<leftarrow> waitForManagedTransportStable W kind (fst r) 200;
         case s of Some x \<Rightarrow> do { tr_stop W kind; ret (Some x, p', snd r) }
         | None \<Rightarrow> do {
             v \<leftarrow> (if waits then wait_session W kind else ret None);
             case v of Some x \<Rightarrow> do { tr_stop W kind; ret (Some (wrapf ''session'' x), p', snd r) }
             | None \<Rightarrow> ret (None, p', snd r) } } }"

definition startNaiveTransport :: "world \<Rightarrow> start_fn" where
  "startNaiveTransport W = start_managed W ''naive'' True"
definition startRealityTransport :: "world \<Rightarrow> start_fn" where
  "startRealityTransport W = start_managed W ''reality'' True"
definition startHysteria2Transport :: "world \<Rightarrow> start_fn" where
  "startHysteria2Transport W = start_managed W ''hysteria2'' True"
definition startAnyTLSTransport :: "world \<Rightarrow> start_fn" where
  "startAnyTLSTransport W = start_managed W ''anytls'' True"
definition startSnowflakeTransport :: "world \<Rightarrow> start_fn" where
  "startSnowflakeTransport W = start_managed W ''snowflake'' True"
definition startShadowsocksTransport :: "world \<Rightarrow> start_fn" where
  "startShadowsocksTransport W p w = start_managed W ''shadowsocks'' False p
     (w\<lparr>wg_configText := clampWireGuardMTU (wg_configText w) shadowsocksMaxMTU\<rparr>)"

definition startDirectWireGuard :: start_fn where
  "startDirectWireGuard p w = ret (case validDirectEndpoint (wg_directEndpoint w) of
       Inl e \<Rightarrow> (Some e, p, w)
     | Inr endpoint \<Rightarrow> (let rewritten = rewriteWireGuardEndpoint (wg_configText w) endpoint in
         if \<not> snd rewritten then (Some (Leaf ''wireguard config has no Endpoint line to repoint at the node''), p, w)
         else (None, p, w\<lparr>wg_configText := fst rewritten\<rparr>)))"

definition StarterFor :: "world \<Rightarrow> profile \<Rightarrow> start_fn starter" where
  "StarterFor W p kind =
    (let not_configured = (\<lambda>p w. ret (None, p, w), NotConfigured);
         on = (\<lambda>configured f. if configured then (f, Available) else not_configured)
     in if kind = ''cloak'' then (startCloakTransport W, Available)
        else if kind = ''reality'' then on (p_reality p \<noteq> None) (startRealityTransport W)
        else if kind = ''hysteria2'' then on (p_hysteria2 p \<noteq> None) (startHysteria2Transport W)
        else if kind = ''naive'' then on (p_naive p \<noteq> None) (startNaiveTransport W)
        else if kind = ''shadowsocks'' then on (p_shadowsocks p \<noteq> None) (startShadowsocksTransport W)
        else if kind = ''anytls'' then on (p_anytls p \<noteq> None) (startAnyTLSTransport W)
        else if kind = ''snowflake'' then
          (if snowflakeReleaseGated then (\<lambda>p w. ret (None, p, w), Unavailable) else on (p_snowflake p \<noteq> None) (startSnowflakeTransport W))
        else not_configured)"

definition select_error_go :: "select_error \<Rightarrow> go_err" where
  "select_error_go e = Leaf (case e of UnknownTransport k \<Rightarrow> ''unknown transport '' @ k
     | TransportUnavailable k \<Rightarrow> k @ '' transport is temporarily unavailable''
     | TransportNotConfigured k \<Rightarrow> k @ '' transport requested but this profile has no configuration for it'')"

definition transportCandidates :: "world \<Rightarrow> profile \<Rightarrow> string \<Rightarrow> (go_err, start_fn candidate list) result" where
  "transportCandidates W p preferred =
    (if preferred \<noteq> transportKindWireGuard
     then (case Select preferred (StarterFor W p) of Inl e \<Rightarrow> Inl (select_error_go e) | Inr cs \<Rightarrow> Inr cs)
     else case validDirectEndpoint (wg_directEndpoint (p_wireguard p)) of
         Inl e \<Rightarrow> Inl (Wrap (''plain wireguard requested but '' @ err_text e) e)
       | Inr _ \<Rightarrow> Inr [\<lparr>cand_kind = transportKindWireGuard, cand_start = startDirectWireGuard\<rparr>])"

definition reorderByMemory :: "start_fn candidate list \<Rightarrow> string \<Rightarrow> string \<Rightarrow> start_fn candidate list sess" where
  "reorderByMemory candidates preferred networkKey = gets (\<lambda>s. case sv_memory s of None \<Rightarrow> candidates
     | Some m \<Rightarrow> fst (ReorderByMemory candidates preferred networkKey (Some (tmLookup m))))"

definition rememberTransport :: "world \<Rightarrow> string \<Rightarrow> string \<Rightarrow> unit sess" where
  "rememberTransport W networkKey kind = do {
     m \<leftarrow> gets sv_memory;
     case m of None \<Rightarrow> ret ()
     | Some store \<Rightarrow>
         if networkKey = [] \<or> kind = [] \<or> kind = transportKindWireGuard then ret ()
         else do {
           t \<leftarrow> now W;
           written \<leftarrow> call W (w_memoryWrites W) (\<lambda>_. Host);
           modify (\<lambda>s. s\<lparr>sv_memory := Some (fst (tmRecord (w_memoryOrder W) t written networkKey kind store))\<rparr>) } }"

end
