(* ===== verification/Session_Gate.thy ===== *)
theory Session_Gate
  imports Session_Bringup
begin

text \<open>What a candidate transport must show before a session counts as connected, api/service.go and api/dns_probe.go:
  a WireGuard handshake newer than the one a reused device had, the kill switch updated to let the tunnel out, and a
  round trip through the tunnel; and the walk over the candidates until one shows it.\<close>

section \<open>The tunnel's name\<close>

definition resolveWireGuardInterfaceName :: "world \<Rightarrow> wireguard_profile \<Rightarrow> string sess" where
  "resolveWireGuardInterfaceName W w = (let fallback = trim_space (wg_tunnelName w) in
     case w_iface W of None \<Rightarrow> ret fallback
     | Some f \<Rightarrow> do {
         r \<leftarrow> call W (\<lambda>n. f n w) (\<lambda>_. WgOther);
         ret (case r of Inl _ \<Rightarrow> fallback | Inr name \<Rightarrow> if trim_space name = [] then fallback else trim_space name) })"

definition resolveTunnelLUID :: "world \<Rightarrow> wireguard_profile \<Rightarrow> int sess" where
  "resolveTunnelLUID W w = (case w_luid W of None \<Rightarrow> ret 0
     | Some f \<Rightarrow> do { r \<leftarrow> call W (\<lambda>n. f n w) (\<lambda>_. WgOther); ret (case r of Inl _ \<Rightarrow> 0 | Inr luid \<Rightarrow> luid) })"

definition resolveTunnelRef :: "world \<Rightarrow> wireguard_profile \<Rightarrow> tunnel_ref sess" where
  "resolveTunnelRef W w = do {
     name \<leftarrow> resolveWireGuardInterfaceName W w;
     luid \<leftarrow> resolveTunnelLUID W w;
     ret \<lparr>tr_name = name, tr_luid = luid\<rparr> }"

text \<open>The goroutine that opens the permit for the tunnel.\<close>

definition permit_tunnel :: "world \<Rightarrow> wireguard_profile \<Rightarrow> go_err option sess" where
  "permit_tunnel W w = do { t \<leftarrow> resolveTunnelRef W w; ks_update W t }"

section \<open>The handshake\<close>

definition defaultWireGuardHandshakeTimeout :: int where "defaultWireGuardHandshakeTimeout = 10000"
definition rebuildHandshakeTimeout :: int where "rebuildHandshakeTimeout = 20000"
definition wireGuardHandshakePollInterval :: int where "wireGuardHandshakePollInterval = 200"

definition handshakeTimeoutFor :: "bring_ctx \<Rightarrow> int \<Rightarrow> int" where
  "handshakeTimeoutFor cx configured =
    (if 0 < configured then configured
     else case cx_budget cx of Some b \<Rightarrow> if 0 < b then b else defaultWireGuardHandshakeTimeout
       | None \<Rightarrow> defaultWireGuardHandshakeTimeout)"

text \<open>A job that runs beside the wait lands before poll number \<open>at\<close>; the caller joins it if the wait ends first.\<close>

definition run_beside :: "go_err option sess \<Rightarrow> nat \<Rightarrow> go_err option option \<Rightarrow> go_err option option sess" where
  "run_beside job at done = (if done = None \<and> at = 0 then do { r \<leftarrow> job; ret (Some r) } else ret done)"

fun handshake_polls :: "world \<Rightarrow> wireguard_profile \<Rightarrow> int \<Rightarrow> int \<Rightarrow> int \<Rightarrow> go_err option sess \<Rightarrow> nat \<Rightarrow> nat \<Rightarrow> go_err option option
    \<Rightarrow> (go_err option \<times> go_err option option) sess" where
  "handshake_polls W w minHandshake timeout deadline job 0 at done =
     ret (Some (Leaf (''no wireguard handshake within '' @ itoa timeout @ ''ms'')), done)"
| "handshake_polls W w minHandshake timeout deadline job (Suc k) at done = do {
     done \<leftarrow> run_beside job at done;
     st \<leftarrow> wg_status_of W w;
     (case st of Inl e \<Rightarrow> ret (Some (wrapf ''wireguard status during handshake wait'' e), done)
      | Inr x \<Rightarrow>
          if \<not> ws_running x then ret (Some (Leaf ''wireguard interface went down before handshake''), done)
          else if minHandshake < ws_handshake x then ret (None, done)
          else do {
            t \<leftarrow> now W;
            if deadline < t then ret (Some (Leaf (''no wireguard handshake within '' @ itoa timeout @ ''ms'')), done)
            else do {
              c \<leftarrow> ctx_pause W wireGuardHandshakePollInterval;
              case c of Some e \<Rightarrow> ret (Some e, done)
              | None \<Rightarrow> handshake_polls W w minHandshake timeout deadline job k (at - 1) done } }) }"

definition waitForWireGuardHandshake :: "world \<Rightarrow> bring_ctx \<Rightarrow> wireguard_profile \<Rightarrow> go_err option sess \<Rightarrow> (go_err option \<times> go_err option) sess" where
  "waitForWireGuardHandshake W cx w job = do {
     let timeout = handshakeTimeoutFor cx (w_handshakeTimeout W);
     at \<leftarrow> gets (\<lambda>s. w_updateAt W (length (sv_trace s)));
     t \<leftarrow> now W;
     r \<leftarrow> handshake_polls W w (cx_min cx) timeout (t + timeout) job (nat (timeout div wireGuardHandshakePollInterval) + 2) at None;
     d \<leftarrow> (case snd r of Some d \<Rightarrow> ret d | None \<Rightarrow> job);
     ret (fst r, d) }"

section \<open>The data path\<close>

definition dataPathGateAttempts :: nat where "dataPathGateAttempts = 2"
definition dataPathGateRetryDelay :: int where "dataPathGateRetryDelay = 300"
definition dataPathGateBudget :: int where "dataPathGateBudget = 12000"
definition dataPathRescueBytes :: int where "dataPathRescueBytes = 256"
definition dnsProbeServers :: nat where "dnsProbeServers = 2"

definition probe_servers :: "wireguard_profile \<Rightarrow> string list" where
  "probe_servers w = ProbeResolvers (wg_configText w) (dns_list (wg_dns w))"

definition canProveDataPath :: "world \<Rightarrow> profile \<Rightarrow> bool" where
  "canProveDataPath W p \<longleftrightarrow> w_probe W \<noteq> None \<and> probe_servers (p_wireguard p) \<noteq> []"

definition probeServerOrder :: "world \<Rightarrow> string list \<Rightarrow> string list sess" where
  "probeServerOrder W servers = gets (\<lambda>s.
     let turned = (case w_probeStart W (length (sv_trace s)) of None \<Rightarrow> servers
           | Some seed \<Rightarrow> let start = seed mod length servers in drop start servers @ take start servers)
     in take dnsProbeServers turned)"

definition peerRxBytes :: "world \<Rightarrow> wireguard_profile \<Rightarrow> int option sess" where
  "peerRxBytes W w = do {
     r \<leftarrow> wg_status_of W w;
     ret (case r of Inl _ \<Rightarrow> None | Inr st \<Rightarrow> if ws_running st then Some (ws_bytesIn st) else None) }"

fun ready_polls :: "world \<Rightarrow> (nat \<Rightarrow> wireguard_profile \<Rightarrow> (go_err, bool) result) \<Rightarrow> wireguard_profile \<Rightarrow> int \<Rightarrow> nat \<Rightarrow> unit sess" where
  "ready_polls W f w deadline 0 = ret ()"
| "ready_polls W f w deadline (Suc k) = do {
     r \<leftarrow> call W (\<lambda>n. f n w) (\<lambda>_. WgOther);
     case r of Inl _ \<Rightarrow> ret ()
     | Inr ready \<Rightarrow>
         if ready then ret ()
         else do {
           t \<leftarrow> now W;
           if deadline \<le> t then ret ()
           else do {
             c \<leftarrow> ctx_pause W dataPathGateRetryDelay;
             case c of Some _ \<Rightarrow> ret () | None \<Rightarrow> ready_polls W f w deadline k } } }"

definition awaitTunnelReady :: "world \<Rightarrow> wireguard_profile \<Rightarrow> int \<Rightarrow> nat \<Rightarrow> unit sess" where
  "awaitTunnelReady W w deadline rounds = (case w_ready W of None \<Rightarrow> ret () | Some f \<Rightarrow> ready_polls W f w deadline rounds)"

text \<open>How the rounds of a gate end: proof, an error to return as it is, or silence with the last error.\<close>

datatype gate_end = GatePass | GateStop go_err | GateSilent "go_err option"

definition not_ready_err :: "go_err \<Rightarrow> go_err" where
  "not_ready_err e = GateErr (wrapf ''tunnel came up but the host had not made its adapter usable in time'' e)"

definition probe_call :: "world \<Rightarrow> string \<Rightarrow> string \<Rightarrow> go_err option sess" where
  "probe_call W iface server = (case w_probe W of None \<Rightarrow> ret None | Some f \<Rightarrow> call W (\<lambda>n. f n iface server) (Probe iface server))"

fun gate_rounds :: "world \<Rightarrow> string list \<Rightarrow> string \<Rightarrow> int \<Rightarrow> nat \<Rightarrow> nat \<Rightarrow> bool \<Rightarrow> go_err option \<Rightarrow> gate_end sess" where
  "gate_rounds W servers iface deadline 0 attempt delay lastErr = ret (GateStop (not_ready_err (Sentinel ErrProbeNotReady)))"
| "gate_rounds W servers iface deadline (Suc k) attempt delay lastErr =
    (if dataPathGateAttempts \<le> attempt then ret (GateSilent lastErr)
     else do {
       c \<leftarrow> (if delay then ctx_pause W dataPathGateRetryDelay else ret None);
       case c of Some e \<Rightarrow> ret (GateStop e)
       | None \<Rightarrow> do {
           let server = servers ! (attempt mod length servers);
           err \<leftarrow> probe_call W iface server;
           case err of None \<Rightarrow> ret GatePass
           | Some e \<Rightarrow>
               if errors_Is ErrProbeConnRefused e \<or> errors_Is ErrProbeOversized e then ret GatePass
               else if errors_Is ErrProbeInconclusive e then do {
                 x \<leftarrow> ctx_err W;
                 ret (case x of Some y \<Rightarrow> GateStop y | None \<Rightarrow> GatePass) }
               else if errors_Is ErrProbeNotReady e then do {
                 t \<leftarrow> now W;
                 if deadline \<le> t then ret (GateStop (not_ready_err e))
                 else gate_rounds W servers iface deadline k attempt True lastErr }
               else gate_rounds W servers iface deadline k (attempt + 1) True (Some (wrapf server e)) } })"

definition wrap_opt :: "string \<Rightarrow> go_err option \<Rightarrow> go_err" where
  "wrap_opt pre e = (case e of Some x \<Rightarrow> wrapf pre x | None \<Rightarrow> Leaf pre)"

definition no_traffic_err :: "go_err option \<Rightarrow> go_err" where
  "no_traffic_err lastErr = GateErr (wrap_opt ''tunnel came up but did not carry traffic'' lastErr)"

definition gate_rescue :: "world \<Rightarrow> wireguard_profile \<Rightarrow> int option \<Rightarrow> go_err option \<Rightarrow> go_err option sess" where
  "gate_rescue W w rxBefore lastErr = (case rxBefore of None \<Rightarrow> ret (Some (no_traffic_err lastErr))
     | Some before \<Rightarrow> do {
         after \<leftarrow> peerRxBytes W w;
         ret (case after of None \<Rightarrow> Some (no_traffic_err lastErr)
           | Some n \<Rightarrow> if dataPathRescueBytes \<le> n - before then None
               else Some (no_traffic_err (map_option (\<lambda>e. Wrap (err_text e @ '' (peer sent '' @ itoa (n - before) @ '' bytes during the probe)'') e) lastErr))) })"

definition proveDataPath :: "world \<Rightarrow> wireguard_profile \<Rightarrow> go_err option sess" where
  "proveDataPath W w =
    (if w_probe W = None \<or> probe_servers w = [] then ret None
     else do {
       servers \<leftarrow> probeServerOrder W (probe_servers w);
       let budget = (if w_dataPathBudget W \<le> 0 then dataPathGateBudget else w_dataPathBudget W);
       let rounds = nat (budget div dataPathGateRetryDelay) + 4;
       t \<leftarrow> now W;
       awaitTunnelReady W w (t + budget) rounds;
       iface \<leftarrow> resolveWireGuardInterfaceName W w;
       rxBefore \<leftarrow> peerRxBytes W w;
       r \<leftarrow> gate_rounds W servers iface (t + budget) rounds 0 False None;
       case r of GatePass \<Rightarrow> ret None
       | GateStop e \<Rightarrow> ret (Some e)
       | GateSilent lastErr \<Rightarrow> gate_rescue W w rxBefore lastErr })"

section \<open>One candidate\<close>

definition check_traffic :: "world \<Rightarrow> bring_ctx \<Rightarrow> string \<Rightarrow> wireguard_profile \<Rightarrow> go_err option sess" where
  "check_traffic W cx kind w = do {
     set_state W StateConnecting (''waiting for '' @ kind @ '' handshake'');
     r \<leftarrow> waitForWireGuardHandshake W cx w (permit_tunnel W w);
     case r of (Some e, _) \<Rightarrow> ret (Some (wrapf kind e))
     | (None, Some e) \<Rightarrow> ret (Some (wrapf (kind @ '': kill switch tunnel update'') e))
     | (None, None) \<Rightarrow> do {
         set_state W StateConnecting (''checking traffic over '' @ kind);
         e \<leftarrow> proveDataPath W w;
         ret (map_option (wrapf kind) e) } }"

definition start_device :: "world \<Rightarrow> bring_ctx \<Rightarrow> string \<Rightarrow> wireguard_profile \<Rightarrow> go_err option sess" where
  "start_device W cx kind w = do {
     set_state W StateConnecting (''starting wireguard over '' @ kind);
     e \<leftarrow> wg_start W w;
     case e of Some x \<Rightarrow> ret (Some (wrapf (kind @ '': wireguard start'') x))
     | None \<Rightarrow> do {
         st \<leftarrow> wg_status_of W w;
         case st of Inl x \<Rightarrow> ret (Some (wrapf (kind @ '': wireguard status'') x))
         | Inr y \<Rightarrow>
             if \<not> ws_running y then ret (Some (Leaf (kind @ '': wireguard failed to reach running state: '' @ ws_detail y)))
             else check_traffic W cx kind w } }"

definition cleanup_candidate :: "world \<Rightarrow> bring_ctx \<Rightarrow> string \<Rightarrow> profile \<Rightarrow> wireguard_profile \<Rightarrow> unit sess" where
  "cleanup_candidate W cx kind p w = do {
     (if cx_keep cx then ret () else do { wg_stop W w; ret () });
     (case managerForKind kind of None \<Rightarrow> ret ()
      | Some k \<Rightarrow> do {
          tr_stop W k;
          when_m (0 < transportLocalPort p kind) (call W (\<lambda>_. ()) (\<lambda>_. Host)) }) }"

definition bringUpTransport :: "world \<Rightarrow> bring_ctx \<Rightarrow> profile \<Rightarrow> wireguard_profile \<Rightarrow> string \<Rightarrow> start_fn \<Rightarrow> started sess" where
  "bringUpTransport W cx p w kind start = do {
     r \<leftarrow> start p w;
     let p' = fst (snd r); let w' = snd (snd r);
     e \<leftarrow> (case fst r of Some x \<Rightarrow> ret (Some (wrapf kind x)) | None \<Rightarrow> start_device W cx kind w');
     (if e = None then ret () else cleanup_candidate W cx kind p' w');
     ret (e, p', w') }"

section \<open>The candidates\<close>

type_synonym brought = "(go_err, string) result \<times> profile \<times> wireguard_profile"

definition host_offline_err :: "go_err \<Rightarrow> go_err" where
  "host_offline_err e = Wrap (sentinel_text ErrHostOffline @ '': '' @ err_text e) (Sentinel ErrHostOffline)"

definition exhausted_err :: "go_err list \<Rightarrow> go_err" where
  "exhausted_err failures = Wraps (sentinel_text ErrTransportExhausted @ '': '' @ err_text (cascade_failures failures))
     [Sentinel ErrTransportExhausted, cascade_failures failures]"

fun try_candidates :: "world \<Rightarrow> bring_ctx \<Rightarrow> bool \<Rightarrow> wireguard_profile \<Rightarrow> start_fn candidate list \<Rightarrow> profile \<Rightarrow> go_err list \<Rightarrow> brought sess" where
  "try_candidates W cx auto w [] p failures =
     ret (Inl (if \<not> auto \<and> length failures = 1 then hd failures else exhausted_err failures), p, w)"
| "try_candidates W cx auto w (c # cs) p failures = do {
     setConnectingTransportKind (cand_kind c);
     r \<leftarrow> bringUpTransport W cx p w (cand_kind c) (cand_start c);
     case r of (None, p', attempt) \<Rightarrow> ret (Inr (cand_kind c), p', attempt)
     | (Some e, p', _) \<Rightarrow> do {
         ended \<leftarrow> ctx_err W;
         case ended of Some x \<Rightarrow> ret (Inl x, p', w)
         | None \<Rightarrow> do {
             offline \<leftarrow> (if hostNetworkUnreachable e then ret True else hostOffline W);
             if offline then ret (Inl (host_offline_err e), p', w)
             else try_candidates W cx auto w cs p' (failures @ [e]) } } }"

definition startTransportWithHandshake :: "world \<Rightarrow> bring_ctx \<Rightarrow> profile \<Rightarrow> wireguard_profile \<Rightarrow> string \<Rightarrow> string \<Rightarrow> brought sess" where
  "startTransportWithHandshake W cx p w preferred networkKey =
    (case transportCandidates W p preferred of Inl e \<Rightarrow> ret (Inl e, p, w)
     | Inr candidates \<Rightarrow> do {
         ordered \<leftarrow> reorderByMemory candidates preferred networkKey;
         ordered \<leftarrow> applyRecoveryLead ordered;
         r \<leftarrow> try_candidates W cx (IsAuto preferred) w ordered p [];
         setConnectingTransportKind [];
         ret r })"

section \<open>The session behind the lock\<close>

definition startNetworkRepair :: "world \<Rightarrow> string list \<Rightarrow> unit sess" where
  "startNetworkRepair W names = (if \<not> w_networkRepair W \<or> names = [] then ret () else modify (\<lambda>s. s\<lparr>sv_repair := names\<rparr>))"

text \<open>The names of a repair that is still running.\<close>

definition cancelNetworkRepair :: "world \<Rightarrow> string list sess" where
  "cancelNetworkRepair W = do {
     finished \<leftarrow> call W (w_repairDone W) (\<lambda>_. Host);
     names \<leftarrow> gets sv_repair;
     modify (\<lambda>s. s\<lparr>sv_repair := []\<rparr>);
     ret (if finished then [] else names) }"

definition setCurrentProfile :: "world \<Rightarrow> profile \<Rightarrow> unit sess" where
  "setCurrentProfile W p = do {
     modify (\<lambda>s. s\<lparr>sv_profile := Some p\<rparr>);
     resetDNSProbe W;
     setTransportsExhausted False }"

definition setSessionOpts :: "world \<Rightarrow> connect_options \<Rightarrow> unit sess" where
  "setSessionOpts W opts = do {
     modify (\<lambda>s. s\<lparr>sv_opts := opts\<rparr>);
     p \<leftarrow> gets sv_profile;
     let pid = (case p of None \<Rightarrow> [] | Some x \<Rightarrow> p_id x);
     if pid = [] then ret ()
     else do {
       saved \<leftarrow> call W (w_saveRecord W) (\<lambda>_. Host);
       when_m saved (modify (\<lambda>s. s\<lparr>sv_record := Some \<lparr>sr_profileID = pid, sr_allowLAN = co_allowLAN opts,
         sr_lockdown = co_lockdown opts, sr_preferred = co_preferred opts\<rparr>\<rparr>)) } }"

definition holdBringUpOffline :: "world \<Rightarrow> nat \<Rightarrow> string \<Rightarrow> unit sess" where
  "holdBringUpOffline W netGen startKey = do {
     enterOfflineHold W netGen startKey;
     set_state W StateError offlineHoldDetail }"

definition adopt_brought :: "world \<Rightarrow> connect_options \<Rightarrow> string \<Rightarrow> string \<Rightarrow> profile \<Rightarrow> unit sess" where
  "adopt_brought W opts networkKey kind p = do {
     clearOfflineHold;
     clearUpstreamHold;
     setKeptDeviceDead False;
     setActiveTransportKind kind;
     rememberTransport W networkKey kind;
     refreshReachBaseline W networkKey p;
     setCurrentProfile W p;
     setSessionOpts W opts;
     resetEndpointRouteRepairs;
     set_state W StateConnected ''tunnel active'' }"

definition bring_up_with :: "world \<Rightarrow> bring_ctx \<Rightarrow> profile \<Rightarrow> connect_options \<Rightarrow> wireguard_profile \<Rightarrow> go_err option sess" where
  "bring_up_with W cx p opts w = do {
     set_state W StateConnecting ''starting transport'';
     netGen \<leftarrow> gets sv_netGen;
     networkKey \<leftarrow> currentNetworkKey W;
     r \<leftarrow> startTransportWithHandshake W cx p w (co_preferred opts) networkKey;
     case r of (Inl e, _) \<Rightarrow>
         if errors_Is ErrHostOffline e then do { holdBringUpOffline W netGen networkKey; ret (Some e) }
         else do { clearOfflineHold; setError W (''transport start failed: '' @ err_text e); ret (Some e) }
     | (Inr kind, p', _) \<Rightarrow> do { adopt_brought W opts networkKey kind p'; ret None } }"

definition bringUpAfterKillSwitch :: "world \<Rightarrow> bring_ctx \<Rightarrow> profile \<Rightarrow> connect_options \<Rightarrow> go_err option sess" where
  "bringUpAfterKillSwitch W cx p opts = do {
     interrupted \<leftarrow> cancelNetworkRepair W;
     splitCIDRs \<leftarrow> syncSplitForBringUp W p (co_allowLAN opts);
     e \<leftarrow> (case wireGuardProfileFor (w_hostname W) p (co_allowLAN opts) splitCIDRs of
         Inl e \<Rightarrow> do { setError W (''allow-lan config transform failed: '' @ err_text e); ret (Some e) }
       | Inr w \<Rightarrow> bring_up_with W cx p opts w);
     when_m (e \<noteq> None) (do { updateAppliedSplit (\<lambda>a. a\<lparr>ap_known := False\<rparr>); startNetworkRepair W interrupted });
     ret e }"

end
