(* ===== verification/Session_Ops.thy ===== *)
theory Session_Ops
  imports Session_Gate
begin

text \<open>The operations a user asks for, api/service.go and api/hub_proxy_permits.go: Connect with the adoption of a tunnel that
  is already up, and Switch, with the permits of a session and the records on disk they use.  Each holds opMu, so it is
  one function of the state; a background rebuild it interrupts has ended with a cancelled context before it begins.\<close>

section \<open>Records on disk\<close>

definition read_record :: "world \<Rightarrow> session_record option sess" where
  "read_record W = do { readable \<leftarrow> call W (w_readRecord W) (\<lambda>_. Host); r \<leftarrow> gets sv_record; ret (if readable then r else None) }"

definition recorded_id :: "session_record option \<Rightarrow> string" where
  "recorded_id r = (case r of None \<Rightarrow> [] | Some x \<Rightarrow> sr_profileID x)"

definition recordHubProxyPermits :: "world \<Rightarrow> string list \<Rightarrow> unit sess" where
  "recordHubProxyPermits W ips = do {
     written \<leftarrow> call W (w_hubPermitsWrite W) (\<lambda>_. Host);
     when_m written (modify (\<lambda>s. s\<lparr>sv_hubPermits := ips\<rparr>)) }"

definition loadHubProxyPermits :: "world \<Rightarrow> string list option sess" where
  "loadHubProxyPermits W = do {
     readable \<leftarrow> call W (w_hubPermitsRead W) (\<lambda>_. Host);
     ips \<leftarrow> gets sv_hubPermits;
     ret (if readable then Some ips else None) }"

definition permitsKeptAcrossRestart :: "world \<Rightarrow> string list sess" where
  "permitsKeptAcrossRestart W = do {
     ps \<leftarrow> config_profiles;
     current \<leftarrow> gets sv_profile;
     record \<leftarrow> read_record W;
     stored \<leftarrow> (if recorded_id record = [] then ret None else find_profile (recorded_id record));
     let permits = (\<lambda>p. case p of None \<Rightarrow> [] | Some x \<Rightarrow> ipLiterals (killSwitchPermits (w_hostname W) x));
     ret (ipLiterals (storedControlPlaneHosts ps) @ permits current @ permits stored) }"

definition noteHubProxyPermit :: "world \<Rightarrow> string \<Rightarrow> unit sess" where
  "noteHubProxyPermit W host = (case ipLiterals [host] of [] \<Rightarrow> ret ()
     | ip # _ \<Rightarrow> do {
         kept \<leftarrow> permitsKeptAcrossRestart W;
         if ip \<in> set kept then ret ()
         else do {
           loaded \<leftarrow> loadHubProxyPermits W;
           let recorded = (case loaded of None \<Rightarrow> [] | Some l \<Rightarrow> l);
           if ip \<in> set recorded then ret () else recordHubProxyPermits W (recorded @ [ip]) } })"

definition withoutHubProxyPermits :: "world \<Rightarrow> string list \<Rightarrow> string list sess" where
  "withoutHubProxyPermits W endpoints = do {
     loaded \<leftarrow> loadHubProxyPermits W;
     case loaded of None \<Rightarrow> ret endpoints
     | Some recorded \<Rightarrow>
         if recorded = [] then ret endpoints
         else do {
           kept \<leftarrow> permitsKeptAcrossRestart W;
           recordHubProxyPermits W [];
           ret (filter (\<lambda>ip. \<not> (ip \<in> set recorded \<and> ip \<notin> set kept)) endpoints) } }"

definition clearCurrentProfile :: "world \<Rightarrow> bool \<Rightarrow> unit sess" where
  "clearCurrentProfile W keepRecord = do {
     modify (\<lambda>s. s\<lparr>sv_profile := None\<rparr>);
     (if keepRecord then ret ()
      else do {
        removed \<leftarrow> call W (w_removeRecord W) (\<lambda>_. Host);
        when_m removed (modify (\<lambda>s. s\<lparr>sv_record := None\<rparr>)) });
     endDNSProbeSession;
     setTransportsExhausted False }"

section \<open>Permits of a session\<close>

definition hubProxyRemotes :: "world \<Rightarrow> string list sess" where
  "hubProxyRemotes W = do {
     r \<leftarrow> (case w_realityHub W of None \<Rightarrow> ret [] | Some f \<Rightarrow> do { h \<leftarrow> call W f (\<lambda>_. Host); ret [h] });
     s \<leftarrow> (case w_shadowsocksHub W of None \<Rightarrow> ret [] | Some f \<Rightarrow> do { h \<leftarrow> call W f (\<lambda>_. Host); ret [h] });
     ret (ipLiterals (r @ s)) }"

text \<open>The proxy nodes are added when a stored profile vouches for them, once each, and never a resolver of the tunnel.\<close>

definition proxy_only :: "string set \<Rightarrow> string list \<Rightarrow> string list \<Rightarrow> string list \<Rightarrow> string list" where
  "proxy_only vouched resolvers permits remotes = foldl (\<lambda>out remote.
     if remote \<in> vouched \<and> remote \<notin> set resolvers \<and> remote \<notin> set permits \<union> set out then out @ [remote] else out) [] remotes"

definition sessionKillSwitchPermits :: "world \<Rightarrow> profile \<Rightarrow> string list sess" where
  "sessionKillSwitchPermits W p = do {
     let permits = killSwitchPermits (w_hostname W) p;
     vouched \<leftarrow> vouched_now;
     remotes \<leftarrow> hubProxyRemotes W;
     let extra = proxy_only vouched (ipLiterals (dns_list (wg_dns (p_wireguard p)))) permits remotes;
     recordHubProxyPermits W extra;
     ret (permits @ extra) }"

section \<open>Tunnels that are already up\<close>

definition tunnel_running :: "world \<Rightarrow> profile \<Rightarrow> bool sess" where
  "tunnel_running W p = do {
     r \<leftarrow> wg_status_of W (p_wireguard p);
     ret (case r of Inl _ \<Rightarrow> False | Inr st \<Rightarrow> ws_running st) }"

fun running_among :: "world \<Rightarrow> profile list \<Rightarrow> profile list sess" where
  "running_among W [] = ret []"
| "running_among W (p # ps) = do { r \<leftarrow> tunnel_running W p; rest \<leftarrow> running_among W ps; ret (if r then p # rest else rest) }"

definition findRunningWireGuardProfiles :: "world \<Rightarrow> profile list sess" where
  "findRunningWireGuardProfiles W = do { ps \<leftarrow> config_profiles; running_among W ps }"

definition already_running :: "profile \<Rightarrow> string \<Rightarrow> go_err" where
  "already_running p what = Leaf (''wireguard tunnel '' @ wg_tunnelName (p_wireguard p) @ '' is already running; disconnect it before starting '' @ what)"

fun other_running :: "world \<Rightarrow> string \<Rightarrow> profile list \<Rightarrow> go_err option sess" where
  "other_running W requested [] = ret None"
| "other_running W requested (p # ps) =
    (if p_id p = requested then other_running W requested ps
     else do {
       r \<leftarrow> tunnel_running W p;
       if r then ret (Some (already_running p ''another profile'')) else other_running W requested ps })"

definition ensureNoOtherRunningWireGuard :: "world \<Rightarrow> string \<Rightarrow> go_err option sess" where
  "ensureNoOtherRunningWireGuard W requested = do { ps \<leftarrow> config_profiles; other_running W requested ps }"

definition ensureNoRunningWireGuard :: "world \<Rightarrow> profile \<Rightarrow> go_err option sess" where
  "ensureNoRunningWireGuard W p = do { r \<leftarrow> tunnel_running W p; ret (if r then Some (already_running p ''a new session'') else None) }"

text \<open>Cloak counts as running while anything else holds its port, or where that cannot be asked.\<close>

definition cloakStatusForProfile :: "world \<Rightarrow> profile \<Rightarrow> bool sess" where
  "cloakStatusForProfile W p = do {
     running \<leftarrow> tr_running W ''cloak'';
     let port = cl_localPort (p_cloak p);
     if running \<or> port \<le> 0 then ret running
     else do {
       owners \<leftarrow> call W (\<lambda>n. w_portOwners W n port) (\<lambda>_. Host);
       ret (case owners of Inl e \<Rightarrow> errors_Is ErrPortOwnersUnsupported e | Inr pids \<Rightarrow> pids \<noteq> []) } }"

definition releaseKeptDevice :: "world \<Rightarrow> profile \<Rightarrow> unit sess" where
  "releaseKeptDevice W live = do {
     e \<leftarrow> wg_stop W (withTransportBypassHosts (w_hostname W) live);
     (if e = None then setKeptDeviceDead False else ret ()) }"

definition kind_configured :: "profile \<Rightarrow> string \<Rightarrow> bool" where
  "kind_configured p kind \<longleftrightarrow> kind = ''naive'' \<and> p_naive p \<noteq> None \<or> kind = ''reality'' \<and> p_reality p \<noteq> None \<or>
     kind = ''hysteria2'' \<and> p_hysteria2 p \<noteq> None \<or> kind = ''shadowsocks'' \<and> p_shadowsocks p \<noteq> None \<or>
     kind = ''anytls'' \<and> p_anytls p \<noteq> None \<or> kind = ''snowflake'' \<and> p_snowflake p \<noteq> None"

definition restore_err :: "string \<Rightarrow> go_err \<Rightarrow> go_err" where
  "restore_err kind e = wrapf (''wireguard tunnel is already running but '' @ kind @ '' restore failed'') e"

definition restoreTransportForAdoption :: "world \<Rightarrow> profile \<Rightarrow> string \<Rightarrow> go_err option sess" where
  "restoreTransportForAdoption W p kind =
    (if kind = ''cloak'' then do {
       running \<leftarrow> cloakStatusForProfile W p;
       if running then ret None
       else do {
         set_state W StateConnecting ''restoring cloak for active tunnel'';
         e \<leftarrow> tr_start W ''cloak'' p;
         case e of Some x \<Rightarrow> ret (Some (restore_err ''cloak'' x))
         | None \<Rightarrow> do {
             up \<leftarrow> tr_running W ''cloak'';
             if \<not> up then ret (Some (Leaf ''wireguard tunnel is already running but cloak failed to stay running''))
             else do { rememberCloakRemote (p_cloak p); ret None } } } }
     else if managerForKind kind = None then ret (Some (Leaf (''unknown transport '' @ kind @ '' for adopted tunnel'')))
     else if kind = ''snowflake'' \<and> snowflakeReleaseGated then ret (Some (Leaf ''snowflake transport is temporarily unavailable''))
     else do {
       running \<leftarrow> tr_running W kind;
       if running then ret None
       else if \<not> kind_configured p kind
         then ret (Some (Leaf (''wireguard tunnel is already running but this profile has no '' @ kind @ '' configuration to restore'')))
       else do {
         set_state W StateConnecting (''restoring '' @ kind @ '' for active tunnel'');
         e \<leftarrow> tr_start W kind p;
         ret (map_option (restore_err kind) e) } })"

definition nonDisconnectingStates :: "daemon_state list" where
  "nonDisconnectingStates = [StateDisconnected, StateConnecting, StateConnected, StateError]"

definition adopt_kind :: "string \<Rightarrow> string" where
  "adopt_kind preferred = (if preferred = [] \<or> preferred = ''auto'' then ''cloak'' else preferred)"

definition attachToRunningSession :: "world \<Rightarrow> profile \<Rightarrow> string \<Rightarrow> (bool \<times> go_err option) sess" where
  "attachToRunningSession W p preferred = do {
     running \<leftarrow> tunnel_running W p;
     if \<not> running then ret (False, None)
     else do {
       held \<leftarrow> offlineHoldActive W;
       dead \<leftarrow> gets sv_keptDead;
       if held \<or> dead then do {
         current \<leftarrow> gets sv_profile;
         releaseKeptDevice W (case current of None \<Rightarrow> p | Some c \<Rightarrow> c);
         ret (False, None) }
       else do {
         setCurrentProfile W p;
         if preferred = transportKindWireGuard then do {
           setActiveTransportKind transportKindWireGuard;
           cas_state W nonDisconnectingStates StateConnected ''recovered active tunnel'';
           ret (True, None) }
         else do {
           e \<leftarrow> restoreTransportForAdoption W p (adopt_kind preferred);
           case e of Some x \<Rightarrow> ret (True, Some x)
           | None \<Rightarrow> do {
               setActiveTransportKind (adopt_kind preferred);
               cas_state W nonDisconnectingStates StateConnected ''recovered active tunnel'';
               ret (True, None) } } } } }"

definition armKillSwitchForAdoptedTunnel :: "world \<Rightarrow> profile \<Rightarrow> connect_options \<Rightarrow> go_err option sess" where
  "armKillSwitchForAdoptedTunnel W p opts = do {
     cidrs \<leftarrow> splitCIDRsFor W p (co_allowLAN opts);
     case wireGuardProfileFor (w_hostname W) p (co_allowLAN opts) cidrs of
       Inl e \<Rightarrow> ret (Some (wrapf ''allow-lan config transform failed'' e))
     | Inr w \<Rightarrow> do {
         set_state W StateConnecting ''arming kill switch for adopted tunnel'';
         permits \<leftarrow> sessionKillSwitchPermits W p;
         e \<leftarrow> ks_enable W permits (co_allowLAN opts) (co_lockdown opts);
         case e of Some x \<Rightarrow> ret (Some (wrapf ''kill switch enable failed for adopted tunnel'' x))
         | None \<Rightarrow> do {
             e \<leftarrow> permit_tunnel W w;
             case e of Some x \<Rightarrow> ret (Some (wrapf ''kill switch tunnel update failed for adopted tunnel'' x))
             | None \<Rightarrow> do {
                 applySplitLive W p (co_allowLAN opts) True;
                 set_state W StateConnected ''adopted tunnel active'';
                 ret None } } } }"

section \<open>Connect\<close>

definition fail_with :: "world \<Rightarrow> go_err \<Rightarrow> go_err option sess" where
  "fail_with W e = do { setError W (err_text e); ret (Some e) }"

definition fail_at :: "world \<Rightarrow> string \<Rightarrow> go_err \<Rightarrow> go_err option sess" where
  "fail_at W what e = do { setError W (what @ '': '' @ err_text e); ret (Some e) }"

text \<open>Nothing of the session has changed before the lock is up.\<close>

definition connect_locked :: "world \<Rightarrow> profile \<Rightarrow> connect_options \<Rightarrow> go_err option sess" where
  "connect_locked W p opts = do {
     set_state W StateConnecting ''enabling kill switch'';
     permits \<leftarrow> sessionKillSwitchPermits W p;
     e \<leftarrow> ks_enable W permits (co_allowLAN opts) (co_lockdown opts);
     case e of Some x \<Rightarrow> fail_at W ''kill switch enable failed'' x
     | None \<Rightarrow> do {
         setCurrentProfile W p;
         setSessionOpts W opts;
         e \<leftarrow> bringUpAfterKillSwitch W plain_ctx p opts;
         (case e of None \<Rightarrow> ret ()
          | Some x \<Rightarrow> if errors_Is ErrHostOffline x then ret () else deferRecovery W connectRetryGrace);
         ret e } }"

definition connect_fresh :: "world \<Rightarrow> profile \<Rightarrow> connect_options \<Rightarrow> go_err option sess" where
  "connect_fresh W p opts = do {
     cidrs \<leftarrow> splitCIDRsFor W p (co_allowLAN opts);
     case wireGuardProfileFor (w_hostname W) p (co_allowLAN opts) cidrs of
       Inl e \<Rightarrow> fail_at W ''allow-lan config transform failed'' e
     | Inr w \<Rightarrow> do {
         e \<leftarrow> wg_preflight W w;
         case e of Some x \<Rightarrow> fail_at W ''wireguard preflight failed'' x
         | None \<Rightarrow> do {
             e \<leftarrow> ensureNoOtherRunningWireGuard W (p_id p);
             case e of Some x \<Rightarrow> fail_with W x
             | None \<Rightarrow> do {
                 e \<leftarrow> ensureNoRunningWireGuard W p;
                 case e of Some x \<Rightarrow> fail_with W x
                 | None \<Rightarrow> connect_locked W p opts } } } }"

definition connect_adopted :: "world \<Rightarrow> profile \<Rightarrow> connect_options \<Rightarrow> go_err option sess" where
  "connect_adopted W p opts = do {
     e \<leftarrow> armKillSwitchForAdoptedTunnel W p opts;
     case e of Some x \<Rightarrow> fail_with W x | None \<Rightarrow> do { setSessionOpts W opts; ret None } }"

definition connect_session :: "world \<Rightarrow> profile \<Rightarrow> connect_options \<Rightarrow> go_err option sess" where
  "connect_session W p opts = do {
     interrupted \<leftarrow> cancelNetworkRepair W;
     a \<leftarrow> attachToRunningSession W p (co_preferred opts);
     e \<leftarrow> (case a of (_, Some x) \<Rightarrow> fail_with W x
       | (True, None) \<Rightarrow> connect_adopted W p opts
       | (False, None) \<Rightarrow> connect_fresh W p opts);
     when_m (e \<noteq> None) (startNetworkRepair W interrupted);
     ret e }"

definition other_active :: "profile \<Rightarrow> profile \<Rightarrow> go_err" where
  "other_active active p = Leaf (''profile '' @ p_id active @ '' is active; disconnect before connecting profile '' @ p_id p)"

definition connect_profile :: "world \<Rightarrow> profile \<Rightarrow> connect_options \<Rightarrow> go_err option sess" where
  "connect_profile W p opts = do {
     current \<leftarrow> get_state;
     active \<leftarrow> gets sv_profile;
     if current = StateConnecting \<or> current = StateDisconnecting then ret (Some (Leaf ''daemon busy''))
     else (case (current = StateConnected, active) of
         (True, Some a) \<Rightarrow> if p_id a = p_id p then ret None else fail_with W (other_active a p)
       | _ \<Rightarrow> connect_session W p opts) }"

definition profile_not_found :: "string \<Rightarrow> go_err" where
  "profile_not_found pid = Leaf (''profile not found: '' @ pid)"

definition Connect :: "world \<Rightarrow> string \<Rightarrow> connect_options \<Rightarrow> go_err option sess" where
  "Connect W pid opts = do {
     clearUpstreamHold;
     takeRecoveryLead;
     found \<leftarrow> find_profile pid;
     e \<leftarrow> (case found of None \<Rightarrow> ret (Some (profile_not_found pid))
       | Some p \<Rightarrow> (case validateProfile p of Some x \<Rightarrow> ret (Some x)
           | None \<Rightarrow> connect_profile W (ApplyHop p) opts));
     kickSplitReconcileIfPending;
     ret e }"

section \<open>Switch\<close>

definition refuse_switch :: "world \<Rightarrow> daemon_state \<Rightarrow> profile \<Rightarrow> string \<Rightarrow> go_err \<Rightarrow> go_err option sess" where
  "refuse_switch W current old what e = do {
     set_state W current (''staying on '' @ p_id old @ '': '' @ what @ '': '' @ err_text e);
     ret (Some e) }"

definition switching_to :: "profile \<Rightarrow> string \<Rightarrow> string" where
  "switching_to p what = ''switching to '' @ p_id p @ '': '' @ what"

text \<open>Adapter reuse: the new routes are pinned while the old tunnel is up.\<close>

definition pin_new_routes :: "world \<Rightarrow> profile \<Rightarrow> wireguard_profile \<Rightarrow> bool sess" where
  "pin_new_routes W old w = (case w_pin W of None \<Rightarrow> ret False
     | Some f \<Rightarrow> do {
         up \<leftarrow> deviceRunning W old;
         if \<not> up then ret False
         else do { e \<leftarrow> call W (\<lambda>n. f n w) (WgPin w); ret (e = None) } })"

definition switch_over :: "world \<Rightarrow> profile \<Rightarrow> profile \<Rightarrow> connect_options \<Rightarrow> wireguard_profile \<Rightarrow> go_err option sess" where
  "switch_over W old new opts w = do {
     keepDevice \<leftarrow> pin_new_routes W old w;
     (if keepDevice then ret ()
      else do {
        set_state W StateConnecting (switching_to new ''stopping wireguard'');
        wg_stop W (withTransportBypassHosts (w_hostname W) old);
        ret () });
     set_state W StateConnecting (switching_to new ''stopping transport'');
     stop_active W;
     setActiveTransportKind [];
     setCurrentProfile W new;
     setSessionOpts W opts;
     e \<leftarrow> bringUpAfterKillSwitch W (plain_ctx\<lparr>cx_keep := keepDevice\<rparr>) new opts;
     (case e of None \<Rightarrow> ret ()
      | Some x \<Rightarrow>
          if errors_Is ErrHostOffline x then when_m keepDevice (setKeptDeviceDead True)
          else do { when_m keepDevice (releaseKeptDevice W new); deferRecovery W connectRetryGrace });
     ret e }"

definition switch_session :: "world \<Rightarrow> daemon_state \<Rightarrow> profile \<Rightarrow> profile \<Rightarrow> connect_options \<Rightarrow> go_err option sess" where
  "switch_session W current old new opts = do {
     cidrs \<leftarrow> splitCIDRsFor W new (co_allowLAN opts);
     case wireGuardProfileFor (w_hostname W) new (co_allowLAN opts) cidrs of
       Inl e \<Rightarrow> refuse_switch W current old ''allow-lan config transform failed'' e
     | Inr w \<Rightarrow> do {
         e \<leftarrow> wg_preflight W w;
         case e of Some x \<Rightarrow> refuse_switch W current old ''wireguard preflight failed'' x
         | None \<Rightarrow> do {
             set_state W StateConnecting (switching_to new ''updating kill switch'');
             permits \<leftarrow> sessionKillSwitchPermits W new;
             e \<leftarrow> ks_enable W permits (co_allowLAN opts) (co_lockdown opts);
             case e of Some x \<Rightarrow> refuse_switch W current old ''kill switch re-enable failed'' x
             | None \<Rightarrow> switch_over W old new opts w } } }"

definition switch_from :: "world \<Rightarrow> daemon_state \<Rightarrow> profile option \<Rightarrow> string \<Rightarrow> connect_options \<Rightarrow> go_err option sess" where
  "switch_from W current old pid opts =
    (if current \<noteq> StateConnected \<and> \<not> (current = StateError \<and> old \<noteq> None)
     then ret (Some (Leaf ''switch requires connected state''))
     else case old of None \<Rightarrow> ret (Some (Leaf ''no active profile to switch from''))
     | Some o' \<Rightarrow> do {
         found \<leftarrow> find_profile pid;
         (case found of None \<Rightarrow> ret (Some (profile_not_found pid))
          | Some new \<Rightarrow>
              if p_id new = p_id o' then ret None
              else (case validateProfile new of Some e \<Rightarrow> ret (Some e)
                | None \<Rightarrow> switch_session W current o' (ApplyHop new) opts)) })"

definition Switch :: "world \<Rightarrow> string \<Rightarrow> connect_options \<Rightarrow> go_err option sess" where
  "Switch W pid opts = do {
     clearUpstreamHold;
     takeRecoveryLead;
     current \<leftarrow> get_state;
     old \<leftarrow> gets sv_profile;
     e \<leftarrow> switch_from W current old pid opts;
     kickSplitReconcileIfPending;
     ret e }"

end
