(* ===== verification/Session_End.thy ===== *)
theory Session_End
  imports Session_Ops
begin

text \<open>Ending a session and the kill-switch requests, api/service.go and api/boot_lock.go.  Only a user Disconnect or
  the manual clear lowers the lock: under Lockdown it stays, narrowed to the hub, and a shutdown leaves it as it is.\<close>

section \<open>Disconnect\<close>

datatype teardown = TeardownUser | TeardownLockdown | TeardownShutdown

definition tunnel_name :: "profile \<Rightarrow> string" where
  "tunnel_name p = trim_space (wg_tunnelName (p_wireguard p))"

text \<open>The profiles to stop: each tunnel name once, case ignored.\<close>

fun distinct_tunnels :: "string list \<Rightarrow> profile list \<Rightarrow> profile list" where
  "distinct_tunnels seen [] = []"
| "distinct_tunnels seen (p # ps) =
    (if tunnel_name p = [] \<or> to_lower (tunnel_name p) \<in> set seen then distinct_tunnels seen ps
     else p # distinct_tunnels (to_lower (tunnel_name p) # seen) ps)"

fun verify_stopped :: "world \<Rightarrow> profile list \<Rightarrow> string list sess" where
  "verify_stopped W [] = ret []"
| "verify_stopped W (p # ps) = do {
     r \<leftarrow> wg_status_of W (withTransportBypassHosts (w_hostname W) p);
     rest \<leftarrow> verify_stopped W ps;
     ret (case r of Inl _ \<Rightarrow> rest
       | Inr st \<Rightarrow> if ws_running st
           then (''wireguard tunnel '' @ wg_tunnelName (p_wireguard p) @ '' still running ('' @ ws_detail st @ '')'') # rest
           else rest) }"

definition dropTunnelPermit :: "world \<Rightarrow> unit sess" where
  "dropTunnelPermit W = (case w_ksDrop W of None \<Rightarrow> ret () | Some f \<Rightarrow> do { call W f KsDrop; ret () })"

definition releaseOrphanedLockSettings :: "world \<Rightarrow> unit sess" where
  "releaseOrphanedLockSettings W = (case w_ksRelease W of None \<Rightarrow> ret () | Some f \<Rightarrow> do { call W f KsRelease; ret () })"

definition failure_of :: "string \<Rightarrow> go_err option \<Rightarrow> string list" where
  "failure_of what e = (case e of None \<Rightarrow> [] | Some x \<Rightarrow> [what @ '': '' @ err_text x])"

definition hub_permits :: "string list sess" where
  "hub_permits = do { ps \<leftarrow> config_profiles; ret (ipLiterals (storedControlPlaneHosts ps)) }"

text \<open>What the lock does once the session is gone, and what of it failed.\<close>

definition settle_lock :: "world \<Rightarrow> teardown \<Rightarrow> string list sess" where
  "settle_lock W mode = do {
     active \<leftarrow> ks_active W;
     if active then (case mode of
         TeardownShutdown \<Rightarrow> ret []
       | TeardownLockdown \<Rightarrow> do {
           e1 \<leftarrow> clearSplitPermits W;
           dropTunnelPermit W;
           permits \<leftarrow> hub_permits;
           e2 \<leftarrow> ks_enable W permits False True;
           ret (failure_of ''dropping the split-tunnel range permits failed'' e1 @ failure_of ''lockdown re-arm after disconnect failed'' e2) }
       | TeardownUser \<Rightarrow> do {
           set_state W StateDisconnecting ''clearing kill switch'';
           e \<leftarrow> ks_clear W;
           (if e = None then ret () else do { clearSplitPermits W; ret () });
           ret (failure_of ''kill switch clear failed'' e) })
     else if mode \<noteq> TeardownShutdown then do { clearSplitPermits W; ret [] }
     else ret [] }"

definition stop_tunnels :: "world \<Rightarrow> profile list \<Rightarrow> unit sess" where
  "stop_tunnels W ps = for_each ps (\<lambda>p. do { wg_stop W (withTransportBypassHosts (w_hostname W) p); ret () })"

definition disconnect_body :: "world \<Rightarrow> teardown \<Rightarrow> go_err option sess" where
  "disconnect_body W mode = do {
     prof \<leftarrow> gets sv_profile;
     set_state W StateDisconnecting ''stopping wireguard'';
     running \<leftarrow> findRunningWireGuardProfiles W;
     let tunnels = distinct_tunnels [] ((case prof of None \<Rightarrow> [] | Some p \<Rightarrow> [p]) @ running);
     stop_tunnels W tunnels;
     set_state W StateDisconnecting ''verifying wireguard'';
     up \<leftarrow> verify_stopped W tunnels;
     set_state W StateDisconnecting ''stopping transport'';
     stop_active W;
     setActiveTransportKind [];
     clearCurrentProfile W (mode = TeardownShutdown);
     resetRecovery;
     resetEndpointRouteRepairs;
     failed \<leftarrow> settle_lock W mode;
     resetAppliedSplit;
     set_state W StateDisconnected ''idle'';
     startNetworkRepair W (map tunnel_name tunnels);
     ret (if up @ failed = [] then None
       else Some (Wrap (sentinel_text ErrDisconnectIncomplete @ '': '' @ join ''; '' (up @ failed)) (Sentinel ErrDisconnectIncomplete))) }"

definition disconnect :: "world \<Rightarrow> teardown \<Rightarrow> go_err option sess" where
  "disconnect W mode = do {
     current \<leftarrow> get_state;
     if current = StateDisconnecting then ret None else disconnect_body W mode }"

definition Disconnect :: "world \<Rightarrow> bool \<Rightarrow> go_err option sess" where
  "Disconnect W keepKillSwitch = disconnect W (if keepKillSwitch then TeardownLockdown else TeardownUser)"

definition Shutdown :: "world \<Rightarrow> go_err option sess" where
  "Shutdown W = disconnect W TeardownShutdown"

section \<open>The lock on its own\<close>

definition orphanedLockDetail :: string where
  "orphanedLockDetail = ''kill switch is holding traffic; press Connect or Disconnect''"

definition sessionHeld :: "world \<Rightarrow> string option sess" where
  "sessionHeld W = do {
     m \<leftarrow> gets sv_machine;
     current \<leftarrow> gets sv_profile;
     if m_state m \<in> set [StateConnecting, StateConnected, StateDisconnecting] then ret (Some ''the daemon is busy with a session'')
     else if m_state m = StateError \<and> m_detail m = orphanedLockDetail then ret (Some ''the lock of the previous session is still holding'')
     else if current \<noteq> None then ret (Some ''a session is being recovered'')
     else do {
       record \<leftarrow> read_record W;
       ret (if recorded_id record = [] then None else Some ''the last session was never disconnected'') } }"

definition held_err :: "string \<Rightarrow> go_err" where
  "held_err why = Wrap (sentinel_text ErrSessionHeld @ '': '' @ why) (Sentinel ErrSessionHeld)"

definition ClearKillSwitch :: "world \<Rightarrow> go_err option sess" where
  "ClearKillSwitch W = do {
     active \<leftarrow> ks_active W;
     if \<not> active then do { releaseOrphanedLockSettings W; ret None }
     else do {
       held \<leftarrow> sessionHeld W;
       case held of Some why \<Rightarrow> ret (Some (held_err why)) | None \<Rightarrow> ks_clear W } }"

definition sessionInProgress :: "bool sess" where
  "sessionInProgress = gets (\<lambda>s. m_state (sv_machine s) \<in> set [StateConnecting, StateConnected, StateDisconnecting] \<or> sv_profile s \<noteq> None)"

definition routeAroundTunnel :: "world \<Rightarrow> string list \<Rightarrow> unit sess" where
  "routeAroundTunnel W hosts = do {
     current \<leftarrow> gets sv_profile;
     case (w_pin W, current) of (Some f, Some p) \<Rightarrow> do {
         let w = (p_wireguard p)\<lparr>wg_bypassHosts := hosts\<rparr>;
         call W (\<lambda>n. f n w) (WgPin w);
         ret () }
     | _ \<Rightarrow> ret () }"

definition widen_lock :: "world \<Rightarrow> string list \<Rightarrow> go_err option sess" where
  "widen_lock W permits = do {
     persisted \<leftarrow> ks_load W;
     case persisted of Inl e \<Rightarrow> ret (Some (wrapf ''read kill switch state'' e))
     | Inr k \<Rightarrow>
         if \<not> kp_active k then ret (Some (Leaf ''kill switch is active but no persisted state describes it; refusing to re-apply''))
         else let merged = mergeUniqueSorted (kp_endpoints k) permits in
           if merged = sortedCopy (kp_endpoints k) then ret None
           else ks_enable W merged (kp_allowLAN k) (kp_locked k) }"

definition unvouched_err :: "string list \<Rightarrow> go_err" where
  "unvouched_err unknown = Wrap (sentinel_text ErrPermitUnvouched @ '': '' @ join '' '' unknown) (Sentinel ErrPermitUnvouched)"

definition PermitHosts :: "world \<Rightarrow> string list \<Rightarrow> go_err option sess" where
  "PermitHosts W hosts = do {
     active \<leftarrow> ks_active W;
     if \<not> active then ret None
     else do {
       hub \<leftarrow> hub_permits;
       let permits = (if ipLiterals hosts = [] then hub else ipLiterals hosts);
       if permits = [] then ret (Some (Leaf ''no control-plane IP to permit: none supplied and no provisioned profile carries one''))
       else do {
         ps \<leftarrow> config_profiles;
         busy \<leftarrow> sessionInProgress;
         let unknown = unvouchedPermits ps permits;
         if unknown \<noteq> [] \<and> busy then ret (Some (unvouched_err unknown))
         else do { routeAroundTunnel W permits; widen_lock W permits } } } }"

definition markKillSwitchLocked :: "world \<Rightarrow> bool \<Rightarrow> go_err option sess" where
  "markKillSwitchLocked W allowLAN = do {
     persisted \<leftarrow> ks_load W;
     case persisted of Inl _ \<Rightarrow> ret None
     | Inr k \<Rightarrow>
         if \<not> kp_active k \<or> kp_locked k then ret None
         else do { ks_enable W (kp_endpoints k) (allowLAN \<or> kp_allowLAN k) True; ret None } }"

definition EngageKillSwitch :: "world \<Rightarrow> bool \<Rightarrow> go_err option sess" where
  "EngageKillSwitch W allowLAN = do {
     active \<leftarrow> ks_active W;
     if active then markKillSwitchLocked W allowLAN
     else do { permits \<leftarrow> hub_permits; ks_enable W permits allowLAN True } }"

definition ArmBootLock :: "world \<Rightarrow> go_err option sess" where
  "ArmBootLock W = do {
     persisted \<leftarrow> ks_load W;
     case persisted of Inl e \<Rightarrow> ret (Some (wrapf ''arm boot lock'' e))
     | Inr k \<Rightarrow>
         if \<not> kp_active k then ret None
         else do { e \<leftarrow> ks_enable W (kp_endpoints k) (kp_allowLAN k) (kp_locked k); ret (map_option (wrapf ''arm boot lock'') e) } }"

text \<open>A hub proxy's node is let out before it is dialled; \<open>run\<close> is the proxy's own start.\<close>

definition start_proxy :: "world \<Rightarrow> string \<Rightarrow> (nat \<Rightarrow> (go_err, int) result) option \<Rightarrow> string \<Rightarrow> (go_err, int) result sess" where
  "start_proxy W name run host0 = (case run of None \<Rightarrow> ret (Inl (Leaf (name @ '' proxy is not available'')))
     | Some f \<Rightarrow> do {
         let host = trim_space host0;
         (if host = [] then ret () else do { noteHubProxyPermit W host; PermitHosts W [host]; ret () });
         call W f (\<lambda>_. Host) })"

definition StartShadowsocksProxy :: "world \<Rightarrow> (nat \<Rightarrow> (go_err, int) result) option \<Rightarrow> shadowsocks_profile \<Rightarrow> (go_err, int) result sess" where
  "StartShadowsocksProxy W run p = start_proxy W ''shadowsocks'' run (ss_remoteHost p)"

definition StartRealityProxy :: "world \<Rightarrow> (nat \<Rightarrow> (go_err, int) result) option \<Rightarrow> reality_profile \<Rightarrow> (go_err, int) result sess" where
  "StartRealityProxy W run p = start_proxy W ''reality'' run (re_remoteHost p)"

definition ClearTransportMemory :: "world \<Rightarrow> bool sess" where
  "ClearTransportMemory W = do {
     m \<leftarrow> gets sv_memory;
     case m of None \<Rightarrow> ret True
     | Some store \<Rightarrow> do {
         written \<leftarrow> call W (w_memoryWrites W) (\<lambda>_. Host);
         modify (\<lambda>s. s\<lparr>sv_memory := Some (fst (tmClear written store))\<rparr>);
         ret (snd (tmClear written store)) } }"

section \<open>Configuration\<close>

definition hasProfileID :: "profile list \<Rightarrow> string \<Rightarrow> bool" where
  "hasProfileID ps pid = list_ex (\<lambda>p. p_id p = pid) ps"

text \<open>The profile a session runs on stays in the store until the session ends.\<close>

definition keep_live :: "profile option \<Rightarrow> config_store \<Rightarrow> config \<Rightarrow> config" where
  "keep_live live store cfg = (case live of None \<Rightarrow> cfg
     | Some l \<Rightarrow>
         if hasProfileID (profs cfg) (p_id l) then cfg
         else cfg\<lparr>c_profiles := Some (profs cfg @ [case FindProfile (p_id l) store of Some q \<Rightarrow> q | None \<Rightarrow> l])\<rparr>)"

definition UpdateConfig :: "codec_enc \<Rightarrow> fault \<Rightarrow> bool \<Rightarrow> config \<Rightarrow> bool sess" where
  "UpdateConfig enc flt locked cfg = do {
     live \<leftarrow> gets sv_profile;
     store \<leftarrow> gets sv_config;
     let r = csSet enc flt locked (keep_live live store cfg) store;
     modify (\<lambda>s. s\<lparr>sv_config := fst r\<rparr>);
     ret (snd r) }"

end
