(* ===== verification/Session_Health.thy ===== *)
theory Session_Health
  imports Session_End
begin

text \<open>The daemon's own operations, api/service.go, api/dns_probe.go, api/route_guard.go and api/upstream_hold.go: one tick of
  the health check with what it escalates to, and the rebuild of a session that dropped.  A tick holds opMu only while
  it rebuilds or restarts; \<open>M\<close> is what other operations do in between.\<close>

section \<open>Is the tunnel still carrying traffic\<close>

definition ensureTunnelDNS :: "world \<Rightarrow> profile \<Rightarrow> unit sess" where
  "ensureTunnelDNS W p = (case w_ensureDNS W of None \<Rightarrow> ret ()
     | Some f \<Rightarrow> do {
         t \<leftarrow> now W;
         due \<leftarrow> gets (\<lambda>s. sv_dnsGuardNext s \<le> t);
         if \<not> due then ret ()
         else do {
           r \<leftarrow> call W (\<lambda>n. f n (p_wireguard p)) (\<lambda>_. WgOther);
           if snd r = None \<and> fst r then do { t \<leftarrow> now W; modify (\<lambda>s. s\<lparr>sv_dnsGuardNext := t + dnsGuardCorrectionCooldown\<rparr>) }
           else ret () } })"

definition ensureEndpointRoutes :: "world \<Rightarrow> profile \<Rightarrow> bool sess" where
  "ensureEndpointRoutes W p = (case w_routes W of None \<Rightarrow> ret False
     | Some f \<Rightarrow> do {
         r \<leftarrow> call W (\<lambda>n. f n (p_wireguard p)) (\<lambda>_. WgOther);
         if snd r \<noteq> None then do { recordEndpointRouteRepair; ret False }
         else if \<not> fst r then do { resetEndpointRouteRepairs; ret False }
         else do { repairs \<leftarrow> recordEndpointRouteRepair; ret (repairs \<le> maxEndpointRouteRepairDeferrals) } })"

datatype round_end = RoundAnswered | RoundUnknown | RoundFailed

fun probe_round :: "world \<Rightarrow> string \<Rightarrow> string list \<Rightarrow> round_end sess" where
  "probe_round W iface [] = ret RoundFailed"
| "probe_round W iface (server # servers) = do {
     err \<leftarrow> probe_call W iface server;
     case err of None \<Rightarrow> ret RoundAnswered
     | Some e \<Rightarrow>
         if errors_Is ErrProbeConnRefused e \<or> errors_Is ErrProbeOversized e then ret RoundAnswered
         else if errors_Is ErrProbeInconclusive e \<or> errors_Is ErrProbeNotReady e then ret RoundUnknown
         else probe_round W iface servers }"

definition rx_rescued :: "world \<Rightarrow> profile \<Rightarrow> int option \<Rightarrow> bool sess" where
  "rx_rescued W p rxBefore = (case rxBefore of None \<Rightarrow> ret False
     | Some before \<Rightarrow> do {
         after \<leftarrow> peerRxBytes W (p_wireguard p);
         ret (case after of None \<Rightarrow> False | Some n \<Rightarrow> dataPathRescueBytes \<le> n - before) })"

definition dataPathIsDead :: "world \<Rightarrow> unit sess \<Rightarrow> profile \<Rightarrow> bool sess" where
  "dataPathIsDead W M p =
    (if \<not> canProveDataPath W p then ret False
     else do {
       due \<leftarrow> dnsProbeDue W;
       if \<not> due then ret False
       else do {
         servers \<leftarrow> probeServerOrder W (probe_servers (p_wireguard p));
         iface \<leftarrow> resolveWireGuardInterfaceName W (p_wireguard p);
         rxBefore \<leftarrow> peerRxBytes W (p_wireguard p);
         r \<leftarrow> probe_round W iface servers;
         M;
         case r of RoundAnswered \<Rightarrow> do { recordDNSProbeSuccess; ret False }
         | RoundUnknown \<Rightarrow> ret False
         | RoundFailed \<Rightarrow> do {
             moved \<leftarrow> sessionMoved (p_id p);
             if moved then ret False
             else do {
               rescued \<leftarrow> rx_rescued W p rxBefore;
               if rescued then do { recordDNSProbeSuccess; ret False }
               else do { v \<leftarrow> recordDNSProbeFailure W; ret (snd v) } } } } })"

section \<open>Rebuilding a session\<close>

text \<open>TryLock on opMu, with the cancel slot claimed before it.\<close>

definition try_op :: "world \<Rightarrow> bool sess" where
  "try_op W = call W (w_opFree W) (\<lambda>_. Host)"

definition rearm_if_down :: "world \<Rightarrow> profile \<Rightarrow> connect_options \<Rightarrow> go_err option sess" where
  "rearm_if_down W p opts = do {
     active \<leftarrow> ks_active W;
     if active then ret None
     else do {
       permits \<leftarrow> sessionKillSwitchPermits W p;
       e \<leftarrow> ks_enable W permits (co_allowLAN opts) (co_lockdown opts);
       ret (map_option (wrapf ''kill switch re-arm failed'') e) } }"

text \<open>A manager that switches in place keeps the device; its old handshake is no longer proof.\<close>

definition rebuild_ctx :: "world \<Rightarrow> wireguard_profile \<Rightarrow> bring_ctx sess" where
  "rebuild_ctx W w = (case w_pin W of None \<Rightarrow> ret (plain_ctx\<lparr>cx_budget := Some rebuildHandshakeTimeout\<rparr>)
     | Some _ \<Rightarrow> do {
         r \<leftarrow> wg_status_of W w;
         ret (case r of Inl _ \<Rightarrow> plain_ctx\<lparr>cx_budget := Some rebuildHandshakeTimeout\<rparr>
           | Inr st \<Rightarrow> \<lparr>cx_budget = Some rebuildHandshakeTimeout, cx_min = ws_handshake st, cx_keep = True\<rparr>) })"

definition after_rebuild :: "world \<Rightarrow> profile \<Rightarrow> bool \<Rightarrow> go_err option \<Rightarrow> unit sess" where
  "after_rebuild W live keepDevice e = (case e of None \<Rightarrow> ret ()
     | Some x \<Rightarrow> do {
         c \<leftarrow> ctx_err W;
         if \<not> keepDevice then ret ()
         else if errors_Is ErrHostOffline x \<or> c \<noteq> None then setKeptDeviceDead True
         else releaseKeptDevice W live })"

definition rebuild_armed :: "world \<Rightarrow> profile \<Rightarrow> profile \<Rightarrow> connect_options \<Rightarrow> wireguard_profile \<Rightarrow> go_err option sess" where
  "rebuild_armed W live p opts w = do {
     set_state W StateConnecting ''rebuilding silent tunnel'';
     cx \<leftarrow> rebuild_ctx W w;
     (if cx_keep cx then ret () else do { wg_stop W (withTransportBypassHosts (w_hostname W) live); ret () });
     stop_active W;
     setActiveTransportKind [];
     e \<leftarrow> bringUpAfterKillSwitch W cx p opts;
     after_rebuild W live (cx_keep cx) e;
     ret e }"

text \<open>The profile is the stored one.\<close>

definition rebuild_locked :: "world \<Rightarrow> profile \<Rightarrow> go_err option sess" where
  "rebuild_locked W live = do {
     current \<leftarrow> get_state;
     if current \<noteq> StateConnected \<and> current \<noteq> StateError then ret (Some (Leaf ''state changed''))
     else do {
       stored \<leftarrow> find_profile (p_id live);
       let p = (case stored of Some q \<Rightarrow> q | None \<Rightarrow> live);
       opts \<leftarrow> gets sv_opts;
       cidrs \<leftarrow> splitCIDRsFor W p (co_allowLAN opts);
       case wireGuardProfileFor (w_hostname W) p (co_allowLAN opts) cidrs of
         Inl e \<Rightarrow> ret (Some (wrapf ''allow-lan config transform failed'' e))
       | Inr w \<Rightarrow> do {
           e \<leftarrow> rearm_if_down W p opts;
           case e of Some x \<Rightarrow> ret (Some x) | None \<Rightarrow> rebuild_armed W live p opts w } } }"

definition rebuildSilentSession :: "world \<Rightarrow> profile \<Rightarrow> go_err option sess" where
  "rebuildSilentSession W live = do {
     got \<leftarrow> try_op W;
     if \<not> got then ret (Some (Sentinel ErrRebuildBusy))
     else do { e \<leftarrow> rebuild_locked W live; kickSplitReconcileIfPending; ret e } }"

definition failed_attempt :: "world \<Rightarrow> string \<Rightarrow> nat \<Rightarrow> go_err \<Rightarrow> unit sess" where
  "failed_attempt W cause attempt e = do {
     delay \<leftarrow> scheduleNextRecovery W attempt;
     stamped \<leftarrow> cas_state W [StateConnected, StateError] StateError
       (cause @ '' and reconnect attempt '' @ itoa (int attempt) @ '' failed: '' @ err_text e @ ''; retrying in '' @ itoa delay @ ''ms'');
     when_m (\<not> stamped) resetRecovery }"

definition book_attempt :: "world \<Rightarrow> string \<Rightarrow> go_err option \<Rightarrow> unit sess" where
  "book_attempt W cause err = do {
     setTransportsExhausted (is_err ErrTransportExhausted err \<and> \<not> unreachable_opt err);
     attempt \<leftarrow> beginRecoveryAttempt;
     case err of Some e \<Rightarrow> failed_attempt W cause attempt e | None \<Rightarrow> resetRecovery }"

definition attemptSessionRebuild :: "world \<Rightarrow> unit sess \<Rightarrow> profile \<Rightarrow> string \<Rightarrow> bool sess" where
  "attemptSessionRebuild W M p cause = do {
     setTransportsExhausted False;
     M;
     err \<leftarrow> rebuildSilentSession W p;
     if is_err ErrRebuildBusy err then ret False
     else if is_err CtxCanceled err \<or> is_err ErrHostOffline err then ret True
     else do {
       held \<leftarrow> holdIfNetworkSilent W M p err;
       when_m (\<not> held) (book_attempt W cause err);
       ret True } }"

section \<open>Dropped and dead sessions\<close>

definition sessionIsHealthy :: "world \<Rightarrow> profile \<Rightarrow> bool sess" where
  "sessionIsHealthy W p = do {
     active \<leftarrow> ks_active W;
     kind \<leftarrow> gets sv_active;
     if \<not> active \<or> kind = [] then ret False
     else do {
       r \<leftarrow> wg_status_of W (p_wireguard p);
       case r of Inl _ \<Rightarrow> ret False
       | Inr st \<Rightarrow>
           if \<not> ws_running st \<or> ws_handshake st \<le> 0 then ret False
           else do { stale \<leftarrow> wireGuardHandshakeStale W st; ret (\<not> stale) } } }"

definition retry_dropped :: "world \<Rightarrow> unit sess \<Rightarrow> profile \<Rightarrow> unit sess" where
  "retry_dropped W M p = do {
     healthy \<leftarrow> sessionIsHealthy W p;
     if healthy then do {
       cas_state W [StateError] StateConnected ''tunnel active'';
       resetRecovery }
     else do {
       usable \<leftarrow> networkLooksUsable W;
       due \<leftarrow> (if usable then recoveryDue W else ret False);
       if due then do { attemptSessionRebuild W M p ''connection lost''; ret () } else ret () } }"

definition retryDroppedSession :: "world \<Rightarrow> unit sess \<Rightarrow> unit sess" where
  "retryDroppedSession W M = do {
     current \<leftarrow> gets sv_profile;
     case current of None \<Rightarrow> ret ()
     | Some p \<Rightarrow> do {
         held \<leftarrow> offlineHoldActive W;
         offline \<leftarrow> (if held then ret True else hostOffline W);
         if offline then ret () else retry_dropped W M p } }"

definition escalateDeadDataPath :: "world \<Rightarrow> unit sess \<Rightarrow> profile \<Rightarrow> string \<Rightarrow> unit sess" where
  "escalateDeadDataPath W M p activeKind = do {
     usable \<leftarrow> networkLooksUsable W;
     if \<not> usable then deferDataPathRebuild
     else do {
       held \<leftarrow> holdForSilentNetwork W M p;
       if held then deferDataPathRebuild
       else do {
         moved \<leftarrow> sessionMoved (p_id p);
         if moved then ret ()
         else do {
           noteDeadForCascade W activeKind;
           attemptSessionRebuild W M p ''tunnel stopped carrying traffic'';
           ret () } } } }"

definition probe_upstream :: "world \<Rightarrow> unit sess \<Rightarrow> profile \<Rightarrow> unit sess" where
  "probe_upstream W M p = do {
     verdict \<leftarrow> reachVerdictFor W p;
     M;
     moved \<leftarrow> sessionMoved (p_id p);
     if moved then clearUpstreamHold
     else if verdict = ReachOffline then scheduleUpstreamProbe W
     else do {
       ran \<leftarrow> attemptSessionRebuild W M p ''tunnel stopped carrying traffic'';
       if ran then clearUpstreamHold else probeUpstreamNow } }"

definition hold_over :: "world \<Rightarrow> unit sess \<Rightarrow> profile \<Rightarrow> unit sess" where
  "hold_over W M p = do {
     clearUpstreamHold;
     network \<leftarrow> currentNetworkKey W;
     modify (\<lambda>s. s\<lparr>sv_baseline := baseline_forget network (sv_baseline s)\<rparr>);
     kind \<leftarrow> gets sv_active;
     noteDeadForCascade W kind;
     attemptSessionRebuild W M p ''tunnel stopped carrying traffic'';
     ret () }"

text \<open>True: the tick is spent on the hold.\<close>

definition tickUpstreamHold :: "world \<Rightarrow> unit sess \<Rightarrow> bool sess" where
  "tickUpstreamHold W M = do {
     held \<leftarrow> gets sv_upProfile;
     until \<leftarrow> gets sv_upUntil;
     probeAt \<leftarrow> gets sv_upProbeAt;
     current \<leftarrow> get_state;
     live \<leftarrow> gets sv_profile;
     if held = [] then ret False
     else (case live of None \<Rightarrow> do { clearUpstreamHold; ret False }
       | Some p \<Rightarrow>
           if p_id p \<noteq> held \<or> (current \<noteq> StateConnected \<and> current \<noteq> StateError) then do { clearUpstreamHold; ret False }
           else do {
             active \<leftarrow> ks_active W;
             if \<not> active then do { clearUpstreamHold; ret False }
             else do {
               t \<leftarrow> now W;
               if until \<le> t then do { hold_over W M p; ret True }
               else do {
                 wait \<leftarrow> (if t < probeAt then ret True else noPhysicalRoute W);
                 if wait then ret True else do { probe_upstream W M p; ret True } } } }) }"

section \<open>The health check\<close>

definition recoverActiveTransport :: "world \<Rightarrow> profile \<Rightarrow> string \<Rightarrow> go_err option sess" where
  "recoverActiveTransport W p kind = do {
     got \<leftarrow> try_op W;
     if \<not> got then ret (Some (Sentinel ErrRebuildBusy))
     else do {
       current \<leftarrow> get_state;
       if current \<noteq> StateConnected then ret (Some (Leaf ''state changed''))
       else if managerForKind kind = None then ret (Some (Leaf (''unknown active transport kind: '' @ kind)))
       else do {
         running \<leftarrow> tr_running W kind;
         if running then ret None
         else if kind \<noteq> ''cloak'' \<and> \<not> kind_configured p kind
           then ret (Some (Leaf (''active transport is '' @ kind @ '' but profile has no '' @ kind @ '' config'')))
         else unless_err (tr_start W kind p) (unless_err (waitForManagedTransportStable W kind (transportLocalPort p kind) 2000)
           (case w_rebind W of None \<Rightarrow> ret None | Some f \<Rightarrow> do { call W f (\<lambda>_. WgOther); ret None })) } } }"

definition transport_up :: "world \<Rightarrow> profile \<Rightarrow> string \<Rightarrow> bool sess" where
  "transport_up W p kind =
    (if kind = ''cloak'' then cloakStatusForProfile W p
     else if kind = transportKindWireGuard then ret True
     else if managerForKind kind = None then ret False else tr_running W kind)"

text \<open>True: go on with the check.\<close>

definition revive_transport :: "world \<Rightarrow> profile \<Rightarrow> string \<Rightarrow> bool sess" where
  "revive_transport W p kind = do {
     held \<leftarrow> offlineHoldActive W;
     if held then ret False
     else do {
       netGen \<leftarrow> gets sv_netGen;
       startKey \<leftarrow> currentNetworkKey W;
       e \<leftarrow> recoverActiveTransport W p kind;
       case e of None \<Rightarrow> do { clearOfflineHold; ret True }
       | Some x \<Rightarrow>
           if errors_Is ErrRebuildBusy x then ret False
           else do {
             offline \<leftarrow> (if hostNetworkUnreachable x then ret True else hostOffline W);
             if offline then do { enterOfflineHold W netGen startKey; ret False }
             else do {
               clearOfflineHold;
               setErrorFromHealthCheck W (''health check failed: '' @ kind @ '' transport is not running and restart failed: '' @ err_text x);
               ret False } } } }"

definition check_lock_and_traffic :: "world \<Rightarrow> unit sess \<Rightarrow> profile \<Rightarrow> string \<Rightarrow> bool \<Rightarrow> unit sess" where
  "check_lock_and_traffic W M p kind routeRepaired = do {
     active \<leftarrow> ks_active W;
     if \<not> active then setErrorFromHealthCheck W ''health check failed: kill switch was cleared unexpectedly''
     else if routeRepaired then ret ()
     else do {
       ensureTunnelDNS W p;
       dead \<leftarrow> dataPathIsDead W M p;
       if dead then escalateDeadDataPath W M p kind else resetRecovery } }"

definition silent_text :: string where
  "silent_text = ''wireguard tunnel is silent (no recent handshake)''"

definition check_device :: "world \<Rightarrow> unit sess \<Rightarrow> profile \<Rightarrow> string \<Rightarrow> unit sess" where
  "check_device W M p kind = do {
     r \<leftarrow> wg_status_of W (p_wireguard p);
     case r of Inl e \<Rightarrow> setErrorFromHealthCheck W (''health check failed: wireguard status error: '' @ err_text e)
     | Inr st \<Rightarrow>
         if \<not> ws_running st then setErrorFromHealthCheck W (''health check failed: wireguard tunnel is down ('' @ ws_detail st @ '')'')
         else do {
           routeRepaired \<leftarrow> ensureEndpointRoutes W p;
           stale \<leftarrow> (if routeRepaired then ret False else wireGuardHandshakeStale W st);
           if stale \<and> \<not> canProveDataPath W p then do {
             usable \<leftarrow> networkLooksUsable W;
             if usable then do { attemptSessionRebuild W M p silent_text; ret () } else ret () }
           else do {
             when_m stale probeDataPathNow;
             check_lock_and_traffic W M p kind routeRepaired } } }"

definition check_connected :: "world \<Rightarrow> unit sess \<Rightarrow> unit sess" where
  "check_connected W M = do {
     live \<leftarrow> gets sv_profile;
     kind \<leftarrow> gets sv_active;
     case live of None \<Rightarrow> setErrorFromHealthCheck W ''health check failed: missing active profile''
     | Some p \<Rightarrow> do {
         up \<leftarrow> transport_up W p kind;
         go \<leftarrow> (if up then ret True else revive_transport W p kind);
         if go then check_device W M p kind else ret () } }"

definition runHealthCheck :: "world \<Rightarrow> unit sess \<Rightarrow> unit sess" where
  "runHealthCheck W M = do {
     held \<leftarrow> healthHeld W;
     if held then ret ()
     else do {
       spent \<leftarrow> tickUpstreamHold W M;
       current \<leftarrow> get_state;
       if spent then ret ()
       else if current = StateError then retryDroppedSession W M
       else if current \<noteq> StateConnected then ret ()
       else check_connected W M } }"

end
