(* ===== verification/Session_Startup.thy ===== *)
theory Session_Startup
  imports Session_Health
begin

text \<open>What the daemon finds when it starts, api/service.go: the lock the previous process left is put back first, then
  a tunnel that still runs is adopted or the recorded session is handed to the retry loop; a lock nobody can redial
  stays up.  Nothing here lowers the lock.\<close>

definition startupLockReapplyAttempts :: nat where "startupLockReapplyAttempts = 3"
definition startupLockReapplyDelay :: int where "startupLockReapplyDelay = 2000"

definition lock_found :: ks_saved where
  "lock_found = no_ks_saved\<lparr>kp_active := True\<rparr>"

text \<open>Rules without a readable state file stay in place.\<close>

definition reconcile_unknown :: "world \<Rightarrow> ks_saved \<Rightarrow> ks_saved sess" where
  "reconcile_unknown W persisted = do {
     active \<leftarrow> ks_active W;
     if active then ret lock_found else do { releaseOrphanedLockSettings W; ret persisted } }"

fun reapply_lock :: "world \<Rightarrow> string list \<Rightarrow> ks_saved \<Rightarrow> nat \<Rightarrow> unit sess" where
  "reapply_lock W endpoints k 0 = ret ()"
| "reapply_lock W endpoints k (Suc left) = do {
     e \<leftarrow> ks_enable W endpoints (kp_allowLAN k) (kp_locked k);
     if e = None \<or> left = 0 then ret ()
     else do {
       c \<leftarrow> ctx_pause W startupLockReapplyDelay;
       if c \<noteq> None then ret () else reapply_lock W endpoints k left } }"

definition reconcilePersistedKillSwitch :: "world \<Rightarrow> ks_saved sess" where
  "reconcilePersistedKillSwitch W = do {
     loaded \<leftarrow> ks_load W;
     case loaded of Inl _ \<Rightarrow> reconcile_unknown W no_ks_saved
     | Inr k \<Rightarrow>
         if \<not> kp_active k then reconcile_unknown W k
         else do {
           hub \<leftarrow> hub_permits;
           endpoints \<leftarrow> withoutHubProxyPermits W (mergeUniqueSorted (kp_endpoints k) hub);
           reapply_lock W endpoints k startupLockReapplyAttempts;
           ret k } }"

definition holdOrphanedLock :: "world \<Rightarrow> unit sess" where
  "holdOrphanedLock W = set_state W StateError orphanedLockDetail"

definition resume_recorded :: "world \<Rightarrow> ks_saved \<Rightarrow> session_record \<Rightarrow> profile \<Rightarrow> unit sess" where
  "resume_recorded W k r p = do {
     setCurrentProfile W p;
     store \<leftarrow> gets sv_store;
     (case store of None \<Rightarrow> ret () | Some st \<Rightarrow> updateAppliedSplit (\<lambda>a. a\<lparr>ap_gen := st_gen st\<rparr>));
     setSessionOpts W \<lparr>co_allowLAN = sr_allowLAN r \<or> kp_allowLAN k, co_lockdown = sr_lockdown r \<or> kp_locked k,
       co_preferred = sr_preferred r\<rparr>;
     set_state W StateError ''daemon restarted; reconnecting'';
     kickHealthCheck }"

definition recoverRecordedSession :: "world \<Rightarrow> ks_saved \<Rightarrow> unit sess" where
  "recoverRecordedSession W k =
    (if \<not> kp_active k then ret ()
     else do {
       record \<leftarrow> read_record W;
       found \<leftarrow> (if recorded_id record = [] then ret None else find_profile (recorded_id record));
       (case (record, found) of (Some r, Some p) \<Rightarrow> resume_recorded W k r p
        | _ \<Rightarrow> if kp_locked k then ret () else holdOrphanedLock W) })"

definition reconcileKillSwitchForAdoptedTunnel :: "world \<Rightarrow> profile \<Rightarrow> unit sess" where
  "reconcileKillSwitchForAdoptedTunnel W p = do {
     loaded \<leftarrow> ks_load W;
     let locked = (case loaded of Inl _ \<Rightarrow> False | Inr k \<Rightarrow> kp_active k \<and> kp_locked k);
     let allowLAN = (case loaded of Inl _ \<Rightarrow> False | Inr k \<Rightarrow> kp_allowLAN k);
     permits \<leftarrow> sessionKillSwitchPermits W p;
     e \<leftarrow> ks_enable W permits allowLAN locked;
     case e of Some _ \<Rightarrow> ret ()
     | None \<Rightarrow> do {
         permit_tunnel W (withTransportBypassHosts (w_hostname W) p);
         applySplitLive W p allowLAN True;
         ret () } }"

definition adopt_at_startup :: "world \<Rightarrow> profile \<Rightarrow> unit sess" where
  "adopt_at_startup W p = do {
     a \<leftarrow> attachToRunningSession W p [];
     case a of (adopted, Some e) \<Rightarrow> when_m adopted (setError W (''startup tunnel recovery failed: '' @ err_text e))
     | (adopted, None) \<Rightarrow> when_m adopted (reconcileKillSwitchForAdoptedTunnel W p) }"

definition allConfiguredTunnelNames :: "string list sess" where
  "allConfiguredTunnelNames = do { ps \<leftarrow> config_profiles; ret (not_empty (map tunnel_name ps)) }"

definition reconcileStartup :: "world \<Rightarrow> unit sess" where
  "reconcileStartup W = do {
     running \<leftarrow> findRunningWireGuardProfiles W;
     persisted \<leftarrow> reconcilePersistedKillSwitch W;
     when_m (running = []) (recoverRecordedSession W persisted);
     names \<leftarrow> allConfiguredTunnelNames;
     when_m (names \<noteq> []) (call W (\<lambda>_. ()) (\<lambda>_. WgOther));
     (case running of [] \<Rightarrow> ret () | p # _ \<Rightarrow> adopt_at_startup W p) }"

end
