(* ===== verification/Session_Logic.thy ===== *)
theory Session_Logic
  imports Session_Startup
begin

text \<open>Reasoning about the session's operations by the events they add to the trace.  \<open>emits G m\<close> says that a run of
  \<open>m\<close> only appends events that satisfy \<open>G\<close>; \<open>runs\<close> adds a condition on the result.  The rules follow the shape of
  a program.  The locale \<open>emitting\<close> is the contract of an event predicate that lets everything through but the two
  steps a claim may be about (lowering the lock and starting the device) and dials only to a set of destinations;
  one lemma per operation is proved in it once.\<close>

definition runs :: "(event \<Rightarrow> bool) \<Rightarrow> 'a sess \<Rightarrow> ('a \<Rightarrow> bool) \<Rightarrow> bool" where
  "runs G m Q \<longleftrightarrow> (\<forall>s. \<exists>es. sv_trace (snd (run_state m s)) = sv_trace s @ es \<and> list_all G es \<and> Q (fst (run_state m s)))"

definition emits :: "(event \<Rightarrow> bool) \<Rightarrow> 'a sess \<Rightarrow> bool" where
  "emits G m \<longleftrightarrow> runs G m (\<lambda>_. True)"

named_theorems emit "rules for the events of a program"

lemma runs_bind: "runs G m Q \<Longrightarrow> (\<And>x. Q x \<Longrightarrow> runs G (f x) R) \<Longrightarrow> runs G (State_Monad.bind m f) R"
proof (unfold runs_def, intro allI)
  fix s assume m: "\<forall>s. \<exists>es. sv_trace (snd (run_state m s)) = sv_trace s @ es \<and> list_all G es \<and> Q (fst (run_state m s))"
    and f: "\<And>x. Q x \<Longrightarrow> \<forall>s. \<exists>es. sv_trace (snd (run_state (f x) s)) = sv_trace s @ es \<and> list_all G es \<and> R (fst (run_state (f x) s))"
  obtain x t where run: "run_state m s = (x, t)" by (cases "run_state m s")
  then obtain es where "sv_trace t = sv_trace s @ es" "list_all G es" "Q x" using spec [OF m, of s] by auto
  moreover obtain es' where "sv_trace (snd (run_state (f x) t)) = sv_trace t @ es'" "list_all G es'" "R (fst (run_state (f x) t))"
    using spec [OF f [OF \<open>Q x\<close>], of t] by blast
  ultimately show "\<exists>es. sv_trace (snd (run_state (State_Monad.bind m f) s)) = sv_trace s @ es \<and> list_all G es \<and>
      R (fst (run_state (State_Monad.bind m f) s))"
    by (intro exI [of _ "es @ es'"]) (simp add: State_Monad.bind_def run)
qed

lemma runs_weaken: "runs G m Q \<Longrightarrow> (\<And>x. Q x \<Longrightarrow> R x) \<Longrightarrow> runs G m R"
  unfolding runs_def by blast

lemma runs_emits: "runs G m Q \<Longrightarrow> emits G m"
  unfolding emits_def by (erule runs_weaken) simp

lemma emits_mono: "emits G m \<Longrightarrow> (\<And>e. G e \<Longrightarrow> H e) \<Longrightarrow> emits H m"
  unfolding emits_def runs_def by (metis list.pred_mono_strong)

lemma runs_ret: "Q x \<Longrightarrow> runs G (ret x) Q"
  unfolding runs_def by (auto simp: State_Monad.return_def)

lemma emits_ret [emit]: "emits G (ret x)"
  unfolding emits_def by (rule runs_ret) simp

lemma emits_bind [emit]: "emits G m \<Longrightarrow> (\<And>x. emits G (f x)) \<Longrightarrow> emits G (State_Monad.bind m f)"
  unfolding emits_def by (rule runs_bind)

lemma emits_gets [emit]: "emits G (gets f)"
  unfolding emits_def runs_def gets_def by auto

lemma emits_modify [emit]: "(\<And>s. sv_trace (f s) = sv_trace s) \<Longrightarrow> emits G (modify f)"
  unfolding emits_def runs_def modify_def by auto

lemma emits_call: "(\<And>n. G (ev (f n))) \<Longrightarrow> emits G (call W f ev)"
  unfolding emits_def runs_def call_def by (auto simp: Let_def)

lemma runs_call: "(\<And>n. G (ev (f n))) \<Longrightarrow> (\<And>n. Q (f n)) \<Longrightarrow> runs G (call W f ev) Q"
  unfolding runs_def call_def by (auto simp: Let_def)

lemma emits_when [emit]: "(b \<Longrightarrow> emits G m) \<Longrightarrow> emits G (when_m b m)"
  by (simp add: when_m_def emits_ret)

lemma emits_if [emit]: "(b \<Longrightarrow> emits G m) \<Longrightarrow> (\<not> b \<Longrightarrow> emits G k) \<Longrightarrow> emits G (if b then m else k)"
  by simp

lemma emits_option [emit]: "(x = None \<Longrightarrow> emits G m) \<Longrightarrow> (\<And>y. x = Some y \<Longrightarrow> emits G (f y)) \<Longrightarrow> emits G (case x of None \<Rightarrow> m | Some y \<Rightarrow> f y)"
  by (cases x) auto

lemma emits_sum [emit]: "(\<And>y. x = Inl y \<Longrightarrow> emits G (f y)) \<Longrightarrow> (\<And>y. x = Inr y \<Longrightarrow> emits G (g y)) \<Longrightarrow> emits G (case x of Inl y \<Rightarrow> f y | Inr y \<Rightarrow> g y)"
  by (cases x) auto

lemma emits_prod [emit]: "(\<And>y z. x = (y, z) \<Longrightarrow> emits G (f y z)) \<Longrightarrow> emits G (case x of (y, z) \<Rightarrow> f y z)"
  by (cases x) auto

lemma emits_list [emit]: "(x = [] \<Longrightarrow> emits G m) \<Longrightarrow> (\<And>y ys. x = y # ys \<Longrightarrow> emits G (f y ys)) \<Longrightarrow> emits G (case x of [] \<Rightarrow> m | y # ys \<Rightarrow> f y ys)"
  by (cases x) auto

lemma emits_bool [emit]: "(x \<Longrightarrow> emits G m) \<Longrightarrow> (\<not> x \<Longrightarrow> emits G k) \<Longrightarrow> emits G (case x of True \<Rightarrow> m | False \<Rightarrow> k)"
  by (cases x) auto

lemma emits_for_each [emit]: "(\<And>x. emits G (f x)) \<Longrightarrow> emits G (for_each xs f)"
  by (induction xs) (auto intro: emits_ret emits_bind)

lemma emits_unless [emit]: "emits G m \<Longrightarrow> emits G k \<Longrightarrow> emits G (unless_err m k)"
  unfolding unless_err_def by (intro emit)

lemma runs_result: "emits G m \<Longrightarrow> (\<And>s. Q (fst (run_state m s))) \<Longrightarrow> runs G m Q"
  unfolding emits_def runs_def by blast

text \<open>The same shape with a condition on the result.\<close>

named_theorems run "rules for the result of a program"

lemma runs_seq [run]: "emits G m \<Longrightarrow> (\<And>x. runs G (f x) R) \<Longrightarrow> runs G (State_Monad.bind m f) R"
  unfolding emits_def by (rule runs_bind)

lemma runs_ret_rule [run]: "Q x \<Longrightarrow> runs G (ret x) Q"
  by (rule runs_ret)

lemma runs_if [run]: "(b \<Longrightarrow> runs G m Q) \<Longrightarrow> (\<not> b \<Longrightarrow> runs G k Q) \<Longrightarrow> runs G (if b then m else k) Q"
  by simp

lemma runs_option [run]: "(x = None \<Longrightarrow> runs G m Q) \<Longrightarrow> (\<And>y. x = Some y \<Longrightarrow> runs G (f y) Q) \<Longrightarrow> runs G (case x of None \<Rightarrow> m | Some y \<Rightarrow> f y) Q"
  by (cases x) auto

lemma runs_sum [run]: "(\<And>y. x = Inl y \<Longrightarrow> runs G (f y) Q) \<Longrightarrow> (\<And>y. x = Inr y \<Longrightarrow> runs G (g y) Q) \<Longrightarrow> runs G (case x of Inl y \<Rightarrow> f y | Inr y \<Rightarrow> g y) Q"
  by (cases x) auto

lemma runs_prod [run]: "(\<And>y z. x = (y, z) \<Longrightarrow> runs G (f y z) Q) \<Longrightarrow> runs G (case x of (y, z) \<Rightarrow> f y z) Q"
  by (cases x) auto

section \<open>The contract of an event predicate\<close>

text \<open>Neither lowering the lock, nor starting the device, nor dialling.\<close>

definition quiet_event :: "event \<Rightarrow> bool" where
  "quiet_event e = (case e of KsClear _ \<Rightarrow> False | WgStart _ _ \<Rightarrow> False | TrStart _ _ _ \<Rightarrow> False | _ \<Rightarrow> True)"

lemma quiet_event_simps [simp]:
  "\<not> quiet_event (KsClear r)" "\<not> quiet_event (WgStart w r)" "\<not> quiet_event (TrStart k p r)"
  "quiet_event (WgStop w r)" "quiet_event (WgStatus w st)" "quiet_event (WgPreflight w r)" "quiet_event (WgPin w r)"
  "quiet_event (WgApply w r)" "quiet_event WgOther" "quiet_event (KsEnable hosts lan locked r)" "quiet_event (KsUpdate t r)"
  "quiet_event (KsActive b)" "quiet_event (KsDrop r)" "quiet_event (KsRelease r)" "quiet_event (KsSplit l r)"
  "quiet_event (TrStop k r)" "quiet_event (TrRunning k b)" "quiet_event (TrSession k r)" "quiet_event (TrBound k n)"
  "quiet_event (Probe i sv r)" "quiet_event (SetState d txt)" "quiet_event Host"
  by (simp_all add: quiet_event_def)

locale emitting =
  fixes G :: "event \<Rightarrow> bool" and S :: "target set"
  assumes quiet: "quiet_event e \<Longrightarrow> G e"
    and dial: "set (targets p) \<subseteq> S \<Longrightarrow> G (TrStart k p r)"

locale bringing = emitting +
  assumes start: "G (WgStart w r)"

end
