(* ===== verification/Session_Emits.thy ===== *)
theory Session_Emits
  imports Session_Logic
begin

text \<open>The events of each session operation, proved once in the locale \<open>emitting\<close> (operations that never lower the
  lock or start the device) or \<open>bringing\<close> (those that may start it).\<close>

named_theorems ops "event lemmas of the operations"

lemma emits_teardown [emit]:
  "(m = TeardownUser \<Longrightarrow> emits G a) \<Longrightarrow> (m = TeardownLockdown \<Longrightarrow> emits G b) \<Longrightarrow> (m = TeardownShutdown \<Longrightarrow> emits G c) \<Longrightarrow>
     emits G (case m of TeardownUser \<Rightarrow> a | TeardownLockdown \<Rightarrow> b | TeardownShutdown \<Rightarrow> c)"
  by (cases m) auto

lemma emits_reading [emit]:
  "(\<And>r. emits G (f r)) \<Longrightarrow> (\<And>b n. emits G (g b n)) \<Longrightarrow> emits G (case m of FirstAnswer r \<Rightarrow> f r | Read b n \<Rightarrow> g b n)"
  by (cases m) auto

lemma emits_round_end [emit]:
  "emits G a \<Longrightarrow> emits G b \<Longrightarrow> emits G c \<Longrightarrow> emits G (case m of RoundAnswered \<Rightarrow> a | RoundUnknown \<Rightarrow> b | RoundFailed \<Rightarrow> c)"
  by (cases m) auto

lemma emits_gate_end [emit]:
  "emits G a \<Longrightarrow> (\<And>e. emits G (f e)) \<Longrightarrow> (\<And>e. emits G (g e)) \<Longrightarrow>
     emits G (case m of GatePass \<Rightarrow> a | GateStop e \<Rightarrow> f e | GateSilent e \<Rightarrow> g e)"
  by (cases m) auto

lemma emits_task [emit]: "(\<And>p. emits G (f p)) \<Longrightarrow> emits G (case t of Reprove p \<Rightarrow> f p)"
  by (cases t) auto

context emitting begin

lemma quiet_call [ops]: "(\<And>n. quiet_event (ev (f n))) \<Longrightarrow> emits G (call W f ev)"
  by (rule emits_call) (rule quiet)

text \<open>Session_State.\<close>

lemma state_ops [ops]:
  "emits G (pause d)" "emits G (now W)" "emits G (ctx_err W)" "emits G (ctx_pause W d)" "emits G (wg_stop W w)"
  "emits G (wg_status_of W w)" "emits G (wg_preflight W w)" "emits G (ks_enable W hosts lan lock)" "emits G (ks_update W t)"
  "emits G (ks_active W)" "emits G (ks_load W)" "emits G (tr_stop W kind)" "emits G (tr_running W kind)"
  "emits G (set_state W st txt)" "emits G (cas_state W expected st txt)" "emits G get_state" "emits G (setError W txt)"
  "emits G (setErrorFromHealthCheck W txt)" "emits G config_profiles" "emits G (find_profile pid)" "emits G (currentNetworkKey W)"
  unfolding pause_def now_def ctx_err_def ctx_pause_def wg_stop_def wg_status_of_def wg_preflight_def ks_enable_def
    ks_update_def ks_active_def ks_load_def tr_stop_def tr_running_def set_state_def cas_state_def get_state_def setError_def
    setErrorFromHealthCheck_def config_profiles_def find_profile_def currentNetworkKey_def
  by (intro emit quiet_call; simp)+

lemma tr_start_op: "set (targets p) \<subseteq> S \<Longrightarrow> emits G (tr_start W kind p)"
  unfolding tr_start_def by (intro emits_call dial)

text \<open>Session_Timers.\<close>

lemma timer_ops [ops]:
  "emits G beginRecoveryAttempt" "emits G (scheduleNextRecovery W attempt)" "emits G (deferRecovery W d)" "emits G (recoveryDue W)"
  "emits G clearUpstreamHold" "emits G resetRecovery" "emits G kickHealthCheck" "emits G (enterOfflineHold W gen key)"
  "emits G (offlineHoldActive W)" "emits G clearOfflineHold" "emits G (setKeptDeviceDead b)" "emits G (healthHeld W)"
  "emits G (enterUpstreamHold W pid)" "emits G (scheduleUpstreamProbe W)" "emits G probeUpstreamNow" "emits G takeRecoveryLead"
  "emits G (noteDeadTransport W kind)" "emits G (noteDeadForCascade W kind)" "emits G (applyRecoveryLead cs)"
  "emits G (setTransportsExhausted b)" "emits G (dnsProbeDue W)" "emits G recordDNSProbeSuccess" "emits G (recordDNSProbeFailure W)"
  "emits G deferDataPathRebuild" "emits G (resetDNSProbe W)" "emits G endDNSProbeSession" "emits G probeDataPathNow"
  "emits G recordEndpointRouteRepair" "emits G resetEndpointRouteRepairs" "emits G (hostVerdict W)" "emits G (hostOffline W)"
  "emits G (networkLooksUsable W)" "emits G (noPhysicalRoute W)" "emits G (offlineNow W)" "emits G (wireGuardHandshakeStale W st)"
  "emits G (onSystemResume W)" "emits G (onNetworkChanged W)"
  unfolding beginRecoveryAttempt_def scheduleNextRecovery_def deferRecovery_def recoveryDue_def clearUpstreamHold_def resetRecovery_def
    kickHealthCheck_def enterOfflineHold_def offlineHoldActive_def clearOfflineHold_def setKeptDeviceDead_def healthHeld_def
    enterUpstreamHold_def scheduleUpstreamProbe_def probeUpstreamNow_def takeRecoveryLead_def noteDeadForCascade_def
    applyRecoveryLead_def setTransportsExhausted_def dnsProbeDue_def recordDNSProbeSuccess_def recordDNSProbeFailure_def
    deferDataPathRebuild_def resetDNSProbe_def endDNSProbeSession_def probeDataPathNow_def recordEndpointRouteRepair_def
    resetEndpointRouteRepairs_def hostOffline_def networkLooksUsable_def noPhysicalRoute_def offlineNow_def
    wireGuardHandshakeStale_def onSystemResume_def onNetworkChanged_def noteDeadTransport_def hostVerdict_def Let_def
  by (intro emit ops; simp add: clear_upstream_def)+

text \<open>Session_Split.\<close>

lemma split_ops [ops]:
  "emits G (updateAppliedSplit f)" "emits G resetAppliedSplit" "emits G kickSplitReconcile" "emits G kickSplitReconcileIfPending"
  "emits G (desiredSplit W p lan)" "emits G (splitCIDRsFor W p lan)" "emits G (setSplitPermits W prev want)" "emits G (clearSplitPermits W)"
  "emits G (splitApplied gen dropped)" "emits G (splitApplyFailed W)" "emits G (set_permits permits)" "emits G (deviceRunning W p)"
  unfolding updateAppliedSplit_def resetAppliedSplit_def kickSplitReconcile_def kickSplitReconcileIfPending_def desiredSplit_def
    splitCIDRsFor_def setSplitPermits_def clearSplitPermits_def splitApplied_def splitApplyFailed_def set_permits_def deviceRunning_def Let_def
  by (intro emit ops; simp)+

lemma split_routes_ops [ops]:
  "emits G (applySplitLive W p lan dev)" "emits G (syncSplitForBringUp W p lan)"
  unfolding applySplitLive_def move_routes_def syncSplitForBringUp_def Let_def by (intro emit ops; simp)+

lemma reconcile_ops [ops]: "emits G (reconcileSplit W)" "emits G (splitTick W)"
proof -
  have "emits G (reconcileSplitOnce W)" unfolding reconcileSplitOnce_def Let_def by (intro emit ops; simp)
  then have "emits G (reconcile_turns W k)" for k
    by (induction k) (simp_all add: emit)
  then show "emits G (reconcileSplit W)" "emits G (splitTick W)"
    unfolding reconcileSplit_def splitTick_def by (intro emit ops; simp)+
qed

lemma update_split_op [ops]: "emits G (UpdateSplitTunnel goos self isAbs env wrote u)"
  unfolding UpdateSplitTunnel_def notePOSTKeptRoutes_def Let_def by (intro emit ops; simp)

end

text \<open>A bound local port is not a destination.\<close>

lemma targets_with_local_port [simp]: "targets (with_local_port kind port p) = targets p"
  unfolding with_local_port_def targets_def by (simp add: case_map_option o_def cong: option.case_cong)

context emitting begin

text \<open>Session_Reach.\<close>

lemma reach_route_ops [ops]:
  "emits G vouched_now" "emits G (hub_remote W proxy)" "emits G (directHubAllowed W p)" "emits G (appendProxyRoute W routes kind f)"
  "emits G (reach_record W network r)" "emits G (sessionMoved pid)" "emits G upstreamHoldActive"
  unfolding vouched_now_def hub_remote_def directHubAllowed_def appendProxyRoute_def reach_record_def sessionMoved_def upstreamHoldActive_def
  by (intro emit ops; simp)+

lemma reach_ops [ops]:
  "emits G (probeHub W p stop)" "emits G (reachVerdictFor W p)" "emits G (reproveBaseline W p)" "emits G (refreshReachBaseline W network p)"
proof -
  show *: "emits G (probeHub W p stop)" for stop
    unfolding probeHub_def reachRoutes_def Let_def by (intro emit ops; simp)
  show "emits G (reachVerdictFor W p)" "emits G (reproveBaseline W p)" "emits G (refreshReachBaseline W network p)"
    unfolding reachVerdictFor_def reproveBaseline_def refreshReachBaseline_def Let_def by (intro emit ops *; simp)+
qed

lemma run_task_op [ops]: "emits G (run_task W i)"
  unfolding run_task_def by (intro emit ops; simp)

lemma hold_ops [ops]:
  assumes [ops]: "emits G M"
  shows "emits G (holdForSilentNetwork W M p)" "emits G (holdIfNetworkSilent W M p err)"
  unfolding holdForSilentNetwork_def holdIfNetworkSilent_def by (intro emit ops; simp)+

text \<open>Session_Bringup.\<close>

lemma bring_parts [ops]:
  "emits G activeTransport" "emits G (setActiveTransportKind kind)" "emits G (setConnectingTransportKind kind)" "emits G (stop_active W)"
  "emits G (rebindWireGuardEndpoint W kind port w)" "emits G (cloakStartedForRemote c)" "emits G (rememberCloakRemote c)"
  "emits G (wait_session W kind)" "emits G (reorderByMemory cs preferred network)" "emits G (rememberTransport W network kind)"
  unfolding activeTransport_def setActiveTransportKind_def setConnectingTransportKind_def stop_active_def rebindWireGuardEndpoint_def
    cloakStartedForRemote_def rememberCloakRemote_def wait_session_def reorderByMemory_def rememberTransport_def Let_def
  by (intro emit ops; simp)+

lemma stable_op [ops]: "emits G (waitForManagedTransportStable W kind port duration)"
proof -
  have polls: "emits G (stable_polls W kind deadline k)" for deadline k
  proof (induction k)
    case (Suc k)
    show ?case unfolding stable_polls.simps by (intro emit ops Suc)
  qed (simp add: emit)
  show ?thesis unfolding waitForManagedTransportStable_def Let_def by (intro emit ops polls; simp)
qed

lemma start_cloak_run:
  assumes "set (targets p) \<subseteq> S"
  shows "runs G (startCloakTransport W p w) (\<lambda>r. set (targets (fst (snd r))) \<subseteq> S)"
  using assms unfolding startCloakTransport_def Let_def by (intro run emit ops tr_start_op; simp)

lemma start_managed_run:
  assumes "set (targets p) \<subseteq> S"
  shows "runs G (start_managed W kind waits p w) (\<lambda>r. set (targets (fst (snd r))) \<subseteq> S)"
  using assms unfolding start_managed_def Let_def by (intro run emit ops tr_start_op; simp)

end

section \<open>Bringing a session up\<close>

text \<open>A start function dials only where its profile asks to, and leaves the destinations alone.\<close>

definition dials :: "(event \<Rightarrow> bool) \<Rightarrow> target set \<Rightarrow> start_fn \<Rightarrow> bool" where
  "dials G S f \<longleftrightarrow> (\<forall>p w. set (targets p) \<subseteq> S \<longrightarrow> runs G (f p w) (\<lambda>r. set (targets (fst (snd r))) \<subseteq> S))"

lemma Select_start: "Select preferred s = Inr cs \<Longrightarrow> c \<in> set cs \<Longrightarrow> \<exists>k. cand_start c = fst (s k)"
  by (auto simp: Select_def autoCascade_def List.map_filter_def split: if_splits prod.splits availability.splits) (metis fst_conv)+

lemma ReorderByMemory_set: "set (fst (ReorderByMemory cs preferred network look)) \<subseteq> set cs"
  by (auto simp: ReorderByMemory_def dest: index_kind_Some in_set_takeD in_set_dropD split: option.splits if_splits)

context emitting begin

lemma start_fn_dials:
  "dials G S (startCloakTransport W)" "dials G S (startNaiveTransport W)" "dials G S (startRealityTransport W)"
  "dials G S (startHysteria2Transport W)" "dials G S (startAnyTLSTransport W)" "dials G S (startSnowflakeTransport W)"
  "dials G S (startShadowsocksTransport W)" "dials G S startDirectWireGuard" "dials G S (\<lambda>p w. ret (None, p, w))"
  unfolding dials_def startNaiveTransport_def startRealityTransport_def startHysteria2Transport_def startAnyTLSTransport_def
    startSnowflakeTransport_def startShadowsocksTransport_def startDirectWireGuard_def
  by (auto intro!: start_cloak_run start_managed_run runs_ret split: sum.split simp: Let_def)

lemma starter_dials: "dials G S (fst (StarterFor W p kind))"
  by (auto simp: StarterFor_def Let_def start_fn_dials)

lemma candidates_dial: "transportCandidates W p preferred = Inr cs \<Longrightarrow> c \<in> set cs \<Longrightarrow> dials G S (cand_start c)"
  by (auto simp: transportCandidates_def start_fn_dials starter_dials split: if_splits sum.splits dest!: Select_start)

lemma reorder_run: "runs G (reorderByMemory cs preferred network) (\<lambda>r. set r \<subseteq> set cs)"
  by (rule runs_result [OF bring_parts(9)])
    (auto simp: reorderByMemory_def gets_def split: option.splits dest: subsetD [OF ReorderByMemory_set])

lemma lead_run: "runs G (applyRecoveryLead cs) (\<lambda>r. set r \<subseteq> set cs)"
  by (rule runs_result [OF timer_ops(19)]) (use mset_eq_setD [OF applyRecoveryLead_perm] in blast)

end

context emitting begin

text \<open>Session_Gate.\<close>

lemma tunnel_ref_ops [ops]:
  "emits G (resolveWireGuardInterfaceName W w)" "emits G (resolveTunnelLUID W w)" "emits G (resolveTunnelRef W w)" "emits G (permit_tunnel W w)"
  "emits G (probeServerOrder W servers)" "emits G (peerRxBytes W w)" "emits G (probe_call W iface server)"
  unfolding permit_tunnel_def resolveTunnelRef_def resolveWireGuardInterfaceName_def resolveTunnelLUID_def probeServerOrder_def
    peerRxBytes_def probe_call_def Let_def
  by (intro emit ops; simp)+

lemma handshake_op [ops]:
  assumes [ops]: "emits G job"
  shows "emits G (waitForWireGuardHandshake W cx w job)"
proof -
  have polls: "emits G (handshake_polls W w m timeout deadline job k at d)" for m timeout deadline k at d
  proof (induction k arbitrary: at d)
    case (Suc k)
    show ?case unfolding handshake_polls.simps run_beside_def by (intro emit ops Suc)
  qed (simp add: emit)
  show ?thesis unfolding waitForWireGuardHandshake_def Let_def by (intro emit ops polls)
qed

lemma ready_op [ops]: "emits G (awaitTunnelReady W w deadline rounds)"
proof -
  have "emits G (ready_polls W f w deadline k)" for f k
  proof (induction k)
    case (Suc k)
    show ?case unfolding ready_polls.simps by (intro emit ops Suc; simp)
  qed (simp add: emit)
  then show ?thesis unfolding awaitTunnelReady_def by (intro emit)
qed

lemma prove_op [ops]: "emits G (proveDataPath W w)"
proof -
  have rounds: "emits G (gate_rounds W servers iface deadline k attempt delay lastErr)" for servers iface deadline k attempt delay lastErr
  proof (induction k arbitrary: attempt delay lastErr)
    case (Suc k)
    show ?case unfolding gate_rounds.simps Let_def by (intro emit ops Suc)
  qed (simp add: emit)
  show ?thesis unfolding proveDataPath_def gate_rescue_def Let_def by (intro emit ops rounds)
qed

lemma cleanup_op [ops]: "emits G (cleanup_candidate W cx kind p w)"
  unfolding cleanup_candidate_def by (intro emit ops; simp)

lemma session_book_ops [ops]:
  "emits G (startNetworkRepair W l)" "emits G (cancelNetworkRepair W)" "emits G (setCurrentProfile W p)" "emits G (setSessionOpts W opts)"
  "emits G (holdBringUpOffline W gen key)" "emits G (adopt_brought W opts key kind p)"
  unfolding adopt_brought_def startNetworkRepair_def cancelNetworkRepair_def setCurrentProfile_def setSessionOpts_def holdBringUpOffline_def Let_def
  by (intro emit ops; simp)+

end

context bringing begin

lemma device_op [ops]: "emits G (start_device W cx kind w)"
  unfolding start_device_def check_traffic_def wg_start_def by (intro emit ops emits_call start)

lemma candidate_run:
  assumes "dials G S f" and "set (targets p) \<subseteq> S"
  shows "runs G (bringUpTransport W cx p w kind f) (\<lambda>r. set (targets (fst (snd r))) \<subseteq> S)"
  unfolding bringUpTransport_def Let_def
  by (rule runs_bind [OF assms(1) [unfolded dials_def, rule_format, OF assms(2)]]) (intro run emit ops; simp)

lemma candidates_run:
  assumes "\<forall>c \<in> set cs. dials G S (cand_start c)" and "set (targets p) \<subseteq> S"
  shows "emits G (try_candidates W cx auto w cs p failures)"
  using assms
proof (induction cs arbitrary: p failures)
  case (Cons c cs)
  have step: "runs G (bringUpTransport W cx p w (cand_kind c) (cand_start c)) (\<lambda>r. set (targets (fst (snd r))) \<subseteq> S)"
    using Cons.prems by (intro candidate_run) auto
  have tail: "emits G (case r of (None, p', attempt) \<Rightarrow> ret (Inr (cand_kind c), p', attempt)
       | (Some e, p', _) \<Rightarrow> do {
           ended \<leftarrow> ctx_err W;
           case ended of Some x \<Rightarrow> ret (Inl x, p', w)
           | None \<Rightarrow> do {
               offline \<leftarrow> (if hostNetworkUnreachable e then ret True else hostOffline W);
               if offline then ret (Inl (host_offline_err e), p', w)
               else try_candidates W cx auto w cs p' (failures @ [e]) } })" if "set (targets (fst (snd r))) \<subseteq> S" for r
    using that Cons by (intro emit ops Cons.IH) auto
  show ?case
    unfolding try_candidates.simps
    by (rule emits_bind, rule bring_parts) (unfold emits_def, rule runs_bind [OF step], rule tail [unfolded emits_def])
qed (simp add: emit)

end

context bringing begin

lemma cascade_op:
  assumes "set (targets p) \<subseteq> S"
  shows "emits G (startTransportWithHandshake W cx p w preferred network)"
proof (cases "transportCandidates W p preferred")
  case (Inr cs)
  have walk: "emits G (do { r \<leftarrow> try_candidates W cx auto w ordered p []; setConnectingTransportKind []; ret r })"
    if "set ordered \<subseteq> set cs" for auto ordered
    using that candidates_dial [OF Inr] by (intro emit ops candidates_run assms) auto
  show ?thesis unfolding startTransportWithHandshake_def Inr sum.case emits_def
    by (rule runs_bind [OF reorder_run], rule runs_bind [OF lead_run]) (use walk in \<open>auto simp: emits_def\<close>)
qed (simp add: startTransportWithHandshake_def emit)

lemma bring_up_op: "set (targets p) \<subseteq> S \<Longrightarrow> emits G (bringUpAfterKillSwitch W cx p opts)"
  unfolding bringUpAfterKillSwitch_def bring_up_with_def Let_def by (intro emit ops cascade_op; simp)

end

section \<open>The operations\<close>

context emitting begin

lemma record_ops [ops]:
  "emits G (read_record W)" "emits G (recordHubProxyPermits W ips)" "emits G (loadHubProxyPermits W)" "emits G (permitsKeptAcrossRestart W)"
  "emits G (noteHubProxyPermit W host)" "emits G (withoutHubProxyPermits W endpoints)" "emits G (clearCurrentProfile W keep)"
  "emits G (hubProxyRemotes W)" "emits G (sessionKillSwitchPermits W p)"
  unfolding noteHubProxyPermit_def withoutHubProxyPermits_def clearCurrentProfile_def sessionKillSwitchPermits_def hubProxyRemotes_def
    permitsKeptAcrossRestart_def loadHubProxyPermits_def recordHubProxyPermits_def read_record_def Let_def
  by (intro emit ops; simp)+

lemma running_ops [ops]:
  "emits G (tunnel_running W p)" "emits G (findRunningWireGuardProfiles W)" "emits G (ensureNoOtherRunningWireGuard W pid)"
  "emits G (ensureNoRunningWireGuard W p)" "emits G (cloakStatusForProfile W p)" "emits G (releaseKeptDevice W p)"
proof -
  show *: "emits G (tunnel_running W p)" for p
    unfolding tunnel_running_def by (intro emit ops)
  have "emits G (running_among W ps)" "emits G (other_running W pid ps)" for ps
    by (induction ps) (auto intro!: emit *)
  then show "emits G (findRunningWireGuardProfiles W)" "emits G (ensureNoOtherRunningWireGuard W pid)"
    "emits G (ensureNoRunningWireGuard W p)" "emits G (cloakStatusForProfile W p)" "emits G (releaseKeptDevice W p)"
    unfolding findRunningWireGuardProfiles_def ensureNoOtherRunningWireGuard_def ensureNoRunningWireGuard_def
      cloakStatusForProfile_def releaseKeptDevice_def Let_def
    by (intro emit ops *; simp)+
qed

lemma attach_op: "set (targets p) \<subseteq> S \<Longrightarrow> emits G (attachToRunningSession W p preferred)"
  unfolding attachToRunningSession_def restoreTransportForAdoption_def Let_def by (intro emit ops tr_start_op; simp)

lemma connect_parts [ops]:
  "emits G (armKillSwitchForAdoptedTunnel W p opts)" "emits G (fail_with W e)" "emits G (fail_at W what e)" "emits G (connect_adopted W p opts)"
  unfolding connect_adopted_def armKillSwitchForAdoptedTunnel_def fail_with_def fail_at_def Let_def by (intro emit ops; simp)+

lemma switch_parts [ops]:
  "emits G (refuse_switch W st old what e)" "emits G (pin_new_routes W old w)"
  unfolding refuse_switch_def pin_new_routes_def by (intro emit ops; simp)+

lemma lock_ops [ops]:
  "emits G (dropTunnelPermit W)" "emits G (releaseOrphanedLockSettings W)" "emits G hub_permits" "emits G (stop_tunnels W ps)"
  "emits G (verify_stopped W ps)" "emits G (sessionHeld W)" "emits G sessionInProgress" "emits G (PermitHosts W hosts)"
  "emits G (EngageKillSwitch W lan)" "emits G (ArmBootLock W)" "emits G (ClearTransportMemory W)" "emits G (UpdateConfig enc flt locked cfg)"
proof -
  show "emits G (verify_stopped W ps)"
    by (induction ps) (auto intro!: emit ops)
qed (unfold dropTunnelPermit_def releaseOrphanedLockSettings_def hub_permits_def stop_tunnels_def sessionHeld_def sessionInProgress_def
    PermitHosts_def routeAroundTunnel_def widen_lock_def EngageKillSwitch_def markKillSwitchLocked_def ArmBootLock_def
    ClearTransportMemory_def UpdateConfig_def Let_def, (intro emit ops; simp)+)

lemma proxy_op [ops]: "emits G (start_proxy W name run host)"
  unfolding start_proxy_def Let_def by (intro emit ops; simp)

text \<open>Only the user's own Disconnect lowers the lock.\<close>

lemma disconnect_op: "mode \<noteq> TeardownUser \<Longrightarrow> emits G (disconnect W mode)"
  unfolding disconnect_def disconnect_body_def settle_lock_def Let_def by (intro emit ops; simp)

end

context emitting begin

lemma unlock_ops:
  assumes "\<And>r. G (KsClear r)"
  shows "emits G (disconnect W mode)" "emits G (ClearKillSwitch W)"
  unfolding disconnect_def disconnect_body_def settle_lock_def ClearKillSwitch_def ks_clear_def Let_def
  by (intro emit ops emits_call assms; simp)+

lemma check_parts [ops]:
  "emits G (ensureTunnelDNS W p)" "emits G (ensureEndpointRoutes W p)" "emits G (try_op W)" "emits G (rx_rescued W p before)"
  "emits G (rearm_if_down W p opts)" "emits G (rebuild_ctx W w)" "emits G (after_rebuild W p keep e)" "emits G (book_attempt W cause err)"
  "emits G (sessionIsHealthy W p)"
  unfolding ensureTunnelDNS_def ensureEndpointRoutes_def try_op_def rx_rescued_def rearm_if_down_def rebuild_ctx_def after_rebuild_def
    book_attempt_def failed_attempt_def sessionIsHealthy_def Let_def
  by (intro emit ops; simp)+

lemma dead_op [ops]:
  assumes "emits G M"
  shows "emits G (dataPathIsDead W M p)"
proof -
  have "emits G (probe_round W iface servers)" for iface servers
    by (induction servers) (auto intro!: emit ops split: option.split)
  then show ?thesis unfolding dataPathIsDead_def Let_def by (intro emit ops assms; simp)
qed

text \<open>A dropped transport is restarted with the live profile.\<close>

lemma revive_op: "set (targets p) \<subseteq> S \<Longrightarrow> emits G (recoverActiveTransport W p kind)"
  unfolding recoverActiveTransport_def by (intro emit ops tr_start_op; simp)

end

context bringing begin

lemma connect_op: "set (targets p) \<subseteq> S \<Longrightarrow> emits G (connect_profile W p opts)"
  unfolding connect_profile_def connect_session_def connect_fresh_def connect_locked_def
  by (intro emit ops bring_up_op attach_op; simp)

lemma switch_op: "set (targets new) \<subseteq> S \<Longrightarrow> emits G (switch_session W st old new opts)"
  unfolding switch_session_def switch_over_def by (intro emit ops bring_up_op; simp)

end

text \<open>Operations that may dial any destination.\<close>

locale bringing_any = bringing +
  assumes any: "S = UNIV"
begin

lemma user_ops [ops]: "emits G (Connect W pid opts)" "emits G (Switch W pid opts)"
  unfolding Connect_def Switch_def switch_from_def by (intro emit ops connect_op switch_op; simp add: any)+

lemma rebuild_op [ops]: "emits G (rebuildSilentSession W p)"
  unfolding rebuildSilentSession_def rebuild_locked_def rebuild_armed_def Let_def
  by (intro emit ops bring_up_op; simp add: any)

end

context bringing_any begin

lemma attempt_op [ops]:
  assumes "emits G M"
  shows "emits G (attemptSessionRebuild W M p cause)"
  unfolding attemptSessionRebuild_def by (intro emit ops assms; simp)

lemma health_parts:
  assumes [ops]: "emits G M"
  shows "emits G (retryDroppedSession W M)" "emits G (escalateDeadDataPath W M p kind)" "emits G (tickUpstreamHold W M)"
    "emits G (check_connected W M)"
proof -
  show escalate: "emits G (escalateDeadDataPath W M p kind)" for p kind
    unfolding escalateDeadDataPath_def by (intro emit ops; simp)
  show "emits G (retryDroppedSession W M)"
    unfolding retryDroppedSession_def retry_dropped_def by (intro emit ops; simp)
  show "emits G (tickUpstreamHold W M)"
    unfolding tickUpstreamHold_def hold_over_def probe_upstream_def Let_def by (intro emit ops; simp)
  have "emits G (revive_transport W p kind)" for p kind
    unfolding revive_transport_def by (intro emit ops revive_op; simp add: any)
  then show "emits G (check_connected W M)"
    unfolding check_connected_def transport_up_def check_device_def check_lock_and_traffic_def
    by (intro emit ops escalate; simp)
qed

lemma health_op:
  assumes "emits G M"
  shows "emits G (runHealthCheck W M)"
  unfolding runHealthCheck_def by (intro emit ops health_parts assms; simp)

lemma startup_op: "emits G (reconcileStartup W)"
proof -
  have reapply: "emits G (reapply_lock W endpoints k n)" for endpoints k n
    by (induction n) (auto intro!: emit ops)
  have attach: "emits G (attachToRunningSession W p preferred)" for p preferred
    by (rule attach_op) (simp add: any)
  show ?thesis
    unfolding reconcileStartup_def reconcilePersistedKillSwitch_def reconcile_unknown_def recoverRecordedSession_def resume_recorded_def
      holdOrphanedLock_def allConfiguredTunnelNames_def adopt_at_startup_def reconcileKillSwitchForAdoptedTunnel_def Let_def
    by (intro emit ops reapply attach; simp)
qed

end

end
