(* ===== verification/Session_Verified.thy ===== *)
theory Session_Verified
  imports Session_Emits
begin

text \<open>What a bring-up that succeeds has seen: \<open>leaves m Q\<close> relates the result of a program to the events it appends, and
  the rules follow the shape of the program as in Session_Logic.\<close>

definition leaves :: "'a sess \<Rightarrow> ('a \<Rightarrow> event list \<Rightarrow> bool) \<Rightarrow> bool" where
  "leaves m Q \<longleftrightarrow> (\<forall>s. \<exists>es. sv_trace (snd (run_state m s)) = sv_trace s @ es \<and> Q (fst (run_state m s)) es)"

lemma leaves_bind:
  assumes "leaves m Q" and "\<And>x. leaves (f x) (R x)" and "\<And>x es y fs. Q x es \<Longrightarrow> R x y fs \<Longrightarrow> T y (es @ fs)"
  shows "leaves (State_Monad.bind m f) T"
proof (unfold leaves_def, intro allI)
  fix s
  obtain x t where run: "run_state m s = (x, t)" by (cases "run_state m s")
  then obtain es where es: "sv_trace t = sv_trace s @ es" "Q x es" using assms(1) unfolding leaves_def by (metis fst_conv snd_conv)
  obtain fs where "sv_trace (snd (run_state (f x) t)) = sv_trace t @ fs" "R x (fst (run_state (f x) t)) fs"
    using assms(2) [of x] unfolding leaves_def by blast
  then show "\<exists>es. sv_trace (snd (run_state (State_Monad.bind m f) s)) = sv_trace s @ es \<and> T (fst (run_state (State_Monad.bind m f) s)) es"
    using es assms(3) by (intro exI [of _ "es @ fs"]) (simp add: State_Monad.bind_def run)
qed

lemma leaves_weaken: "leaves m Q \<Longrightarrow> (\<And>x es. Q x es \<Longrightarrow> R x es) \<Longrightarrow> leaves m R"
  unfolding leaves_def by blast

lemma leaves_ret: "Q x [] \<Longrightarrow> leaves (ret x) Q"
  by (simp add: leaves_def State_Monad.return_def)

lemma leaves_emits: "emits G m \<Longrightarrow> (\<And>x es. list_all G es \<Longrightarrow> Q x es) \<Longrightarrow> leaves m Q"
  unfolding leaves_def emits_def runs_def by blast

lemma leaves_call: "(\<And>n. Q (f n) [ev (f n)]) \<Longrightarrow> leaves (call W f ev) Q"
  by (simp add: leaves_def call_def Let_def)

text \<open>A step whose events do not matter before one whose do.\<close>

lemma leaves_then:
  assumes "emits (\<lambda>_. True) m" and "\<And>x. leaves (f x) Q" and "\<And>y es fs. Q y fs \<Longrightarrow> Q y (es @ fs)"
  shows "leaves (State_Monad.bind m f) Q"
  by (rule leaves_bind [where Q = "\<lambda>_ _. True" and R = "\<lambda>_. Q"]) (auto intro: leaves_emits [OF assms(1)] assms(2,3))

text \<open>The same with a condition on the result of the first.\<close>

lemma leaves_after:
  assumes "runs (\<lambda>_. True) m P" and "\<And>x. P x \<Longrightarrow> leaves (f x) Q" and "\<And>y es fs. Q y fs \<Longrightarrow> Q y (es @ fs)"
  shows "leaves (State_Monad.bind m f) Q"
proof (unfold leaves_def, intro allI)
  fix s
  obtain x t where run: "run_state m s = (x, t)" by (cases "run_state m s")
  then obtain es where es: "sv_trace t = sv_trace s @ es" "P x" using assms(1) unfolding runs_def by (metis fst_conv snd_conv)
  obtain fs where "sv_trace (snd (run_state (f x) t)) = sv_trace t @ fs" "Q (fst (run_state (f x) t)) fs"
    using assms(2) [OF es(2)] unfolding leaves_def by blast
  then show "\<exists>es. sv_trace (snd (run_state (State_Monad.bind m f) s)) = sv_trace s @ es \<and> Q (fst (run_state (State_Monad.bind m f) s)) es"
    using es assms(3) by (intro exI [of _ "es @ fs"]) (simp add: State_Monad.bind_def run)
qed

section \<open>Evidence\<close>

text \<open>The device answers with a handshake newer than the bound; the kill switch lets the tunnel out; a resolver answered
  through the tunnel (or the host kept the probe from leaving), or the peer sent enough while none was heard.\<close>

definition shook :: "wireguard_profile \<Rightarrow> int \<Rightarrow> event list \<Rightarrow> bool" where
  "shook w bound es \<longleftrightarrow> (\<exists>st. WgStatus w (Inr st) \<in> set es \<and> ws_running st \<and> bound < ws_handshake st)"

definition permitted :: "event list \<Rightarrow> bool" where
  "permitted es \<longleftrightarrow> (\<exists>t. KsUpdate t None \<in> set es)"

definition accepted :: "go_err option \<Rightarrow> bool" where
  "accepted r = (case r of None \<Rightarrow> True
     | Some e \<Rightarrow> errors_Is ErrProbeConnRefused e \<or> errors_Is ErrProbeOversized e \<or> errors_Is ErrProbeInconclusive e)"

definition carried :: "world \<Rightarrow> wireguard_profile \<Rightarrow> event list \<Rightarrow> bool" where
  "carried W w es \<longleftrightarrow> w_probe W = None \<or> probe_servers w = [] \<or> (\<exists>iface server r. Probe iface server r \<in> set es \<and> accepted r)
     \<or> (\<exists>a b. WgStatus w (Inr a) \<in> set es \<and> WgStatus w (Inr b) \<in> set es \<and> dataPathRescueBytes \<le> ws_bytesIn b - ws_bytesIn a)"

lemma evidence_append [simp]:
  "shook w m (es @ fs) \<longleftrightarrow> shook w m es \<or> shook w m fs" "permitted (es @ fs) \<longleftrightarrow> permitted es \<or> permitted fs"
  by (auto simp: shook_def permitted_def)

lemma carried_append: "carried W w es \<or> carried W w fs \<Longrightarrow> carried W w (es @ fs)"
  by (auto simp: carried_def)

text \<open>Nothing takes the device, its transport or the lock away.\<close>

definition steady :: "event \<Rightarrow> bool" where
  "steady e = (case e of WgStart _ _ \<Rightarrow> False | WgStop _ _ \<Rightarrow> False | TrStop _ _ \<Rightarrow> False | KsClear _ \<Rightarrow> False | _ \<Rightarrow> True)"

lemma steady_state_ops:
  "emits steady (pause d)" "emits steady (now W)" "emits steady (ctx_err W)" "emits steady (ctx_pause W d)"
  "emits steady (wg_status_of W w)" "emits steady (ks_update W t)" "emits steady (set_state W st txt)"
  unfolding pause_def now_def ctx_err_def ctx_pause_def wg_status_of_def ks_update_def set_state_def
  by (intro emit emits_call; simp add: steady_def)+

text \<open>The same with the events steady: rules for results that may need evidence.\<close>

definition sees :: "'a sess \<Rightarrow> ('a \<Rightarrow> event list \<Rightarrow> bool) \<Rightarrow> bool" where
  "sees m Q \<longleftrightarrow> leaves m (\<lambda>x es. list_all steady es \<and> Q x es)"

named_theorems see "rules for the evidence a program leaves"

lemma sees_bind: "sees m Q \<Longrightarrow> (\<And>x. sees (f x) (R x)) \<Longrightarrow> (\<And>x es y fs. Q x es \<Longrightarrow> R x y fs \<Longrightarrow> T y (es @ fs)) \<Longrightarrow> sees (State_Monad.bind m f) T"
  unfolding sees_def by (rule leaves_bind [where Q = "\<lambda>x es. list_all steady es \<and> Q x es" and R = "\<lambda>x y es. list_all steady es \<and> R x y es"]) auto

lemma sees_emits: "emits steady m \<Longrightarrow> (\<And>x es. Q x es) \<Longrightarrow> sees m Q"
  unfolding sees_def by (rule leaves_emits) auto

lemma sees_ret [see]: "Q x [] \<Longrightarrow> sees (ret x) Q"
  unfolding sees_def by (rule leaves_ret) simp

lemma sees_then: "emits steady m \<Longrightarrow> (\<And>x. sees (f x) Q) \<Longrightarrow> (\<And>y es fs. Q y fs \<Longrightarrow> Q y (es @ fs)) \<Longrightarrow> sees (State_Monad.bind m f) Q"
  by (rule sees_bind [where Q = "\<lambda>_ _. True" and R = "\<lambda>_. Q"]) (auto intro: sees_emits)

lemma sees_map: "sees m Q \<Longrightarrow> (\<And>x es. Q x es \<Longrightarrow> T (g x) es) \<Longrightarrow> sees (State_Monad.bind m (\<lambda>x. ret (g x))) T"
  by (rule sees_bind [where Q = Q and R = "\<lambda>x y es. y = g x \<and> es = []"]) (auto intro: sees_ret)

lemma sees_call: "(\<And>n. steady (ev (f n)) \<and> Q (f n) [ev (f n)]) \<Longrightarrow> sees (call W f ev) Q"
  unfolding sees_def by (rule leaves_call) simp

lemma sees_shapes [see]:
  "(b \<Longrightarrow> sees m Q) \<Longrightarrow> (\<not> b \<Longrightarrow> sees k Q) \<Longrightarrow> sees (if b then m else k) Q"
  "(o' = None \<Longrightarrow> sees m Q) \<Longrightarrow> (\<And>y. o' = Some y \<Longrightarrow> sees (f y) Q) \<Longrightarrow> sees (case o' of None \<Rightarrow> m | Some y \<Rightarrow> f y) Q"
  "(\<And>y. r = Inl y \<Longrightarrow> sees (g y) Q) \<Longrightarrow> (\<And>y. r = Inr y \<Longrightarrow> sees (h y) Q) \<Longrightarrow> sees (case r of Inl y \<Rightarrow> g y | Inr y \<Rightarrow> h y) Q"
  by (auto split: option.split sum.split)

lemma sees_weaken: "sees m Q \<Longrightarrow> (\<And>x es. Q x es \<Longrightarrow> R x es) \<Longrightarrow> sees m R"
  unfolding sees_def by (erule leaves_weaken) simp

section \<open>The handshake\<close>

lemma steady_tunnel_ops:
  "emits steady (resolveWireGuardInterfaceName W w)" "emits steady (resolveTunnelRef W w)" "emits steady (probeServerOrder W servers)"
  unfolding resolveTunnelRef_def resolveWireGuardInterfaceName_def resolveTunnelLUID_def probeServerOrder_def Let_def
  by (intro emit emits_call; simp add: steady_def)+

lemma permit_seen: "sees (permit_tunnel W w) (\<lambda>r es. r = None \<longrightarrow> permitted es)"
  unfolding permit_tunnel_def ks_update_def
  by (rule sees_then [OF steady_tunnel_ops(2)], rule sees_call) (auto simp: steady_def permitted_def)

lemma beside_seen:
  assumes "sees job (\<lambda>r es. r = None \<longrightarrow> permitted es)"
  shows "sees (run_beside job at d) (\<lambda>r es. r = Some None \<longrightarrow> d = Some None \<or> permitted es)"
  unfolding run_beside_def
  by (intro see sees_map [OF assms]) auto

lemma polls_seen:
  assumes "sees job (\<lambda>r es. r = None \<longrightarrow> permitted es)"
  shows "sees (handshake_polls W w bound timeout deadline job k at d)
    (\<lambda>r es. (fst r = None \<longrightarrow> shook w bound es) \<and> (snd r = Some None \<longrightarrow> d = Some None \<or> permitted es))"
proof (induction k arbitrary: at d)
  case (Suc k)
  let ?Q = "\<lambda>d r es. (fst r = None \<longrightarrow> shook w bound es) \<and> (snd r = Some None \<longrightarrow> d = Some None \<or> permitted es)"
  have more: "?Q d y fs \<Longrightarrow> ?Q d y (es @ fs)" for d y es fs
    using evidence_append by blast
  have status: "sees (State_Monad.bind (wg_status_of W w) f) (?Q d)"
    if "\<And>st. sees (f st) (\<lambda>r es. ?Q d r (WgStatus w st # es))" for f d
  proof -
    have "sees (wg_status_of W w) (\<lambda>st es. es = [WgStatus w st])"
      unfolding wg_status_of_def by (rule sees_call) (simp add: steady_def)
    then show ?thesis by (rule sees_bind [OF _ that]) simp
  qed
  have again: "sees (handshake_polls W w bound timeout deadline job k at d) (\<lambda>r es. ?Q d r (WgStatus w st # es))" for at d st
    by (rule sees_weaken [OF Suc]) (use more [of _ _ _ "[WgStatus w st]"] in simp)
  show ?case unfolding handshake_polls.simps
  proof (rule sees_bind [OF beside_seen [OF assms]])
    fix d' show "sees (do {
       st \<leftarrow> wg_status_of W w;
       (case st of Inl e \<Rightarrow> ret (Some (wrapf ''wireguard status during handshake wait'' e), d')
        | Inr x \<Rightarrow>
            if \<not> ws_running x then ret (Some (Leaf ''wireguard interface went down before handshake''), d')
            else if bound < ws_handshake x then ret (None, d')
            else do {
              t \<leftarrow> now W;
              if deadline < t then ret (Some (Leaf (''no wireguard handshake within '' @ itoa timeout @ ''ms'')), d')
              else do {
                c \<leftarrow> ctx_pause W wireGuardHandshakePollInterval;
                case c of Some e \<Rightarrow> ret (Some e, d')
                | None \<Rightarrow> handshake_polls W w bound timeout deadline job k (at - 1) d' } }) }) (?Q d')"
      by (rule status, intro see sees_then [OF steady_state_ops(2)] sees_then [OF steady_state_ops(4)] again)
        (auto simp: shook_def permitted_def)
  next
    fix d' es y fs
    assume "d' = Some None \<longrightarrow> d = Some None \<or> permitted es" "?Q d' y fs"
    then show "?Q d y (es @ fs)" using evidence_append by blast
  qed
qed (simp add: sees_ret)

lemma handshake_seen:
  "sees (waitForWireGuardHandshake W cx w (permit_tunnel W w)) (\<lambda>r es. (fst r = None \<longrightarrow> shook w (cx_min cx) es) \<and> (snd r = None \<longrightarrow> permitted es))"
  (is "sees _ ?Q")
proof -
  have join: "sees (do { d \<leftarrow> (case snd r of Some d \<Rightarrow> ret d | None \<Rightarrow> permit_tunnel W w); ret (fst r, d) })
      (\<lambda>y fs. fst y = fst r \<and> (snd y = None \<longrightarrow> snd r = Some None \<or> permitted fs))" for r :: "go_err option \<times> go_err option option"
    by (cases "snd r") (auto intro!: see sees_map [OF permit_seen])
  show ?thesis unfolding waitForWireGuardHandshake_def Let_def
    by (rule sees_then [OF emits_gets], rule sees_then [OF steady_state_ops(2)], rule sees_bind [OF polls_seen [OF permit_seen] join])
      auto
qed

section \<open>The data path\<close>

definition probed :: "event list \<Rightarrow> bool" where
  "probed es \<longleftrightarrow> (\<exists>iface server r. Probe iface server r \<in> set es \<and> accepted r)"

lemma probed_append [simp]: "probed (es @ fs) \<longleftrightarrow> probed es \<or> probed fs"
  by (auto simp: probed_def)

lemma steady_ready: "emits steady (awaitTunnelReady W w deadline rounds)"
proof -
  have "emits steady (ready_polls W f w deadline k)" for f k
  proof (induction k)
    case (Suc k)
    show ?case unfolding ready_polls.simps by (intro emit steady_state_ops emits_call Suc; simp add: steady_def)
  qed (simp add: emit)
  then show ?thesis unfolding awaitTunnelReady_def by (intro emit)
qed

lemma rx_seen: "sees (peerRxBytes W w) (\<lambda>r es. \<forall>n. r = Some n \<longrightarrow> (\<exists>x. WgStatus w (Inr x) \<in> set es \<and> n = ws_bytesIn x))"
  unfolding peerRxBytes_def wg_status_of_def
  by (rule sees_map [OF sees_call [where Q = "\<lambda>r es. es = [WgStatus w r]"]]) (auto simp: steady_def split: sum.split)

lemma rounds_seen:
  assumes "w_probe W = Some f"
  shows "sees (gate_rounds W servers iface deadline k attempt delay lastErr) (\<lambda>r es. r = GatePass \<longrightarrow> probed es)"
proof (induction k arbitrary: attempt delay lastErr)
  case (Suc k)
  let ?Q = "\<lambda>r es. r = GatePass \<longrightarrow> probed es"
  have ask: "sees (State_Monad.bind (probe_call W iface server) g) ?Q"
    if "\<And>r. sees (g r) (\<lambda>y es. y = GatePass \<longrightarrow> accepted r \<or> probed es)" for server g
  proof -
    have "sees (probe_call W iface server) (\<lambda>r es. es = [Probe iface server r])"
      unfolding probe_call_def assms option.case by (rule sees_call) (simp add: steady_def)
    then show ?thesis by (rule sees_bind [OF _ that]) (auto simp: probed_def)
  qed
  have pause: "emits steady (if delay then ctx_pause W dataPathGateRetryDelay else ret None)"
    by (intro emit steady_state_ops)
  have again: "sees (gate_rounds W servers iface deadline k a d l) (\<lambda>y es. y = GatePass \<longrightarrow> accepted r \<or> probed es)" for a d l r
    by (rule sees_weaken [OF Suc]) simp
  show ?case unfolding gate_rounds.simps Let_def
    by (intro see sees_then [OF pause] ask sees_then [OF steady_state_ops(3)] sees_then [OF steady_state_ops(2)] again)
      (auto simp: accepted_def split: option.split)
qed (simp add: sees_ret)

lemma rescue_seen:
  "sees (gate_rescue W w before lastErr) (\<lambda>r es. r = None \<longrightarrow> (\<exists>n b. before = Some n \<and> WgStatus w (Inr b) \<in> set es \<and> dataPathRescueBytes \<le> ws_bytesIn b - n))"
  unfolding gate_rescue_def by (intro see sees_map [OF rx_seen]) (auto split: option.split)

lemma gate_seen: "sees (proveDataPath W w) (\<lambda>r es. r = None \<longrightarrow> carried W w es)"
proof (cases "w_probe W")
  case None
  then show ?thesis by (simp add: proveDataPath_def sees_ret carried_def)
next
  case (Some f)
  let ?rx = "\<lambda>before es. \<forall>n. before = Some n \<longrightarrow> (\<exists>x. WgStatus w (Inr x) \<in> set es \<and> n = ws_bytesIn x)"
  let ?Q = "\<lambda>before r es. r = None \<longrightarrow> probed es \<or> (\<exists>n b. before = Some n \<and> WgStatus w (Inr b) \<in> set es \<and> dataPathRescueBytes \<le> ws_bytesIn b - n)"
  have finish: "sees (do {
       r \<leftarrow> gate_rounds W servers iface deadline k 0 False None;
       case r of GatePass \<Rightarrow> ret None | GateStop e \<Rightarrow> ret (Some e) | GateSilent lastErr \<Rightarrow> gate_rescue W w before lastErr }) (?Q before)"
    for servers iface deadline k before
  proof (rule sees_bind [OF rounds_seen [OF Some]])
    fix r show "sees (case r of GatePass \<Rightarrow> ret None | GateStop e \<Rightarrow> ret (Some e) | GateSilent lastErr \<Rightarrow> gate_rescue W w before lastErr)
      (\<lambda>y es. y = None \<longrightarrow> r = GatePass \<or> (\<exists>n b. before = Some n \<and> WgStatus w (Inr b) \<in> set es \<and> dataPathRescueBytes \<le> ws_bytesIn b - n))"
      by (cases r) (auto intro: sees_ret sees_weaken [OF rescue_seen])
  qed auto
  have measured: "sees (do {
       before \<leftarrow> peerRxBytes W w;
       r \<leftarrow> gate_rounds W servers iface deadline k 0 False None;
       case r of GatePass \<Rightarrow> ret None | GateStop e \<Rightarrow> ret (Some e) | GateSilent lastErr \<Rightarrow> gate_rescue W w before lastErr })
      (\<lambda>r es. r = None \<longrightarrow> carried W w es)" for servers iface deadline k
    by (rule sees_bind [OF rx_seen finish]) (unfold carried_def probed_def set_append Un_iff, blast)
  have more: "(r = None \<longrightarrow> carried W w fs) \<Longrightarrow> (r = None \<longrightarrow> carried W w (es @ fs))" for r :: "go_err option" and es fs
    by (simp add: carried_append)
  show ?thesis unfolding proveDataPath_def Let_def
    by (intro sees_shapes sees_ret measured more sees_then [OF steady_tunnel_ops(3)] sees_then [OF steady_state_ops(2)]
        sees_then [OF steady_ready] sees_then [OF steady_tunnel_ops(1)]) (auto simp: Some carried_def)
qed

section \<open>The bring-up\<close>

definition verified :: "world \<Rightarrow> int \<Rightarrow> event list \<Rightarrow> bool" where
  "verified W bound es \<longleftrightarrow> (\<exists>w pre fs. es = pre @ WgStart w None # fs \<and> list_all steady fs \<and> shook w bound fs \<and> permitted fs \<and> carried W w fs)"

lemma verified_after: "verified W bound fs \<Longrightarrow> verified W bound (es @ fs)"
  unfolding verified_def by (metis append.assoc)

lemma verified_before: "verified W bound es \<Longrightarrow> list_all steady fs \<Longrightarrow> verified W bound (es @ fs)"
  unfolding verified_def by (fastforce intro: carried_append)

lemma traffic_seen: "sees (check_traffic W cx kind w) (\<lambda>r es. r = None \<longrightarrow> shook w (cx_min cx) es \<and> permitted es \<and> carried W w es)"
proof -
  have path: "sees (do { set_state W StateConnecting detail; e \<leftarrow> proveDataPath W w; ret (map_option (wrapf kind) e) })
      (\<lambda>r es. r = None \<longrightarrow> carried W w es)" for detail
    by (rule sees_then [OF steady_state_ops(7)], rule sees_map [OF gate_seen]) (auto simp: carried_append)
  have rest: "sees (case r of (Some e, _) \<Rightarrow> ret (Some (wrapf kind e))
     | (None, Some e) \<Rightarrow> ret (Some (wrapf (kind @ '': kill switch tunnel update'') e))
     | (None, None) \<Rightarrow> do { set_state W StateConnecting (''checking traffic over '' @ kind); e \<leftarrow> proveDataPath W w; ret (map_option (wrapf kind) e) })
      (\<lambda>y es. y = None \<longrightarrow> r = (None, None) \<and> carried W w es)" for r :: "go_err option \<times> go_err option"
    by (cases r; cases "fst r"; cases "snd r") (auto intro: sees_ret sees_weaken [OF path])
  show ?thesis unfolding check_traffic_def
    by (rule sees_then [OF steady_state_ops(7)], rule sees_bind [OF handshake_seen rest]) (auto simp: carried_append)
qed

lemma device_verified: "leaves (start_device W cx kind w) (\<lambda>r es. r = None \<longrightarrow> verified W (cx_min cx) es)"
proof -
  let ?Q = "\<lambda>r es. r = None \<longrightarrow> verified W (cx_min cx) es"
  have any: "emits (\<lambda>_. True) (set_state W st detail)" for st detail
    by (rule emits_mono [OF steady_state_ops(7)]) simp
  have check: "sees (do {
       st \<leftarrow> wg_status_of W w;
       case st of Inl x \<Rightarrow> ret (Some (wrapf (kind @ '': wireguard status'') x))
       | Inr y \<Rightarrow>
           if \<not> ws_running y then ret (Some (Leaf (kind @ '': wireguard failed to reach running state: '' @ ws_detail y)))
           else check_traffic W cx kind w })
     (\<lambda>r es. r = None \<longrightarrow> shook w (cx_min cx) es \<and> permitted es \<and> carried W w es)"
    by (intro sees_then [OF steady_state_ops(5)] see traffic_seen) (auto simp: carried_append)
  have started: "leaves (case e of Some x \<Rightarrow> ret (Some (wrapf (kind @ '': wireguard start'') x))
     | None \<Rightarrow> do {
         st \<leftarrow> wg_status_of W w;
         case st of Inl x \<Rightarrow> ret (Some (wrapf (kind @ '': wireguard status'') x))
         | Inr y \<Rightarrow>
             if \<not> ws_running y then ret (Some (Leaf (kind @ '': wireguard failed to reach running state: '' @ ws_detail y)))
             else check_traffic W cx kind w })
     (\<lambda>r es. r = None \<longrightarrow> e = None \<and> list_all steady es \<and> shook w (cx_min cx) es \<and> permitted es \<and> carried W w es)" for e
    by (cases e) (auto intro: leaves_ret leaves_weaken [OF check [unfolded sees_def]])
  have start: "leaves (wg_start W w) (\<lambda>e es. es = [WgStart w e])"
    unfolding wg_start_def by (rule leaves_call) simp
  show ?thesis unfolding start_device_def
  proof (rule leaves_then [OF any])
    show "leaves (do {
       e \<leftarrow> wg_start W w;
       case e of Some x \<Rightarrow> ret (Some (wrapf (kind @ '': wireguard start'') x))
       | None \<Rightarrow> do {
           st \<leftarrow> wg_status_of W w;
           case st of Inl x \<Rightarrow> ret (Some (wrapf (kind @ '': wireguard status'') x))
           | Inr y \<Rightarrow>
               if \<not> ws_running y then ret (Some (Leaf (kind @ '': wireguard failed to reach running state: '' @ ws_detail y)))
               else check_traffic W cx kind w } }) ?Q"
      by (rule leaves_bind [OF start started]) (unfold verified_def, metis append_Cons append_Nil)
  qed (simp add: verified_after)
qed

interpretation free: bringing_any "\<lambda>_. True" UNIV
  by unfold_locales simp_all

lemma candidate_verified:
  assumes "dials (\<lambda>_. True) UNIV start"
  shows "leaves (bringUpTransport W cx p w kind start) (\<lambda>r es. fst r = None \<longrightarrow> verified W (cx_min cx) es)"
proof -
  have begun: "emits (\<lambda>_. True) (start p w)"
    using assms by (auto simp: dials_def intro: runs_emits)
  have device: "leaves (case e of Some x \<Rightarrow> ret (Some (wrapf kind x)) | None \<Rightarrow> start_device W cx kind v)
      (\<lambda>r es. r = None \<longrightarrow> verified W (cx_min cx) es)" for e v
    by (cases e) (auto intro: leaves_ret device_verified)
  have settle: "leaves (do { (if e = None then ret () else cleanup_candidate W cx kind q v); ret (e, q, v) })
      (\<lambda>r es. fst r = e \<and> (e = None \<longrightarrow> es = []))" for e q v
  proof (cases e)
    case (Some x)
    have "leaves (do { cleanup_candidate W cx kind q v; ret (e, q, v) }) (\<lambda>r es. r = (e, q, v))"
      by (rule leaves_then [OF free.cleanup_op]) (auto intro: leaves_ret)
    then have "leaves (do { cleanup_candidate W cx kind q v; ret (e, q, v) }) (\<lambda>r es. fst r = e \<and> (e = None \<longrightarrow> es = []))"
      by (rule leaves_weaken) (simp add: Some)
    then show ?thesis by (simp add: Some)
  qed (simp add: leaves_ret)
  show ?thesis unfolding bringUpTransport_def Let_def
    by (rule leaves_then [OF begun], rule leaves_bind [OF device settle]) (auto intro: verified_after)
qed

lemma candidates_verified:
  assumes "\<forall>c \<in> set cs. dials (\<lambda>_. True) UNIV (cand_start c)"
  shows "leaves (try_candidates W cx auto w cs p failures) (\<lambda>r es. \<not> isl (fst r) \<longrightarrow> verified W (cx_min cx) es)"
  using assms
proof (induction cs arbitrary: p failures)
  case (Cons c cs)
  let ?Q = "\<lambda>r es. \<not> isl (fst r) \<longrightarrow> verified W (cx_min cx) es"
  have rest: "leaves (do {
       ended \<leftarrow> ctx_err W;
       case ended of Some x \<Rightarrow> ret (Inl x, q, w)
       | None \<Rightarrow> do {
           offline \<leftarrow> (if hostNetworkUnreachable e then ret True else hostOffline W);
           if offline then ret (Inl (host_offline_err e), q, w)
           else try_candidates W cx auto w cs q (failures @ [e]) } }) ?Q" for e q
  proof (rule leaves_then [OF free.state_ops(3)])
    fix ended show "leaves (case ended of Some x \<Rightarrow> ret (Inl x, q, w)
       | None \<Rightarrow> do {
           offline \<leftarrow> (if hostNetworkUnreachable e then ret True else hostOffline W);
           if offline then ret (Inl (host_offline_err e), q, w)
           else try_candidates W cx auto w cs q (failures @ [e]) }) ?Q"
    proof (cases ended)
      case None
      have "emits (\<lambda>_. True) (if hostNetworkUnreachable e then ret True else hostOffline W)" by (intro emit ops)
      then show ?thesis unfolding None option.case
        by (rule leaves_then) (use Cons in \<open>auto intro: leaves_ret verified_after\<close>)
    qed (simp add: leaves_ret)
  qed (simp add: verified_after)
  show ?case unfolding try_candidates.simps
  proof (rule leaves_then [OF free.bring_parts(3)], rule leaves_bind)
    show "leaves (bringUpTransport W cx p w (cand_kind c) (cand_start c)) (\<lambda>r es. fst r = None \<longrightarrow> verified W (cx_min cx) es)"
      using Cons.prems by (intro candidate_verified) simp
    fix r show "leaves (case r of (None, p', attempt) \<Rightarrow> ret (Inr (cand_kind c), p', attempt)
       | (Some e, p', _) \<Rightarrow> do {
           ended \<leftarrow> ctx_err W;
           case ended of Some x \<Rightarrow> ret (Inl x, p', w)
           | None \<Rightarrow> do {
               offline \<leftarrow> (if hostNetworkUnreachable e then ret True else hostOffline W);
               if offline then ret (Inl (host_offline_err e), p', w)
               else try_candidates W cx auto w cs p' (failures @ [e]) } })
       (\<lambda>y es. if fst r = None then es = [] else ?Q y es)"
      by (cases r; cases "fst r") (simp_all add: leaves_ret rest del: if_split_asm split del: if_split)
  qed (auto simp: verified_after split: if_splits)
qed (simp add: leaves_ret)

lemma cascade_verified:
  "leaves (startTransportWithHandshake W cx p w preferred network) (\<lambda>r es. \<not> isl (fst r) \<longrightarrow> verified W (cx_min cx) es)"
proof (cases "transportCandidates W p preferred")
  case (Inr cs)
  let ?Q = "\<lambda>r es. \<not> isl (fst r) \<longrightarrow> verified W (cx_min cx) es"
  have tail: "leaves (do { setConnectingTransportKind []; ret r }) (\<lambda>y es. y = r \<and> list_all steady es)" for r :: brought
  proof -
    have "sees (do { setConnectingTransportKind []; ret r }) (\<lambda>y es. y = r)"
      by (rule sees_then) (auto simp: setConnectingTransportKind_def intro: emit sees_ret)
    then show ?thesis unfolding sees_def by (rule leaves_weaken) simp
  qed
  have walk: "leaves (do { r \<leftarrow> try_candidates W cx auto w ordered p []; setConnectingTransportKind []; ret r }) ?Q"
    if "set ordered \<subseteq> set cs" for auto ordered
    by (rule leaves_bind [OF candidates_verified tail])
      (use that free.candidates_dial [OF Inr] in \<open>auto intro: verified_before\<close>)
  have more: "?Q y fs \<Longrightarrow> ?Q y (es @ fs)" for y es fs by (simp add: verified_after)
  show ?thesis unfolding startTransportWithHandshake_def Inr sum.case
    by (rule leaves_after [OF free.reorder_run leaves_after [OF free.lead_run walk more] more]) auto
qed (simp add: startTransportWithHandshake_def leaves_ret)

lemma adopt_seen: "leaves (adopt_brought W opts network kind p)
    (\<lambda>_ es. \<exists>fs. es = fs @ [SetState StateConnected ''tunnel active''] \<and> list_all steady fs)"
proof -
  let ?Q = "\<lambda>_ es. \<exists>fs. es = fs @ [SetState StateConnected ''tunnel active''] \<and> list_all steady fs"
  have book: "emits steady (rememberTransport W network kind)" "emits steady (refreshReachBaseline W network p)"
    "emits steady (setCurrentProfile W p)" "emits steady (setSessionOpts W opts)" "emits steady clearOfflineHold" "emits steady clearUpstreamHold"
    "emits steady (setKeptDeviceDead False)" "emits steady (setActiveTransportKind kind)" "emits steady resetEndpointRouteRepairs"
    unfolding rememberTransport_def refreshReachBaseline_def setCurrentProfile_def setSessionOpts_def clearOfflineHold_def
      clearUpstreamHold_def setKeptDeviceDead_def setActiveTransportKind_def resetEndpointRouteRepairs_def resetDNSProbe_def
      setTransportsExhausted_def Let_def
    by (intro emit steady_state_ops emits_call; simp add: steady_def clear_upstream_def)+
  have last: "leaves (set_state W StateConnected ''tunnel active'') ?Q"
    by (auto simp: leaves_def set_state_def call_def modify_def Let_def list_all_iff)
  have before: "leaves (State_Monad.bind m f) ?Q" if "emits steady m" "\<And>x. leaves (f x) ?Q" for m :: "'x sess" and f :: "'x \<Rightarrow> unit sess"
    by (rule leaves_bind [OF leaves_emits [OF that(1)] that(2), where Q = "\<lambda>_. list_all steady"]) auto
  show ?thesis unfolding adopt_brought_def by (intro before book last)
qed

section \<open>A session is connected only when it works\<close>

definition connected_after :: "world \<Rightarrow> int \<Rightarrow> event list \<Rightarrow> bool" where
  "connected_after W bound es \<longleftrightarrow> (\<exists>fs. es = fs @ [SetState StateConnected ''tunnel active''] \<and> verified W bound fs)"

lemma connected_later: "connected_after W bound fs \<Longrightarrow> connected_after W bound (es @ fs)"
  unfolding connected_after_def using verified_after by fastforce

lemma bring_up_with_connects: "leaves (bring_up_with W cx p opts w) (\<lambda>r es. r = None \<longrightarrow> connected_after W (cx_min cx) es)"
proof -
  let ?Q = "\<lambda>r es. r = None \<longrightarrow> connected_after W (cx_min cx) es"
  have more: "?Q y fs \<Longrightarrow> ?Q y (es @ fs)" for y :: "go_err option" and es fs by (simp add: connected_later)
  have failed: "leaves (if errors_Is ErrHostOffline e then do { holdBringUpOffline W netGen network; ret (Some e) }
         else do { clearOfflineHold; setError W (''transport start failed: '' @ err_text e); ret (Some e) }) (\<lambda>y es. y \<noteq> None)" for e netGen network
    by (auto intro!: leaves_then [OF free.session_book_ops(5)] leaves_then [OF free.timer_ops(10)] leaves_then [OF free.state_ops(17)] leaves_ret)
  have rest: "leaves (case r of (Inl e, _) \<Rightarrow>
         if errors_Is ErrHostOffline e then do { holdBringUpOffline W netGen network; ret (Some e) }
         else do { clearOfflineHold; setError W (''transport start failed: '' @ err_text e); ret (Some e) }
     | (Inr kind, p', _) \<Rightarrow> do { adopt_brought W opts network kind p'; ret None })
     (\<lambda>y es. y = None \<longrightarrow> \<not> isl (fst r) \<and> (\<exists>fs. es = fs @ [SetState StateConnected ''tunnel active''] \<and> list_all steady fs))"
    for r :: brought and netGen network
  proof (cases "fst r")
    case (Inl e)
    have "leaves (if errors_Is ErrHostOffline e then do { holdBringUpOffline W netGen network; ret (Some e) }
         else do { clearOfflineHold; setError W (''transport start failed: '' @ err_text e); ret (Some e) })
       (\<lambda>y es. y = None \<longrightarrow> False)"
      by (rule leaves_weaken [OF failed]) simp
    moreover obtain a b where "r = (Inl e, a, b)" using Inl by (metis prod.collapse)
    ultimately show ?thesis by simp
  next
    case (Inr kind)
    have "leaves (do { adopt_brought W opts network kind q; ret (None :: go_err option) })
       (\<lambda>y es. \<exists>fs. es = fs @ [SetState StateConnected ''tunnel active''] \<and> list_all steady fs)" for q
      by (rule leaves_bind [OF adopt_seen leaves_ret [where Q = "\<lambda>_ es. es = []"]]) auto
    moreover obtain a b where "r = (Inr kind, a, b)" using Inr by (metis prod.collapse)
    ultimately show ?thesis by (auto intro: leaves_weaken)
  qed
  show ?thesis unfolding bring_up_with_def
    by (rule leaves_then [OF free.state_ops(14)], rule leaves_then [OF emits_gets], rule leaves_then [OF free.state_ops(21)],
        rule leaves_bind [OF cascade_verified rest])
      (auto simp: connected_after_def intro: verified_before verified_after)
qed

lemma bring_up_connects: "leaves (bringUpAfterKillSwitch W cx p opts) (\<lambda>r es. r = None \<longrightarrow> connected_after W (cx_min cx) es)"
proof -
  let ?Q = "\<lambda>r es. r = None \<longrightarrow> connected_after W (cx_min cx) es"
  have failed: "leaves (do { setError W detail; ret (Some e) }) ?Q" for detail and e :: go_err
    by (rule leaves_then [OF free.state_ops(17) leaves_ret]) (auto simp: connected_later)
  have tried: "leaves (case r of Inl e \<Rightarrow> do { setError W (what e); ret (Some e) } | Inr w \<Rightarrow> bring_up_with W cx p opts w) ?Q"
    for what and r :: "(go_err, wireguard_profile) result"
    by (cases r) (simp_all add: failed bring_up_with_connects)
  have undo: "leaves (do { when_m (e \<noteq> None) (do { updateAppliedSplit f; startNetworkRepair W interrupted }); ret e })
      (\<lambda>y es. y = e \<and> (e = None \<longrightarrow> es = []))" for e :: "go_err option" and f interrupted
  proof (cases e)
    case (Some x)
    have "leaves (do { do { updateAppliedSplit f; startNetworkRepair W interrupted }; ret e }) (\<lambda>y es. y = e)"
      by (rule leaves_then) (auto intro!: emit ops leaves_ret)
    then have "leaves (do { do { updateAppliedSplit f; startNetworkRepair W interrupted }; ret e }) (\<lambda>y es. y = e \<and> (e = None \<longrightarrow> es = []))"
      by (rule leaves_weaken) (simp add: Some)
    then show ?thesis by (simp add: when_m_def Some)
  qed (simp add: when_m_def leaves_ret)
  show ?thesis unfolding bringUpAfterKillSwitch_def
    by (rule leaves_then [OF free.session_book_ops(2)], rule leaves_then [OF free.split_routes_ops(2)], rule leaves_bind [OF tried undo])
      (auto simp: connected_later)
qed


end
