(* ===== verification/Session_Safety.thy ===== *)
theory Session_Safety
  imports Session_Emits
begin

text \<open>What holds of the session over any sequence of its operations: the lock is lowered only by the user, the device
  starts only behind it, and a session the user asked for dials only where its hop says.  A health check runs other
  operations while it does not hold opMu; they are the operations of its list.\<close>

section \<open>Operations\<close>

datatype session_op =
    OpConnect string connect_options | OpSwitch string connect_options | OpDisconnect bool | OpShutdown
  | OpClearKillSwitch | OpPermitHosts "string list" | OpEngage bool | OpBootLock | OpUpdateConfig fault bool config
  | OpProxy string "(nat \<Rightarrow> (go_err, int) result) option" string | OpClearMemory
  | OpSplitUpdate string string "string \<Rightarrow> bool" rule_env bool split_update | OpReconcileSplit | OpSplitTick
  | OpHealth "session_op list" | OpTask nat | OpResume | OpNetworkChanged | OpStartup

lemma for_each_cong [fundef_cong]: "xs = ys \<Longrightarrow> (\<And>x. x \<in> set ys \<Longrightarrow> f x = g x) \<Longrightarrow> for_each xs f = for_each ys g"
  by (induction xs arbitrary: ys) auto

definition unit_of :: "'a sess \<Rightarrow> unit sess" where
  "unit_of m = do { m; ret () }"

fun run_op :: "world \<Rightarrow> codec_enc \<Rightarrow> session_op \<Rightarrow> unit sess" where
  "run_op W enc (OpConnect pid opts) = unit_of (Connect W pid opts)"
| "run_op W enc (OpSwitch pid opts) = unit_of (Switch W pid opts)"
| "run_op W enc (OpDisconnect keep) = unit_of (Disconnect W keep)"
| "run_op W enc OpShutdown = unit_of (Shutdown W)"
| "run_op W enc OpClearKillSwitch = unit_of (ClearKillSwitch W)"
| "run_op W enc (OpPermitHosts hosts) = unit_of (PermitHosts W hosts)"
| "run_op W enc (OpEngage lan) = unit_of (EngageKillSwitch W lan)"
| "run_op W enc OpBootLock = unit_of (ArmBootLock W)"
| "run_op W enc (OpUpdateConfig flt locked cfg) = unit_of (UpdateConfig enc flt locked cfg)"
| "run_op W enc (OpProxy name run host) = unit_of (start_proxy W name run host)"
| "run_op W enc OpClearMemory = unit_of (ClearTransportMemory W)"
| "run_op W enc (OpSplitUpdate goos self isAbs env wrote u) = unit_of (UpdateSplitTunnel goos self isAbs env wrote u)"
| "run_op W enc OpReconcileSplit = reconcileSplit W"
| "run_op W enc OpSplitTick = splitTick W"
| "run_op W enc (OpHealth meanwhile) = runHealthCheck W (for_each meanwhile (run_op W enc))"
| "run_op W enc (OpTask i) = run_task W i"
| "run_op W enc OpResume = onSystemResume W"
| "run_op W enc OpNetworkChanged = onNetworkChanged W"
| "run_op W enc OpStartup = reconcileStartup W"

definition run_ops :: "world \<Rightarrow> codec_enc \<Rightarrow> session_op list \<Rightarrow> svc \<Rightarrow> svc" where
  "run_ops W enc ops s = snd (run_state (for_each ops (run_op W enc)) s)"

text \<open>The operations by which the user lowers the lock.\<close>

fun unlocks :: "session_op \<Rightarrow> bool" where
  "unlocks (OpDisconnect keep) = (\<not> keep)"
| "unlocks OpClearKillSwitch = True"
| "unlocks (OpHealth meanwhile) = list_ex unlocks meanwhile"
| "unlocks _ = False"

section \<open>The lock is lowered only by the user\<close>

definition lowers :: "event \<Rightarrow> bool" where
  "lowers e = (case e of KsClear _ \<Rightarrow> True | _ \<Rightarrow> False)"

definition keeps_lock :: "event \<Rightarrow> bool" where
  "keeps_lock e \<longleftrightarrow> \<not> lowers e"

interpretation locked: bringing_any keeps_lock UNIV
  by unfold_locales (auto simp: keeps_lock_def lowers_def quiet_event_def split: event.splits)

lemma emits_unit_of [emit]: "emits G m \<Longrightarrow> emits G (unit_of m)"
  unfolding unit_of_def by (intro emit)

lemma emits_ops: "(\<And>op. op \<in> set ops \<Longrightarrow> emits G (f op)) \<Longrightarrow> emits G (for_each ops f)"
  by (induction ops) (auto intro!: emit)

lemma op_keeps_lock: "\<not> unlocks op \<Longrightarrow> emits keeps_lock (run_op W enc op)"
proof (induction op rule: unlocks.induct)
  case (3 meanwhile)
  then show ?case by (auto intro!: locked.health_op emits_ops simp: list_ex_iff)
qed (auto intro!: emit ops locked.user_ops locked.disconnect_op locked.lock_ops locked.proxy_op locked.update_split_op locked.reconcile_ops
    locked.run_task_op locked.timer_ops locked.startup_op simp: Disconnect_def Shutdown_def)

text \<open>C2: no sequence of operations lowers the kill switch unless the user asked for it: without a plain Disconnect and
  without the manual clear, neither connecting, switching, failing, rebuilding, shutting down, starting up nor a health
  check calls Clear.\<close>

theorem lock_never_lowered:
  assumes "\<not> list_ex unlocks ops"
  shows "filter lowers (sv_trace (run_ops W enc ops s)) = filter lowers (sv_trace s)"
proof -
  have "emits keeps_lock (for_each ops (run_op W enc))"
    using assms by (intro emits_ops op_keeps_lock) (auto simp: list_ex_iff)
  then obtain es where "sv_trace (run_ops W enc ops s) = sv_trace s @ es" "list_all keeps_lock es"
    unfolding emits_def runs_def run_ops_def by blast
  then show ?thesis by (auto simp: keeps_lock_def filter_empty_conv list_all_iff)
qed

section \<open>The device starts only behind the lock\<close>

text \<open>What shows that the lock is up, and a trace in which every start of the device comes after such an event with no
  clear in between.\<close>

definition arms :: "event \<Rightarrow> bool" where
  "arms e = (case e of KsEnable _ _ _ None \<Rightarrow> True | KsActive True \<Rightarrow> True | _ \<Rightarrow> False)"

definition armed_by :: "bool \<Rightarrow> event \<Rightarrow> bool" where
  "armed_by a e \<longleftrightarrow> \<not> lowers e \<and> (a \<or> arms e)"

fun behind_lock :: "bool \<Rightarrow> event list \<Rightarrow> bool" where
  "behind_lock a [] = True"
| "behind_lock a (e # es) = ((case e of WgStart _ _ \<Rightarrow> a | _ \<Rightarrow> True) \<and> behind_lock (armed_by a e) es)"

lemma behind_lock_append: "behind_lock a (es @ fs) \<longleftrightarrow> behind_lock a es \<and> behind_lock (foldl armed_by a es) fs"
  by (induction es arbitrary: a) auto

lemma behind_lock_weaken: "behind_lock a es \<Longrightarrow> (a \<longrightarrow> b) \<Longrightarrow> behind_lock b es"
proof (induction es arbitrary: a b)
  case (Cons e es)
  have "behind_lock (armed_by b e) es"
    by (rule Cons.IH [of "armed_by a e"]) (use Cons.prems in \<open>auto simp: armed_by_def\<close>)
  then show ?case using Cons.prems by (cases e) simp_all
qed simp

lemma behind_lock_mono: "behind_lock False es \<Longrightarrow> behind_lock a es"
  by (erule behind_lock_weaken) simp

text \<open>An operation is guarded when its own events are behind the lock, whatever came before; it arms when it also ends
  with the lock known to be up unless it fails.\<close>

definition guarded :: "'a sess \<Rightarrow> bool" where
  "guarded m \<longleftrightarrow> (\<forall>s. \<exists>es. sv_trace (snd (run_state m s)) = sv_trace s @ es \<and> behind_lock False es)"

definition arming :: "'a option sess \<Rightarrow> bool" where
  "arming m \<longleftrightarrow> (\<forall>s. \<exists>es. sv_trace (snd (run_state m s)) = sv_trace s @ es \<and> behind_lock False es \<and>
     (fst (run_state m s) = None \<longrightarrow> foldl armed_by False es))"

definition no_start :: "event \<Rightarrow> bool" where
  "no_start e = (case e of WgStart _ _ \<Rightarrow> False | _ \<Rightarrow> True)"

interpretation idle: emitting no_start UNIV
  by unfold_locales (auto simp: no_start_def quiet_event_def split: event.splits)

lemma no_start_behind: "list_all no_start es \<Longrightarrow> behind_lock a es"
  by (induction es arbitrary: a) (auto simp: no_start_def split: event.splits)

lemma keeps_lock_behind: "list_all keeps_lock es \<Longrightarrow> behind_lock True es"
  by (induction es) (auto simp: keeps_lock_def armed_by_def split: event.splits)

lemma guarded_idle: "emits no_start m \<Longrightarrow> guarded m"
  unfolding emits_def runs_def guarded_def using no_start_behind by blast

named_theorems guard "rules for guarded programs"

lemma guarded_bind [guard]: "guarded m \<Longrightarrow> (\<And>x. guarded (f x)) \<Longrightarrow> guarded (State_Monad.bind m f)"
proof (unfold guarded_def, intro allI)
  fix s assume m: "\<forall>s. \<exists>es. sv_trace (snd (run_state m s)) = sv_trace s @ es \<and> behind_lock False es"
    and f: "\<And>x. \<forall>s. \<exists>es. sv_trace (snd (run_state (f x) s)) = sv_trace s @ es \<and> behind_lock False es"
  obtain x t where run: "run_state m s = (x, t)" by (cases "run_state m s")
  then obtain es where "sv_trace t = sv_trace s @ es" "behind_lock False es" using spec [OF m, of s] by auto
  moreover obtain es' where "sv_trace (snd (run_state (f x) t)) = sv_trace t @ es'" "behind_lock False es'"
    using spec [OF f [of x], of t] by blast
  ultimately show "\<exists>es. sv_trace (snd (run_state (State_Monad.bind m f) s)) = sv_trace s @ es \<and> behind_lock False es"
    by (intro exI [of _ "es @ es'"]) (simp add: State_Monad.bind_def run behind_lock_append behind_lock_mono)
qed

lemma guarded_shapes [guard]:
  "(b \<Longrightarrow> guarded m) \<Longrightarrow> (\<not> b \<Longrightarrow> guarded k) \<Longrightarrow> guarded (if b then m else k)"
  "(o' = None \<Longrightarrow> guarded m) \<Longrightarrow> (\<And>y. o' = Some y \<Longrightarrow> guarded (f y)) \<Longrightarrow> guarded (case o' of None \<Rightarrow> m | Some y \<Rightarrow> f y)"
  "(\<And>y. r = Inl y \<Longrightarrow> guarded (g y)) \<Longrightarrow> (\<And>y. r = Inr y \<Longrightarrow> guarded (h y)) \<Longrightarrow> guarded (case r of Inl y \<Rightarrow> g y | Inr y \<Rightarrow> h y)"
  "(\<And>y z. q = (y, z) \<Longrightarrow> guarded (i y z)) \<Longrightarrow> guarded (case q of (y, z) \<Rightarrow> i y z)"
  "(c \<Longrightarrow> guarded m) \<Longrightarrow> (\<not> c \<Longrightarrow> guarded k) \<Longrightarrow> guarded (case c of True \<Rightarrow> m | False \<Rightarrow> k)"
  "(b \<Longrightarrow> guarded u) \<Longrightarrow> guarded (when_m b u)"
  "guarded m \<Longrightarrow> guarded k \<Longrightarrow> guarded n \<Longrightarrow> guarded (case e of RoundAnswered \<Rightarrow> m | RoundUnknown \<Rightarrow> k | RoundFailed \<Rightarrow> n)"
  by (auto simp: when_m_def intro: guarded_idle emit split: option.split sum.split prod.split bool.split round_end.split)

text \<open>Behind a step that armed the lock anything that does not lower it may run.\<close>

lemma guarded_arming:
  assumes "arming m" and "\<And>y. guarded (f y)" and "emits keeps_lock k"
  shows "guarded (State_Monad.bind m (\<lambda>x. case x of None \<Rightarrow> k | Some y \<Rightarrow> f y))"
proof (unfold guarded_def, intro allI)
  fix s
  obtain x t where run: "run_state m s = (x, t)" by (cases "run_state m s")
  then obtain es where es: "sv_trace t = sv_trace s @ es" "behind_lock False es" "x = None \<longrightarrow> foldl armed_by False es"
    using spec [OF assms(1) [unfolded arming_def], of s] by auto
  let ?k = "case x of None \<Rightarrow> k | Some y \<Rightarrow> f y"
  obtain fs where fs: "sv_trace (snd (run_state ?k t)) = sv_trace t @ fs" "behind_lock (foldl armed_by False es) fs"
  proof (cases x)
    case None
    obtain gs where "sv_trace (snd (run_state k t)) = sv_trace t @ gs" "list_all keeps_lock gs"
      using assms(3) unfolding emits_def runs_def by blast
    then show ?thesis using that [of gs] None es(3) keeps_lock_behind by simp
  next
    case (Some y)
    obtain gs where "sv_trace (snd (run_state (f y) t)) = sv_trace t @ gs" "behind_lock False gs"
      using assms(2) [of y] unfolding guarded_def by blast
    then show ?thesis using that [of gs] Some behind_lock_mono by simp
  qed
  show "\<exists>es. sv_trace (snd (run_state (State_Monad.bind m (\<lambda>x. case x of None \<Rightarrow> k | Some y \<Rightarrow> f y)) s)) = sv_trace s @ es \<and> behind_lock False es"
    using es fs by (intro exI [of _ "es @ fs"]) (simp add: State_Monad.bind_def run behind_lock_append)
qed

lemma arming_enable: "arming (ks_enable W hosts lan locked)"
  unfolding arming_def ks_enable_def call_def
  by (auto simp: Let_def armed_by_def arms_def lowers_def split: option.splits)

lemma arming_rearm: "arming (rearm_if_down W p opts)"
proof (unfold arming_def, intro allI)
  fix s
  obtain b t where run: "run_state (ks_active W) s = (b, t)" and t: "sv_trace t = sv_trace s @ [KsActive b]"
    by (cases "run_state (ks_active W) s") (auto simp: ks_active_def call_def Let_def)
  show "\<exists>es. sv_trace (snd (run_state (rearm_if_down W p opts) s)) = sv_trace s @ es \<and> behind_lock False es \<and>
     (fst (run_state (rearm_if_down W p opts) s) = None \<longrightarrow> foldl armed_by False es)"
  proof (cases b)
    case True
    then show ?thesis using run t
      by (intro exI [of _ "[KsActive True]"]) (simp add: rearm_if_down_def State_Monad.bind_def State_Monad.return_def armed_by_def arms_def lowers_def)
  next
    case False
    obtain l u where l: "run_state (sessionKillSwitchPermits W p) t = (l, u)" by (cases "run_state (sessionKillSwitchPermits W p) t")
    have "emits no_start (sessionKillSwitchPermits W p)" by (intro ops idle.record_ops)
    then obtain fs where u: "sv_trace u = sv_trace t @ fs" "list_all no_start fs"
      unfolding emits_def runs_def by (metis l snd_conv)
    obtain e v where e: "run_state (ks_enable W l (co_allowLAN opts) (co_lockdown opts)) u = (e, v)"
        and v: "sv_trace v = sv_trace u @ [KsEnable l (co_allowLAN opts) (co_lockdown opts) e]"
      by (cases "run_state (ks_enable W l (co_allowLAN opts) (co_lockdown opts)) u") (auto simp: ks_enable_def call_def Let_def)
    show ?thesis
      using False run t l u e v no_start_behind [OF u(2)]
      by (intro exI [of _ "KsActive False # fs @ [KsEnable l (co_allowLAN opts) (co_lockdown opts) e]"])
        (auto simp: rearm_if_down_def State_Monad.bind_def State_Monad.return_def behind_lock_append armed_by_def arms_def lowers_def)
  qed
qed

lemma guarded_connect: "guarded (Connect W pid opts)"
proof -
  have enabled: "guarded (connect_locked W p opts)" for p
    unfolding connect_locked_def
    by (intro guarded_bind guarded_arming arming_enable guarded_idle idle.state_ops idle.record_ops idle.connect_parts
        emit ops locked.bring_up_op subset_UNIV)
  have session: "guarded (connect_session W p opts)" for p
    unfolding connect_session_def connect_fresh_def
    by (intro guard enabled; intro guarded_idle emit ops idle.attach_op subset_UNIV)
  show ?thesis unfolding Connect_def connect_profile_def
    by (intro guard session; intro guarded_idle emit ops)
qed

lemma guarded_switch: "guarded (Switch W pid opts)"
proof -
  have over: "emits keeps_lock (switch_over W old new opts w)" for old new w
    unfolding switch_over_def by (intro emit ops locked.bring_up_op subset_UNIV)
  have session: "guarded (switch_session W st old new opts)" for st old new
    unfolding switch_session_def
    by (intro guarded_arming arming_enable over guard; intro guarded_idle emit ops)
  show ?thesis unfolding Switch_def switch_from_def
    by (intro guard session; intro guarded_idle emit ops)
qed

lemma guarded_rebuild: "guarded (rebuildSilentSession W p)"
proof -
  have armed: "emits keeps_lock (rebuild_armed W live q opts w)" for live q opts w
    unfolding rebuild_armed_def by (intro emit ops locked.bring_up_op subset_UNIV)
  show ?thesis unfolding rebuildSilentSession_def rebuild_locked_def Let_def
    by (intro guarded_arming arming_rearm armed guard; intro guarded_idle emit ops)
qed

lemma guarded_attempt:
  assumes "guarded M"
  shows "guarded (attemptSessionRebuild W M p cause)"
proof -
  have hold: "guarded (holdIfNetworkSilent W M q err)" for q err
    unfolding holdIfNetworkSilent_def holdForSilentNetwork_def
    by (intro guard assms; intro guarded_idle emit ops)
  show ?thesis unfolding attemptSessionRebuild_def
    by (intro guard assms guarded_rebuild hold; intro guarded_idle emit ops)
qed

lemma guarded_health:
  assumes "guarded M"
  shows "guarded (runHealthCheck W M)"
proof -
  note attempt = guarded_attempt [OF assms]
  have round: "emits no_start (probe_round W iface servers)" for iface servers
    by (induction servers) (auto intro!: emit ops split: option.split)
  have dead: "guarded (dataPathIsDead W M p)" for p
    unfolding dataPathIsDead_def Let_def by (intro guard assms; intro guarded_idle emit ops round)
  have escalate: "guarded (escalateDeadDataPath W M p kind)" for p kind
    unfolding escalateDeadDataPath_def holdForSilentNetwork_def by (intro guard assms attempt; intro guarded_idle emit ops)
  have dropped: "guarded (retryDroppedSession W M)"
    unfolding retryDroppedSession_def retry_dropped_def by (intro guard attempt; intro guarded_idle emit ops)
  have hold: "guarded (tickUpstreamHold W M)"
    unfolding tickUpstreamHold_def hold_over_def probe_upstream_def Let_def by (intro guard assms attempt; intro guarded_idle emit ops; simp)
  have connected: "guarded (check_connected W M)"
    unfolding check_connected_def transport_up_def check_device_def check_lock_and_traffic_def revive_transport_def
    by (intro guard attempt dead escalate; intro guarded_idle emit ops idle.revive_op subset_UNIV)
  show ?thesis unfolding runHealthCheck_def by (intro guard hold dropped connected; intro guarded_idle emit ops)
qed

lemma no_start_clear: "no_start (KsClear r)"
  by (simp add: no_start_def)

lemma guarded_startup: "guarded (reconcileStartup W)"
proof -
  have reapply: "emits no_start (reapply_lock W endpoints k n)" for endpoints k n
    by (induction n) (auto intro!: emit ops)
  show ?thesis
    unfolding reconcileStartup_def reconcilePersistedKillSwitch_def reconcile_unknown_def recoverRecordedSession_def resume_recorded_def
      holdOrphanedLock_def allConfiguredTunnelNames_def adopt_at_startup_def reconcileKillSwitchForAdoptedTunnel_def Let_def
    by (intro guard; intro guarded_idle emit ops reapply idle.attach_op subset_UNIV; simp)
qed

lemma guarded_unit_of: "guarded m \<Longrightarrow> guarded (unit_of m)"
  unfolding unit_of_def by (intro guard) (auto intro: guarded_idle emit)

lemma guarded_ops: "(\<And>op. op \<in> set ops \<Longrightarrow> guarded (f op)) \<Longrightarrow> guarded (for_each ops f)"
  by (induction ops) (auto intro!: guarded_bind intro: guarded_idle emit)

lemma op_guarded: "guarded (run_op W enc op)"
proof (induction op rule: unlocks.induct)
  case (3 meanwhile)
  then show ?case by (auto intro!: guarded_health guarded_ops)
qed (auto intro!: guarded_unit_of guarded_connect guarded_switch guarded_startup
    intro: guarded_idle idle.unlock_ops [OF no_start_clear] idle.lock_ops idle.proxy_op idle.update_split_op idle.reconcile_ops
      idle.run_task_op idle.timer_ops simp: Disconnect_def Shutdown_def)

text \<open>C1: the WireGuard device is never started with the lock unknown: over any sequence of operations, every start follows
  an Enable that succeeded or an Active that said yes, with no Clear in between.\<close>

theorem device_starts_behind_lock:
  "behind_lock False (drop (length (sv_trace s)) (sv_trace (run_ops W enc ops s)))"
proof -
  have "guarded (for_each ops (run_op W enc))" by (rule guarded_ops) (rule op_guarded)
  then obtain es where "sv_trace (run_ops W enc ops s) = sv_trace s @ es" "behind_lock False es"
    unfolding guarded_def run_ops_def by blast
  then show ?thesis by simp
qed

section \<open>Where a session dials\<close>

definition dial_event :: "target set \<Rightarrow> event \<Rightarrow> bool" where
  "dial_event T e = (case e of TrStart _ p _ \<Rightarrow> set (targets p) \<subseteq> T | _ \<Rightarrow> True)"

interpretation hop: bringing "dial_event T" T for T
  by unfold_locales (auto simp: dial_event_def quiet_event_def split: event.splits)

text \<open>Every transport started by a run asks the remote node only for destinations of the set.\<close>

definition dials_within :: "target set \<Rightarrow> 'a sess \<Rightarrow> svc \<Rightarrow> bool" where
  "dials_within T m s \<longleftrightarrow> list_all (dial_event T) (drop (length (sv_trace s)) (sv_trace (snd (run_state m s))))"

text \<open>The same from one state.\<close>

definition emits_from :: "(event \<Rightarrow> bool) \<Rightarrow> 'a sess \<Rightarrow> svc \<Rightarrow> bool" where
  "emits_from G m s \<longleftrightarrow> (\<exists>es. sv_trace (snd (run_state m s)) = sv_trace s @ es \<and> list_all G es)"

lemma emits_from_any: "emits G m \<Longrightarrow> emits_from G m s"
  unfolding emits_def runs_def emits_from_def by simp

lemma from_dials: "emits_from (dial_event T) m s \<Longrightarrow> dials_within T m s"
  unfolding emits_from_def dials_within_def by auto

lemma run_state_parts [simp]:
  "run_state (modify g) s = ((), g s)" "run_state (gets f) s = (f s, s)" "run_state (find_profile pid) s = (FindProfile pid (sv_config s), s)"
  "run_state (ret x) s = (x, s)" "run_state get_state s = (m_state (sv_machine s), s)"
  by (simp_all add: modify_def gets_def find_profile_def get_state_def State_Monad.return_def)

text \<open>The state an operation of the user starts from, once it owns the session.\<close>

definition owned :: "svc \<Rightarrow> svc" where
  "owned s = (clear_upstream s)\<lparr>sv_lead := no_lead\<rparr>"

lemma owned_simps [simp]: "sv_config (owned s) = sv_config s" "sv_trace (owned s) = sv_trace s"
  by (simp_all add: owned_def clear_upstream_def)

lemma run_owned:
  "run_state (Connect W pid opts) s = run_state (do {
     e \<leftarrow> (case FindProfile pid (sv_config s) of None \<Rightarrow> ret (Some (profile_not_found pid))
       | Some p \<Rightarrow> (case validateProfile p of Some x \<Rightarrow> ret (Some x) | None \<Rightarrow> connect_profile W (ApplyHop p) opts));
     kickSplitReconcileIfPending; ret e }) (owned s)"
  "run_state (Switch W pid opts) s = run_state (do {
     e \<leftarrow> switch_from W (m_state (sv_machine s)) (sv_profile s) pid opts; kickSplitReconcileIfPending; ret e }) (owned s)"
  by (simp_all add: Connect_def Switch_def clearUpstreamHold_def takeRecoveryLead_def owned_def clear_upstream_def del: run_state_bind
      flip: State_Monad.bind_assoc) (simp_all add: clear_upstream_def)

lemma valid_profile_hop: "validateProfile p = None \<Longrightarrow> ValidateHop p = None"
  by (auto simp: validateProfile_def split: option.splits if_splits)

lemma hop_destinations:
  "p_hop p = Some h \<Longrightarrow> validateProfile p = None \<Longrightarrow> set (targets (ApplyHop p)) \<subseteq> hop_targets h"
  using valid_profile_hop [of p]
  by (auto simp: targets_def ApplyHop_def hop_targets_def ValidateHop_def singBoxTargetPort_def
      cloakProxyMethod_def naiveBridgePort_def split: option.splits if_splits)

lemma run_switch_from:
  "run_state (switch_from W st old pid opts) s = run_state
    (if st \<noteq> StateConnected \<and> \<not> (st = StateError \<and> old \<noteq> None) then ret (Some (Leaf ''switch requires connected state''))
     else case old of None \<Rightarrow> ret (Some (Leaf ''no active profile to switch from''))
     | Some o' \<Rightarrow> (case FindProfile pid (sv_config s) of None \<Rightarrow> ret (Some (profile_not_found pid))
          | Some new \<Rightarrow>
              if p_id new = p_id o' then ret None
              else (case validateProfile new of Some e \<Rightarrow> ret (Some e)
                | None \<Rightarrow> switch_session W st o' (ApplyHop new) opts))) s"
  by (simp add: switch_from_def split: option.split)

lemma from_bind:
  assumes "run_state m s = run_state k s" and "emits G k" and "\<And>x. emits G (f x)"
  shows "emits_from G (State_Monad.bind m f) s"
proof -
  have "emits_from G (State_Monad.bind k f) s" by (intro emits_from_any emit assms)
  then show ?thesis using assms(1) by (simp add: emits_from_def)
qed

text \<open>C3: a session the user asks for never leaves its hop: when Connect or Switch is given a stored multihop profile,
  every transport the whole operation starts (adoption of a running tunnel and every candidate included) asks the
  entry node only for the destinations the hop names.\<close>

theorem user_dials_through_hop:
  assumes "FindProfile pid (sv_config s) = Some p" and "p_hop p = Some h"
  shows "dials_within (hop_targets h) (Connect W pid opts) s \<and> dials_within (hop_targets h) (Switch W pid opts) s"
proof -
  let ?T = "hop_targets h"
  have dest: "set (targets (ApplyHop p)) \<subseteq> ?T" if "validateProfile p = None"
    using hop_destinations assms(2) that by blast
  have tail: "emits (dial_event ?T) (do { kickSplitReconcileIfPending; ret e })" for e :: "go_err option"
    by (intro emit hop.split_ops)
  have "dials_within ?T (do {
       e \<leftarrow> (case FindProfile pid (sv_config s) of None \<Rightarrow> ret (Some (profile_not_found pid))
         | Some p \<Rightarrow> (case validateProfile p of Some x \<Rightarrow> ret (Some x) | None \<Rightarrow> connect_profile W (ApplyHop p) opts));
       kickSplitReconcileIfPending; ret e }) (owned s)"
    by (rule from_dials, rule from_bind [OF refl _ tail]) (auto simp: assms(1) split: option.split intro: emit hop.connect_op [OF dest])
  moreover have "dials_within ?T (do {
       e \<leftarrow> switch_from W (m_state (sv_machine s)) (sv_profile s) pid opts; kickSplitReconcileIfPending; ret e }) (owned s)"
    by (rule from_dials, rule from_bind [OF run_switch_from _ tail]) (auto simp: assms(1) split: option.split intro: emit hop.switch_op [OF dest])
  ultimately show ?thesis by (simp only: dials_within_def run_owned owned_simps)
qed

section \<open>What a rebuild does with a hop\<close>

text \<open>The destinations of a stored profile are the fields ApplyHop is there to set.\<close>

definition unset_targets :: "profile \<Rightarrow> bool" where
  "unset_targets p \<longleftrightarrow> set (targets p) \<subseteq> {ProxyMethod [], SingBox 0, Bridge 0}"

lemma unset_off_hop: "unset_targets p \<Longrightarrow> p_hop p = Some h \<Longrightarrow> validateProfile p = None \<Longrightarrow> set (targets p) \<subseteq> - hop_targets h"
  using valid_profile_hop [of p]
  by (auto simp: unset_targets_def targets_def hop_targets_def ValidateHop_def split: option.splits if_splits)

lemma run_rebuild_locked:
  assumes "FindProfile (p_id live) (sv_config s) = Some p"
  shows "run_state (rebuild_locked W live) s = run_state
    (if m_state (sv_machine s) \<noteq> StateConnected \<and> m_state (sv_machine s) \<noteq> StateError then ret (Some (Leaf ''state changed''))
     else do {
       opts \<leftarrow> gets sv_opts;
       cidrs \<leftarrow> splitCIDRsFor W p (co_allowLAN opts);
       case wireGuardProfileFor (w_hostname W) p (co_allowLAN opts) cidrs of
         Inl e \<Rightarrow> ret (Some (wrapf ''allow-lan config transform failed'' e))
       | Inr w \<Rightarrow> do {
           e \<leftarrow> rearm_if_down W p opts;
           case e of Some x \<Rightarrow> ret (Some x) | None \<Rightarrow> rebuild_armed W live p opts w } }) s"
  using assms by (simp add: rebuild_locked_def Let_def cong: sum.case_cong option.case_cong)

lemma run_rebuild:
  assumes "FindProfile (p_id live) (sv_config s) = Some p" and "set (targets p) \<subseteq> T"
  shows "dials_within T (rebuildSilentSession W live) s"
proof -
  obtain got t where t: "run_state (try_op W) s = (got, t)" and same: "sv_config t = sv_config s" "sv_trace t = sv_trace s @ [Host]"
    by (cases "run_state (try_op W) s") (auto simp: try_op_def call_def Let_def)
  have tail: "emits (dial_event T) (do { kickSplitReconcileIfPending; ret e })" for e :: "go_err option"
    by (intro emit hop.split_ops)
  have "emits_from (dial_event T) (do { e \<leftarrow> rebuild_locked W live; kickSplitReconcileIfPending; ret e }) t"
    by (rule from_bind [OF run_rebuild_locked _ tail])
      (use assms same in \<open>auto simp: rebuild_armed_def intro!: emit ops hop.bring_up_op hop.split_ops hop.check_parts hop.state_ops hop.bring_parts\<close>)
  moreover have "dial_event T Host" by (simp add: dial_event_def)
  ultimately show ?thesis
    by (intro from_dials) (cases got; auto simp: emits_from_def rebuildSilentSession_def t same)
qed

text \<open>C4: a rebuild forgets the hop: after a dropped multihop session is found silent, rebuildSilentSession takes the profile from
  the store again and does not apply its hop, so that not one transport it starts asks the entry node for a destination
  the hop names.\<close>

theorem rebuild_forgets_hop:
  assumes "FindProfile (p_id live) (sv_config s) = Some p" and "p_hop p = Some h"
    and "validateProfile p = None" and "unset_targets p"
  shows "dials_within (- hop_targets h) (rebuildSilentSession W live) s"
  by (rule run_rebuild [OF assms(1)]) (rule unset_off_hop [OF assms(4,2,3)])

end
