(* ===== verification/Session_Invariant.thy ===== *)
theory Session_Invariant
  imports Session_Safety
begin

text \<open>The session's state is well formed: a session that says it is connected has its profile and a transport, and the
  transport is one the daemon can manage.  \<open>triple P m Q\<close> is total correctness of one step of the session; most steps
  keep any predicate on the state machine, the profile and the transport, and \<open>framed\<close> is that contract.\<close>

section \<open>Triples\<close>

definition triple :: "(svc \<Rightarrow> bool) \<Rightarrow> 'a sess \<Rightarrow> ('a \<Rightarrow> svc \<Rightarrow> bool) \<Rightarrow> bool" where
  "triple P m Q \<longleftrightarrow> (\<forall>s. P s \<longrightarrow> Q (fst (run_state m s)) (snd (run_state m s)))"

abbreviation keeps :: "(svc \<Rightarrow> bool) \<Rightarrow> 'a sess \<Rightarrow> bool" where
  "keeps P m \<equiv> triple P m (\<lambda>_. P)"

named_theorems keep "rules for what a program keeps"

lemma triple_bind: "triple P m Q \<Longrightarrow> (\<And>x. triple (Q x) (f x) R) \<Longrightarrow> triple P (State_Monad.bind m f) R"
  unfolding triple_def by (simp add: State_Monad.bind_def split: prod.split) (metis fst_conv snd_conv)

lemma keeps_bind [keep]: "keeps P m \<Longrightarrow> (\<And>x. keeps P (f x)) \<Longrightarrow> keeps P (State_Monad.bind m f)"
  by (rule triple_bind)

lemma triple_after: "keeps P m \<Longrightarrow> (\<And>x. triple P (f x) Q) \<Longrightarrow> triple P (State_Monad.bind m f) Q"
  by (rule triple_bind)

lemma triple_weaken: "triple P m Q \<Longrightarrow> (\<And>s. P' s \<Longrightarrow> P s) \<Longrightarrow> (\<And>x s. Q x s \<Longrightarrow> Q' x s) \<Longrightarrow> triple P' m Q'"
  unfolding triple_def by blast

lemma keeps_ret [keep]: "keeps P (ret x)"
  by (simp add: triple_def)

lemma triple_ret: "(\<And>s. P s \<Longrightarrow> Q x s) \<Longrightarrow> triple P (ret x) Q"
  by (simp add: triple_def)

lemma keeps_gets [keep]: "keeps P (gets f)"
  by (simp add: triple_def)

lemma keeps_modify: "(\<And>s. P s \<Longrightarrow> P (f s)) \<Longrightarrow> keeps P (modify f)"
  by (simp add: triple_def)

lemma keeps_shapes [keep]:
  "(b \<Longrightarrow> keeps P m) \<Longrightarrow> (\<not> b \<Longrightarrow> keeps P k) \<Longrightarrow> keeps P (if b then m else k)"
  "(o' = None \<Longrightarrow> keeps P m) \<Longrightarrow> (\<And>y. o' = Some y \<Longrightarrow> keeps P (f y)) \<Longrightarrow> keeps P (case o' of None \<Rightarrow> m | Some y \<Rightarrow> f y)"
  "(\<And>y. r = Inl y \<Longrightarrow> keeps P (g y)) \<Longrightarrow> (\<And>y. r = Inr y \<Longrightarrow> keeps P (h y)) \<Longrightarrow> keeps P (case r of Inl y \<Rightarrow> g y | Inr y \<Rightarrow> h y)"
  "(\<And>y z. q = (y, z) \<Longrightarrow> keeps P (i y z)) \<Longrightarrow> keeps P (case q of (y, z) \<Rightarrow> i y z)"
  "(xs = [] \<Longrightarrow> keeps P m) \<Longrightarrow> (\<And>y ys. xs = y # ys \<Longrightarrow> keeps P (j y ys)) \<Longrightarrow> keeps P (case xs of [] \<Rightarrow> m | y # ys \<Rightarrow> j y ys)"
  "(c \<Longrightarrow> keeps P m) \<Longrightarrow> (\<not> c \<Longrightarrow> keeps P k) \<Longrightarrow> keeps P (case c of True \<Rightarrow> m | False \<Rightarrow> k)"
  "(b \<Longrightarrow> keeps P u) \<Longrightarrow> keeps P (when_m b u)"
  by (auto simp: when_m_def triple_ret split: option.split sum.split prod.split bool.split list.split)

lemma keeps_ends [keep]:
  "keeps P m \<Longrightarrow> keeps P k \<Longrightarrow> keeps P n \<Longrightarrow> keeps P (case e of RoundAnswered \<Rightarrow> m | RoundUnknown \<Rightarrow> k | RoundFailed \<Rightarrow> n)"
  "keeps P m' \<Longrightarrow> (\<And>x. keeps P (f x)) \<Longrightarrow> (\<And>x. keeps P (g x)) \<Longrightarrow> keeps P (case ge of GatePass \<Rightarrow> m' | GateStop x \<Rightarrow> f x | GateSilent x \<Rightarrow> g x)"
  "(\<And>q. keeps P (t q)) \<Longrightarrow> keeps P (case job of Reprove q \<Rightarrow> t q)"
  "(\<And>r. keeps P (fa r)) \<Longrightarrow> (\<And>b n. keeps P (rd b n)) \<Longrightarrow> keeps P (case rg of FirstAnswer r \<Rightarrow> fa r | Read b n \<Rightarrow> rd b n)"
  "keeps P a \<Longrightarrow> keeps P b' \<Longrightarrow> keeps P c' \<Longrightarrow> keeps P (case md of TeardownUser \<Rightarrow> a | TeardownLockdown \<Rightarrow> b' | TeardownShutdown \<Rightarrow> c')"
  by (auto split: round_end.split gate_end.split task.split reading.split teardown.split)

lemma keeps_for_each [keep]: "(\<And>x. x \<in> set xs \<Longrightarrow> keeps P (f x)) \<Longrightarrow> keeps P (for_each xs f)"
  by (induction xs) (auto intro: keeps_bind keeps_ret)

lemma keeps_unless [keep]: "keeps P m \<Longrightarrow> keeps P k \<Longrightarrow> keeps P (unless_err m k)"
  unfolding unless_err_def by (intro keep)

section \<open>What most steps keep\<close>

named_theorems hold "what the operations keep"

locale framed =
  fixes P :: "svc \<Rightarrow> bool"
  assumes frame: "P s \<Longrightarrow> m_state (sv_machine t) = m_state (sv_machine s) \<Longrightarrow> (sv_profile t = None) = (sv_profile s = None) \<Longrightarrow>
      sv_active t = sv_active s \<Longrightarrow> P t"
    and down: "P s \<Longrightarrow> st \<noteq> StateConnected \<Longrightarrow> P (s\<lparr>sv_machine := mSet st d (sv_machine s)\<rparr>)"
begin

lemma keeps_other [keep]: "(\<And>s. m_state (sv_machine (f s)) = m_state (sv_machine s) \<and> (sv_profile (f s) = None) = (sv_profile s = None) \<and>
    sv_active (f s) = sv_active s) \<Longrightarrow> keeps P (modify f)"
  by (rule keeps_modify) (use frame in blast)

lemma keeps_call [keep]: "keeps P (call W f ev)"
  unfolding triple_def call_def by (auto simp: Let_def intro: frame)


text \<open>Session_State.\<close>

lemma set_down [keep]: "st \<noteq> StateConnected \<Longrightarrow> keeps P (set_state W st d)"
  unfolding set_state_def by (intro keep keeps_modify) (rule down)

lemma cas_down [keep]: "st \<noteq> StateConnected \<Longrightarrow> keeps P (cas_state W expected st d)"
proof -
  assume st: "st \<noteq> StateConnected"
  have "keeps P (modify (\<lambda>s. s\<lparr>sv_machine := snd (CompareAndSet expected st d m)\<rparr>))" if "fst (CompareAndSet expected st d m)" for m
  proof (rule keeps_modify)
    fix s assume "P s"
    from down [OF this st, of d] show "P (s\<lparr>sv_machine := snd (CompareAndSet expected st d m)\<rparr>)"
      by (rule frame) (use that in \<open>auto simp: CompareAndSet_def mSet_def split: if_splits\<close>)
  qed
  then show ?thesis unfolding cas_state_def by (intro keeps_bind keeps_gets keeps_shapes keeps_ret keeps_call)
qed

lemma state_ops [hold]:
  "keeps P (pause d)" "keeps P (now W)" "keeps P (ctx_err W)" "keeps P (ctx_pause W d)" "keeps P (wg_stop W w)"
  "keeps P (wg_status_of W w)" "keeps P (wg_preflight W w)" "keeps P (ks_enable W hosts lan lock)" "keeps P (ks_update W t)"
  "keeps P (ks_active W)" "keeps P (ks_load W)" "keeps P (tr_stop W kind)" "keeps P (tr_running W kind)"
  "keeps P get_state" "keeps P (setError W txt)"
  "keeps P (setErrorFromHealthCheck W txt)" "keeps P config_profiles" "keeps P (find_profile pid)" "keeps P (currentNetworkKey W)"
  unfolding pause_def now_def ctx_err_def ctx_pause_def wg_stop_def wg_status_of_def wg_preflight_def ks_enable_def
    ks_update_def ks_active_def ks_load_def tr_stop_def tr_running_def get_state_def setError_def
    setErrorFromHealthCheck_def config_profiles_def find_profile_def currentNetworkKey_def
  by (intro keep; simp)+

text \<open>Session_Timers.\<close>

lemma timer_ops [hold]:
  "keeps P beginRecoveryAttempt" "keeps P (scheduleNextRecovery W attempt)" "keeps P (deferRecovery W d)" "keeps P (recoveryDue W)"
  "keeps P clearUpstreamHold" "keeps P resetRecovery" "keeps P kickHealthCheck" "keeps P (enterOfflineHold W gen key)"
  "keeps P (offlineHoldActive W)" "keeps P clearOfflineHold" "keeps P (setKeptDeviceDead b)" "keeps P (healthHeld W)"
  "keeps P (enterUpstreamHold W pid)" "keeps P (scheduleUpstreamProbe W)" "keeps P probeUpstreamNow" "keeps P takeRecoveryLead"
  "keeps P (noteDeadTransport W kind)" "keeps P (noteDeadForCascade W kind)" "keeps P (applyRecoveryLead cs)"
  "keeps P (setTransportsExhausted b)" "keeps P (dnsProbeDue W)" "keeps P recordDNSProbeSuccess" "keeps P (recordDNSProbeFailure W)"
  "keeps P deferDataPathRebuild" "keeps P (resetDNSProbe W)" "keeps P endDNSProbeSession" "keeps P probeDataPathNow"
  "keeps P recordEndpointRouteRepair" "keeps P resetEndpointRouteRepairs" "keeps P (hostVerdict W)" "keeps P (hostOffline W)"
  "keeps P (networkLooksUsable W)" "keeps P (noPhysicalRoute W)" "keeps P (offlineNow W)" "keeps P (wireGuardHandshakeStale W st)"
  "keeps P (onSystemResume W)" "keeps P (onNetworkChanged W)"
  unfolding beginRecoveryAttempt_def scheduleNextRecovery_def deferRecovery_def recoveryDue_def clearUpstreamHold_def resetRecovery_def
    kickHealthCheck_def enterOfflineHold_def offlineHoldActive_def clearOfflineHold_def setKeptDeviceDead_def healthHeld_def
    enterUpstreamHold_def scheduleUpstreamProbe_def probeUpstreamNow_def takeRecoveryLead_def noteDeadForCascade_def
    applyRecoveryLead_def setTransportsExhausted_def dnsProbeDue_def recordDNSProbeSuccess_def recordDNSProbeFailure_def
    deferDataPathRebuild_def resetDNSProbe_def endDNSProbeSession_def probeDataPathNow_def recordEndpointRouteRepair_def
    resetEndpointRouteRepairs_def hostOffline_def networkLooksUsable_def noPhysicalRoute_def offlineNow_def
    wireGuardHandshakeStale_def onSystemResume_def onNetworkChanged_def noteDeadTransport_def hostVerdict_def Let_def
  by (intro keep hold; simp add: clear_upstream_def)+

text \<open>Session_Split.\<close>

lemma split_ops [hold]:
  "keeps P (updateAppliedSplit f)" "keeps P resetAppliedSplit" "keeps P kickSplitReconcile" "keeps P kickSplitReconcileIfPending"
  "keeps P (desiredSplit W p lan)" "keeps P (splitCIDRsFor W p lan)" "keeps P (setSplitPermits W prev want)" "keeps P (clearSplitPermits W)"
  "keeps P (splitApplied gen dropped)" "keeps P (splitApplyFailed W)" "keeps P (set_permits permits)" "keeps P (deviceRunning W p)"
  unfolding updateAppliedSplit_def resetAppliedSplit_def kickSplitReconcile_def kickSplitReconcileIfPending_def desiredSplit_def
    splitCIDRsFor_def setSplitPermits_def clearSplitPermits_def splitApplied_def splitApplyFailed_def set_permits_def deviceRunning_def Let_def
  by (intro keep hold; simp)+

lemma split_routes_ops [hold]:
  "keeps P (applySplitLive W p lan dev)" "keeps P (syncSplitForBringUp W p lan)"
  unfolding applySplitLive_def move_routes_def syncSplitForBringUp_def Let_def by (intro keep hold; simp)+

lemma reconcile_ops [hold]: "keeps P (reconcileSplit W)" "keeps P (splitTick W)"
proof -
  have "keeps P (reconcileSplitOnce W)" unfolding reconcileSplitOnce_def Let_def by (intro keep hold; simp)
  then have "keeps P (reconcile_turns W k)" for k
    by (induction k) (simp_all add: keep)
  then show "keeps P (reconcileSplit W)" "keeps P (splitTick W)"
    unfolding reconcileSplit_def splitTick_def by (intro keep hold; simp)+
qed

lemma update_split_op [hold]: "keeps P (UpdateSplitTunnel goos self isAbs env wrote u)"
  unfolding UpdateSplitTunnel_def notePOSTKeptRoutes_def Let_def by (intro keep hold; simp)

lemma reach_route_ops [hold]:
  "keeps P vouched_now" "keeps P (hub_remote W proxy)" "keeps P (directHubAllowed W p)" "keeps P (appendProxyRoute W routes kind f)"
  "keeps P (reach_record W network r)" "keeps P (sessionMoved pid)" "keeps P upstreamHoldActive"
  unfolding vouched_now_def hub_remote_def directHubAllowed_def appendProxyRoute_def reach_record_def sessionMoved_def upstreamHoldActive_def
  by (intro keep hold; simp)+

lemma reach_ops [hold]:
  "keeps P (probeHub W p stop)" "keeps P (reachVerdictFor W p)" "keeps P (reproveBaseline W p)" "keeps P (refreshReachBaseline W network p)"
proof -
  show *: "keeps P (probeHub W p stop)" for stop
    unfolding probeHub_def reachRoutes_def Let_def by (intro keep hold; simp)
  show "keeps P (reachVerdictFor W p)" "keeps P (reproveBaseline W p)" "keeps P (refreshReachBaseline W network p)"
    unfolding reachVerdictFor_def reproveBaseline_def refreshReachBaseline_def Let_def by (intro keep hold *; simp)+
qed

lemma run_task_op [hold]: "keeps P (run_task W i)"
  unfolding run_task_def by (intro keep hold; simp)

lemma hold_ops [hold]:
  assumes [hold]: "keeps P M"
  shows "keeps P (holdForSilentNetwork W M p)" "keeps P (holdIfNetworkSilent W M p err)"
  unfolding holdForSilentNetwork_def holdIfNetworkSilent_def by (intro keep hold; simp)+

lemma bring_parts [hold]:
  "keeps P activeTransport" "keeps P (setConnectingTransportKind kind)" "keeps P (stop_active W)"
  "keeps P (rebindWireGuardEndpoint W kind port w)" "keeps P (cloakStartedForRemote c)" "keeps P (rememberCloakRemote c)"
  "keeps P (wait_session W kind)" "keeps P (reorderByMemory cs preferred network)" "keeps P (rememberTransport W network kind)"
  unfolding activeTransport_def setConnectingTransportKind_def stop_active_def rebindWireGuardEndpoint_def
    cloakStartedForRemote_def rememberCloakRemote_def wait_session_def reorderByMemory_def rememberTransport_def Let_def
  by (intro keep hold; simp)+

lemma stable_op [hold]: "keeps P (waitForManagedTransportStable W kind port duration)"
proof -
  have polls: "keeps P (stable_polls W kind deadline k)" for deadline k
  proof (induction k)
    case (Suc k)
    show ?case unfolding stable_polls.simps by (intro keep hold Suc)
  qed (simp add: keep)
  show ?thesis unfolding waitForManagedTransportStable_def Let_def by (intro keep hold polls; simp)
qed

lemma tunnel_ref_ops [hold]:
  "keeps P (resolveWireGuardInterfaceName W w)" "keeps P (resolveTunnelLUID W w)" "keeps P (resolveTunnelRef W w)" "keeps P (permit_tunnel W w)"
  "keeps P (probeServerOrder W servers)" "keeps P (peerRxBytes W w)" "keeps P (probe_call W iface server)"
  unfolding permit_tunnel_def resolveTunnelRef_def resolveWireGuardInterfaceName_def resolveTunnelLUID_def probeServerOrder_def
    peerRxBytes_def probe_call_def Let_def
  by (intro keep hold; simp)+

lemma handshake_op [hold]:
  assumes [hold]: "keeps P job"
  shows "keeps P (waitForWireGuardHandshake W cx w job)"
proof -
  have polls: "keeps P (handshake_polls W w m timeout deadline job k at d)" for m timeout deadline k at d
  proof (induction k arbitrary: at d)
    case (Suc k)
    show ?case unfolding handshake_polls.simps run_beside_def by (intro keep hold Suc)
  qed (simp add: keep)
  show ?thesis unfolding waitForWireGuardHandshake_def Let_def by (intro keep hold polls)
qed

lemma ready_op [hold]: "keeps P (awaitTunnelReady W w deadline rounds)"
proof -
  have "keeps P (ready_polls W f w deadline k)" for f k
  proof (induction k)
    case (Suc k)
    show ?case unfolding ready_polls.simps by (intro keep hold Suc; simp)
  qed (simp add: keep)
  then show ?thesis unfolding awaitTunnelReady_def by (intro keep)
qed

lemma prove_op [hold]: "keeps P (proveDataPath W w)"
proof -
  have rounds: "keeps P (gate_rounds W servers iface deadline k attempt delay lastErr)" for servers iface deadline k attempt delay lastErr
  proof (induction k arbitrary: attempt delay lastErr)
    case (Suc k)
    show ?case unfolding gate_rounds.simps Let_def by (intro keep hold Suc)
  qed (simp add: keep)
  show ?thesis unfolding proveDataPath_def gate_rescue_def Let_def by (intro keep hold rounds)
qed

lemma cleanup_op [hold]: "keeps P (cleanup_candidate W cx kind p w)"
  unfolding cleanup_candidate_def by (intro keep hold; simp)

lemma record_ops [hold]:
  "keeps P (read_record W)" "keeps P (recordHubProxyPermits W ips)" "keeps P (loadHubProxyPermits W)" "keeps P (permitsKeptAcrossRestart W)"
  "keeps P (noteHubProxyPermit W host)" "keeps P (withoutHubProxyPermits W endpoints)" "keeps P (hubProxyRemotes W)" "keeps P (sessionKillSwitchPermits W p)"
  unfolding noteHubProxyPermit_def withoutHubProxyPermits_def sessionKillSwitchPermits_def hubProxyRemotes_def
    permitsKeptAcrossRestart_def loadHubProxyPermits_def recordHubProxyPermits_def read_record_def Let_def
  by (intro keep hold; simp)+

lemma running_ops [hold]:
  "keeps P (tunnel_running W p)" "keeps P (findRunningWireGuardProfiles W)" "keeps P (ensureNoOtherRunningWireGuard W pid)"
  "keeps P (ensureNoRunningWireGuard W p)" "keeps P (cloakStatusForProfile W p)" "keeps P (releaseKeptDevice W p)"
proof -
  show *: "keeps P (tunnel_running W p)" for p
    unfolding tunnel_running_def by (intro keep hold)
  have "keeps P (running_among W ps)" "keeps P (other_running W pid ps)" for ps
    by (induction ps) (auto intro!: keep *)
  then show "keeps P (findRunningWireGuardProfiles W)" "keeps P (ensureNoOtherRunningWireGuard W pid)"
    "keeps P (ensureNoRunningWireGuard W p)" "keeps P (cloakStatusForProfile W p)" "keeps P (releaseKeptDevice W p)"
    unfolding findRunningWireGuardProfiles_def ensureNoOtherRunningWireGuard_def ensureNoRunningWireGuard_def
      cloakStatusForProfile_def releaseKeptDevice_def Let_def
    by (intro keep hold *; simp)+
qed

lemma lock_ops [hold]:
  "keeps P (dropTunnelPermit W)" "keeps P (releaseOrphanedLockSettings W)" "keeps P hub_permits" "keeps P (stop_tunnels W ps)"
  "keeps P (verify_stopped W ps)" "keeps P (sessionHeld W)" "keeps P sessionInProgress" "keeps P (PermitHosts W hosts)"
  "keeps P (EngageKillSwitch W lan)" "keeps P (ArmBootLock W)" "keeps P (ClearTransportMemory W)" "keeps P (UpdateConfig enc flt locked cfg)"
proof -
  show "keeps P (verify_stopped W ps)"
    by (induction ps) (auto intro!: keep hold)
qed (unfold dropTunnelPermit_def releaseOrphanedLockSettings_def hub_permits_def stop_tunnels_def sessionHeld_def sessionInProgress_def
    PermitHosts_def routeAroundTunnel_def widen_lock_def EngageKillSwitch_def markKillSwitchLocked_def ArmBootLock_def
    ClearTransportMemory_def UpdateConfig_def Let_def, (intro keep hold; simp)+)

lemma proxy_op [hold]: "keeps P (start_proxy W name run host)"
  unfolding start_proxy_def Let_def by (intro keep hold; simp)


text \<open>Bringing a session up.\<close>

lemma start_fn_ops [hold]:
  "keeps P (startCloakTransport W p w)" "keeps P (start_managed W kind waits p w)" "keeps P (startDirectWireGuard p w)"
  unfolding startCloakTransport_def start_managed_def startDirectWireGuard_def tr_start_def Let_def by (intro keep hold; simp)+

lemma starter_keeps: "keeps P (fst (StarterFor W p kind) q w)"
  by (simp add: StarterFor_def startNaiveTransport_def startRealityTransport_def startHysteria2Transport_def
      startAnyTLSTransport_def startSnowflakeTransport_def startShadowsocksTransport_def Let_def hold keep)

lemma candidates_keep: "transportCandidates W p preferred = Inr cs \<Longrightarrow> c \<in> set cs \<Longrightarrow> keeps P (cand_start c q w)"
  by (auto simp: transportCandidates_def starter_keeps hold split: if_splits sum.splits dest!: Select_start)

lemma device_op [hold]: "keeps P (start_device W cx kind w)"
  unfolding start_device_def check_traffic_def wg_start_def by (intro keep hold; simp)

lemma candidate_op: "(\<And>q w. keeps P (f q w)) \<Longrightarrow> keeps P (bringUpTransport W cx p w kind f)"
  unfolding bringUpTransport_def Let_def by (intro keep hold)

lemma tries_op: "(\<And>c q w. c \<in> set cs \<Longrightarrow> keeps P (cand_start c q w)) \<Longrightarrow> keeps P (try_candidates W cx auto w cs p failures)"
proof (induction cs arbitrary: p failures)
  case (Cons c cs)
  show ?case unfolding try_candidates.simps
    by (intro keep hold candidate_op Cons.IH Cons.prems) simp_all
qed (simp add: keep)

lemma attach_parts [hold]:
  "keeps P (startNetworkRepair W l)" "keeps P (cancelNetworkRepair W)" "keeps P (setSessionOpts W opts)" "keeps P (holdBringUpOffline W gen key)"
  "keeps P (restoreTransportForAdoption W p kind)" "keeps P (fail_with W e)" "keeps P (fail_at W what e)" "keeps P (pin_new_routes W old w)"
  unfolding startNetworkRepair_def cancelNetworkRepair_def setSessionOpts_def holdBringUpOffline_def restoreTransportForAdoption_def
    fail_with_def fail_at_def pin_new_routes_def tr_start_def Let_def
  by (intro keep hold; simp)+

lemma settle_op [hold]: "keeps P (settle_lock W mode)"
  unfolding settle_lock_def ks_clear_def by (intro keep hold; simp)

lemma clear_lock_op [hold]: "keeps P (ClearKillSwitch W)"
  unfolding ClearKillSwitch_def ks_clear_def by (intro keep hold)

text \<open>The health check.\<close>

lemma check_parts [hold]:
  "keeps P (ensureTunnelDNS W p)" "keeps P (ensureEndpointRoutes W p)" "keeps P (try_op W)" "keeps P (rx_rescued W p before)"
  "keeps P (rearm_if_down W p opts)" "keeps P (rebuild_ctx W w)" "keeps P (after_rebuild W p keep e)" "keeps P (book_attempt W cause err)"
  "keeps P (sessionIsHealthy W p)"
  unfolding ensureTunnelDNS_def ensureEndpointRoutes_def try_op_def rx_rescued_def rearm_if_down_def rebuild_ctx_def after_rebuild_def
    book_attempt_def failed_attempt_def sessionIsHealthy_def Let_def
  by (intro keep hold; simp)+

lemma dead_op [hold]:
  assumes "keeps P M"
  shows "keeps P (dataPathIsDead W M p)"
proof -
  have "keeps P (probe_round W iface servers)" for iface servers
    by (induction servers) (auto intro!: keep hold split: option.split)
  then show ?thesis unfolding dataPathIsDead_def Let_def by (intro keep hold assms; simp)
qed

lemma revive_op [hold]: "keeps P (recoverActiveTransport W p kind)"
  unfolding recoverActiveTransport_def tr_start_def by (intro keep hold; simp)

lemma attempt_op [hold]:
  assumes "keeps P M" and "keeps P (rebuildSilentSession W p)"
  shows "keeps P (attemptSessionRebuild W M p cause)"
  unfolding attemptSessionRebuild_def by (intro keep hold assms)

lemma escalate_op:
  assumes "keeps P M" and "\<And>p. keeps P (rebuildSilentSession W p)"
  shows "keeps P (escalateDeadDataPath W M p kind)" "keeps P (tickUpstreamHold W M)"
  unfolding escalateDeadDataPath_def tickUpstreamHold_def hold_over_def probe_upstream_def Let_def
  by (intro keep hold assms; simp add: assms)+

lemma connected_op:
  assumes "keeps P M" and "\<And>p. keeps P (rebuildSilentSession W p)"
  shows "keeps P (check_connected W M)"
  unfolding check_connected_def transport_up_def revive_transport_def check_device_def check_lock_and_traffic_def
  by (intro keep hold escalate_op assms; simp add: assms)

end

section \<open>Well-formed sessions\<close>

definition known_kind :: "string \<Rightarrow> bool" where
  "known_kind kind \<longleftrightarrow> kind = transportKindWireGuard \<or> managerForKind kind \<noteq> None"

text \<open>What a CONNECTED session has, given the state \<open>st\<close> it claims.\<close>

definition backed :: "daemon_state \<Rightarrow> svc \<Rightarrow> bool" where
  "backed st s \<longleftrightarrow> (sv_active s = [] \<or> known_kind (sv_active s)) \<and> (st = StateConnected \<longrightarrow> sv_profile s \<noteq> None \<and> sv_active s \<noteq> [])"

definition well_formed :: "svc \<Rightarrow> bool" where
  "well_formed s \<longleftrightarrow> backed (m_state (sv_machine s)) s"

text \<open>In the middle of an operation.\<close>

definition moving :: "svc \<Rightarrow> bool" where
  "moving s \<longleftrightarrow> backed StateError s \<and> m_state (sv_machine s) \<noteq> StateConnected"

definition held_session :: "svc \<Rightarrow> bool" where
  "held_session s \<longleftrightarrow> well_formed s \<and> sv_profile s \<noteq> None"

lemma backed_connected: "backed StateConnected s \<Longrightarrow> well_formed s"
  by (auto simp: backed_def well_formed_def)

lemma moving_formed: "moving s \<Longrightarrow> well_formed s"
  by (simp add: backed_def well_formed_def moving_def)

interpretation formed: framed well_formed
  by unfold_locales (auto simp: well_formed_def backed_def mSet_def)

interpretation moving: framed moving
  by unfold_locales (auto simp: moving_def backed_def mSet_def)

interpretation backed: framed "backed st" for st
  by unfold_locales (auto simp: backed_def mSet_def)

interpretation held: framed held_session
  by unfold_locales (auto simp: held_session_def well_formed_def backed_def mSet_def)

text \<open>A transport that works.\<close>

definition working :: "svc \<Rightarrow> bool" where
  "working s \<longleftrightarrow> known_kind (sv_active s) \<and> sv_active s \<noteq> []"

interpretation working: framed working
  by unfold_locales (auto simp: working_def)

lemma triple_top: "triple P m (\<lambda>_ _. True)"
  by (simp add: triple_def)

lemma triple_conj: "triple P m Q \<Longrightarrow> triple P m R \<Longrightarrow> triple P m (\<lambda>x s. Q x s \<and> R x s)"
  by (simp add: triple_def)

lemma triple_pre: "(\<And>s. P s \<Longrightarrow> P' s) \<Longrightarrow> triple P' m Q \<Longrightarrow> triple P m Q"
  by (auto simp: triple_def)

lemma triple_shapes:
  "(b \<Longrightarrow> triple P m Q) \<Longrightarrow> (\<not> b \<Longrightarrow> triple P k Q) \<Longrightarrow> triple P (if b then m else k) Q"
  "(o' = None \<Longrightarrow> triple P m Q) \<Longrightarrow> (\<And>y. o' = Some y \<Longrightarrow> triple P (f y) Q) \<Longrightarrow> triple P (case o' of None \<Rightarrow> m | Some y \<Rightarrow> f y) Q"
  "(\<And>y. r = Inl y \<Longrightarrow> triple P (g y) Q) \<Longrightarrow> (\<And>y. r = Inr y \<Longrightarrow> triple P (h y) Q) \<Longrightarrow> triple P (case r of Inl y \<Rightarrow> g y | Inr y \<Rightarrow> h y) Q"
  by (auto split: option.split sum.split)

lemma runs_triple: "runs G m Q \<Longrightarrow> triple P m (\<lambda>x _. Q x)"
  by (auto simp: triple_def runs_def)

section \<open>A bring-up ends well formed\<close>

lemma candidate_kinds:
  assumes "transportCandidates W p preferred = Inr cs" and "c \<in> set cs"
  shows "known_kind (cand_kind c) \<and> cand_kind c \<noteq> []"
proof -
  have kinds: "known_kind k \<and> k \<noteq> []" if "k \<in> set knownKinds \<or> k \<in> set AutoCascadeOrder" for k
    using that by (auto simp: known_kind_def managerForKind_def knownKinds_def AutoCascadeOrder_def)
  have "known_kind transportKindWireGuard \<and> transportKindWireGuard \<noteq> []"
    by (simp add: known_kind_def transportKindWireGuard_def)
  then show ?thesis using assms kinds
    by (auto simp: transportCandidates_def Select_def autoCascade_def split: if_splits sum.splits prod.splits availability.splits)
qed

lemma tried_kind:
  "triple P (try_candidates W cx auto w cs p failures) (\<lambda>r _. \<forall>k. fst r = Inr k \<longrightarrow> k \<in> cand_kind ` set cs)"
proof (induction cs arbitrary: p failures P)
  case (Cons c cs)
  show ?case unfolding try_candidates.simps
  proof (rule triple_bind [OF triple_top], rule triple_bind [OF triple_top])
    fix r
    have rest: "triple (\<lambda>_. True) (do {
         ended \<leftarrow> ctx_err W;
         case ended of Some x \<Rightarrow> ret (Inl x, p', w)
         | None \<Rightarrow> do {
             offline \<leftarrow> (if hostNetworkUnreachable e then ret True else hostOffline W);
             if offline then ret (Inl (host_offline_err e), p', w)
             else try_candidates W cx auto w cs p' (failures @ [e]) } })
       (\<lambda>r _. \<forall>k. fst r = Inr k \<longrightarrow> k \<in> cand_kind ` set (c # cs))" for e p'
    proof (rule triple_bind [OF triple_top])
      fix ended show "triple (\<lambda>_. True) (case ended of Some x \<Rightarrow> ret (Inl x, p', w)
         | None \<Rightarrow> do {
             offline \<leftarrow> (if hostNetworkUnreachable e then ret True else hostOffline W);
             if offline then ret (Inl (host_offline_err e), p', w)
             else try_candidates W cx auto w cs p' (failures @ [e]) })
         (\<lambda>r _. \<forall>k. fst r = Inr k \<longrightarrow> k \<in> cand_kind ` set (c # cs))"
        by (cases ended) (auto intro!: triple_ret triple_bind [OF triple_top] triple_weaken [OF Cons.IH])
    qed
    show "triple (\<lambda>_. True) (case r of (None, p', attempt) \<Rightarrow> ret (Inr (cand_kind c), p', attempt)
       | (Some e, p', _) \<Rightarrow> do {
           ended \<leftarrow> ctx_err W;
           case ended of Some x \<Rightarrow> ret (Inl x, p', w)
           | None \<Rightarrow> do {
               offline \<leftarrow> (if hostNetworkUnreachable e then ret True else hostOffline W);
               if offline then ret (Inl (host_offline_err e), p', w)
               else try_candidates W cx auto w cs p' (failures @ [e]) } })
       (\<lambda>r _. \<forall>k. fst r = Inr k \<longrightarrow> k \<in> cand_kind ` set (c # cs))"
    proof (cases r)
      case (fields x p' v)
      show ?thesis
      proof (cases x)
        case None
        show ?thesis unfolding fields None prod.case option.case by (rule triple_ret) simp
      next
        case (Some e)
        show ?thesis unfolding fields Some prod.case option.case by (rule rest)
      qed
    qed
  qed
qed (auto intro: triple_ret)

lemma cascade_moving:
  "triple moving (startTransportWithHandshake W cx p w preferred network)
     (\<lambda>r s. moving s \<and> (\<forall>k. fst r = Inr k \<longrightarrow> known_kind k \<and> k \<noteq> []))"
proof (cases "transportCandidates W p preferred")
  case (Inr cs)
  let ?Q = "\<lambda>r s. moving s \<and> (\<forall>k. fst r = Inr k \<longrightarrow> known_kind k \<and> k \<noteq> [])"
  have walk: "triple (\<lambda>s. set ordered \<subseteq> set cs \<and> moving s) (do { r \<leftarrow> try_candidates W cx auto w ordered p []; setConnectingTransportKind []; ret r }) ?Q"
    for auto ordered
  proof (cases "set ordered \<subseteq> set cs")
    case True
    have known: "known_kind k \<and> k \<noteq> []" if "k \<in> cand_kind ` set ordered" for k
      using that candidate_kinds [OF Inr subsetD [OF True]] by auto
    have "triple moving (try_candidates W cx auto w ordered p [])
        (\<lambda>r s. moving s \<and> (\<forall>k. fst r = Inr k \<longrightarrow> k \<in> cand_kind ` set ordered))"
      by (rule triple_conj [OF moving.tries_op tried_kind]) (rule moving.candidates_keep [OF Inr subsetD [OF True]])
    then have "triple moving (try_candidates W cx auto w ordered p []) ?Q"
      unfolding triple_def using known by blast
    then have "triple moving (do { r \<leftarrow> try_candidates W cx auto w ordered p []; setConnectingTransportKind []; ret r }) ?Q"
    proof (rule triple_bind)
      fix r :: brought
      show "triple (?Q r) (do { setConnectingTransportKind []; ret r }) ?Q"
        by (rule triple_bind [where Q = "\<lambda>_. ?Q r"], unfold triple_def setConnectingTransportKind_def)
          (auto simp: moving_def backed_def)
    qed
    then show ?thesis by (rule triple_pre [rotated]) simp
  qed (simp add: triple_def)
  have order: "triple moving (reorderByMemory cs preferred network) (\<lambda>xs s. set xs \<subseteq> set cs \<and> moving s)"
    by (rule triple_conj [OF runs_triple [OF idle.reorder_run] moving.bring_parts(8)])
  have lead: "triple (\<lambda>s. set xs \<subseteq> set cs \<and> moving s) (applyRecoveryLead xs) (\<lambda>ys s. set ys \<subseteq> set cs \<and> moving s)" for xs
  proof (cases "set xs \<subseteq> set cs")
    case True
    then show ?thesis
      by (intro triple_weaken [OF triple_conj [OF runs_triple [OF idle.lead_run] moving.timer_ops(19)]]) auto
  qed (simp add: triple_def)
  show ?thesis unfolding startTransportWithHandshake_def Inr sum.case
    by (rule triple_bind [OF order], rule triple_bind [OF lead walk])
qed (simp add: startTransportWithHandshake_def triple_ret)

lemma set_connected: "triple (backed StateConnected) (set_state W StateConnected d) (\<lambda>_ s. backed StateConnected s \<and> well_formed s)"
  unfolding set_state_def call_def modify_def triple_def by (auto simp: Let_def backed_def well_formed_def)

lemma set_moving: "st \<noteq> StateConnected \<Longrightarrow> triple well_formed (set_state W st d) (\<lambda>_. moving)"
  unfolding set_state_def call_def modify_def triple_def by (auto simp: Let_def moving_def well_formed_def backed_def mSet_def)

lemma set_profile_ops:
  "keeps well_formed (setCurrentProfile W p)" "keeps moving (setCurrentProfile W p)"
  "triple working (setCurrentProfile W p) (\<lambda>_. backed StateConnected)" "triple well_formed (setCurrentProfile W p) (\<lambda>_. held_session)"
proof -
  have rest: "keeps P (do { resetDNSProbe W; setTransportsExhausted False })" if "framed P" for P
    by (intro keep framed.timer_ops [OF that])
  note ops = rest [OF formed.framed_axioms] rest [OF moving.framed_axioms] rest [OF backed.framed_axioms] rest [OF held.framed_axioms]
  show "keeps well_formed (setCurrentProfile W p)" "keeps moving (setCurrentProfile W p)"
    unfolding setCurrentProfile_def
    by (rule triple_bind [OF _ ops(1)] triple_bind [OF _ ops(2)]; simp add: triple_def well_formed_def moving_def backed_def)+
  show "triple working (setCurrentProfile W p) (\<lambda>_. backed StateConnected)"
    unfolding setCurrentProfile_def by (rule triple_bind [OF _ ops(3)]) (simp add: triple_def working_def backed_def)
  show "triple well_formed (setCurrentProfile W p) (\<lambda>_. held_session)"
    unfolding setCurrentProfile_def by (rule triple_bind [OF _ ops(4)]) (simp add: triple_def held_session_def well_formed_def backed_def)
qed

lemma adopt_formed: "known_kind kind \<Longrightarrow> kind \<noteq> [] \<Longrightarrow> triple moving (adopt_brought W opts network kind p) (\<lambda>_. well_formed)"
proof -
  assume kind: "known_kind kind" "kind \<noteq> []"
  have active: "triple moving (setActiveTransportKind kind) (\<lambda>_. working)"
    using kind by (simp add: triple_def setActiveTransportKind_def working_def)
  have final: "triple (backed StateConnected) (set_state W StateConnected ''tunnel active'') (\<lambda>_. well_formed)"
    by (rule triple_weaken [OF set_connected]) auto
  show ?thesis unfolding adopt_brought_def
    by (rule triple_bind [OF moving.timer_ops(10)], rule triple_bind [OF moving.timer_ops(5)], rule triple_bind [OF moving.timer_ops(11)],
        rule triple_bind [OF active], rule triple_bind [OF working.bring_parts(9)], rule triple_bind [OF working.reach_ops(4)],
        rule triple_bind [OF set_profile_ops(3)], rule triple_bind [OF backed.attach_parts(3)], rule triple_bind [OF backed.timer_ops(29)],
        rule final)
qed

lemma bring_up_with_formed: "triple well_formed (bring_up_with W cx p opts w) (\<lambda>_. well_formed)"
proof -
  have failed: "triple moving (if errors_Is ErrHostOffline e then do { holdBringUpOffline W netGen network; ret (Some e) }
         else do { clearOfflineHold; setError W detail; ret (Some e) }) (\<lambda>_. well_formed)" for e netGen network detail
    by (rule triple_weaken [where P = moving and Q = "\<lambda>_. moving"])
      (auto simp: moving_formed intro!: keep moving.attach_parts moving.timer_ops moving.state_ops)
  have rest: "triple (\<lambda>s. moving s \<and> (\<forall>k. fst r = Inr k \<longrightarrow> known_kind k \<and> k \<noteq> [])) (case r of (Inl e, _) \<Rightarrow>
         if errors_Is ErrHostOffline e then do { holdBringUpOffline W netGen network; ret (Some e) }
         else do { clearOfflineHold; setError W (''transport start failed: '' @ err_text e); ret (Some e) }
     | (Inr kind, p', _) \<Rightarrow> do { adopt_brought W opts network kind p'; ret None }) (\<lambda>_. well_formed)" for r :: brought and netGen network
  proof (cases r)
    case (fields x p' v)
    show ?thesis
    proof (cases x)
      case (Inl e)
      show ?thesis unfolding fields Inl prod.case sum.case by (rule triple_pre [OF _ failed]) simp
    next
      case (Inr kind)
      have "triple (\<lambda>s. moving s \<and> known_kind kind \<and> kind \<noteq> []) (do { adopt_brought W opts network kind p'; ret (None :: go_err option) }) (\<lambda>_. well_formed)"
      proof (cases "known_kind kind \<and> kind \<noteq> []")
        case True
        then show ?thesis by (intro triple_bind [OF triple_pre [OF _ adopt_formed] keeps_ret]) auto
      qed (auto simp: triple_def)
      then show ?thesis unfolding fields Inr prod.case sum.case by (rule triple_pre [rotated]) simp
    qed
  qed
  show ?thesis unfolding bring_up_with_def
    by (rule triple_bind [OF set_moving], simp, rule triple_bind [OF keeps_gets], rule triple_bind [OF moving.state_ops(19)],
        rule triple_bind [OF cascade_moving rest])
qed

lemma bring_up_formed: "keeps well_formed (bringUpAfterKillSwitch W cx p opts)"
  unfolding bringUpAfterKillSwitch_def
  by (intro keep formed.attach_parts formed.split_routes_ops formed.split_ops formed.state_ops bring_up_with_formed)

section \<open>The operations end well formed\<close>

text \<open>A backed session stays so whatever the state machine says.\<close>

lemma set_any: "keeps (backed StateConnected) (set_state W st d)" "keeps (backed StateConnected) (cas_state W expected st d)"
  unfolding set_state_def cas_state_def call_def modify_def gets_def triple_def by (auto simp: Let_def backed_def)

lemma set_working: "known_kind kind \<Longrightarrow> kind \<noteq> [] \<Longrightarrow> triple held_session (setActiveTransportKind kind) (\<lambda>_. backed StateConnected)"
  by (auto simp: triple_def setActiveTransportKind_def held_session_def backed_def)

lemma restored_kind: "triple P (restoreTransportForAdoption W p kind) (\<lambda>e _. e = None \<longrightarrow> managerForKind kind \<noteq> None)"
proof (cases "managerForKind kind")
  case None
  then have "kind \<noteq> ''cloak''" by (auto simp: managerForKind_def)
  with None show ?thesis by (simp add: restoreTransportForAdoption_def triple_ret)
qed (simp add: triple_def)

lemma attach_formed:
  "triple well_formed (attachToRunningSession W p preferred) (\<lambda>r s. well_formed s \<and> (r = (True, None) \<longrightarrow> backed StateConnected s))"
    (is "triple _ _ ?Q")
proof -
  have adopted: "triple (backed StateConnected) (do { cas_state W expected StateConnected d; ret (True, None) }) ?Q" for expected d
    by (rule triple_bind [OF set_any(2) triple_ret]) (simp add: backed_connected)
  have stamped: "triple held_session (do { setActiveTransportKind kind; cas_state W expected StateConnected d; ret (True, None) }) ?Q"
    if "known_kind kind" "kind \<noteq> []" for kind expected d
    by (rule triple_bind [OF set_working [OF that] adopted])
  have direct: "known_kind transportKindWireGuard" "transportKindWireGuard \<noteq> []"
    by (simp_all add: known_kind_def transportKindWireGuard_def)
  let ?finish = "\<lambda>e. case e of Some x \<Rightarrow> ret (True, Some x)
           | None \<Rightarrow> do {
               setActiveTransportKind (adopt_kind preferred);
               cas_state W nonDisconnectingStates StateConnected ''recovered active tunnel'';
               ret (True, None) }"
  have restored: "triple (\<lambda>s. held_session s \<and> (e = None \<longrightarrow> managerForKind (adopt_kind preferred) \<noteq> None)) (?finish e) ?Q" for e
  proof (cases e)
    case None
    show ?thesis
    proof (cases "managerForKind (adopt_kind preferred)")
      case (Some k)
      have "known_kind (adopt_kind preferred)" using Some by (simp add: known_kind_def)
      moreover have "adopt_kind preferred \<noteq> []" by (simp add: adopt_kind_def)
      ultimately show ?thesis unfolding None option.case by (intro triple_pre [OF _ stamped]) auto
    qed (simp add: None triple_def)
  qed (auto intro!: triple_ret simp: held_session_def)
  have rest: "triple held_session (if preferred = transportKindWireGuard then do {
           setActiveTransportKind transportKindWireGuard;
           cas_state W nonDisconnectingStates StateConnected ''recovered active tunnel'';
           ret (True, None) }
         else State_Monad.bind (restoreTransportForAdoption W p (adopt_kind preferred)) ?finish) ?Q"
    using stamped [OF direct] triple_bind [OF triple_conj [OF held.attach_parts(5) restored_kind] restored] by simp
  have refused: "triple well_formed (do { current \<leftarrow> gets sv_profile; releaseKeptDevice W (f current); ret (False, None) }) ?Q" for f
    by (rule triple_bind [OF keeps_gets], rule triple_bind [OF formed.running_ops(6) triple_ret]) simp
  have dead: "triple well_formed (ret (False, None)) ?Q" by (rule triple_ret) simp
  show ?thesis unfolding attachToRunningSession_def
    by (rule triple_bind [OF formed.running_ops(1)], intro triple_shapes dead, rule triple_bind [OF formed.timer_ops(9)],
        rule triple_bind [OF keeps_gets], intro triple_shapes refused triple_bind [OF set_profile_ops(4) rest])
qed

lemma adopted_formed: "triple (backed StateConnected) (connect_adopted W p opts) (\<lambda>_. well_formed)"
proof -
  have "keeps (backed StateConnected) (connect_adopted W p opts)"
    unfolding connect_adopted_def armKillSwitchForAdoptedTunnel_def
    by (intro keeps_bind keeps_ret keeps_shapes set_any backed.attach_parts backed.split_ops backed.split_routes_ops backed.record_ops
        backed.state_ops backed.tunnel_ref_ops)
  then show ?thesis by (rule triple_weaken) (simp_all add: backed_connected)
qed

lemma connect_formed: "keeps well_formed (Connect W pid opts)"
proof -
  have locked: "keeps well_formed (connect_locked W p opts)" for p
    unfolding connect_locked_def
    by (intro keep formed.attach_parts formed.record_ops formed.state_ops formed.timer_ops set_profile_ops bring_up_formed; simp)
  have fresh: "keeps well_formed (connect_fresh W p opts)" for p
    unfolding connect_fresh_def
    by (intro keep formed.attach_parts formed.split_ops formed.state_ops formed.running_ops locked)
  have attached: "triple (\<lambda>s. well_formed s \<and> (a = (True, None) \<longrightarrow> backed StateConnected s))
      (case a of (_, Some x) \<Rightarrow> fail_with W x | (True, None) \<Rightarrow> connect_adopted W p opts | (False, None) \<Rightarrow> connect_fresh W p opts)
      (\<lambda>_. well_formed)" for a p
  proof (cases a)
    case (Pair b e)
    then show ?thesis
      by (cases b; cases e) (auto intro: triple_pre [OF _ formed.attach_parts(6)] triple_pre [OF _ adopted_formed] triple_pre [OF _ fresh])
  qed
  have session: "keeps well_formed (connect_session W p opts)" for p
    unfolding connect_session_def
    by (rule keeps_bind [OF formed.attach_parts(2)], rule triple_bind [OF attach_formed], rule triple_bind [OF attached])
      (intro keep formed.attach_parts)
  show ?thesis unfolding Connect_def connect_profile_def
    by (intro keep formed.timer_ops formed.state_ops formed.split_ops formed.attach_parts session)
qed

lemma refuse_formed: "triple (backed current) (refuse_switch W current old what e) (\<lambda>_. well_formed)"
  unfolding refuse_switch_def
  by (rule triple_bind [OF _ keeps_ret]) (auto simp: triple_def set_state_def call_def modify_def Let_def backed_def well_formed_def mSet_def)

lemma clear_active: "keeps moving (setActiveTransportKind [])"
  by (simp add: triple_def setActiveTransportKind_def moving_def backed_def)

lemma bring_up_moved: "triple moving (bringUpAfterKillSwitch W cx p opts) (\<lambda>_. well_formed)"
  by (rule triple_pre [OF moving_formed bring_up_formed])

lemma switch_over_formed: "triple moving (switch_over W old new opts w) (\<lambda>_. well_formed)"
proof -
  have before: "keeps moving (if keep then ret () else do {
        set_state W StateConnecting (switching_to new ''stopping wireguard'');
        wg_stop W (withTransportBypassHosts (w_hostname W) old);
        ret () })" for keep
    by (intro keep moving.state_ops moving.set_down; simp)
  show ?thesis unfolding switch_over_def
    by (rule triple_bind [OF moving.attach_parts(8)], rule triple_bind [OF before], rule triple_bind [OF moving.set_down], simp,
        rule triple_bind [OF moving.bring_parts(3)], rule triple_bind [OF clear_active], rule triple_bind [OF set_profile_ops(2)],
        rule triple_bind [OF moving.attach_parts(3)], rule triple_bind [OF bring_up_moved])
      (intro keep formed.timer_ops formed.running_ops)
qed

lemma switch_session_formed: "triple (backed current) (switch_session W current old new opts) (\<lambda>_. well_formed)"
proof -
  have armed: "triple (\<lambda>s. backed current s \<and> moving s) (case e of Some x \<Rightarrow> refuse_switch W current old what x | None \<Rightarrow> switch_over W old new opts w)
      (\<lambda>_. well_formed)" for e what w
    by (intro triple_shapes triple_pre [OF _ switch_over_formed] triple_pre [OF _ refuse_formed]) simp_all
  have connecting: "triple (backed current) (set_state W StateConnecting d) (\<lambda>_ s. backed current s \<and> moving s)" for d
    unfolding set_state_def call_def modify_def triple_def by (auto simp: Let_def moving_def backed_def mSet_def)
  note both = triple_conj [OF triple_pre triple_pre]
  have permits: "keeps (\<lambda>s. backed current s \<and> moving s) (sessionKillSwitchPermits W new)"
    by (rule both [OF _ backed.record_ops(8) _ moving.record_ops(8)]) simp_all
  have enable: "keeps (\<lambda>s. backed current s \<and> moving s) (ks_enable W hosts lan lock)" for hosts lan lock
    by (rule both [OF _ backed.state_ops(8) _ moving.state_ops(8)]) simp_all
  show ?thesis unfolding switch_session_def
    by (rule triple_bind [OF backed.split_ops(6)], intro triple_shapes refuse_formed, rule triple_bind [OF backed.state_ops(7)],
        intro triple_shapes refuse_formed, rule triple_bind [OF connecting], rule triple_bind [OF permits], rule triple_bind [OF enable armed])
qed

lemma switch_formed: "keeps well_formed (Switch W pid opts)"
proof -
  let ?at = "\<lambda>current s. well_formed s \<and> backed current s"
  have chosen: "triple (?at current) (case found of None \<Rightarrow> ret (Some (profile_not_found pid))
        | Some new \<Rightarrow>
            if p_id new = p_id old then ret None
            else (case validateProfile new of Some e \<Rightarrow> ret (Some e)
              | None \<Rightarrow> switch_session W current old (ApplyHop new) opts)) (\<lambda>_. well_formed)" for current old found
    by (intro triple_shapes triple_ret triple_pre [OF _ switch_session_formed]) simp_all
  have chosen': "triple (?at current) (switch_from W current old pid opts) (\<lambda>_. well_formed)" for current old
    unfolding switch_from_def find_profile_def
    by (intro triple_shapes triple_ret triple_bind [OF keeps_gets chosen]) simp_all
  have state: "triple well_formed get_state ?at"
    by (simp add: triple_def get_state_def gets_def well_formed_def)
  show ?thesis unfolding Switch_def
    by (rule triple_bind [OF formed.timer_ops(5)], rule triple_bind [OF formed.timer_ops(16)], rule triple_bind [OF state],
        rule triple_bind [OF keeps_gets], rule triple_bind [OF chosen']) (intro keep formed.split_ops)
qed

lemma rebuild_formed: "keeps well_formed (rebuildSilentSession W p)"
proof -
  have stopped: "keeps moving (if keep then ret () else do { wg_stop W w; ret () })" for keep w
    by (intro keep moving.state_ops)
  have armed: "keeps well_formed (rebuild_armed W p q opts w)" for q opts w
    unfolding rebuild_armed_def
    by (rule triple_bind [OF set_moving], simp, rule triple_bind [OF moving.check_parts(6)], rule triple_bind [OF stopped],
        rule triple_bind [OF moving.bring_parts(3)], rule triple_bind [OF clear_active], rule triple_bind [OF bring_up_moved])
      (intro keep formed.check_parts)
  show ?thesis unfolding rebuildSilentSession_def rebuild_locked_def Let_def
    by (intro keep formed.check_parts formed.state_ops formed.split_ops armed)
qed

lemma disconnect_formed: "keeps well_formed (disconnect W mode)"
proof -
  have cleared: "keeps moving (clearCurrentProfile W keep)" for keep
    unfolding clearCurrentProfile_def
    by (rule keeps_bind, simp add: triple_def moving_def backed_def) (intro keep moving.timer_ops; simp)
  have body: "keeps well_formed (disconnect_body W mode)"
    unfolding disconnect_body_def Let_def
    by (rule triple_bind [OF keeps_gets], rule triple_bind [OF set_moving], simp, rule triple_weaken [where P = moving and Q = "\<lambda>_. moving"],
        intro keeps_bind keeps_ret moving.running_ops moving.lock_ops moving.set_down moving.bring_parts clear_active cleared moving.timer_ops
          moving.settle_op moving.split_ops moving.attach_parts; simp)
      (simp_all add: moving_formed)
  show ?thesis unfolding disconnect_def by (intro keep formed.state_ops body)
qed

text \<open>The daemon's own operations.\<close>

definition carried_session :: "svc \<Rightarrow> bool" where
  "carried_session s \<longleftrightarrow> held_session s \<and> sv_active s \<noteq> []"

interpretation lit: framed carried_session
  by unfold_locales (auto simp: carried_session_def held_session_def well_formed_def backed_def mSet_def)

lemma healthy_carried: "triple held_session (sessionIsHealthy W p) (\<lambda>b s. held_session s \<and> (b \<longrightarrow> carried_session s))"
proof -
  let ?Q = "\<lambda>b s. held_session s \<and> (b \<longrightarrow> carried_session s)"
  have kind: "triple held_session (gets sv_active) (\<lambda>kind s. held_session s \<and> (kind = [] \<or> carried_session s))"
    by (auto simp: triple_def gets_def carried_session_def)
  have asked: "keeps carried_session (do {
       r \<leftarrow> wg_status_of W (p_wireguard p);
       case r of Inl _ \<Rightarrow> ret False
       | Inr st \<Rightarrow>
           if \<not> ws_running st \<or> ws_handshake st \<le> 0 then ret False
           else do { stale \<leftarrow> wireGuardHandshakeStale W st; ret (\<not> stale) } })"
    by (intro keep lit.state_ops lit.timer_ops)
  have silent: "triple (\<lambda>s. held_session s \<and> (kind = [] \<or> carried_session s)) (ret False) ?Q" for kind :: string
    by (rule triple_ret) simp
  show ?thesis unfolding sessionIsHealthy_def
    by (rule triple_bind [OF held.state_ops(10)], rule triple_bind [OF kind], intro triple_shapes(1) silent, rule triple_weaken [OF asked])
      (auto simp: carried_session_def)
qed

lemma retry_formed:
  assumes "keeps well_formed M"
  shows "keeps well_formed (retryDroppedSession W M)"
proof -
  have formed: "held_session s \<Longrightarrow> well_formed s" for s by (simp add: held_session_def)
  have up: "triple carried_session (do { cas_state W expected StateConnected d; resetRecovery }) (\<lambda>_. well_formed)" for expected d
    by (rule triple_weaken [where P = "backed StateConnected" and Q = "\<lambda>_. backed StateConnected"], intro keeps_bind set_any backed.timer_ops)
      (auto simp: backed_connected carried_session_def held_session_def well_formed_def backed_def)
  have wait: "keeps well_formed (do {
       usable \<leftarrow> networkLooksUsable W;
       due \<leftarrow> (if usable then recoveryDue W else ret False);
       if due then do { attemptSessionRebuild W M p ''connection lost''; ret () } else ret () })" for p
    by (intro keep formed.timer_ops formed.attempt_op assms rebuild_formed)
  have dropped: "triple held_session (retry_dropped W M p) (\<lambda>_. well_formed)" for p
    unfolding retry_dropped_def
    by (rule triple_bind [OF healthy_carried], intro triple_shapes(1) triple_pre [OF _ up] triple_pre [OF _ wait]) (simp_all add: formed)
  have live: "triple held_session (do {
         held \<leftarrow> offlineHoldActive W;
         offline \<leftarrow> (if held then ret True else hostOffline W);
         if offline then ret () else retry_dropped W M p }) (\<lambda>_. well_formed)" for p
    by (rule triple_bind [OF held.timer_ops(9)], rule triple_bind, rule keeps_shapes(1) [OF keeps_ret held.timer_ops(31)],
        intro triple_shapes(1) dropped triple_ret) (simp add: formed)
  have profile: "triple well_formed (gets sv_profile) (\<lambda>c s. well_formed s \<and> (c \<noteq> None \<longrightarrow> held_session s))"
    by (simp add: triple_def gets_def held_session_def)
  show ?thesis unfolding retryDroppedSession_def
    by (rule triple_bind [OF profile], intro triple_shapes(2) triple_ret triple_pre [OF _ live]) simp_all
qed

lemma health_formed:
  assumes "keeps well_formed M"
  shows "keeps well_formed (runHealthCheck W M)"
  unfolding runHealthCheck_def
  by (intro keep formed.timer_ops formed.state_ops formed.escalate_op formed.connected_op retry_formed rebuild_formed assms)

lemma startup_formed: "keeps well_formed (reconcileStartup W)"
proof -
  have reapply: "keeps well_formed (reapply_lock W endpoints k n)" for endpoints k n
    by (induction n) (auto intro!: keep formed.state_ops)
  have armed: "keeps (backed StateConnected) (reconcileKillSwitchForAdoptedTunnel W p)" for p
    unfolding reconcileKillSwitchForAdoptedTunnel_def Let_def
    by (intro keep backed.state_ops backed.record_ops backed.tunnel_ref_ops backed.split_routes_ops)
  have found: "triple (\<lambda>s. well_formed s \<and> (a = (True, None) \<longrightarrow> backed StateConnected s))
      (case a of (adopted, Some e) \<Rightarrow> when_m adopted (setError W (''startup tunnel recovery failed: '' @ err_text e))
       | (adopted, None) \<Rightarrow> when_m adopted (reconcileKillSwitchForAdoptedTunnel W p)) (\<lambda>_. well_formed)" for a p
  proof (cases a)
    case (Pair b e)
    have "triple (\<lambda>s. well_formed s \<and> backed StateConnected s) (reconcileKillSwitchForAdoptedTunnel W p) (\<lambda>_. well_formed)"
      by (rule triple_weaken [OF armed]) (simp_all add: backed_connected)
    then show ?thesis using Pair by (cases b; cases e) (auto simp: when_m_def intro: triple_ret formed.state_ops)
  qed
  have adopt: "keeps well_formed (adopt_at_startup W p)" for p
    unfolding adopt_at_startup_def by (rule triple_bind [OF attach_formed found])
  show ?thesis
    unfolding reconcileStartup_def reconcilePersistedKillSwitch_def reconcile_unknown_def recoverRecordedSession_def resume_recorded_def
      holdOrphanedLock_def allConfiguredTunnelNames_def Let_def
    by (intro keep formed.running_ops formed.state_ops formed.lock_ops formed.record_ops reapply set_profile_ops formed.split_ops
        formed.attach_parts formed.timer_ops formed.set_down adopt; simp)
qed

lemma op_formed: "keeps well_formed (run_op W enc op)"
proof (induction op rule: unlocks.induct)
  case (3 meanwhile)
  then show ?case by (auto intro!: health_formed keeps_for_each)
qed (auto simp: unit_of_def Disconnect_def Shutdown_def intro!: keep connect_formed switch_formed disconnect_formed startup_formed
    formed.lock_ops formed.proxy_op formed.update_split_op formed.reconcile_ops formed.run_task_op formed.timer_ops formed.clear_lock_op)

text \<open>C6: the session's state stays well formed over any sequence of operations: whenever the daemon says CONNECTED it holds
  the profile of the session and a transport, and the transport it holds is always one it can manage, so that the
  health check never meets a connected session without a profile nor an unknown transport.\<close>

theorem sessions_well_formed:
  assumes "well_formed s"
  shows "well_formed (run_ops W enc ops s)"
proof -
  have "keeps well_formed (for_each ops (run_op W enc))" by (intro keep op_formed)
  then show ?thesis using assms by (simp add: triple_def run_ops_def)
qed

end
