(* ===== verification/Session_Samples.thy ===== *)
theory Session_Samples
  imports Session_Verified Session_Invariant
begin

text \<open>Concrete sessions: a world in which every call succeeds, a multihop profile, a session that just dropped; the
  witnesses of the session properties, and what a rebuild does with a hop.\<close>

definition sample_world :: world where
  "sample_world = \<lparr>w_wgStart = \<lambda>_ _. None, w_wgStop = \<lambda>_ _. None,
     w_wgStatus = \<lambda>_ _. Inr \<lparr>ws_running = True, ws_handshake = 5, ws_bytesIn = 0, ws_detail = []\<rparr>,
     w_preflight = None, w_pin = None, w_apply = None, w_iface = None, w_luid = None, w_ready = None, w_routes = None,
     w_ensureDNS = None, w_rebind = None, w_ksEnable = \<lambda>_ _ _ _. None, w_ksUpdate = \<lambda>_ _. None, w_ksClear = \<lambda>_. None,
     w_ksActive = \<lambda>_. True, w_ksDrop = None, w_ksRelease = None, w_ksSplit = None, w_ksLoad = \<lambda>_. Inr no_ks_saved,
     w_trStart = \<lambda>_ _ _. None, w_trStop = \<lambda>_ _. None, w_trRunning = \<lambda>_ _. True, w_trBound = \<lambda>_. None, w_trSession = \<lambda>_. None,
     w_portOwners = \<lambda>_ _. Inr [], w_probe = Some (\<lambda>_ _ _. None), w_probeStart = \<lambda>_. None, w_probeDelay = \<lambda>_. 0,
     w_networkKey = None, w_hostInternet = None, w_physicalRoute = None, w_ctxErr = \<lambda>_. None, w_elapsed = \<lambda>_. 1,
     w_saveRecord = \<lambda>_. True, w_removeRecord = \<lambda>_. True, w_readRecord = \<lambda>_. True, w_memoryWrites = \<lambda>_. True,
     w_memoryOrder = id, w_realityHub = None, w_shadowsocksHub = None, w_hubPermitsWrite = \<lambda>_. True, w_hubPermitsRead = \<lambda>_. True,
     w_reach = None, w_updateAt = \<lambda>_. 0, w_networkRepair = False, w_repairDone = \<lambda>_. True, w_baselineOrder = id, w_opFree = \<lambda>_. True,
     w_jitter = \<lambda>_ d. d, w_hostname = \<lambda>_. None, w_recoveryDelays = [], w_handshakeTimeout = 0, w_dataPathBudget = 0\<rparr>"

definition stored_profile :: profile where
  "stored_profile = blank_profile\<lparr>p_id := ''p1'', p_name := ''nl to de'', p_hop := Some sample_hop,
     p_cloak := blank_cloak\<lparr>cl_localPort := 1984, cl_remoteHost := ''192.0.2.10'', cl_remotePort := 443\<rparr>,
     p_wireguard := blank_wireguard\<lparr>wg_tunnelName := ''pangea'', wg_dns := Some [''10.0.0.1''],
       wg_configText := ''[Peer]'' @ [CHR 0x0A] @ ''AllowedIPs = 0.0.0.0/0'' @ [CHR 0x0A] @ ''Endpoint = 127.0.0.1:1984''\<rparr>\<rparr>"

definition sample_opts :: connect_options where
  "sample_opts = \<lparr>co_allowLAN = False, co_lockdown = False, co_preferred = ''cloak''\<rparr>"

definition idle_svc :: svc where
  "idle_svc = \<lparr>sv_machine = NewMachine, sv_config = \<lparr>st_config = \<lparr>c_profiles = Some [stored_profile]\<rparr>,
       st_fs = \<lparr>f_primary = None, f_bak = None, f_tmp = None\<rparr>\<rparr>,
     sv_memory = None, sv_profile = None, sv_opts = sample_opts, sv_active = [], sv_connecting = [], sv_record = None, sv_hubPermits = [],
     sv_cloakFor = None, sv_attempts = 0, sv_nextAt = 0, sv_healthHold = 0, sv_network = [], sv_offlineUntil = 0, sv_offlineHeld = False,
     sv_keptDead = False, sv_netGen = 0, sv_resumeFresh = 0, sv_resumeNoted = 0, sv_probeNextAt = 0, sv_probeFailures = 0, sv_probeQuiet = 0,
     sv_dnsGuardNext = 0, sv_lead = no_lead, sv_lastDeadKind = [], sv_lastDeadAt = 0, sv_exhausted = False, sv_upProfile = [], sv_upUntil = 0,
     sv_upProbeAt = 0, sv_upProbes = 0, sv_routeRepairs = 0, sv_repair = [], sv_baseline = [], sv_tasks = [], sv_store = None,
     sv_applied = no_applied, sv_lockRanges = [], sv_lockUnsure = False, sv_retryAt = 0, sv_splitKick = False, sv_healthKick = False,
     sv_now = 0, sv_trace = []\<rparr>"

text \<open>The session of a multihop profile after it dropped: the live copy carries the destinations of its hop.\<close>

definition dropped_svc :: svc where
  "dropped_svc = idle_svc\<lparr>sv_machine := \<lparr>m_state = StateError, m_detail = []\<rparr>, sv_profile := Some (ApplyHop stored_profile), sv_active := ''cloak''\<rparr>"

lemma sample_valid: "validateProfile stored_profile = None"
  by code_simp

definition refusing_world :: world where
  "refusing_world = sample_world\<lparr>w_trStart := \<lambda>_ _ _. Some (Leaf ''refused'')\<rparr>"

lemma stored_wireguard: "\<exists>w. wireGuardProfileFor (\<lambda>_. None) stored_profile False [] = Inr w"
proof -
  have "(case wireGuardProfileFor (\<lambda>_. None) stored_profile False [] of Inr _ \<Rightarrow> True | Inl _ \<Rightarrow> False)" by code_simp
  then show ?thesis by (cases "wireGuardProfileFor (\<lambda>_. None) stored_profile False []") auto
qed

lemma refused_text: "hostNetworkUnreachable (wrapf ''cloak'' (wrapf ''start'' (Leaf ''refused''))) = False"
  by code_simp

lemma run_call: "run_state (call W f ev) s = (f (length (sv_trace s)), s\<lparr>sv_trace := sv_trace s @ [ev (f (length (sv_trace s)))],
    sv_now := sv_now s + int (w_elapsed W (length (sv_trace s)))\<rparr>)"
  by (simp add: call_def Let_def)

lemma candidates_cloak: "transportCandidates W p ''cloak'' = Inr [\<lparr>cand_kind = ''cloak'', cand_start = startCloakTransport W\<rparr>]"
  by (simp add: transportCandidates_def transportKindWireGuard_def Select_def IsAuto_def knownKinds_def StarterFor_def Let_def)

lemmas path_simps = rebuildSilentSession_def rebuild_locked_def rebuild_armed_def rebuild_ctx_def rearm_if_down_def after_rebuild_def
  try_op_def splitCIDRsFor_def desiredSplit_def desired_split_def ks_active_def set_state_def wg_stop_def stop_active_def activeTransport_def
  setActiveTransportKind_def tr_stop_def bringUpAfterKillSwitch_def bring_up_with_def cancelNetworkRepair_def syncSplitForBringUp_def
  currentNetworkKey_def startTransportWithHandshake_def reorderByMemory_def applyRecoveryLead_def takeRecoveryLead_def
  bringUpTransport_def setConnectingTransportKind_def startCloakTransport_def tr_running_def tr_start_def cloakStartedForRemote_def
  unless_err_def cleanup_candidate_def ctx_err_def hostOffline_def hostVerdict_def refused_text run_call candidates_cloak when_m_def

lemma stored_fields:
  "p_id stored_profile = ''p1''" "FindProfile ''p1'' (sv_config dropped_svc) = Some stored_profile"
  "zero_cloak\<lparr>cl_localPort := cl_localPort (p_cloak stored_profile)\<rparr> \<noteq> p_cloak stored_profile"
  by (simp_all add: stored_profile_def FindProfile_def profs_def dropped_svc_def idle_svc_def zero_cloak_def blank_cloak_def)

lemma world_fields: "w_opFree refusing_world = (\<lambda>_. True)" "w_hostname refusing_world = (\<lambda>_. None)" "w_elapsed refusing_world = (\<lambda>_. 1)"
  "w_ksActive refusing_world = (\<lambda>_. True)" "w_wgStop refusing_world = (\<lambda>_ _. None)" "w_trStop refusing_world = (\<lambda>_ _. None)"
  "w_trStart refusing_world = (\<lambda>_ _ _. Some (Leaf ''refused''))" "w_ctxErr refusing_world = (\<lambda>_. None)" "w_hostInternet refusing_world = None"
  "w_networkKey refusing_world = None" "w_trRunning refusing_world = (\<lambda>_ _. True)"
  "w_pin refusing_world = None" "w_repairDone refusing_world = (\<lambda>_. True)" "w_recoveryDelays refusing_world = []" "w_memoryOrder refusing_world = id"
  "w_memoryWrites refusing_world = (\<lambda>_. True)"
  by (simp_all add: refusing_world_def sample_world_def)

lemma dropped_fields: "sv_trace dropped_svc = []" "sv_store dropped_svc = None" "sv_opts dropped_svc = sample_opts"
  "m_state (sv_machine dropped_svc) = StateError" "sv_active dropped_svc = ''cloak''" "co_allowLAN sample_opts = False"
  "sv_memory dropped_svc = None" "sv_repair dropped_svc = []" "sv_cloakFor dropped_svc = None" "sv_lead dropped_svc = no_lead" "sv_netGen dropped_svc = 0"
  "co_preferred sample_opts = ''cloak''" "co_lockdown sample_opts = False"
  by (simp_all add: dropped_svc_def idle_svc_def sample_opts_def)

lemma dropped_run: "list_ex (\<lambda>e. case e of TrStart _ _ _ \<Rightarrow> True | _ \<Rightarrow> False)
     (sv_trace (snd (run_state (rebuildSilentSession refusing_world (ApplyHop stored_profile)) dropped_svc)))"
proof -
  obtain w where w: "wireGuardProfileFor (\<lambda>_. None) stored_profile False [] = Inr w" using stored_wireguard by blast
  have id: "p_id (ApplyHop stored_profile) = ''p1''" by (simp add: ApplyHop_def stored_fields split: option.split)
  have port: "transportLocalPort stored_profile ''cloak'' = 1984" "\<not> IsAuto ''cloak''" by code_simp+
  show ?thesis
    using stored_fields by (simp add: path_simps w id world_fields dropped_fields managerForKind_def plain_ctx_def startNetworkRepair_def port
      setError_def clearOfflineHold_def kickSplitReconcileIfPending_def kickSplitReconcile_def updateAppliedSplit_def)
qed

text \<open>The rebuild of that session does start a transport, and asks it for none of the destinations of its hop.\<close>

lemma rebuild_forgets_hop_witness:
  "dials_within (- hop_targets sample_hop) (rebuildSilentSession refusing_world (ApplyHop stored_profile)) dropped_svc
     \<and> list_ex (\<lambda>e. case e of TrStart _ _ _ \<Rightarrow> True | _ \<Rightarrow> False)
         (sv_trace (snd (run_state (rebuildSilentSession refusing_world (ApplyHop stored_profile)) dropped_svc)))"
proof (rule conjI [OF rebuild_forgets_hop dropped_run])
  show "FindProfile (p_id (ApplyHop stored_profile)) (sv_config dropped_svc) = Some stored_profile"
    using stored_fields by (simp add: ApplyHop_def split: option.split)
  show "p_hop stored_profile = Some sample_hop" by (simp add: stored_profile_def)
  show "validateProfile stored_profile = None" by (rule sample_valid)
  show "unset_targets stored_profile"
    by (simp add: unset_targets_def targets_def stored_profile_def blank_profile_def blank_cloak_def split: option.split)
qed

text \<open>The session locked, then checked, then shut down with the lock up.\<close>

lemma lock_never_lowered_witness:
  "\<forall>W enc s. filter lowers (sv_trace (run_ops W enc [OpEngage True, OpHealth [OpDisconnect True], OpShutdown] s)) = filter lowers (sv_trace s)"
  using lock_never_lowered by simp

lemma user_dials_through_hop_witness:
  "dials_within (hop_targets sample_hop) (Connect sample_world ''p1'' sample_opts) idle_svc
     \<and> dials_within (hop_targets sample_hop) (Switch sample_world ''p1'' sample_opts) idle_svc"
  by (rule user_dials_through_hop [of _ _ stored_profile]) (simp_all add: FindProfile_def profs_def idle_svc_def stored_profile_def)

text \<open>A bring-up over Cloak that succeeds.\<close>

lemma sample_fields: "w_hostname sample_world = (\<lambda>_. None)" "w_elapsed sample_world = (\<lambda>_. 1)" "w_repairDone sample_world = (\<lambda>_. True)"
  "w_networkKey sample_world = None" "w_trRunning sample_world = (\<lambda>_ _. True)" "w_trStart sample_world = (\<lambda>_ _ _. None)"
  "w_trBound sample_world = (\<lambda>_. None)" "w_wgStart sample_world = (\<lambda>_ _. None)"
  "w_wgStatus sample_world = (\<lambda>_ _. Inr \<lparr>ws_running = True, ws_handshake = 5, ws_bytesIn = 0, ws_detail = []\<rparr>)"
  "w_handshakeTimeout sample_world = 0" "w_updateAt sample_world = (\<lambda>_. 0)" "w_iface sample_world = None" "w_luid sample_world = None"
  "w_ksUpdate sample_world = (\<lambda>_ _. None)" "w_probe sample_world = Some (\<lambda>_ _ _. None)" "w_probeStart sample_world = (\<lambda>_. None)"
  "w_dataPathBudget sample_world = 0" "w_ready sample_world = None" "w_reach sample_world = None" "w_probeDelay sample_world = (\<lambda>_. 0)"
  "w_saveRecord sample_world = (\<lambda>_. True)"
  by (simp_all add: sample_world_def)

lemma stored_probe: "\<exists>w. wireGuardProfileFor (\<lambda>_. None) stored_profile False [] = Inr w \<and> probe_servers w = [''10.0.0.1'']"
proof -
  have "(case wireGuardProfileFor (\<lambda>_. None) stored_profile False [] of Inr w \<Rightarrow> probe_servers w = [''10.0.0.1''] | Inl _ \<Rightarrow> False)" by code_simp
  then show ?thesis by (cases "wireGuardProfileFor (\<lambda>_. None) stored_profile False []") auto
qed

lemma bring_up_sample: "fst (run_state (bringUpAfterKillSwitch sample_world plain_ctx stored_profile sample_opts) dropped_svc) = None"
proof -
  obtain w where w: "wireGuardProfileFor (\<lambda>_. None) stored_profile False [] = Inr w" "probe_servers w = [''10.0.0.1'']"
    using stored_probe by blast
  have port: "\<not> IsAuto ''cloak''" by code_simp
  have polls: "handshake_polls W v m timeout deadline job (nat (timeout div 200) + 2) at d =
      handshake_polls W v m timeout deadline job (Suc (nat (timeout div 200) + 1)) at d" for W v m timeout deadline job at d by simp
  have rounds: "run_state (gate_rounds sample_world servers iface deadline k 0 False None) u =
      run_state (do { probe_call sample_world iface (servers ! 0); ret GatePass }) u" if "0 < k" for servers iface deadline k u
    using that by (cases k) (simp_all add: dataPathGateAttempts_def probe_call_def sample_fields run_call Let_def)
  show ?thesis using stored_fields
    by (simp add: path_simps w sample_fields dropped_fields managerForKind_def plain_ctx_def port
        clearOfflineHold_def updateAppliedSplit_def Let_def rememberCloakRemote_def rebindWireGuardEndpoint_def waitForManagedTransportStable_def
        start_device_def wg_start_def wg_status_of_def check_traffic_def waitForWireGuardHandshake_def handshakeTimeoutFor_def
        wireGuardHandshakePollInterval_def defaultWireGuardHandshakeTimeout_def now_def polls run_beside_def permit_tunnel_def
        resolveTunnelRef_def resolveWireGuardInterfaceName_def resolveTunnelLUID_def ks_update_def proveDataPath_def probeServerOrder_def
        dnsProbeServers_def awaitTunnelReady_def peerRxBytes_def rounds probe_call_def adopt_brought_def clearUpstreamHold_def clear_upstream_def
        dataPathGateAttempts_def setKeptDeviceDead_def rememberTransport_def refreshReachBaseline_def setCurrentProfile_def setSessionOpts_def
        resetEndpointRouteRepairs_def resetDNSProbe_def setTransportsExhausted_def)
qed


lemma sessions_well_formed_witness:
  "\<forall>enc. well_formed (run_ops refusing_world enc [OpHealth [], OpSwitch ''p1'' sample_opts, OpDisconnect False] dropped_svc)"
proof
  have "known_kind ''cloak''" by (simp add: known_kind_def managerForKind_def)
  then have "well_formed dropped_svc" by (simp add: well_formed_def backed_def dropped_fields)
  then show "well_formed (run_ops refusing_world enc [OpHealth [], OpSwitch ''p1'' sample_opts, OpDisconnect False] dropped_svc)" for enc
    by (rule sessions_well_formed)
qed

end
