(* ===== verification/Session_Rounds.thy ===== *)
theory Session_Rounds
  imports Session_Gate
begin

text \<open>The polling loops of a bring-up end by the clock: each is a loop until a deadline in the code and takes a number of
  rounds here, and more rounds than it is given change nothing.  The clock never runs backwards and every round pauses.\<close>

definition clocked :: "int \<Rightarrow> 'a sess \<Rightarrow> bool" where
  "clocked d m \<longleftrightarrow> (\<forall>s. sv_now s + d \<le> sv_now (snd (run_state m s)))"

named_theorems clock "programs and the clock"

lemma clocked_bind [clock]: "clocked 0 m \<Longrightarrow> (\<And>x. clocked 0 (f x)) \<Longrightarrow> clocked 0 (State_Monad.bind m f)"
  unfolding clocked_def by (simp add: State_Monad.bind_def split: prod.split) (metis order.trans snd_conv)

lemma clocked_basic [clock]:
  "clocked 0 (ret x)" "clocked 0 (gets f)" "clocked 0 (call W g ev)" "clocked 0 (ctx_err W)" "clocked 0 (wg_status_of W w)"
  "clocked 0 (tr_running W kind)" "clocked 0 (ks_update W t)"
  by (auto simp: clocked_def gets_def call_def State_Monad.return_def Let_def ctx_err_def wg_status_of_def tr_running_def ks_update_def)

lemma clocked_shapes [clock]:
  "clocked 0 m \<Longrightarrow> clocked 0 k \<Longrightarrow> clocked 0 (if b then m else k)"
  "clocked 0 m \<Longrightarrow> (\<And>y. clocked 0 (f y)) \<Longrightarrow> clocked 0 (case x of None \<Rightarrow> m | Some y \<Rightarrow> f y)"
  by (auto split: option.split)

lemma clocked_permit [clock]: "clocked 0 (permit_tunnel W w)"
  unfolding permit_tunnel_def resolveTunnelRef_def resolveWireGuardInterfaceName_def resolveTunnelLUID_def Let_def by (intro clock)

lemma run_bind: "run_state (State_Monad.bind m f) s = run_state (f (fst (run_state m s))) (snd (run_state m s))"
  by (simp add: State_Monad.bind_def split: prod.split)

text \<open>Two programs run alike from a state.\<close>

definition same :: "svc \<Rightarrow> 'a sess \<Rightarrow> 'a sess \<Rightarrow> bool" where
  "same s m k \<longleftrightarrow> run_state m s = run_state k s"

lemma same_refl: "same s m m"
  by (simp add: same_def)

lemma same_shapes:
  "(\<And>x t. run_state m s = (x, t) \<Longrightarrow> same t (f x) (g x)) \<Longrightarrow> same s (State_Monad.bind m f) (State_Monad.bind m g)"
  "(b \<Longrightarrow> same s m m') \<Longrightarrow> (\<not> b \<Longrightarrow> same s k k') \<Longrightarrow> same s (if b then m else k) (if b then m' else k')"
  "(o' = None \<Longrightarrow> same s m m') \<Longrightarrow> (\<And>y. o' = Some y \<Longrightarrow> same s (p y) (q y)) \<Longrightarrow>
     same s (case o' of None \<Rightarrow> m | Some y \<Rightarrow> p y) (case o' of None \<Rightarrow> m' | Some y \<Rightarrow> q y)"
  "(\<And>y. r = Inl y \<Longrightarrow> same s (u y) (u' y)) \<Longrightarrow> (\<And>y. r = Inr y \<Longrightarrow> same s (v y) (v' y)) \<Longrightarrow>
     same s (case r of Inl y \<Rightarrow> u y | Inr y \<Rightarrow> v y) (case r of Inl y \<Rightarrow> u' y | Inr y \<Rightarrow> v' y)"
  by (cases "run_state m s"; simp add: same_def run_bind del: run_state_bind) (auto simp: same_def split: option.split sum.split)

lemma clock_run: "clocked 0 m \<Longrightarrow> run_state m s = (x, t) \<Longrightarrow> sv_now s \<le> sv_now t"
  unfolding clocked_def by (metis add.right_neutral snd_conv)

lemma now_run: "run_state (now W) s = (x, t) \<Longrightarrow> sv_now s \<le> x \<and> sv_now t = x"
  by (auto simp: now_def call_def gets_def Let_def)

lemma pause_run: "run_state (ctx_pause W d) s = (None, t) \<Longrightarrow> sv_now s + d \<le> sv_now t"
  by (auto simp: ctx_pause_def ctx_err_def call_def pause_def modify_def Let_def split: option.splits)

section \<open>The handshake\<close>

lemma polls_step:
  assumes job: "clocked 0 job"
    and tail: "\<And>t v at d. sv_now s \<le> t \<Longrightarrow> t \<le> deadline \<Longrightarrow> t + wireGuardHandshakePollInterval \<le> sv_now v \<Longrightarrow>
        same v (handshake_polls W w m timeout deadline job n at d) (handshake_polls W w m timeout deadline job n' at d)"
  shows "same s (handshake_polls W w m timeout deadline job (Suc n) at d) (handshake_polls W w m timeout deadline job (Suc n') at d)"
proof -
  have beside: "clocked 0 (run_beside job at d)"
    unfolding run_beside_def by (intro clock job)
  show ?thesis unfolding handshake_polls.simps
  proof (intro same_shapes same_refl)
    fix d' u st v x t v' c z
    assume "run_state (run_beside job at d) s = (d', u)" "run_state (wg_status_of W w) u = (st, v)" "run_state (now W) v = (t, v')"
      "\<not> deadline < t" "run_state (ctx_pause W wireGuardHandshakePollInterval) v' = (c, z)" "c = None"
    moreover from calculation have "sv_now s \<le> sv_now v"
      using clock_run [OF beside] clock_run [OF clocked_basic(5)] by fastforce
    ultimately show "same z (handshake_polls W w m timeout deadline job n (at - 1) d') (handshake_polls W w m timeout deadline job n' (at - 1) d')"
      using now_run pause_run by (intro tail [of t]) fastforce+
  qed
qed

lemma polls_enough:
  assumes "clocked 0 job" and "deadline < sv_now s + wireGuardHandshakePollInterval * int k"
  shows "same s (handshake_polls W w m timeout deadline job (Suc k + j) at d) (handshake_polls W w m timeout deadline job (Suc k) at d)"
  using assms(2)
proof (induction k arbitrary: at d s)
  case 0
  then show ?case using polls_step [OF assms(1)] by simp
next
  case (Suc k)
  show ?case unfolding add_Suc [of "Suc k"]
    by (rule polls_step [OF assms(1)], rule Suc.IH) (use Suc.prems in \<open>simp add: algebra_simps\<close>)
qed

section \<open>The other loops\<close>

lemma stable_step:
  assumes tail: "\<And>t v. sv_now s + 50 \<le> t \<Longrightarrow> t \<le> deadline \<Longrightarrow> t \<le> sv_now v \<Longrightarrow>
        same v (stable_polls W kind deadline n) (stable_polls W kind deadline n')"
  shows "same s (stable_polls W kind deadline (Suc n)) (stable_polls W kind deadline (Suc n'))"
  unfolding stable_polls.simps
proof (intro same_shapes same_refl)
  fix c u r v t v'
  assume "run_state (ctx_pause W 50) s = (c, u)" "c = None" "run_state (tr_running W kind) u = (r, v)" "run_state (now W) v = (t, v')" "\<not> deadline < t"
  then show "same v' (stable_polls W kind deadline n) (stable_polls W kind deadline n')"
    using now_run pause_run clock_run [OF clocked_basic(6)] by (intro tail [of t]) fastforce+
qed

lemma stable_enough:
  assumes "deadline < sv_now s + 50 * int (Suc k)"
  shows "same s (stable_polls W kind deadline (Suc k + j)) (stable_polls W kind deadline (Suc k))"
  using assms
proof (induction k arbitrary: s)
  case 0
  then show ?case using stable_step by simp
next
  case (Suc k)
  show ?case unfolding add_Suc [of "Suc k"]
    by (rule stable_step, rule Suc.IH) (use Suc.prems in \<open>simp add: algebra_simps\<close>)
qed

lemma ready_step:
  assumes tail: "\<And>t v. sv_now s \<le> t \<Longrightarrow> t < deadline \<Longrightarrow> t + dataPathGateRetryDelay \<le> sv_now v \<Longrightarrow>
        same v (ready_polls W f w deadline n) (ready_polls W f w deadline n')"
  shows "same s (ready_polls W f w deadline (Suc n)) (ready_polls W f w deadline (Suc n'))"
  unfolding ready_polls.simps
proof (intro same_shapes same_refl)
  fix r u t v c z
  assume "run_state (call W (\<lambda>n. f n w) (\<lambda>_. WgOther)) s = (r, u)" "run_state (now W) u = (t, v)" "\<not> deadline \<le> t"
    "run_state (ctx_pause W dataPathGateRetryDelay) v = (c, z)" "c = None"
  then show "same z (ready_polls W f w deadline n) (ready_polls W f w deadline n')"
    using now_run pause_run clock_run [OF clocked_basic(3)] by (intro tail [of t]) fastforce+
qed

lemma ready_enough:
  assumes "deadline \<le> sv_now s + dataPathGateRetryDelay * int k"
  shows "same s (ready_polls W f w deadline (Suc k + j)) (ready_polls W f w deadline (Suc k))"
  using assms
proof (induction k arbitrary: s)
  case 0
  then show ?case using ready_step by simp
next
  case (Suc k)
  show ?case unfolding add_Suc [of "Suc k"]
    by (rule ready_step, rule Suc.IH) (use Suc.prems in \<open>simp add: algebra_simps\<close>)
qed

text \<open>A gate round that waits first sees the clock advance by the delay; two rounds end in a verdict, the others wait for the
  deadline.\<close>

definition gate_clock :: "bool \<Rightarrow> svc \<Rightarrow> int" where
  "gate_clock delay s = sv_now s + (if delay then dataPathGateRetryDelay else 0)"

lemma clocked_probe: "clocked 0 (probe_call W iface server)"
  unfolding probe_call_def by (intro clock)

lemma gate_step:
  assumes again: "\<And>v. gate_clock delay s < deadline \<Longrightarrow> gate_clock delay s + dataPathGateRetryDelay \<le> gate_clock True v \<Longrightarrow>
        same v (gate_rounds W servers iface deadline n attempt True lastErr) (gate_rounds W servers iface deadline n' attempt True lastErr)"
    and failed: "\<And>v e. attempt < dataPathGateAttempts \<Longrightarrow> gate_clock delay s + dataPathGateRetryDelay \<le> gate_clock True v \<Longrightarrow>
        same v (gate_rounds W servers iface deadline n (attempt + 1) True e) (gate_rounds W servers iface deadline n' (attempt + 1) True e)"
  shows "same s (gate_rounds W servers iface deadline (Suc n) attempt delay lastErr) (gate_rounds W servers iface deadline (Suc n') attempt delay lastErr)"
  unfolding gate_rounds.simps Let_def
proof (intro same_shapes same_refl)
  fix c u r v e t z
  assume first: "\<not> dataPathGateAttempts \<le> attempt" "run_state (if delay then ctx_pause W dataPathGateRetryDelay else ret None) s = (c, u)" "c = None"
    "run_state (probe_call W iface (servers ! (attempt mod length servers))) u = (r, v)"
  have u: "gate_clock delay s \<le> sv_now u"
    using first pause_run [of W dataPathGateRetryDelay s u] by (auto simp: gate_clock_def State_Monad.return_def split: if_splits)
  then have v: "gate_clock delay s \<le> sv_now v" using clock_run [OF clocked_probe first(4)] by simp
  show "same v (gate_rounds W servers iface deadline n (attempt + 1) True (Some (wrapf (servers ! (attempt mod length servers)) e)))
      (gate_rounds W servers iface deadline n' (attempt + 1) True (Some (wrapf (servers ! (attempt mod length servers)) e)))"
    by (rule failed) (use v first(1) in \<open>simp_all add: gate_clock_def\<close>)
  assume "run_state (now W) v = (t, z)" "\<not> deadline \<le> t"
  then show "same z (gate_rounds W servers iface deadline n attempt True lastErr) (gate_rounds W servers iface deadline n' attempt True lastErr)"
    using now_run [of W v t z] v by (intro again) (simp_all add: gate_clock_def)
qed

lemma gate_enough:
  assumes "deadline \<le> gate_clock delay s + dataPathGateRetryDelay * int n" and "n + (dataPathGateAttempts - attempt) \<le> k"
  shows "same s (gate_rounds W servers iface deadline (Suc k + j) attempt delay lastErr) (gate_rounds W servers iface deadline (Suc k) attempt delay lastErr)"
  using assms
proof (induction k arbitrary: n attempt delay lastErr s)
  case 0
  show ?case unfolding add_Suc
    by (rule gate_step) (use 0 in simp_all)
next
  case (Suc k)
  show ?case unfolding add_Suc [of "Suc k"]
  proof (rule gate_step)
    fix v assume "gate_clock delay s < deadline" "gate_clock delay s + dataPathGateRetryDelay \<le> gate_clock True v"
    moreover from this Suc.prems have "0 < n" by (cases n) simp_all
    ultimately show "same v (gate_rounds W servers iface deadline (Suc k + j) attempt True lastErr) (gate_rounds W servers iface deadline (Suc k) attempt True lastErr)"
      using Suc.prems by (intro Suc.IH [of _ _ "n - 1"]) (cases n; simp add: algebra_simps)+
  next
    fix v e assume "attempt < dataPathGateAttempts" "gate_clock delay s + dataPathGateRetryDelay \<le> gate_clock True v"
    then show "same v (gate_rounds W servers iface deadline (Suc k + j) (attempt + 1) True e) (gate_rounds W servers iface deadline (Suc k) (attempt + 1) True e)"
      using Suc.prems by (intro Suc.IH [of _ _ n]) (simp_all add: dataPathGateRetryDelay_def)
  qed
qed

section \<open>Enough rounds\<close>

lemma rounds_cover: "0 < d \<Longrightarrow> x < d * int (nat (x div d) + 1)" for x d :: int
proof -
  assume d: "0 < d"
  have "x = d * (x div d) + x mod d" "x mod d < d" using d by simp_all
  then have "x < d * (x div d + 1)" unfolding distrib_left by linarith
  also have "\<dots> \<le> d * int (nat (x div d) + 1)" using d by (intro mult_left_mono) auto
  finally show ?thesis .
qed

text \<open>C35: no wait of a bring-up ends for lack of rounds: the handshake wait, the wait for a stable transport, the wait for the
  tunnel's adapter and the traffic gate answer the same with any number of rounds more than the model gives them, so
  each ends as the code's loop does, by an answer, a cancelled context or its deadline.\<close>

theorem waits_end_by_the_clock:
  "run_state (handshake_polls W w m timeout (sv_now s + timeout) (permit_tunnel W w) (nat (timeout div wireGuardHandshakePollInterval) + 2 + j) at d) s =
   run_state (handshake_polls W w m timeout (sv_now s + timeout) (permit_tunnel W w) (nat (timeout div wireGuardHandshakePollInterval) + 2) at d) s
   \<and> run_state (stable_polls W kind (sv_now s + duration) (nat (duration div 50) + 2 + j)) s =
     run_state (stable_polls W kind (sv_now s + duration) (nat (duration div 50) + 2)) s
   \<and> run_state (ready_polls W f w (sv_now s + budget) (nat (budget div dataPathGateRetryDelay) + 4 + j)) s =
     run_state (ready_polls W f w (sv_now s + budget) (nat (budget div dataPathGateRetryDelay) + 4)) s
   \<and> run_state (gate_rounds W servers iface (sv_now s + budget - int lag) (nat (budget div dataPathGateRetryDelay) + 4 + j) 0 False None) s =
     run_state (gate_rounds W servers iface (sv_now s + budget - int lag) (nat (budget div dataPathGateRetryDelay) + 4) 0 False None) s"
proof (intro conjI)
  have "timeout < wireGuardHandshakePollInterval * int (nat (timeout div wireGuardHandshakePollInterval) + 1)"
    by (rule rounds_cover) (simp add: wireGuardHandshakePollInterval_def)
  then show "run_state (handshake_polls W w m timeout (sv_now s + timeout) (permit_tunnel W w) (nat (timeout div wireGuardHandshakePollInterval) + 2 + j) at d) s =
      run_state (handshake_polls W w m timeout (sv_now s + timeout) (permit_tunnel W w) (nat (timeout div wireGuardHandshakePollInterval) + 2) at d) s"
    using polls_enough [OF clocked_permit, of "sv_now s + timeout" s "nat (timeout div wireGuardHandshakePollInterval) + 1" W w m timeout]
    by (simp add: same_def del: handshake_polls.simps)
  have "duration < 50 * int (Suc (nat (duration div 50) + 1))" using rounds_cover [of 50 duration] by simp
  then show "run_state (stable_polls W kind (sv_now s + duration) (nat (duration div 50) + 2 + j)) s =
      run_state (stable_polls W kind (sv_now s + duration) (nat (duration div 50) + 2)) s"
    using stable_enough [of "sv_now s + duration" s "nat (duration div 50) + 1" W kind] by (simp add: same_def del: stable_polls.simps)
  have cover: "budget < dataPathGateRetryDelay * int (nat (budget div dataPathGateRetryDelay) + 1)"
    by (rule rounds_cover) (simp add: dataPathGateRetryDelay_def)
  then have "sv_now s + budget \<le> sv_now s + dataPathGateRetryDelay * int (nat (budget div dataPathGateRetryDelay) + 3)"
    by (simp add: dataPathGateRetryDelay_def)
  from ready_enough [OF this] show "run_state (ready_polls W f w (sv_now s + budget) (nat (budget div dataPathGateRetryDelay) + 4 + j)) s =
      run_state (ready_polls W f w (sv_now s + budget) (nat (budget div dataPathGateRetryDelay) + 4)) s"
    by (simp add: same_def numeral_eq_Suc del: ready_polls.simps)
  show "run_state (gate_rounds W servers iface (sv_now s + budget - int lag) (nat (budget div dataPathGateRetryDelay) + 4 + j) 0 False None) s =
      run_state (gate_rounds W servers iface (sv_now s + budget - int lag) (nat (budget div dataPathGateRetryDelay) + 4) 0 False None) s"
    using gate_enough [of "sv_now s + budget - int lag" False s "nat (budget div dataPathGateRetryDelay) + 1" 0
        "nat (budget div dataPathGateRetryDelay) + 3" W servers iface j None] cover
    by (simp add: same_def gate_clock_def dataPathGateAttempts_def numeral_eq_Suc del: gate_rounds.simps)
qed

end
