(* ===== verification/Lock_Permits.thy ===== *)
theory Lock_Permits
  imports Session_Hosts
begin

text \<open>The part of the kill switch every system shares: platform/killswitch.go (the ranges Allow LAN opens, the
  persisted state, resolving the endpoint names an armed lock lets through) and platform/killswitch_split.go (the
  split-tunnel permits, their checks, the flows to cut when a permit goes, and the readers of the directory output
  macOS gives about the egress group).  The resolver is an argument: what the \<open>i\<close>-th lookup of a call gave.  Warnings
  to the log are left out.\<close>

section \<open>State\<close>

definition LANAllowPrefixes :: "string list" where
  "LANAllowPrefixes = [''10.0.0.0/8'', ''172.16.0.0/12'', ''192.168.0.0/16'', ''169.254.0.0/16'', ''224.0.0.0/4'',
     ''255.255.255.255/32'', ''100.64.0.0/10'']"

definition LANAllowPrefixesV6 :: "string list" where
  "LANAllowPrefixesV6 = [''fe80::/10'', ''ff02::/16'', ''fc00::/7'']"

record KillSwitchState =
  ks_Active :: bool
  ks_AllowLAN :: bool
  ks_EndpointIPs :: "string list"
  ks_TunnelInterface :: string
  ks_Locked :: bool

definition zero_lock_state :: KillSwitchState where
  "zero_lock_state = \<lparr>ks_Active = False, ks_AllowLAN = False, ks_EndpointIPs = [], ks_TunnelInterface = [], ks_Locked = False\<rparr>"

record splitPermits =
  sp_Egress :: bool
  sp_CIDRs :: "string list"

definition no_permits :: splitPermits where
  "no_permits = \<lparr>sp_Egress = False, sp_CIDRs = []\<rparr>"

record ksRules =
  r_EndpointIPs :: "string list"
  r_Tunnel :: string
  r_AllowLAN :: bool
  r_Split :: splitPermits

definition permits_empty :: "splitPermits \<Rightarrow> bool" where
  "permits_empty s \<longleftrightarrow> \<not> sp_Egress s \<and> sp_CIDRs s = []"

definition permits_equal :: "splitPermits \<Rightarrow> splitPermits \<Rightarrow> bool" where
  "permits_equal s t \<longleftrightarrow> sp_Egress s = sp_Egress t \<and> sp_CIDRs s = sp_CIDRs t"

definition narrowedSplit :: "splitPermits \<Rightarrow> splitPermits \<Rightarrow> splitPermits" where
  "narrowedSplit applied next =
     \<lparr>sp_Egress = (sp_Egress applied \<and> sp_Egress next), sp_CIDRs = filter (\<lambda>c. c \<in> set (sp_CIDRs applied)) (sp_CIDRs next)\<rparr>"

text \<open>IsLANAllowAddress: an IPv4-mapped address counts as the IPv4 one.\<close>

definition in_prefix_text :: "addr \<Rightarrow> string \<Rightarrow> bool" where
  "in_prefix_text a cidr = (case ParsePrefix cidr of None \<Rightarrow> False | Some p \<Rightarrow> pcontains (masked p) a)"

definition IsLANAllowAddress :: "addr \<Rightarrow> bool" where
  "IsLANAllowAddress ip = (let a = unmap_addr ip in
     list_ex (in_prefix_text a) (if is4 a then LANAllowPrefixes else LANAllowPrefixesV6))"

section \<open>Ranges of the split tunnel\<close>

definition ks_minSplitCIDRBits :: nat where "ks_minSplitCIDRBits = 8"

definition ks_parseSplitCIDR :: "string \<Rightarrow> prefix option" where
  "ks_parseSplitCIDR cidr = (case ParsePrefix cidr of None \<Rightarrow> None
     | Some p \<Rightarrow> if \<not> is4 (paddr p) then None
                 else if masked p \<noteq> p then None
                 else if pbits p < ks_minSplitCIDRBits then None else Some p)"

definition normalizeSplitCIDRs :: "string list \<Rightarrow> string list option" where
  "normalizeSplitCIDRs cidrs = map_option (\<lambda>ps. remdups_adj (sort (map prefix_str ps)))
     (map_opt (\<lambda>cidr. ks_parseSplitCIDR (trim_space cidr)) cidrs)"

definition validSplitCIDR :: "string \<Rightarrow> bool" where
  "validSplitCIDR cidr = (case ks_parseSplitCIDR cidr of None \<Rightarrow> False | Some p \<Rightarrow> prefix_str p = cidr)"

definition renderableSplitCIDRs :: "string list \<Rightarrow> string list" where
  "renderableSplitCIDRs cidrs = filter validSplitCIDR cidrs"

text \<open>netip.MustParsePrefix, asked only about texts that parse.\<close>

definition must_prefix :: "string \<Rightarrow> prefix" where
  "must_prefix s = (case ParsePrefix s of Some p \<Rightarrow> p | None \<Rightarrow> Prefix (V4 0) 33)"

definition permitted_prefixes :: "ksRules \<Rightarrow> prefix list" where
  "permitted_prefixes r =
     map must_prefix (renderableSplitCIDRs (sp_CIDRs (r_Split r)))
     @ (if r_AllowLAN r then map must_prefix LANAllowPrefixes else [])
     @ List.map_filter (\<lambda>ip. case ParseAddr ip of Some a \<Rightarrow> if is4 a then Some (Prefix a 32) else None | None \<Rightarrow> None) (r_EndpointIPs r)"

definition splitRangesToKill :: "string list \<Rightarrow> ksRules \<Rightarrow> string list" where
  "splitRangesToKill prev r = concat (map (\<lambda>cidr. if validSplitCIDR cidr
       then map prefix_str (subtractPrefixes (must_prefix cidr) (permitted_prefixes r)) else []) prev)"

section \<open>The egress group of macOS\<close>

definition SplitEgressGroupName :: string where "SplitEgressGroupName = ''_pangeasplit''"

definition minSplitEgressGID :: int where "minSplitEgressGID = 100"

datatype gid_error = BadGID | SharedGroup

definition splitEgressGIDFromString :: "string \<Rightarrow> (gid_error, int) result" where
  "splitEgressGIDFromString s = (case parse_dec (trim_space s) of
       None \<Rightarrow> Inl BadGID
     | Some gid \<Rightarrow> if 2 ^ 31 \<le> gid then Inl BadGID
                   else if gid < minSplitEgressGID then Inl SharedGroup else Inr gid)"

definition text_lines :: "string \<Rightarrow> string list" where
  "text_lines out = split_on CHR 0x0A out"

fun group_members :: "string list \<Rightarrow> bool" where
  "group_members [] = False"
| "group_members (line # rest) = (case cut CHR '':'' line of
      None \<Rightarrow> group_members rest
    | Some (key, value) \<Rightarrow>
        if key \<noteq> ''GroupMembership'' \<and> key \<noteq> ''GroupMembers'' then group_members rest
        else if trim_space value \<noteq> [] then True
        else if rest \<noteq> [] \<and> has_prefix (hd rest) '' '' \<and> trim_space (hd rest) \<noteq> [] then True
        else group_members rest)"

definition dsclGroupHasMembers :: "string \<Rightarrow> bool" where
  "dsclGroupHasMembers out = group_members (text_lines out)"

text \<open>strings.Cut at a text: what stands before its first occurrence.\<close>

fun before_text :: "string \<Rightarrow> string \<Rightarrow> string option" where
  "before_text sub [] = (if sub = [] then Some [] else None)"
| "before_text sub (c # cs) = (if has_prefix (c # cs) sub then Some [] else map_option ((#) c) (before_text sub cs))"

definition dsclSearchRecords :: "string \<Rightarrow> string list" where
  "dsclSearchRecords out = List.map_filter (\<lambda>line. case before_text ''PrimaryGroupID'' line of
       None \<Rightarrow> None
     | Some name \<Rightarrow> if hd line \<noteq> CHR '' '' \<and> hd line \<noteq> CHR 0x09 \<and> trim_space name \<noteq> [] then Some (trim_space name) else None)
     (text_lines out)"

datatype directory_error = GidHasUsers nat | GidHeldElsewhere

definition splitEgressDirectoryCheck :: "string \<Rightarrow> string \<Rightarrow> directory_error option" where
  "splitEgressDirectoryCheck usersOut groupsOut =
     (let users = dsclSearchRecords usersOut in
      if 0 < length users then Some (GidHasUsers (length users))
      else let groups = dsclSearchRecords groupsOut in
        if 1 < length groups \<or> (length groups = 1 \<and> groups ! 0 \<noteq> SplitEgressGroupName) then Some GidHeldElsewhere else None)"

text \<open>strings.Fields.\<close>

function text_fields :: "string \<Rightarrow> string list" where
  "text_fields s = (let t = dropWhile is_space s in
     if t = [] then [] else takeWhile (\<lambda>c. \<not> is_space c) t # text_fields (dropWhile (\<lambda>c. \<not> is_space c) t))"
  by pat_completeness auto
termination
proof (relation "measure length", goal_cases)
  case (2 s x)
  then obtain c cs where t: "dropWhile is_space s = c # cs" by (cases "dropWhile is_space s") auto
  then have "\<not> is_space c" by (metis hd_dropWhile list.distinct(1) list.sel(1))
  then have "length (dropWhile (\<lambda>c. \<not> is_space c) (c # cs)) < length (c # cs)"
    by (simp add: le_imp_less_Suc length_dropWhile_le)
  also have "\<dots> \<le> length s" using t length_dropWhile_le [of is_space s] by simp
  finally show ?case using 2 t by simp
qed simp

declare text_fields.simps [simp del]

definition dsclPrimaryGIDUsers :: "string \<Rightarrow> int \<Rightarrow> string list" where
  "dsclPrimaryGIDUsers out gid = List.map_filter (\<lambda>line. let fs = text_fields line in
     if length fs = 2 \<and> fs ! 1 = itoa gid then Some (fs ! 0) else None) (text_lines out)"

section \<open>Endpoint names\<close>

definition canonicalIPString :: "addr \<Rightarrow> string" where
  "canonicalIPString ip = addr_str (unmap_addr ip)"

datatype resolve_error = EmptyEndpoint | LookupError | NoAddresses

definition resolveEndpointIPs :: "(string \<Rightarrow> addr list option) \<Rightarrow> string \<Rightarrow> (resolve_error, string list) result" where
  "resolveEndpointIPs lookup host0 = (let host = trim_space host0 in
     if host = [] then Inl EmptyEndpoint
     else case ParseAddr host of Some ip \<Rightarrow> Inr [canonicalIPString ip]
     | None \<Rightarrow> (case lookup host of None \<Rightarrow> Inl LookupError
        | Some ips \<Rightarrow> if ips = [] then Inl NoAddresses
                      else Inr (sort (dedup (map canonicalIPString ips)))))"

text \<open>The addresses met so far, each once, in the order met.\<close>

definition add_seen :: "string list \<Rightarrow> string list \<Rightarrow> string list" where
  "add_seen out ips = foldl (\<lambda>met ip. if ip \<in> set met then met else met @ [ip]) out ips"

fun resolve_hosts :: "(nat \<Rightarrow> string \<Rightarrow> addr list option) \<Rightarrow> nat \<Rightarrow> string list \<Rightarrow> string list \<times> bool \<Rightarrow> string list \<times> bool" where
  "resolve_hosts lookup i [] (out, failed) = (out, failed)"
| "resolve_hosts lookup i (host # hosts) (out, failed) = (case resolveEndpointIPs (lookup i) host of
      Inl _ \<Rightarrow> resolve_hosts lookup (Suc i) hosts (out, True)
    | Inr ips \<Rightarrow> resolve_hosts lookup (Suc i) hosts (add_seen out ips, failed))"

definition resolveEndpointHosts :: "(nat \<Rightarrow> string \<Rightarrow> addr list option) \<Rightarrow> KillSwitchState \<Rightarrow> string list \<Rightarrow> string list option" where
  "resolveEndpointHosts lookup prev hosts =
     (if hosts = [] then Some []
      else let (out, failed) = resolve_hosts lookup 0 hosts ([], False) in
        if \<not> failed then Some (sort out)
        else if out = [] then (if ks_EndpointIPs prev = [] then None else Some (ks_EndpointIPs prev))
        else Some (sort (add_seen out (ks_EndpointIPs prev))))"

section \<open>Facts about ranges\<close>

lemma ks_parse_range: "ks_parseSplitCIDR s = Some p \<Longrightarrow> ParsePrefix s = Some p \<and> split_range p"
  using ParsePrefix_valid [of s p] host_clear_masked [of p]
  by (auto simp: ks_parseSplitCIDR_def split_range_def ks_minSplitCIDRBits_def minSplitCIDRBits_def split: option.splits if_splits)

lemma ks_parse_str: "split_range p \<Longrightarrow> ks_parseSplitCIDR (prefix_str p) = Some p"
  using ParsePrefix_str4 [of p] masked_id [of p]
  by (auto simp: ks_parseSplitCIDR_def split_range_def ks_minSplitCIDRBits_def minSplitCIDRBits_def)

lemma validSplitCIDR_iff: "validSplitCIDR s \<longleftrightarrow> (\<exists>p. split_range p \<and> s = prefix_str p)"
  using ks_parse_range [of s] ks_parse_str by (auto simp: validSplitCIDR_def split: option.splits)

lemma validSplitCIDR_prefix: "validSplitCIDR s \<Longrightarrow> split_range (must_prefix s) \<and> ParsePrefix s = Some (must_prefix s)"
  using ks_parse_range [of s] by (auto simp: validSplitCIDR_def must_prefix_def split: option.splits)

lemma set_renderable [simp]: "set (renderableSplitCIDRs cs) = {c \<in> set cs. validSplitCIDR c}"
  by (auto simp: renderableSplitCIDRs_def)

lemma normalized_renderable:
  assumes "normalizeSplitCIDRs cs = Some out"
  shows "renderableSplitCIDRs out = out"
proof -
  obtain ps where ps: "map_opt (\<lambda>c. ks_parseSplitCIDR (trim_space c)) cs = Some ps"
      and out: "out = remdups_adj (sort (map prefix_str ps))"
    using assms by (auto simp: normalizeSplitCIDRs_def)
  have "\<forall>p \<in> set ps. split_range p" using ps
    by (induction cs arbitrary: ps) (auto dest: ks_parse_range split: option.splits)
  with out show ?thesis by (auto simp: renderableSplitCIDRs_def validSplitCIDR_iff filter_id_conv)
qed

lemma subtractPrefixes_wf:
  assumes "valid_prefix p" and "is4 (paddr p)" and "x \<in> set (subtractPrefixes p qs)"
  shows "valid_prefix x \<and> is4 (paddr x)"
  using assms
proof (induction p qs rule: subtractPrefixes.induct)
  case (1 p qs)
  show ?case
  proof (cases "(\<exists>q \<in> set qs. pbits q \<le> pbits p \<and> pcontains q (paddr p)) \<or>
      \<not> (\<exists>q \<in> set qs. pbits p < pbits q \<and> pcontains p (paddr q) \<and> valid_prefix q)")
    case True
    with 1(3-5) show ?thesis by (subst (asm) subtractPrefixes.simps) (auto split: if_splits)
  next
    case False
    then obtain q where "pbits p < pbits q" "pcontains p (paddr q)" "valid_prefix q" by blast
    then have lt: "pbits p < bit_len (paddr p)" using inside_len [of q p] by simp
    have "subtractPrefixes p qs = subtractPrefixes (half_lo p) qs @ subtractPrefixes (half_hi p) qs"
      by (subst subtractPrefixes.simps) (simp only: False [unfolded de_Morgan_disj not_not] not_True_eq_False if_True if_False half_lo_def half_hi_def)
    with 1(5) have "x \<in> set (subtractPrefixes (half_lo p) qs) \<or> x \<in> set (subtractPrefixes (half_hi p) qs)" by simp
    with False show ?thesis using 1(1,2) valid_half [OF lt] 1(3,4) by (auto simp: half_lo_def half_hi_def)
  qed
qed

lemma LAN_parses: "map ParsePrefix LANAllowPrefixes = map Some (map must_prefix LANAllowPrefixes)"
  by code_simp

lemma LAN_valid: "list_all (\<lambda>p. is4 (paddr p) \<and> valid_prefix p \<and> masked p = p) (map must_prefix LANAllowPrefixes)"
  by code_simp

text \<open>The firewall's ranges are the ones the device configuration carves out.\<close>

lemma LAN_texts: "LANAllowPrefixes = map prefix_str [Prefix (V4 167772160) 8,
    Prefix (V4 2886729728) 12,
    Prefix (V4 3232235520) 16,
    Prefix (V4 2851995648) 16,
    Prefix (V4 3758096384) 4,
    Prefix (V4 4294967295) 32,
    Prefix (V4 1681915904) 10]"
  by code_simp

lemma LAN_prefixes: "set (map must_prefix LANAllowPrefixes) = set lanExcludeRanges"
proof -
  have "must_prefix (prefix_str (Prefix (V4 w) n)) = Prefix (V4 w) n" if "n \<le> 32" for w n
    using that ParsePrefix_str4 [of "Prefix (V4 w) n"] by (simp add: must_prefix_def valid_prefix_def)
  then show ?thesis unfolding LAN_texts lanExcludeRanges_def mk4_def by auto
qed

lemma pcontains_single: "is4 a \<Longrightarrow> pcontains (Prefix a 32) b \<longleftrightarrow> a = b"
proof -
  assume "is4 a"
  then obtain w where "a = V4 w" by (cases a) simp_all
  then show ?thesis using valid_single [of a] by (cases b) (auto simp: pcontains_def word_uint_eq_iff)
qed

definition still_permitted :: "ksRules \<Rightarrow> addr \<Rightarrow> bool" where
  "still_permitted r a \<longleftrightarrow> list_ex (in_prefix_text a) (renderableSplitCIDRs (sp_CIDRs (r_Split r)))
     \<or> (r_AllowLAN r \<and> list_ex (in_prefix_text a) LANAllowPrefixes)
     \<or> list_ex (\<lambda>ip. ParseAddr ip = Some a \<and> is4 a) (r_EndpointIPs r)"

lemma in_must_prefix: "ParsePrefix c = Some (must_prefix c) \<Longrightarrow> in_prefix_text a c \<longleftrightarrow> pcontains (must_prefix c) a"
  by (simp add: in_prefix_text_def)

lemma LAN_must: "c \<in> set LANAllowPrefixes \<Longrightarrow> ParsePrefix c = Some (must_prefix c)"
  using LAN_parses by auto

lemma permitted_iff: "a \<in> addrs_of (permitted_prefixes r) \<longleftrightarrow> still_permitted r a"
proof -
  have "a \<in> addrs_of (permitted_prefixes r) \<longleftrightarrow>
      (\<exists>c \<in> set (renderableSplitCIDRs (sp_CIDRs (r_Split r))). pcontains (must_prefix c) a)
      \<or> (r_AllowLAN r \<and> (\<exists>c \<in> set LANAllowPrefixes. pcontains (must_prefix c) a))
      \<or> (\<exists>ip \<in> set (r_EndpointIPs r). \<exists>b. ParseAddr ip = Some b \<and> is4 b \<and> pcontains (Prefix b 32) a)"
    by (auto simp: permitted_prefixes_def addrs_of_def List.map_filter_def split: option.splits if_splits)
  also have "(\<exists>c \<in> set (renderableSplitCIDRs (sp_CIDRs (r_Split r))). pcontains (must_prefix c) a)
      = list_ex (in_prefix_text a) (renderableSplitCIDRs (sp_CIDRs (r_Split r)))"
    unfolding list_ex_iff by (rule bex_cong) (auto simp: in_must_prefix dest: validSplitCIDR_prefix)
  also have "(\<exists>c \<in> set LANAllowPrefixes. pcontains (must_prefix c) a) = list_ex (in_prefix_text a) LANAllowPrefixes"
    unfolding list_ex_iff by (rule bex_cong) (auto simp: in_must_prefix LAN_must)
  also have "(\<exists>ip \<in> set (r_EndpointIPs r). \<exists>b. ParseAddr ip = Some b \<and> is4 b \<and> pcontains (Prefix b 32) a)
      = list_ex (\<lambda>ip. ParseAddr ip = Some a \<and> is4 a) (r_EndpointIPs r)"
    unfolding list_ex_iff by (rule bex_cong) (auto simp: pcontains_single)
  finally show ?thesis by (simp only: still_permitted_def)
qed

lemma permitted_valid: "q \<in> set (permitted_prefixes r) \<Longrightarrow> valid_prefix q"
  using LAN_valid
  by (auto simp: permitted_prefixes_def List.map_filter_def list_all_iff valid_single split_range_def split: option.splits if_splits
      dest!: validSplitCIDR_prefix)

text \<open>C36: What a change of permits cuts off is exactly what it withdrew: an address lies in one of the ranges whose
  flows are ended if and only if it lay in a previous split range and the new rules permit it in no form, neither
  through another range nor through Allow LAN nor as an endpoint.\<close>

theorem flows_cut_exactly:
  "list_ex (in_prefix_text a) (splitRangesToKill prev r) \<longleftrightarrow>
     list_ex (in_prefix_text a) (filter validSplitCIDR prev) \<and> \<not> still_permitted r a"
proof -
  have each: "list_ex (in_prefix_text a) (map prefix_str (subtractPrefixes (must_prefix c) (permitted_prefixes r)))
      \<longleftrightarrow> in_prefix_text a c \<and> \<not> still_permitted r a" if c: "validSplitCIDR c" for c
  proof -
    have p: "split_range (must_prefix c)" "ParsePrefix c = Some (must_prefix c)"
      using validSplitCIDR_prefix [OF c] by auto
    have "in_prefix_text a (prefix_str q) \<longleftrightarrow> pcontains q a" if "q \<in> set (subtractPrefixes (must_prefix c) (permitted_prefixes r))" for q
      using subtractPrefixes_wf [OF _ _ that] p(1) ParsePrefix_str4 [of q] by (simp add: in_prefix_text_def split_range_def)
    then have "list_ex (in_prefix_text a) (map prefix_str (subtractPrefixes (must_prefix c) (permitted_prefixes r)))
        \<longleftrightarrow> a \<in> addrs_of (subtractPrefixes (must_prefix c) (permitted_prefixes r))"
      by (auto simp: list_ex_iff addrs_of_def)
    also have "\<dots> \<longleftrightarrow> a \<in> addrs (must_prefix c) - addrs_of (permitted_prefixes r)"
      using p(1) permitted_valid by (subst addrs_subtractPrefixes) (auto simp: split_range_def)
    finally show ?thesis using p(2) by (simp add: permitted_iff in_must_prefix)
  qed
  show ?thesis
    unfolding splitRangesToKill_def by (induction prev) (auto simp: each list_ex_append)
qed

end
