(* ===== verification/Lock_Nft.thy ===== *)
theory Lock_Nft
  imports Lock_Permits
begin

text \<open>platform/killswitch_nft.go: the nftables table the Linux kill switch loads, as the list of its rules and the
  text they are written as, and what the table decides of a packet.  How a rule matches is nftables' documented
  behaviour: the first rule that matches decides, the chain's policy is drop, \<open>ip daddr\<close> looks at IPv4 packets only.
  The policy of the lock is stated once, over packets, for every backend to be compared with.\<close>

section \<open>Packets\<close>

datatype l4 = UDP | TCP | OtherL4

record lock_packet =
  lp_out :: string
  lp_in :: string
  lp_dst :: addr
  lp_src :: addr
  lp_l4 :: l4
  lp_sport :: nat
  lp_dport :: nat
  lp_mark :: nat
  lp_to_bridge :: bool
  lp_bridged :: bool
  lp_reply :: bool

text \<open>An address written in a rule: one address or a range.\<close>

definition addr_text_match :: "string \<Rightarrow> addr \<Rightarrow> bool" where
  "addr_text_match s a = (if CHR ''/'' \<in> set s then in_prefix_text a s else ParseAddr s = Some a)"

definition mark_value :: "string \<Rightarrow> nat" where
  "mark_value s = foldl (\<lambda>n c. 16 * n + nat (case hex_val c of Some d \<Rightarrow> d | None \<Rightarrow> 0)) 0 (drop 2 s)"

definition splitEgressMark :: string where "splitEgressMark = ''0x1ca6c''"

section \<open>Rules and their text\<close>

datatype nft_expr = OifName string | IifName string | Nfproto4 | UdpSport nat | UdpDport nat | IpDaddr string | IpSaddr string
  | MetaMark string | Dports l4 "nat list" | OifKind string | CtReply

datatype nft_verdict = NftAccept | NftDrop

type_synonym nft_rule = "nft_expr list \<times> nft_verdict"

fun l4_text :: "l4 \<Rightarrow> string" where
  "l4_text UDP = ''udp''"
| "l4_text TCP = ''tcp''"
| "l4_text OtherL4 = ''all''"

definition dq :: string where "dq = [CHR 0x22]"

fun nft_expr_text :: "nft_expr \<Rightarrow> string" where
  "nft_expr_text (OifName n) = ''oifname '' @ dq @ n @ dq"
| "nft_expr_text (IifName n) = ''iifname '' @ dq @ n @ dq"
| "nft_expr_text Nfproto4 = ''meta nfproto ipv4''"
| "nft_expr_text (UdpSport n) = ''udp sport '' @ itoa_nat n"
| "nft_expr_text (UdpDport n) = ''udp dport '' @ itoa_nat n"
| "nft_expr_text (IpDaddr s) = ''ip daddr '' @ s"
| "nft_expr_text (IpSaddr s) = ''ip saddr '' @ s"
| "nft_expr_text (MetaMark s) = ''meta mark '' @ s"
| "nft_expr_text (Dports l ps) = l4_text l @ '' dport { '' @ join '', '' (map itoa_nat ps) @ '' }''"
| "nft_expr_text (OifKind s) = ''meta oifkind '' @ dq @ s @ dq"
| "nft_expr_text CtReply = ''ct direction reply''"

definition nft_line :: "nft_rule \<Rightarrow> string" where
  "nft_line rule = ''    '' @ join '' '' (map nft_expr_text (fst rule)) @
     (case snd rule of NftAccept \<Rightarrow> '' accept'' | NftDrop \<Rightarrow> '' drop'') @ [CHR 0x0A]"

section \<open>The table\<close>

definition nftTableName :: string where "nftTableName = ''pangeavpn_killswitch''"
definition nftFamily :: string where "nftFamily = ''inet''"

definition nft_resolver_drops :: "nft_rule list" where
  "nft_resolver_drops = [([Dports UDP [53, 853]], NftDrop), ([Dports TCP [53, 853]], NftDrop)]"

definition nft_output_rules :: "ksRules \<Rightarrow> nft_rule list" where
  "nft_output_rules r = (let cidrs = renderableSplitCIDRs (sp_CIDRs (r_Split r)) in
     [([OifName ''lo''], NftAccept)]
     @ [([Nfproto4, UdpSport 68, UdpDport 67, IpDaddr ''255.255.255.255''], NftAccept)]
     @ map (\<lambda>ip. ([IpDaddr ip], NftAccept)) (filter (\<lambda>ip. CHR '':'' \<notin> set ip) (r_EndpointIPs r))
     @ (if r_Tunnel r \<noteq> [] then [([Nfproto4, OifName (r_Tunnel r)], NftAccept)] else [])
     @ (if r_AllowLAN r \<or> 0 < length cidrs \<or> sp_Egress (r_Split r) then nft_resolver_drops else [])
     @ (if sp_Egress (r_Split r) then [([Nfproto4, MetaMark splitEgressMark], NftAccept)] else [])
     @ (if r_AllowLAN r then map (\<lambda>cidr. ([IpDaddr cidr], NftAccept)) LANAllowPrefixes else [])
     @ map (\<lambda>cidr. ([IpDaddr cidr], NftAccept)) cidrs)"

definition nft_forward_rules :: "string \<Rightarrow> bool \<Rightarrow> string list \<Rightarrow> nft_rule list" where
  "nft_forward_rules tunnel allowLAN cidrs =
     [([OifKind ''bridge''], NftAccept)]
     @ (if tunnel \<noteq> [] then [([Nfproto4, OifName tunnel], NftAccept), ([Nfproto4, IifName tunnel], NftAccept)] else [])
     @ (if allowLAN \<or> 0 < length cidrs then nft_resolver_drops else [])
     @ (if allowLAN then map (\<lambda>cidr. ([IpDaddr cidr], NftAccept)) LANAllowPrefixes else [])
     @ concat (map (\<lambda>cidr. [([IpDaddr cidr], NftAccept), ([IpSaddr cidr, CtReply], NftAccept)]) cidrs)"

definition nl :: string where "nl = [CHR 0x0A]"

definition nft_chain :: "string \<Rightarrow> nft_rule list \<Rightarrow> string" where
  "nft_chain hook rules = ''  chain '' @ hook @ '' {'' @ nl @ ''    type filter hook '' @ hook @ '' priority 0; policy drop;'' @ nl @ nl
     @ concat (map nft_line rules) @ ''  }'' @ nl"

definition buildNFTRuleset :: "ksRules \<Rightarrow> string" where
  "buildNFTRuleset r = ''table '' @ nftFamily @ '' '' @ nftTableName @ '' {'' @ nl
     @ nft_chain ''output'' (nft_output_rules r)
     @ nft_chain ''forward'' (nft_forward_rules (r_Tunnel r) (r_AllowLAN r) (renderableSplitCIDRs (sp_CIDRs (r_Split r))))
     @ ''}'' @ nl"

text \<open>The script of applyNFTRules: the old table, if any, goes and the new one comes in one transaction.\<close>

definition name_char :: "char \<Rightarrow> bool" where
  "name_char c \<longleftrightarrow> is_digit c \<or> (let n = (of_char c :: nat) in (65 \<le> n \<and> n \<le> 90) \<or> (97 \<le> n \<and> n \<le> 122)) \<or> c \<in> {CHR ''_'', CHR ''.'', CHR ''-''}"

definition validTunnelInterfaceName :: "string \<Rightarrow> bool" where
  "validTunnelInterfaceName s \<longleftrightarrow> s \<noteq> [] \<and> list_all name_char s"

definition nft_script :: "ksRules \<Rightarrow> string" where
  "nft_script r = ''add table '' @ nftFamily @ '' '' @ nftTableName @ nl @ ''delete table '' @ nftFamily @ '' '' @ nftTableName @ nl
     @ buildNFTRuleset r"

section \<open>What a chain decides\<close>

fun nft_matches :: "nft_expr \<Rightarrow> lock_packet \<Rightarrow> bool" where
  "nft_matches (OifName n) p = (lp_out p = n)"
| "nft_matches (IifName n) p = (lp_in p = n)"
| "nft_matches Nfproto4 p = is4 (lp_dst p)"
| "nft_matches (UdpSport n) p = (lp_l4 p = UDP \<and> lp_sport p = n)"
| "nft_matches (UdpDport n) p = (lp_l4 p = UDP \<and> lp_dport p = n)"
| "nft_matches (IpDaddr s) p = (is4 (lp_dst p) \<and> addr_text_match s (lp_dst p))"
| "nft_matches (IpSaddr s) p = (is4 (lp_dst p) \<and> addr_text_match s (lp_src p))"
| "nft_matches (MetaMark s) p = (lp_mark p = mark_value s)"
| "nft_matches (Dports l ps) p = (lp_l4 p = l \<and> lp_dport p \<in> set ps)"
| "nft_matches (OifKind s) p = (s = ''bridge'' \<and> lp_to_bridge p)"
| "nft_matches CtReply p = lp_reply p"

fun nft_decide :: "nft_rule list \<Rightarrow> lock_packet \<Rightarrow> bool" where
  "nft_decide [] p = False"
| "nft_decide ((es, v) # rules) p = (if list_all (\<lambda>e. nft_matches e p) es then v = NftAccept else nft_decide rules p)"

section \<open>The policy of the lock\<close>

definition to_resolver :: "lock_packet \<Rightarrow> bool" where
  "to_resolver p \<longleftrightarrow> lp_l4 p \<in> {UDP, TCP} \<and> lp_dport p \<in> {53, 853}"

definition dhcp_request :: "lock_packet \<Rightarrow> bool" where
  "dhcp_request p \<longleftrightarrow> lp_l4 p = UDP \<and> lp_sport p = 68 \<and> lp_dport p = 67 \<and> addr_text_match ''255.255.255.255'' (lp_dst p)"

definition to_endpoint :: "ksRules \<Rightarrow> lock_packet \<Rightarrow> bool" where
  "to_endpoint r p \<longleftrightarrow> list_ex (\<lambda>ip. CHR '':'' \<notin> set ip \<and> addr_text_match ip (lp_dst p)) (r_EndpointIPs r)"

definition opened_range :: "ksRules \<Rightarrow> addr \<Rightarrow> bool" where
  "opened_range r a \<longleftrightarrow> (r_AllowLAN r \<and> list_ex (\<lambda>c. addr_text_match c a) LANAllowPrefixes)
     \<or> list_ex (\<lambda>c. addr_text_match c a) (renderableSplitCIDRs (sp_CIDRs (r_Split r)))"

definition host_policy :: "ksRules \<Rightarrow> lock_packet \<Rightarrow> bool" where
  "host_policy r p \<longleftrightarrow> lp_out p = ''lo'' \<or>
     (is4 (lp_dst p) \<and> (dhcp_request p \<or> to_endpoint r p \<or> (r_Tunnel r \<noteq> [] \<and> lp_out p = r_Tunnel r)
        \<or> (\<not> to_resolver p \<and> ((sp_Egress (r_Split r) \<and> lp_mark p = mark_value splitEgressMark) \<or> opened_range r (lp_dst p)))))"

definition routed_reply :: "ksRules \<Rightarrow> lock_packet \<Rightarrow> bool" where
  "routed_reply r p \<longleftrightarrow> lp_reply p \<and> list_ex (\<lambda>c. addr_text_match c (lp_src p)) (renderableSplitCIDRs (sp_CIDRs (r_Split r)))"

definition guest_policy :: "ksRules \<Rightarrow> lock_packet \<Rightarrow> bool" where
  "guest_policy r p \<longleftrightarrow> lp_to_bridge p \<or>
     (is4 (lp_dst p) \<and> ((r_Tunnel r \<noteq> [] \<and> (lp_out p = r_Tunnel r \<or> lp_in p = r_Tunnel r))
        \<or> (\<not> to_resolver p \<and> (opened_range r (lp_dst p) \<or> routed_reply r p))))"

section \<open>The table implements the policy\<close>

lemma decide_accept: "nft_decide ((es, NftAccept) # rules) p \<longleftrightarrow> list_all (\<lambda>e. nft_matches e p) es \<or> nft_decide rules p"
  by simp

lemma decide_accepts:
  "nft_decide (map (\<lambda>x. (f x, NftAccept)) xs @ rules) p \<longleftrightarrow> list_ex (\<lambda>x. list_all (\<lambda>e. nft_matches e p) (f x)) xs \<or> nft_decide rules p"
  by (induction xs) auto

lemma decide_drops: "nft_decide (nft_resolver_drops @ rules) p \<longleftrightarrow> \<not> to_resolver p \<and> nft_decide rules p"
  by (auto simp: nft_resolver_drops_def to_resolver_def)

lemma decide_if: "nft_decide ((if b then xs else []) @ rules) p = (if b then nft_decide (xs @ rules) p else nft_decide rules p)"
  by simp

lemma decide_end: "nft_decide (map (\<lambda>x. (f x, NftAccept)) xs) p \<longleftrightarrow> list_ex (\<lambda>x. list_all (\<lambda>e. nft_matches e p) (f x)) xs"
  by (induction xs) auto

lemma decide_pairs:
  "nft_decide (concat (map (\<lambda>c. [(f c, NftAccept), (g c, NftAccept)]) xs)) p \<longleftrightarrow>
     list_ex (\<lambda>c. list_all (\<lambda>e. nft_matches e p) (f c) \<or> list_all (\<lambda>e. nft_matches e p) (g c)) xs"
  by (induction xs) auto

lemmas decide_simps = decide_if decide_drops decide_accepts decide_end decide_pairs

lemma ex_and: "list_ex (\<lambda>x. P \<and> Q x) xs \<longleftrightarrow> P \<and> list_ex Q xs" "list_ex (\<lambda>x. Q x \<and> P) xs \<longleftrightarrow> list_ex Q xs \<and> P"
  by (auto simp: list_ex_iff)

lemma ex_or: "list_ex (\<lambda>x. P x \<or> Q x) xs \<longleftrightarrow> list_ex P xs \<or> list_ex Q xs"
  by (auto simp: list_ex_iff)

lemma ex_none [simp]: "\<not> list_ex (\<lambda>x. False) xs"
  by (simp add: list_ex_iff)

lemma ex_filter: "list_ex P (filter Q xs) \<longleftrightarrow> list_ex (\<lambda>x. Q x \<and> P x) xs"
  by (auto simp: list_ex_iff)

text \<open>C8: The nftables table is the lock's policy.  The output chain lets a packet of the host out exactly when it
  goes to loopback, or is IPv4 and is a DHCP broadcast, goes to an endpoint or into the tunnel, or, not being a
  lookup to a resolver, carries the split mark or goes to an opened range; the forward chain lets a routed packet
  pass exactly when it stays on a bridge or is IPv4 and goes to or comes from the tunnel, goes to an opened range
  past no resolver, or answers one.\<close>

theorem nft_is_the_policy:
  "(nft_decide (nft_output_rules r) p \<longleftrightarrow> host_policy r p) \<and>
   (nft_decide (nft_forward_rules (r_Tunnel r) (r_AllowLAN r) (renderableSplitCIDRs (sp_CIDRs (r_Split r)))) p \<longleftrightarrow> guest_policy r p)"
proof (rule conjI)
  show "nft_decide (nft_output_rules r) p \<longleftrightarrow> host_policy r p"
    by (cases "renderableSplitCIDRs (sp_CIDRs (r_Split r)) = []")
       (auto simp: nft_output_rules_def host_policy_def dhcp_request_def to_endpoint_def opened_range_def
         decide_simps ex_and ex_filter)
  show "nft_decide (nft_forward_rules (r_Tunnel r) (r_AllowLAN r) (renderableSplitCIDRs (sp_CIDRs (r_Split r)))) p \<longleftrightarrow> guest_policy r p"
    by (cases "renderableSplitCIDRs (sp_CIDRs (r_Split r)) = []")
       (auto simp: nft_forward_rules_def guest_policy_def routed_reply_def opened_range_def decide_simps ex_and ex_or)
qed

end
