(* ===== verification/Lock_IPTables.thy ===== *)
theory Lock_IPTables
  imports Lock_Nft
begin

text \<open>platform/killswitch_iptables.go: the iptables fallback of the Linux kill switch, as the lists of commands it
  runs and the loops that run them.  The commands themselves are outside the program: \<open>run\<close> is what executing one
  did to a state of any type, and \<open>view\<close> reads the chains of a family out of that state.  \<open>obeys\<close> states the
  documented behaviour of iptables that the code relies on.\<close>

section \<open>Commands\<close>

definition iptChainName :: string where "iptChainName = ''PANGEAVPN_KS''"
definition iptChainNameAlt :: string where "iptChainNameAlt = ''PANGEAVPN_KS_B''"
definition ipt6ChainName :: string where "ipt6ChainName = ''PANGEAVPN_KS6''"
definition ipt6ChainNameAlt :: string where "ipt6ChainNameAlt = ''PANGEAVPN_KS6_B''"
definition iptFwdChainName :: string where "iptFwdChainName = ''PANGEAVPN_KS_FWD''"
definition iptFwdChainNameAlt :: string where "iptFwdChainNameAlt = ''PANGEAVPN_KS_FWD_B''"
definition ipt6FwdChainName :: string where "ipt6FwdChainName = ''PANGEAVPN_KS6_FWD''"
definition ipt6FwdChainNameAlt :: string where "ipt6FwdChainNameAlt = ''PANGEAVPN_KS6_FWD_B''"

lemmas chain_names = iptChainName_def iptChainNameAlt_def ipt6ChainName_def ipt6ChainNameAlt_def
  iptFwdChainName_def iptFwdChainNameAlt_def ipt6FwdChainName_def ipt6FwdChainNameAlt_def

record iptablesCommand =
  c_Binary :: string
  c_Args :: "string list"
  c_BestEffort :: bool
  c_TolerateExists :: bool
  c_Purpose :: string

definition withWait :: "string list \<Rightarrow> string list" where
  "withWait args = [''-w'', ''5''] @ args"

definition ipt4 :: "string \<Rightarrow> string list \<Rightarrow> iptablesCommand" where
  "ipt4 purpose args = \<lparr>c_Binary = ''iptables'', c_Args = withWait args, c_BestEffort = False, c_TolerateExists = False, c_Purpose = purpose\<rparr>"

definition ipt4Optional :: "string list \<Rightarrow> iptablesCommand" where
  "ipt4Optional args = \<lparr>c_Binary = ''iptables'', c_Args = withWait args, c_BestEffort = True, c_TolerateExists = False, c_Purpose = []\<rparr>"

definition ipt4Create :: "string \<Rightarrow> string list \<Rightarrow> iptablesCommand" where
  "ipt4Create purpose args = \<lparr>c_Binary = ''iptables'', c_Args = withWait args, c_BestEffort = False, c_TolerateExists = True, c_Purpose = purpose\<rparr>"

definition ipt6 :: "string \<Rightarrow> string list \<Rightarrow> iptablesCommand" where
  "ipt6 purpose args = \<lparr>c_Binary = ''ip6tables'', c_Args = withWait args, c_BestEffort = False, c_TolerateExists = False, c_Purpose = purpose\<rparr>"

definition ipt6Optional :: "string list \<Rightarrow> iptablesCommand" where
  "ipt6Optional args = \<lparr>c_Binary = ''ip6tables'', c_Args = withWait args, c_BestEffort = True, c_TolerateExists = False, c_Purpose = []\<rparr>"

definition ipt6Create :: "string \<Rightarrow> string list \<Rightarrow> iptablesCommand" where
  "ipt6Create purpose args = \<lparr>c_Binary = ''ip6tables'', c_Args = withWait args, c_BestEffort = False, c_TolerateExists = True, c_Purpose = purpose\<rparr>"

lemmas command_defs = ipt4_def ipt4Optional_def ipt4Create_def ipt6_def ipt6Optional_def ipt6Create_def

definition iptablesStagingChain :: "string \<Rightarrow> string" where
  "iptablesStagingChain live = (if live = iptChainName then iptChainNameAlt else iptChainName)"

definition iptables6StagingChain :: "string \<Rightarrow> string" where
  "iptables6StagingChain live = (if live = ipt6ChainName then ipt6ChainNameAlt else ipt6ChainName)"

definition iptablesForwardStagingChain :: "string \<Rightarrow> string" where
  "iptablesForwardStagingChain live = (if live = iptFwdChainName then iptFwdChainNameAlt else iptFwdChainName)"

definition iptables6ForwardStagingChain :: "string \<Rightarrow> string" where
  "iptables6ForwardStagingChain live = (if live = ipt6FwdChainName then ipt6FwdChainNameAlt else ipt6FwdChainName)"

section \<open>The plans\<close>

definition iptablesResolverDrops :: "string \<Rightarrow> iptablesCommand list" where
  "iptablesResolverDrops chain = concat (map (\<lambda>proto. map (\<lambda>port.
     ipt4 (''block off-tunnel resolver '' @ proto @ ''/'' @ port) [''-A'', chain, ''-p'', proto, ''--dport'', port, ''-j'', ''DROP''])
     [''53'', ''853'']) [''udp'', ''tcp''])"

definition retire4 :: "string \<Rightarrow> string \<Rightarrow> iptablesCommand list" where
  "retire4 hook chain = [ipt4Optional [''-D'', hook, ''-j'', chain], ipt4Optional [''-F'', chain], ipt4Optional [''-X'', chain]]"

definition retire6 :: "string \<Rightarrow> string \<Rightarrow> iptablesCommand list" where
  "retire6 hook chain = [ipt6Optional [''-D'', hook, ''-j'', chain], ipt6Optional [''-F'', chain], ipt6Optional [''-X'', chain]]"

definition output6_plan :: "string \<Rightarrow> iptablesCommand list" where
  "output6_plan staging6 = retire6 ''OUTPUT'' staging6
     @ [ipt6Create ''create IPv6 chain'' [''-N'', staging6],
        ipt6 ''allow IPv6 loopback'' [''-A'', staging6, ''-o'', ''lo'', ''-j'', ''ACCEPT''],
        ipt6 ''add IPv6 drop rule'' [''-A'', staging6, ''-j'', ''DROP''],
        ipt6 ''insert IPv6 jump'' [''-I'', ''OUTPUT'', ''1'', ''-j'', staging6]]
     @ concat (map (retire6 ''OUTPUT'') (filter (\<lambda>c. c \<noteq> staging6) [ipt6ChainName, ipt6ChainNameAlt]))"

definition output4_rules :: "string \<Rightarrow> ksRules \<Rightarrow> iptablesCommand list" where
  "output4_rules staging r = (let cidrs = renderableSplitCIDRs (sp_CIDRs (r_Split r)) in
     [ipt4 ''allow loopback'' [''-A'', staging, ''-o'', ''lo'', ''-j'', ''ACCEPT''],
      ipt4 ''allow DHCP'' [''-A'', staging, ''-p'', ''udp'', ''--sport'', ''68'', ''--dport'', ''67'', ''-d'', ''255.255.255.255'', ''-j'', ''ACCEPT'']]
     @ map (\<lambda>ip. ipt4 (''allow endpoint '' @ ip) [''-A'', staging, ''-d'', ip, ''-j'', ''ACCEPT''])
         (filter (\<lambda>ip. CHR '':'' \<notin> set ip) (r_EndpointIPs r))
     @ (if r_Tunnel r \<noteq> [] then [ipt4 ''allow tunnel interface'' [''-A'', staging, ''-o'', r_Tunnel r, ''-j'', ''ACCEPT'']] else [])
     @ (if r_AllowLAN r \<or> 0 < length cidrs \<or> sp_Egress (r_Split r) then iptablesResolverDrops staging else [])
     @ (if sp_Egress (r_Split r)
        then [ipt4 ''allow split egress'' [''-A'', staging, ''-m'', ''mark'', ''--mark'', splitEgressMark, ''-j'', ''ACCEPT'']] else [])
     @ (if r_AllowLAN r
        then map (\<lambda>cidr. ipt4 (''allow LAN '' @ cidr) [''-A'', staging, ''-d'', cidr, ''-j'', ''ACCEPT'']) LANAllowPrefixes else [])
     @ map (\<lambda>cidr. ipt4 (''allow split CIDR '' @ cidr) [''-A'', staging, ''-d'', cidr, ''-j'', ''ACCEPT'']) cidrs)"

definition output4_plan :: "string \<Rightarrow> ksRules \<Rightarrow> iptablesCommand list" where
  "output4_plan staging r = retire4 ''OUTPUT'' staging
     @ [ipt4Create ''create chain'' [''-N'', staging]]
     @ output4_rules staging r
     @ [ipt4 ''add drop rule'' [''-A'', staging, ''-j'', ''DROP''],
        ipt4 ''insert jump'' [''-I'', ''OUTPUT'', ''1'', ''-j'', staging]]
     @ concat (map (retire4 ''OUTPUT'') (filter (\<lambda>c. c \<noteq> staging) [iptChainName, iptChainNameAlt]))"

definition iptablesApplyPlan :: "string \<Rightarrow> string \<Rightarrow> ksRules \<Rightarrow> iptablesCommand list" where
  "iptablesApplyPlan staging staging6 r = output6_plan staging6 @ output4_plan staging r"

definition forward6_plan :: "string \<Rightarrow> iptablesCommand list" where
  "forward6_plan staging6 = retire6 ''FORWARD'' staging6
     @ [ipt6Create ''create IPv6 forward chain'' [''-N'', staging6],
        ipt6Optional [''-A'', staging6, ''-m'', ''physdev'', ''--physdev-is-bridged'', ''-j'', ''ACCEPT''],
        ipt6 ''add IPv6 forward drop rule'' [''-A'', staging6, ''-j'', ''DROP''],
        ipt6 ''insert IPv6 forward jump'' [''-I'', ''FORWARD'', ''1'', ''-j'', staging6]]
     @ concat (map (retire6 ''FORWARD'') (filter (\<lambda>c. c \<noteq> staging6) [ipt6FwdChainName, ipt6FwdChainNameAlt]))"

definition forward4_rules :: "string \<Rightarrow> ksRules \<Rightarrow> iptablesCommand list" where
  "forward4_rules staging r = (let cidrs = renderableSplitCIDRs (sp_CIDRs (r_Split r)) in
     [ipt4Optional [''-A'', staging, ''-m'', ''physdev'', ''--physdev-is-bridged'', ''-j'', ''ACCEPT'']]
     @ (if r_Tunnel r \<noteq> []
        then [ipt4 ''allow forwarding to tunnel'' [''-A'', staging, ''-o'', r_Tunnel r, ''-j'', ''ACCEPT''],
              ipt4 ''allow forwarding from tunnel'' [''-A'', staging, ''-i'', r_Tunnel r, ''-j'', ''ACCEPT'']] else [])
     @ (if r_AllowLAN r \<or> 0 < length cidrs then iptablesResolverDrops staging else [])
     @ (if r_AllowLAN r
        then map (\<lambda>cidr. ipt4 (''allow forwarding to LAN '' @ cidr) [''-A'', staging, ''-d'', cidr, ''-j'', ''ACCEPT'']) LANAllowPrefixes else [])
     @ concat (map (\<lambda>cidr.
         [ipt4 (''allow forwarding to split CIDR '' @ cidr) [''-A'', staging, ''-d'', cidr, ''-j'', ''ACCEPT''],
          ipt4Optional [''-A'', staging, ''-s'', cidr, ''-m'', ''conntrack'', ''--ctdir'', ''REPLY'', ''-j'', ''ACCEPT'']]) cidrs))"

definition forward4_plan :: "string \<Rightarrow> ksRules \<Rightarrow> iptablesCommand list" where
  "forward4_plan staging r = retire4 ''FORWARD'' staging
     @ [ipt4Create ''create forward chain'' [''-N'', staging]]
     @ forward4_rules staging r
     @ [ipt4 ''add forward drop rule'' [''-A'', staging, ''-j'', ''DROP''],
        ipt4 ''insert forward jump'' [''-I'', ''FORWARD'', ''1'', ''-j'', staging]]
     @ concat (map (retire4 ''FORWARD'') (filter (\<lambda>c. c \<noteq> staging) [iptFwdChainName, iptFwdChainNameAlt]))"

definition iptablesForwardPlan :: "string \<Rightarrow> string \<Rightarrow> ksRules \<Rightarrow> iptablesCommand list" where
  "iptablesForwardPlan staging staging6 r = forward6_plan staging6 @ forward4_plan staging r"

definition iptablesRemovePlan :: "iptablesCommand list" where
  "iptablesRemovePlan =
     concat (map (retire4 ''OUTPUT'') [iptChainName, iptChainNameAlt])
     @ concat (map (retire6 ''OUTPUT'') [ipt6ChainName, ipt6ChainNameAlt])
     @ concat (map (retire4 ''FORWARD'') [iptFwdChainName, iptFwdChainNameAlt])
     @ concat (map (retire6 ''FORWARD'') [ipt6FwdChainName, ipt6FwdChainNameAlt])"

section \<open>Running them\<close>

text \<open>How one command ended: it worked, or it did not, with the exit code where there was one and the text of the
  error.\<close>

datatype ipt_outcome = Ran | Failed "nat option" string

type_synonym 'k ipt_run = "string \<Rightarrow> string list \<Rightarrow> 'k \<Rightarrow> ipt_outcome \<times> 'k"

text \<open>Some of the answer, None where the question went unanswered.\<close>

definition probeIPTablesRule :: "'k ipt_run \<Rightarrow> string \<Rightarrow> string list \<Rightarrow> 'k \<Rightarrow> bool option \<times> 'k" where
  "probeIPTablesRule run binary args k = (case run binary args k of
      (Ran, k') \<Rightarrow> (Some True, k')
    | (Failed code _, k') \<Rightarrow> (if code = Some 1 then Some False else None, k'))"

definition iptablesChainExists :: "'k ipt_run \<Rightarrow> string \<Rightarrow> string \<Rightarrow> 'k \<Rightarrow> bool option \<times> 'k" where
  "iptablesChainExists run binary chain = probeIPTablesRule run binary (withWait [''-S'', chain])"

fun live_chain :: "'k ipt_run \<Rightarrow> string \<Rightarrow> string \<Rightarrow> string list \<Rightarrow> 'k \<Rightarrow> string option \<times> 'k" where
  "live_chain run binary hook [] k = (Some [], k)"
| "live_chain run binary hook (chain # later) k = (case iptablesChainExists run binary chain k of
      (None, k1) \<Rightarrow> (None, k1)
    | (Some False, k1) \<Rightarrow> live_chain run binary hook later k1
    | (Some True, k1) \<Rightarrow> (case probeIPTablesRule run binary (withWait [''-C'', hook, ''-j'', chain]) k1 of
          (None, k2) \<Rightarrow> (None, k2)
        | (Some False, k2) \<Rightarrow> live_chain run binary hook later k2
        | (Some True, k2) \<Rightarrow> (case probeIPTablesRule run binary (withWait [''-C'', chain, ''-j'', ''DROP'']) k2 of
              (None, k3) \<Rightarrow> (None, k3)
            | (Some True, k3) \<Rightarrow> (Some chain, k3)
            | (Some False, k3) \<Rightarrow> live_chain run binary hook later k3)))"

definition liveIPTablesChain :: "'k ipt_run \<Rightarrow> string \<Rightarrow> string \<Rightarrow> string \<Rightarrow> string \<Rightarrow> 'k \<Rightarrow> string option \<times> 'k" where
  "liveIPTablesChain run binary hook primary alternate = live_chain run binary hook [primary, alternate]"

datatype apply_error = LiveUnknown string | StepFailed string

fun run_plan :: "'k ipt_run \<Rightarrow> iptablesCommand list \<Rightarrow> 'k \<Rightarrow> apply_error option \<times> 'k" where
  "run_plan run [] k = (None, k)"
| "run_plan run (cmd # cmds) k = (case run (c_Binary cmd) (c_Args cmd) k of
      (Ran, k') \<Rightarrow> run_plan run cmds k'
    | (Failed _ txt, k') \<Rightarrow>
        if c_BestEffort cmd then run_plan run cmds k'
        else if c_TolerateExists cmd \<and> contains_text (to_lower txt) ''exist'' then run_plan run cmds k'
        else (Some (StepFailed (c_Purpose cmd)), k'))"

definition applyIPTablesRules :: "'k ipt_run \<Rightarrow> ksRules \<Rightarrow> 'k \<Rightarrow> apply_error option \<times> 'k" where
  "applyIPTablesRules run r k0 = (case liveIPTablesChain run ''iptables'' ''OUTPUT'' iptChainName iptChainNameAlt k0 of
     (None, k1) \<Rightarrow> (Some (LiveUnknown ''IPv4 kill-switch''), k1)
   | (Some live, k1) \<Rightarrow> (case liveIPTablesChain run ''ip6tables'' ''OUTPUT'' ipt6ChainName ipt6ChainNameAlt k1 of
     (None, k2) \<Rightarrow> (Some (LiveUnknown ''IPv6 kill-switch''), k2)
   | (Some live6, k2) \<Rightarrow> (case liveIPTablesChain run ''iptables'' ''FORWARD'' iptFwdChainName iptFwdChainNameAlt k2 of
     (None, k3) \<Rightarrow> (Some (LiveUnknown ''IPv4 forward''), k3)
   | (Some liveFwd, k3) \<Rightarrow> (case liveIPTablesChain run ''ip6tables'' ''FORWARD'' ipt6FwdChainName ipt6FwdChainNameAlt k3 of
     (None, k4) \<Rightarrow> (Some (LiveUnknown ''IPv6 forward''), k4)
   | (Some liveFwd6, k4) \<Rightarrow>
       run_plan run (iptablesApplyPlan (iptablesStagingChain live) (iptables6StagingChain live6) r
         @ iptablesForwardPlan (iptablesForwardStagingChain liveFwd) (iptables6ForwardStagingChain liveFwd6) r) k4))))"

text \<open>Whether a failed teardown step had nothing to do.\<close>

definition strip_wait :: "string list \<Rightarrow> string list" where
  "strip_wait args = (if 2 \<le> length args \<and> args ! 0 = ''-w'' then drop 2 args else args)"

definition iptablesTargetAbsent :: "'k ipt_run \<Rightarrow> iptablesCommand \<Rightarrow> 'k \<Rightarrow> bool option \<times> 'k" where
  "iptablesTargetAbsent run cmd k0 = (let args = strip_wait (c_Args cmd) in
     if length args < 2 then (None, k0)
     else if args ! 0 = ''-D'' then
       (let target = 4 \<le> length args \<and> args ! (length args - 2) = ''-j'';
            (answer, k1) = (if target then iptablesChainExists run (c_Binary cmd) (last args) k0 else (Some True, k0))
        in case answer of None \<Rightarrow> (None, k1)
           | Some False \<Rightarrow> (Some True, k1)
           | Some True \<Rightarrow> (case probeIPTablesRule run (c_Binary cmd) (withWait (''-C'' # tl args)) k1 of
                (present, k2) \<Rightarrow> (map_option Not present, k2)))
     else if args ! 0 = ''-F'' \<or> args ! 0 = ''-X'' then
       (case iptablesChainExists run (c_Binary cmd) (args ! 1) k0 of (there, k1) \<Rightarrow> (map_option Not there, k1))
     else (None, k0))"

definition iptablesBackendUsable :: "'k ipt_run \<Rightarrow> string \<Rightarrow> 'k \<Rightarrow> bool \<times> 'k" where
  "iptablesBackendUsable run binary k = (case run binary (withWait [''-S'', ''OUTPUT'']) k of
     (Ran, k') \<Rightarrow> (True, k') | (Failed _ _, k') \<Rightarrow> (False, k'))"

text \<open>The sweep: which binaries work is asked once each; the commands that failed with something left are collected.\<close>

fun sweep :: "'k ipt_run \<Rightarrow> (string \<rightharpoonup> bool) \<Rightarrow> iptablesCommand list \<Rightarrow> 'k \<Rightarrow> iptablesCommand list \<times> 'k" where
  "sweep run usable [] k = ([], k)"
| "sweep run usable (cmd # cmds) k0 =
     (let (ok, k1) = (case usable (c_Binary cmd) of Some ok \<Rightarrow> (ok, k0) | None \<Rightarrow> iptablesBackendUsable run (c_Binary cmd) k0);
          usable' = usable(c_Binary cmd \<mapsto> ok)
      in if \<not> ok then sweep run usable' cmds k1
         else (case run (c_Binary cmd) (c_Args cmd) k1 of
            (Ran, k2) \<Rightarrow> sweep run usable' cmds k2
          | (Failed _ _, k2) \<Rightarrow> (case iptablesTargetAbsent run cmd k2 of
              (Some True, k3) \<Rightarrow> sweep run usable' cmds k3
            | (_, k3) \<Rightarrow> (let (failures, k4) = sweep run usable' cmds k3 in (cmd # failures, k4)))))"

definition removeIPTablesRules :: "'k ipt_run \<Rightarrow> 'k \<Rightarrow> iptablesCommand list option \<times> 'k" where
  "removeIPTablesRules run k = (case sweep run (\<lambda>_. None) iptablesRemovePlan k of
     (failures, k') \<Rightarrow> (if failures \<noteq> [] then Some failures else None, k'))"

end
