(* ===== verification/Lock_Kernel.thy ===== *)
theory Lock_Kernel
  imports Lock_IPTables
begin

text \<open>What the kill switch relies on of iptables, and what a rebuild of the fallback lock does to the kernel's
  tables: a host that was locked stays locked through every command of it, whichever commands fail.\<close>

section \<open>Documented behaviour of iptables\<close>

text \<open>A family's chains, each the list of its rules as they were given.\<close>

type_synonym xt_tables = "string \<Rightarrow> string list list option"

definition rules_of :: "xt_tables \<Rightarrow> string \<Rightarrow> string list list" where
  "rules_of t c = (case t c of Some rs \<Rightarrow> rs | None \<Rightarrow> [])"

definition hooked_anywhere :: "xt_tables \<Rightarrow> string \<Rightarrow> bool" where
  "hooked_anywhere t c \<longleftrightarrow> list_ex (\<lambda>h. list_ex (\<lambda>s. s = [''-j'', c]) (rules_of t h)) [''OUTPUT'', ''FORWARD'']"

text \<open>What a command that works does.\<close>

definition xt_step :: "string list \<Rightarrow> xt_tables \<Rightarrow> xt_tables option" where
  "xt_step args t = (case args of cmd # c # spec \<Rightarrow>
      (case t c of
         None \<Rightarrow> if cmd = ''-N'' then Some (t(c \<mapsto> [])) else None
       | Some rs \<Rightarrow>
          if cmd = ''-F'' then Some (t(c \<mapsto> []))
          else if cmd = ''-X'' then (if rs = [] \<and> \<not> hooked_anywhere t c then Some (t(c := None)) else None)
          else if cmd = ''-A'' then Some (t(c \<mapsto> rs @ [spec]))
          else if cmd = ''-I'' then Some (t(c \<mapsto> tl spec # rs))
          else if cmd = ''-D'' then (if spec \<in> set rs then Some (t(c \<mapsto> remove1 spec rs)) else None)
          else if cmd = ''-C'' then (if spec \<in> set rs then Some t else None)
          else if cmd = ''-S'' then Some t
          else None)
    | _ \<Rightarrow> None)"

definition is_probe :: "string list \<Rightarrow> bool" where
  "is_probe args \<longleftrightarrow> args \<noteq> [] \<and> hd args \<in> {''-C'', ''-S''}"

text \<open>A command touches its own family only.  One that works does what the manual says; one that fails did nothing,
  or, where it was killed late, all of it; and exit code 1 to a question means no.\<close>

definition obedient :: "('k \<Rightarrow> string \<Rightarrow> xt_tables) \<Rightarrow> string \<Rightarrow> string list \<Rightarrow> 'k \<Rightarrow> ipt_outcome \<times> 'k \<Rightarrow> bool" where
  "obedient view b args k result \<longleftrightarrow> (case result of
       (Ran, k') \<Rightarrow> xt_step args (view k b) = Some (view k' b) \<and> (\<forall>b'. b' \<noteq> b \<longrightarrow> view k' b' = view k b')
     | (Failed code txt, k') \<Rightarrow> (view k' b = view k b \<or> xt_step args (view k b) = Some (view k' b))
         \<and> (code = Some 1 \<and> is_probe args \<longrightarrow> xt_step args (view k b) = None) \<and> (\<forall>b'. b' \<noteq> b \<longrightarrow> view k' b' = view k b'))"

definition obeys :: "'k ipt_run \<Rightarrow> ('k \<Rightarrow> string \<Rightarrow> xt_tables) \<Rightarrow> bool" where
  "obeys run view \<longleftrightarrow> (\<forall>b args k. obedient view b args k (run b (withWait args) k))"

text \<open>The states a run goes through, kept beside the state.\<close>

definition watched :: "'k ipt_run \<Rightarrow> ('k \<times> 'k list) ipt_run" where
  "watched run b args kh = (case run b args (fst kh) of (res, k') \<Rightarrow> (res, (k', snd kh @ [k'])))"

lemma obeys_watched: "obeys run view \<Longrightarrow> obeys (watched run) (view \<circ> fst)"
  unfolding obeys_def watched_def obedient_def by (fastforce split: prod.splits ipt_outcome.splits)

lemma obeys_moves:
  assumes "obeys run view" and "run b (withWait args) k = (res, k')"
  shows "view k' b = view k b \<or> xt_step args (view k b) = Some (view k' b)"
    and "b' \<noteq> b \<Longrightarrow> view k' b' = view k b'"
    and "res = Ran \<Longrightarrow> xt_step args (view k b) = Some (view k' b)"
    and "res = Failed (Some 1) txt \<Longrightarrow> is_probe args \<Longrightarrow> xt_step args (view k b) = None"
proof -
  have d: "case res of Ran \<Rightarrow> xt_step args (view k b) = Some (view k' b) \<and> (\<forall>b'. b' \<noteq> b \<longrightarrow> view k' b' = view k b')
      | Failed code txt \<Rightarrow> (view k' b = view k b \<or> xt_step args (view k b) = Some (view k' b))
         \<and> (code = Some 1 \<and> is_probe args \<longrightarrow> xt_step args (view k b) = None) \<and> (\<forall>b'. b' \<noteq> b \<longrightarrow> view k' b' = view k b')"
    using spec [OF spec [OF spec [OF assms(1) [unfolded obeys_def], of b], of args], of k] assms(2) by (cases res) (simp_all add: obedient_def)
  show "view k' b = view k b \<or> xt_step args (view k b) = Some (view k' b)" using d by (cases res) auto
  show "b' \<noteq> b \<Longrightarrow> view k' b' = view k b'" using d by (cases res) auto
  show "res = Ran \<Longrightarrow> xt_step args (view k b) = Some (view k' b)" using d by simp
  show "res = Failed (Some 1) txt \<Longrightarrow> is_probe args \<Longrightarrow> xt_step args (view k b) = None" using d by simp
qed

section \<open>A locked hook\<close>

definition jump :: "string \<Rightarrow> string list" where "jump c = [''-j'', c]"

definition live :: "xt_tables \<Rightarrow> string \<Rightarrow> string \<Rightarrow> bool" where
  "live t hook c \<longleftrightarrow> list_ex ((=) (jump c)) (rules_of t hook) \<and> list_ex ((=) (jump ''DROP'')) (rules_of t c)"

text \<open>One of the lock's two chains is hooked and holds its drop, which no packet passes.\<close>

definition filtered :: "xt_tables \<Rightarrow> string \<Rightarrow> string list \<Rightarrow> bool" where
  "filtered t hook cs \<longleftrightarrow> list_ex (live t hook) cs"

definition lock_families :: "(string \<times> string \<times> string list) list" where
  "lock_families =
     [(''iptables'', ''OUTPUT'', [iptChainName, iptChainNameAlt]), (''ip6tables'', ''OUTPUT'', [ipt6ChainName, ipt6ChainNameAlt]),
      (''iptables'', ''FORWARD'', [iptFwdChainName, iptFwdChainNameAlt]), (''ip6tables'', ''FORWARD'', [ipt6FwdChainName, ipt6FwdChainNameAlt])]"

text \<open>A command that cannot unlock \<open>hook\<close> while it is locked by \<open>c\<close>.\<close>

definition spares :: "string \<Rightarrow> string \<Rightarrow> string \<Rightarrow> iptablesCommand \<Rightarrow> bool" where
  "spares b hook c cmd \<longleftrightarrow> take 2 (c_Args cmd) = [''-w'', ''5''] \<and>
     (c_Binary cmd \<noteq> b \<or> (case drop 2 (c_Args cmd) of
        what # x # spec \<Rightarrow> x \<noteq> c \<and> (x = hook \<longrightarrow> what = ''-I'' \<or> (what = ''-D'' \<and> spec \<noteq> jump c))
      | _ \<Rightarrow> True))"

lemma rules_upd [simp]:
  "rules_of (t(c \<mapsto> rs)) d = (if d = c then rs else rules_of t d)"
  "rules_of (t(c := None)) d = (if d = c then [] else rules_of t d)"
  by (auto simp: rules_of_def)

lemma step_append:
  assumes "xt_step (''-A'' # c # spec) t = Some t'"
  shows "rules_of t' d = (if d = c then rules_of t c @ [spec] else rules_of t d)"
proof -
  obtain rs where "t c = Some rs" "t' = t(c \<mapsto> rs @ [spec])"
    using assms by (auto simp: xt_step_def split: option.splits)
  then show ?thesis by (simp add: rules_of_def)
qed

lemma step_insert:
  assumes "xt_step (''-I'' # c # n # spec) t = Some t'"
  shows "rules_of t' d = (if d = c then spec # rules_of t c else rules_of t d)"
proof -
  obtain rs where "t c = Some rs" "t' = t(c \<mapsto> spec # rs)"
    using assms by (auto simp: xt_step_def split: option.splits)
  then show ?thesis by (simp add: rules_of_def)
qed

lemma step_live:
  assumes "xt_step (what # x # spec) t = Some t'" and "live t hook c" and "hook \<noteq> c" and "x \<noteq> c"
    and "x = hook \<longrightarrow> what = ''-I'' \<or> (what = ''-D'' \<and> spec \<noteq> jump c)"
  shows "live t' hook c"
proof -
  have keep: "jump c \<in> set (remove1 spec rs)" if "jump c \<in> set rs" "spec \<noteq> jump c" for rs
    using that by simp
  have "rules_of t x = rs" if "t x = Some rs" for rs using that by (simp add: rules_of_def)
  with assms show ?thesis
    unfolding xt_step_def live_def list_ex_iff by (auto split: option.splits if_splits simp: keep)
qed

lemma spares_live:
  assumes "obeys run view" and "spares b hook c cmd" and "hook \<noteq> c"
    and "run (c_Binary cmd) (c_Args cmd) k = (res, k')" and "live (view k b) hook c"
  shows "live (view k' b) hook c"
proof -
  define args where "args = drop 2 (c_Args cmd)"
  have "c_Args cmd = take 2 (c_Args cmd) @ args" unfolding args_def by (rule append_take_drop_id [symmetric])
  then have args: "c_Args cmd = withWait args" using assms(2) unfolding spares_def withWait_def by argo
  have run: "run (c_Binary cmd) (withWait args) k = (res, k')" using assms(4) args by simp
  show ?thesis
  proof (cases "c_Binary cmd = b")
    case False
    then show ?thesis using obeys_moves(2) [OF assms(1) run, of b] assms(5) by simp
  next
    case True
    from obeys_moves(1) [OF assms(1) run] show ?thesis
    proof
      assume "xt_step args (view k (c_Binary cmd)) = Some (view k' (c_Binary cmd))"
      moreover obtain what x spec where a: "args = what # x # spec"
        using calculation by (auto simp: xt_step_def split: list.splits)
      ultimately show ?thesis
        using step_live [of what x spec "view k b" "view k' b" hook c] assms(2,3,5) True
        by (simp add: spares_def args withWait_def)
    qed (use True assms(5) in simp)
  qed
qed

section \<open>A rebuild, family by family\<close>

definition watch_inv :: "('k \<Rightarrow> string \<Rightarrow> xt_tables) \<Rightarrow> string \<Rightarrow> string \<Rightarrow> string list \<Rightarrow> string \<Rightarrow> 'k \<times> 'k list \<Rightarrow> bool" where
  "watch_inv view b hook cs c kh \<longleftrightarrow> live (view (fst kh) b) hook c \<and> list_all (\<lambda>s. filtered (view s b) hook cs) (snd kh)"

lemma watch_step:
  assumes "obeys run view" and "spares b hook c cmd" and "hook \<noteq> c" and "c \<in> set cs"
    and "watched run (c_Binary cmd) (c_Args cmd) kh = (res, kh')" and "watch_inv view b hook cs c kh"
  shows "watch_inv view b hook cs c kh'"
proof -
  obtain k' where k': "run (c_Binary cmd) (c_Args cmd) (fst kh) = (res, k')" "kh' = (k', snd kh @ [k'])"
    using assms(5) by (auto simp: watched_def split: prod.splits)
  then have "live (view k' b) hook c" using spares_live [OF assms(1-3) k'(1)] assms(6) by (simp add: watch_inv_def)
  with assms(4,6) k'(2) show ?thesis by (auto simp: watch_inv_def filtered_def list_ex_iff)
qed

lemma watch_plan:
  assumes "obeys run view" and "hook \<noteq> c" and "c \<in> set cs" and "list_all (spares b hook c) plan" and "watch_inv view b hook cs c kh"
  shows "watch_inv view b hook cs c (snd (run_plan (watched run) plan kh))"
  using assms(4,5)
proof (induction plan arbitrary: kh)
  case (Cons cmd plan)
  obtain res kh' where r: "watched run (c_Binary cmd) (c_Args cmd) kh = (res, kh')" by (metis surj_pair)
  then have "watch_inv view b hook cs c kh'" using watch_step [OF assms(1) _ assms(2,3) r] Cons(2,3) by simp
  with Cons r show ?case by (auto split: ipt_outcome.splits)
qed simp

lemma run_plan_append:
  "run_plan run (p @ q) k = (case run_plan run p k of (None, k') \<Rightarrow> run_plan run q k' | (Some e, k') \<Rightarrow> (Some e, k'))"
  by (induction run p k rule: run_plan.induct) (auto split: prod.splits ipt_outcome.splits option.splits)

lemma swap_watched:
  assumes ob: "obeys run view" and ne: "hook \<noteq> old" "hook \<noteq> new" "new \<noteq> old" and cs: "old \<in> set cs" "new \<in> set cs"
    and before: "list_all (spares b hook old) (p1 @ [close, hookup])" and after: "list_all (spares b hook new) p2"
    and close: "c_Binary close = b" "c_Args close = withWait [''-A'', new, ''-j'', ''DROP'']" "\<not> c_BestEffort close" "\<not> c_TolerateExists close"
    and hookup: "c_Binary hookup = b" "c_Args hookup = withWait [''-I'', hook, ''1'', ''-j'', new]" "\<not> c_BestEffort hookup" "\<not> c_TolerateExists hookup"
    and inv: "watch_inv view b hook cs old kh"
  shows "list_all (\<lambda>s. filtered (view s b) hook cs) (snd (snd (run_plan (watched run) (p1 @ [close, hookup] @ p2) kh)))"
proof -
  let ?run = "watched run"
  have states: "list_all (\<lambda>s. filtered (view s b) hook cs) (snd kh')" if "watch_inv view b hook cs c kh'" for c kh'
    using that by (simp add: watch_inv_def)
  have ob': "obeys ?run (view \<circ> fst)" using ob by (rule obeys_watched)
  obtain e1 kh1 where r1: "run_plan ?run p1 kh = (e1, kh1)" by (metis surj_pair)
  have i1: "watch_inv view b hook cs old kh1"
    using watch_plan [OF ob ne(1) cs(1), where b = b and plan = p1 and kh = kh] before inv r1 by simp
  obtain o2 kh2 where r2: "?run b (withWait [''-A'', new, ''-j'', ''DROP'']) kh1 = (o2, kh2)" by (metis surj_pair)
  have i2: "watch_inv view b hook cs old kh2"
    using watch_step [OF ob _ ne(1) cs(1) _ i1, where cmd = close] before r2 close by simp
  obtain o3 kh3 where r3: "?run b (withWait [''-I'', hook, ''1'', ''-j'', new]) kh2 = (o3, kh3)" by (metis surj_pair)
  have i3: "watch_inv view b hook cs old kh3"
    using watch_step [OF ob _ ne(1) cs(1) _ i2, where cmd = hookup] before r3 hookup by simp
  have new_live: "live (view (fst kh3) b) hook new" if "o2 = Ran" "o3 = Ran"
  proof -
    have "xt_step [''-A'', new, ''-j'', ''DROP''] (view (fst kh1) b) = Some (view (fst kh2) b)"
      using obeys_moves(3) [OF ob' r2] that(1) by simp
    then have "jump ''DROP'' \<in> set (rules_of (view (fst kh2) b) new)"
      by (simp add: step_append jump_def)
    moreover have "xt_step [''-I'', hook, ''1'', ''-j'', new] (view (fst kh2) b) = Some (view (fst kh3) b)"
      using obeys_moves(3) [OF ob' r3] that(2) by simp
    then have "rules_of (view (fst kh3) b) new = rules_of (view (fst kh2) b) new" "jump new \<in> set (rules_of (view (fst kh3) b) hook)"
      using ne by (simp_all add: step_insert jump_def)
    ultimately show ?thesis by (simp add: live_def list_ex_iff)
  qed
  have i4: "watch_inv view b hook cs new (snd (run_plan ?run p2 kh3))" if "o2 = Ran" "o3 = Ran"
    using watch_plan [OF ob ne(2) cs(2) after, where kh = kh3] new_live [OF that] i3 by (simp add: watch_inv_def)
  show ?thesis
  proof (cases e1)
    case (Some e)
    then show ?thesis using states [OF i1] r1 by (simp add: run_plan_append)
  next
    case None
    show ?thesis
    proof (cases "o2 = Ran \<and> o3 = Ran")
      case True
      then show ?thesis using states [OF i4] r1 r2 r3 None close hookup by (simp add: run_plan_append)
    next
      case False
      then show ?thesis using states [OF i2] states [OF i3] r1 r2 r3 None close hookup
        by (cases o2; cases o3) (simp_all add: run_plan_append)
    qed
  qed
qed

section \<open>The questions change nothing\<close>

lemma probe_step: "is_probe args \<Longrightarrow> xt_step args t = Some t' \<Longrightarrow> t' = t"
  by (auto simp: is_probe_def xt_step_def split: list.splits option.splits if_splits)

definition same_view :: "('k \<Rightarrow> string \<Rightarrow> xt_tables) \<Rightarrow> 'k \<times> 'k list \<Rightarrow> 'k \<times> 'k list \<Rightarrow> bool" where
  "same_view view kh kh' \<longleftrightarrow> view (fst kh') = view (fst kh) \<and> (\<exists>more. snd kh' = snd kh @ more \<and> list_all (\<lambda>s. view s = view (fst kh)) more)"

lemma same_view_refl: "same_view view kh kh"
  by (simp add: same_view_def)

lemma same_view_trans: "same_view view a b \<Longrightarrow> same_view view b c \<Longrightarrow> same_view view a c"
  unfolding same_view_def by fastforce

lemma probe_watched:
  assumes ob: "obeys run view" and p: "is_probe args"
    and r: "probeIPTablesRule (watched run) b (withWait args) kh = (answer, kh')"
  shows "same_view view kh kh'" and "answer = Some (xt_step args (view (fst kh) b) \<noteq> None) \<or> answer = None"
proof -
  obtain res k' where k': "run b (withWait args) (fst kh) = (res, k')" by (metis surj_pair)
  then have w: "watched run b (withWait args) kh = (res, (k', snd kh @ [k']))" by (simp add: watched_def)
  then have kh': "kh' = (k', snd kh @ [k'])" using r by (auto simp: probeIPTablesRule_def split: ipt_outcome.splits)
  note m = obeys_moves [OF ob k']
  have "view k' b' = view (fst kh) b'" for b'
    using m(1) m(2) [of b'] probe_step [OF p] by (cases "b' = b") auto
  then have "view k' = view (fst kh)" by (rule ext)
  then show "same_view view kh kh'" by (simp add: kh' same_view_def)
  show "answer = Some (xt_step args (view (fst kh) b) \<noteq> None) \<or> answer = None"
    using r w m(3,4) p by (auto simp: probeIPTablesRule_def split: ipt_outcome.splits if_splits)
qed

lemma asked:
  "xt_step [''-S'', c] t \<noteq> None \<longleftrightarrow> t c \<noteq> None"
  "xt_step [''-C'', hook, ''-j'', c] t \<noteq> None \<longleftrightarrow> jump c \<in> set (rules_of t hook)"
  by (auto simp: xt_step_def jump_def rules_of_def split: option.splits)

lemma live_asked: "live t hook c \<longleftrightarrow> t c \<noteq> None \<and> xt_step [''-C'', hook, ''-j'', c] t \<noteq> None \<and> xt_step [''-C'', c, ''-j'', ''DROP''] t \<noteq> None"
  unfolding asked by (cases "t c") (auto simp: live_def list_ex_iff rules_of_def)

lemma live_chain_watched:
  assumes ob: "obeys run view" and named: "[] \<notin> set cs" and r: "live_chain (watched run) b hook cs kh = (answer, kh')"
  shows "same_view view kh kh' \<and> (\<forall>c. answer = Some c \<longrightarrow>
     (if c = [] then \<not> filtered (view (fst kh) b) hook cs else c \<in> set cs \<and> live (view (fst kh) b) hook c))"
  using named r
proof (induction cs arbitrary: kh)
  case (Cons c cs)
  let ?run = "watched run"
  have probes: "is_probe [''-S'', c]" "is_probe [''-C'', hook, ''-j'', c]" "is_probe [''-C'', c, ''-j'', ''DROP'']"
    by (simp_all add: is_probe_def)
  obtain a1 k1 where r1: "probeIPTablesRule ?run b (withWait [''-S'', c]) kh = (a1, k1)" by (metis surj_pair)
  obtain a2 k2 where r2: "probeIPTablesRule ?run b (withWait [''-C'', hook, ''-j'', c]) k1 = (a2, k2)" by (metis surj_pair)
  obtain a3 k3 where r3: "probeIPTablesRule ?run b (withWait [''-C'', c, ''-j'', ''DROP'']) k2 = (a3, k3)" by (metis surj_pair)
  note p1 = probe_watched [OF ob probes(1) r1] and p2 = probe_watched [OF ob probes(2) r2] and p3 = probe_watched [OF ob probes(3) r3]
  have s1: "same_view view kh k1" and s2: "same_view view kh k2" and s3: "same_view view kh k3"
    using p1(1) p2(1) p3(1) same_view_trans by blast+
  have here: "view (fst k1) = view (fst kh)" "view (fst k2) = view (fst kh)"
    using s1 s2 by (simp_all add: same_view_def)
  have later: "?case" if "live_chain ?run b hook cs kx = (answer, kh')" and sv: "same_view view kh kx" and no: "\<not> live (view (fst kh) b) hook c" for kx
  proof -
    have "view (fst kx) = view (fst kh)" using sv by (simp add: same_view_def)
    then show ?thesis using Cons.IH [OF _ that(1)] Cons.prems(1) same_view_trans [OF sv] no by (auto simp: filtered_def)
  qed
  consider (stop) "answer = None" "kh' \<in> {k1, k2, k3}"
    | (gone) "a1 = Some False" "live_chain ?run b hook cs k1 = (answer, kh')"
    | (unhooked) "a2 = Some False" "live_chain ?run b hook cs k2 = (answer, kh')"
    | (undone) "a3 = Some False" "live_chain ?run b hook cs k3 = (answer, kh')"
    | (found) "a1 = Some True" "a2 = Some True" "a3 = Some True" "answer = Some c" "kh' = k3"
    using Cons.prems(2) r1 r2 r3 by (auto simp: iptablesChainExists_def split: option.splits bool.splits)
  then show ?case
  proof cases
    case stop
    then show ?thesis using s1 s2 s3 by auto
  next
    case gone
    then have "view (fst kh) b c = None" using p1(2) asked(1) [of c "view (fst kh) b"] by simp
    with gone show ?thesis by (intro later [OF _ s1]) (simp_all add: live_asked)
  next
    case unhooked
    then show ?thesis using p2(2) here by (intro later [OF _ s2]) (auto simp: live_asked)
  next
    case undone
    then show ?thesis using p3(2) here by (intro later [OF _ s3]) (auto simp: live_asked)
  next
    case found
    then have "live (view (fst kh) b) hook c" using p1(2) p2(2) p3(2) here asked(1) [of c "view (fst kh) b"] by (simp add: live_asked)
    with found s3 Cons.prems(1) show ?thesis by auto
  qed
qed (auto simp: same_view_refl filtered_def)

end
