(* ===== verification/Lock_Rebuild.thy ===== *)
theory Lock_Rebuild
  imports Lock_Kernel
begin

text \<open>The plans of the iptables fallback against the kernel: what each of their commands spares, so that a locked
  hook is never open while the chains are swapped; and what the hooks hold once a rebuild has succeeded.\<close>

section \<open>Which commands spare which chain\<close>

abbreviation "out4 \<equiv> {iptChainName, iptChainNameAlt}"
abbreviation "out6 \<equiv> {ipt6ChainName, ipt6ChainNameAlt}"
abbreviation "fwd4 \<equiv> {iptFwdChainName, iptFwdChainNameAlt}"
abbreviation "fwd6 \<equiv> {ipt6FwdChainName, ipt6FwdChainNameAlt}"

definition aims :: "string \<Rightarrow> string \<Rightarrow> string list \<Rightarrow> bool" where
  "aims hook c args = (case args of
        what # x # spec \<Rightarrow> x \<noteq> c \<and> (x = hook \<longrightarrow> what = ''-I'' \<or> (what = ''-D'' \<and> spec \<noteq> jump c))
      | _ \<Rightarrow> True)"

lemma spares_command [simp]:
  "spares b hook c (ipt4 p args) \<longleftrightarrow> b \<noteq> ''iptables'' \<or> aims hook c args"
  "spares b hook c (ipt4Optional args) \<longleftrightarrow> b \<noteq> ''iptables'' \<or> aims hook c args"
  "spares b hook c (ipt4Create p args) \<longleftrightarrow> b \<noteq> ''iptables'' \<or> aims hook c args"
  "spares b hook c (ipt6 p args) \<longleftrightarrow> b \<noteq> ''ip6tables'' \<or> aims hook c args"
  "spares b hook c (ipt6Optional args) \<longleftrightarrow> b \<noteq> ''ip6tables'' \<or> aims hook c args"
  "spares b hook c (ipt6Create p args) \<longleftrightarrow> b \<noteq> ''ip6tables'' \<or> aims hook c args"
  by (auto simp: spares_def aims_def command_defs withWait_def)

lemma aims_other: "x \<noteq> c \<Longrightarrow> x \<noteq> hook \<Longrightarrow> aims hook c (what # x # spec)"
  by (simp add: aims_def)

lemma aims_unhook: "hook \<noteq> c \<Longrightarrow> d \<noteq> c \<Longrightarrow> aims hook' c [''-D'', hook, ''-j'', d]"
  by (simp add: aims_def jump_def)

lemma aims_hookup: "hook \<noteq> c \<Longrightarrow> aims hook' c [''-I'', hook, n, j, d]"
  by (simp add: aims_def)

lemmas aim_rules = aims_other aims_unhook aims_hookup

text \<open>A plan for one pair of chains, in the family it is for: it works on the staging chain and its hook, then retires
  the other chain.\<close>

lemma retire_spares:
  "x \<noteq> c \<Longrightarrow> x \<noteq> hook \<Longrightarrow> hook' \<noteq> c \<Longrightarrow> list_all (spares b hook c) (retire4 hook' x)"
  "x \<noteq> c \<Longrightarrow> x \<noteq> hook \<Longrightarrow> hook' \<noteq> c \<Longrightarrow> list_all (spares b hook c) (retire6 hook' x)"
  by (simp_all add: retire4_def retire6_def aim_rules)

lemma drops_spare: "s \<noteq> c \<Longrightarrow> s \<noteq> hook \<Longrightarrow> list_all (spares b hook c) (iptablesResolverDrops s)"
  by (simp add: iptablesResolverDrops_def aim_rules)

lemma all_concat: "list_all P (concat xss) = list_all (list_all P) xss"
  by (induction xss) auto

lemmas all_simps = list_all_append list.pred_map comp_def all_concat list.pred_True aim_rules

lemma rules4_spare:
  "s \<noteq> c \<Longrightarrow> s \<noteq> hook \<Longrightarrow> list_all (spares b hook c) (output4_rules s r)"
  "s \<noteq> c \<Longrightarrow> s \<noteq> hook \<Longrightarrow> list_all (spares b hook c) (forward4_rules s r)"
  unfolding output4_rules_def forward4_rules_def Let_def by (simp_all add: all_simps drops_spare)

lemma chain_apart:
  "distinct [iptChainName, iptChainNameAlt, iptFwdChainName, iptFwdChainNameAlt, ''OUTPUT'', ''FORWARD'']"
  "distinct [ipt6ChainName, ipt6ChainNameAlt, ipt6FwdChainName, ipt6FwdChainNameAlt, ''OUTPUT'', ''FORWARD'']"
  by (simp_all add: chain_names)

lemma plan_spares:
  assumes "\<forall>x \<in> {s, p, a}. x \<noteq> c \<and> x \<noteq> hook" and "hook' \<noteq> c"
  shows "list_all (spares b hook c) (concat (map (retire4 hook') (filter (\<lambda>c. c \<noteq> s) [p, a])))"
    and "list_all (spares b hook c) (concat (map (retire6 hook') (filter (\<lambda>c. c \<noteq> s) [p, a])))"
  using assms by (auto simp: all_simps retire_spares)

lemma output4_spares:
  "\<forall>x \<in> {s, iptChainName, iptChainNameAlt}. x \<noteq> c \<and> x \<noteq> hook \<Longrightarrow> ''OUTPUT'' \<noteq> c \<Longrightarrow> list_all (spares b hook c) (output4_plan s r)"
  using plan_spares [of s iptChainName iptChainNameAlt c hook "''OUTPUT''" b]
  by (simp add: output4_plan_def all_simps rules4_spare retire_spares del: filter.simps list.map concat.simps)

lemma forward4_spares:
  "\<forall>x \<in> {s, iptFwdChainName, iptFwdChainNameAlt}. x \<noteq> c \<and> x \<noteq> hook \<Longrightarrow> ''FORWARD'' \<noteq> c \<Longrightarrow> list_all (spares b hook c) (forward4_plan s r)"
  using plan_spares [of s iptFwdChainName iptFwdChainNameAlt c hook "''FORWARD''" b]
  by (simp add: forward4_plan_def all_simps rules4_spare retire_spares del: filter.simps list.map concat.simps)

lemma output6_spares:
  "\<forall>x \<in> {s, ipt6ChainName, ipt6ChainNameAlt}. x \<noteq> c \<and> x \<noteq> hook \<Longrightarrow> ''OUTPUT'' \<noteq> c \<Longrightarrow> list_all (spares b hook c) (output6_plan s)"
  using plan_spares [of s ipt6ChainName ipt6ChainNameAlt c hook "''OUTPUT''" b]
  by (simp add: output6_plan_def all_simps retire_spares del: filter.simps list.map concat.simps)

lemma forward6_spares:
  "\<forall>x \<in> {s, ipt6FwdChainName, ipt6FwdChainNameAlt}. x \<noteq> c \<and> x \<noteq> hook \<Longrightarrow> ''FORWARD'' \<noteq> c \<Longrightarrow> list_all (spares b hook c) (forward6_plan s)"
  using plan_spares [of s ipt6FwdChainName ipt6FwdChainNameAlt c hook "''FORWARD''" b]
  by (simp add: forward6_plan_def all_simps retire_spares del: filter.simps list.map concat.simps)

section \<open>The four swaps\<close>

lemma other_binary:
  "list_all (spares ''ip6tables'' hook c) (output4_plan s r)" "list_all (spares ''ip6tables'' hook c) (forward4_plan s r)"
  "list_all (spares ''iptables'' hook c) (output6_plan s)" "list_all (spares ''iptables'' hook c) (forward6_plan s)"
  by (simp_all add: output4_plan_def forward4_plan_def output6_plan_def forward6_plan_def output4_rules_def forward4_rules_def
      all_simps Let_def retire4_def retire6_def iptablesResolverDrops_def)

lemma stale_spares:
  assumes "p \<noteq> hook" "a \<noteq> hook" "hook \<noteq> s"
  shows "list_all (spares b hook s) (concat (map (retire4 hook) (filter (\<lambda>c. c \<noteq> s) [p, a])))"
    and "list_all (spares b hook s) (concat (map (retire6 hook) (filter (\<lambda>c. c \<noteq> s) [p, a])))"
  using assms by (auto simp: all_simps retire_spares)

lemmas apart = chain_apart [unfolded distinct.simps list.set insert_iff empty_iff, simplified]

definition whole_plan :: "string \<Rightarrow> string \<Rightarrow> string \<Rightarrow> string \<Rightarrow> ksRules \<Rightarrow> iptablesCommand list" where
  "whole_plan s s6 f f6 r = iptablesApplyPlan s s6 r @ iptablesForwardPlan f f6 r"

lemma ipt_fields [simp]:
  "c_Binary (ipt4 p args) = ''iptables''" "c_Args (ipt4 p args) = withWait args" "\<not> c_BestEffort (ipt4 p args)" "\<not> c_TolerateExists (ipt4 p args)"
  "c_Binary (ipt6 p args) = ''ip6tables''" "c_Args (ipt6 p args) = withWait args" "\<not> c_BestEffort (ipt6 p args)" "\<not> c_TolerateExists (ipt6 p args)"
  by (simp_all add: command_defs)

lemma output4_swap:
  assumes ob: "obeys run view" and names: "s \<in> out4" "s6 \<in> out6" "f \<in> fwd4" "f6 \<in> fwd6" and old: "old \<in> out4" "old \<noteq> s"
    and inv: "watch_inv view ''iptables'' ''OUTPUT'' [iptChainName, iptChainNameAlt] old kh"
  shows "list_all (\<lambda>x. filtered (view x ''iptables'') ''OUTPUT'' [iptChainName, iptChainNameAlt])
      (snd (snd (run_plan (watched run) (whole_plan s s6 f f6 r) kh)))"
proof -
  let ?p1 = "output6_plan s6 @ retire4 ''OUTPUT'' s @ [ipt4Create ''create chain'' [''-N'', s]] @ output4_rules s r"
  let ?close = "ipt4 ''add drop rule'' [''-A'', s, ''-j'', ''DROP'']"
  let ?hookup = "ipt4 ''insert jump'' [''-I'', ''OUTPUT'', ''1'', ''-j'', s]"
  let ?stale = "concat (map (retire4 ''OUTPUT'') (filter (\<lambda>c. c \<noteq> s) [iptChainName, iptChainNameAlt]))"
  let ?p2 = "?stale @ forward6_plan f6 @ forward4_plan f r"
  have plan: "whole_plan s s6 f f6 r = ?p1 @ [?close, ?hookup] @ ?p2"
    unfolding whole_plan_def iptablesApplyPlan_def iptablesForwardPlan_def output4_plan_def by simp
  have n: "s \<noteq> ''OUTPUT''" "old \<noteq> ''OUTPUT''" "s \<noteq> ''FORWARD''" "old \<noteq> ''FORWARD''" using names(1) old(1) apart by auto
  have before: "list_all (spares ''iptables'' ''OUTPUT'' old) (?p1 @ [?close, ?hookup])"
    unfolding list_all_append using n old names apart
    by (intro conjI other_binary rules4_spare retire_spares forward4_spares) (auto simp: aim_rules)
  have after: "list_all (spares ''iptables'' ''OUTPUT'' s) ?p2"
    unfolding list_all_append using n names apart
    by (intro conjI stale_spares other_binary forward4_spares) auto
  show ?thesis unfolding plan
    by (rule swap_watched [OF ob _ _ _ _ _ before after _ _ _ _ _ _ _ _ inv]) (use n old names in auto)
qed

lemma output6_swap:
  assumes ob: "obeys run view" and names: "s \<in> out4" "s6 \<in> out6" "f \<in> fwd4" "f6 \<in> fwd6" and old: "old \<in> out6" "old \<noteq> s6"
    and inv: "watch_inv view ''ip6tables'' ''OUTPUT'' [ipt6ChainName, ipt6ChainNameAlt] old kh"
  shows "list_all (\<lambda>x. filtered (view x ''ip6tables'') ''OUTPUT'' [ipt6ChainName, ipt6ChainNameAlt])
      (snd (snd (run_plan (watched run) (whole_plan s s6 f f6 r) kh)))"
proof -
  let ?p1 = "retire6 ''OUTPUT'' s6 @ [ipt6Create ''create IPv6 chain'' [''-N'', s6], ipt6 ''allow IPv6 loopback'' [''-A'', s6, ''-o'', ''lo'', ''-j'', ''ACCEPT'']]"
  let ?close = "ipt6 ''add IPv6 drop rule'' [''-A'', s6, ''-j'', ''DROP'']"
  let ?hookup = "ipt6 ''insert IPv6 jump'' [''-I'', ''OUTPUT'', ''1'', ''-j'', s6]"
  let ?stale = "concat (map (retire6 ''OUTPUT'') (filter (\<lambda>c. c \<noteq> s6) [ipt6ChainName, ipt6ChainNameAlt]))"
  let ?p2 = "?stale @ output4_plan s r @ forward6_plan f6 @ forward4_plan f r"
  have plan: "whole_plan s s6 f f6 r = ?p1 @ [?close, ?hookup] @ ?p2"
    unfolding whole_plan_def iptablesApplyPlan_def iptablesForwardPlan_def output6_plan_def by simp
  have n: "s6 \<noteq> ''OUTPUT''" "old \<noteq> ''OUTPUT''" "s6 \<noteq> ''FORWARD''" "old \<noteq> ''FORWARD''" using names(2) old(1) apart by auto
  have before: "list_all (spares ''ip6tables'' ''OUTPUT'' old) (?p1 @ [?close, ?hookup])"
    unfolding list_all_append using n old names apart
    by (intro conjI other_binary rules4_spare retire_spares forward6_spares) (auto simp: aim_rules)
  have after: "list_all (spares ''ip6tables'' ''OUTPUT'' s6) ?p2"
    unfolding list_all_append using n names apart
    by (intro conjI stale_spares other_binary forward6_spares) auto
  show ?thesis unfolding plan
    by (rule swap_watched [OF ob _ _ _ _ _ before after _ _ _ _ _ _ _ _ inv]) (use n old names in auto)
qed

lemma forward6_swap:
  assumes ob: "obeys run view" and names: "s \<in> out4" "s6 \<in> out6" "f \<in> fwd4" "f6 \<in> fwd6" and old: "old \<in> fwd6" "old \<noteq> f6"
    and inv: "watch_inv view ''ip6tables'' ''FORWARD'' [ipt6FwdChainName, ipt6FwdChainNameAlt] old kh"
  shows "list_all (\<lambda>x. filtered (view x ''ip6tables'') ''FORWARD'' [ipt6FwdChainName, ipt6FwdChainNameAlt])
      (snd (snd (run_plan (watched run) (whole_plan s s6 f f6 r) kh)))"
proof -
  let ?p1 = "output6_plan s6 @ output4_plan s r @ retire6 ''FORWARD'' f6 @ [ipt6Create ''create IPv6 forward chain'' [''-N'', f6], ipt6Optional [''-A'', f6, ''-m'', ''physdev'', ''--physdev-is-bridged'', ''-j'', ''ACCEPT'']]"
  let ?close = "ipt6 ''add IPv6 forward drop rule'' [''-A'', f6, ''-j'', ''DROP'']"
  let ?hookup = "ipt6 ''insert IPv6 forward jump'' [''-I'', ''FORWARD'', ''1'', ''-j'', f6]"
  let ?stale = "concat (map (retire6 ''FORWARD'') (filter (\<lambda>c. c \<noteq> f6) [ipt6FwdChainName, ipt6FwdChainNameAlt]))"
  let ?p2 = "?stale @ forward4_plan f r"
  have plan: "whole_plan s s6 f f6 r = ?p1 @ [?close, ?hookup] @ ?p2"
    unfolding whole_plan_def iptablesApplyPlan_def iptablesForwardPlan_def forward6_plan_def by simp
  have n: "f6 \<noteq> ''OUTPUT''" "old \<noteq> ''OUTPUT''" "f6 \<noteq> ''FORWARD''" "old \<noteq> ''FORWARD''" using names(4) old(1) apart by auto
  have before: "list_all (spares ''ip6tables'' ''FORWARD'' old) (?p1 @ [?close, ?hookup])"
    unfolding list_all_append using n old names apart
    by (intro conjI other_binary rules4_spare retire_spares output6_spares) (auto simp: aim_rules)
  have after: "list_all (spares ''ip6tables'' ''FORWARD'' f6) ?p2"
    unfolding list_all_append using n names apart
    by (intro conjI stale_spares other_binary output6_spares) auto
  show ?thesis unfolding plan
    by (rule swap_watched [OF ob _ _ _ _ _ before after _ _ _ _ _ _ _ _ inv]) (use n old names in auto)
qed

lemma forward4_swap:
  assumes ob: "obeys run view" and names: "s \<in> out4" "s6 \<in> out6" "f \<in> fwd4" "f6 \<in> fwd6" and old: "old \<in> fwd4" "old \<noteq> f"
    and inv: "watch_inv view ''iptables'' ''FORWARD'' [iptFwdChainName, iptFwdChainNameAlt] old kh"
  shows "list_all (\<lambda>x. filtered (view x ''iptables'') ''FORWARD'' [iptFwdChainName, iptFwdChainNameAlt])
      (snd (snd (run_plan (watched run) (whole_plan s s6 f f6 r) kh)))"
proof -
  let ?p1 = "output6_plan s6 @ output4_plan s r @ forward6_plan f6 @ retire4 ''FORWARD'' f @ [ipt4Create ''create forward chain'' [''-N'', f]] @ forward4_rules f r"
  let ?close = "ipt4 ''add forward drop rule'' [''-A'', f, ''-j'', ''DROP'']"
  let ?hookup = "ipt4 ''insert forward jump'' [''-I'', ''FORWARD'', ''1'', ''-j'', f]"
  let ?stale = "concat (map (retire4 ''FORWARD'') (filter (\<lambda>c. c \<noteq> f) [iptFwdChainName, iptFwdChainNameAlt]))"
  let ?p2 = "?stale"
  have plan: "whole_plan s s6 f f6 r = ?p1 @ [?close, ?hookup] @ ?p2"
    unfolding whole_plan_def iptablesApplyPlan_def iptablesForwardPlan_def forward4_plan_def by simp
  have n: "f \<noteq> ''OUTPUT''" "old \<noteq> ''OUTPUT''" "f \<noteq> ''FORWARD''" "old \<noteq> ''FORWARD''" using names(3) old(1) apart by auto
  have before: "list_all (spares ''iptables'' ''FORWARD'' old) (?p1 @ [?close, ?hookup])"
    unfolding list_all_append using n old names apart
    by (intro conjI other_binary rules4_spare retire_spares output4_spares) (auto simp: aim_rules)
  have after: "list_all (spares ''iptables'' ''FORWARD'' f) ?p2"
    unfolding list_all_append using n names apart
    by (intro conjI stale_spares other_binary output4_spares) auto
  show ?thesis unfolding plan
    by (rule swap_watched [OF ob _ _ _ _ _ before after _ _ _ _ _ _ _ _ inv]) (use n old names in auto)
qed

section \<open>A locked host stays locked\<close>

lemma chains_named: "iptChainName \<noteq> []" "iptChainNameAlt \<noteq> []" "ipt6ChainName \<noteq> []" "ipt6ChainNameAlt \<noteq> []"
  "iptFwdChainName \<noteq> []" "iptFwdChainNameAlt \<noteq> []" "ipt6FwdChainName \<noteq> []" "ipt6FwdChainNameAlt \<noteq> []"
  by (simp_all add: chain_names)

lemma liveIPTablesChain_watched:
  assumes "obeys run view" and "p \<noteq> []" "a \<noteq> []" and "same_view view k0 kh"
    and "liveIPTablesChain (watched run) b hook p a kh = (answer, kh')"
  shows "same_view view k0 kh'"
    and "answer = Some c \<Longrightarrow> filtered (view (fst k0) b) hook [p, a] \<Longrightarrow> c \<in> {p, a} \<and> live (view (fst k0) b) hook c"
proof -
  have eq: "view (fst kh) = view (fst k0)" using assms(4) by (simp add: same_view_def)
  have l: "same_view view kh kh' \<and> (\<forall>c. answer = Some c \<longrightarrow>
     (if c = [] then \<not> filtered (view (fst kh) b) hook [p, a] else c \<in> set [p, a] \<and> live (view (fst kh) b) hook c))"
    using assms(2,3,5) by (intro live_chain_watched [OF assms(1)]) (auto simp: liveIPTablesChain_def)
  then show "same_view view k0 kh'" using same_view_trans [OF assms(4)] by blast
  show "answer = Some c \<Longrightarrow> filtered (view (fst k0) b) hook [p, a] \<Longrightarrow> c \<in> {p, a} \<and> live (view (fst k0) b) hook c"
    using l unfolding eq by (auto split: if_splits)
qed

lemma visited_same:
  assumes "same_view view (k, []) kh" and "filtered (view k b) hook cs"
  shows "list_all (\<lambda>s. filtered (view s b) hook cs) (snd kh)"
    and "live (view k b) hook c \<Longrightarrow> watch_inv view b hook cs c kh"
  using assms by (auto simp: same_view_def watch_inv_def list_all_iff)

lemma staging_names:
  "iptablesStagingChain c \<in> out4" "iptables6StagingChain c \<in> out6"
  "iptablesForwardStagingChain c \<in> fwd4" "iptables6ForwardStagingChain c \<in> fwd6"
  by (auto simp: iptablesStagingChain_def iptables6StagingChain_def iptablesForwardStagingChain_def iptables6ForwardStagingChain_def)

lemma staging_other:
  "iptablesStagingChain c \<noteq> c" "iptables6StagingChain c \<noteq> c" "iptablesForwardStagingChain c \<noteq> c" "iptables6ForwardStagingChain c \<noteq> c"
  using apart by (auto simp: iptablesStagingChain_def iptables6StagingChain_def iptablesForwardStagingChain_def iptables6ForwardStagingChain_def)

text \<open>C7: Rebuilding the fallback lock never opens a locked host.  Whichever of the commands fail, are killed or are
  refused, in each of the four hooks that was locked when the rebuild began, every state the kernel goes through
  still has one of the lock's two chains hooked and dropping.\<close>

theorem rebuild_never_unlocks:
  assumes ob: "obeys run view" and fam: "(b, hook, cs) \<in> set lock_families" and locked: "filtered (view k b) hook cs"
  shows "list_all (\<lambda>s. filtered (view s b) hook cs) (snd (snd (applyIPTablesRules (watched run) r (k, []))))"
proof -
  let ?run = "watched run"
  obtain a1 k1 where r1: "liveIPTablesChain ?run ''iptables'' ''OUTPUT'' iptChainName iptChainNameAlt (k, []) = (a1, k1)" by (metis surj_pair)
  obtain a2 k2 where r2: "liveIPTablesChain ?run ''ip6tables'' ''OUTPUT'' ipt6ChainName ipt6ChainNameAlt k1 = (a2, k2)" by (metis surj_pair)
  obtain a3 k3 where r3: "liveIPTablesChain ?run ''iptables'' ''FORWARD'' iptFwdChainName iptFwdChainNameAlt k2 = (a3, k3)" by (metis surj_pair)
  obtain a4 k4 where r4: "liveIPTablesChain ?run ''ip6tables'' ''FORWARD'' ipt6FwdChainName ipt6FwdChainNameAlt k3 = (a4, k4)" by (metis surj_pair)
  note l1 = liveIPTablesChain_watched [OF ob chains_named(1,2) same_view_refl r1]
  note l2 = liveIPTablesChain_watched [OF ob chains_named(3,4) l1(1) r2]
  note l3 = liveIPTablesChain_watched [OF ob chains_named(5,6) l2(1) r3]
  note l4 = liveIPTablesChain_watched [OF ob chains_named(7,8) l3(1) r4]
  show ?thesis
  proof (cases "a1 = None \<or> a2 = None \<or> a3 = None \<or> a4 = None")
    case True
    then have "snd (applyIPTablesRules ?run r (k, [])) \<in> {k1, k2, k3, k4}"
      using r1 r2 r3 r4 by (auto simp: applyIPTablesRules_def split: option.splits)
    then show ?thesis
      using visited_same(1) [OF l1(1) locked] visited_same(1) [OF l2(1) locked] visited_same(1) [OF l3(1) locked]
        visited_same(1) [OF l4(1) locked] by auto
  next
    case False
    then obtain c1 c2 c3 c4 where c: "a1 = Some c1" "a2 = Some c2" "a3 = Some c3" "a4 = Some c4" by auto
    let ?s = "iptablesStagingChain c1" and ?s6 = "iptables6StagingChain c2"
    let ?f = "iptablesForwardStagingChain c3" and ?f6 = "iptables6ForwardStagingChain c4"
    have whole: "applyIPTablesRules ?run r (k, []) = run_plan ?run (whole_plan ?s ?s6 ?f ?f6 r) k4"
      using r1 r2 r3 r4 c by (simp add: applyIPTablesRules_def whole_plan_def)
    note names = staging_names(1) [of c1] staging_names(2) [of c2] staging_names(3) [of c3] staging_names(4) [of c4]
    note begun = visited_same(2) [OF l4(1) locked]
    consider "(b, hook, cs) = (''iptables'', ''OUTPUT'', [iptChainName, iptChainNameAlt])"
      | "(b, hook, cs) = (''ip6tables'', ''OUTPUT'', [ipt6ChainName, ipt6ChainNameAlt])"
      | "(b, hook, cs) = (''iptables'', ''FORWARD'', [iptFwdChainName, iptFwdChainNameAlt])"
      | "(b, hook, cs) = (''ip6tables'', ''FORWARD'', [ipt6FwdChainName, ipt6FwdChainNameAlt])"
      using fam by (auto simp: lock_families_def)
    then show ?thesis
    proof cases
      case 1
      then show ?thesis using output4_swap [OF ob names, of c1 k4] l1(2) [OF c(1)] locked begun whole staging_other(1) [of c1] by auto
    next
      case 2
      then show ?thesis using output6_swap [OF ob names, of c2 k4] l2(2) [OF c(2)] locked begun whole staging_other(2) [of c2] by auto
    next
      case 3
      then show ?thesis using forward4_swap [OF ob names, of c3 k4] l3(2) [OF c(3)] locked begun whole staging_other(3) [of c3] by auto
    next
      case 4
      then show ?thesis using forward6_swap [OF ob names, of c4 k4] l4(2) [OF c(4)] locked begun whole staging_other(4) [of c4] by auto
    qed
  qed
qed

end
