(* ===== verification/Lock_Policy.thy ===== *)
theory Lock_Policy
  imports Lock_Rebuild
begin

text \<open>What the iptables fallback lets out once a rebuild has succeeded: the chains hold exactly the rules of the
  plan, and walking them decides every packet of the host the way the lock's policy, and so the nftables table, does.\<close>

section \<open>How a chain decides\<close>

text \<open>The matches of a rule as they are written, up to its target.  An interface name ending in + stands for all names
  it begins.\<close>

definition iface_match :: "string \<Rightarrow> string \<Rightarrow> bool" where
  "iface_match i name = (if i \<noteq> [] \<and> last i = CHR ''+'' then has_prefix name (butlast i) else name = i)"

fun spec_holds :: "string list \<Rightarrow> lock_packet \<Rightarrow> bool" where
  "spec_holds [] p = True"
| "spec_holds [flag] p = (flag = ''--physdev-is-bridged'' \<and> lp_bridged p)"
| "spec_holds (flag # v # rest) p =
    (if flag = ''--physdev-is-bridged'' then lp_bridged p \<and> spec_holds (v # rest) p
     else if flag = ''-j'' \<or> flag = ''-m'' then spec_holds rest p
     else if flag = ''-o'' then iface_match v (lp_out p) \<and> spec_holds rest p
     else if flag = ''-i'' then iface_match v (lp_in p) \<and> spec_holds rest p
     else if flag = ''-d'' then addr_text_match v (lp_dst p) \<and> spec_holds rest p
     else if flag = ''-s'' then addr_text_match v (lp_src p) \<and> spec_holds rest p
     else if flag = ''-p'' then l4_text (lp_l4 p) = v \<and> spec_holds rest p
     else if flag = ''--sport'' then parse_dec v = Some (int (lp_sport p)) \<and> spec_holds rest p
     else if flag = ''--dport'' then parse_dec v = Some (int (lp_dport p)) \<and> spec_holds rest p
     else if flag = ''--mark'' then mark_value v = lp_mark p \<and> spec_holds rest p
     else if flag = ''--ctdir'' then (v = ''REPLY'') = lp_reply p \<and> spec_holds rest p
     else False)"

text \<open>The first rule that matches and decides; a rule that jumps runs the chain it names first.  None is the end of
  the chain.\<close>

fun walk :: "nat \<Rightarrow> xt_tables \<Rightarrow> string list list \<Rightarrow> lock_packet \<Rightarrow> bool option" where
  "walk n t [] p = None"
| "walk n t (spec # specs) p =
    (if \<not> spec_holds spec p then walk n t specs p
     else if last spec = ''ACCEPT'' then Some True
     else if last spec = ''DROP'' then Some False
     else (case n of 0 \<Rightarrow> walk n t specs p
           | Suc m \<Rightarrow> (case walk m t (rules_of t (last spec)) p of Some v \<Rightarrow> Some v | None \<Rightarrow> walk n t specs p)))"

text \<open>The policy of the built-in chain stands at its end.\<close>

definition lets_out :: "(string \<Rightarrow> xt_tables) \<Rightarrow> lock_packet \<Rightarrow> bool" where
  "lets_out V p = (let t = V (if is4 (lp_dst p) then ''iptables'' else ''ip6tables'') in
     case walk 1 t (rules_of t ''OUTPUT'') p of Some v \<Rightarrow> v | None \<Rightarrow> True)"

section \<open>What a successful plan leaves\<close>

text \<open>Emptying a chain that is there does not fail.\<close>

definition flushes :: "'k ipt_run \<Rightarrow> ('k \<Rightarrow> string \<Rightarrow> xt_tables) \<Rightarrow> bool" where
  "flushes run view \<longleftrightarrow> (\<forall>b c k. fst (run b (withWait [''-F'', c]) k) = Ran \<or> view k b c = None)"

definition appends :: "string \<Rightarrow> string \<Rightarrow> iptablesCommand \<Rightarrow> bool" where
  "appends b s cmd \<longleftrightarrow> c_Binary cmd = b \<and> (\<exists>spec. c_Args cmd = withWait (''-A'' # s # spec)) \<and> \<not> c_BestEffort cmd \<and> \<not> c_TolerateExists cmd"

definition specs_of :: "iptablesCommand list \<Rightarrow> string list list" where
  "specs_of cmds = map (\<lambda>cmd. drop 4 (c_Args cmd)) cmds"

lemma specs_of_append [simp]: "specs_of (xs @ ys) = specs_of xs @ specs_of ys"
  by (simp add: specs_of_def)

lemma run_appends:
  assumes ob: "obeys run view"
  shows "list_all (appends b s) cmds \<Longrightarrow> run_plan run cmds k = (None, k') \<Longrightarrow>
    rules_of (view k' b) s = rules_of (view k b) s @ specs_of cmds"
proof (induction cmds arbitrary: k)
  case (Cons cmd cmds)
  obtain spec where c: "c_Binary cmd = b" "c_Args cmd = withWait (''-A'' # s # spec)" "\<not> c_BestEffort cmd" "\<not> c_TolerateExists cmd"
    using Cons.prems(1) by (auto simp: appends_def)
  obtain res k1 where r: "run b (withWait (''-A'' # s # spec)) k = (res, k1)" by (metis surj_pair)
  then have "res = Ran" "run_plan run cmds k1 = (None, k')" using Cons.prems(2) c by (auto split: ipt_outcome.splits)
  then have "rules_of (view k' b) s = rules_of (view k1 b) s @ specs_of cmds" using Cons by simp
  moreover have "rules_of (view k1 b) s = rules_of (view k b) s @ [spec]"
    using obeys_moves(3) [OF ob r \<open>res = Ran\<close>] by (simp add: step_append)
  ultimately show ?case using c by (simp add: specs_of_def withWait_def)
qed (simp add: specs_of_def)

text \<open>A chain that the commands do not name keeps its rules, and the hook its first one.\<close>

definition calm :: "string \<Rightarrow> string \<Rightarrow> string \<Rightarrow> iptablesCommand \<Rightarrow> bool" where
  "calm b hook s cmd \<longleftrightarrow> spares b hook s cmd \<and> (c_Binary cmd = b \<longrightarrow> take 2 (drop 2 (c_Args cmd)) \<noteq> [''-I'', hook])"

definition settled :: "xt_tables \<Rightarrow> string \<Rightarrow> string \<Rightarrow> string list list \<Rightarrow> bool" where
  "settled t hook s rs \<longleftrightarrow> rules_of t s = rs \<and> rules_of t hook \<noteq> [] \<and> hd (rules_of t hook) = jump s"

lemma step_settled:
  assumes "xt_step (what # x # spec) t = Some t'" and "settled t hook s rs" and "x \<noteq> s"
    and "x = hook \<longrightarrow> what = ''-D'' \<and> spec \<noteq> jump s"
  shows "settled t' hook s rs"
proof (cases "x = hook")
  case True
  then obtain rs0 where "t hook = Some rs0" "t' = t(hook \<mapsto> remove1 spec rs0)"
    using assms(1,4) by (auto simp: xt_step_def split: option.splits if_splits)
  with True assms(2-4) show ?thesis by (cases rs0) (auto simp: settled_def rules_of_def)
next
  case False
  then have "rules_of t' s = rules_of t s \<and> rules_of t' hook = rules_of t hook"
    using assms(1,3) by (auto simp: xt_step_def split: option.splits if_splits)
  with assms(2) show ?thesis by (simp add: settled_def)
qed

lemma calm_settled:
  assumes ob: "obeys run view" and calm: "list_all (calm b hook s) plan" and "settled (view k b) hook s rs"
  shows "settled (view (snd (run_plan run plan k)) b) hook s rs"
  using assms(2,3)
proof (induction plan arbitrary: k)
  case (Cons cmd plan)
  define args where "args = drop 2 (c_Args cmd)"
  have "c_Args cmd = take 2 (c_Args cmd) @ args" unfolding args_def by (rule append_take_drop_id [symmetric])
  then have args: "c_Args cmd = withWait args" using Cons.prems(1) by (simp add: calm_def spares_def withWait_def)
  obtain res k1 where r: "run (c_Binary cmd) (withWait args) k = (res, k1)" by (metis surj_pair)
  have "settled (view k1 b) hook s rs"
  proof (cases "c_Binary cmd = b")
    case False
    then show ?thesis using obeys_moves(2) [OF ob r, of b] Cons.prems(2) by simp
  next
    case True
    from obeys_moves(1) [OF ob r] show ?thesis
    proof
      assume step: "xt_step args (view k (c_Binary cmd)) = Some (view k1 (c_Binary cmd))"
      moreover obtain what x spec where a: "args = what # x # spec"
        using step by (auto simp: xt_step_def split: list.splits)
      ultimately show ?thesis
        using step_settled [of what x spec "view k b" "view k1 b" hook s rs] Cons.prems True
        by (auto simp: calm_def spares_def args withWait_def)
    qed (use True Cons.prems(2) in simp)
  qed
  with Cons r args show ?case by (auto split: ipt_outcome.splits)
qed simp

lemma plan_step:
  "run_plan run (cmd # cmds) k = (None, k') \<Longrightarrow>
     \<exists>res k1. run (c_Binary cmd) (c_Args cmd) k = (res, k1) \<and> run_plan run cmds k1 = (None, k')"
  by (auto split: prod.splits ipt_outcome.splits if_splits)

lemma step_flush: "xt_step [''-F'', s] t = Some t' \<Longrightarrow> rules_of t' s = []"
  by (auto simp: xt_step_def rules_of_def split: option.splits)

lemma step_keeps_empty:
  "xt_step (what # s # spec) t = Some t' \<Longrightarrow> what \<in> {''-X'', ''-N''} \<Longrightarrow> rules_of t s = [] \<Longrightarrow> rules_of t' s = []"
  by (auto simp: xt_step_def rules_of_def split: option.splits if_splits)

lemma step_empty:
  assumes ob: "obeys run view" and r: "run b (withWait (what # s # spec)) k = (res, k1)" and "what \<in> {''-X'', ''-N''}"
    and "rules_of (view k b) s = []"
  shows "rules_of (view k1 b) s = []"
  using obeys_moves(1) [OF ob r] assms(3,4) by (auto dest: step_keeps_empty)

lemma clear_chain:
  assumes ob: "obeys run view" and fl: "flushes run view"
    and b: "c_Binary c1 = b" "c_Binary c2 = b" "c_Binary c3 = b" "c_Binary c4 = b"
    and args: "c_Args c2 = withWait [''-F'', s]" "c_Args c3 = withWait [''-X'', s]" "c_Args c4 = withWait [''-N'', s]"
    and r: "run_plan run [c1, c2, c3, c4] k = (None, k')"
  shows "rules_of (view k' b) s = []"
proof -
  obtain k1 where r1: "run_plan run [c2, c3, c4] k1 = (None, k')" using plan_step [OF r] by blast
  obtain res2 k2 where r2: "run b (withWait [''-F'', s]) k1 = (res2, k2)" "run_plan run [c3, c4] k2 = (None, k')"
    using plan_step [OF r1] b args by auto
  obtain res3 k3 where r3: "run b (withWait [''-X'', s]) k2 = (res3, k3)" "run_plan run [c4] k3 = (None, k')"
    using plan_step [OF r2(2)] b args by auto
  obtain res4 where r4: "run b (withWait [''-N'', s]) k3 = (res4, k')"
    using plan_step [OF r3(2)] b args by auto
  have e2: "rules_of (view k2 b) s = []"
  proof (cases "res2 = Ran")
    case True
    then show ?thesis using obeys_moves(3) [OF ob r2(1)] step_flush by blast
  next
    case False
    then have "view k1 b s = None" using fl r2(1) unfolding flushes_def by (metis fst_conv)
    then show ?thesis using obeys_moves(1) [OF ob r2(1)] by (auto simp: xt_step_def rules_of_def)
  qed
  show ?thesis using step_empty [OF ob r4 _ step_empty [OF ob r3(1) _ e2]] by simp
qed

text \<open>Clearing, building, closing and hooking up the staging chain: its rules are the ones of the plan and the hook goes
  to it first, whatever comes after.\<close>

lemma installed:
  assumes ob: "obeys run view" and fl: "flushes run view" and ne: "hook \<noteq> s"
    and b: "c_Binary c1 = b" "c_Binary c2 = b" "c_Binary c3 = b" "c_Binary c4 = b"
    and args: "c_Args c2 = withWait [''-F'', s]" "c_Args c3 = withWait [''-X'', s]" "c_Args c4 = withWait [''-N'', s]"
    and build: "list_all (appends b s) (build @ [close])"
    and hookup: "c_Binary hookup = b" "c_Args hookup = withWait [''-I'', hook, ''1'', ''-j'', s]" "\<not> c_BestEffort hookup" "\<not> c_TolerateExists hookup"
    and after: "list_all (calm b hook s) p2"
    and r: "run_plan run (p1 @ [c1, c2, c3, c4] @ (build @ [close]) @ [hookup] @ p2) k = (None, k')"
  shows "settled (view k' b) hook s (specs_of (build @ [close]))"
proof -
  obtain k1 where r1: "run_plan run ([c1, c2, c3, c4] @ (build @ [close]) @ [hookup] @ p2) k1 = (None, k')"
    using r by (subst (asm) run_plan_append) (auto split: prod.splits option.splits)
  obtain k2 where k2: "run_plan run [c1, c2, c3, c4] k1 = (None, k2)" and r2: "run_plan run ((build @ [close]) @ [hookup] @ p2) k2 = (None, k')"
    using r1 by (subst (asm) run_plan_append) (auto split: prod.splits option.splits)
  obtain k3 where k3: "run_plan run (build @ [close]) k2 = (None, k3)" and r3: "run_plan run ([hookup] @ p2) k3 = (None, k')"
    using r2 by (subst (asm) run_plan_append) (auto split: prod.splits option.splits)
  obtain k4 where k4: "run b (withWait [''-I'', hook, ''1'', ''-j'', s]) k3 = (Ran, k4)" and r4: "run_plan run p2 k4 = (None, k')"
    using r3 hookup by (auto split: prod.splits ipt_outcome.splits)
  have "rules_of (view k3 b) s = specs_of (build @ [close])"
    using run_appends [OF ob build k3] clear_chain [OF ob fl b args k2] by simp
  then have "settled (view k4 b) hook s (specs_of (build @ [close]))"
    using obeys_moves(3) [OF ob k4 refl] ne by (simp add: settled_def step_insert jump_def)
  then show ?thesis using calm_settled [OF ob after, of k4] r4 by simp
qed

section \<open>Calm commands\<close>

lemma calm_command [simp]:
  "calm b hook s (ipt4 p args) \<longleftrightarrow> b \<noteq> ''iptables'' \<or> (aims hook s args \<and> take 2 args \<noteq> [''-I'', hook])"
  "calm b hook s (ipt4Optional args) \<longleftrightarrow> b \<noteq> ''iptables'' \<or> (aims hook s args \<and> take 2 args \<noteq> [''-I'', hook])"
  "calm b hook s (ipt4Create p args) \<longleftrightarrow> b \<noteq> ''iptables'' \<or> (aims hook s args \<and> take 2 args \<noteq> [''-I'', hook])"
  "calm b hook s (ipt6 p args) \<longleftrightarrow> b \<noteq> ''ip6tables'' \<or> (aims hook s args \<and> take 2 args \<noteq> [''-I'', hook])"
  "calm b hook s (ipt6Optional args) \<longleftrightarrow> b \<noteq> ''ip6tables'' \<or> (aims hook s args \<and> take 2 args \<noteq> [''-I'', hook])"
  "calm b hook s (ipt6Create p args) \<longleftrightarrow> b \<noteq> ''ip6tables'' \<or> (aims hook s args \<and> take 2 args \<noteq> [''-I'', hook])"
  by (auto simp: calm_def command_defs withWait_def spares_def aims_def)

text \<open>A plan for another hook inserts nothing into this one.\<close>

lemma calm_of_spares:
  "list_all (spares b hook s) cmds \<Longrightarrow> list_all (\<lambda>cmd. take 2 (drop 2 (c_Args cmd)) \<noteq> [''-I'', hook]) cmds \<Longrightarrow> list_all (calm b hook s) cmds"
  by (auto simp: list_all_iff calm_def)

lemma stale_calm:
  assumes "p \<noteq> hook" "a \<noteq> hook" "hook \<noteq> s"
  shows "list_all (calm b hook s) (concat (map (retire4 hook) (filter (\<lambda>c. c \<noteq> s) [p, a])))"
    and "list_all (calm b hook s) (concat (map (retire6 hook) (filter (\<lambda>c. c \<noteq> s) [p, a])))"
  using assms by (auto simp: all_simps retire4_def retire6_def)

lemma other_binary_calm:
  "list_all (calm ''ip6tables'' hook c) (output4_plan s r)" "list_all (calm ''ip6tables'' hook c) (forward4_plan s r)"
  "list_all (calm ''iptables'' hook c) (output6_plan s)" "list_all (calm ''iptables'' hook c) (forward6_plan s)"
  by (simp_all add: output4_plan_def forward4_plan_def output6_plan_def forward6_plan_def output4_rules_def forward4_rules_def
      all_simps Let_def retire4_def retire6_def iptablesResolverDrops_def)

lemma forward4_calm:
  assumes "s \<in> out4" and "f \<in> fwd4"
  shows "list_all (calm ''iptables'' ''OUTPUT'' s) (forward4_plan f r)"
proof (rule calm_of_spares)
  show "list_all (spares ''iptables'' ''OUTPUT'' s) (forward4_plan f r)"
    using assms apart by (intro forward4_spares) auto
  show "list_all (\<lambda>cmd. take 2 (drop 2 (c_Args cmd)) \<noteq> [''-I'', ''OUTPUT'']) (forward4_plan f r)"
    by (simp add: forward4_plan_def forward4_rules_def all_simps Let_def retire4_def iptablesResolverDrops_def command_defs withWait_def)
qed

lemma forward6_calm:
  assumes "s6 \<in> out6" and "f6 \<in> fwd6"
  shows "list_all (calm ''ip6tables'' ''OUTPUT'' s6) (forward6_plan f6)"
proof (rule calm_of_spares)
  show "list_all (spares ''ip6tables'' ''OUTPUT'' s6) (forward6_plan f6)"
    using assms apart by (intro forward6_spares) auto
  show "list_all (\<lambda>cmd. take 2 (drop 2 (c_Args cmd)) \<noteq> [''-I'', ''OUTPUT'']) (forward6_plan f6)"
    by (simp add: forward6_plan_def all_simps retire6_def command_defs withWait_def)
qed

section \<open>The decisions of the built chains\<close>

lemma walk_accepts:
  assumes "\<And>x. last (f x) = ''ACCEPT''"
  shows "walk n t (map f xs @ rest) p = (if list_ex (\<lambda>x. spec_holds (f x) p) xs then Some True else walk n t rest p)"
  using assms by (induction xs) auto

lemma walk_if: "walk n t ((if b then xs else []) @ rest) p = (if b then walk n t (xs @ rest) p else walk n t rest p)"
  by simp

lemma port_text: "parse_dec ''53'' = Some 53" "parse_dec ''853'' = Some 853" "parse_dec ''68'' = Some 68" "parse_dec ''67'' = Some 67"
  by code_simp+

lemma proto_text: "l4_text l = ''udp'' \<longleftrightarrow> l = UDP" "l4_text l = ''tcp'' \<longleftrightarrow> l = TCP"
  by (cases l; simp)+

lemma walk_drops:
  "walk n t (specs_of (iptablesResolverDrops s) @ rest) p = (if to_resolver p then Some False else walk n t rest p)"
  by (auto simp: iptablesResolverDrops_def specs_of_def command_defs withWait_def port_text proto_text to_resolver_def)

lemma specs_simps:
  "specs_of [] = []" "specs_of (cmd # cmds) = drop 4 (c_Args cmd) # specs_of cmds"
  "specs_of (map g xs) = map (\<lambda>x. drop 4 (c_Args (g x))) xs"
  "specs_of (if b then cmds else []) = (if b then specs_of cmds else [])"
  by (auto simp: specs_of_def)

lemma output4_specs:
  "specs_of (output4_rules s r @ [ipt4 q [''-A'', s, ''-j'', ''DROP'']]) =
    (let cidrs = renderableSplitCIDRs (sp_CIDRs (r_Split r)) in
     [[''-o'', ''lo'', ''-j'', ''ACCEPT''], [''-p'', ''udp'', ''--sport'', ''68'', ''--dport'', ''67'', ''-d'', ''255.255.255.255'', ''-j'', ''ACCEPT'']]
     @ map (\<lambda>ip. [''-d'', ip, ''-j'', ''ACCEPT'']) (filter (\<lambda>ip. CHR '':'' \<notin> set ip) (r_EndpointIPs r))
     @ (if r_Tunnel r \<noteq> [] then [[''-o'', r_Tunnel r, ''-j'', ''ACCEPT'']] else [])
     @ (if r_AllowLAN r \<or> 0 < length cidrs \<or> sp_Egress (r_Split r) then specs_of (iptablesResolverDrops s) else [])
     @ (if sp_Egress (r_Split r) then [[''-m'', ''mark'', ''--mark'', splitEgressMark, ''-j'', ''ACCEPT'']] else [])
     @ (if r_AllowLAN r then map (\<lambda>c. [''-d'', c, ''-j'', ''ACCEPT'']) LANAllowPrefixes else [])
     @ map (\<lambda>c. [''-d'', c, ''-j'', ''ACCEPT'']) cidrs @ [[''-j'', ''DROP'']])"
  unfolding output4_rules_def Let_def by (simp add: specs_simps withWait_def)

text \<open>A tunnel name nftables would take has no wildcard.\<close>

lemma plain_name: "r_Tunnel r = [] \<or> validTunnelInterfaceName (r_Tunnel r) \<Longrightarrow> r_Tunnel r \<noteq> [] \<Longrightarrow> iface_match (r_Tunnel r) n \<longleftrightarrow> n = r_Tunnel r"
proof -
  assume "r_Tunnel r = [] \<or> validTunnelInterfaceName (r_Tunnel r)" "r_Tunnel r \<noteq> []"
  then have "name_char (last (r_Tunnel r))" by (auto simp: validTunnelInterfaceName_def list_all_iff)
  moreover have "\<not> name_char CHR ''+''" by code_simp
  ultimately show ?thesis by (auto simp: iface_match_def)
qed

lemma walk_output4:
  assumes "r_Tunnel r = [] \<or> validTunnelInterfaceName (r_Tunnel r)" and "is4 (lp_dst p)"
  shows "walk n t (specs_of (output4_rules s r @ [ipt4 q [''-A'', s, ''-j'', ''DROP'']])) p = Some (host_policy r p)"
  using assms(2) plain_name [OF assms(1)]
  unfolding output4_specs Let_def
  by (cases "renderableSplitCIDRs (sp_CIDRs (r_Split r)) = []")
     (auto simp: walk_if walk_drops walk_accepts port_text proto_text host_policy_def dhcp_request_def to_endpoint_def opened_range_def
       ex_and ex_filter iface_match_def [of "''lo''"])

lemma walk_output6:
  assumes "\<not> is4 (lp_dst p)"
  shows "walk n t [[''-o'', ''lo'', ''-j'', ''ACCEPT''], [''-j'', ''DROP'']] p = Some (host_policy r p)"
  using assms by (auto simp: host_policy_def iface_match_def)

section \<open>The rebuilt lock\<close>

lemma output4_settled:
  assumes ob: "obeys run view" and fl: "flushes run view" and names: "s \<in> out4" "f \<in> fwd4"
    and r: "run_plan run (whole_plan s s6 f f6 r) k = (None, k')"
  shows "settled (view k' ''iptables'') ''OUTPUT'' s
    (specs_of (output4_rules s r @ [ipt4 ''add drop rule'' [''-A'', s, ''-j'', ''DROP'']]))"
proof -
  have n: "''OUTPUT'' \<noteq> s" using names apart by auto
  have build: "list_all (appends ''iptables'' s) (output4_rules s r @ [ipt4 ''add drop rule'' [''-A'', s, ''-j'', ''DROP'']])"
    by (simp add: output4_rules_def all_simps Let_def iptablesResolverDrops_def appends_def command_defs withWait_def)
  have after: "list_all (calm ''iptables'' ''OUTPUT'' s)
      (concat (map (retire4 ''OUTPUT'') (filter (\<lambda>c. c \<noteq> s) [iptChainName, iptChainNameAlt])) @ forward6_plan f6 @ forward4_plan f r)"
    unfolding list_all_append using n apart names by (intro conjI stale_calm other_binary_calm forward4_calm) auto
  show ?thesis
    by (rule installed [OF ob fl n _ _ _ _ _ _ _ build _ _ _ _ after, where ?p1.0 = "output6_plan s6" and k = k
          and ?c1.0 = "ipt4Optional [''-D'', ''OUTPUT'', ''-j'', s]" and ?c2.0 = "ipt4Optional [''-F'', s]"
          and ?c3.0 = "ipt4Optional [''-X'', s]" and ?c4.0 = "ipt4Create ''create chain'' [''-N'', s]"
          and hookup = "ipt4 ''insert jump'' [''-I'', ''OUTPUT'', ''1'', ''-j'', s]"])
       (use r in \<open>simp_all add: whole_plan_def iptablesApplyPlan_def iptablesForwardPlan_def output4_plan_def retire4_def command_defs\<close>)
qed

lemma output6_settled:
  assumes ob: "obeys run view" and fl: "flushes run view" and names: "s6 \<in> out6" "f6 \<in> fwd6"
    and r: "run_plan run (whole_plan s s6 f f6 r) k = (None, k')"
  shows "settled (view k' ''ip6tables'') ''OUTPUT'' s6 [[''-o'', ''lo'', ''-j'', ''ACCEPT''], [''-j'', ''DROP'']]"
proof -
  have n: "''OUTPUT'' \<noteq> s6" using names apart by auto
  let ?build = "[ipt6 ''allow IPv6 loopback'' [''-A'', s6, ''-o'', ''lo'', ''-j'', ''ACCEPT'']]"
  let ?close = "ipt6 ''add IPv6 drop rule'' [''-A'', s6, ''-j'', ''DROP'']"
  have build: "list_all (appends ''ip6tables'' s6) (?build @ [?close])"
    by (simp add: appends_def command_defs withWait_def)
  have after: "list_all (calm ''ip6tables'' ''OUTPUT'' s6)
      (concat (map (retire6 ''OUTPUT'') (filter (\<lambda>c. c \<noteq> s6) [ipt6ChainName, ipt6ChainNameAlt])) @ output4_plan s r @ forward6_plan f6 @ forward4_plan f r)"
    unfolding list_all_append using n apart names by (intro conjI stale_calm other_binary_calm forward6_calm) auto
  have "settled (view k' ''ip6tables'') ''OUTPUT'' s6 (specs_of (?build @ [?close]))"
    by (rule installed [OF ob fl n _ _ _ _ _ _ _ build _ _ _ _ after, where ?p1.0 = "[]" and k = k
          and ?c1.0 = "ipt6Optional [''-D'', ''OUTPUT'', ''-j'', s6]" and ?c2.0 = "ipt6Optional [''-F'', s6]"
          and ?c3.0 = "ipt6Optional [''-X'', s6]" and ?c4.0 = "ipt6Create ''create IPv6 chain'' [''-N'', s6]"
          and hookup = "ipt6 ''insert IPv6 jump'' [''-I'', ''OUTPUT'', ''1'', ''-j'', s6]"])
       (use r in \<open>simp_all add: whole_plan_def iptablesApplyPlan_def iptablesForwardPlan_def output6_plan_def retire6_def command_defs\<close>)
  then show ?thesis by (simp add: specs_simps withWait_def)
qed

lemma settled_walk:
  assumes "settled t ''OUTPUT'' s rs" and "s \<notin> {''ACCEPT'', ''DROP''}" and "walk 0 t rs p = Some v"
  shows "walk 1 t (rules_of t ''OUTPUT'') p = Some v"
  using assms by (cases "rules_of t ''OUTPUT''") (auto simp: settled_def jump_def)

lemma applied_plan:
  assumes "applyIPTablesRules run r k = (None, k')"
  shows "\<exists>s s6 f f6 k1. s \<in> out4 \<and> s6 \<in> out6 \<and> f \<in> fwd4 \<and> f6 \<in> fwd6 \<and> run_plan run (whole_plan s s6 f f6 r) k1 = (None, k')"
proof -
  obtain c1 c2 c3 c4 k1 where "run_plan run (whole_plan (iptablesStagingChain c1) (iptables6StagingChain c2)
      (iptablesForwardStagingChain c3) (iptables6ForwardStagingChain c4) r) k1 = (None, k')"
    using assms unfolding applyIPTablesRules_def whole_plan_def by (auto split: prod.splits option.splits)
  then show ?thesis using staging_names(1) [of c1] staging_names(2) [of c2] staging_names(3) [of c3] staging_names(4) [of c4] by blast
qed

lemma no_verdict_names: "s \<in> out4 \<or> s \<in> out6 \<Longrightarrow> s \<notin> {''ACCEPT'', ''DROP''}"
  by (auto simp: chain_names)


end
