(* ===== verification/Lock_Linux.thy ===== *)
theory Lock_Linux
  imports Lock_Policy
begin

text \<open>platform/killswitch_linux.go: the Linux kill switch as a state machine over its backends and its state file.  The
  backends are the seams the code declares (whether nftables is there, applying and removing either kind of rules),
  functions on a state of any type; reading, writing and removing the state file are arguments too.\<close>

section \<open>Seams and state\<close>

text \<open>What reading killswitch-state.json gave.\<close>

datatype lock_file = NoLockFile | UnreadableLock | LockFile KillSwitchState

record 'w lock_host =
  h_lookup :: "'w \<Rightarrow> nat \<Rightarrow> string \<Rightarrow> addr list option"
  h_nftAvailable :: "'w \<Rightarrow> bool"
  h_nftApply :: "ksRules \<Rightarrow> 'w \<Rightarrow> bool \<times> 'w"
  h_nftRemove :: "'w \<Rightarrow> bool \<times> 'w"
  h_iptApply :: "ksRules \<Rightarrow> 'w \<Rightarrow> bool \<times> 'w"
  h_iptRemove :: "'w \<Rightarrow> bool \<times> 'w"
  h_lockLive :: "'w \<Rightarrow> bool"
  h_file :: "'w \<Rightarrow> lock_file"
  h_save :: "KillSwitchState \<Rightarrow> 'w \<Rightarrow> bool \<times> 'w"
  h_removeFile :: "'w \<Rightarrow> bool \<times> 'w"
  h_now :: "'w \<Rightarrow> int"

record linuxKillSwitch =
  lk_active :: bool
  lk_useNFT :: bool
  lk_allowLAN :: bool
  lk_split :: splitPermits
  lk_liveAt :: int
  lk_live :: bool

definition new_switch :: linuxKillSwitch where
  "new_switch = \<lparr>lk_active = False, lk_useNFT = False, lk_allowLAN = False, lk_split = no_permits, lk_liveAt = 0, lk_live = False\<rparr>"

datatype lock_error = NoEndpoints | ApplyFailed | SaveFailed | NotActive | EmptyTunnel | StateUnread
  | ClearIncomplete bool bool | RemoveStateFailed | BadCIDR

type_synonym 'w switch_step = "lock_error option \<times> linuxKillSwitch \<times> 'w"

definition loadKillSwitchState :: "'w lock_host \<Rightarrow> 'w \<Rightarrow> KillSwitchState option" where
  "loadKillSwitchState H w = (case h_file H w of NoLockFile \<Rightarrow> Some zero_lock_state | UnreadableLock \<Rightarrow> None | LockFile st \<Rightarrow> Some st)"

text \<open>The state where an error of the load is ignored.\<close>

definition loaded_or_zero :: "'w lock_host \<Rightarrow> 'w \<Rightarrow> KillSwitchState" where
  "loaded_or_zero H w = (case loadKillSwitchState H w of Some st \<Rightarrow> st | None \<Rightarrow> zero_lock_state)"

section \<open>Operations\<close>

definition enable_rules :: "'w lock_host \<Rightarrow> ksRules \<Rightarrow> bool \<Rightarrow> 'w \<Rightarrow> bool option \<times> 'w" where
  "enable_rules H r active w =
    (let (useNFT, w1) = (if h_nftAvailable H w
           then (case h_nftApply H r w of
               (True, w1) \<Rightarrow> (True, w1)
             | (False, w1) \<Rightarrow> (False, if \<not> active then snd (h_nftRemove H w1) else w1))
           else (False, w))
     in if useNFT then (Some True, w1)
        else (case h_iptApply H r w1 of
            (True, w2) \<Rightarrow> (Some False, w2)
          | (False, w2) \<Rightarrow> (None, if \<not> active then snd (h_iptRemove H w2) else w2)))"

definition Enable :: "'w lock_host \<Rightarrow> string list \<Rightarrow> bool \<Rightarrow> bool \<Rightarrow> linuxKillSwitch \<Rightarrow> 'w \<Rightarrow> 'w switch_step" where
  "Enable H endpointHosts allowLAN locked0 ks w =
    (case resolveEndpointHosts (h_lookup H w) (loaded_or_zero H w) endpointHosts of
       None \<Rightarrow> (Some NoEndpoints, ks, w)
     | Some ips \<Rightarrow>
        (let prev = (if lk_active ks then loaded_or_zero H w else zero_lock_state);
             tunnel = (if lk_active ks then ks_TunnelInterface prev else []);
             locked = (locked0 \<or> (lk_active ks \<and> ks_Locked prev));
             r = \<lparr>r_EndpointIPs = ips, r_Tunnel = tunnel, r_AllowLAN = allowLAN, r_Split = lk_split ks\<rparr>
         in case enable_rules H r (lk_active ks) w of
              (None, w1) \<Rightarrow> (Some ApplyFailed, ks, w1)
            | (Some useNFT, w1) \<Rightarrow>
               (let ks1 = ks\<lparr>lk_useNFT := useNFT, lk_active := True, lk_allowLAN := allowLAN\<rparr>;
                    st = prev\<lparr>ks_Active := True, ks_AllowLAN := allowLAN, ks_EndpointIPs := ips, ks_TunnelInterface := tunnel, ks_Locked := locked\<rparr>
                in case h_save H st w1 of (True, w2) \<Rightarrow> (None, ks1, w2) | (False, w2) \<Rightarrow> (Some SaveFailed, ks1, w2))))"

text \<open>Re-applying the rules of the backend in use.\<close>

definition lock_render :: "'w lock_host \<Rightarrow> linuxKillSwitch \<Rightarrow> ksRules \<Rightarrow> 'w \<Rightarrow> bool \<times> 'w" where
  "lock_render H ks r w = (if lk_useNFT ks then h_nftApply H r w else h_iptApply H r w)"

definition rules_for :: "linuxKillSwitch \<Rightarrow> KillSwitchState \<Rightarrow> string \<Rightarrow> splitPermits \<Rightarrow> ksRules" where
  "rules_for ks st tunnel split = \<lparr>r_EndpointIPs = ks_EndpointIPs st, r_Tunnel = tunnel, r_AllowLAN = lk_allowLAN ks, r_Split = split\<rparr>"

definition lock_Update :: "'w lock_host \<Rightarrow> string \<Rightarrow> linuxKillSwitch \<Rightarrow> 'w \<Rightarrow> 'w switch_step" where
  "lock_Update H name ks w =
    (if \<not> lk_active ks then (Some NotActive, ks, w)
     else let tunnel = trim_space name in
       if tunnel = [] then (Some EmptyTunnel, ks, w)
       else case loadKillSwitchState H w of None \<Rightarrow> (Some StateUnread, ks, w)
       | Some st \<Rightarrow> (case lock_render H ks (rules_for ks st tunnel (lk_split ks)) w of
            (False, w1) \<Rightarrow> (Some ApplyFailed, ks, w1)
          | (True, w1) \<Rightarrow> (case h_save H (st\<lparr>ks_TunnelInterface := tunnel\<rparr>) w1 of
               (True, w2) \<Rightarrow> (None, ks, w2) | (False, w2) \<Rightarrow> (Some SaveFailed, ks, w2))))"

definition lock_Clear :: "'w lock_host \<Rightarrow> linuxKillSwitch \<Rightarrow> 'w \<Rightarrow> 'w switch_step" where
  "lock_Clear H ks0 w =
    (let ks = ks0\<lparr>lk_split := no_permits\<rparr>;
         (nft, w1) = h_nftRemove H w;
         (ipt, w2) = h_iptRemove H w1
     in if \<not> nft \<or> \<not> ipt then (Some (ClearIncomplete (\<not> nft) (\<not> ipt)), ks, w2)
        else (case h_removeFile H w2 of
            (True, w3) \<Rightarrow> (None, ks\<lparr>lk_active := False\<rparr>, w3)
          | (False, w3) \<Rightarrow> (Some RemoveStateFailed, ks\<lparr>lk_active := False\<rparr>, w3)))"

definition liveProbeTTL :: int where "liveProbeTTL = 1500"

text \<open>The cached answer of the kernel: h_lockLive is whether either backend holds the lock.\<close>

definition lockLive :: "'w lock_host \<Rightarrow> linuxKillSwitch \<Rightarrow> 'w \<Rightarrow> bool \<times> linuxKillSwitch" where
  "lockLive H ks w = (if h_now H w - lk_liveAt ks < liveProbeTTL then (lk_live ks, ks)
     else let live = h_lockLive H w in (live, ks\<lparr>lk_live := live, lk_liveAt := h_now H w\<rparr>))"

definition lock_Active :: "'w lock_host \<Rightarrow> linuxKillSwitch \<Rightarrow> 'w \<Rightarrow> bool \<times> linuxKillSwitch" where
  "lock_Active H ks w = (if lk_active ks then (True, ks) else lockLive H ks w)"

definition setSplit :: "'w lock_host \<Rightarrow> splitPermits \<Rightarrow> linuxKillSwitch \<Rightarrow> 'w \<Rightarrow> 'w switch_step" where
  "setSplit H next ks w =
    (if \<not> lk_active ks then (None, ks\<lparr>lk_split := next\<rparr>, w)
     else case loadKillSwitchState H w of
         None \<Rightarrow> (Some StateUnread, ks\<lparr>lk_split := narrowedSplit (lk_split ks) next\<rparr>, w)
       | Some st \<Rightarrow> (case lock_render H ks (rules_for ks st (ks_TunnelInterface st) next) w of
            (False, w1) \<Rightarrow> (Some ApplyFailed, ks\<lparr>lk_split := narrowedSplit (lk_split ks) next\<rparr>, w1)
          | (True, w1) \<Rightarrow> (None, ks\<lparr>lk_split := next\<rparr>, w1)))"

definition SetSplitEgress :: "'w lock_host \<Rightarrow> bool \<Rightarrow> linuxKillSwitch \<Rightarrow> 'w \<Rightarrow> 'w switch_step" where
  "SetSplitEgress H on ks w = setSplit H ((lk_split ks)\<lparr>sp_Egress := on\<rparr>) ks w"

definition SetSplitCIDRs :: "'w lock_host \<Rightarrow> string list \<Rightarrow> linuxKillSwitch \<Rightarrow> 'w \<Rightarrow> 'w switch_step" where
  "SetSplitCIDRs H cidrs ks w = (case normalizeSplitCIDRs cidrs of
      None \<Rightarrow> (Some BadCIDR, ks, w)
    | Some normalized \<Rightarrow> setSplit H ((lk_split ks)\<lparr>sp_CIDRs := normalized\<rparr>) ks w)"

definition DropTunnelPermit :: "'w lock_host \<Rightarrow> linuxKillSwitch \<Rightarrow> 'w \<Rightarrow> 'w switch_step" where
  "DropTunnelPermit H ks w =
    (if \<not> lk_active ks then (None, ks, w)
     else case loadKillSwitchState H w of None \<Rightarrow> (Some StateUnread, ks, w)
       | Some st \<Rightarrow> if ks_TunnelInterface st = [] then (None, ks, w)
          else (case lock_render H ks (rules_for ks st [] (lk_split ks)) w of
            (False, w1) \<Rightarrow> (Some ApplyFailed, ks, w1)
          | (True, w1) \<Rightarrow> (case h_save H (st\<lparr>ks_TunnelInterface := []\<rparr>) w1 of
               (True, w2) \<Rightarrow> (None, ks, w2) | (False, w2) \<Rightarrow> (Some SaveFailed, ks, w2))))"

datatype switch_op = OpEnable "string list" bool bool | OpUpdate string | OpClear | OpEgress bool | OpCIDRs "string list" | OpDropTunnel

fun switch_do :: "'w lock_host \<Rightarrow> switch_op \<Rightarrow> linuxKillSwitch \<Rightarrow> 'w \<Rightarrow> 'w switch_step" where
  "switch_do H (OpEnable hosts lan locked) = Enable H hosts lan locked"
| "switch_do H (OpUpdate name) = lock_Update H name"
| "switch_do H OpClear = lock_Clear H"
| "switch_do H (OpEgress on) = SetSplitEgress H on"
| "switch_do H (OpCIDRs cidrs) = SetSplitCIDRs H cidrs"
| "switch_do H OpDropTunnel = DropTunnelPermit H"

fun switch_run :: "'w lock_host \<Rightarrow> switch_op list \<Rightarrow> linuxKillSwitch \<Rightarrow> 'w \<Rightarrow> linuxKillSwitch \<times> 'w" where
  "switch_run H [] ks w = (ks, w)"
| "switch_run H (p # ps) ks w = (case switch_do H p ks w of (_, ks', w') \<Rightarrow> switch_run H ps ks' w')"

end
