(* ===== verification/Lock_Samples.thy ===== *)
theory Lock_Samples
  imports Lock_Policy "HOL-Library.AList"
begin

text \<open>Concrete kernels for the lock: one that behaves as documented, one whose flush never gets the lock of the
  tables, and rules to load into them.\<close>

type_synonym toy_chains = "(string \<times> string list list) list"
type_synonym toy_kernel = "(string \<times> toy_chains) list"

definition toy_step :: "string list \<Rightarrow> toy_chains \<Rightarrow> toy_chains option" where
  "toy_step args al = (case args of cmd # c # spec \<Rightarrow>
      (case map_of al c of
         None \<Rightarrow> if cmd = ''-N'' then Some (AList.update c [] al) else None
       | Some rs \<Rightarrow>
          if cmd = ''-F'' then Some (AList.update c [] al)
          else if cmd = ''-X'' then (if rs = [] \<and> \<not> hooked_anywhere (map_of al) c then Some (AList.delete c al) else None)
          else if cmd = ''-A'' then Some (AList.update c (rs @ [spec]) al)
          else if cmd = ''-I'' then Some (AList.update c (tl spec # rs) al)
          else if cmd = ''-D'' then (if spec \<in> set rs then Some (AList.update c (remove1 spec rs) al) else None)
          else if cmd = ''-C'' then (if spec \<in> set rs then Some al else None)
          else if cmd = ''-S'' then Some al
          else None)
    | _ \<Rightarrow> None)"

definition toy_view :: "toy_kernel \<Rightarrow> string \<Rightarrow> xt_tables" where
  "toy_view V b = map_of (case map_of V b of Some al \<Rightarrow> al | None \<Rightarrow> [])"

definition toy_run :: "toy_kernel ipt_run" where
  "toy_run b args V = (case toy_step (drop 2 args) (case map_of V b of Some al \<Rightarrow> al | None \<Rightarrow> []) of
      Some al \<Rightarrow> (Ran, AList.update b al V)
    | None \<Rightarrow> (Failed (Some 1) (if take 1 (drop 2 args) = [''-N''] then ''Chain already exists.'' else ''No such rule.''), V))"

definition stuck_run :: "toy_kernel ipt_run" where
  "stuck_run b args V = (if take 1 (drop 2 args) = [''-F''] then (Failed (Some 4) ''Another app is holding the lock.'', V) else toy_run b args V)"

lemma toy_step_exact: "map_option map_of (toy_step args al) = xt_step args (map_of al)"
  by (auto simp: toy_step_def xt_step_def AList.update_conv' AList.delete_conv' split: list.splits option.splits)

lemma toy_obeys: "obeys toy_run toy_view"
proof -
  have "obedient toy_view b args V (toy_run b (withWait args) V)" for b args V
    using toy_step_exact [of args "case map_of V b of Some al \<Rightarrow> al | None \<Rightarrow> []"]
    by (cases "toy_step args (case map_of V b of Some al \<Rightarrow> al | None \<Rightarrow> [])")
       (auto simp: obedient_def toy_run_def withWait_def toy_view_def AList.update_conv')
  then show ?thesis by (simp add: obeys_def)
qed

lemma stuck_obeys: "obeys stuck_run toy_view"
proof -
  have "obedient toy_view b args V (stuck_run b (withWait args) V)" for b args V
    using toy_obeys by (cases "take 1 args = [''-F'']") (simp_all add: obeys_def stuck_run_def obedient_def [of _ _ _ _ "(Failed _ _, _)"] withWait_def)
  then show ?thesis by (simp add: obeys_def)
qed

lemma toy_flushes: "flushes toy_run toy_view"
  by (auto simp: flushes_def toy_run_def withWait_def toy_step_def toy_view_def split: option.splits)

definition open_chains :: toy_chains where
  "open_chains = [(''OUTPUT'', []), (''FORWARD'', [])]"

definition open_host :: toy_kernel where
  "open_host = [(''iptables'', open_chains), (''ip6tables'', open_chains)]"

definition locked_host :: toy_kernel where
  "locked_host = [(''iptables'', [(''OUTPUT'', [[''-j'', ''PANGEAVPN_KS'']]), (''FORWARD'', []), (''PANGEAVPN_KS'', [[''-j'', ''DROP'']])]),
     (''ip6tables'', open_chains)]"

definition sample_rules :: ksRules where
  "sample_rules = \<lparr>r_EndpointIPs = [''198.51.100.7''], r_Tunnel = ''wg0'', r_AllowLAN = False,
     r_Split = \<lparr>sp_Egress = False, sp_CIDRs = [''192.0.2.0/24'']\<rparr>\<rparr>"

lemma rebuild_never_unlocks_witness:
  "list_all (\<lambda>s. filtered (toy_view s ''iptables'') ''OUTPUT'' [iptChainName, iptChainNameAlt])
     (snd (snd (applyIPTablesRules (watched toy_run) sample_rules (locked_host, []))))"
proof -
  have "filtered (toy_view locked_host ''iptables'') ''OUTPUT'' [iptChainName, iptChainNameAlt]" by code_simp
  then show ?thesis
    using rebuild_never_unlocks [OF toy_obeys, of "''iptables''" "''OUTPUT''" "[iptChainName, iptChainNameAlt]" locked_host sample_rules]
    by (simp add: lock_families_def)
qed

lemma sample_applied: "fst (applyIPTablesRules toy_run sample_rules open_host) = None"
  by code_simp

definition web_packet :: lock_packet where
  "web_packet = \<lparr>lp_out = ''wg0'', lp_in = [], lp_dst = V4 0xCB007109, lp_src = V4 0xC0000202, lp_l4 = TCP, lp_sport = 50000,
     lp_dport = 443, lp_mark = 0, lp_to_bridge = False, lp_bridged = False, lp_reply = False\<rparr>"


section \<open>A flush that fails is not noticed\<close>

definition lockdown_rules :: ksRules where
  "lockdown_rules = \<lparr>r_EndpointIPs = [], r_Tunnel = [], r_AllowLAN = False, r_Split = no_permits\<rparr>"

text \<open>What an apply cut short before its jump left behind: a chain with the permit of an old tunnel.\<close>

definition leftover_host :: toy_kernel where
  "leftover_host = [(''iptables'', [(''OUTPUT'', []), (''FORWARD'', []), (''PANGEAVPN_KS'', [[''-o'', ''wg0'', ''-j'', ''ACCEPT'']])]),
     (''ip6tables'', open_chains)]"

definition leftover_after :: toy_kernel where
  "leftover_after = [(''iptables'', [(''OUTPUT'', [[''-j'', ''PANGEAVPN_KS'']]), (''FORWARD'', [[''-j'', ''PANGEAVPN_KS_FWD'']]), 
       (''PANGEAVPN_KS'', [[''-o'', ''wg0'', ''-j'', ''ACCEPT''], [''-o'', ''lo'', ''-j'', ''ACCEPT''], [''-p'', ''udp'', ''--sport'', ''68'', ''--dport'', ''67'', ''-d'', ''255.255.255.255'', ''-j'', ''ACCEPT''], [''-j'', ''DROP'']]), 
       (''PANGEAVPN_KS_FWD'', [[''-m'', ''physdev'', ''--physdev-is-bridged'', ''-j'', ''ACCEPT''], [''-j'', ''DROP'']])]), 
     (''ip6tables'', [(''OUTPUT'', [[''-j'', ''PANGEAVPN_KS6'']]), (''FORWARD'', [[''-j'', ''PANGEAVPN_KS6_FWD'']]), 
       (''PANGEAVPN_KS6'', [[''-o'', ''lo'', ''-j'', ''ACCEPT''], [''-j'', ''DROP'']]), 
       (''PANGEAVPN_KS6_FWD'', [[''-m'', ''physdev'', ''--physdev-is-bridged'', ''-j'', ''ACCEPT''], [''-j'', ''DROP'']])])]"

lemma leftover_applied: "applyIPTablesRules stuck_run lockdown_rules leftover_host = (None, leftover_after)"
  by code_simp


end
