(* ===== verification/Lock_Books.thy ===== *)
theory Lock_Books
  imports Lock_Linux Lock_Samples
begin

text \<open>What the Linux kill switch keeps: a call that succeeds leaves the rules in force, the state file and the switch's
  memory in agreement, and a recorded Lockdown stays until it is cleared.  And what it does not: falling back to
  iptables leaves the old nftables table in force.\<close>

section \<open>The seams\<close>

text \<open>\<open>inforce w True\<close> is what the nftables table of \<open>w\<close> was rendered from, \<open>inforce w False\<close> what the iptables chains
  were.  A load of the table is one transaction; a failed rebuild of the chains may have left anything in them.  The
  state file is replaced by a rename or not at all.\<close>

definition seams :: "'w lock_host \<Rightarrow> ('w \<Rightarrow> bool \<Rightarrow> ksRules option) \<Rightarrow> bool" where
  "seams H inforce \<longleftrightarrow>
     (\<forall>r w. case h_nftApply H r w of (ok, w') \<Rightarrow>
        h_file H w' = h_file H w \<and> inforce w' False = inforce w False \<and> inforce w' True = (if ok then Some r else inforce w True)) \<and>
     (\<forall>r w. case h_iptApply H r w of (ok, w') \<Rightarrow>
        h_file H w' = h_file H w \<and> inforce w' True = inforce w True \<and> (ok \<longrightarrow> inforce w' False = Some r)) \<and>
     (\<forall>w. case h_nftRemove H w of (ok, w') \<Rightarrow> h_file H w' = h_file H w \<and> inforce w' False = inforce w False) \<and>
     (\<forall>w. case h_iptRemove H w of (ok, w') \<Rightarrow> h_file H w' = h_file H w \<and> inforce w' True = inforce w True) \<and>
     (\<forall>st w. case h_save H st w of (ok, w') \<Rightarrow> inforce w' = inforce w \<and> h_file H w' = (if ok then LockFile st else h_file H w))"

lemma seamsD:
  assumes "seams H inforce"
  shows "h_nftApply H r w = (ok, w') \<Longrightarrow> h_file H w' = h_file H w \<and> inforce w' False = inforce w False \<and> inforce w' True = (if ok then Some r else inforce w True)"
    and "h_iptApply H r w = (ok, w') \<Longrightarrow> h_file H w' = h_file H w \<and> inforce w' True = inforce w True \<and> (ok \<longrightarrow> inforce w' False = Some r)"
    and "h_nftRemove H w = (ok, w') \<Longrightarrow> h_file H w' = h_file H w \<and> inforce w' False = inforce w False"
    and "h_iptRemove H w = (ok, w') \<Longrightarrow> h_file H w' = h_file H w \<and> inforce w' True = inforce w True"
    and "h_save H st w = (ok, w') \<Longrightarrow> inforce w' = inforce w \<and> h_file H w' = (if ok then LockFile st else h_file H w)"
proof -
  note c = assms [unfolded seams_def]
  show "h_nftApply H r w = (ok, w') \<Longrightarrow> h_file H w' = h_file H w \<and> inforce w' False = inforce w False \<and> inforce w' True = (if ok then Some r else inforce w True)"
    using spec [OF spec [OF conjunct1 [OF c], of r], of w] by simp
  show "h_iptApply H r w = (ok, w') \<Longrightarrow> h_file H w' = h_file H w \<and> inforce w' True = inforce w True \<and> (ok \<longrightarrow> inforce w' False = Some r)"
    using spec [OF spec [OF conjunct1 [OF conjunct2 [OF c]], of r], of w] by simp
  show "h_nftRemove H w = (ok, w') \<Longrightarrow> h_file H w' = h_file H w \<and> inforce w' False = inforce w False"
    using spec [OF conjunct1 [OF conjunct2 [OF conjunct2 [OF c]]], of w] by simp
  show "h_iptRemove H w = (ok, w') \<Longrightarrow> h_file H w' = h_file H w \<and> inforce w' True = inforce w True"
    using spec [OF conjunct1 [OF conjunct2 [OF conjunct2 [OF conjunct2 [OF c]]]], of w] by simp
  show "h_save H st w = (ok, w') \<Longrightarrow> inforce w' = inforce w \<and> h_file H w' = (if ok then LockFile st else h_file H w)"
    using spec [OF spec [OF conjunct2 [OF conjunct2 [OF conjunct2 [OF conjunct2 [OF c]]]], of st], of w] by simp
qed

lemma render_does:
  assumes "seams H inforce" and "lock_render H ks r w = (ok, w')"
  shows "h_file H w' = h_file H w" and "ok \<Longrightarrow> inforce w' (lk_useNFT ks) = Some r"
  using assms(2) seamsD(1,2) [OF assms(1)] by (auto simp: lock_render_def split: if_splits)

lemma undo_files:
  assumes "seams H inforce"
  shows "h_file H (if b then snd (h_nftRemove H w) else w) = h_file H w" "h_file H (if b then snd (h_iptRemove H w) else w) = h_file H w"
  using seamsD(3) [OF assms surjective_pairing] seamsD(4) [OF assms surjective_pairing] by auto

lemma enable_does:
  assumes s: "seams H inforce" and e: "enable_rules H r active w = (answer, w')"
  shows "h_file H w' = h_file H w \<and> (\<forall>nft. answer = Some nft \<longrightarrow> inforce w' nft = Some r)"
proof -
  obtain ok1 w1 where n: "h_nftApply H r w = (ok1, w1)" by (metis surj_pair)
  note n' = seamsD(1) [OF s n]
  show ?thesis
  proof (cases "h_nftAvailable H w \<and> ok1")
    case True
    then show ?thesis using e n n' by (auto simp: enable_rules_def)
  next
    case False
    define w2 where "w2 = (if h_nftAvailable H w then (if \<not> active then snd (h_nftRemove H w1) else w1) else w)"
    have f2: "h_file H w2 = h_file H w" unfolding w2_def using n' undo_files(1) [OF s] by simp
    obtain ok3 w3 where i: "h_iptApply H r w2 = (ok3, w3)" by (metis surj_pair)
    note i' = seamsD(2) [OF s i]
    have "(answer, w') = (if ok3 then (Some False, w3) else (None, if \<not> active then snd (h_iptRemove H w3) else w3))"
      using e n i False by (cases "h_nftAvailable H w"; cases ok3) (simp_all add: enable_rules_def w2_def Let_def)
    then show ?thesis using i' f2 undo_files(2) [OF s, of "\<not> active" w3] by (cases ok3) (auto split: if_splits)
  qed
qed

section \<open>Success leaves memory, file and rules in agreement\<close>

definition in_step :: "'w lock_host \<Rightarrow> ('w \<Rightarrow> bool \<Rightarrow> ksRules option) \<Rightarrow> linuxKillSwitch \<Rightarrow> 'w \<Rightarrow> bool" where
  "in_step H inforce ks w \<longleftrightarrow> (lk_active ks \<longrightarrow> (case h_file H w of
     LockFile st \<Rightarrow> inforce w (lk_useNFT ks) = Some (rules_for ks st (ks_TunnelInterface st) (lk_split ks))
   | _ \<Rightarrow> False))"

lemma Enable_parts:
  assumes "Enable H hosts lan locked ks w = (res, ks', w')"
  shows "(\<exists>e. res = Some e \<and> ks' = ks \<and> (w' = w \<or> (\<exists>r. enable_rules H r (lk_active ks) w = (None, w')))) \<or>
    (\<exists>st nft w1 ok. enable_rules H (rules_for ks' st (ks_TunnelInterface st) (lk_split ks')) (lk_active ks) w = (Some nft, w1) \<and>
       ks' = ks\<lparr>lk_useNFT := nft, lk_active := True, lk_allowLAN := lan\<rparr> \<and> h_save H st w1 = (ok, w') \<and>
       (ks_Locked st \<longleftrightarrow> locked \<or> (lk_active ks \<and> ks_Locked (loaded_or_zero H w))) \<and> res = (if ok then None else Some SaveFailed))"
proof (cases "resolveEndpointHosts (h_lookup H w) (loaded_or_zero H w) hosts")
  case None
  then have "res = Some NoEndpoints" "ks' = ks" "w' = w" using assms by (simp_all add: Enable_def)
  then show ?thesis by blast
next
  case (Some ips)
  define prev where "prev = (if lk_active ks then loaded_or_zero H w else zero_lock_state)"
  define tunnel where "tunnel = (if lk_active ks then ks_TunnelInterface prev else [])"
  define r where "r = \<lparr>r_EndpointIPs = ips, r_Tunnel = tunnel, r_AllowLAN = lan, r_Split = lk_split ks\<rparr>"
  define st where "st = prev\<lparr>ks_Active := True, ks_AllowLAN := lan, ks_EndpointIPs := ips, ks_TunnelInterface := tunnel,
         ks_Locked := locked \<or> (lk_active ks \<and> ks_Locked prev)\<rparr>"
  obtain a w1 where e: "enable_rules H r (lk_active ks) w = (a, w1)" by (metis surj_pair)
  obtain ok w2 where v: "h_save H st w1 = (ok, w2)" by (metis surj_pair)
  have all: "Enable H hosts lan locked ks w = (case a of None \<Rightarrow> (Some ApplyFailed, ks, w1)
      | Some nft \<Rightarrow> (if ok then None else Some SaveFailed, ks\<lparr>lk_useNFT := nft, lk_active := True, lk_allowLAN := lan\<rparr>, w2))"
    unfolding Enable_def Some option.case Let_def prev_def [symmetric] tunnel_def [symmetric] r_def [symmetric] st_def [symmetric] e prod.case
    by (cases a; cases ok) (simp_all add: v)
  show ?thesis
  proof (cases a)
    case None
    then have "res = Some ApplyFailed" "ks' = ks" "w' = w1" using all assms by simp_all
    then show ?thesis using e None by blast
  next
    case (Some nft)
    then have "ks' = ks\<lparr>lk_useNFT := nft, lk_active := True, lk_allowLAN := lan\<rparr>" "w' = w2" "res = (if ok then None else Some SaveFailed)"
      using all assms by simp_all
    moreover have "r = rules_for ks' st (ks_TunnelInterface st) (lk_split ks')"
      unfolding r_def rules_for_def calculation by (simp add: st_def)
    moreover have "ks_Locked st \<longleftrightarrow> locked \<or> (lk_active ks \<and> ks_Locked (loaded_or_zero H w))"
      by (auto simp: st_def prev_def)
    ultimately show ?thesis using e v Some by blast
  qed
qed

lemma Enable_in_step:
  assumes s: "seams H inforce" and r: "Enable H hosts lan locked ks w = (None, ks', w')"
  shows "in_step H inforce ks' w'"
proof -
  obtain st nft w1 where e: "enable_rules H (rules_for ks' st (ks_TunnelInterface st) (lk_split ks')) (lk_active ks) w = (Some nft, w1)"
      and k: "ks' = ks\<lparr>lk_useNFT := nft, lk_active := True, lk_allowLAN := lan\<rparr>" and v: "h_save H st w1 = (True, w')"
    using Enable_parts [OF r] by (metis option.distinct(1))
  have "lk_useNFT ks' = nft" by (simp add: k)
  then show ?thesis using enable_does [OF s e] seamsD(5) [OF s v] by (simp add: in_step_def)
qed

lemma Update_in_step:
  assumes s: "seams H inforce" and r: "lock_Update H name ks w = (None, ks', w')"
  shows "in_step H inforce ks' w'"
proof -
  obtain st w1 where ld: "lk_active ks" "loadKillSwitchState H w = Some st" "ks' = ks"
      and a: "lock_render H ks (rules_for ks st (trim_space name) (lk_split ks)) w = (True, w1)"
      and v: "h_save H (st\<lparr>ks_TunnelInterface := trim_space name\<rparr>) w1 = (True, w')"
    using r unfolding lock_Update_def Let_def by (auto split: if_splits option.splits prod.splits bool.splits)
  show ?thesis using render_does [OF s a] seamsD(5) [OF s v] ld by (simp add: in_step_def rules_for_def)
qed

text \<open>The persisted state an armed switch reads: the file, when it agrees with the memory.\<close>

lemma in_step_file:
  "in_step H inforce ks w \<Longrightarrow> lk_active ks \<Longrightarrow> loadKillSwitchState H w = Some st \<Longrightarrow> h_file H w = LockFile st"
  by (auto simp: in_step_def loadKillSwitchState_def split: lock_file.splits)

lemma setSplit_in_step:
  assumes s: "seams H inforce" and i: "in_step H inforce ks w" and r: "setSplit H next ks w = (None, ks', w')"
  shows "in_step H inforce ks' w'"
proof (cases "lk_active ks")
  case True
  then obtain st where st: "loadKillSwitchState H w = Some st" "ks' = ks\<lparr>lk_split := next\<rparr>"
      and a: "lock_render H ks (rules_for ks st (ks_TunnelInterface st) next) w = (True, w')"
    using r unfolding setSplit_def by (auto split: option.splits prod.splits bool.splits)
  show ?thesis using render_does [OF s a] in_step_file [OF i True st(1)] st(2) by (simp add: in_step_def rules_for_def)
next
  case False
  then show ?thesis using r by (auto simp: setSplit_def in_step_def)
qed

lemma DropTunnelPermit_in_step:
  assumes s: "seams H inforce" and i: "in_step H inforce ks w" and r: "DropTunnelPermit H ks w = (None, ks', w')"
  shows "in_step H inforce ks' w'"
proof (cases "lk_active ks \<and> w' \<noteq> w")
  case True
  then obtain st w1 where st: "loadKillSwitchState H w = Some st" "ks' = ks"
      and a: "lock_render H ks (rules_for ks st [] (lk_split ks)) w = (True, w1)"
      and v: "h_save H (st\<lparr>ks_TunnelInterface := []\<rparr>) w1 = (True, w')"
    using r unfolding DropTunnelPermit_def by (auto split: if_splits option.splits prod.splits bool.splits)
  show ?thesis using render_does [OF s a] seamsD(5) [OF s v] st by (simp add: in_step_def rules_for_def)
next
  case False
  have "ks' = ks" using r unfolding DropTunnelPermit_def by (auto split: if_splits option.splits prod.splits bool.splits)
  with False i show ?thesis by (auto simp: in_step_def)
qed

lemma Clear_inactive: "lock_Clear H ks w = (None, ks', w') \<Longrightarrow> \<not> lk_active ks'"
  by (auto simp: lock_Clear_def Let_def split: prod.splits if_splits bool.splits)


section \<open>A recorded Lockdown stays\<close>

definition locked_down :: "'w lock_host \<Rightarrow> linuxKillSwitch \<Rightarrow> 'w \<Rightarrow> bool" where
  "locked_down H ks w \<longleftrightarrow> lk_active ks \<and> (case h_file H w of LockFile st \<Rightarrow> ks_Locked st | _ \<Rightarrow> False)"

lemma locked_load: "locked_down H ks w \<Longrightarrow> loadKillSwitchState H w = Some st \<Longrightarrow> h_file H w = LockFile st \<and> ks_Locked st"
  by (auto simp: locked_down_def loadKillSwitchState_def split: lock_file.splits)

lemma saved_locked:
  assumes "seams H inforce" and "h_save H st w1 = (ok, w')" and "ks_Locked st" and "h_file H w1 = h_file H w" and "locked_down H ks w"
    and "lk_active ks'"
  shows "locked_down H ks' w'"
  using seamsD(5) [OF assms(1,2)] assms(3-6) by (auto simp: locked_down_def split: if_splits)

lemma Enable_locked:
  assumes s: "seams H inforce" and l: "locked_down H ks w" and r: "Enable H hosts lan locked ks w = (res, ks', w')"
  shows "locked_down H ks' w'"
  using Enable_parts [OF r]
proof (elim disjE exE conjE, goal_cases)
  case (2 e rr)
  then show ?case using enable_does [OF s 2(3)] l by (simp add: locked_down_def)
next
  case (3 st nft w1 ok)
  have "ks_Locked (loaded_or_zero H w)" using l by (auto simp: locked_down_def loaded_or_zero_def loadKillSwitchState_def split: lock_file.splits)
  moreover have "lk_active ks" using l by (simp add: locked_down_def)
  moreover have "lk_active ks'" by (simp add: 3(2))
  ultimately show ?case using enable_does [OF s 3(1)] 3(4) by (intro saved_locked [OF s 3(3) _ _ l]) auto
qed (use l in simp)

lemma Update_locked:
  assumes s: "seams H inforce" and l: "locked_down H ks w" and r: "lock_Update H name ks w = (res, ks', w')"
  shows "locked_down H ks' w'"
proof -
  consider "ks' = ks" "h_file H w' = h_file H w"
    | st w1 ok where "ks' = ks" "loadKillSwitchState H w = Some st" "h_file H w1 = h_file H w"
        "h_save H (st\<lparr>ks_TunnelInterface := trim_space name\<rparr>) w1 = (ok, w')"
    using r unfolding lock_Update_def Let_def by (auto split: if_splits option.splits prod.splits bool.splits dest: render_does(1) [OF s])
  then show ?thesis
  proof cases
    case 2
    then show ?thesis using saved_locked [OF s 2(4) _ 2(3) l] locked_load [OF l 2(2)] l by (simp add: locked_down_def)
  qed (use l in \<open>simp add: locked_down_def\<close>)
qed

lemma Drop_locked:
  assumes s: "seams H inforce" and l: "locked_down H ks w" and r: "DropTunnelPermit H ks w = (res, ks', w')"
  shows "locked_down H ks' w'"
proof -
  consider "ks' = ks" "h_file H w' = h_file H w"
    | st w1 ok where "ks' = ks" "loadKillSwitchState H w = Some st" "h_file H w1 = h_file H w"
        "h_save H (st\<lparr>ks_TunnelInterface := []\<rparr>) w1 = (ok, w')"
    using r unfolding DropTunnelPermit_def by (auto split: if_splits option.splits prod.splits bool.splits dest: render_does(1) [OF s])
  then show ?thesis
  proof cases
    case 2
    then show ?thesis using saved_locked [OF s 2(4) _ 2(3) l] locked_load [OF l 2(2)] l by (simp add: locked_down_def)
  qed (use l in \<open>simp add: locked_down_def\<close>)
qed

lemma setSplit_locked:
  assumes s: "seams H inforce" and l: "locked_down H ks w" and r: "setSplit H next ks w = (res, ks', w')"
  shows "locked_down H ks' w'"
proof -
  have "lk_active ks' = lk_active ks" "h_file H w' = h_file H w"
    using r unfolding setSplit_def by (auto split: if_splits option.splits prod.splits bool.splits dest: render_does(1) [OF s])
  with l show ?thesis by (simp add: locked_down_def)
qed


section \<open>Runs on a concrete host\<close>

text \<open>A host whose nftables refuses the loads it is told to refuse.\<close>

record toy_world =
  tw_file :: lock_file
  tw_nft :: "ksRules option"
  tw_ipt :: "ksRules option"
  tw_refuse :: "bool list"

definition toy_host :: "toy_world lock_host" where
  "toy_host = \<lparr>h_lookup = (\<lambda>_ _ _. None), h_nftAvailable = (\<lambda>_. True),
     h_nftApply = (\<lambda>r w. case tw_refuse w of True # later \<Rightarrow> (False, w\<lparr>tw_refuse := later\<rparr>)
        | refuse \<Rightarrow> (True, w\<lparr>tw_nft := Some r, tw_refuse := drop 1 refuse\<rparr>)),
     h_nftRemove = (\<lambda>w. (True, w\<lparr>tw_nft := None\<rparr>)),
     h_iptApply = (\<lambda>r w. (True, w\<lparr>tw_ipt := Some r\<rparr>)),
     h_iptRemove = (\<lambda>w. (True, w\<lparr>tw_ipt := None\<rparr>)),
     h_lockLive = (\<lambda>w. tw_nft w \<noteq> None \<or> tw_ipt w \<noteq> None),
     h_file = tw_file, h_save = (\<lambda>st w. (True, w\<lparr>tw_file := LockFile st\<rparr>)),
     h_removeFile = (\<lambda>w. (True, w\<lparr>tw_file := NoLockFile\<rparr>)), h_now = (\<lambda>_. 0)\<rparr>"

definition toy_inforce :: "toy_world \<Rightarrow> bool \<Rightarrow> ksRules option" where
  "toy_inforce w nft = (if nft then tw_nft w else tw_ipt w)"

lemma toy_seams: "seams toy_host toy_inforce"
  by (auto simp: seams_def toy_host_def toy_inforce_def fun_eq_iff split: list.splits bool.splits)

definition fresh_world :: "bool list \<Rightarrow> toy_world" where
  "fresh_world refuse = \<lparr>tw_file = NoLockFile, tw_nft = None, tw_ipt = None, tw_refuse = refuse\<rparr>"

definition locked_switch :: linuxKillSwitch where
  "locked_switch = new_switch\<lparr>lk_active := True, lk_useNFT := True\<rparr>"

definition locked_world :: "bool list \<Rightarrow> toy_world" where
  "locked_world refuse = (fresh_world refuse)\<lparr>tw_file := LockFile (zero_lock_state\<lparr>ks_Active := True, ks_Locked := True\<rparr>), tw_nft := Some lockdown_rules\<rparr>"

lemmas toy_defs = toy_host_def fresh_world_def locked_switch_def locked_world_def new_switch_def zero_lock_state_def lockdown_rules_def no_permits_def

lemma toy_locked: "locked_down toy_host locked_switch (locked_world refuse)"
  by (simp add: locked_down_def toy_defs)

lemma toy_in_step: "in_step toy_host toy_inforce locked_switch (locked_world refuse)"
  by (simp add: in_step_def toy_inforce_def rules_for_def toy_defs)

lemma toy_resolve: "resolveEndpointHosts l st [''198.51.100.7''] = Some [''198.51.100.7'']"
proof -
  have "(case ParseAddr ''198.51.100.7'' of Some a \<Rightarrow> canonicalIPString a = ''198.51.100.7'' | None \<Rightarrow> False)" by code_simp
  moreover have "trim_space ''198.51.100.7'' = ''198.51.100.7''" by code_simp
  ultimately have "resolveEndpointIPs f ''198.51.100.7'' = Inr [''198.51.100.7'']" for f
    by (auto simp: resolveEndpointIPs_def Let_def split: option.splits)
  then show ?thesis by (simp add: resolveEndpointHosts_def add_seen_def)
qed

lemma toy_enable:
  "Enable toy_host [''198.51.100.7''] False False locked_switch (locked_world [True]) =
    (None, locked_switch\<lparr>lk_useNFT := False\<rparr>,
     (locked_world [])\<lparr>tw_ipt := Some (lockdown_rules\<lparr>r_EndpointIPs := [''198.51.100.7'']\<rparr>),
       tw_file := LockFile (zero_lock_state\<lparr>ks_Active := True, ks_EndpointIPs := [''198.51.100.7''], ks_Locked := True\<rparr>)\<rparr>)"
  by (simp add: Enable_def toy_resolve Let_def enable_rules_def loaded_or_zero_def loadKillSwitchState_def toy_defs)



definition tunnel_packet :: lock_packet where
  "tunnel_packet = web_packet\<lparr>lp_out := ''wg0''\<rparr>"


end
