(* ===== verification/Spec2Isabelle.thy ===== *)
theory Spec2Isabelle
  imports UAPI Transport_Cascade Config_Store Logs Engine_Escape Engine_Reactions Engine_Order Flow_Verdict Split_Store Session_Samples Session_Rounds Lock_Books
begin

text \<open>Verification development for the PangeaVPN daemon, the Go program under src/daemon that runs the VPN of the
  desktop application.

  \<^bold>\<open>The program.\<close>  The daemon's API server hands each request to the session service (api/service.go).  The
  service arms the kill switch, picks the transports of a profile, starts one of them and the WireGuard device over
  it, proves that traffic flows, and from then on checks the tunnel every few seconds and repairs it.  Around it
  stand the configuration store, the log, the split tunnel (a packet engine that sends the traffic of excluded
  programs outside the tunnel, and the process classifier that decides for it) and the kill switch's firewall rules.

  \<^bold>\<open>Conventions.\<close>  A Go struct is a record, an enumeration or an error a datatype, a pair of value and error a sum
  with the error on the left, a map a function to options (or an association list where order matters), a machine
  integer a word or an int with the wrap-around written out.  Strings are lists of ASCII characters; int and int64
  are the 64-bit ones.  A panic is None.  An operation under a mutex is one step.  Definitions keep the names of the
  source, and what is outside src/ is an argument.  Lines written to the log are left out, as is the wording of
  errors unless the program reads it.

  \<^bold>\<open>Routes and device configuration (wg/).\<close>  Net_Prefix and Net_Text model net/netip's addresses, prefixes and their
  text; Prefix_Sets and Allow_List the subtraction of ranges and the rewriting of AllowedIPs lines of wg/allowlan.go,
  and the route sync of wg/split_tunnel.go with its tracked list; WG_Config the reader of wg-quick files; UAPI the
  translation into device commands.  The lemmas give the address set every operation leaves, that ranges stay
  disjoint, that only the intended lines change, and that no value can inject a line.

  \<^bold>\<open>Profiles, transports and persistence (state/).\<close>  State_Types has the profile types, hop validation and the state
  machine of the connection; Transport_Cascade the order in which transports are tried and its memory;
  Config_Store the configuration file with validation, quarantine, backup and crash-safe writes, over a file system
  with explicit intermediate states and any JSON codec that reads back what it wrote; Logs the ring buffer and the
  rotating file.

  \<^bold>\<open>Split tunnel: packets (splittunnel/).\<close>  Packet parses IPv4 and builds UDP replies (the checksum of gVisor is an
  argument); Flow_Cache, Udp_Session and Frag_Tracker are the engine's tables; Engine_State, Engine_TCP, Engine_UDP
  and Engine its flows, queues, verdicts, deadlines, rule changes and shutdown as steps of one state.
  Engine_Account and Engine_Invariant keep the accounting invariant of all tables, Engine_Bounds the limits,
  Engine_Rules and Engine_Escape what may leave the tunnel, Engine_Deadlines and Engine_Reactions that no flow waits
  past its deadline, Engine_Order the order of packets; Engine_Env and Engine_Samples hold the environment and
  concrete runs.  One drain or step reads the clock once, and operations of the broker and the classifier answer
  through the environment; a rule set's match does not change within a generation.

  \<^bold>\<open>Split tunnel: programs (splittunnel/procmatch/).\<close>  Rule_Text, Rule_Normal, Rule_Policy, Rule_Match and Rule_Safety
  are the application rules of three systems; Lineage and Lineage_Invariant the process tree with its reference
  counts, for any order of Go's map iteration; Socket_Owners and Socket_Tables the readers of the kernel's socket
  tables, little-endian as on the supported machines; Flow_Verdict the macOS classifier, and that it meets the
  contract the engine's invariant assumes.  Split_Store holds the settings.

  \<^bold>\<open>The session (api/).\<close>  Go_Errors, Text_Match, Session_Hosts, Session_Timers and Session_Split hold the pure parts:
  errors, rewriting of configurations, hosts permitted outside the tunnel, schedules and split-tunnel
  reconciliation.  Session_State has the state \<open>svc\<close> of Service and the world it runs in: the managers, the kill
  switch, the store and the host answer as functions of a call counter, so that a theorem over all worlds covers
  every sequence of answers and failures; each call is an event of the trace.  Times are milliseconds with 0 for the
  zero time.  Session_Reach, Session_Bringup, Session_Gate, Session_Ops, Session_End, Session_Health and
  Session_Startup are the operations as programs in a state monad.  The kill-switch update that runs beside the
  handshake wait lands at the poll the world names; what other operations do while the health check does not hold
  the lock is an argument; the goroutines that refresh baselines and repair the network are a queue of tasks and a
  field.  Session_Logic and Session_Emits are the rules for what a program emits, Session_Safety the lock
  properties over any sequence of operations, Session_Verified what precedes CONNECTED, Session_Invariant the
  well-formedness of every reachable session, Session_Samples concrete worlds.  The waiting loops carry a number of
  rounds; Session_Rounds shows that any larger number gives the same answer, since they end by their deadline.

  \<^bold>\<open>The kill switch (platform/).\<close>  Lock_Permits has the permits and the resolution of endpoints, Lock_Nft the nftables
  table as rules and as text and the policy over packets it implements, Lock_IPTables the plans and loops of the
  fallback.  What an iptables command does is the hypothesis \<open>obeys\<close> of Lock_Kernel, documented behaviour with a
  concrete kernel in Lock_Samples that has it.  Lock_Rebuild shows that a rebuild never opens a locked host,
  Lock_Policy that a successful one gives the policy of the nftables table.  Lock_Linux is the switch itself over
  the seams of killswitch_linux.go and its state file; Lock_Books shows that a call that succeeds leaves memory,
  file and rules in agreement and that a recorded Lockdown stays until Clear.

  \<^bold>\<open>Not modelled, and why.\<close>  The kill switches of Windows and macOS, device and route setup, host events, self update
  and the Windows and Linux classifiers are system calls around small decisions; the transport managers and hub
  proxies drive third-party protocol libraries; the engine's controller, its device and network stack and the egress
  broker wrap gVisor and sockets; the API server and main decode requests and start the process; the mobile core is
  a program of its own, and the desktop and phone applications are not Go.  Of the modelled files, the status views,
  Uninstall and InstallUpdate, strict reverse-path settings, counters and self tests are left out.\<close>

end
